(* ===== verification/Prelude.thy ===== *)
theory Prelude
  imports Complex_Main "HOL-Library.AList" "HOL-Library.Sublist"
begin

text \<open>
  Shared vocabulary of the development: the fragment of JavaScript's standard library that
  the modelled TypeScript uses (strings, truthiness, JSON values, objects with ordered keys),
  the \<open>Result\<close> type of api/src/common/result.ts, the errors an awaited call can reject with,
  and generic lemmas on lists.

  A JavaScript string is modelled as a list of code units below 256, so the case and
  whitespace functions below are those of the Latin-1 range.
\<close>

named_theorems js_simps "evaluation rules for the JavaScript library functions"

section \<open>Strings\<close>

text \<open>\<open>String.prototype.trim\<close> strips the white space and line terminators of ECMAScript.\<close>

definition is_js_space :: "char \<Rightarrow> bool" where
  "is_js_space c \<longleftrightarrow> of_char c \<in> {9, 10, 11, 12, 13, 32, 160 :: nat}"

definition js_trim :: "string \<Rightarrow> string" where
  "js_trim s = rev (dropWhile is_js_space (rev (dropWhile is_js_space s)))"

text \<open>\<open>toLowerCase\<close> on A-Z and on the capital letters 192 to 222, the sign 215 excepted.\<close>

definition lower_char :: "char \<Rightarrow> char" where
  "lower_char c = (let n = of_char c :: nat in
     if 65 \<le> n \<and> n \<le> 90 \<or> 192 \<le> n \<and> n \<le> 222 \<and> n \<noteq> 215 then char_of (n + 32) else c)"

definition js_lower :: "string \<Rightarrow> string" where
  "js_lower s = map lower_char s"

text \<open>\<open>includes\<close>, \<open>startsWith\<close> and \<open>endsWith\<close>.\<close>

definition js_includes :: "string \<Rightarrow> string \<Rightarrow> bool" where
  "js_includes s t = sublist t s"

definition js_starts_with :: "string \<Rightarrow> string \<Rightarrow> bool" where
  "js_starts_with s t = prefix t s"

definition js_ends_with :: "string \<Rightarrow> string \<Rightarrow> bool" where
  "js_ends_with s t = suffix t s"

text \<open>\<open>s.split(sep)\<close> for a separator of one character; the result is never empty.\<close>

fun split_at :: "char \<Rightarrow> string \<Rightarrow> string list" where
  "split_at c [] = [[]]"
| "split_at c (x # xs) =
     (if x = c then [] # split_at c xs
      else (case split_at c xs of [] \<Rightarrow> [[x]] | y # ys \<Rightarrow> (x # y) # ys))"

text \<open>\<open>xs.join(sep)\<close>.\<close>

fun js_join :: "string \<Rightarrow> string list \<Rightarrow> string" where
  "js_join sep [] = []"
| "js_join sep [x] = x"
| "js_join sep (x # y # ys) = x @ sep @ js_join sep (y # ys)"

text \<open>Destructuring \<open>const [a, b] = xs\<close>: a missing element is undefined.\<close>

definition nth_opt :: "'a list \<Rightarrow> nat \<Rightarrow> 'a option" where
  "nth_opt xs i = (if i < length xs then Some (xs ! i) else None)"

text \<open>\<open>n.toString()\<close> of a non-negative integer and \<open>padStart(k, "0")\<close>.\<close>

fun nat_to_string :: "nat \<Rightarrow> string" where
  "nat_to_string n =
     (if n < 10 then [char_of (48 + n)]
      else nat_to_string (n div 10) @ [char_of (48 + n mod 10)])"

declare nat_to_string.simps [simp del]

definition int_text :: "int \<Rightarrow> string" where
  "int_text n = (if n < 0 then CHR ''-'' # nat_to_string (nat (- n)) else nat_to_string (nat n))"

definition pad_zero :: "nat \<Rightarrow> string \<Rightarrow> string" where
  "pad_zero k s = replicate (k - length s) (CHR ''0'') @ s"

definition is_digit :: "char \<Rightarrow> bool" where
  "is_digit c \<longleftrightarrow> 48 \<le> (of_char c :: nat) \<and> (of_char c :: nat) \<le> 57"

definition is_lower_alnum :: "char \<Rightarrow> bool" where
  "is_lower_alnum c \<longleftrightarrow> is_digit c \<or> 97 \<le> (of_char c :: nat) \<and> (of_char c :: nat) \<le> 122"

text \<open>\<open>parseInt(s)\<close>: white space, a sign, a prefix for hexadecimal, then the digits up to the first
  other character; None is NaN.\<close>

definition digit_of :: "char \<Rightarrow> nat option" where
  "digit_of c = (let n = of_char c :: nat in
     if 48 \<le> n \<and> n \<le> 57 then Some (n - 48)
     else if 65 \<le> n \<and> n \<le> 70 then Some (n - 55)
     else if 97 \<le> n \<and> n \<le> 102 then Some (n - 87) else None)"

definition digits_in :: "nat \<Rightarrow> string \<Rightarrow> nat list" where
  "digits_in base s = map (\<lambda>c. the (digit_of c))
     (takeWhile (\<lambda>c. case digit_of c of None \<Rightarrow> False | Some d \<Rightarrow> d < base) s)"

definition js_parseInt :: "string \<Rightarrow> int option" where
  "js_parseInt s = (let t = dropWhile is_js_space s;
      neg = (take 1 t = ''-'');
      u = (if take 1 t = ''-'' \<or> take 1 t = ''+'' then drop 1 t else t);
      hex = (take 2 u = ''0x'' \<or> take 2 u = ''0X'');
      base = (if hex then 16 else 10);
      ds = digits_in base (if hex then drop 2 u else u) in
    if ds = [] then None
    else Some ((if neg then - 1 else 1) * int (foldl (\<lambda>n d. base * n + d) 0 ds)))"

text \<open>The class \<open>[a-zA-Z0-9_-]\<close>.\<close>

definition is_id_char :: "char \<Rightarrow> bool" where
  "is_id_char c \<longleftrightarrow> is_lower_alnum c \<or> 65 \<le> (of_char c :: nat) \<and> (of_char c :: nat) \<le> 90
     \<or> c = CHR ''_'' \<or> c = CHR ''-''"

text \<open>Truthiness of a string and of an optional string.\<close>

abbreviation truthy :: "string \<Rightarrow> bool" where
  "truthy s \<equiv> s \<noteq> []"

fun truthy_opt :: "string option \<Rightarrow> bool" where
  "truthy_opt None = False"
| "truthy_opt (Some s) = truthy s"

text \<open>\<open>x || d\<close> and \<open>x ?? d\<close> on an optional string.\<close>

definition or_else :: "string option \<Rightarrow> string \<Rightarrow> string" where
  "or_else x d = (case x of Some s \<Rightarrow> if s = [] then d else s | None \<Rightarrow> d)"

section \<open>JSON values and objects\<close>

datatype json =
    JNull
  | JBool bool
  | JNum rat
  | JStr string
  | JArr "json list"
  | JObj "(string \<times> json) list"

text \<open>
  An object is its list of entries in key order; reading a key that is absent gives
  undefined, and writing one keeps the position of an entry that is already there, which is
  what \<open>AList.update\<close> does.
\<close>

type_synonym js_object = "(string \<times> json) list"

definition str_field :: "js_object \<Rightarrow> string \<Rightarrow> string option" where
  "str_field ob k = (case map_of ob k of Some (JStr s) \<Rightarrow> Some s | _ \<Rightarrow> None)"

definition obj_put :: "js_object \<Rightarrow> string \<Rightarrow> json \<Rightarrow> js_object" where
  "obj_put ob k v = AList.update k v ob"

fun json_truthy :: "json \<Rightarrow> bool" where
  "json_truthy JNull = False"
| "json_truthy (JBool b) = b"
| "json_truthy (JNum q) = (q \<noteq> 0)"
| "json_truthy (JStr s) = (s \<noteq> [])"
| "json_truthy (JArr _) = True"
| "json_truthy (JObj _) = True"

section \<open>Result and errors\<close>

text \<open>
  \<open>Result<T, E>\<close> of api/src/common/result.ts: \<open>Ok\<close> sets data and success, \<open>Failure\<close>
  sets error; the functions of that file build nothing else.
\<close>

datatype ('a, 'e) result = Ok 'a | Failure 'e

abbreviation is_ok :: "('a, 'e) result \<Rightarrow> bool" where
  "is_ok r \<equiv> (case r of Ok _ \<Rightarrow> True | Failure _ \<Rightarrow> False)"

text \<open>
  What an awaited call can reject with: an \<open>Error\<close> with an optional \<open>code\<close> property, its
  message and an optional \<open>cause\<close>; an \<open>AggregateError\<close>; or one of the Nest HTTP
  exceptions, by status.
\<close>

datatype js_error =
    Err (err_code: "string option") (err_message: string) (err_cause: "js_error option")
  | AggregateErr "js_error list" string
  | Http nat string

text \<open>\<open>errorMessage\<close> of result.ts on an \<open>Error\<close> value: all of the above are one.\<close>

fun errorMessage :: "js_error \<Rightarrow> string" where
  "errorMessage (Err _ m _) = m"
| "errorMessage (AggregateErr _ m) = m"
| "errorMessage (Http _ m) = m"

text \<open>\<open>hasErrorCode(error)\<close> with the code it then reads.\<close>

fun error_code :: "js_error \<Rightarrow> string option" where
  "error_code (Err c _ _) = c"
| "error_code (AggregateErr _ _) = None"
| "error_code (Http _ _) = None"

section \<open>Lists\<close>

lemma split_at_not_Nil [simp]: "split_at c s \<noteq> []"
  by (induction s) (auto split: list.splits)

lemma split_at_no_sep: "c \<notin> set s \<Longrightarrow> split_at c s = [s]"
  by (induction s) auto

lemma split_at_append_sep: "c \<notin> set s \<Longrightarrow> split_at c (s @ c # t) = s # split_at c t"
  by (induction s) auto

lemma split_at_elems: "x \<in> set (split_at c s) \<Longrightarrow> c \<notin> set x"
  by (induction s arbitrary: x) (auto split: list.splits if_splits)

lemma js_join_split_at: "js_join [c] (split_at c s) = s"
proof (induction s)
  case Nil
  then show ?case by simp
next
  case (Cons x xs)
  note IH = this
  show ?case
  proof (cases "split_at c xs")
    case Nil
    then show ?thesis by simp
  next
    case (Cons y ys)
    then show ?thesis using IH by (cases ys) auto
  qed
qed

lemma js_lower_idem: "js_lower (js_lower s) = js_lower s"
proof -
  have "lower_char (lower_char c) = lower_char c" for c
    by (auto simp: lower_char_def Let_def)
  then show ?thesis by (simp add: js_lower_def)
qed

lemma filter_length_le_1_unique:
  "length (filter P xs) \<le> 1 \<Longrightarrow> x \<in> set xs \<Longrightarrow> y \<in> set xs \<Longrightarrow> P x \<Longrightarrow> P y \<Longrightarrow> x = y"
proof -
  assume le: "length (filter P xs) \<le> 1" and mem: "x \<in> set xs" "y \<in> set xs" "P x" "P y"
  then have "x \<in> set (filter P xs)" "y \<in> set (filter P xs)" by auto
  with le show "x = y"
    by (cases "filter P xs") (auto simp: length_Suc_conv)
qed

lemma find_own:
  "find P xs = None \<longleftrightarrow> (\<forall>x\<in>set xs. \<not> P x)"
  "find P xs = Some x \<Longrightarrow> P x \<and> x \<in> set xs \<and> filter P xs = x # tl (filter P xs)"
  by (induction xs) (auto split: if_splits)

section \<open>Digits, trimming and case\<close>

definition digits_value :: "string \<Rightarrow> nat" where
  "digits_value s = foldl (\<lambda>n c. 10 * n + (of_char c - 48)) 0 s"

lemma digits_value_nat_to_string [simp]: "digits_value (nat_to_string n) = n"
proof (induction n rule: nat_to_string.induct)
  case (1 n)
  then show ?case
    by (subst nat_to_string.simps) (auto simp: digits_value_def)
qed

lemma nat_to_string_inj [simp]: "nat_to_string m = nat_to_string n \<longleftrightarrow> m = n"
  using digits_value_nat_to_string by metis

lemma digits_value_append: "digits_value (s @ t) = digits_value s * 10 ^ length t + digits_value t"
proof (induction t rule: rev_induct)
  case (snoc c t)
  then show ?case by (simp add: digits_value_def algebra_simps)
qed (simp add: digits_value_def)

lemma digits_value_zeros [simp]: "digits_value (replicate k (CHR ''0'')) = 0"
proof (induction k)
  case (Suc k)
  then show ?case by (simp only: replicate_append_same [symmetric] replicate_Suc digits_value_append) (simp add: digits_value_def)
qed (simp add: digits_value_def)

lemma digits_value_pad_zero [simp]: "digits_value (pad_zero k s) = digits_value s"
  by (simp add: pad_zero_def digits_value_append)

lemma length_pad_zero [simp]: "length (pad_zero k s) = max k (length s)"
  by (simp add: pad_zero_def max_def)

lemma length_nat_to_string: "0 < k \<Longrightarrow> length (nat_to_string n) \<le> k \<longleftrightarrow> n < 10 ^ k"
proof (induction n arbitrary: k rule: nat_to_string.induct)
  case (1 n)
  have "(10::nat) \<le> 10 ^ k" using 1(2) self_le_power [of 10 k] by simp
  show ?case
  proof (cases "n < 10")
    case True
    then show ?thesis using \<open>10 \<le> 10 ^ k\<close> 1(2) by (subst nat_to_string.simps) simp
  next
    case False
    obtain j where k: "k = Suc j" using 1(2) by (cases k) auto
    have len: "length (nat_to_string n) = Suc (length (nat_to_string (n div 10)))"
      using False by (subst nat_to_string.simps) simp
    show ?thesis
    proof (cases j)
      case 0
      have "length (nat_to_string (n div 10)) \<noteq> 0" by (subst nat_to_string.simps) simp
      then show ?thesis using False len k 0 by simp
    next
      case (Suc i)
      then show ?thesis using 1(1) [OF False, of j] len k by (simp add: div_less_iff_less_mult mult.commute)
    qed
  qed
qed

lemma digits_nat_to_string: "list_all is_digit (nat_to_string n)"
proof (induction n rule: nat_to_string.induct)
  case (1 n)
  have "is_digit (char_of (48 + k))" if "k < 10" for k :: nat using that by (simp add: is_digit_def)
  moreover have "n mod 10 < 10" by simp
  ultimately show ?case using 1 by (subst nat_to_string.simps) (cases "n < 10"; simp only: if_True if_False list_all_append list.pred_inject; blast)
qed

lemma digits_pad_zero: "list_all is_digit s \<Longrightarrow> list_all is_digit (pad_zero k s)"
  by (induction k) (auto simp: pad_zero_def is_digit_def list_all_iff)

lemma digits_value_less: "list_all is_digit s \<Longrightarrow> digits_value s < 10 ^ length s"
proof (induction s rule: rev_induct)
  case (snoc c s)
  then have "digits_value s < 10 ^ length s" "of_char c - 48 < (10 :: nat)" by (auto simp: is_digit_def)
  moreover have "digits_value (s @ [c]) = 10 * digits_value s + (of_char c - 48)" by (simp add: digits_value_def)
  moreover have "length (s @ [c]) = Suc (length s)" by simp
  ultimately show ?case by (simp only: power_Suc)
qed (simp add: digits_value_def)

text \<open>Digits of a fixed length are determined by their value.\<close>

lemma digits_value_inj:
  "length s = length t \<Longrightarrow> list_all is_digit s \<Longrightarrow> list_all is_digit t \<Longrightarrow> digits_value s = digits_value t \<Longrightarrow> s = t"
proof (induction s arbitrary: t rule: rev_induct)
  case (snoc c s)
  then obtain d t' where t: "t = t' @ [d]" "length s = length t'" by (cases t rule: rev_cases) auto
  define m n where "m = (of_char c :: nat) - 48" and "n = (of_char d :: nat) - 48"
  have c: "of_char c = m + 48" "m < 10" "of_char d = n + 48" "n < 10"
    using snoc.prems t by (auto simp: is_digit_def m_def n_def)
  have "10 * digits_value s + m = 10 * digits_value t' + n"
    using snoc.prems(4) t by (simp add: digits_value_def m_def n_def)
  then have "digits_value s = digits_value t'" "m = n" using c by presburger+
  then have "of_char c = (of_char d :: nat)" using c by simp
  then have "c = d" by (metis char_of_char)
  then show ?case using snoc t \<open>digits_value s = digits_value t'\<close> by simp
qed simp

text \<open>\<open>parseInt\<close> of a decimal.\<close>

lemma parseInt_digits:
  assumes "list_all is_digit s" "s \<noteq> []"
  shows "js_parseInt s = Some (int (digits_value s))"
proof -
  obtain c r where s: "s = c # r" "is_digit c" using assms by (cases s) auto
  have dig: "digit_of x = Some (of_char x - 48) \<and> of_char x - 48 < (10 :: nat)" if "is_digit x" for x
    using that by (auto simp: digit_of_def is_digit_def Let_def)
  have ds: "digits_in 10 t = map (\<lambda>x. of_char x - 48) t" if "list_all is_digit t" for t
    using that by (induction t) (auto simp: digits_in_def dig)
  have "\<not> is_js_space c" "c \<noteq> CHR ''-''" "c \<noteq> CHR ''+''" using s(2) by (auto simp: is_js_space_def is_digit_def)
  moreover have "take 2 s \<noteq> ''0x''" "take 2 s \<noteq> ''0X''"
    using assms s(1) by (cases r; auto simp: is_digit_def)+
  ultimately have "js_parseInt s = (let ds = digits_in 10 s in if ds = [] then None else Some (1 * int (foldl (\<lambda>n d. 10 * n + d) 0 ds)))"
    using s(1) by (simp only: js_parseInt_def Let_def dropWhile.simps if_False take_Suc_Cons One_nat_def take_0 list.inject simp_thms)
  then show ?thesis
    using assms by (simp add: Let_def ds digits_value_def foldl_map)
qed

lemma is_js_space_lower [simp]: "is_js_space (lower_char c) = is_js_space c"
  by (auto simp: is_js_space_def lower_char_def Let_def)

lemma js_trim_lower: "js_trim (js_lower s) = js_lower (js_trim s)"
  by (simp add: js_trim_def js_lower_def dropWhile_map rev_map o_def)

lemma dropWhile_rev_dropWhile:
  "dropWhile P (rev (dropWhile P (rev (dropWhile P xs)))) = rev (dropWhile P (rev (dropWhile P xs)))"
proof (cases "dropWhile P xs")
  case (Cons y ys)
  then have "\<not> P y" by (metis dropWhile_eq_Cons_conv)
  then show ?thesis
    by (simp add: Cons dropWhile_append dropWhile_eq_self_iff hd_append)
next
  case Nil
  then show ?thesis by (simp only: rev.simps dropWhile.simps)
qed

lemma js_trim_idem: "js_trim (js_trim s) = js_trim s"
  by (simp add: js_trim_def dropWhile_rev_dropWhile)

section \<open>Tables and lists seen through a function\<close>

lemma insort_key_through: "insort_key f (g x) (map g xs) = map g (insort_key (f \<circ> g) x xs)"
  by (induction xs) simp_all

lemma sort_key_through: "sort_key f (map g xs) = map g (sort_key (f \<circ> g) xs)"
  by (induction xs) (simp_all add: insort_key_through [unfolded comp_def] comp_def)

lemma update_through:
  "inj kf \<Longrightarrow> AList.update (kf k) (vf v) (map (\<lambda>(a, b). (kf a, vf b)) xs) = map (\<lambda>(a, b). (kf a, vf b)) (AList.update k v xs)"
  by (induction xs) (auto simp: inj_eq)

lemma lookup_through: "inj kf \<Longrightarrow> map_of (map (\<lambda>(a, b). (kf a, vf b)) xs) (kf k) = map_option vf (map_of xs k)"
  by (induction xs) (auto simp: inj_eq)

lemma delete_through:
  "inj kf \<Longrightarrow> AList.delete (kf k) (map (\<lambda>(a, b). (kf a, vf b)) xs) = map (\<lambda>(a, b). (kf a, vf b)) (AList.delete k xs)"
  by (induction xs) (auto simp: inj_eq)

end
