(* ===== verification/JsIo.thy ===== *)
theory JsIo
  imports Prelude
begin

text \<open>
  Asynchronous code of the program as a state-and-exception monad: a computation reads and
  writes a world and either resolves with a value (\<open>Inr\<close>) or rejects with a \<open>js_error\<close>
  (\<open>Inl\<close>). The theory gives the combinators, the simplification rules that evaluate them,
  and two program logics over them: \<open>preserves\<close> for invariants that hold whatever the
  outcome, and \<open>triple\<close> for postconditions of the two outcomes.
\<close>

type_synonym ('w, 'a) io = "'w \<Rightarrow> (js_error + 'a) \<times> 'w"

named_theorems io_simps "evaluation of computations"
named_theorems preserves_intros "invariant rules, one per combinator and operation"

definition io_return :: "'a \<Rightarrow> ('w, 'a) io" where
  "io_return x = (\<lambda>w. (Inr x, w))"

definition io_throw :: "js_error \<Rightarrow> ('w, 'a) io" where
  "io_throw e = (\<lambda>w. (Inl e, w))"

text \<open>\<open>await m\<close> followed by the rest of the function.\<close>

definition io_bind :: "('w, 'a) io \<Rightarrow> ('a \<Rightarrow> ('w, 'b) io) \<Rightarrow> ('w, 'b) io" where
  "io_bind m f = (\<lambda>w. case m w of (Inl e, w') \<Rightarrow> (Inl e, w') | (Inr x, w') \<Rightarrow> f x w')"

text \<open>\<open>try { m } catch (e) { h e }\<close>.\<close>

definition io_catch :: "('w, 'a) io \<Rightarrow> (js_error \<Rightarrow> ('w, 'a) io) \<Rightarrow> ('w, 'a) io" where
  "io_catch m h = (\<lambda>w. case m w of (Inl e, w') \<Rightarrow> h e w' | (Inr x, w') \<Rightarrow> (Inr x, w'))"

text \<open>\<open>try { m } finally { f }\<close>: a rejection of the cleanup replaces the outcome.\<close>

definition io_finally :: "('w, 'a) io \<Rightarrow> ('w, unit) io \<Rightarrow> ('w, 'a) io" where
  "io_finally m f = (\<lambda>w. case m w of (r, w') \<Rightarrow> (case f w' of (Inl e, w'') \<Rightarrow> (Inl e, w'') | (Inr _, w'') \<Rightarrow> (r, w'')))"

definition io_get :: "('w \<Rightarrow> 'a) \<Rightarrow> ('w, 'a) io" where
  "io_get f = (\<lambda>w. (Inr (f w), w))"

definition io_modify :: "('w \<Rightarrow> 'w) \<Rightarrow> ('w, unit) io" where
  "io_modify f = (\<lambda>w. (Inr (), f w))"

text \<open>\<open>if (c) throw e;\<close>\<close>

definition throw_if :: "bool \<Rightarrow> js_error \<Rightarrow> ('w, unit) io" where
  "throw_if c e = (if c then io_throw e else io_return ())"

text \<open>\<open>for (const x of xs) await f(x)\<close>.\<close>

fun io_for :: "'a list \<Rightarrow> ('a \<Rightarrow> ('w, unit) io) \<Rightarrow> ('w, unit) io" where
  "io_for [] f = io_return ()"
| "io_for (x # xs) f = io_bind (f x) (\<lambda>_. io_for xs f)"

section \<open>Evaluation rules\<close>

lemma io_return_run [io_simps, simp]: "io_return x w = (Inr x, w)"
  by (simp add: io_return_def)

lemma io_throw_run [io_simps, simp]: "io_throw e w = (Inl e, w)"
  by (simp add: io_throw_def)

lemma io_get_run [io_simps, simp]: "io_get f w = (Inr (f w), w)"
  by (simp add: io_get_def)

lemma io_modify_run [io_simps, simp]: "io_modify f w = (Inr (), f w)"
  by (simp add: io_modify_def)

lemma throw_if_run [io_simps]: "throw_if c e w = (if c then (Inl e, w) else (Inr (), w))"
  by (simp add: throw_if_def)

lemma io_bind_run [io_simps]:
  "io_bind m f w = (case m w of (Inl e, w') \<Rightarrow> (Inl e, w') | (Inr x, w') \<Rightarrow> f x w')"
  by (simp add: io_bind_def)

lemma io_catch_run [io_simps]:
  "io_catch m h w = (case m w of (Inl e, w') \<Rightarrow> h e w' | (Inr x, w') \<Rightarrow> (Inr x, w'))"
  by (simp add: io_catch_def)

lemma io_finally_run [io_simps]:
  "io_finally m f w = (case m w of (r, w') \<Rightarrow> (case f w' of (Inl e, w'') \<Rightarrow> (Inl e, w'') | (Inr _, w'') \<Rightarrow> (r, w'')))"
  by (simp add: io_finally_def)

lemma io_finally_InrE:
  assumes "io_finally m f w = (Inr x, w')"
  obtains w1 where "m w = (Inr x, w1)" "f w1 = (Inr (), w')"
  using assms by (auto simp: io_finally_run split: prod.splits sum.splits)

lemma io_bind_Inr: "m w = (Inr x, w') \<Longrightarrow> io_bind m f w = f x w'"
  by (simp add: io_bind_run)

lemma io_bind_Inl: "m w = (Inl e, w') \<Longrightarrow> io_bind m f w = (Inl e, w')"
  by (simp add: io_bind_run)

lemma io_bind_InrE:
  assumes "io_bind m f w = (Inr x, w')"
  obtains y w1 where "m w = (Inr y, w1)" "f y w1 = (Inr x, w')"
  using assms by (auto simp: io_bind_run split: prod.splits sum.splits)

text \<open>A guard: go on in the same world, or stop with an error.\<close>

lemma io_bind_guard:
  "m w = (if c then (Inl e, w) else (Inr x, w)) \<Longrightarrow> io_bind m f w = (if c then (Inl e, w) else f x w)"
  by (simp add: io_bind_run)

lemma io_bind_throw_if: "io_bind (throw_if c e) f w = (if c then (Inl e, w) else f () w)"
  by (simp add: io_bind_run throw_if_run)

lemma io_bind_return [simp]: "io_bind (io_return x) f = f x"
  by (simp add: io_bind_def fun_eq_iff)

lemma io_bind_throw [simp]: "io_bind (io_throw e) f = io_throw e"
  by (simp add: io_bind_def fun_eq_iff)

lemma io_bind_assoc: "io_bind (io_bind m f) g = io_bind m (\<lambda>x. io_bind (f x) g)"
  by (auto simp: io_bind_def fun_eq_iff split: prod.splits sum.splits)

section \<open>Invariants\<close>

definition preserves :: "('w \<Rightarrow> bool) \<Rightarrow> ('w, 'a) io \<Rightarrow> bool" where
  "preserves I m \<longleftrightarrow> (\<forall>w. I w \<longrightarrow> I (snd (m w)))"

lemma preservesI: "(\<And>w. I w \<Longrightarrow> I (snd (m w))) \<Longrightarrow> preserves I m"
  by (simp add: preserves_def)

lemma preservesD: "preserves I m \<Longrightarrow> I w \<Longrightarrow> I (snd (m w))"
  by (simp add: preserves_def)

lemma preserves_return [preserves_intros]: "preserves I (io_return x)"
  by (simp add: preserves_def)

lemma preserves_throw [preserves_intros]: "preserves I (io_throw e)"
  by (simp add: preserves_def)

lemma preserves_get [preserves_intros]: "preserves I (io_get f)"
  by (simp add: preserves_def)

lemma preserves_throw_if [preserves_intros]: "preserves I (throw_if c e)"
  by (simp add: preserves_def throw_if_def)

lemma preserves_bind [preserves_intros]:
  "preserves I m \<Longrightarrow> (\<And>x. preserves I (f x)) \<Longrightarrow> preserves I (io_bind m f)"
  by (fastforce simp: preserves_def io_bind_def split: prod.splits sum.splits)

lemma preserves_catch [preserves_intros]:
  "preserves I m \<Longrightarrow> (\<And>e. preserves I (h e)) \<Longrightarrow> preserves I (io_catch m h)"
  by (fastforce simp: preserves_def io_catch_def split: prod.splits sum.splits)

lemma preserves_finally [preserves_intros]: "preserves I m \<Longrightarrow> preserves I f \<Longrightarrow> preserves I (io_finally m f)"
  by (fastforce simp: preserves_def io_finally_def split: prod.splits sum.splits)

lemma preserves_if [preserves_intros]:
  "(c \<Longrightarrow> preserves I m) \<Longrightarrow> (\<not> c \<Longrightarrow> preserves I n) \<Longrightarrow> preserves I (if c then m else n)"
  by simp

lemma preserves_option [preserves_intros]:
  "preserves I m \<Longrightarrow> (\<And>x. preserves I (f x)) \<Longrightarrow>
     preserves I (case v of None \<Rightarrow> m | Some x \<Rightarrow> f x)"
  by (cases v) auto

lemma preserves_result [preserves_intros]:
  "(\<And>x. preserves I (f x)) \<Longrightarrow> (\<And>e. preserves I (g e)) \<Longrightarrow>
     preserves I (case r of Ok x \<Rightarrow> f x | Failure e \<Rightarrow> g e)"
  by (cases r) auto

lemma preserves_for [preserves_intros]:
  "(\<And>x. preserves I (f x)) \<Longrightarrow> preserves I (io_for xs f)"
  by (induction xs) (auto intro: preserves_intros)

section \<open>Postconditions\<close>

definition triple :: "('w \<Rightarrow> bool) \<Rightarrow> ('w, 'a) io \<Rightarrow> ('a \<Rightarrow> 'w \<Rightarrow> bool) \<Rightarrow> (js_error \<Rightarrow> 'w \<Rightarrow> bool) \<Rightarrow> bool" where
  "triple P m Q E \<longleftrightarrow>
     (\<forall>w. P w \<longrightarrow> (case m w of (Inr x, w') \<Rightarrow> Q x w' | (Inl e, w') \<Rightarrow> E e w'))"

lemma tripleI:
  "(\<And>w. P w \<Longrightarrow> (case m w of (Inr x, w') \<Rightarrow> Q x w' | (Inl e, w') \<Rightarrow> E e w')) \<Longrightarrow> triple P m Q E"
  by (simp add: triple_def)

lemma triple_Inr: "triple P m Q E \<Longrightarrow> P w \<Longrightarrow> m w = (Inr x, w') \<Longrightarrow> Q x w'"
  by (fastforce simp: triple_def)

lemma triple_Inl: "triple P m Q E \<Longrightarrow> P w \<Longrightarrow> m w = (Inl e, w') \<Longrightarrow> E e w'"
  by (fastforce simp: triple_def)

lemma triple_conseq:
  "triple P m Q E \<Longrightarrow> (\<And>w. P' w \<Longrightarrow> P w) \<Longrightarrow> (\<And>x w. Q x w \<Longrightarrow> Q' x w) \<Longrightarrow>
     (\<And>e w. E e w \<Longrightarrow> E' e w) \<Longrightarrow> triple P' m Q' E'"
  by (fastforce simp: triple_def split: prod.splits sum.splits)

lemma triple_return: "triple (Q x) (io_return x) Q E"
  by (simp add: triple_def)

lemma triple_throw: "triple (E e) (io_throw e) Q E"
  by (simp add: triple_def)

lemma triple_bind:
  "triple P m R E \<Longrightarrow> (\<And>x. triple (R x) (f x) Q E) \<Longrightarrow> triple P (io_bind m f) Q E"
  by (fastforce simp: triple_def io_bind_def split: prod.splits sum.splits)

lemma triple_catch:
  "triple P m Q R \<Longrightarrow> (\<And>e. triple (R e) (h e) Q E) \<Longrightarrow> triple P (io_catch m h) Q E"
  by (fastforce simp: triple_def io_catch_def split: prod.splits sum.splits)

lemma preserves_triple: "preserves I m \<longleftrightarrow> triple I m (\<lambda>_. I) (\<lambda>_. I)"
  by (simp add: preserves_def triple_def case_prod_beta sum.case_eq_if)

section \<open>Views\<close>

text \<open>
  Reasoning about a part of the world, its view \<open>K\<close>: a computation that \<open>observes\<close> the view leaves
  it as it was, and what it returns stands in relation \<open>V\<close> to it; one that \<open>leaves\<close> the view
  \<open>k\<close> in \<open>Q\<close> ends, whatever its outcome, with a view that satisfies \<open>Q\<close>.
\<close>

definition observes :: "('w \<Rightarrow> 'k) \<Rightarrow> ('k \<Rightarrow> 'a \<Rightarrow> bool) \<Rightarrow> ('w, 'a) io \<Rightarrow> bool" where
  "observes K V m \<longleftrightarrow> (\<forall>w. K (snd (m w)) = K w \<and> (\<forall>x. fst (m w) = Inr x \<longrightarrow> V (K w) x))"

definition leaves :: "('w \<Rightarrow> 'k) \<Rightarrow> 'k \<Rightarrow> ('k \<Rightarrow> bool) \<Rightarrow> ('w, 'a) io \<Rightarrow> bool" where
  "leaves K k Q m \<longleftrightarrow> (\<forall>w. K w = k \<longrightarrow> Q (K (snd (m w))))"

lemma observesI:
  "(\<And>w. K (snd (m w)) = K w) \<Longrightarrow> (\<And>w x w'. m w = (Inr x, w') \<Longrightarrow> V (K w) x) \<Longrightarrow> observes K V m"
  by (auto simp: observes_def prod_eq_iff)

lemma observesD:
  "observes K V m \<Longrightarrow> m w = (r, w') \<Longrightarrow> K w' = K w"
  "observes K V m \<Longrightarrow> m w = (Inr x, w') \<Longrightarrow> V (K w) x"
  unfolding observes_def by (metis snd_conv) (metis fst_conv)

lemma observes_weaken: "observes K V m \<Longrightarrow> (\<And>k x. V k x \<Longrightarrow> V' k x) \<Longrightarrow> observes K V' m"
  by (simp add: observes_def)

lemma observes_preserves: "(\<And>k. preserves (\<lambda>w. K w = k) m) \<Longrightarrow> observes K (\<lambda>_ _. True) m"
  by (simp add: observes_def preserves_def)

lemma observes_return: "observes K (\<lambda>_ y. y = x) (io_return x)"
  by (simp add: observes_def)

lemma observes_bind:
  assumes "observes K V m" "\<And>x. observes K (W x) (f x)"
  shows "observes K (\<lambda>k y. \<exists>x. V k x \<and> W x k y) (io_bind m f)"
proof (rule observesI)
  fix w
  obtain r w1 where m: "m w = (r, w1)" by (cases "m w")
  show "K (snd (io_bind m f w)) = K w"
    using m observesD(1) [OF assms(1) m] assms(2) by (cases r) (simp_all add: io_bind_run observes_def)
next
  fix w y w' assume run: "io_bind m f w = (Inr y, w')"
  then obtain x w1 where m: "m w = (Inr x, w1)" "f x w1 = (Inr y, w')"
    by (auto simp: io_bind_run split: prod.splits sum.splits)
  then show "\<exists>x. V (K w) x \<and> W x (K w) y"
    using observesD(1) [OF assms(1) m(1)] observesD(2) [OF assms(1) m(1)] observesD(2) [OF assms(2) m(2)] by auto
qed

lemma leavesI: "(\<And>w. K w = k \<Longrightarrow> Q (K (snd (m w)))) \<Longrightarrow> leaves K k Q m"
  by (simp add: leaves_def)

lemma leavesD: "leaves K k Q m \<Longrightarrow> K w = k \<Longrightarrow> Q (K (snd (m w)))"
  by (simp add: leaves_def)

lemma leaves_mono: "leaves K k Q m \<Longrightarrow> (\<And>k. Q k \<Longrightarrow> Q' k) \<Longrightarrow> leaves K k Q' m"
  by (simp add: leaves_def)

lemma leaves_return: "Q k \<Longrightarrow> leaves K k Q (io_return x)"
  by (simp add: leaves_def)

lemma leaves_throw: "Q k \<Longrightarrow> leaves K k Q (io_throw e)"
  by (simp add: leaves_def)

lemma leaves_read:
  assumes "observes K V m" "Q k" "\<And>x. V k x \<Longrightarrow> leaves K k Q (f x)"
  shows "leaves K k Q (io_bind m f)"
proof (rule leavesI)
  fix w assume w: "K w = k"
  obtain r w1 where m: "m w = (r, w1)" by (cases "m w")
  then have w1: "K w1 = k" using observesD(1) [OF assms(1) m] w by simp
  show "Q (K (snd (io_bind m f w)))"
  proof (cases r)
    case (Inl e)
    then show ?thesis using m w1 assms(2) by (simp add: io_bind_run)
  next
    case (Inr x)
    then have "V k x" using observesD(2) [OF assms(1)] m w by blast
    from leavesD [OF assms(3) [OF this] w1] show ?thesis using m Inr by (simp add: io_bind_run)
  qed
qed

lemma leaves_bind:
  assumes "leaves K k Q m" "\<And>x k'. Q k' \<Longrightarrow> leaves K k' Q (f x)"
  shows "leaves K k Q (io_bind m f)"
proof (rule leavesI)
  fix w assume w: "K w = k"
  obtain r w1 where m: "m w = (r, w1)" by (cases "m w")
  have "Q (K w1)" using leavesD [OF assms(1) w] m by simp
  then show "Q (K (snd (io_bind m f w)))"
    using m leavesD [OF assms(2) refl] by (cases r) (simp_all add: io_bind_run)
qed

lemma leaves_observes: "observes K V m \<Longrightarrow> Q k \<Longrightarrow> leaves K k Q m"
  by (simp add: observes_def leaves_def)

lemma leaves_catch_return:
  "leaves K k Q m \<Longrightarrow> leaves K k Q (io_catch m (\<lambda>e. io_return (h e)))"
  by (rule leavesI, drule (1) leavesD) (auto simp: io_catch_run split: prod.splits sum.splits)

lemma leaves_if: "(c \<Longrightarrow> leaves K k Q m) \<Longrightarrow> (\<not> c \<Longrightarrow> leaves K k Q n) \<Longrightarrow> leaves K k Q (if c then m else n)"
  by simp

lemma leaves_result:
  "(\<And>x. r = Ok x \<Longrightarrow> leaves K k Q (f x)) \<Longrightarrow> (\<And>e. r = Failure e \<Longrightarrow> leaves K k Q (g e)) \<Longrightarrow>
     leaves K k Q (case r of Ok x \<Rightarrow> f x | Failure e \<Rightarrow> g e)"
  by (cases r) auto

lemma leaves_option:
  "(v = None \<Longrightarrow> leaves K k Q m) \<Longrightarrow> (\<And>x. v = Some x \<Longrightarrow> leaves K k Q (f x)) \<Longrightarrow>
     leaves K k Q (case v of None \<Rightarrow> m | Some x \<Rightarrow> f x)"
  by (cases v) auto

text \<open>A computation that never rejects, as every method whose body is one \<open>try\<close> block.\<close>

definition never_rejects :: "('w, 'a) io \<Rightarrow> bool" where
  "never_rejects m \<longleftrightarrow> (\<forall>w. \<exists>x w'. m w = (Inr x, w'))"

lemma never_rejectsE:
  assumes "never_rejects m"
  obtains x w' where "m w = (Inr x, w')"
  using assms unfolding never_rejects_def by blast

lemma never_rejects_return: "never_rejects (io_return x)"
  by (simp add: never_rejects_def)

lemma never_rejects_catch: "(\<And>e. never_rejects (h e)) \<Longrightarrow> never_rejects (io_catch m h)"
  by (fastforce simp: never_rejects_def io_catch_def split: prod.splits sum.splits)

lemma never_rejects_bind:
  "never_rejects m \<Longrightarrow> (\<And>x. never_rejects (f x)) \<Longrightarrow> never_rejects (io_bind m f)"
  unfolding never_rejects_def io_bind_def by (metis (no_types, lifting) case_prod_conv sum.case(2))

end
