(* ===== verification/Schema.thy ===== *)
theory Schema
  imports JsIo
begin

text \<open>
  The tables of api/src/database/schema and the world the API runs in: the five tables, the
  object store, the messages published to NATS, the clock, and the schedule of failures of
  the awaited external calls. Dates are milliseconds.
\<close>

section \<open>Rows\<close>

text \<open>users.ts: \<open>usersTable\<close>.\<close>

record user_row =
  user_id :: string
  user_username :: string
  user_email :: string
  user_passwordHash :: string
  user_firstName :: "string option"
  user_lastName :: "string option"
  user_role :: string
  user_sessionVersion :: int
  user_isActive :: bool
  user_isEmailVerified :: bool
  user_lastLoginAt :: "int option"
  user_metadata :: "json option"
  user_createdAt :: int
  user_updatedAt :: int

text \<open>users.ts: \<open>adminMutationLocksTable\<close>.\<close>

record lock_row =
  lock_id :: string
  lock_lockedAt :: int

text \<open>users.ts: \<open>apiKeysTable\<close>.\<close>

record api_key_row =
  key_id :: string
  key_userId :: string
  key_name :: string
  key_keyValue :: string
  key_isActive :: bool
  key_lastUsedAt :: "int option"
  key_createdAt :: int
  key_updatedAt :: int

text \<open>
  custom-bot.types.ts: \<open>CustomBotConfig\<close>, with the entries of \<open>entrypoints\<close> in order
  (\<open>bot\<close>, then \<open>query\<close> when it is given) and the JSON schema of \<open>schema.bot\<close> as a value.
\<close>

record custom_bot_config =
  cc_name :: string
  cc_description :: "string option"
  cc_version :: string
  cc_type :: string
  cc_runtime :: string
  cc_author :: "string option"
  cc_entrypoints :: "(string \<times> string) list"
  cc_schema_bot :: js_object
  cc_readme :: string
  cc_hasFrontend :: "bool option"
  cc_metadata :: "json option"

text \<open>custom-bots.ts: \<open>customBotsTable\<close>.\<close>

record custom_bot_row =
  cb_id :: string
  cb_userId :: string
  cb_name :: string
  cb_version :: string
  cb_config :: custom_bot_config
  cb_filePath :: string
  cb_status :: string
  cb_createdAt :: int
  cb_updatedAt :: int

text \<open>bots.ts: \<open>botsTable\<close>; its config is a JSON object, \<open>BotConfig\<close> names four of the keys.\<close>

record bot_row =
  bot_id :: string
  bot_userId :: string
  bot_customBotId :: string
  bot_name :: string
  bot_config :: js_object
  bot_topic :: "string option"
  bot_createdAt :: int
  bot_updatedAt :: int

section \<open>Events and objects\<close>

text \<open>The payloads that bot.service.ts publishes: \<open>custom\<close> is absent on deletion.\<close>

record event_custom =
  ec_config :: custom_bot_config
  ec_createdAt :: int
  ec_updatedAt :: int
  ec_filePath :: string
  ec_version :: string

record bot_event =
  ev_id :: string
  ev_config :: js_object
  ev_custom :: "event_custom option"

text \<open>An object of the MinIO store: its bytes and the ETag the store gave it.\<close>

record stored_object =
  so_data :: string
  so_etag :: string

section \<open>The world\<close>

text \<open>
  A failure of one awaited external call: it can fail before it takes effect, or take effect
  and still be reported as failed (a connection lost while waiting for the reply).
\<close>

datatype fault = NoFault | FailBefore js_error | FailAfter js_error

record world =
  users :: "user_row list"
  admin_locks :: "lock_row list"
  api_keys :: "api_key_row list"
  custom_bots :: "custom_bot_row list"
  bots :: "bot_row list"
  objects :: "((string \<times> string) \<times> stored_object) list"
  messages :: "(string \<times> bot_event) list"
  clock :: int
  ticks :: "nat list"
  faults :: "fault list"
  nonce :: nat
  dup_error :: js_error
  fk_error :: js_error

text \<open>
  \<open>ticks\<close> lists how far the clock moves between consecutive readings, \<open>faults\<close> the outcome
  of consecutive external calls (all succeed once it is empty), \<open>nonce\<close> numbers the random
  values drawn so far; \<open>dup_error\<close> and \<open>fk_error\<close> are the errors with which the database
  driver reports a violated unique or foreign key constraint. Every theorem holds for all of
  them unless it says otherwise.
\<close>

section \<open>Clock, randomness and external calls\<close>

definition js_now :: "(world, int) io" where
  "js_now = (\<lambda>w. case ticks w of
      [] \<Rightarrow> (Inr (clock w), w)
    | t # ts \<Rightarrow> (Inr (clock w + int t), w\<lparr>clock := clock w + int t, ticks := ts\<rparr>))"

definition draw :: "(nat \<Rightarrow> 'a) \<Rightarrow> (world, 'a) io" where
  "draw gen = (\<lambda>w. (Inr (gen (nonce w)), w\<lparr>nonce := Suc (nonce w)\<rparr>))"

definition external :: "(world, 'a) io \<Rightarrow> (world, 'a) io" where
  "external m = (\<lambda>w. case faults w of
      [] \<Rightarrow> m w
    | NoFault # fs \<Rightarrow> m (w\<lparr>faults := fs\<rparr>)
    | FailBefore e # fs \<Rightarrow> (Inl e, w\<lparr>faults := fs\<rparr>)
    | FailAfter e # fs \<Rightarrow> (Inl e, snd (m (w\<lparr>faults := fs\<rparr>))))"

section \<open>SQL statements\<close>

text \<open>
  A table is a field of the world with the constraint its schema declares (the error an
  offending statement gets) and what deleting rows does to the tables that reference it
  (\<open>onDelete: "cascade"\<close>).
\<close>

record 'r table =
  t_rows :: "world \<Rightarrow> 'r list"
  t_put :: "'r list \<Rightarrow> world \<Rightarrow> world"
  t_check :: "world \<Rightarrow> 'r list \<Rightarrow> js_error option"
  t_cascade :: "'r list \<Rightarrow> world \<Rightarrow> world"

text \<open>\<open>db.select().from(t).where(P)\<close>.\<close>

definition db_select :: "'r table \<Rightarrow> ('r \<Rightarrow> bool) \<Rightarrow> (world, 'r list) io" where
  "db_select t P = external (io_get (\<lambda>w. filter P (t_rows t w)))"

text \<open>\<open>... .orderBy(desc(k))\<close>: descending, rows with equal keys in table order.\<close>

definition order_desc :: "('r \<Rightarrow> int) \<Rightarrow> 'r list \<Rightarrow> 'r list" where
  "order_desc k rs = sort_key (\<lambda>r. - k r) rs"

text \<open>A statement that replaces the rows of a table, unless the constraints refuse.\<close>

definition db_store :: "'r table \<Rightarrow> 'r list \<Rightarrow> 'a \<Rightarrow> (world, 'a) io" where
  "db_store t rs x = (\<lambda>w. case t_check t w rs of
      Some e \<Rightarrow> (Inl e, w)
    | None \<Rightarrow> (Inr x, t_put t rs w))"

text \<open>\<open>db.insert(t).values(r).returning()\<close>.\<close>

definition db_insert :: "'r table \<Rightarrow> 'r \<Rightarrow> (world, 'r) io" where
  "db_insert t r = external (\<lambda>w. db_store t (t_rows t w @ [r]) r w)"

text \<open>\<open>db.update(t).set(f).where(P).returning()\<close>: the updated rows.\<close>

definition db_update :: "'r table \<Rightarrow> ('r \<Rightarrow> bool) \<Rightarrow> ('r \<Rightarrow> 'r) \<Rightarrow> (world, 'r list) io" where
  "db_update t P f = external (\<lambda>w. db_store t (map (\<lambda>r. if P r then f r else r) (t_rows t w))
     (map f (filter P (t_rows t w))) w)"

text \<open>\<open>db.delete(t).where(P)\<close>.\<close>

definition db_delete :: "'r table \<Rightarrow> ('r \<Rightarrow> bool) \<Rightarrow> (world, unit) io" where
  "db_delete t P = external (io_modify (\<lambda>w. t_cascade t (filter P (t_rows t w))
     (t_put t (filter (\<lambda>r. \<not> P r) (t_rows t w)) w)))"

section \<open>The tables\<close>

definition usersTable :: "user_row table" where
  "usersTable = \<lparr>t_rows = users, t_put = (\<lambda>rs w. w\<lparr>users := rs\<rparr>),
     t_check = (\<lambda>w rs. if distinct (map user_id rs) \<and> distinct (map user_username rs)
                          \<and> distinct (map user_email rs) then None else Some (dup_error w)),
     t_cascade = (\<lambda>gone w. w\<lparr>
        api_keys := filter (\<lambda>k. key_userId k \<notin> user_id ` set gone) (api_keys w),
        custom_bots := filter (\<lambda>c. cb_userId c \<notin> user_id ` set gone) (custom_bots w),
        bots := filter (\<lambda>b. bot_userId b \<notin> user_id ` set gone) (bots w)\<rparr>)\<rparr>"

definition adminMutationLocksTable :: "lock_row table" where
  "adminMutationLocksTable = \<lparr>t_rows = admin_locks, t_put = (\<lambda>rs w. w\<lparr>admin_locks := rs\<rparr>),
     t_check = (\<lambda>w rs. if distinct (map lock_id rs) then None else Some (dup_error w)),
     t_cascade = (\<lambda>_ w. w)\<rparr>"

definition apiKeysTable :: "api_key_row table" where
  "apiKeysTable = \<lparr>t_rows = api_keys, t_put = (\<lambda>rs w. w\<lparr>api_keys := rs\<rparr>),
     t_check = (\<lambda>w rs. if \<not> distinct (map key_id rs) then Some (dup_error w)
        else if \<forall>k\<in>set rs. key_userId k \<in> user_id ` set (users w) then None else Some (fk_error w)),
     t_cascade = (\<lambda>_ w. w)\<rparr>"

definition customBotsTable :: "custom_bot_row table" where
  "customBotsTable = \<lparr>t_rows = custom_bots, t_put = (\<lambda>rs w. w\<lparr>custom_bots := rs\<rparr>),
     t_check = (\<lambda>w rs. if \<not> distinct (map cb_id rs) then Some (dup_error w)
        else if \<forall>c\<in>set rs. cb_userId c \<in> user_id ` set (users w) then None else Some (fk_error w)),
     t_cascade = (\<lambda>gone w. w\<lparr>bots := filter (\<lambda>b. bot_customBotId b \<notin> cb_id ` set gone) (bots w)\<rparr>)\<rparr>"

definition botsTable :: "bot_row table" where
  "botsTable = \<lparr>t_rows = bots, t_put = (\<lambda>rs w. w\<lparr>bots := rs\<rparr>),
     t_check = (\<lambda>w rs. if \<not> distinct (map bot_id rs) then Some (dup_error w)
        else if (\<forall>b\<in>set rs. bot_userId b \<in> user_id ` set (users w)
                    \<and> bot_customBotId b \<in> cb_id ` set (custom_bots w)) then None
        else Some (fk_error w)),
     t_cascade = (\<lambda>_ w. w)\<rparr>"

lemmas table_defs = usersTable_def adminMutationLocksTable_def apiKeysTable_def
  customBotsTable_def botsTable_def

lemma table_sel [simp]:
  "t_rows usersTable = users" "t_rows adminMutationLocksTable = admin_locks"
  "t_rows apiKeysTable = api_keys" "t_rows customBotsTable = custom_bots" "t_rows botsTable = bots"
  "t_put usersTable = (\<lambda>rs w. w\<lparr>users := rs\<rparr>)"
  "t_put adminMutationLocksTable = (\<lambda>rs w. w\<lparr>admin_locks := rs\<rparr>)"
  "t_put apiKeysTable = (\<lambda>rs w. w\<lparr>api_keys := rs\<rparr>)"
  "t_put customBotsTable = (\<lambda>rs w. w\<lparr>custom_bots := rs\<rparr>)"
  "t_put botsTable = (\<lambda>rs w. w\<lparr>bots := rs\<rparr>)"
  "t_cascade adminMutationLocksTable = (\<lambda>gone w. w)" "t_cascade apiKeysTable = (\<lambda>gone w. w)"
  "t_cascade botsTable = (\<lambda>gone w. w)"
  by (simp_all add: table_defs)

section \<open>Evaluation without failures\<close>

definition calm :: "world \<Rightarrow> bool" where
  "calm w \<longleftrightarrow> faults w = []"

lemma js_now_run:
  "js_now w = (Inr (clock (snd (js_now w))), snd (js_now w))"
  by (simp add: js_now_def split: list.splits)

lemma js_now_keeps [simp]:
  "users (snd (js_now w)) = users w" "admin_locks (snd (js_now w)) = admin_locks w"
  "api_keys (snd (js_now w)) = api_keys w" "custom_bots (snd (js_now w)) = custom_bots w"
  "bots (snd (js_now w)) = bots w" "objects (snd (js_now w)) = objects w"
  "messages (snd (js_now w)) = messages w" "faults (snd (js_now w)) = faults w"
  "nonce (snd (js_now w)) = nonce w" "dup_error (snd (js_now w)) = dup_error w"
  "fk_error (snd (js_now w)) = fk_error w"
  by (simp_all add: js_now_def split: list.splits)

lemma js_nowE:
  obtains c w1 where "js_now w = (Inr c, w1)" "clock w1 = c" "clock w \<le> c"
    "users w1 = users w" "admin_locks w1 = admin_locks w" "api_keys w1 = api_keys w"
    "custom_bots w1 = custom_bots w" "bots w1 = bots w" "objects w1 = objects w"
    "messages w1 = messages w" "faults w1 = faults w" "nonce w1 = nonce w"
    "dup_error w1 = dup_error w" "fk_error w1 = fk_error w"
    "c + (\<Sum>k\<leftarrow>ticks w1. int k) = clock w + (\<Sum>k\<leftarrow>ticks w. int k)"
  by (cases "ticks w") (auto simp: js_now_def)

lemma js_now_mono: "clock w \<le> clock (snd (js_now w))"
  by (simp add: js_now_def split: list.splits)

lemma external_calm [io_simps]: "faults w = [] \<Longrightarrow> external m w = m w"
  by (simp add: external_def)

lemma db_select_calm [io_simps]:
  "faults w = [] \<Longrightarrow> db_select t P w = (Inr (filter P (t_rows t w)), w)"
  by (simp add: db_select_def io_simps)

lemma db_insert_calm [io_simps]:
  "faults w = [] \<Longrightarrow> db_insert t r w = db_store t (t_rows t w @ [r]) r w"
  by (simp add: db_insert_def io_simps)

lemma db_update_calm [io_simps]:
  "faults w = [] \<Longrightarrow> db_update t P f w =
     db_store t (map (\<lambda>r. if P r then f r else r) (t_rows t w)) (map f (filter P (t_rows t w))) w"
  by (simp add: db_update_def io_simps)

lemma db_delete_calm [io_simps]:
  "faults w = [] \<Longrightarrow> db_delete t P w =
     (Inr (), t_cascade t (filter P (t_rows t w)) (t_put t (filter (\<lambda>r. \<not> P r) (t_rows t w)) w))"
  by (simp add: db_delete_def io_simps)

section \<open>Invariants of the statements\<close>

text \<open>
  An invariant that does not look at the failure schedule, the clock or the random numbers
  is kept by every external call whose effect keeps it.
\<close>

definition env_free :: "(world \<Rightarrow> bool) \<Rightarrow> bool" where
  "env_free I \<longleftrightarrow> (\<forall>w fs c ts n. I (w\<lparr>faults := fs\<rparr>) = I w \<and> I (w\<lparr>clock := c, ticks := ts\<rparr>) = I w
     \<and> I (w\<lparr>nonce := n\<rparr>) = I w)"

lemma env_freeD:
  assumes "env_free I"
  shows "I (w\<lparr>faults := fs\<rparr>) = I w" "I (w\<lparr>clock := c, ticks := ts\<rparr>) = I w" "I (w\<lparr>nonce := n\<rparr>) = I w"
  using assms by (simp_all add: env_free_def)

lemma preserves_now: "env_free I \<Longrightarrow> preserves I js_now"
  by (auto simp: preserves_def js_now_def env_freeD split: list.splits)

lemma preserves_draw: "env_free I \<Longrightarrow> preserves I (draw g)"
  by (auto simp: preserves_def draw_def env_freeD)

lemma preserves_external: "env_free I \<Longrightarrow> preserves I m \<Longrightarrow> preserves I (external m)"
  by (auto simp: preserves_def external_def env_freeD split: list.splits fault.splits)

lemma preserves_select: "env_free I \<Longrightarrow> preserves I (db_select t P)"
  by (auto simp: db_select_def intro!: preserves_external preserves_get)

lemma preserves_insert:
  assumes "env_free I"
    and "\<And>w. I w \<Longrightarrow> t_check t w (t_rows t w @ [r]) = None \<Longrightarrow> I (t_put t (t_rows t w @ [r]) w)"
  shows "preserves I (db_insert t r)"
  unfolding db_insert_def
  by (rule preserves_external [OF assms(1)])
    (auto simp: preserves_def db_store_def assms(2) split: option.splits)

lemma preserves_update:
  assumes "env_free I"
    and "\<And>w rs. I w \<Longrightarrow> rs = map (\<lambda>r. if P r then f r else r) (t_rows t w) \<Longrightarrow>
           t_check t w rs = None \<Longrightarrow> I (t_put t rs w)"
  shows "preserves I (db_update t P f)"
  unfolding db_update_def
  by (rule preserves_external [OF assms(1)])
    (auto simp: preserves_def db_store_def assms(2) split: option.splits)

lemma preserves_delete:
  assumes "env_free I"
    and "\<And>w. I w \<Longrightarrow> I (t_cascade t (filter P (t_rows t w)) (t_put t (filter (\<lambda>r. \<not> P r) (t_rows t w)) w))"
  shows "preserves I (db_delete t P)"
  unfolding db_delete_def
  by (rule preserves_external [OF assms(1)]) (auto simp: preserves_def assms(2))

end
