(* ===== verification/Common.thy ===== *)
theory Common
  imports Schema
begin

text \<open>
  api/src/common: classification of database errors, e-mail comparison, the password policy,
  the bcrypt cost, the configured root administrator. Third-party functions and the process
  environment are the fields of the record \<open>server\<close>, an argument of every definition that
  needs them.
\<close>

text \<open>The payload of the session tokens (auth.service.ts, \<open>JwtPayload\<close>).\<close>

record jwt_payload =
  jp_sub :: string
  jp_username :: string
  jp_email :: string
  jp_role :: string
  jp_sessionVersion :: "int option"

text \<open>What \<open>fetch\<close> gives: a rejection, or a response with its status and its body.\<close>

datatype fetch_result = FetchFails js_error | Answered nat string

text \<open>
  \<open>js_number\<close> is \<open>Number(s)\<close> (None for NaN), \<open>createId\<close> the cuid2 generator and
  \<open>random_hex\<close> the hex of 32 random bytes, both by the number of the draw; \<open>bcrypt_hash\<close>
  takes the password, the cost and the number of the salt; the token functions are those of
  @nestjs/jwt with the module's options, verification seeing the current time;
  \<open>semver_major\<close> is None where the library throws; \<open>ajv_compiles\<close> gives the error a JSON
  schema is refused with on upload, \<open>ajv_validate\<close> the errors (instance path and message) of a
  value against a bot's schema, none when it is valid, or the error that compiling the schema
  throws; \<open>isValidCron\<close> is cron-validator's, which may throw on a value that is not a string;
  \<open>get_missing\<close> and \<open>stat_missing\<close> are the errors with which the object store answers for a
  missing object; \<open>untar_state\<close> unpacks a state archive (the files of its state directory, None when
  it has none), \<open>tar_state\<close> packs the files of one; \<open>number_text\<close> is \<open>String\<close> of a number; \<open>nats_connected\<close> tells whether a connection is open;
  \<open>ajv_config_errors\<close> the wording of the errors of a refused bot configuration;
  \<open>json_parse\<close> is \<open>JSON.parse\<close>, None where it throws; \<open>chunks_of\<close> gives the pieces in which the store's
  client streams an object; \<open>js_date\<close> is \<open>new Date(v)\<close> of a JSON value in milliseconds, None for an
  invalid date; \<open>tz_minutes\<close> is the offset of local time from UTC;
  \<open>runtime_answer\<close> is the answer of the bot runtime to a query (bot, path, parameters, timeout) with the
  milliseconds it takes.
\<close>

record server =
  env_admin_email :: "string option"
  env_admin_password :: "string option"
  env_salt_rounds :: "string option"
  js_number :: "string \<Rightarrow> rat option"
  isEmail :: "string \<Rightarrow> bool"
  createId :: "nat \<Rightarrow> string"
  random_hex :: "nat \<Rightarrow> string"
  bcrypt_hash :: "string \<Rightarrow> int \<Rightarrow> nat \<Rightarrow> string"
  bcrypt_compare :: "string \<Rightarrow> string \<Rightarrow> bool"
  jwt_sign :: "jwt_payload \<Rightarrow> int \<Rightarrow> string"
  jwt_verify :: "string \<Rightarrow> int \<Rightarrow> js_error + jwt_payload"
  semver_valid :: "string \<Rightarrow> bool"
  semver_gt :: "string \<Rightarrow> string \<Rightarrow> bool"
  semver_eq :: "string \<Rightarrow> string \<Rightarrow> bool"
  semver_major :: "string \<Rightarrow> nat option"
  isValidCron :: "json \<Rightarrow> js_error + bool"
  number_text :: "rat \<Rightarrow> string"
  nats_connected :: bool
  ajv_compiles :: "js_object \<Rightarrow> string option"
  ajv_validate :: "js_object \<Rightarrow> json \<Rightarrow> js_error + (string \<times> string) list"
  ajv_config_errors :: "json \<Rightarrow> string list"
  json_parse :: "string \<Rightarrow> json option"
  zip_entries :: "string \<Rightarrow> js_error + (string \<times> string) list"
  etag_of :: "string \<Rightarrow> string"
  bots_bucket :: string
  get_missing :: "string \<Rightarrow> js_error"
  stat_missing :: "string \<Rightarrow> js_error"
  state_bucket :: string
  env_max_state_file_mb :: "string option"
  env_max_state_archive_mb :: "string option"
  untar_state :: "string \<Rightarrow> js_error + (string \<times> string) list option"
  tar_state :: "(string \<times> string) list \<Rightarrow> string"
  log_bucket :: string
  chunks_of :: "string \<Rightarrow> string list"
  js_date :: "json \<Rightarrow> int option"
  tz_minutes :: int
  runtime_answer :: "string \<Rightarrow> string \<Rightarrow> js_object \<Rightarrow> rat \<Rightarrow> nat \<times> fetch_result"

section \<open>database-errors.ts\<close>

definition CONNECTION_ERROR_CODES :: "string set" where
  "CONNECTION_ERROR_CODES = {''ETIMEDOUT'', ''ENETUNREACH'', ''ECONNREFUSED'', ''ECONNRESET'',
     ''ENOTFOUND'', ''CONNECT_TIMEOUT''}"

fun isConnectionError :: "js_error \<Rightarrow> bool" where
  "isConnectionError (AggregateErr es _) = (\<exists>e\<in>set es. isConnectionError e)"
| "isConnectionError (Err c _ _) =
     (case c of Some code \<Rightarrow> code \<in> CONNECTION_ERROR_CODES | None \<Rightarrow> False)"
| "isConnectionError (Http _ _) = False"

definition isUniqueConstraintError :: "js_error \<Rightarrow> bool" where
  "isUniqueConstraintError e \<longleftrightarrow>
     error_code e \<in> {Some ''23505'', Some ''SQLITE_CONSTRAINT'',
       Some ''SQLITE_CONSTRAINT_PRIMARYKEY'', Some ''SQLITE_CONSTRAINT_UNIQUE''}"

text \<open>\<open>String(v)\<close> of a JSON value; the elements of an array are joined, null among them as nothing.\<close>

fun js_text :: "(rat \<Rightarrow> string) \<Rightarrow> json \<Rightarrow> string" where
  "js_text num JNull = ''null''"
| "js_text num (JBool b) = (if b then ''true'' else ''false'')"
| "js_text num (JNum q) = num q"
| "js_text num (JStr s) = s"
| "js_text num (JArr xs) = js_join '','' (map (\<lambda>x. if x = JNull then [] else js_text num x) xs)"
| "js_text num (JObj kvs) = ''[object Object]''"

section \<open>email.ts, password-policy.ts, password.ts\<close>

definition normalizeEmailForComparison :: "string \<Rightarrow> string" where
  "normalizeEmailForComparison email = js_lower (js_trim email)"

definition MIN_PASSWORD_LENGTH :: nat where
  "MIN_PASSWORD_LENGTH = 8"

definition validatePasswordPolicy :: "string \<Rightarrow> string option" where
  "validatePasswordPolicy password =
     (if length password < MIN_PASSWORD_LENGTH
      then Some (''Password must be at least '' @ nat_to_string MIN_PASSWORD_LENGTH @ '' characters long'')
      else None)"

definition DEFAULT_BCRYPT_SALT_ROUNDS :: int where
  "DEFAULT_BCRYPT_SALT_ROUNDS = 12"

definition MIN_BCRYPT_SALT_ROUNDS :: int where
  "MIN_BCRYPT_SALT_ROUNDS = 12"

definition plain_error :: "string \<Rightarrow> js_error" where
  "plain_error m = Err None m None"

definition getBcryptSaltRounds :: "server \<Rightarrow> js_error + int" where
  "getBcryptSaltRounds sv = (case env_salt_rounds sv of
      None \<Rightarrow> Inr DEFAULT_BCRYPT_SALT_ROUNDS
    | Some raw \<Rightarrow>
       if raw = [] then Inr DEFAULT_BCRYPT_SALT_ROUNDS
       else (case js_number sv raw of
            None \<Rightarrow> Inl (plain_error ''BCRYPT_SALT_ROUNDS must be an integer between 12 and 31'')
          | Some q \<Rightarrow>
             if q \<noteq> of_int \<lfloor>q\<rfloor> \<or> q < of_int MIN_BCRYPT_SALT_ROUNDS \<or> 31 < q
             then Inl (plain_error ''BCRYPT_SALT_ROUNDS must be an integer between 12 and 31'')
             else Inr \<lfloor>q\<rfloor>))"

definition hashPassword :: "server \<Rightarrow> string \<Rightarrow> (world, string) io" where
  "hashPassword sv password = (case getBcryptSaltRounds sv of
      Inl e \<Rightarrow> io_throw e
    | Inr rounds \<Rightarrow> draw (bcrypt_hash sv password rounds))"

section \<open>root-admin.ts\<close>

definition getOptionalConfiguredRootAdminEmail :: "server \<Rightarrow> string option" where
  "getOptionalConfiguredRootAdminEmail sv = (case env_admin_email sv of
      None \<Rightarrow> None
    | Some raw \<Rightarrow> let email = js_trim raw in
        if email = [] then None else Some (normalizeEmailForComparison email))"

definition getRequiredConfiguredRootAdminEmail :: "server \<Rightarrow> js_error + string" where
  "getRequiredConfiguredRootAdminEmail sv =
     (let email = (case env_admin_email sv of None \<Rightarrow> [] | Some raw \<Rightarrow> js_trim raw) in
      if email = [] then Inl (plain_error ''QUANTFLOW_ADMIN_EMAIL must be configured'')
      else if \<not> isEmail sv email
        then Inl (plain_error ''QUANTFLOW_ADMIN_EMAIL must be a valid email address'')
      else Inr (normalizeEmailForComparison email))"

definition getRequiredConfiguredRootAdminPassword :: "server \<Rightarrow> js_error + string" where
  "getRequiredConfiguredRootAdminPassword sv = (case env_admin_password sv of
      None \<Rightarrow> Inl (plain_error ''QUANTFLOW_ADMIN_PASSWORD must be configured'')
    | Some p \<Rightarrow> if p = [] then Inl (plain_error ''QUANTFLOW_ADMIN_PASSWORD must be configured'')
               else Inr p)"

definition getRequiredConfiguredRootAdmin :: "server \<Rightarrow> js_error + string \<times> string" where
  "getRequiredConfiguredRootAdmin sv = (case getRequiredConfiguredRootAdminEmail sv of
      Inl e \<Rightarrow> Inl e
    | Inr email \<Rightarrow> (case getRequiredConfiguredRootAdminPassword sv of
         Inl e \<Rightarrow> Inl e
       | Inr password \<Rightarrow> (case validatePasswordPolicy password of
            Some err \<Rightarrow> Inl (plain_error (''QUANTFLOW_ADMIN_PASSWORD is invalid: '' @ err))
          | None \<Rightarrow> Inr (email, password))))"

definition isConfiguredRootAdminEmail :: "server \<Rightarrow> string \<Rightarrow> bool" where
  "isConfiguredRootAdminEmail sv email = (case getOptionalConfiguredRootAdminEmail sv of
      None \<Rightarrow> False
    | Some c \<Rightarrow> c \<noteq> [] \<and> normalizeEmailForComparison email = c)"

section \<open>Facts\<close>

text \<open>The error a driver that wraps its errors reports is not recognised, whatever it wraps.\<close>

lemma wrapped_errors_unrecognised:
  "\<not> isUniqueConstraintError (Err None m (Some e))" "\<not> isConnectionError (Err None m (Some e))"
  by (simp_all add: isUniqueConstraintError_def)

lemma unique_not_connection: "isUniqueConstraintError e \<Longrightarrow> \<not> isConnectionError e"
  by (cases e) (auto simp: isUniqueConstraintError_def CONNECTION_ERROR_CODES_def)

lemma bcrypt_rounds_bounds:
  assumes "getBcryptSaltRounds sv = Inr r"
  shows "12 \<le> r \<and> r \<le> 31"
proof -
  have "12 \<le> \<lfloor>q\<rfloor> \<and> \<lfloor>q\<rfloor> \<le> 31" if "\<not> q < 12" "\<not> 31 < q" for q :: rat
    using that by (simp add: le_floor_iff floor_le_iff not_less)
  then show ?thesis
    using assms
    by (auto simp: getBcryptSaltRounds_def DEFAULT_BCRYPT_SALT_ROUNDS_def MIN_BCRYPT_SALT_ROUNDS_def
        split: option.splits if_splits)
qed

lemma preserves_hashPassword: "env_free I \<Longrightarrow> preserves I (hashPassword sv p)"
  by (auto simp: hashPassword_def intro: preserves_throw preserves_draw split: sum.splits)

lemma hashPassword_run:
  "hashPassword sv p w = (case getBcryptSaltRounds sv of
      Inl e \<Rightarrow> (Inl e, w)
    | Inr r \<Rightarrow> (Inr (bcrypt_hash sv p r (nonce w)), w\<lparr>nonce := Suc (nonce w)\<rparr>))"
  by (simp add: hashPassword_def draw_def split: sum.splits)

lemma configured_root_recognised:
  "getRequiredConfiguredRootAdminEmail sv = Inr e \<Longrightarrow>
     getOptionalConfiguredRootAdminEmail sv = Some e"
  by (auto simp: getRequiredConfiguredRootAdminEmail_def getOptionalConfiguredRootAdminEmail_def
      Let_def split: option.splits if_splits)

section \<open>A concrete environment\<close>

text \<open>
  An instance of the parameters, on which the theorems with hypotheses are exercised: ids
  count up, hashing and signing tag their argument, verification inverts the tag.
\<close>

definition demo_server :: server where
  "demo_server = \<lparr>env_admin_email = Some ''root@q.io'', env_admin_password = Some ''correct horse'',
     env_salt_rounds = None,
     js_number = (\<lambda>s. if s \<noteq> [] \<and> list_all is_digit s then Some (of_nat (foldl (\<lambda>n c. 10 * n + (of_char c - 48)) 0 s)) else None),
     isEmail = (\<lambda>s. CHR ''@'' \<in> set s), createId = (\<lambda>n. ''id'' @ nat_to_string n),
     random_hex = (\<lambda>n. ''hex'' @ nat_to_string n),
     bcrypt_hash = (\<lambda>p r n. ''$'' @ p), bcrypt_compare = (\<lambda>p h. h = ''$'' @ p),
     jwt_sign = (\<lambda>payload t. jp_sub payload), jwt_verify = (\<lambda>tok t.
       Inr \<lparr>jp_sub = tok, jp_username = [], jp_email = [], jp_role = [], jp_sessionVersion = Some 0\<rparr>),
     semver_valid = (\<lambda>s. s \<noteq> []), semver_gt = (\<lambda>a b. length b < length a),
     semver_eq = (=), semver_major = (\<lambda>s. Some 1), isValidCron = (\<lambda>j. Inr True),
     number_text = (\<lambda>q. if q < 0 then ''-'' else nat_to_string (nat \<lfloor>q\<rfloor>)), nats_connected = True,
     ajv_compiles = (\<lambda>_. None), ajv_validate = (\<lambda>_ _. Inr []), ajv_config_errors = (\<lambda>_. [''refused'']), json_parse = (\<lambda>s. Some (JStr s)),
     zip_entries = (\<lambda>s. Inr [(''bot.py'', s)]),
     etag_of = id, bots_bucket = ''custom-bots'',
     get_missing = (\<lambda>k. Err (Some ''NoSuchKey'') ''The specified key does not exist.'' None),
     stat_missing = (\<lambda>k. Err (Some ''NotFound'') ''The object does not exist'' None),
     state_bucket = ''bot-state'', env_max_state_file_mb = None, env_max_state_archive_mb = None,
     untar_state = (\<lambda>s. Inr (case split_at (CHR ''!'') s of [a, b] \<Rightarrow> Some [(a, b)] | [a, b, c, d] \<Rightarrow> Some [(a, b), (c, d)] | _ \<Rightarrow> None)),
     tar_state = (\<lambda>kvs. js_join ''!'' (concat (map (\<lambda>e. [fst e, snd e]) kvs))),
     log_bucket = ''bot-logs'', chunks_of = (\<lambda>s. [s]), js_date = (\<lambda>j. None), tz_minutes = 0,
     runtime_answer = (\<lambda>b p params t. (5, Answered 200 ''ok''))\<rparr>"

end
