(* ===== verification/AdminLock.thy ===== *)
theory AdminLock
  imports Common
begin

text \<open>
  The database lock that serialises changes to administrator accounts:
  api/src/common/lock.repository.ts and api/src/user/admin-mutation-lock.repository.ts. The
  first part is the code as computations over the world; the second is the same protocol at
  the granularity of its database statements, run by any number of API processes at once.
\<close>

section \<open>The repository\<close>

datatype acquire_result = Acquired int | Busy | StaleReleased

definition ADMIN_MUTATION_LOCK_ID :: string where
  "ADMIN_MUTATION_LOCK_ID = ''admin-users''"

definition ADMIN_MUTATION_LOCK_STALE_MS :: int where
  "ADMIN_MUTATION_LOCK_STALE_MS = 5 * 60 * 1000"

definition releaseIfMatches :: "int \<Rightarrow> (world, unit) io" where
  "releaseIfMatches lockedAt = db_delete adminMutationLocksTable
     (\<lambda>r. lock_id r = ADMIN_MUTATION_LOCK_ID \<and> lock_lockedAt r = lockedAt)"

definition tryAcquire_conflict :: "js_error \<Rightarrow> (world, acquire_result) io" where
  "tryAcquire_conflict e =
     (if isConnectionError e then io_throw e
      else if \<not> isUniqueConstraintError e then io_throw e
      else io_bind (db_select adminMutationLocksTable (\<lambda>r. lock_id r = ADMIN_MUTATION_LOCK_ID)) (\<lambda>locks.
        case locks of [] \<Rightarrow> io_return Busy
        | existingLock # _ \<Rightarrow> io_bind js_now (\<lambda>now.
            if now - lock_lockedAt existingLock > ADMIN_MUTATION_LOCK_STALE_MS
            then io_bind (releaseIfMatches (lock_lockedAt existingLock)) (\<lambda>_. io_return StaleReleased)
            else io_return Busy)))"

definition tryAcquire :: "(world, acquire_result) io" where
  "tryAcquire = io_bind js_now (\<lambda>lockedAt.
     io_catch
       (io_bind (db_insert adminMutationLocksTable
          \<lparr>lock_id = ADMIN_MUTATION_LOCK_ID, lock_lockedAt = lockedAt\<rparr>) (\<lambda>_.
        io_return (Acquired lockedAt)))
       tryAcquire_conflict)"

text \<open>\<open>runWithRelease\<close>: an error of the callback wins over an error of the release.\<close>

definition runWithRelease :: "int \<Rightarrow> (world, 'a) io \<Rightarrow> (world, 'a) io" where
  "runWithRelease lockedAt callback =
     io_bind (io_catch callback (\<lambda>callbackError.
        io_bind (io_catch (releaseIfMatches lockedAt) (\<lambda>_. io_return ())) (\<lambda>_. io_throw callbackError)))
     (\<lambda>value. io_bind (releaseIfMatches lockedAt) (\<lambda>_. io_return value))"

definition js_wait :: "nat \<Rightarrow> (world, unit) io" where
  "js_wait ms = io_modify (\<lambda>w. w\<lparr>clock := clock w + int ms\<rparr>)"

definition lock_unavailable :: js_error where
  "lock_unavailable = Http 503 ''Admin user management is temporarily locked''"

fun acquire_attempts :: "nat \<Rightarrow> (world, int) io" where
  "acquire_attempts 0 = io_throw lock_unavailable"
| "acquire_attempts (Suc n) = io_bind tryAcquire (\<lambda>lock.
     case lock of
       Acquired lockedAt \<Rightarrow> io_return lockedAt
     | Busy \<Rightarrow> io_bind (js_wait 50) (\<lambda>_. acquire_attempts n)
     | StaleReleased \<Rightarrow> acquire_attempts n)"

definition acquireWithRetries :: "(world, int) io" where
  "acquireWithRetries = acquire_attempts 50"

definition withLock :: "(world, 'a) io \<Rightarrow> (world, 'a) io" where
  "withLock callback = io_bind acquireWithRetries (\<lambda>lockedAt. runWithRelease lockedAt callback)"

section \<open>Invariants go through the lock\<close>

text \<open>Invariants that also do not look at the lock table.\<close>

definition lock_free :: "(world \<Rightarrow> bool) \<Rightarrow> bool" where
  "lock_free I \<longleftrightarrow> env_free I \<and> (\<forall>w ls c. I (w\<lparr>admin_locks := ls\<rparr>) = I w \<and> I (w\<lparr>clock := c\<rparr>) = I w)"

lemma preserves_releaseIfMatches: "lock_free I \<Longrightarrow> preserves I (releaseIfMatches t)"
  unfolding releaseIfMatches_def
  by (rule preserves_delete) (auto simp: lock_free_def adminMutationLocksTable_def)

lemma preserves_tryAcquire: "lock_free I \<Longrightarrow> preserves I tryAcquire"
  unfolding tryAcquire_def tryAcquire_conflict_def
  by (intro preserves_bind preserves_catch preserves_if preserves_return preserves_throw
      preserves_now preserves_insert preserves_select preserves_releaseIfMatches)
    (auto simp: lock_free_def adminMutationLocksTable_def
       intro!: preserves_bind preserves_return preserves_now preserves_if preserves_releaseIfMatches
       split: list.split)

lemma preserves_acquire_attempts: "lock_free I \<Longrightarrow> preserves I (acquire_attempts n)"
proof (induction n)
  case 0
  then show ?case by (simp only: acquire_attempts.simps preserves_throw)
next
  case (Suc n)
  have "preserves I (js_wait 50)"
    using Suc.prems by (auto simp: preserves_def js_wait_def lock_free_def)
  then show ?case
    using Suc by (auto intro!: preserves_bind preserves_tryAcquire preserves_return split: acquire_result.split)
qed

lemma preserves_withLock [preserves_intros]:
  assumes "lock_free I" "preserves I m"
  shows "preserves I (withLock m)"
  unfolding withLock_def acquireWithRetries_def runWithRelease_def
  by (intro preserves_bind preserves_catch preserves_acquire_attempts preserves_releaseIfMatches
      preserves_return preserves_throw assms)

text \<open>The protected section as a whole, for conditions that do not look at the lock.\<close>

lemma triple_withLock:
  assumes P: "lock_free P" and Q: "\<And>x. lock_free (Q x)" and m: "triple P m Q (\<lambda>_ _. True)"
  shows "triple P (withLock m) Q (\<lambda>_ _. True)"
proof -
  have rel: "triple (Q x) (releaseIfMatches t) (\<lambda>_. Q x) (\<lambda>_. Q x)" for x t
    using preserves_releaseIfMatches [OF Q] by (simp add: preserves_triple)
  have acq: "triple P acquireWithRetries (\<lambda>_. P) (\<lambda>_ _. True)"
    using preserves_acquire_attempts [OF P] unfolding acquireWithRetries_def preserves_triple
    by (rule triple_conseq) auto
  have run: "triple P (runWithRelease t m) Q (\<lambda>_ _. True)" for t
    unfolding runWithRelease_def
  proof (rule triple_bind [where R = Q])
    show "triple P (io_catch m (\<lambda>e. io_bind (io_catch (releaseIfMatches t) (\<lambda>_. io_return ())) (\<lambda>_. io_throw e)))
        Q (\<lambda>_ _. True)"
      by (rule triple_catch [OF m], rule triple_bind [where R = "\<lambda>_ _. True"])
        (auto simp: triple_def split: prod.splits sum.splits)
    show "triple (Q x) (io_bind (releaseIfMatches t) (\<lambda>_. io_return x)) Q (\<lambda>_ _. True)" for x
      by (rule triple_bind [where R = "\<lambda>_. Q x"], rule triple_conseq [OF rel]) (auto simp: triple_def)
  qed
  show ?thesis
    unfolding withLock_def by (rule triple_bind [OF acq run])
qed

section \<open>What one call does when nothing fails\<close>

lemma tryAcquire_free:
  assumes "faults w = []" "admin_locks w = []"
  obtains t w1 where "js_now w = (Inr t, w1)" "faults w1 = []" "users w1 = users w"
    "tryAcquire w = (Inr (Acquired t),
       w1\<lparr>admin_locks := [\<lparr>lock_id = ADMIN_MUTATION_LOCK_ID, lock_lockedAt = t\<rparr>]\<rparr>)"
proof -
  obtain t w1 where js: "js_now w = (Inr t, w1)" "faults w1 = faults w" "users w1 = users w"
    "admin_locks w1 = admin_locks w"
    by (rule js_nowE)
  moreover have "tryAcquire w = (Inr (Acquired t),
       w1\<lparr>admin_locks := [\<lparr>lock_id = ADMIN_MUTATION_LOCK_ID, lock_lockedAt = t\<rparr>]\<rparr>)"
    using assms js
    by (simp add: tryAcquire_def io_bind_Inr io_catch_run io_bind_run db_insert_calm db_store_def
        adminMutationLocksTable_def)
  ultimately show thesis
    using assms that by simp
qed

lemma releaseIfMatches_own:
  assumes "faults w = []" "admin_locks w = [\<lparr>lock_id = ADMIN_MUTATION_LOCK_ID, lock_lockedAt = t\<rparr>]"
  shows "releaseIfMatches t w = (Inr (), w\<lparr>admin_locks := []\<rparr>)"
  using assms by (simp add: releaseIfMatches_def db_delete_calm adminMutationLocksTable_def)

lemma acquire_first:
  assumes "tryAcquire w = (Inr (Acquired t), w1)" "0 < n"
  shows "acquire_attempts n w = (Inr t, w1)"
  using assms by (cases n) (simp_all add: io_bind_Inr)

text \<open>The whole protected section, when the lock is free and the callback leaves it alone.\<close>

lemma withLock_free:
  assumes "faults w = []" "admin_locks w = []"
    and acq: "tryAcquire w = (Inr (Acquired t), w1)"
    and cb: "cb w1 = (r, w2)" "faults w2 = []" "admin_locks w2 = admin_locks w1"
  shows "withLock cb w = (r, w2\<lparr>admin_locks := []\<rparr>)"
proof -
  have "admin_locks w1 = [\<lparr>lock_id = ADMIN_MUTATION_LOCK_ID, lock_lockedAt = t\<rparr>]"
    using tryAcquire_free [OF assms(1,2)] acq by (metis (no_types, lifting) acquire_result.inject
      old.sum.inject(2) prod.inject select_convs(2) surjective update_convs(2) world.select_convs(2)
      world.surjective world.update_convs(2))
  then have "releaseIfMatches t w2 = (Inr (), w2\<lparr>admin_locks := []\<rparr>)"
    using cb by (intro releaseIfMatches_own) auto
  moreover have "acquireWithRetries w = (Inr t, w1)"
    unfolding acquireWithRetries_def by (rule acquire_first [OF acq]) simp
  ultimately show ?thesis
    using cb by (cases r) (simp_all add: withLock_def runWithRelease_def io_bind_run io_catch_run)
qed

text \<open>A held lock that is not stale is never broken: the attempt reports busy and leaves
  the lock table as it is.\<close>

theorem tryAcquire_respects_live_lock:
  assumes "faults w = []" "isUniqueConstraintError (dup_error w)"
    and "admin_locks w = [\<lparr>lock_id = ADMIN_MUTATION_LOCK_ID, lock_lockedAt = t\<rparr>]"
    and "clock w + (\<Sum>k\<leftarrow>ticks w. int k) - t \<le> ADMIN_MUTATION_LOCK_STALE_MS"
  shows "fst (tryAcquire w) = Inr Busy \<and> admin_locks (snd (tryAcquire w)) = admin_locks w"
proof -
  obtain c1 w1 where js1: "js_now w = (Inr c1, w1)" "faults w1 = faults w"
    "admin_locks w1 = admin_locks w" "dup_error w1 = dup_error w"
    "c1 + (\<Sum>k\<leftarrow>ticks w1. int k) = clock w + (\<Sum>k\<leftarrow>ticks w. int k)" "clock w1 = c1"
    by (rule js_nowE)
  obtain c2 w2 where js2: "js_now w1 = (Inr c2, w2)" "admin_locks w2 = admin_locks w1"
    "c2 + (\<Sum>k\<leftarrow>ticks w2. int k) = clock w1 + (\<Sum>k\<leftarrow>ticks w1. int k)"
    by (rule js_nowE)
  have "0 \<le> (\<Sum>k\<leftarrow>ticks w2. int k)"
    by (intro sum_list_nonneg) auto
  then have "\<not> c2 - t > ADMIN_MUTATION_LOCK_STALE_MS"
    using assms(4) js1(5,6) js2(3) by linarith
  then show ?thesis
    using assms(1-3) js1 js2 unique_not_connection [OF assms(2)]
    by (simp add: tryAcquire_def tryAcquire_conflict_def io_bind_Inr io_catch_run io_bind_run
        db_insert_calm db_select_calm db_store_def adminMutationLocksTable_def)
qed

end
