(* ===== verification/LockProtocol.thy ===== *)
theory LockProtocol
  imports AdminLock
begin

text \<open>
  The lock of api/src/common/lock.repository.ts run by any number of API processes at once.
  Every step is one database statement, one reading of the clock or one local decision of one
  process, so every interleaving of the processes is a sequence of steps. The local promise
  chain of \<open>withLocalLock\<close> lets a process be in one attempt at a time, which is why a process
  has a single program counter. The processes share one clock.
\<close>

section \<open>States and steps\<close>

text \<open>
  \<open>Trying t\<close>: the timestamp is taken, the insert is next. \<open>Conflicted\<close>: the insert was refused,
  the select is next. \<open>Selected v\<close>: the row read is v. \<open>Breaking v\<close>: v was found stale, its
  delete is next. \<open>Holding t\<close>: the callback runs. \<open>Releasing t\<close>: the release is next.
\<close>

datatype lock_pc = Outside | Trying int | Conflicted | Selected int | Breaking int
  | Holding int | Releasing int

record lock_sys =
  ls_row :: "int option"
  ls_now :: int
  ls_pc :: "nat \<Rightarrow> lock_pc"

definition goto_pc :: "nat \<Rightarrow> lock_pc \<Rightarrow> lock_sys \<Rightarrow> lock_sys" where
  "goto_pc p c s = s\<lparr>ls_pc := (ls_pc s)(p := c)\<rparr>"

text \<open>\<open>releaseIfMatches\<close>: delete the row with this timestamp.\<close>

definition delete_match :: "int \<Rightarrow> lock_sys \<Rightarrow> lock_sys" where
  "delete_match v s = (if ls_row s = Some v then s\<lparr>ls_row := None\<rparr> else s)"

text \<open>
  \<open>recognised\<close>: \<open>isUniqueConstraintError\<close> recognises the error with which the driver refuses a second row. If it does not, the
  error is thrown on and the attempt ends there.
\<close>

inductive lock_step :: "bool \<Rightarrow> nat \<Rightarrow> lock_sys \<Rightarrow> lock_sys \<Rightarrow> bool" for recognised where
  read_clock: "ls_pc s p = Outside \<Longrightarrow> lock_step recognised p s (goto_pc p (Trying (ls_now s)) s)"
| insert_ok: "ls_pc s p = Trying t \<Longrightarrow> ls_row s = None \<Longrightarrow>
    lock_step recognised p s (goto_pc p (Holding t) (s\<lparr>ls_row := Some t\<rparr>))"
| insert_refused: "recognised \<Longrightarrow> ls_pc s p = Trying t \<Longrightarrow> ls_row s = Some v \<Longrightarrow>
    lock_step recognised p s (goto_pc p Conflicted s)"
| insert_thrown: "\<not> recognised \<Longrightarrow> ls_pc s p = Trying t \<Longrightarrow> ls_row s = Some v \<Longrightarrow>
    lock_step recognised p s (goto_pc p Outside s)"
| select_none: "ls_pc s p = Conflicted \<Longrightarrow> ls_row s = None \<Longrightarrow>
    lock_step recognised p s (goto_pc p Outside s)"
| select_row: "ls_pc s p = Conflicted \<Longrightarrow> ls_row s = Some v \<Longrightarrow>
    lock_step recognised p s (goto_pc p (Selected v) s)"
| not_stale: "ls_pc s p = Selected v \<Longrightarrow> \<not> ls_now s - v > ADMIN_MUTATION_LOCK_STALE_MS \<Longrightarrow>
    lock_step recognised p s (goto_pc p Outside s)"
| found_stale: "ls_pc s p = Selected v \<Longrightarrow> ls_now s - v > ADMIN_MUTATION_LOCK_STALE_MS \<Longrightarrow>
    lock_step recognised p s (goto_pc p (Breaking v) s)"
| break_stale: "ls_pc s p = Breaking v \<Longrightarrow>
    lock_step recognised p s (goto_pc p Outside (delete_match v s))"
| callback_done: "ls_pc s p = Holding t \<Longrightarrow> lock_step recognised p s (goto_pc p (Releasing t) s)"
| release_row: "ls_pc s p = Releasing t \<Longrightarrow>
    lock_step recognised p s (goto_pc p Outside (delete_match t s))"
| crash: "lock_step recognised p s (goto_pc p Outside s)"
| pass_time: "0 \<le> k \<Longrightarrow> lock_step recognised p s (s\<lparr>ls_now := ls_now s + k\<rparr>)"

inductive_cases lock_stepE: "lock_step recognised p s s'"

definition lock_init :: "int \<Rightarrow> lock_sys" where
  "lock_init t = \<lparr>ls_row = None, ls_now = t, ls_pc = (\<lambda>_. Outside)\<rparr>"

section \<open>Mutual exclusion\<close>

fun holds_at :: "lock_pc \<Rightarrow> int option" where
  "holds_at (Holding t) = Some t"
| "holds_at (Releasing t) = Some t"
| "holds_at _ = None"

definition timely :: "lock_sys \<Rightarrow> bool" where
  "timely s \<longleftrightarrow> (\<forall>p t. holds_at (ls_pc s p) = Some t \<longrightarrow> ls_now s - t \<le> ADMIN_MUTATION_LOCK_STALE_MS)"

text \<open>The states reached by steps in which no holder overruns the stale limit.\<close>

inductive timely_reach :: "bool \<Rightarrow> int \<Rightarrow> lock_sys \<Rightarrow> bool" for recognised t0 where
  reach_init: "timely_reach recognised t0 (lock_init t0)"
| reach_step: "timely_reach recognised t0 s \<Longrightarrow> lock_step recognised p s s' \<Longrightarrow> timely s' \<Longrightarrow> timely_reach recognised t0 s'"

inductive lock_reach :: "bool \<Rightarrow> lock_sys \<Rightarrow> lock_sys \<Rightarrow> bool" for recognised s0 where
  lock_refl: "lock_reach recognised s0 s0"
| lock_trans: "lock_reach recognised s0 s \<Longrightarrow> lock_step recognised p s s' \<Longrightarrow> lock_reach recognised s0 s'"

definition lock_inv :: "lock_sys \<Rightarrow> bool" where
  "lock_inv s \<longleftrightarrow> timely s
     \<and> (\<forall>p t. holds_at (ls_pc s p) = Some t \<longrightarrow> ls_row s = Some t)
     \<and> (\<forall>p q. holds_at (ls_pc s p) \<noteq> None \<longrightarrow> holds_at (ls_pc s q) \<noteq> None \<longrightarrow> p = q)
     \<and> (\<forall>p v. ls_pc s p = Breaking v \<longrightarrow> ls_now s - v > ADMIN_MUTATION_LOCK_STALE_MS)"

lemma lock_inv_init: "lock_inv (lock_init t0)"
  by (simp add: lock_inv_def timely_def lock_init_def)

lemma lock_invD:
  assumes "lock_inv s"
  shows "holds_at (ls_pc s p) = Some t \<Longrightarrow> ls_row s = Some t"
    and "holds_at (ls_pc s p) = Some t \<Longrightarrow> holds_at (ls_pc s q) = Some u \<Longrightarrow> p = q"
    and "ls_pc s p = Breaking v \<Longrightarrow> ls_now s - v > ADMIN_MUTATION_LOCK_STALE_MS"
    and "holds_at (ls_pc s p) = Some t \<Longrightarrow> ls_now s - t \<le> ADMIN_MUTATION_LOCK_STALE_MS"
  using assms unfolding lock_inv_def timely_def by (metis option.distinct(1))+

lemma lock_invI:
  assumes "timely s" "\<And>p t. holds_at (ls_pc s p) = Some t \<Longrightarrow> ls_row s = Some t"
    and "\<And>p q t u. holds_at (ls_pc s p) = Some t \<Longrightarrow> holds_at (ls_pc s q) = Some u \<Longrightarrow> p = q"
    and "\<And>p v. ls_pc s p = Breaking v \<Longrightarrow> ls_now s - v > ADMIN_MUTATION_LOCK_STALE_MS"
  shows "lock_inv s"
  using assms unfolding lock_inv_def by (metis not_None_eq)

text \<open>A step after which no process holds the lock that did not hold it before.\<close>

lemma lock_inv_keep:
  assumes "lock_inv s" "timely s'"
    and "\<And>q t. holds_at (ls_pc s' q) = Some t \<Longrightarrow> holds_at (ls_pc s q) = Some t \<and> ls_row s' = ls_row s"
    and "\<And>q v. ls_pc s' q = Breaking v \<Longrightarrow> ls_now s' - v > ADMIN_MUTATION_LOCK_STALE_MS"
  shows "lock_inv s'"
  using assms(2) by (rule lock_invI) (metis assms(1,3) lock_invD(1), metis assms(1,3) lock_invD(2), metis assms(4))

lemma lock_inv_step:
  assumes "lock_step recognised p s s'" "lock_inv s" "timely s'"
  shows "lock_inv s'"
  using assms(1)
proof (cases rule: lock_step.cases)
  case (insert_ok t)
  have "holds_at (ls_pc s q) = None" for q
    using lock_invD(1) [OF assms(2), of q] insert_ok(3) by (cases "holds_at (ls_pc s q)") auto
  then show ?thesis
    using insert_ok assms(3)
    by (intro lock_invI) (auto simp: goto_pc_def dest: lock_invD(3) [OF assms(2)] split: if_splits)
next
  case (break_stale v)
  have "ls_row s \<noteq> Some v" if "holds_at (ls_pc s q) = Some t" for q t
    using lock_invD(1,4) [OF assms(2) that] lock_invD(3) [OF assms(2) break_stale(2)] by auto
  then show ?thesis
    using break_stale assms(2,3)
    by (intro lock_inv_keep [OF assms(2,3)])
      (auto simp: goto_pc_def delete_match_def dest: lock_invD(3) [OF assms(2)] split: if_splits)
next
  case (release_row t)
  have "q = p" if "holds_at (ls_pc s q) = Some u" for q u
    using lock_invD(2) [OF assms(2) that, of p t] release_row by simp
  then show ?thesis
    using release_row
    by (intro lock_inv_keep [OF assms(2,3)])
      (auto simp: goto_pc_def delete_match_def dest: lock_invD(3) [OF assms(2)] split: if_splits)
next
  case (pass_time k)
  then show ?thesis
    by (intro lock_inv_keep [OF assms(2,3)]) (auto dest: lock_invD(3) [OF assms(2)])
qed ((rule lock_inv_keep [OF assms(2,3)];
       auto simp: goto_pc_def dest: lock_invD(3) [OF assms(2)] split: if_splits)+)

lemma timely_reach_inv: "timely_reach recognised t0 s \<Longrightarrow> lock_inv s"
  by (induction rule: timely_reach.induct) (auto intro: lock_inv_init lock_inv_step)

text \<open>C2. Two API processes are never inside the protected section together, in any interleaving
  in which every holder leaves within the stale limit.\<close>

theorem lock_mutual_exclusion:
  assumes "timely_reach recognised t0 s" "holds_at (ls_pc s p) = Some t" "holds_at (ls_pc s q) = Some u"
  shows "p = q \<and> ls_row s = Some t"
  using timely_reach_inv [OF assms(1)] assms(2,3) unfolding lock_inv_def by (metis option.distinct(1))

definition one_holder :: lock_sys where
  "one_holder = goto_pc 1 (Holding 0) ((goto_pc 1 (Trying 0) (lock_init 0))\<lparr>ls_row := Some 0\<rparr>)"

theorem lock_mutual_exclusion_witness: "(1::nat) = 1 \<and> ls_row one_holder = Some 0"
proof (rule lock_mutual_exclusion)
  have 1: "lock_step True 1 (lock_init 0) (goto_pc 1 (Trying 0) (lock_init 0))"
    using read_clock [of "lock_init 0" 1 True] by (simp add: lock_init_def)
  have 2: "lock_step True 1 (goto_pc 1 (Trying 0) (lock_init 0)) one_holder"
    unfolding one_holder_def by (rule insert_ok) (auto simp: goto_pc_def lock_init_def)
  have "timely (goto_pc 1 (Trying 0) (lock_init 0))" "timely one_holder"
    by (auto simp: timely_def goto_pc_def lock_init_def one_holder_def ADMIN_MUTATION_LOCK_STALE_MS_def split: if_splits)
  then show "timely_reach True 0 one_holder"
    using 1 2 reach_init reach_step by blast
qed (simp_all add: one_holder_def goto_pc_def)

section \<open>Overruns and recovery\<close>

lemma lock_reach_append: "lock_reach r s0 s1 \<Longrightarrow> lock_reach r s1 s2 \<Longrightarrow> lock_reach r s0 s2"
  by (rotate_tac, induction rule: lock_reach.induct) (auto intro: lock_trans)

lemma lock_reach_1: "lock_step r p s s' \<Longrightarrow> lock_reach r s s'"
  by (rule lock_trans [OF lock_refl])

text \<open>One complete attempt of a process that meets a stale row.\<close>

lemma stale_row_broken:
  assumes "ls_pc s p = Outside" "ls_row s = Some v" "ls_now s - v > ADMIN_MUTATION_LOCK_STALE_MS"
  shows "lock_reach True s (s\<lparr>ls_row := None\<rparr>)"
proof -
  let ?a = "goto_pc p (Trying (ls_now s)) s" let ?b = "goto_pc p Conflicted ?a"
  let ?c = "goto_pc p (Selected v) ?b" let ?d = "goto_pc p (Breaking v) ?c"
  have "lock_step True p s ?a" by (rule read_clock) (fact assms(1))
  moreover have "lock_step True p ?a ?b"
    by (rule insert_refused [where t = "ls_now s"]) (use assms in \<open>auto simp: goto_pc_def\<close>)
  moreover have "lock_step True p ?b ?c" by (rule select_row) (use assms in \<open>auto simp: goto_pc_def\<close>)
  moreover have "lock_step True p ?c ?d" by (rule found_stale) (use assms in \<open>auto simp: goto_pc_def\<close>)
  moreover have "lock_step True p ?d (goto_pc p Outside (delete_match v ?d))"
    by (rule break_stale) (auto simp: goto_pc_def)
  moreover have "goto_pc p Outside (delete_match v ?d) = s\<lparr>ls_row := None\<rparr>"
    using assms by (auto simp: goto_pc_def delete_match_def fun_upd_idem)
  ultimately show ?thesis
    by (metis lock_refl lock_trans)
qed

lemma free_row_taken:
  assumes "ls_pc s p = Outside" "ls_row s = None"
  shows "lock_reach True s (goto_pc p (Holding (ls_now s)) (s\<lparr>ls_row := Some (ls_now s)\<rparr>))"
proof -
  let ?a = "goto_pc p (Trying (ls_now s)) s"
  have "lock_step True p s ?a" by (rule read_clock) (fact assms(1))
  moreover have "lock_step True p ?a (goto_pc p (Holding (ls_now s)) (?a\<lparr>ls_row := Some (ls_now s)\<rparr>))"
    by (rule insert_ok) (use assms in \<open>auto simp: goto_pc_def\<close>)
  moreover have "goto_pc p (Holding (ls_now s)) (?a\<lparr>ls_row := Some (ls_now s)\<rparr>)
      = goto_pc p (Holding (ls_now s)) (s\<lparr>ls_row := Some (ls_now s)\<rparr>)"
    by (simp add: goto_pc_def)
  ultimately show ?thesis
    by (metis lock_refl lock_trans)
qed

lemma recognised_recovers:
  assumes "ls_pc s p = Outside"
  shows "\<exists>s' t. lock_reach True s s' \<and> ls_pc s' p = Holding t \<and> ls_row s' = Some t"
proof (cases "ls_row s")
  case None
  with free_row_taken [OF assms this] show ?thesis
    by (auto simp: goto_pc_def intro!: exI)
next
  case (Some v)
  define k where "k = max 0 (v + ADMIN_MUTATION_LOCK_STALE_MS + 1 - ls_now s)"
  let ?w = "s\<lparr>ls_now := ls_now s + k\<rparr>"
  have 1: "lock_reach True s ?w"
    by (rule lock_reach_1 [where p = p], rule pass_time) (simp add: k_def)
  have 2: "lock_reach True ?w (?w\<lparr>ls_row := None\<rparr>)"
    by (rule stale_row_broken [where p = p and v = v]) (use assms Some in \<open>auto simp: k_def\<close>)
  have 3: "lock_reach True (?w\<lparr>ls_row := None\<rparr>) (goto_pc p (Holding (ls_now ?w)) (?w\<lparr>ls_row := Some (ls_now ?w)\<rparr>))"
    using free_row_taken [of "?w\<lparr>ls_row := None\<rparr>" p] assms by simp
  from lock_reach_append [OF lock_reach_append [OF 1 2] 3] show ?thesis
    by (auto simp: goto_pc_def intro!: exI)
qed

text \<open>Without recognition a row that nobody holds stays: whoever meets it is thrown out again.\<close>

lemma unrecognised_row_stays:
  assumes "lock_reach False s s'" "ls_row s = Some v" "\<And>q. ls_pc s q = Outside"
  shows "ls_row s' = Some v \<and> (\<forall>q. ls_pc s' q \<in> {Outside} \<union> range Trying)"
  using assms(1)
proof (induction rule: lock_reach.induct)
  case (lock_trans s1 p s2)
  from lock_trans.hyps(2) lock_trans.IH show ?case
  proof (cases rule: lock_step.cases)
    case crash
    then show ?thesis using lock_trans.IH by (auto simp: goto_pc_def)
  qed (use lock_trans.IH in \<open>auto simp: goto_pc_def dest: spec [of _ p]\<close>)
qed (use assms in simp)

text \<open>C10. A lock whose holder died does not block the system for ever where the refusal of a second row is recognised as such: whatever
  state a crash left behind, a process that is outside can get the lock, waiting at most until the row is stale. Where it is not
  recognised, the row that a crash left behind stays for ever and no process gets the lock again.\<close>

theorem lock_recovers_from_crash:
  assumes "ls_pc s p = Outside"
  shows "(\<exists>s' t. lock_reach True s s' \<and> ls_pc s' p = Holding t \<and> ls_row s' = Some t)
    \<and> ((\<forall>q. ls_pc s q = Outside) \<and> ls_row s \<noteq> None \<longrightarrow>
        (\<forall>s' q t. lock_reach False s s' \<longrightarrow> ls_row s' = ls_row s \<and> ls_pc s' q \<noteq> Holding t))"
proof
  show "\<exists>s' t. lock_reach True s s' \<and> ls_pc s' p = Holding t \<and> ls_row s' = Some t" by (rule recognised_recovers [OF assms])
  show "(\<forall>q. ls_pc s q = Outside) \<and> ls_row s \<noteq> None \<longrightarrow>
      (\<forall>s' q t. lock_reach False s s' \<longrightarrow> ls_row s' = ls_row s \<and> ls_pc s' q \<noteq> Holding t)"
  proof (intro impI allI)
    fix s' q t assume crashed: "(\<forall>q. ls_pc s q = Outside) \<and> ls_row s \<noteq> None" and run: "lock_reach False s s'"
    then obtain v where v: "ls_row s = Some v" by blast
    then have "ls_row s' = Some v" "ls_pc s' q \<in> {Outside} \<union> range Trying"
      using unrecognised_row_stays [OF run v] crashed by blast+
    then show "ls_row s' = ls_row s \<and> ls_pc s' q \<noteq> Holding t" using v by auto
  qed
qed

theorem lock_recovers_from_crash_witness:
  "(\<exists>s' t. lock_reach True ((lock_init 0)\<lparr>ls_row := Some 0\<rparr>) s' \<and> ls_pc s' 3 = Holding t \<and> ls_row s' = Some t)
    \<and> \<not> (\<exists>s'. lock_reach False ((lock_init 0)\<lparr>ls_row := Some 0\<rparr>) s' \<and> ls_row s' \<noteq> Some 0)
    \<and> \<not> (\<exists>s' q t. lock_reach False ((lock_init 0)\<lparr>ls_row := Some 0\<rparr>) s' \<and> ls_pc s' q = Holding t)"
proof -
  let ?s = "(lock_init 0)\<lparr>ls_row := Some 0\<rparr>"
  have "ls_pc ?s 3 = Outside" by (simp add: lock_init_def)
  note both = lock_recovers_from_crash [OF this]
  have "(\<forall>q. ls_pc ?s q = Outside) \<and> ls_row ?s \<noteq> None" "ls_row ?s = Some 0" by (simp_all add: lock_init_def)
  then have "ls_row s' = Some 0" "ls_pc s' q \<noteq> Holding t" if "lock_reach False ?s s'" for s' q t
    using conjunct2 [OF both] that by simp_all
  then show ?thesis using conjunct1 [OF both] by blast
qed

text \<open>A holder that overruns the limit is not protected: a second process breaks its lock and
  both are inside.\<close>

theorem overrun_breaks_exclusion:
  "\<exists>s p q t u. lock_reach True (lock_init 0) s \<and> p \<noteq> q
     \<and> ls_pc s p = Holding t \<and> ls_pc s q = Holding u"
proof -
  let ?s1 = "goto_pc 0 (Holding 0) ((lock_init 0)\<lparr>ls_row := Some 0\<rparr>)"
  let ?s2 = "?s1\<lparr>ls_now := ADMIN_MUTATION_LOCK_STALE_MS + 1\<rparr>"
  let ?s3 = "?s2\<lparr>ls_row := None\<rparr>"
  let ?t = "ADMIN_MUTATION_LOCK_STALE_MS + 1"
  let ?s4 = "goto_pc 1 (Holding ?t) (?s3\<lparr>ls_row := Some ?t\<rparr>)"
  have 1: "lock_reach True (lock_init 0) ?s1"
    using free_row_taken [of "lock_init 0" 0] by (simp add: lock_init_def)
  have "lock_step True 0 ?s1 (?s1\<lparr>ls_now := ls_now ?s1 + ?t\<rparr>)"
    by (rule pass_time) (simp add: ADMIN_MUTATION_LOCK_STALE_MS_def)
  then have 2: "lock_reach True ?s1 ?s2"
    by (intro lock_reach_1) (simp add: goto_pc_def lock_init_def)
  have 3: "lock_reach True ?s2 ?s3"
    by (rule stale_row_broken [where p = 1 and v = 0]) (auto simp: goto_pc_def lock_init_def)
  have 4: "lock_reach True ?s3 ?s4"
    using free_row_taken [of ?s3 1] by (simp add: goto_pc_def lock_init_def)
  have "lock_reach True (lock_init 0) ?s4"
    using lock_reach_append [OF lock_reach_append [OF lock_reach_append [OF 1 2] 3] 4] .
  moreover have "ls_pc ?s4 0 = Holding 0" "ls_pc ?s4 1 = Holding ?t" by (auto simp: goto_pc_def)
  ultimately show ?thesis by (metis zero_neq_one)
qed

section \<open>The code follows the protocol\<close>

text \<open>
  The view of a world as a protocol state in which process p has the given program counter.
\<close>

definition lock_view :: "nat \<Rightarrow> lock_pc \<Rightarrow> (nat \<Rightarrow> lock_pc) \<Rightarrow> world \<Rightarrow> lock_sys" where
  "lock_view p c others w = \<lparr>ls_row = map_option lock_lockedAt
       (find (\<lambda>r. lock_id r = ADMIN_MUTATION_LOCK_ID) (admin_locks w)),
     ls_now = clock w, ls_pc = others(p := c)\<rparr>"

fun pc_after :: "acquire_result \<Rightarrow> lock_pc" where
  "pc_after (Acquired t) = Holding t"
| "pc_after Busy = Outside"
| "pc_after StaleReleased = Outside"

lemma goto_view [simp]: "goto_pc p c (lock_view p d f w) = lock_view p c f w"
  by (simp add: goto_pc_def lock_view_def)

lemma view_sel [simp]: "ls_pc (lock_view p c f w) p = c" "ls_now (lock_view p c f w) = clock w"
  by (simp_all add: lock_view_def)

lemma now_view:
  assumes "js_now w = (Inr c, w1)" "clock w1 = c" "clock w \<le> c" "admin_locks w1 = admin_locks w"
  shows "lock_reach True (lock_view p pc f w) (lock_view p pc f w1)"
proof -
  have "lock_view p pc f w1 = (lock_view p pc f w)\<lparr>ls_now := ls_now (lock_view p pc f w) + (c - clock w)\<rparr>"
    using assms by (simp add: lock_view_def)
  moreover have "lock_step True p (lock_view p pc f w)
      ((lock_view p pc f w)\<lparr>ls_now := ls_now (lock_view p pc f w) + (c - clock w)\<rparr>)"
    by (rule pass_time) (use assms in simp)
  ultimately show ?thesis by (metis lock_reach_1)
qed

lemma find_append: "find P (xs @ ys) = (case find P xs of None \<Rightarrow> find P ys | Some x \<Rightarrow> Some x)"
  by (induction xs) auto

lemma find_filter_distinct:
  assumes "distinct (map f xs)" "find (\<lambda>r. f r = k) xs = Some x"
  shows "find (\<lambda>r. f r = k) (filter (\<lambda>r. \<not> (f r = k \<and> g r = g x)) xs) = None"
  using assms by (induction xs) (auto simp: find_own(1) image_iff split: if_splits)

abbreviation own_row :: "lock_row \<Rightarrow> bool" where
  "own_row r \<equiv> lock_id r = ADMIN_MUTATION_LOCK_ID"

lemma row_of_view: "find own_row (admin_locks w) = x \<Longrightarrow> ls_row (lock_view p pc f w) = map_option lock_lockedAt x"
  by (simp add: lock_view_def)

text \<open>The steps of the protocol for a free row, for a taken one, and for one that is broken.\<close>

lemma view_insert:
  assumes "find own_row (admin_locks w) = None"
  shows "lock_step True p (lock_view p (Trying c) f w)
    (lock_view p (Holding c) f (w\<lparr>admin_locks := admin_locks w @ [\<lparr>lock_id = ADMIN_MUTATION_LOCK_ID, lock_lockedAt = c\<rparr>]\<rparr>))"
proof -
  have "lock_step True p (lock_view p (Trying c) f w) (goto_pc p (Holding c) ((lock_view p (Trying c) f w)\<lparr>ls_row := Some c\<rparr>))"
    by (rule insert_ok) (simp_all add: row_of_view [OF assms])
  moreover have "goto_pc p (Holding c) ((lock_view p (Trying c) f w)\<lparr>ls_row := Some c\<rparr>)
      = lock_view p (Holding c) f (w\<lparr>admin_locks := admin_locks w @ [\<lparr>lock_id = ADMIN_MUTATION_LOCK_ID, lock_lockedAt = c\<rparr>]\<rparr>)"
    using assms by (simp add: lock_view_def goto_pc_def find_append)
  ultimately show ?thesis by simp
qed

lemma view_select:
  assumes "find own_row (admin_locks w) = Some x"
  shows "lock_reach True (lock_view p (Trying c) f w) (lock_view p (Selected (lock_lockedAt x)) f w)"
proof -
  note row = row_of_view [OF assms, simplified]
  have "lock_step True p (lock_view p (Trying c) f w) (lock_view p Conflicted f w)"
    using insert_refused [of True "lock_view p (Trying c) f w" p] row by simp
  moreover have "lock_step True p (lock_view p Conflicted f w) (lock_view p (Selected (lock_lockedAt x)) f w)"
    using select_row [of "lock_view p Conflicted f w" p] row by simp
  ultimately show ?thesis by (metis lock_reach_1 lock_trans)
qed

definition without_row :: "int \<Rightarrow> world \<Rightarrow> world" where
  "without_row v w = w\<lparr>admin_locks := filter (\<lambda>r. \<not> (own_row r \<and> lock_lockedAt r = v)) (admin_locks w)\<rparr>"

lemma view_break:
  assumes "find own_row (admin_locks w) = Some x" "distinct (map lock_id (admin_locks w))" "clock w - lock_lockedAt x > ADMIN_MUTATION_LOCK_STALE_MS"
  shows "lock_reach True (lock_view p (Selected (lock_lockedAt x)) f w) (lock_view p Outside f (without_row (lock_lockedAt x) w))"
proof -
  have "lock_step True p (lock_view p (Selected (lock_lockedAt x)) f w) (lock_view p (Breaking (lock_lockedAt x)) f w)"
    using found_stale [of "lock_view p (Selected (lock_lockedAt x)) f w" p] assms(3) by simp
  moreover have "lock_view p Outside f (without_row (lock_lockedAt x) w)
      = goto_pc p Outside (delete_match (lock_lockedAt x) (lock_view p (Breaking (lock_lockedAt x)) f w))"
    using find_filter_distinct [OF assms(2,1), of lock_lockedAt] assms(1)
    by (simp add: lock_view_def goto_pc_def delete_match_def without_row_def)
  then have "lock_step True p (lock_view p (Breaking (lock_lockedAt x)) f w) (lock_view p Outside f (without_row (lock_lockedAt x) w))"
    using break_stale [of "lock_view p (Breaking (lock_lockedAt x)) f w" p] by simp
  ultimately show ?thesis by (metis lock_reach_1 lock_trans)
qed

text \<open>What the code does in the two cases, when no call fails.\<close>

lemma tryAcquire_free_row:
  assumes "faults w = []" "distinct (map lock_id (admin_locks w))" "find own_row (admin_locks w) = None" "js_now w = (Inr c, w1)"
    "faults w1 = faults w" "admin_locks w1 = admin_locks w"
  shows "tryAcquire w = (Inr (Acquired c), w1\<lparr>admin_locks := admin_locks w1 @ [\<lparr>lock_id = ADMIN_MUTATION_LOCK_ID, lock_lockedAt = c\<rparr>]\<rparr>)"
proof -
  have "ADMIN_MUTATION_LOCK_ID \<notin> lock_id ` set (admin_locks w)" using assms(3) by (auto simp: find_own(1))
  then show ?thesis
    using assms by (auto simp: tryAcquire_def io_bind_run io_catch_run db_insert_calm db_store_def adminMutationLocksTable_def)
qed

lemma tryAcquire_taken_row:
  assumes "faults w = []" "isUniqueConstraintError (dup_error w)" "find own_row (admin_locks w) = Some x" "js_now w = (Inr c, w1)"
    "faults w1 = faults w" "admin_locks w1 = admin_locks w" "dup_error w1 = dup_error w"
    "js_now w1 = (Inr d, w2)" "faults w2 = faults w1" "admin_locks w2 = admin_locks w1"
  shows "tryAcquire w = (if d - lock_lockedAt x > ADMIN_MUTATION_LOCK_STALE_MS
    then (Inr StaleReleased, without_row (lock_lockedAt x) w2) else (Inr Busy, w2))"
proof -
  have "own_row x" "x \<in> set (admin_locks w)" using find_own(2) [OF assms(3)] by auto
  then have "tryAcquire w = tryAcquire_conflict (dup_error w) w1"
    using assms by (auto simp: tryAcquire_def io_bind_run io_catch_run db_insert_calm db_store_def adminMutationLocksTable_def image_iff)
  moreover have "tryAcquire_conflict (dup_error w) w1 = (if d - lock_lockedAt x > ADMIN_MUTATION_LOCK_STALE_MS
    then (Inr StaleReleased, without_row (lock_lockedAt x) w2) else (Inr Busy, w2))"
    using unique_not_connection [OF assms(2)] assms find_own(2) [OF assms(3)]
    by (cases "filter own_row (admin_locks w)")
      (auto simp: tryAcquire_conflict_def io_bind_run db_select_calm adminMutationLocksTable_def releaseIfMatches_def db_delete_calm without_row_def)
  ultimately show ?thesis by simp
qed

text \<open>C6. Where no call fails and the driver's duplicate error is recognised, an attempt of the
  modelled repository is a run of the protocol: from outside, it ends holding the lock it reports,
  and outside otherwise.\<close>

theorem tryAcquire_follows_protocol:
  assumes "faults w = []" "isUniqueConstraintError (dup_error w)"
    and dist: "distinct (map lock_id (admin_locks w))" and run: "tryAcquire w = (Inr r, w')"
  shows "lock_reach True (lock_view p Outside f w) (lock_view p (pc_after r) f w')"
proof -
  obtain c w1 where js: "js_now w = (Inr c, w1)" "clock w1 = c" "clock w \<le> c"
    "faults w1 = faults w" "admin_locks w1 = admin_locks w" "dup_error w1 = dup_error w"
    by (rule js_nowE)
  have trying: "lock_reach True (lock_view p Outside f w) (lock_view p (Trying c) f w1)"
    using now_view [OF js(1,2,3,5), of p Outside f] read_clock [of "lock_view p Outside f w1" p True] js(2) by (simp add: lock_trans)
  show ?thesis
  proof (cases "find own_row (admin_locks w)")
    case None
    have "lock_step True p (lock_view p (Trying c) f w1) (lock_view p (pc_after r) f w')"
      using view_insert [of w1 p c f] tryAcquire_free_row [OF assms(1) dist None js(1,4,5)] run None js(5) by simp
    then show ?thesis by (rule lock_trans [OF trying])
  next
    case (Some x)
    obtain d w2 where js2: "js_now w1 = (Inr d, w2)" "clock w2 = d" "clock w1 \<le> d" "faults w2 = faults w1" "admin_locks w2 = admin_locks w1"
      by (rule js_nowE)
    have row: "find own_row (admin_locks w1) = Some x" "find own_row (admin_locks w2) = Some x" "distinct (map lock_id (admin_locks w2))"
      using Some dist js(5) js2(5) by simp_all
    have sel: "lock_reach True (lock_view p Outside f w) (lock_view p (Selected (lock_lockedAt x)) f w2)"
      using lock_reach_append [OF lock_reach_append [OF trying view_select [OF row(1)]] now_view [OF js2(1,2,3,5)]] .
    note eval = tryAcquire_taken_row [OF assms(1,2) Some js(1,4,5,6) js2(1,4,5)]
    show ?thesis
    proof (cases "d - lock_lockedAt x > ADMIN_MUTATION_LOCK_STALE_MS")
      case True
      then show ?thesis using lock_reach_append [OF sel view_break [OF row(2,3)]] eval run js2(2) by auto
    next
      case False
      then have "lock_step True p (lock_view p (Selected (lock_lockedAt x)) f w2) (lock_view p Outside f w2)"
        using not_stale [of "lock_view p (Selected (lock_lockedAt x)) f w2" p] js2(2) by simp
      then show ?thesis using lock_trans [OF sel] False eval run by auto
    qed
  qed
qed

definition demo_lock_world :: world where
  "demo_lock_world = \<lparr>users = [], admin_locks = [], api_keys = [], custom_bots = [], bots = [], objects = [],
     messages = [], clock = 0, ticks = [5], faults = [], nonce = 0,
     dup_error = Err (Some ''23505'') ''duplicate key'' None, fk_error = Err (Some ''23503'') ''foreign key'' None\<rparr>"

theorem tryAcquire_follows_protocol_witness:
  "\<exists>t w'. lock_reach True (lock_view 1 Outside (\<lambda>_. Outside) demo_lock_world) (lock_view 1 (Holding t) (\<lambda>_. Outside) w')"
proof -
  have w: "faults demo_lock_world = []" "admin_locks demo_lock_world = []"
    "isUniqueConstraintError (dup_error demo_lock_world)"
    by (simp_all add: demo_lock_world_def isUniqueConstraintError_def)
  obtain t w1 where "tryAcquire demo_lock_world = (Inr (Acquired t),
      w1\<lparr>admin_locks := [\<lparr>lock_id = ADMIN_MUTATION_LOCK_ID, lock_lockedAt = t\<rparr>]\<rparr>)"
    by (rule tryAcquire_free [OF w(1,2)])
  from tryAcquire_follows_protocol [OF w(1,3) _ this, of 1 "\<lambda>_. Outside"] w(2)
  show ?thesis by auto
qed

end
