(* ===== verification/UserRepository.thy ===== *)
theory UserRepository
  imports AdminLock
begin

text \<open>
  api/src/user/user.repository.ts, user.types.ts and user.constants.ts: the statements on the
  users table, and the rules that say what each of them leaves of the table.
\<close>

section \<open>Types\<close>

text \<open>user.constants.ts: \<open>USER_ROLES\<close>; the column of the table is a string.\<close>

datatype user_role = ADMIN | USER

fun role_value :: "user_role \<Rightarrow> string" where
  "role_value ADMIN = ''admin''"
| "role_value USER = ''user''"

lemma role_value_inject [simp]: "role_value a = role_value b \<longleftrightarrow> a = b"
  by (cases a; cases b) auto

record create_admin_user_input =
  cu_username :: "string option"
  cu_email :: string
  cu_password :: string
  cu_firstName :: "string option"
  cu_lastName :: "string option"
  cu_role :: "user_role option"
  cu_isActive :: "bool option"

text \<open>The names can also be null, which is not the same as absent.\<close>

record update_admin_user_input =
  uu_username :: "string option"
  uu_email :: "string option"
  uu_firstName :: "string option option"
  uu_lastName :: "string option option"
  uu_role :: "user_role option"
  uu_isActive :: "bool option"

record update_profile_input =
  up_username :: "string option"
  up_firstName :: "string option"
  up_lastName :: "string option"

section \<open>Statements\<close>

definition is_active_admin :: "user_row \<Rightarrow> bool" where
  "is_active_admin u \<longleftrightarrow> user_isActive u \<and> user_role u = role_value ADMIN"

fun first_row :: "'a list \<Rightarrow> 'a option" where
  "first_row [] = None"
| "first_row (x # _) = Some x"

definition count_users :: "(world, nat) io" where
  "count_users = io_bind (db_select usersTable (\<lambda>_. True)) (\<lambda>rows. io_return (length rows))"

definition countActiveAdmins :: "(world, nat) io" where
  "countActiveAdmins = io_bind (db_select usersTable is_active_admin) (\<lambda>rows. io_return (length rows))"

definition hasActiveAdmin :: "(world, bool) io" where
  "hasActiveAdmin = io_bind (db_select usersTable is_active_admin) (\<lambda>rows.
     io_return (length (take 1 rows) > 0))"

definition list_users :: "(world, user_row list) io" where
  "list_users = db_select usersTable (\<lambda>_. True)"

definition findById :: "string \<Rightarrow> (world, user_row option) io" where
  "findById i = io_bind (db_select usersTable (\<lambda>u. user_id u = i)) (\<lambda>rows. io_return (first_row rows))"

definition findByEmail :: "string \<Rightarrow> (world, user_row option) io" where
  "findByEmail email = io_bind (db_select usersTable (\<lambda>u. user_email u = email)) (\<lambda>rows.
     io_return (first_row rows))"

definition findByUsername :: "string \<Rightarrow> (world, user_row option) io" where
  "findByUsername username = io_bind (db_select usersTable (\<lambda>u. user_username u = username)) (\<lambda>rows.
     io_return (first_row rows))"

definition findAnotherByUsername :: "string \<Rightarrow> string \<Rightarrow> (world, user_row option) io" where
  "findAnotherByUsername username excludedUserId =
     io_bind (db_select usersTable (\<lambda>u. user_username u = username \<and> user_id u \<noteq> excludedUserId))
       (\<lambda>rows. io_return (first_row rows))"

text \<open>An inserted row: the id and the two timestamps are the column defaults of users.ts.\<close>

definition insert_user :: "server \<Rightarrow> (string \<Rightarrow> int \<Rightarrow> user_row) \<Rightarrow> (world, user_row) io" where
  "insert_user sv mk = io_bind (draw (createId sv)) (\<lambda>i. io_bind js_now (\<lambda>now.
     db_insert usersTable (mk i now)))"

definition createFirstAdmin :: "server \<Rightarrow> string \<Rightarrow> string \<Rightarrow> string option \<Rightarrow> string option \<Rightarrow> string \<Rightarrow> (world, user_row) io" where
  "createFirstAdmin sv username email firstName lastName hash = insert_user sv (\<lambda>i now.
     \<lparr>user_id = i, user_username = js_trim username, user_email = js_trim email,
      user_passwordHash = hash, user_firstName = firstName, user_lastName = lastName,
      user_role = role_value ADMIN, user_sessionVersion = 0, user_isActive = True,
      user_isEmailVerified = True, user_lastLoginAt = None, user_metadata = Some (JObj []),
      user_createdAt = now, user_updatedAt = now\<rparr>)"

definition repo_createUser :: "server \<Rightarrow> create_admin_user_input \<Rightarrow> string \<Rightarrow> string \<Rightarrow> string \<Rightarrow> (world, user_row) io" where
  "repo_createUser sv input username email hash = insert_user sv (\<lambda>i now.
     \<lparr>user_id = i, user_username = username, user_email = email,
      user_passwordHash = hash, user_firstName = cu_firstName input, user_lastName = cu_lastName input,
      user_role = (case cu_role input of Some r \<Rightarrow> role_value r | None \<Rightarrow> role_value USER),
      user_sessionVersion = 0,
      user_isActive = (case cu_isActive input of Some b \<Rightarrow> b | None \<Rightarrow> True),
      user_isEmailVerified = True, user_lastLoginAt = None, user_metadata = Some (JObj []),
      user_createdAt = now, user_updatedAt = now\<rparr>)"

definition updateRaw :: "string \<Rightarrow> (user_row \<Rightarrow> user_row) \<Rightarrow> (world, user_row option) io" where
  "updateRaw i updates = io_bind (db_update usersTable (\<lambda>u. user_id u = i) updates) (\<lambda>rows.
     io_return (first_row rows))"

text \<open>\<open>x ?? y\<close> for a field that is only written when it is given.\<close>

fun given :: "'a option \<Rightarrow> 'a \<Rightarrow> 'a" where
  "given (Some x) _ = x"
| "given None y = y"

definition update_fields :: "update_admin_user_input \<Rightarrow> int \<Rightarrow> user_row \<Rightarrow> user_row" where
  "update_fields input now u = u\<lparr>
     user_username := given (uu_username input) (user_username u),
     user_email := given (uu_email input) (user_email u),
     user_firstName := given (uu_firstName input) (user_firstName u),
     user_lastName := given (uu_lastName input) (user_lastName u),
     user_role := given (map_option role_value (uu_role input)) (user_role u),
     user_isActive := given (uu_isActive input) (user_isActive u),
     user_updatedAt := now\<rparr>"

definition repo_update :: "string \<Rightarrow> update_admin_user_input \<Rightarrow> (world, user_row option) io" where
  "repo_update i input = io_bind js_now (\<lambda>now. updateRaw i (update_fields input now))"

definition profile_fields :: "update_profile_input \<Rightarrow> int \<Rightarrow> user_row \<Rightarrow> user_row" where
  "profile_fields input now u = u\<lparr>
     user_username := given (up_username input) (user_username u),
     user_firstName := given (map_option Some (up_firstName input)) (user_firstName u),
     user_lastName := given (map_option Some (up_lastName input)) (user_lastName u),
     user_updatedAt := now\<rparr>"

definition repo_updateProfile :: "string \<Rightarrow> update_profile_input \<Rightarrow> (world, user_row option) io" where
  "repo_updateProfile i input = io_bind js_now (\<lambda>now. updateRaw i (profile_fields input now))"

definition updateLastLogin :: "string \<Rightarrow> (world, unit) io" where
  "updateLastLogin i = io_bind js_now (\<lambda>now.
     io_bind (db_update usersTable (\<lambda>u. user_id u = i) (\<lambda>u. u\<lparr>user_lastLoginAt := Some now\<rparr>)) (\<lambda>_.
     io_return ()))"

definition password_fields :: "string \<Rightarrow> int \<Rightarrow> user_row \<Rightarrow> user_row" where
  "password_fields hash now u = u\<lparr>user_passwordHash := hash,
     user_sessionVersion := user_sessionVersion u + 1, user_updatedAt := now\<rparr>"

definition updatePassword :: "string \<Rightarrow> string \<Rightarrow> (world, user_row option) io" where
  "updatePassword i hash = io_bind js_now (\<lambda>now. updateRaw i (password_fields hash now))"

definition promote_fields :: "string \<Rightarrow> int \<Rightarrow> user_row \<Rightarrow> user_row" where
  "promote_fields hash now u = u\<lparr>user_role := role_value ADMIN, user_passwordHash := hash,
     user_isActive := True, user_sessionVersion := user_sessionVersion u + 1, user_updatedAt := now\<rparr>"

definition promoteToAdminAndSetPassword :: "string \<Rightarrow> string \<Rightarrow> (world, user_row option) io" where
  "promoteToAdminAndSetPassword i hash = io_bind js_now (\<lambda>now. updateRaw i (promote_fields hash now))"

definition deactivate_fields :: "int \<Rightarrow> user_row \<Rightarrow> user_row" where
  "deactivate_fields now u = u\<lparr>user_isActive := False,
     user_sessionVersion := user_sessionVersion u + 1, user_updatedAt := now\<rparr>"

definition deactivate :: "string \<Rightarrow> (world, unit) io" where
  "deactivate i = io_bind js_now (\<lambda>now.
     io_bind (db_update usersTable (\<lambda>u. user_id u = i) (deactivate_fields now)) (\<lambda>_. io_return ()))"

definition promoteToAdmin :: "string \<Rightarrow> (world, unit) io" where
  "promoteToAdmin i = io_bind js_now (\<lambda>now.
     io_bind (db_update usersTable (\<lambda>u. user_id u = i)
        (\<lambda>u. u\<lparr>user_role := role_value ADMIN, user_updatedAt := now\<rparr>)) (\<lambda>_. io_return ()))"

section \<open>The users table after a statement\<close>

text \<open>
  \<open>from_to us Q m\<close>: started with the users \<open>us\<close>, m ends, whatever its outcome, with users
  that satisfy \<open>Q\<close>.
\<close>

definition from_to :: "user_row list \<Rightarrow> (user_row list \<Rightarrow> bool) \<Rightarrow> (world, 'a) io \<Rightarrow> bool" where
  "from_to us Q m \<longleftrightarrow> triple (\<lambda>w. users w = us) m (\<lambda>_ w. Q (users w)) (\<lambda>_ w. Q (users w))"

text \<open>A read: the table stays, and the value is a function of it.\<close>

definition reads :: "(world, 'a) io \<Rightarrow> (user_row list \<Rightarrow> 'a \<Rightarrow> bool) \<Rightarrow> bool" where
  "reads m V \<longleftrightarrow> (\<forall>us. triple (\<lambda>w. users w = us) m (\<lambda>x w. users w = us \<and> V us x) (\<lambda>_ w. users w = us))"

named_theorems reads_rules "computations that leave the users table alone"

definition users_check :: "user_row list \<Rightarrow> bool" where
  "users_check rs \<longleftrightarrow> distinct (map user_id rs) \<and> distinct (map user_username rs)
     \<and> distinct (map user_email rs)"

lemma from_to_read:
  "reads m V \<Longrightarrow> Q us \<Longrightarrow> (\<And>x. V us x \<Longrightarrow> from_to us Q (f x)) \<Longrightarrow> from_to us Q (io_bind m f)"
  unfolding from_to_def reads_def
  apply (rule triple_bind [where R = "\<lambda>x w. users w = us \<and> V us x"])
   apply (rule triple_conseq, erule spec, assumption+)
   apply simp
  apply (fastforce simp: triple_def split: prod.splits sum.splits)
  done

lemma from_to_return: "Q us \<Longrightarrow> from_to us Q (io_return x)"
  by (simp add: from_to_def triple_def)

lemma from_to_throw: "Q us \<Longrightarrow> from_to us Q (io_throw e)"
  by (simp add: from_to_def triple_def)

lemma from_to_last: "from_to us Q m \<Longrightarrow> from_to us Q (io_bind m (\<lambda>x. io_return (f x)))"
  unfolding from_to_def
  by (rule triple_bind [where R = "\<lambda>x w. Q (users w)"]) (auto simp: triple_def)

lemma from_to_final:
  "from_to us Q m \<Longrightarrow> (\<And>x us'. Q us' \<Longrightarrow> from_to us' Q (f x)) \<Longrightarrow> from_to us Q (io_bind m f)"
  unfolding from_to_def
  apply (rule triple_bind [where R = "\<lambda>x w. Q (users w)"])
   apply assumption
  apply (fastforce simp: triple_def split: prod.splits sum.splits)
  done

lemma from_to_mono: "from_to us Q m \<Longrightarrow> (\<And>us'. Q us' \<Longrightarrow> Q' us') \<Longrightarrow> from_to us Q' m"
  unfolding from_to_def by (erule triple_conseq) auto

lemma from_to_if:
  "(c \<Longrightarrow> from_to us Q m) \<Longrightarrow> (\<not> c \<Longrightarrow> from_to us Q n) \<Longrightarrow> from_to us Q (if c then m else n)"
  by simp

lemma from_toD: "from_to us Q m \<Longrightarrow> users w = us \<Longrightarrow> Q (users (snd (m w)))"
  by (cases "m w") (auto simp: from_to_def triple_def split: sum.splits)

lemma from_toI: "(\<And>w. users w = us \<Longrightarrow> Q (users (snd (m w)))) \<Longrightarrow> from_to us Q m"
  by (simp add: from_to_def triple_def case_prod_beta sum.case_eq_if)

lemma from_to_withLock:
  assumes "from_to us Q m" "Q us"
  shows "from_to us Q (withLock m)"
proof (rule from_toI)
  fix w :: world assume w: "users w = us"
  have lf: "lock_free (\<lambda>w. users w = us)" "lock_free (\<lambda>w. Q (users w))"
    by (auto simp: lock_free_def env_free_def)
  obtain r w1 where acq: "acquireWithRetries w = (r, w1)" by (cases "acquireWithRetries w") auto
  have w1: "users w1 = us"
    using preservesD [OF preserves_acquire_attempts [OF lf(1), of 50], of w] acq w
    by (simp add: acquireWithRetries_def)
  show "Q (users (snd (withLock m w)))"
  proof (cases r)
    case (Inl e)
    then show ?thesis using acq w1 assms(2) by (simp add: withLock_def io_bind_run)
  next
    case (Inr t)
    obtain r2 w2 where m: "m w1 = (r2, w2)" by (cases "m w1") auto
    have Q2: "Q (users w2)" using from_toD [OF assms(1) w1] m by simp
    have Q3: "Q (users (snd (releaseIfMatches t w2)))"
      by (rule preservesD [OF preserves_releaseIfMatches [OF lf(2)]]) (rule Q2)
    show ?thesis
      using Inr acq m Q2 Q3
      by (auto simp: withLock_def runWithRelease_def io_bind_run io_catch_run case_prod_beta
          split: sum.splits)
  qed
qed

lemma reads_preserving:
  assumes "\<And>us. preserves (\<lambda>w. users w = us) m"
  shows "reads m (\<lambda>_ _. True)"
  using assms unfolding reads_def preserves_triple by simp

lemma env_free_users: "env_free (\<lambda>w. users w = us)"
  by (simp add: env_free_def)

lemma reads_select [reads_rules]: "reads (db_select usersTable P) (\<lambda>us rs. rs = filter P us)"
  by (auto simp: reads_def triple_def db_select_def external_def split: list.splits fault.splits)

lemma reads_now [reads_rules]: "reads js_now (\<lambda>_ _. True)"
  by (rule reads_preserving) (rule preserves_now [OF env_free_users])

lemma reads_draw [reads_rules]: "reads (draw g) (\<lambda>_ _. True)"
  by (rule reads_preserving) (rule preserves_draw [OF env_free_users])

lemma reads_hashPassword [reads_rules]:
  "reads (hashPassword sv p) (\<lambda>_ h. \<exists>r n. h = bcrypt_hash sv p r n)"
  by (auto simp: reads_def triple_def hashPassword_run split: sum.splits)

lemma reads_weaken: "reads m V \<Longrightarrow> (\<And>us x. V us x \<Longrightarrow> V' us x) \<Longrightarrow> reads m V'"
  unfolding reads_def by (blast intro: triple_conseq)

lemma reads_bind:
  assumes "reads m V" "\<And>x. reads (g x) (W x)"
  shows "reads (io_bind m g) (\<lambda>us y. \<exists>x. V us x \<and> W x us y)"
  unfolding reads_def
proof
  fix us
  show "triple (\<lambda>w. users w = us) (io_bind m g)
      (\<lambda>y w. users w = us \<and> (\<exists>x. V us x \<and> W x us y)) (\<lambda>_ w. users w = us)"
  proof (rule triple_bind)
    show "triple (\<lambda>w. users w = us) m (\<lambda>x w. users w = us \<and> V us x) (\<lambda>_ w. users w = us)"
      using assms(1) by (simp add: reads_def)
  next
    fix x
    show "triple (\<lambda>w. users w = us \<and> V us x) (g x)
        (\<lambda>y w. users w = us \<and> (\<exists>x. V us x \<and> W x us y)) (\<lambda>_ w. users w = us)"
    proof (cases "V us x")
      case True
      then show ?thesis
        using assms(2) [of x] unfolding reads_def by (blast intro: triple_conseq)
    qed (simp add: triple_def)
  qed
qed

lemma reads_return: "reads (io_return x) (\<lambda>_ y. y = x)"
  by (simp add: reads_def triple_def)

lemma reads_throw: "reads (io_throw e) V"
  by (simp add: reads_def triple_def)

lemma reads_throw_if: "reads (throw_if c e) (\<lambda>us _. \<not> c)"
  by (auto simp: reads_def triple_def throw_if_def)

lemma reads_map:
  "reads m V \<Longrightarrow> (\<And>us x. V us x \<Longrightarrow> V' us (f x)) \<Longrightarrow> reads (io_bind m (\<lambda>x. io_return (f x))) V'"
  unfolding reads_def triple_def io_bind_def by (fastforce split: prod.splits sum.splits)

lemma reads_finds [reads_rules]:
  "reads (findById i) (\<lambda>us x. x = first_row (filter (\<lambda>u. user_id u = i) us))"
  "reads (findByEmail e) (\<lambda>us x. x = first_row (filter (\<lambda>u. user_email u = e) us))"
  "reads (findByUsername n) (\<lambda>us x. x = first_row (filter (\<lambda>u. user_username u = n) us))"
  "reads (findAnotherByUsername n i) (\<lambda>us x. x = first_row (filter (\<lambda>u. user_username u = n \<and> user_id u \<noteq> i) us))"
  "reads countActiveAdmins (\<lambda>us n. n = length (filter is_active_admin us))"
  "reads count_users (\<lambda>us n. n = length us)"
  "reads list_users (\<lambda>us x. x = us)"
  unfolding findById_def findByEmail_def findByUsername_def findAnotherByUsername_def
    countActiveAdmins_def count_users_def
  by (rule reads_map [OF reads_select], simp)+ (use reads_select [of "\<lambda>_. True"] in \<open>simp add: list_users_def\<close>)

lemma first_row_filter: "first_row (filter P xs) = Some x \<Longrightarrow> x \<in> set xs \<and> P x"
  by (cases "filter P xs") (auto simp: filter_eq_Cons_iff)

lemma first_row_None: "first_row (filter P xs) = None \<longleftrightarrow> (\<forall>x\<in>set xs. \<not> P x)"
  by (cases "filter P xs") (auto simp: filter_empty_conv filter_eq_Cons_iff)

text \<open>What the two kinds of writes leave.\<close>

definition edited :: "string \<Rightarrow> (user_row \<Rightarrow> user_row) \<Rightarrow> user_row list \<Rightarrow> user_row list" where
  "edited i f us = map (\<lambda>u. if user_id u = i then f u else u) us"

lemma from_to_update:
  assumes "Q us" "users_check (edited i f us) \<Longrightarrow> Q (edited i f us)"
  shows "from_to us Q (db_update usersTable (\<lambda>u. user_id u = i) f)"
  using assms
  by (intro from_toI) (auto simp: db_update_def external_def db_store_def usersTable_def users_check_def
      edited_def split: list.splits fault.splits)

lemma from_to_updateRaw:
  assumes "Q us" "users_check (edited i f us) \<Longrightarrow> Q (edited i f us)"
  shows "from_to us Q (updateRaw i f)"
  unfolding updateRaw_def by (rule from_to_last, rule from_to_update) (use assms in auto)

lemma from_to_insert:
  assumes "Q us" "users_check (us @ [r]) \<Longrightarrow> Q (us @ [r])"
  shows "from_to us Q (db_insert usersTable r)"
  using assms
  by (intro from_toI) (auto simp: db_insert_def external_def db_store_def usersTable_def users_check_def
      split: list.splits fault.splits)

lemma from_to_insert_user:
  assumes "Q us" "\<And>i now. users_check (us @ [mk i now]) \<Longrightarrow> Q (us @ [mk i now])"
  shows "from_to us Q (insert_user sv mk)"
  unfolding insert_user_def
  by (intro from_to_read [OF reads_draw] from_to_read [OF reads_now] from_to_insert) (use assms in auto)

section \<open>Evaluation when nothing fails\<close>

lemma finds_calm [io_simps]:
  assumes "faults w = []"
  shows "findById i w = (Inr (first_row (filter (\<lambda>u. user_id u = i) (users w))), w)"
    and "findByEmail e w = (Inr (first_row (filter (\<lambda>u. user_email u = e) (users w))), w)"
    and "findByUsername n w = (Inr (first_row (filter (\<lambda>u. user_username u = n) (users w))), w)"
    and "countActiveAdmins w = (Inr (length (filter is_active_admin (users w))), w)"
    and "count_users w = (Inr (length (users w)), w)" and "list_users w = (Inr (users w), w)"
  using assms by (simp_all add: findById_def findByEmail_def findByUsername_def countActiveAdmins_def
      count_users_def list_users_def io_bind_run db_select_calm)

lemma first_row_map: "first_row (map f xs) = map_option f (first_row xs)"
  by (cases xs) auto

lemma updateRaw_calm [io_simps]:
  "faults w = [] \<Longrightarrow> updateRaw i f w = (if users_check (edited i f (users w))
     then (Inr (map_option f (first_row (filter (\<lambda>u. user_id u = i) (users w)))), w\<lparr>users := edited i f (users w)\<rparr>)
     else (Inl (dup_error w), w))"
  by (auto simp: updateRaw_def io_bind_run db_update_calm db_store_def usersTable_def users_check_def
      edited_def first_row_map)

section \<open>A concrete table\<close>

definition demo_user :: "string \<Rightarrow> string \<Rightarrow> user_role \<Rightarrow> user_row" where
  "demo_user name email role = \<lparr>user_id = ''id-'' @ name, user_username = name, user_email = email,
     user_passwordHash = ''$secret'', user_firstName = None, user_lastName = None,
     user_role = role_value role, user_sessionVersion = 0, user_isActive = True,
     user_isEmailVerified = True, user_lastLoginAt = None, user_metadata = Some (JObj []),
     user_createdAt = 0, user_updatedAt = 0\<rparr>"

definition demo_world :: world where
  "demo_world = \<lparr>users = [demo_user ''root'' ''Root@q.io'' ADMIN, demo_user ''ann'' ''ann@q.io'' USER],
     admin_locks = [], api_keys = [], custom_bots = [], bots = [], objects = [], messages = [],
     clock = 1000, ticks = [1, 2, 3], faults = [], nonce = 0,
     dup_error = Err (Some ''23505'') ''duplicate key'' None,
     fk_error = Err (Some ''23503'') ''foreign key'' None\<rparr>"

lemma demo_world_facts:
  "users_check (users demo_world)" "\<exists>u\<in>set (users demo_world). is_active_admin u"
  "faults demo_world = []" "admin_locks demo_world = []"
  by (simp_all add: demo_world_def demo_user_def users_check_def is_active_admin_def)

end
