(* ===== verification/UserService.thy ===== *)
theory UserService
  imports UserRepository
begin

text \<open>
  api/src/user/user.service.ts, with the request user of auth.types.ts. After the operations
  comes the contract of the component: a relation on the users table that every request,
  whatever its outcome and whatever fails underneath, is shown to respect, and that is closed
  under composition, so that it holds of every sequence of requests.
\<close>

section \<open>Types\<close>

record authenticated_user =
  au_uid :: string
  au_id :: string
  au_username :: string
  au_email :: string
  au_firstName :: "string option"
  au_lastName :: "string option"
  au_isActive :: bool
  au_isEmailVerified :: bool
  au_role :: user_role
  au_authType :: string

record serialized_user =
  su_id :: string
  su_username :: string
  su_email :: string
  su_firstName :: "string option"
  su_lastName :: "string option"
  su_role :: user_role
  su_isActive :: bool
  su_isEmailVerified :: bool
  su_isConfiguredRootAdmin :: bool
  su_lastLoginAt :: "int option"
  su_createdAt :: int
  su_updatedAt :: int

section \<open>Helpers of the service\<close>

text \<open>\<open>user.role === USER_ROLES.ADMIN ? USER_ROLES.ADMIN : USER_ROLES.USER\<close>\<close>

definition role_of :: "user_row \<Rightarrow> user_role" where
  "role_of u = (if user_role u = role_value ADMIN then ADMIN else USER)"

definition isConfiguredRootAdmin :: "server \<Rightarrow> user_row \<Rightarrow> bool" where
  "isConfiguredRootAdmin sv u = isConfiguredRootAdminEmail sv (user_email u)"

definition serialize_row :: "server \<Rightarrow> user_row \<Rightarrow> serialized_user" where
  "serialize_row sv u = \<lparr>su_id = user_id u, su_username = user_username u, su_email = user_email u,
     su_firstName = user_firstName u, su_lastName = user_lastName u, su_role = role_of u,
     su_isActive = user_isActive u, su_isEmailVerified = user_isEmailVerified u,
     su_isConfiguredRootAdmin = isConfiguredRootAdmin sv u, su_lastLoginAt = user_lastLoginAt u,
     su_createdAt = user_createdAt u, su_updatedAt = user_updatedAt u\<rparr>"

text \<open>The repository returns undefined when no row matched; reading its id then throws.\<close>

definition serializeUser :: "server \<Rightarrow> user_row option \<Rightarrow> (world, serialized_user) io" where
  "serializeUser sv user = (case user of
      None \<Rightarrow> io_throw (plain_error ''Cannot read properties of undefined (reading 'id')'')
    | Some u \<Rightarrow> io_return (serialize_row sv u))"

definition defaultUsername :: "string \<Rightarrow> string" where
  "defaultUsername email = or_else (nth_opt (split_at (CHR ''@'') email) 0) email"

definition normalizeUsername :: "string option \<Rightarrow> string \<Rightarrow> string" where
  "normalizeUsername username email =
     js_trim (or_else (map_option js_trim username) (defaultUsername email))"

definition assertRootAdminEmailUnchanged :: "server \<Rightarrow> user_row \<Rightarrow> string option \<Rightarrow> (world, unit) io" where
  "assertRootAdminEmailUnchanged sv user nextEmail =
     throw_if (nextEmail \<noteq> None \<and> nextEmail \<noteq> Some (user_email user) \<and> isConfiguredRootAdmin sv user)
       (Http 403 ''Configured root admin email is managed by deployment configuration'')"

definition assertRootAdminPasswordUnchanged :: "server \<Rightarrow> user_row \<Rightarrow> (world, unit) io" where
  "assertRootAdminPasswordUnchanged sv user =
     throw_if (isConfiguredRootAdmin sv user)
       (Http 403 ''Configured root admin password is managed by deployment configuration'')"

definition requireUser :: "string \<Rightarrow> (world, user_row) io" where
  "requireUser i = io_bind (findById i) (\<lambda>user. case user of
      None \<Rightarrow> io_throw (Http 404 ''User not found'')
    | Some u \<Rightarrow> io_return u)"

definition would_remove_admin :: "user_role option \<Rightarrow> bool option \<Rightarrow> bool" where
  "would_remove_admin role isActive \<longleftrightarrow> role = Some USER \<or> isActive = Some False"

definition assertAdminWillRemain :: "user_row \<Rightarrow> user_role option \<Rightarrow> bool option \<Rightarrow> (world, unit) io" where
  "assertAdminWillRemain currentUser role isActive =
     (if \<not> is_active_admin currentUser \<or> \<not> would_remove_admin role isActive then io_return ()
      else io_bind countActiveAdmins (\<lambda>activeAdminCount.
        throw_if (activeAdminCount \<le> 1) (Http 403 ''At least one active admin is required'')))"

section \<open>Operations\<close>

definition listUsers :: "server \<Rightarrow> (world, serialized_user list) io" where
  "listUsers sv = io_bind list_users (\<lambda>us. io_return (map (serialize_row sv) us))"

definition createUser :: "server \<Rightarrow> create_admin_user_input \<Rightarrow> (world, serialized_user) io" where
  "createUser sv input = (let email = js_trim (cu_email input);
                              username = normalizeUsername (cu_username input) email in
     io_bind (findByEmail email) (\<lambda>existingByEmail.
     io_bind (throw_if (existingByEmail \<noteq> None) (Http 400 ''Email is already in use'')) (\<lambda>_.
     io_bind (findByUsername username) (\<lambda>existingByUsername.
     io_bind (throw_if (existingByUsername \<noteq> None) (Http 400 ''Username is already in use'')) (\<lambda>_.
     io_bind (hashPassword sv (cu_password input)) (\<lambda>passwordHash.
     io_bind (repo_createUser sv input username email passwordHash) (\<lambda>user.
     io_return (serialize_row sv user))))))))"

text \<open>\<open>if (next && next !== current) { ... throw if somebody has it }\<close>\<close>

definition refuse_taken :: "string option \<Rightarrow> string \<Rightarrow> (string \<Rightarrow> (world, user_row option) io) \<Rightarrow> string \<Rightarrow> (world, unit) io" where
  "refuse_taken nextValue current lookup msg = (case nextValue of
      Some v \<Rightarrow> if v \<noteq> [] \<and> v \<noteq> current
        then io_bind (lookup v) (\<lambda>existing. throw_if (existing \<noteq> None) (Http 400 msg))
        else io_return ()
    | None \<Rightarrow> io_return ())"

definition updateUserWithAdminMutationLock ::
    "server \<Rightarrow> string \<Rightarrow> update_admin_user_input \<Rightarrow> authenticated_user \<Rightarrow> (world, serialized_user) io" where
  "updateUserWithAdminMutationLock sv i input actor = io_bind (requireUser i) (\<lambda>user.
     io_bind (throw_if (i = au_id actor \<and> uu_role input \<noteq> None \<and> uu_role input \<noteq> Some ADMIN)
        (Http 403 ''You cannot demote your own admin account'')) (\<lambda>_.
     io_bind (throw_if (i = au_id actor \<and> uu_isActive input = Some False)
        (Http 403 ''You cannot deactivate your own admin account'')) (\<lambda>_.
     io_bind (assertAdminWillRemain user (uu_role input) (uu_isActive input)) (\<lambda>_.
     let nextEmail = map_option js_trim (uu_email input);
         nextUsername = map_option js_trim (uu_username input) in
     io_bind (assertRootAdminEmailUnchanged sv user nextEmail) (\<lambda>_.
     io_bind (refuse_taken nextEmail (user_email user) findByEmail ''Email is already in use'') (\<lambda>_.
     io_bind (refuse_taken nextUsername (user_username user) findByUsername ''Username is already in use'') (\<lambda>_.
     io_bind (repo_update i (input\<lparr>uu_username := nextUsername, uu_email := nextEmail\<rparr>)) (\<lambda>updated.
     serializeUser sv updated))))))))"

definition updateUser :: "server \<Rightarrow> string \<Rightarrow> update_admin_user_input \<Rightarrow> authenticated_user \<Rightarrow> (world, serialized_user) io" where
  "updateUser sv i input actor = withLock (updateUserWithAdminMutationLock sv i input actor)"

definition resetPassword :: "server \<Rightarrow> string \<Rightarrow> string \<Rightarrow> authenticated_user option \<Rightarrow> (world, serialized_user) io" where
  "resetPassword sv i password actor =
     io_bind (throw_if (map_option au_id actor = Some i)
        (Http 403 ''Use change password for your own admin account'')) (\<lambda>_.
     io_bind (requireUser i) (\<lambda>user.
     io_bind (assertRootAdminPasswordUnchanged sv user) (\<lambda>_.
     io_bind (hashPassword sv password) (\<lambda>passwordHash.
     io_bind (updatePassword i passwordHash) (\<lambda>updated.
     serializeUser sv updated)))))"

definition updateProfile :: "server \<Rightarrow> authenticated_user \<Rightarrow> update_profile_input \<Rightarrow> (world, serialized_user) io" where
  "updateProfile sv actor input = (let nextUsername = map_option js_trim (up_username input) in
     io_bind (if truthy_opt nextUsername
        then io_bind (findAnotherByUsername (the nextUsername) (au_id actor)) (\<lambda>existing.
          throw_if (existing \<noteq> None) (Http 400 ''Username is already in use''))
        else io_return ()) (\<lambda>_.
     io_bind (repo_updateProfile (au_id actor)
        (input\<lparr>up_username := (if truthy_opt nextUsername then nextUsername else None)\<rparr>)) (\<lambda>updated.
     serializeUser sv updated)))"

definition changePassword :: "server \<Rightarrow> authenticated_user \<Rightarrow> string \<Rightarrow> string \<Rightarrow> (world, unit) io" where
  "changePassword sv actor currentPassword newPassword = io_bind (requireUser (au_id actor)) (\<lambda>user.
     io_bind (assertRootAdminPasswordUnchanged sv user) (\<lambda>_.
     io_bind (throw_if (\<not> bcrypt_compare sv currentPassword (user_passwordHash user))
        (Http 401 ''Current password is incorrect'')) (\<lambda>_.
     io_bind (hashPassword sv newPassword) (\<lambda>passwordHash.
     io_bind (updatePassword (au_id actor) passwordHash) (\<lambda>_. io_return ())))))"

definition deleteAccountWithAdminMutationLock :: "server \<Rightarrow> authenticated_user \<Rightarrow> string \<Rightarrow> (world, unit) io" where
  "deleteAccountWithAdminMutationLock sv actor password = io_bind (requireUser (au_id actor)) (\<lambda>user.
     io_bind (throw_if (\<not> bcrypt_compare sv password (user_passwordHash user))
        (Http 401 ''Password is incorrect'')) (\<lambda>_.
     io_bind (assertAdminWillRemain user None (Some False)) (\<lambda>_.
     deactivate (au_id actor))))"

definition deleteAccount :: "server \<Rightarrow> authenticated_user \<Rightarrow> string \<Rightarrow> (world, unit) io" where
  "deleteAccount sv actor password = withLock (deleteAccountWithAdminMutationLock sv actor password)"

section \<open>The contract\<close>

text \<open>
  A row may only go forward: its id and creation date stay, its session version never falls,
  a new password hash comes with a new session version, and the configured root
  administrator keeps e-mail and password.
\<close>

definition row_step :: "server \<Rightarrow> user_row \<Rightarrow> user_row \<Rightarrow> bool" where
  "row_step sv u u' \<longleftrightarrow> user_id u' = user_id u \<and> user_createdAt u' = user_createdAt u
     \<and> user_sessionVersion u \<le> user_sessionVersion u'
     \<and> (user_passwordHash u' \<noteq> user_passwordHash u \<longrightarrow> user_sessionVersion u < user_sessionVersion u')
     \<and> (isConfiguredRootAdmin sv u \<longrightarrow>
          user_email u' = user_email u \<and> user_passwordHash u' = user_passwordHash u)"

definition has_admin :: "user_row list \<Rightarrow> bool" where
  "has_admin us \<longleftrightarrow> (\<exists>u\<in>set us. is_active_admin u)"

definition user_contract :: "server \<Rightarrow> user_row list \<Rightarrow> user_row list \<Rightarrow> bool" where
  "user_contract sv us us' \<longleftrightarrow> (users_check us \<longrightarrow>
     users_check us' \<and> (has_admin us \<longrightarrow> has_admin us')
     \<and> (\<forall>u\<in>set us. \<exists>u'\<in>set us'. row_step sv u u'))"

lemma row_step_refl: "row_step sv u u"
  by (simp add: row_step_def)

lemma row_step_trans: "row_step sv u v \<Longrightarrow> row_step sv v x \<Longrightarrow> row_step sv u x"
  by (fastforce simp: row_step_def isConfiguredRootAdmin_def)

lemma user_contract_refl: "user_contract sv us us"
  by (auto simp: user_contract_def intro: row_step_refl)

lemma user_contract_trans:
  "user_contract sv us vs \<Longrightarrow> user_contract sv vs ws \<Longrightarrow> user_contract sv us ws"
  unfolding user_contract_def by (meson row_step_trans)

lemma user_contract_add:
  "users_check (us @ [r]) \<Longrightarrow> user_contract sv us (us @ [r])"
  by (auto simp: user_contract_def has_admin_def intro: row_step_refl)

text \<open>
  Editing the row of one user, when nobody else has to be an administrator for it: either the
  row stays an active administrator if it was one, or there are two of them.
\<close>

lemma other_admin:
  assumes "distinct (map user_id us)" "1 < length (filter is_active_admin us)"
  shows "\<exists>u\<in>set us. is_active_admin u \<and> user_id u \<noteq> i"
proof -
  obtain a b rest where ab: "filter is_active_admin us = a # b # rest"
    using assms(2) by (cases "filter is_active_admin us"; cases "tl (filter is_active_admin us)") auto
  have "distinct (map user_id (filter is_active_admin us))"
    using assms(1) by (rule distinct_map_filter)
  then have ne: "user_id a \<noteq> user_id b" by (simp add: ab)
  have "{a, b} \<subseteq> set (filter is_active_admin us)" by (simp add: ab)
  then show ?thesis using ne by auto
qed

lemma user_contract_edit:
  assumes "users_check (edited i f us)"
    and "\<And>u. u \<in> set us \<Longrightarrow> user_id u = i \<Longrightarrow> row_step sv u (f u)"
    and "\<And>u. u \<in> set us \<Longrightarrow> user_id u = i \<Longrightarrow> is_active_admin u \<Longrightarrow> \<not> is_active_admin (f u) \<Longrightarrow>
           1 < length (filter is_active_admin us)"
  shows "user_contract sv us (edited i f us)"
proof -
  have img: "(if user_id u = i then f u else u) \<in> set (edited i f us)" if "u \<in> set us" for u
    using that by (auto simp: edited_def)
  have "has_admin (edited i f us)" if us: "users_check us" "has_admin us"
  proof -
    obtain u where u: "u \<in> set us" "is_active_admin u" using us(2) by (auto simp: has_admin_def)
    show ?thesis
    proof (cases "user_id u = i \<and> \<not> is_active_admin (f u)")
      case True
      then have "1 < length (filter is_active_admin us)" using assms(3) u by blast
      then obtain v where "v \<in> set us" "is_active_admin v" "user_id v \<noteq> i"
        using other_admin us(1) by (auto simp: users_check_def)
      then show ?thesis using img [of v] by (auto simp: has_admin_def)
    next
      case False
      then show ?thesis using img [of u] u by (auto simp: has_admin_def split: if_splits)
    qed
  qed
  moreover have "\<exists>u'\<in>set (edited i f us). row_step sv u u'" if "u \<in> set us" for u
    using img [OF that] assms(2) [OF that] by (cases "user_id u = i") (auto intro: row_step_refl)
  ultimately show ?thesis using assms(1) by (auto simp: user_contract_def)
qed

section \<open>Every operation respects it\<close>

text \<open>Stepping over the guards: each of them reads, and what passing it means is kept.\<close>

lemma reads_requireUser [reads_rules]:
  "reads (requireUser i) (\<lambda>us u. first_row (filter (\<lambda>u. user_id u = i) us) = Some u)"
  unfolding requireUser_def
proof (rule reads_weaken [OF reads_bind [OF reads_finds(1)]])
  fix x :: "user_row option"
  show "reads (case x of None \<Rightarrow> io_throw (Http 404 ''User not found'') | Some u \<Rightarrow> io_return u)
      (\<lambda>_ u. x = Some u)"
    by (cases x) (auto intro: reads_throw reads_weaken [OF reads_return])
qed auto

lemma reads_guard_admin [reads_rules]:
  "reads (assertAdminWillRemain u role act)
     (\<lambda>us _. is_active_admin u \<longrightarrow> would_remove_admin role act \<longrightarrow> 1 < length (filter is_active_admin us))"
proof (cases "\<not> is_active_admin u \<or> \<not> would_remove_admin role act")
  case True
  then show ?thesis by (auto simp: assertAdminWillRemain_def reads_def triple_def)
next
  case False
  have "reads (io_bind countActiveAdmins (\<lambda>n. throw_if (n \<le> 1) e))
      (\<lambda>us _. 1 < length (filter is_active_admin us))" for e
    by (rule reads_weaken [OF reads_bind [OF reads_finds(5) reads_throw_if]]) auto
  then show ?thesis using False by (simp add: assertAdminWillRemain_def)
qed

lemma reads_refuse_taken:
  assumes "\<And>v. reads (lookup v) (V v)"
  shows "reads (refuse_taken nxt current lookup msg) (\<lambda>_ _. True)"
proof (cases "\<exists>v. nxt = Some v \<and> v \<noteq> [] \<and> v \<noteq> current")
  case True
  then show ?thesis
    by (auto simp: refuse_taken_def intro!: reads_weaken [OF reads_bind [OF assms reads_throw_if]])
next
  case False
  then have "refuse_taken nxt current lookup msg = io_return ()"
    by (auto simp: refuse_taken_def split: option.splits)
  then show ?thesis by (simp only: reads_weaken [OF reads_return])
qed

lemma from_to_serialize: "Q us \<Longrightarrow> from_to us Q (serializeUser sv u)"
  by (cases u) (auto simp: serializeUser_def intro: from_to_return from_to_throw)

text \<open>A write to one row followed by serialising it.\<close>

lemma contract_write:
  assumes "\<And>now u. u \<in> set us \<Longrightarrow> user_id u = i \<Longrightarrow> row_step sv u (f now u)"
    and "\<And>now u. u \<in> set us \<Longrightarrow> user_id u = i \<Longrightarrow> is_active_admin u \<Longrightarrow> \<not> is_active_admin (f now u) \<Longrightarrow>
           1 < length (filter is_active_admin us)"
  shows "from_to us (user_contract sv us) (io_bind js_now (\<lambda>now. updateRaw i (f now)))"
  by (rule from_to_read [OF reads_now user_contract_refl], rule from_to_updateRaw [OF user_contract_refl],
      rule user_contract_edit) (use assms in auto)

lemma contract_then_serialize:
  "from_to us (user_contract sv us) m \<Longrightarrow>
     from_to us (user_contract sv us) (io_bind m (serializeUser sv))"
  by (erule from_to_final, rule from_to_serialize)

lemma contract_listUsers: "from_to us (user_contract sv us) (listUsers sv)"
  unfolding listUsers_def
  by (rule from_to_read [OF reads_finds(7) user_contract_refl], rule from_to_return, rule user_contract_refl)

lemma contract_createUser: "from_to us (user_contract sv us) (createUser sv input)"
  unfolding createUser_def Let_def repo_createUser_def
  by (rule from_to_read [OF reads_finds(2) user_contract_refl]
        from_to_read [OF reads_finds(3) user_contract_refl]
        from_to_read [OF reads_throw_if user_contract_refl]
        from_to_read [OF reads_hashPassword user_contract_refl]
        from_to_last from_to_insert_user user_contract_refl user_contract_add, assumption?)+

text \<open>With unique ids, the row that was looked up is the only one a write by id touches.\<close>

lemma contract_if_checked:
  assumes "users_check us \<Longrightarrow> from_to us (user_contract sv us) m"
  shows "from_to us (user_contract sv us) m"
proof (cases "users_check us")
  case False
  then show ?thesis by (intro from_toI) (simp add: user_contract_def)
qed (rule assms)

lemma looked_up_unique:
  assumes "users_check us" "first_row (filter (\<lambda>u. user_id u = i) us) = Some u" "v \<in> set us" "user_id v = i"
  shows "v = u"
  using first_row_filter [OF assms(2)] assms(1,3,4)
  by (auto simp: users_check_def distinct_map dest: inj_onD)

lemma row_step_password:
  "\<not> isConfiguredRootAdmin sv u \<Longrightarrow> row_step sv u (password_fields hash now u)"
  by (simp add: row_step_def password_fields_def)

lemma password_keeps_admin: "is_active_admin (password_fields hash now u) = is_active_admin u"
  by (simp add: is_active_admin_def password_fields_def)

lemma contract_updatePassword:
  assumes "users_check us" "first_row (filter (\<lambda>u. user_id u = i) us) = Some u"
    "\<not> isConfiguredRootAdmin sv u"
  shows "from_to us (user_contract sv us) (updatePassword i hash)"
  unfolding updatePassword_def
  by (rule contract_write)
    (use looked_up_unique [OF assms(1,2)] assms(3) in \<open>auto simp: row_step_password password_keeps_admin\<close>)

lemma contract_resetPassword: "from_to us (user_contract sv us) (resetPassword sv i password actor)"
proof (rule contract_if_checked)
  assume us: "users_check us"
  show ?thesis
    unfolding resetPassword_def assertRootAdminPasswordUnchanged_def
    by (rule from_to_read [OF reads_throw_if user_contract_refl]
        from_to_read [OF reads_requireUser user_contract_refl]
        from_to_read [OF reads_hashPassword user_contract_refl]
        contract_then_serialize contract_updatePassword [OF us], assumption?)+
qed

lemma contract_changePassword: "from_to us (user_contract sv us) (changePassword sv actor current new)"
proof (rule contract_if_checked)
  assume us: "users_check us"
  show ?thesis
    unfolding changePassword_def assertRootAdminPasswordUnchanged_def
    by (rule from_to_read [OF reads_throw_if user_contract_refl]
        from_to_read [OF reads_requireUser user_contract_refl]
        from_to_read [OF reads_hashPassword user_contract_refl]
        from_to_last contract_updatePassword [OF us], assumption?)+
qed

lemma row_step_profile: "row_step sv u (profile_fields input now u)"
  by (simp add: row_step_def profile_fields_def)

lemma profile_keeps_admin: "is_active_admin (profile_fields input now u) = is_active_admin u"
  by (simp add: is_active_admin_def profile_fields_def)

lemma contract_updateProfile: "from_to us (user_contract sv us) (updateProfile sv actor input)"
proof -
  have guard: "reads (if truthy_opt n
      then io_bind (findAnotherByUsername (the n) (au_id actor)) (\<lambda>existing. throw_if (existing \<noteq> None) e)
      else io_return ()) (\<lambda>_ _. True)" for n e
    by (auto intro: reads_weaken [OF reads_bind [OF reads_finds(4) reads_throw_if]]
        reads_weaken [OF reads_return])
  show ?thesis
    unfolding updateProfile_def Let_def
    apply (rule from_to_read [OF guard user_contract_refl])
    apply (rule contract_then_serialize, unfold repo_updateProfile_def, rule contract_write)
     apply (auto simp: row_step_profile profile_keeps_admin)
    done
qed

lemma deactivate_row_step: "row_step sv u (deactivate_fields now u)"
  by (simp add: row_step_def deactivate_fields_def)

lemma contract_deleteAccount: "from_to us (user_contract sv us) (deleteAccount sv actor password)"
  unfolding deleteAccount_def
proof (rule from_to_withLock [OF contract_if_checked user_contract_refl])
  assume us: "users_check us"
  have deact: "from_to us (user_contract sv us) (deactivate (au_id actor))"
    if "first_row (filter (\<lambda>u. user_id u = au_id actor) us) = Some u"
      and "is_active_admin u \<longrightarrow> 1 < length (filter is_active_admin us)" for u
    unfolding deactivate_def
    by (rule from_to_read [OF reads_now user_contract_refl], rule from_to_last,
        rule from_to_update [OF user_contract_refl], rule user_contract_edit)
      (use that looked_up_unique [OF us that(1)] in \<open>auto simp: deactivate_row_step\<close>)
  show "from_to us (user_contract sv us) (deleteAccountWithAdminMutationLock sv actor password)"
    unfolding deleteAccountWithAdminMutationLock_def
    by (rule from_to_read [OF reads_requireUser user_contract_refl],
        rule from_to_read [OF reads_throw_if user_contract_refl],
        rule from_to_read [OF reads_guard_admin user_contract_refl])
      (auto simp: would_remove_admin_def intro: deact)
qed

lemma row_step_update:
  assumes "uu_email input = None \<or> uu_email input = Some (user_email u) \<or> \<not> isConfiguredRootAdmin sv u"
  shows "row_step sv u (update_fields input now u)"
  using assms by (auto simp: row_step_def update_fields_def)

lemma update_removes_admin:
  "is_active_admin u \<Longrightarrow> \<not> is_active_admin (update_fields input now u) \<Longrightarrow>
     would_remove_admin (uu_role input) (uu_isActive input)"
  by (cases "uu_role input"; cases "uu_isActive input"; cases "the (uu_role input)")
    (auto simp: is_active_admin_def update_fields_def would_remove_admin_def)

lemma contract_updateUser: "from_to us (user_contract sv us) (updateUser sv i input actor)"
  unfolding updateUser_def
proof (rule from_to_withLock [OF contract_if_checked user_contract_refl])
  assume us: "users_check us"
  let ?input = "input\<lparr>uu_username := map_option js_trim (uu_username input),
                   uu_email := map_option js_trim (uu_email input)\<rparr>"
  have upd: "from_to us (user_contract sv us) (repo_update i ?input)"
    if u: "first_row (filter (\<lambda>u. user_id u = i) us) = Some u"
      and adm: "is_active_admin u \<longrightarrow> would_remove_admin (uu_role input) (uu_isActive input)
                 \<longrightarrow> 1 < length (filter is_active_admin us)"
      and root: "\<not> (map_option js_trim (uu_email input) \<noteq> None
         \<and> map_option js_trim (uu_email input) \<noteq> Some (user_email u) \<and> isConfiguredRootAdmin sv u)" for u
    unfolding repo_update_def
  proof (rule contract_write)
    fix now v assume v: "v \<in> set us" "user_id v = i"
    then have [simp]: "v = u" by (rule looked_up_unique [OF us u])
    show "row_step sv v (update_fields ?input now v)"
      by (rule row_step_update) (use root in auto)
    show "1 < length (filter is_active_admin us)"
      if "is_active_admin v" "\<not> is_active_admin (update_fields ?input now v)"
      using update_removes_admin [OF that] that(1) adm by simp
  qed
  show "from_to us (user_contract sv us) (updateUserWithAdminMutationLock sv i input actor)"
    unfolding updateUserWithAdminMutationLock_def Let_def assertRootAdminEmailUnchanged_def
    by (rule from_to_read [OF reads_requireUser user_contract_refl],
        rule from_to_read [OF reads_throw_if user_contract_refl],
        rule from_to_read [OF reads_throw_if user_contract_refl],
        rule from_to_read [OF reads_guard_admin user_contract_refl],
        rule from_to_read [OF reads_throw_if user_contract_refl],
        rule from_to_read [OF reads_refuse_taken [OF reads_finds(2)] user_contract_refl],
        rule from_to_read [OF reads_refuse_taken [OF reads_finds(3)] user_contract_refl],
        rule contract_then_serialize, rule upd)
qed

section \<open>Sequences of requests\<close>

datatype user_request =
    ListUsers
  | CreateUser create_admin_user_input
  | UpdateUser string update_admin_user_input authenticated_user
  | ResetPassword string string "authenticated_user option"
  | UpdateProfile authenticated_user update_profile_input
  | ChangePassword authenticated_user string string
  | DeleteAccount authenticated_user string

definition ignore_result :: "(world, 'a) io \<Rightarrow> (world, unit) io" where
  "ignore_result m = io_catch (io_bind m (\<lambda>_. io_return ())) (\<lambda>_. io_return ())"

fun handle_user_request :: "server \<Rightarrow> user_request \<Rightarrow> (world, unit) io" where
  "handle_user_request sv ListUsers = ignore_result (listUsers sv)"
| "handle_user_request sv (CreateUser input) = ignore_result (createUser sv input)"
| "handle_user_request sv (UpdateUser i input actor) = ignore_result (updateUser sv i input actor)"
| "handle_user_request sv (ResetPassword i password actor) = ignore_result (resetPassword sv i password actor)"
| "handle_user_request sv (UpdateProfile actor input) = ignore_result (updateProfile sv actor input)"
| "handle_user_request sv (ChangePassword actor old new) = ignore_result (changePassword sv actor old new)"
| "handle_user_request sv (DeleteAccount actor password) = ignore_result (deleteAccount sv actor password)"

lemma from_to_ignore: "from_to us Q m \<Longrightarrow> from_to us Q (ignore_result m)"
  by (rule from_toI, drule from_toD, assumption)
    (auto simp: ignore_result_def io_catch_run io_bind_run case_prod_beta split: sum.splits)

lemma contract_request: "from_to us (user_contract sv us) (handle_user_request sv req)"
  by (cases req) (simp_all add: from_to_ignore contract_listUsers contract_createUser contract_updateUser
      contract_resetPassword contract_updateProfile contract_changePassword contract_deleteAccount)

definition serve_users :: "server \<Rightarrow> user_request list \<Rightarrow> (world, unit) io" where
  "serve_users sv reqs = io_for reqs (handle_user_request sv)"

lemma contract_serve: "from_to us (user_contract sv us) (serve_users sv reqs)"
  unfolding serve_users_def
proof (induction reqs arbitrary: us)
  case Nil
  then show ?case by (simp only: io_for.simps from_to_return user_contract_refl)
next
  case (Cons req reqs)
  have "from_to us' (user_contract sv us) (io_for reqs (handle_user_request sv))"
    if "user_contract sv us us'" for us'
    by (rule from_to_mono [OF Cons.IH]) (rule user_contract_trans [OF that])
  then show ?case
    by (auto intro: from_to_final [OF contract_request])
qed

section \<open>What an update answers\<close>

text \<open>
  The specification of \<open>updateUser\<close> as a function of the users table: the first guard that
  refuses decides the answer, and an accepted update changes the one row.
\<close>

definition trimmed_input :: "update_admin_user_input \<Rightarrow> update_admin_user_input" where
  "trimmed_input input = input\<lparr>uu_username := map_option js_trim (uu_username input),
     uu_email := map_option js_trim (uu_email input)\<rparr>"

definition taken_by :: "(user_row \<Rightarrow> string) \<Rightarrow> string option \<Rightarrow> user_row \<Rightarrow> user_row list \<Rightarrow> bool" where
  "taken_by f nextValue user us \<longleftrightarrow> (case nextValue of None \<Rightarrow> False
     | Some v \<Rightarrow> v \<noteq> [] \<and> v \<noteq> f user \<and> (\<exists>u\<in>set us. f u = v))"

definition update_user_spec :: "server \<Rightarrow> js_error \<Rightarrow> user_row list \<Rightarrow> string \<Rightarrow> update_admin_user_input
    \<Rightarrow> authenticated_user \<Rightarrow> int \<Rightarrow> js_error + user_row" where
  "update_user_spec sv dup us i input actor now =
     (let upd = trimmed_input input in
      case first_row (filter (\<lambda>u. user_id u = i) us) of
        None \<Rightarrow> Inl (Http 404 ''User not found'')
      | Some user \<Rightarrow>
          if i = au_id actor \<and> uu_role input = Some USER
            then Inl (Http 403 ''You cannot demote your own admin account'')
          else if i = au_id actor \<and> uu_isActive input = Some False
            then Inl (Http 403 ''You cannot deactivate your own admin account'')
          else if is_active_admin user \<and> would_remove_admin (uu_role input) (uu_isActive input)
                  \<and> length (filter is_active_admin us) \<le> 1
            then Inl (Http 403 ''At least one active admin is required'')
          else if isConfiguredRootAdmin sv user \<and> uu_email upd \<noteq> None \<and> uu_email upd \<noteq> Some (user_email user)
            then Inl (Http 403 ''Configured root admin email is managed by deployment configuration'')
          else if taken_by user_email (uu_email upd) user us
            then Inl (Http 400 ''Email is already in use'')
          else if taken_by user_username (uu_username upd) user us
            then Inl (Http 400 ''Username is already in use'')
          else if \<not> users_check (edited i (update_fields upd now) us) then Inl dup
          else Inr (update_fields upd now user))"

lemma refuse_taken_calm:
  assumes "\<And>v. lookup v w = (Inr (first_row (filter (\<lambda>u. f u = v) (users w))), w)"
  shows "refuse_taken nxt (f user) lookup msg w =
    (if taken_by f nxt user (users w) then (Inl (Http 400 msg), w) else (Inr (), w))"
  using first_row_None [of "\<lambda>u. f u = v" "users w" for v]
  by (auto simp: refuse_taken_def taken_by_def io_bind_run throw_if_run assms first_row_None split: option.splits)

lemma requireUser_calm: "faults w = [] \<Longrightarrow> requireUser i w =
    (case first_row (filter (\<lambda>u. user_id u = i) (users w)) of
       None \<Rightarrow> (Inl (Http 404 ''User not found''), w) | Some u \<Rightarrow> (Inr u, w))"
  by (simp add: requireUser_def io_bind_run finds_calm split: option.splits)

lemma assertAdminWillRemain_calm: "faults w = [] \<Longrightarrow> assertAdminWillRemain u role act w =
    (if is_active_admin u \<and> would_remove_admin role act \<and> length (filter is_active_admin (users w)) \<le> 1
     then (Inl (Http 403 ''At least one active admin is required''), w) else (Inr (), w))"
  by (simp add: assertAdminWillRemain_def io_bind_run finds_calm throw_if_run)

lemma not_admin_is_user: "r \<noteq> None \<and> r \<noteq> Some ADMIN \<longleftrightarrow> r = Some USER"
  by (cases r; cases "the r") auto

lemma repo_update_calm:
  assumes "faults w = []" "js_now w = (Inr now, w1)" "users w1 = users w" "faults w1 = []" "dup_error w1 = dup_error w"
  shows "repo_update i input w = (if users_check (edited i (update_fields input now) (users w))
     then (Inr (map_option (update_fields input now) (first_row (filter (\<lambda>u. user_id u = i) (users w)))),
           w1\<lparr>users := edited i (update_fields input now) (users w)\<rparr>)
     else (Inl (dup_error w), w1))"
  using assms by (simp add: repo_update_def io_bind_Inr updateRaw_calm)

lemma accepted_update_calm:
  assumes "faults w = []" "js_now w = (Inr now, w1)" "users w1 = users w" "faults w1 = []" "dup_error w1 = dup_error w"
    and "first_row (filter (\<lambda>u. user_id u = i) (users w)) = Some user"
  shows "io_bind (repo_update i upd) (serializeUser sv) w =
    (if users_check (edited i (update_fields upd now) (users w))
     then (Inr (serialize_row sv (update_fields upd now user)), w1\<lparr>users := edited i (update_fields upd now) (users w)\<rparr>)
     else (Inl (dup_error w), w1))"
  using assms(6) by (simp add: io_bind_run repo_update_calm [OF assms(1-5)] serializeUser_def)

text \<open>Code and specification go through the same guards.\<close>

lemma updateUser_guards:
  assumes f: "faults w = []" and Some: "first_row (filter (\<lambda>u. user_id u = i) (users w)) = Some user"
  shows "\<exists>g1 g2 g3 g4 g5 g6 e1 e2 e3 e4 e5 e6.
      updateUserWithAdminMutationLock sv i input actor w =
        (if g1 then (Inl e1, w) else if g2 then (Inl e2, w) else if g3 then (Inl e3, w) else if g4 then (Inl e4, w)
         else if g5 then (Inl e5, w) else if g6 then (Inl e6, w) else io_bind (repo_update i (trimmed_input input)) (serializeUser sv) w)
      \<and> update_user_spec sv (dup_error w) (users w) i input actor now =
        (if g1 then Inl e1 else if g2 then Inl e2 else if g3 then Inl e3 else if g4 then Inl e4
         else if g5 then Inl e5 else if g6 then Inl e6
         else if \<not> users_check (edited i (update_fields (trimmed_input input) now) (users w)) then Inl (dup_error w)
         else Inr (update_fields (trimmed_input input) now user))"
proof -
  let ?us = "users w" and ?upd = "trimmed_input input"
  have trim: "map_option js_trim (uu_email input) = uu_email ?upd" "map_option js_trim (uu_username input) = uu_username ?upd"
    "input\<lparr>uu_username := uu_username ?upd, uu_email := uu_email ?upd\<rparr> = ?upd"
    by (simp_all add: trimmed_input_def)
  have found: "requireUser i w = (Inr user, w)" using Some by (simp add: requireUser_calm [OF f])
  note guards = io_bind_throw_if
    io_bind_guard [where w = w and m = "assertAdminWillRemain user role act" for role act, OF assertAdminWillRemain_calm [OF f]]
    io_bind_guard [where w = w and m = "refuse_taken nxt (user_email user) findByEmail msg" for nxt msg,
      OF refuse_taken_calm [where f = user_email and lookup = findByEmail, OF finds_calm(2) [OF f]]]
    io_bind_guard [where w = w and m = "refuse_taken nxt (user_username user) findByUsername msg" for nxt msg,
      OF refuse_taken_calm [where f = user_username and lookup = findByUsername, OF finds_calm(3) [OF f]]]
  note run = updateUserWithAdminMutationLock_def [of sv i input actor, unfolded Let_def assertRootAdminEmailUnchanged_def trim]
    io_bind_Inr [where w = w and m = "requireUser i", OF found] guards not_admin_is_user
  have root: "isConfiguredRootAdmin sv user \<and> uu_email ?upd \<noteq> None \<and> uu_email ?upd \<noteq> Some (user_email user)
    \<longleftrightarrow> uu_email ?upd \<noteq> None \<and> uu_email ?upd \<noteq> Some (user_email user) \<and> isConfiguredRootAdmin sv user" by blast
  show ?thesis
    unfolding run update_user_spec_def Let_def Some option.case root by (intro exI conjI) (rule refl)+
qed

lemma updateUser_body:
  assumes f: "faults w = []"
    and js: "js_now w = (Inr now, w1)" "users w1 = users w" "faults w1 = []" "dup_error w1 = dup_error w"
      "admin_locks w1 = admin_locks w"
  shows "\<exists>w'. updateUserWithAdminMutationLock sv i input actor w =
      (case update_user_spec sv (dup_error w) (users w) i input actor now of
         Inl e \<Rightarrow> Inl e | Inr u \<Rightarrow> Inr (serialize_row sv u), w')
    \<and> users w' = (case update_user_spec sv (dup_error w) (users w) i input actor now of
         Inl e \<Rightarrow> users w | Inr u \<Rightarrow> edited i (update_fields (trimmed_input input) now) (users w))
    \<and> admin_locks w' = admin_locks w \<and> faults w' = []"
proof (cases "first_row (filter (\<lambda>u. user_id u = i) (users w))")
  case None
  then show ?thesis
    using f by (simp add: updateUserWithAdminMutationLock_def update_user_spec_def Let_def io_bind_run requireUser_calm)
next
  case (Some user)
  show ?thesis
    using updateUser_guards [OF f Some, of sv input actor now, unfolded accepted_update_calm [OF f js(1-4) Some, of "trimmed_input input" sv]] f js
    by (elim exE conjE) (simp split: if_split)
qed

text \<open>C5. In a world where nothing fails and the lock is free, \<open>updateUser\<close> answers exactly as
  the specification says: the first guard that refuses decides the error and nothing changes,
  an accepted update changes the one row; either way the lock is free again afterwards.\<close>

theorem updateUser_refines_spec:
  assumes "faults w = []" "admin_locks w = []"
  shows "\<exists>now w'. clock w \<le> now \<and> admin_locks w' = [] \<and>
     (case update_user_spec sv (dup_error w) (users w) i input actor now of
        Inl e \<Rightarrow> updateUser sv i input actor w = (Inl e, w') \<and> users w' = users w
      | Inr u \<Rightarrow> updateUser sv i input actor w = (Inr (serialize_row sv u), w')
          \<and> users w' = edited i (update_fields (trimmed_input input) now) (users w))"
proof -
  obtain t w0 where acq: "js_now w = (Inr t, w0)" "faults w0 = []" "users w0 = users w"
    and try_w: "tryAcquire w = (Inr (Acquired t), w0\<lparr>admin_locks := [\<lparr>lock_id = ADMIN_MUTATION_LOCK_ID, lock_lockedAt = t\<rparr>]\<rparr>)"
    by (rule tryAcquire_free [OF assms])
  let ?w1 = "w0\<lparr>admin_locks := [\<lparr>lock_id = ADMIN_MUTATION_LOCK_ID, lock_lockedAt = t\<rparr>]\<rparr>"
  obtain c w2 where js: "js_now ?w1 = (Inr c, w2)" "clock ?w1 \<le> c" "users w2 = users ?w1" "admin_locks w2 = admin_locks ?w1"
    "faults w2 = faults ?w1" "dup_error w2 = dup_error ?w1"
    by (rule js_nowE)
  have keep: "dup_error w0 = dup_error w" "clock w \<le> clock w0"
    using acq(1) js_now_keeps(10) [of w] js_now_mono [of w] by simp_all
  have f1: "faults ?w1 = []" using acq by simp
  let ?spec = "update_user_spec sv (dup_error w) (users w) i input actor c"
  have w1: "users ?w1 = users w" "dup_error ?w1 = dup_error w" and w2: "faults w2 = []"
    using acq keep js(5) by simp_all
  obtain w' where body: "updateUserWithAdminMutationLock sv i input actor ?w1 =
        (case ?spec of Inl e \<Rightarrow> Inl e | Inr u \<Rightarrow> Inr (serialize_row sv u), w')"
      "users w' = (case ?spec of Inl e \<Rightarrow> users w
         | Inr u \<Rightarrow> edited i (update_fields (trimmed_input input) c) (users w))"
      "admin_locks w' = admin_locks ?w1" "faults w' = []"
    using updateUser_body [OF f1 js(1,3) w2 js(6,4), of sv i input actor] unfolding w1 by blast
  have "updateUser sv i input actor w =
      (case ?spec of Inl e \<Rightarrow> Inl e | Inr u \<Rightarrow> Inr (serialize_row sv u), w'\<lparr>admin_locks := []\<rparr>)"
    unfolding updateUser_def
    by (rule withLock_free [where cb = "updateUserWithAdminMutationLock sv i input actor",
          OF assms try_w body(1,4,3)])
  moreover have "clock w \<le> c" using keep(2) js(2) by simp
  ultimately show ?thesis
    using body(2) by (intro exI [of _ c] exI [of _ "w'\<lparr>admin_locks := []\<rparr>"]) (auto split: sum.splits)
qed

definition demo_update :: update_admin_user_input where
  "demo_update = \<lparr>uu_username = None, uu_email = None, uu_firstName = None, uu_lastName = None,
     uu_role = Some ADMIN, uu_isActive = None\<rparr>"

definition demo_actor :: authenticated_user where
  "demo_actor = \<lparr>au_uid = ''id-root'', au_id = ''id-root'', au_username = ''root'', au_email = ''Root@q.io'',
     au_firstName = None, au_lastName = None, au_isActive = True, au_isEmailVerified = True,
     au_role = ADMIN, au_authType = ''jwt''\<rparr>"

theorem updateUser_refines_spec_witness:
  "\<exists>now w'. clock demo_world \<le> now \<and> admin_locks w' = [] \<and>
     (case update_user_spec demo_server (dup_error demo_world) (users demo_world) ''id-ann'' demo_update demo_actor now of
        Inl e \<Rightarrow> updateUser demo_server ''id-ann'' demo_update demo_actor demo_world = (Inl e, w') \<and> users w' = users demo_world
      | Inr u \<Rightarrow> updateUser demo_server ''id-ann'' demo_update demo_actor demo_world = (Inr (serialize_row demo_server u), w')
          \<and> users w' = edited ''id-ann'' (update_fields (trimmed_input demo_update) now) (users demo_world))"
  by (rule updateUser_refines_spec [OF demo_world_facts(3,4)])

section \<open>What the contract gives\<close>

text \<open>C1. No sequence of user-management requests, whatever each of them answers and whichever
  of their database calls fail, leaves the installation without an active administrator.\<close>

theorem active_admin_always_remains:
  assumes "users_check (users w)" "has_admin (users w)"
  shows "has_admin (users (snd (serve_users sv reqs w)))"
  using from_toD [OF contract_serve refl] assms unfolding user_contract_def by blast

theorem active_admin_always_remains_witness:
  "has_admin (users (snd (serve_users demo_server
     [DeleteAccount demo_actor ''secret'', ListUsers] demo_world)))"
  by (rule active_admin_always_remains)
    (use demo_world_facts in \<open>simp_all add: has_admin_def\<close>)

text \<open>C4. Across any sequence of user-management requests every user stays in the table under
  its id, its session version never falls, a changed password hash always comes with a
  higher session version (so tokens issued before it are refused), and the e-mail and the
  password of the configured root administrator stay as they are; ids, usernames and e-mails
  stay unique.\<close>

theorem user_rows_move_forward:
  assumes "users_check (users w)" "u \<in> set (users w)"
  shows "users_check (users (snd (serve_users sv reqs w)))
    \<and> (\<exists>u'\<in>set (users (snd (serve_users sv reqs w))). row_step sv u u')"
  using from_toD [OF contract_serve refl] assms unfolding user_contract_def by blast

theorem user_rows_move_forward_witness:
  "\<exists>u'\<in>set (users (snd (serve_users demo_server [ListUsers] demo_world))).
     row_step demo_server (demo_user ''root'' ''Root@q.io'' ADMIN) u'"
  using user_rows_move_forward [of demo_world "demo_user ''root'' ''Root@q.io'' ADMIN" demo_server "[ListUsers]"]
    demo_world_facts(1) by (simp add: demo_world_def)

end
