(* ===== verification/Auth.thy ===== *)
theory Auth
  imports UserService
begin

text \<open>
  api/src/auth: the token service (auth.service.ts), the mapping of rows to request users
  (auth-user.mapper.ts, request-auth.ts) and the two guards that only know session tokens
  (jwt-auth.guard.ts, admin-jwt.guard.ts). A guard returns the user it attaches to the
  request. @nestjs/jwt and bcrypt are fields of \<open>server\<close>.
\<close>

section \<open>Mapping\<close>

record auth_user =
  xu_id :: string
  xu_username :: string
  xu_email :: string
  xu_firstName :: "string option"
  xu_lastName :: "string option"
  xu_isActive :: bool
  xu_isEmailVerified :: bool
  xu_role :: user_role
  xu_isConfiguredRootAdmin :: bool

definition toAuthUser :: "server \<Rightarrow> user_row \<Rightarrow> auth_user" where
  "toAuthUser sv u = \<lparr>xu_id = user_id u, xu_username = user_username u, xu_email = user_email u,
     xu_firstName = user_firstName u, xu_lastName = user_lastName u, xu_isActive = user_isActive u,
     xu_isEmailVerified = user_isEmailVerified u, xu_role = role_of u,
     xu_isConfiguredRootAdmin = isConfiguredRootAdminEmail sv (user_email u)\<rparr>"

text \<open>\<open>x || null\<close> on an optional string.\<close>

definition or_null :: "string option \<Rightarrow> string option" where
  "or_null x = (if truthy_opt x then x else None)"

definition toAuthenticatedJwtUser :: "auth_user \<Rightarrow> authenticated_user" where
  "toAuthenticatedJwtUser user = \<lparr>au_uid = xu_id user, au_id = xu_id user, au_username = xu_username user,
     au_email = xu_email user, au_firstName = or_null (xu_firstName user),
     au_lastName = or_null (xu_lastName user), au_isActive = xu_isActive user,
     au_isEmailVerified = xu_isEmailVerified user, au_role = xu_role user, au_authType = ''jwt''\<rparr>"

definition extractAuthHeaderToken :: "string option \<Rightarrow> string \<Rightarrow> string option" where
  "extractAuthHeaderToken authorization scheme = (case authorization of
      None \<Rightarrow> None
    | Some authHeader \<Rightarrow>
        if authHeader = [] then None
        else let parts = split_at (CHR '' '') authHeader; token = nth_opt parts 1 in
          if nth_opt parts 0 = Some scheme \<and> truthy_opt token then token else None)"

section \<open>The token service\<close>

definition db_unavailable :: js_error where
  "db_unavailable = Http 503 ''Database temporarily unavailable''"

text \<open>The \<open>catch\<close> clause both methods end with.\<close>

definition auth_catch :: "string \<Rightarrow> js_error \<Rightarrow> (world, ('a, string) result) io" where
  "auth_catch msg e = (if isConnectionError e then io_throw db_unavailable else io_return (Failure msg))"

definition validateToken :: "server \<Rightarrow> string \<Rightarrow> (world, (auth_user, string) result) io" where
  "validateToken sv token = io_catch
     (io_bind js_now (\<lambda>now. case jwt_verify sv token now of
        Inl e \<Rightarrow> io_throw e
      | Inr payload \<Rightarrow> io_bind (findById (jp_sub payload)) (\<lambda>user. case user of
            None \<Rightarrow> io_return (Failure ''User not found'')
          | Some u \<Rightarrow>
              if \<not> user_isActive u then io_return (Failure ''User account is inactive'')
              else if given (jp_sessionVersion payload) 0 \<noteq> user_sessionVersion u
                then io_return (Failure ''Invalid token'')
              else io_return (Ok (toAuthUser sv u)))))
     (auth_catch ''Invalid token'')"

definition token_payload :: "server \<Rightarrow> user_row \<Rightarrow> jwt_payload" where
  "token_payload sv u = \<lparr>jp_sub = user_id u, jp_username = user_username u, jp_email = user_email u,
     jp_role = role_value (role_of u), jp_sessionVersion = Some (user_sessionVersion u)\<rparr>"

definition signUser :: "server \<Rightarrow> user_row \<Rightarrow> (world, string \<times> auth_user) io" where
  "signUser sv u = io_bind js_now (\<lambda>now.
     io_return (jwt_sign sv (token_payload sv u) now, toAuthUser sv u))"

definition login :: "server \<Rightarrow> string \<Rightarrow> string \<Rightarrow> (world, (string \<times> auth_user, string) result) io" where
  "login sv email password = io_catch
     (io_bind (findByEmail email) (\<lambda>user. case user of
         None \<Rightarrow> io_return (Failure ''Invalid credentials'')
       | Some u \<Rightarrow>
           if \<not> user_isActive u then io_return (Failure ''User account is inactive'')
           else if \<not> bcrypt_compare sv password (user_passwordHash u)
             then io_return (Failure ''Invalid credentials'')
           else io_bind (updateLastLogin (user_id u)) (\<lambda>_.
             io_bind (signUser sv u) (\<lambda>signed. io_return (Ok signed)))))
     (auth_catch ''Login failed'')"

section \<open>Guards\<close>

definition jwt_canActivate :: "server \<Rightarrow> string option \<Rightarrow> (world, authenticated_user) io" where
  "jwt_canActivate sv authorization = (case extractAuthHeaderToken authorization ''Bearer'' of
      None \<Rightarrow> io_throw (Http 401 ''Bearer token is required'')
    | Some token \<Rightarrow> io_bind (validateToken sv token) (\<lambda>r. case r of
         Failure msg \<Rightarrow> io_throw (Http 401 msg)
       | Ok user \<Rightarrow> io_return (toAuthenticatedJwtUser user)))"

definition admin_canActivate :: "server \<Rightarrow> string option \<Rightarrow> (world, authenticated_user) io" where
  "admin_canActivate sv authorization = (case extractAuthHeaderToken authorization ''Bearer'' of
      None \<Rightarrow> io_throw (Http 401 ''Admin JWT authentication required'')
    | Some token \<Rightarrow> io_bind (validateToken sv token) (\<lambda>r. case r of
         Failure msg \<Rightarrow> io_throw (Http 401 msg)
       | Ok user \<Rightarrow>
           if xu_role user \<noteq> ADMIN then io_throw (Http 403 ''Admin role required'')
           else io_return (toAuthenticatedJwtUser user)))"

section \<open>Facts\<close>

lemma nth_opt_Some: "nth_opt xs i = Some x \<longleftrightarrow> i < length xs \<and> xs ! i = x"
  by (auto simp: nth_opt_def)

text \<open>The header format: scheme, one space, token.\<close>

lemma extract_token:
  assumes "CHR '' '' \<notin> set scheme" "CHR '' '' \<notin> set tok" "tok \<noteq> []"
  shows "extractAuthHeaderToken (Some (scheme @ CHR '' '' # tok)) scheme = Some tok"
  using assms split_at_append_sep [OF assms(1), of tok] split_at_no_sep [OF assms(2)]
  by (simp add: extractAuthHeaderToken_def nth_opt_def Let_def)

lemma extract_token_scheme:
  "extractAuthHeaderToken h s = Some tok \<Longrightarrow> extractAuthHeaderToken h s' = Some tok' \<Longrightarrow> s = s' \<and> tok = tok'"
  by (auto simp: extractAuthHeaderToken_def Let_def split: option.splits if_splits)

text \<open>Soundness of a validation, whatever fails underneath.\<close>

definition token_good :: "jwt_payload \<Rightarrow> user_row \<Rightarrow> bool" where
  "token_good payload u \<longleftrightarrow> user_id u = jp_sub payload \<and> user_isActive u
     \<and> given (jp_sessionVersion payload) 0 = user_sessionVersion u"

lemma auth_catch_not_Ok [simp]: "auth_catch msg e w \<noteq> (Inr (Ok x), w')"
  by (simp add: auth_catch_def)

lemma findById_Inr:
  assumes "findById i w = (Inr x, w1)"
  shows "x = first_row (filter (\<lambda>u. user_id u = i) (users w)) \<and> users w1 = users w"
  using triple_Inr [OF reads_finds(1) [unfolded reads_def, rule_format] refl assms] by auto

lemma validateToken_Ok:
  assumes "validateToken sv token w = (Inr (Ok a), w')"
  obtains payload now u where "jwt_verify sv token now = Inr payload" "clock w \<le> now"
    "u \<in> set (users w)" "token_good payload u" "a = toAuthUser sv u" "users w' = users w"
proof -
  obtain now w1 where js: "js_now w = (Inr now, w1)" "clock w \<le> now" "users w1 = users w"
    by (rule js_nowE)
  obtain payload where v: "jwt_verify sv token now = Inr payload"
    using assms js
    by (cases "jwt_verify sv token now") (auto simp: validateToken_def io_catch_run io_bind_run)
  obtain x w2 where fd: "findById (jp_sub payload) w1 = (Inr x, w2)"
    using assms js v
    by (cases "findById (jp_sub payload) w1"; cases "fst (findById (jp_sub payload) w1)")
      (auto simp: validateToken_def io_catch_run io_bind_run)
  then obtain u where u: "x = Some u" "token_good payload u" "a = toAuthUser sv u" "w' = w2"
    using assms js v findById_Inr [OF fd]
    by (auto simp: validateToken_def io_catch_run io_bind_run token_good_def
        dest: first_row_filter split: option.splits if_splits)
  moreover have "u \<in> set (users w)" "users w2 = users w"
    using findById_Inr [OF fd] u(1) js(3) by (auto dest: first_row_filter [OF sym])
  ultimately show thesis
    using that js v by blast
qed

text \<open>C7. A request that passes the administrator guard carries a token that verifies now, for
  a user of the table who is active, is an administrator, and has the session version the
  token was issued with; the request user is that row's. No failure underneath lets another
  request through.\<close>

theorem admin_guard_sound:
  assumes "admin_canActivate sv authorization w = (Inr who, w')"
  shows "\<exists>token payload now u. extractAuthHeaderToken authorization ''Bearer'' = Some token
    \<and> clock w \<le> now \<and> jwt_verify sv token now = Inr payload
    \<and> u \<in> set (users w) \<and> token_good payload u \<and> user_role u = role_value ADMIN
    \<and> who = toAuthenticatedJwtUser (toAuthUser sv u)"
proof -
  obtain token a where t: "extractAuthHeaderToken authorization ''Bearer'' = Some token"
    and v: "validateToken sv token w = (Inr (Ok a), w')" and r: "xu_role a = ADMIN"
    and who: "who = toAuthenticatedJwtUser a"
    using assms by (auto simp: admin_canActivate_def io_bind_run split: option.splits prod.splits
        sum.splits result.splits if_splits)
  obtain payload now u where u: "jwt_verify sv token now = Inr payload" "clock w \<le> now"
    "u \<in> set (users w)" "token_good payload u" "a = toAuthUser sv u"
    using v by (rule validateToken_Ok)
  then have "user_role u = role_value ADMIN"
    using r by (simp add: toAuthUser_def role_of_def split: if_splits)
  then show ?thesis using t u who by blast
qed

text \<open>C3. Once a user's session version is above the one a token was issued with, as after a
  password change or a deactivation, no request with that token is accepted, after any
  further sequence of user-management requests.\<close>

theorem revoked_token_stays_revoked:
  assumes "users_check (users w)" "u \<in> set (users w)" "v < user_sessionVersion u"
    and tok: "\<And>t q. jwt_verify sv token t = Inr q \<Longrightarrow> jp_sub q = user_id u \<and> jp_sessionVersion q = Some v"
  shows "fst (validateToken sv token (snd (serve_users sv reqs w))) \<noteq> Inr (Ok a)"
proof
  let ?w = "snd (serve_users sv reqs w)"
  assume "fst (validateToken sv token ?w) = Inr (Ok a)"
  then obtain w' where "validateToken sv token ?w = (Inr (Ok a), w')"
    by (cases "validateToken sv token ?w") auto
  then obtain payload t x where x: "jwt_verify sv token t = Inr payload" "x \<in> set (users ?w)" "token_good payload x"
    by (rule validateToken_Ok)
  obtain u' where u': "users_check (users ?w)" "u' \<in> set (users ?w)" "row_step sv u u'"
    using from_toD [where w = w, OF contract_serve [of _ sv reqs] refl] assms(1,2) unfolding user_contract_def by blast
  have "user_id x = user_id u'"
    using x tok [OF x(1)] u'(3) by (simp add: token_good_def row_step_def)
  then have "x = u'"
    using u'(1,2) x(2) by (auto simp: users_check_def distinct_map dest: inj_onD)
  then show False
    using x(3) tok [OF x(1)] u'(3) assms(3) by (simp add: token_good_def row_step_def)
qed

text \<open>A token is signed with the row the password matched; the signature is checked by the
  library, whose documented behaviour is the hypothesis of the round trip below.\<close>

lemma updateLastLogin_calm:
  assumes "faults w = []" "users_check (users w)"
  obtains now w1 where "js_now w = (Inr now, w1)" "clock w1 = now" "clock w \<le> now" "faults w1 = []"
    "users w1 = users w"
    "updateLastLogin i w = (Inr (), w1\<lparr>users := edited i (\<lambda>u. u\<lparr>user_lastLoginAt := Some now\<rparr>) (users w)\<rparr>)"
proof -
  obtain now w1 where js: "js_now w = (Inr now, w1)" "clock w1 = now" "clock w \<le> now" "faults w1 = faults w"
    "users w1 = users w"
    by (rule js_nowE)
  have "map f (edited i (\<lambda>u. u\<lparr>user_lastLoginAt := Some now\<rparr>) us) = map f us"
    if "\<And>u. f (u\<lparr>user_lastLoginAt := Some now\<rparr>) = f u" for f :: "user_row \<Rightarrow> string" and us
    using that by (induction us) (auto simp: edited_def)
  then have "users_check (edited i (\<lambda>u. u\<lparr>user_lastLoginAt := Some now\<rparr>) (users w))"
    using assms(2) by (simp add: users_check_def)
  then have "updateLastLogin i w = (Inr (), w1\<lparr>users := edited i (\<lambda>u. u\<lparr>user_lastLoginAt := Some now\<rparr>) (users w)\<rparr>)"
    using js assms(1)
    by (simp add: updateLastLogin_def io_bind_run db_update_calm db_store_def usersTable_def users_check_def edited_def)
  then show thesis using that js assms(1) by simp
qed

lemma users_check_row:
  assumes "users_check us" "u \<in> set us"
  shows "first_row (filter (\<lambda>v. user_email v = user_email u) us) = Some u" "first_row (filter (\<lambda>v. user_id v = user_id u) us) = Some u"
proof -
  have uniq: "v = u" if "v \<in> set us" "user_email v = user_email u \<or> user_id v = user_id u" for v
    using that assms by (auto simp: users_check_def distinct_map dest: inj_onD)
  show "first_row (filter (\<lambda>v. user_email v = user_email u) us) = Some u"
    using uniq assms(2) by (cases "filter (\<lambda>v. user_email v = user_email u) us") (auto simp: filter_empty_conv filter_eq_Cons_iff)
  show "first_row (filter (\<lambda>v. user_id v = user_id u) us) = Some u"
    using uniq assms(2) by (cases "filter (\<lambda>v. user_id v = user_id u) us") (auto simp: filter_empty_conv filter_eq_Cons_iff)
qed

lemma row_after_login:
  assumes "users_check us" "u \<in> set us"
  shows "first_row (filter (\<lambda>v. user_id v = user_id u) (edited (user_id u) (\<lambda>u. u\<lparr>user_lastLoginAt := Some c\<rparr>) us)) = Some (u\<lparr>user_lastLoginAt := Some c\<rparr>)"
proof -
  have "filter (\<lambda>v. user_id v = user_id u) (edited (user_id u) (\<lambda>u. u\<lparr>user_lastLoginAt := Some c\<rparr>) us)
      = map (\<lambda>u. u\<lparr>user_lastLoginAt := Some c\<rparr>) (filter (\<lambda>v. user_id v = user_id u) us)"
    by (induction us) (auto simp: edited_def filter_map o_def map_idI intro!: filter_cong)
  then show ?thesis using users_check_row(2) [OF assms] by (simp add: first_row_map)
qed

text \<open>What the API answers to a token of u that verifies, from the accounts as they are now.\<close>

definition account_answer :: "server \<Rightarrow> user_row \<Rightarrow> user_row list \<Rightarrow> (auth_user, string) result" where
  "account_answer sv u us = (case first_row (filter (\<lambda>v. user_id v = user_id u) us) of
      None \<Rightarrow> Failure ''User not found''
    | Some v \<Rightarrow> if \<not> user_isActive v then Failure ''User account is inactive''
        else if user_sessionVersion v \<noteq> user_sessionVersion u then Failure ''Invalid token''
        else Ok (toAuthUser sv v))"

lemma validate_answers_account:
  assumes "faults x = []" "jwt_verify sv tok (clock (snd (js_now x))) = Inr (token_payload sv u)"
  shows "fst (validateToken sv tok x) = Inr (account_answer sv u (users x))"
proof -
  obtain c x1 where js: "js_now x = (Inr c, x1)" "clock x1 = c" "clock x \<le> c" "faults x1 = faults x" "users x1 = users x"
    by (rule js_nowE)
  then show ?thesis using assms
    by (simp add: validateToken_def io_catch_run io_bind_run finds_calm token_payload_def account_answer_def split: option.split)
qed

text \<open>C8. Logging in with the right password gives a token. As long as the token verifies and the calls of the database succeed, the API
  accepts it as the account that logged in, as that account now is, if the account still exists, is active and has the session version of the
  login; otherwise it is refused. Until an account changes, the answer is the very user who logged in.\<close>

theorem login_then_validate:
  assumes "faults w = []" "users_check (users w)" "u \<in> set (users w)" "user_isActive u"
    and "bcrypt_compare sv password (user_passwordHash u)"
    and lib: "\<And>t t'. t \<le> t' \<Longrightarrow> t' \<le> t + ttl \<Longrightarrow>
      jwt_verify sv (jwt_sign sv (token_payload sv u) t) t' = Inr (token_payload sv u)"
  shows "\<exists>token t w1. login sv (user_email u) password w = (Inr (Ok (token, toAuthUser sv u)), w1)
    \<and> clock w \<le> t \<and> (\<forall>w2. faults w2 = [] \<longrightarrow> t \<le> clock w2 \<longrightarrow> clock (snd (js_now w2)) \<le> t + ttl
        \<longrightarrow> fst (validateToken sv token w2) = Inr (account_answer sv u (users w2))
          \<and> (users w2 = users w1 \<longrightarrow> fst (validateToken sv token w2) = Inr (Ok (toAuthUser sv u))))"
proof -
  obtain c1 w1 where l: "js_now w = (Inr c1, w1)" "clock w1 = c1" "clock w \<le> c1" "faults w1 = []" "users w1 = users w"
    "updateLastLogin (user_id u) w = (Inr (), w1\<lparr>users := edited (user_id u) (\<lambda>u. u\<lparr>user_lastLoginAt := Some c1\<rparr>) (users w)\<rparr>)"
    using assms(1,2) by (rule updateLastLogin_calm)
  let ?us = "edited (user_id u) (\<lambda>u. u\<lparr>user_lastLoginAt := Some c1\<rparr>) (users w)"
  let ?w1 = "w1\<lparr>users := ?us\<rparr>"
  obtain t w2 where s: "js_now ?w1 = (Inr t, w2)" "clock ?w1 \<le> t" "users w2 = users ?w1"
    by (rule js_nowE)
  let ?tok = "jwt_sign sv (token_payload sv u) t"
  have 1: "login sv (user_email u) password w = (Inr (Ok (?tok, toAuthUser sv u)), w2)"
    using assms(1,4,5) users_check_row(1) [OF assms(2,3)] l(6) s
    by (simp add: login_def io_catch_run io_bind_run finds_calm signUser_def)
  have 2: "fst (validateToken sv ?tok x) = Inr (account_answer sv u (users x))"
    if x: "faults x = []" "t \<le> clock x" "clock (snd (js_now x)) \<le> t + ttl" for x
    by (rule validate_answers_account [OF x(1)], rule lib) (use x(2,3) js_now_mono [of x] in simp_all)
  have "account_answer sv u (users w2) = Ok (toAuthUser sv u)"
    using row_after_login [OF assms(2,3), of c1] assms(4) s(3) by (auto simp: account_answer_def toAuthUser_def role_of_def)
  moreover have "clock w \<le> t" using l(2,3) s(2) by simp
  ultimately show ?thesis
    using 1 2 by (intro exI [of _ ?tok] exI [of _ t] exI [of _ w2]) auto
qed

section \<open>Concrete runs\<close>

definition demo_root :: user_row where
  "demo_root = demo_user ''root'' ''Root@q.io'' ADMIN"

definition demo_auth :: server where
  "demo_auth = demo_server\<lparr>jwt_verify := \<lambda>tok t. Inr (token_payload demo_server demo_root)\<rparr>"

lemma demo_auth_sel:
  "jwt_verify demo_auth tok t = Inr (token_payload demo_auth demo_root)"
  "bcrypt_compare demo_auth p h = (h = ''$'' @ p)"
  by (simp_all add: demo_auth_def demo_server_def token_payload_def role_of_def)

lemma demo_root_facts:
  "demo_root \<in> set (users demo_world)" "user_isActive demo_root" "user_passwordHash demo_root = ''$secret''"
  "user_sessionVersion demo_root = 0" "role_of demo_root = ADMIN" "user_id demo_root = ''id-root''"
  "first_row (filter (\<lambda>u. user_id u = ''id-root'') (users demo_world)) = Some demo_root"
  by (simp_all add: demo_root_def demo_world_def demo_user_def role_of_def)

lemma demo_validate:
  "validateToken demo_auth tok demo_world = (Inr (Ok (toAuthUser demo_auth demo_root)), snd (js_now demo_world))"
proof -
  obtain c w1 where js: "js_now demo_world = (Inr c, w1)" "users w1 = users demo_world" "faults w1 = faults demo_world"
    by (rule js_nowE)
  then show ?thesis
    using demo_root_facts demo_world_facts(3)
    by (simp add: validateToken_def io_catch_run io_bind_run demo_auth_sel finds_calm token_payload_def)
qed

theorem admin_guard_sound_witness:
  "\<exists>token payload now u. extractAuthHeaderToken (Some ''Bearer t'') ''Bearer'' = Some token
    \<and> clock demo_world \<le> now \<and> jwt_verify demo_auth token now = Inr payload
    \<and> u \<in> set (users demo_world) \<and> token_good payload u \<and> user_role u = role_value ADMIN
    \<and> toAuthenticatedJwtUser (toAuthUser demo_auth demo_root) = toAuthenticatedJwtUser (toAuthUser demo_auth u)"
proof (rule admin_guard_sound)
  have "extractAuthHeaderToken (Some ''Bearer t'') ''Bearer'' = Some ''t''"
    by (simp add: extractAuthHeaderToken_def nth_opt_def)
  then show "admin_canActivate demo_auth (Some ''Bearer t'') demo_world =
      (Inr (toAuthenticatedJwtUser (toAuthUser demo_auth demo_root)), snd (js_now demo_world))"
    using demo_root_facts(5) by (simp add: admin_canActivate_def io_bind_run demo_validate toAuthUser_def)
qed

definition demo_world2 :: world where
  "demo_world2 = demo_world\<lparr>users := [demo_root\<lparr>user_sessionVersion := 1\<rparr>]\<rparr>"

theorem revoked_token_stays_revoked_witness:
  "fst (validateToken demo_auth ''t'' (snd (serve_users demo_auth [ListUsers] demo_world2)))
     \<noteq> Inr (Ok (toAuthUser demo_auth demo_root))"
proof (rule revoked_token_stays_revoked)
  show "users_check (users demo_world2)" "demo_root\<lparr>user_sessionVersion := 1\<rparr> \<in> set (users demo_world2)"
    by (simp_all add: demo_world2_def users_check_def)
  show "0 < user_sessionVersion (demo_root\<lparr>user_sessionVersion := 1\<rparr>)" by simp
  show "jp_sub q = user_id (demo_root\<lparr>user_sessionVersion := 1\<rparr>) \<and> jp_sessionVersion q = Some 0"
    if "jwt_verify demo_auth ''t'' t = Inr q" for t q
    using that demo_root_facts(4) by (auto simp: demo_auth_sel token_payload_def)
qed

theorem login_then_validate_witness:
  "\<exists>token t w1. login demo_auth (user_email demo_root) ''secret'' demo_world = (Inr (Ok (token, toAuthUser demo_auth demo_root)), w1)
    \<and> clock demo_world \<le> t \<and> (\<forall>w2. faults w2 = [] \<longrightarrow> t \<le> clock w2 \<longrightarrow> clock (snd (js_now w2)) \<le> t + 1000
        \<longrightarrow> fst (validateToken demo_auth token w2) = Inr (account_answer demo_auth demo_root (users w2))
          \<and> (users w2 = users w1 \<longrightarrow> fst (validateToken demo_auth token w2) = Inr (Ok (toAuthUser demo_auth demo_root))))"
  by (rule login_then_validate) (use demo_world_facts demo_root_facts in \<open>simp_all add: demo_auth_sel\<close>)

end
