(* ===== verification/AdminBootstrap.thy ===== *)
theory AdminBootstrap
  imports Auth
begin

text \<open>
  api/src/auth/admin-bootstrap.service.ts: at start-up, under the administrator lock, the
  configured root administrator is created or brought in line with the configuration.
\<close>

section \<open>User names\<close>

definition deriveUsername :: "string \<Rightarrow> string" where
  "deriveUsername email = or_else (map_option js_trim (nth_opt (split_at (CHR ''@'') email) 0)) email"

definition suffixed :: "string \<Rightarrow> nat \<Rightarrow> string" where
  "suffixed base k = base @ ''-admin-'' @ nat_to_string k"

lemma suffixed_inj: "suffixed base m = suffixed base n \<longleftrightarrow> m = n"
  by (simp add: suffixed_def)

definition taken_suffixes :: "string \<Rightarrow> string list \<Rightarrow> nat \<Rightarrow> nat set" where
  "taken_suffixes base names k = {n. k < n \<and> suffixed base n \<in> set names}"

lemma finite_taken: "finite (taken_suffixes base names k)"
proof -
  have "finite (suffixed base -` set names)"
    by (rule finite_vimageI) (auto simp: inj_on_def suffixed_inj)
  then show ?thesis
    by (rule rev_finite_subset) (auto simp: taken_suffixes_def)
qed

lemma taken_step:
  "taken_suffixes base names k =
     (if suffixed base (Suc k) \<in> set names then insert (Suc k) else id) (taken_suffixes base names (Suc k))"
  by (auto simp: taken_suffixes_def Suc_lessI less_Suc_eq_le Suc_le_eq intro: Suc_lessI)

text \<open>The \<open>while\<close> loop: it ends because only finitely many names are taken.\<close>

function username_loop :: "string \<Rightarrow> string list \<Rightarrow> nat \<Rightarrow> string \<Rightarrow> string" where
  "username_loop base names k candidate =
     (if candidate \<in> set names
      then username_loop base names (k + 1) (suffixed base (k + 1))
      else candidate)"
  by pat_completeness auto
termination
proof (relation "measure (\<lambda>(base, names, k, candidate).
    card (taken_suffixes base names k) + (if candidate \<in> set names then 1 else 0))")
  fix base names k and candidate :: string
  assume "candidate \<in> set names"
  then show "((base, names, k + 1, suffixed base (k + 1)), base, names, k, candidate)
      \<in> measure (\<lambda>(base, names, k, candidate).
          card (taken_suffixes base names k) + (if candidate \<in> set names then 1 else 0))"
    using finite_taken [of base names "Suc k"] taken_step [of base names k]
    by (auto simp: taken_suffixes_def)
qed simp

declare username_loop.simps [simp del]

definition uniqueUsername :: "string \<Rightarrow> user_row list \<Rightarrow> string" where
  "uniqueUsername email us = (let base = deriveUsername email; names = map user_username us in
     if base \<notin> set names then base else username_loop base names 1 (base @ ''-admin''))"

lemma username_loop_fresh: "username_loop base names k candidate \<notin> set names"
proof (induction base names k candidate rule: username_loop.induct)
  case (1 base names k candidate)
  then show ?case by (subst username_loop.simps) simp
qed

text \<open>The user name chosen for the root administrator is never one that is taken; the
  search for it ends for every table.\<close>

theorem uniqueUsername_fresh: "uniqueUsername email us \<notin> user_username ` set us"
  using username_loop_fresh [of "deriveUsername email" "map user_username us"]
  by (simp add: uniqueUsername_def Let_def)

section \<open>The service\<close>

definition metadataRole :: "json option \<Rightarrow> string option" where
  "metadataRole metadata = (case metadata of Some (JObj kvs) \<Rightarrow> str_field kvs ''role'' | _ \<Rightarrow> None)"

definition createConfiguredFirstAdmin :: "server \<Rightarrow> string \<Rightarrow> string \<Rightarrow> (world, unit) io" where
  "createConfiguredFirstAdmin sv email password = io_bind (hashPassword sv password) (\<lambda>passwordHash.
     io_bind (createFirstAdmin sv (deriveUsername email) email None None passwordHash) (\<lambda>_. io_return ()))"

definition createConfiguredRootAdmin :: "server \<Rightarrow> user_row list \<Rightarrow> string \<Rightarrow> string \<Rightarrow> (world, unit) io" where
  "createConfiguredRootAdmin sv us email password = io_bind (hashPassword sv password) (\<lambda>passwordHash.
     io_bind (repo_createUser sv
        \<lparr>cu_username = None, cu_email = email, cu_password = [], cu_firstName = None, cu_lastName = None,
         cu_role = Some ADMIN, cu_isActive = Some True\<rparr>
        (uniqueUsername email us) email passwordHash) (\<lambda>_. io_return ()))"

definition activate_admin :: update_admin_user_input where
  "activate_admin = \<lparr>uu_username = None, uu_email = None, uu_firstName = None, uu_lastName = None,
     uu_role = Some ADMIN, uu_isActive = Some True\<rparr>"

definition syncConfiguredRootAdmin :: "server \<Rightarrow> user_row \<Rightarrow> string \<Rightarrow> (world, unit) io" where
  "syncConfiguredRootAdmin sv user configuredPassword =
     (if \<not> (user_passwordHash user \<noteq> [] \<and> bcrypt_compare sv configuredPassword (user_passwordHash user))
      then io_bind (hashPassword sv configuredPassword) (\<lambda>passwordHash.
        io_bind (promoteToAdminAndSetPassword (user_id user) passwordHash) (\<lambda>_. io_return ()))
      else if \<not> user_isActive user \<or> user_role user \<noteq> role_value ADMIN
        then io_bind (repo_update (user_id user) activate_admin) (\<lambda>_. io_return ())
      else io_return ())"

definition promote_marked :: "user_row \<Rightarrow> (world, unit) io" where
  "promote_marked user =
     (if metadataRole (user_metadata user) = Some (role_value ADMIN) \<and> user_role user \<noteq> role_value ADMIN
      then promoteToAdmin (user_id user) else io_return ())"

definition syncConfiguredRootAdminWithLock :: "server \<Rightarrow> string \<times> string \<Rightarrow> (world, unit) io" where
  "syncConfiguredRootAdminWithLock sv configuredAdmin = (case configuredAdmin of (email, password) \<Rightarrow>
     io_bind count_users (\<lambda>userCount.
       if userCount = 0 then createConfiguredFirstAdmin sv email password
       else io_bind list_users (\<lambda>us.
         io_bind (io_for us promote_marked) (\<lambda>_.
         io_bind list_users (\<lambda>refreshedUsers.
           case find (\<lambda>u. normalizeEmailForComparison (user_email u) = email) refreshedUsers of
             None \<Rightarrow> createConfiguredRootAdmin sv refreshedUsers email password
           | Some configuredUser \<Rightarrow> syncConfiguredRootAdmin sv configuredUser password)))))"

definition bootstrapConfiguredRootAdmin :: "server \<Rightarrow> (world, unit) io" where
  "bootstrapConfiguredRootAdmin sv = (case getRequiredConfiguredRootAdmin sv of
      Inl e \<Rightarrow> io_throw e
    | Inr configuredAdmin \<Rightarrow> withLock (syncConfiguredRootAdminWithLock sv configuredAdmin))"

section \<open>A successful start leaves a working root administrator\<close>

definition root_ready :: "server \<Rightarrow> string \<Rightarrow> string \<Rightarrow> user_row list \<Rightarrow> bool" where
  "root_ready sv email password us \<longleftrightarrow> (\<exists>u\<in>set us. is_active_admin u
     \<and> normalizeEmailForComparison (user_email u) = email
     \<and> bcrypt_compare sv password (user_passwordHash u))"

text \<open>\<open>ends us Q m\<close>: if m succeeds from the users \<open>us\<close>, the users it leaves satisfy \<open>Q\<close>.\<close>

definition ends :: "user_row list \<Rightarrow> (user_row list \<Rightarrow> bool) \<Rightarrow> (world, 'a) io \<Rightarrow> bool" where
  "ends us Q m \<longleftrightarrow> triple (\<lambda>w. users w = us) m (\<lambda>_ w. Q (users w)) (\<lambda>_ _. True)"

lemma ends_read:
  assumes "reads m V" "\<And>x. V us x \<Longrightarrow> ends us Q (f x)"
  shows "ends us Q (io_bind m f)"
  unfolding ends_def
proof (rule triple_bind [where R = "\<lambda>x w. users w = us \<and> V us x"])
  show "triple (\<lambda>w. users w = us) m (\<lambda>x w. users w = us \<and> V us x) (\<lambda>_ _. True)"
    using assms(1) unfolding reads_def by (blast intro: triple_conseq)
  show "triple (\<lambda>w. users w = us \<and> V us x) (f x) (\<lambda>_ w. Q (users w)) (\<lambda>_ _. True)" for x
    using assms(2) [of x] by (cases "V us x") (auto simp: ends_def triple_def)
qed

lemma ends_bind:
  assumes "ends us R m" "\<And>x us'. R us' \<Longrightarrow> ends us' Q (f x)"
  shows "ends us Q (io_bind m f)"
  unfolding ends_def
proof (rule triple_bind [where R = "\<lambda>_ w. R (users w)"])
  show "triple (\<lambda>w. R (users w)) (f x) (\<lambda>_ w. Q (users w)) (\<lambda>_ _. True)" for x
    using assms(2) [of _ x] by (simp add: ends_def triple_def)
qed (use assms(1) in \<open>simp add: ends_def\<close>)

lemma ends_return: "Q us \<Longrightarrow> ends us Q (io_return x)"
  by (simp add: ends_def triple_def)

lemma ends_if: "ends us Q m \<Longrightarrow> ends us Q n \<Longrightarrow> ends us Q (if c then m else n)"
  by simp

lemma ends_any: "ends us (\<lambda>_. True) m"
  by (simp add: ends_def triple_def case_prod_beta sum.case_eq_if)

lemma ends_insert_user:
  assumes "\<And>i now. Q (us @ [mk i now])"
  shows "ends us Q (io_bind (insert_user sv mk) (\<lambda>_. io_return ()))"
proof -
  have "ends us Q (db_insert usersTable (mk i now))" for i now
    using assms unfolding ends_def
    by (auto simp: triple_def db_insert_def external_def db_store_def usersTable_def split: list.splits fault.splits)
  then have "ends us Q (insert_user sv mk)"
    unfolding insert_user_def by (intro ends_read [OF reads_draw] ends_read [OF reads_now])
  then show ?thesis by (rule ends_bind) (rule ends_return)
qed

lemma ends_updateRaw:
  assumes "\<And>now. Q (edited i (f now) us)"
  shows "ends us Q (io_bind (io_bind js_now (\<lambda>now. updateRaw i (f now))) (\<lambda>_. io_return ()))"
proof -
  have "ends us Q (updateRaw i (f now))" for now
    using assms unfolding ends_def updateRaw_def io_bind_def
    by (auto simp: triple_def db_update_def external_def db_store_def usersTable_def edited_def
        split: list.splits fault.splits)
  then have "ends us Q (io_bind js_now (\<lambda>now. updateRaw i (f now)))"
    by (rule ends_read [OF reads_now])
  then show ?thesis by (rule ends_bind) (rule ends_return)
qed

lemma normalize_idem [simp]:
  "normalizeEmailForComparison (normalizeEmailForComparison e) = normalizeEmailForComparison e"
  "js_trim (normalizeEmailForComparison e) = normalizeEmailForComparison e"
  by (simp_all add: normalizeEmailForComparison_def js_trim_lower js_trim_idem js_lower_idem)

text \<open>The ways to end with the configured administrator: a new row, or the row with the e-mail brought into order.\<close>

lemma ends_create:
  assumes lib: "\<And>r n. bcrypt_compare sv password (bcrypt_hash sv password r n)"
    and email: "normalizeEmailForComparison email = email" "js_trim email = email"
  shows "ends us (root_ready sv email password) (createConfiguredFirstAdmin sv email password)"
    "ends us (root_ready sv email password) (createConfiguredRootAdmin sv us' email password)"
proof -
  show "ends us (root_ready sv email password) (createConfiguredFirstAdmin sv email password)"
    unfolding createConfiguredFirstAdmin_def createFirstAdmin_def
    by (rule ends_read [OF reads_hashPassword], rule ends_insert_user)
      (auto simp: root_ready_def is_active_admin_def email lib)
  show "ends us (root_ready sv email password) (createConfiguredRootAdmin sv us' email password)"
    unfolding createConfiguredRootAdmin_def repo_createUser_def
    by (rule ends_read [OF reads_hashPassword], rule ends_insert_user)
      (auto simp: root_ready_def is_active_admin_def email lib)
qed

lemma ends_sync_row:
  assumes lib: "\<And>r n. bcrypt_compare sv password (bcrypt_hash sv password r n)"
    and u: "u \<in> set us" "normalizeEmailForComparison (user_email u) = email"
  shows "ends us (root_ready sv email password) (syncConfiguredRootAdmin sv u password)"
proof -
  have img: "f u \<in> set (edited (user_id u) f us)" for f
    using u(1) by (force simp: edited_def)
  have "ends us (root_ready sv email password) (io_bind (promoteToAdminAndSetPassword (user_id u) h) (\<lambda>_. io_return ()))"
    if "\<exists>r n. h = bcrypt_hash sv password r n" for h
    unfolding promoteToAdminAndSetPassword_def
    by (rule ends_updateRaw, unfold root_ready_def, rule bexI [OF _ img]) (use that u(2) in \<open>auto simp: promote_fields_def is_active_admin_def lib\<close>)
  moreover have "ends us (root_ready sv email password) (io_bind (repo_update (user_id u) activate_admin) (\<lambda>_. io_return ()))"
    if "bcrypt_compare sv password (user_passwordHash u)"
    unfolding repo_update_def
    by (rule ends_updateRaw, unfold root_ready_def, rule bexI [OF _ img])
      (use that u(2) in \<open>auto simp: update_fields_def activate_admin_def is_active_admin_def\<close>)
  moreover have "root_ready sv email password us"
    if "bcrypt_compare sv password (user_passwordHash u)" "user_isActive u" "user_role u = role_value ADMIN"
    using that u by (auto simp: root_ready_def is_active_admin_def)
  ultimately show ?thesis
    unfolding syncConfiguredRootAdmin_def by (auto intro!: ends_read [OF reads_hashPassword] ends_return)
qed

lemma ends_sync:
  assumes lib: "\<And>r n. bcrypt_compare sv password (bcrypt_hash sv password r n)"
    and email: "normalizeEmailForComparison email = email" "js_trim email = email"
  shows "ends us (root_ready sv email password) (syncConfiguredRootAdminWithLock sv (email, password))"
proof -
  note create = ends_create [OF lib email]
  have rest: "ends us' (root_ready sv email password) (io_bind list_users (\<lambda>refreshedUsers.
      case find (\<lambda>u. normalizeEmailForComparison (user_email u) = email) refreshedUsers of
        None \<Rightarrow> createConfiguredRootAdmin sv refreshedUsers email password
      | Some configuredUser \<Rightarrow> syncConfiguredRootAdmin sv configuredUser password))" for us'
  proof (rule ends_read [OF reads_finds(7)])
    fix refreshed assume "refreshed = us'"
    then show "ends us' (root_ready sv email password)
      (case find (\<lambda>u. normalizeEmailForComparison (user_email u) = email) refreshed of
        None \<Rightarrow> createConfiguredRootAdmin sv refreshed email password
      | Some configuredUser \<Rightarrow> syncConfiguredRootAdmin sv configuredUser password)"
      using create(2) ends_sync_row [OF lib, of _ us' email] find_own(2) [of "\<lambda>u. normalizeEmailForComparison (user_email u) = email" us']
      by (auto split: option.split)
  qed
  show ?thesis
    unfolding syncConfiguredRootAdminWithLock_def prod.case
    by (rule ends_read [OF reads_finds(6)], rule ends_if, rule create(1),
        rule ends_read [OF reads_finds(7)], rule ends_bind [OF ends_any rest])
qed

text \<open>When the start-up synchronisation reports success, the users table holds an active
  administrator with the configured e-mail whose password is the configured one, whatever
  the table held before. The hypothesis is bcrypt's: a hash matches its password.\<close>

theorem bootstrap_leaves_root_admin:
  assumes "bootstrapConfiguredRootAdmin sv w = (Inr (), w')"
    and "\<And>p r n. bcrypt_compare sv p (bcrypt_hash sv p r n)"
  shows "\<exists>email password. getRequiredConfiguredRootAdmin sv = Inr (email, password)
    \<and> root_ready sv email password (users w')"
proof -
  obtain email password where cfg: "getRequiredConfiguredRootAdmin sv = Inr (email, password)"
    and run: "withLock (syncConfiguredRootAdminWithLock sv (email, password)) w = (Inr (), w')"
    using assms(1) by (auto simp: bootstrapConfiguredRootAdmin_def split: sum.splits)
  from cfg obtain raw where "email = normalizeEmailForComparison raw"
    by (auto simp: getRequiredConfiguredRootAdmin_def getRequiredConfiguredRootAdminEmail_def Let_def
        split: sum.splits option.splits if_splits)
  then have email: "normalizeEmailForComparison email = email" "js_trim email = email" by simp_all
  have "triple (\<lambda>x. users x = users w) (withLock (syncConfiguredRootAdminWithLock sv (email, password)))
      (\<lambda>_ x. root_ready sv email password (users x)) (\<lambda>_ _. True)"
    using ends_sync [OF assms(2) email, of "users w"] unfolding ends_def
    by (intro triple_withLock) (auto simp: lock_free_def env_free_def)
  from triple_Inr [OF this refl run] cfg show ?thesis by blast
qed

definition demo_empty :: world where
  "demo_empty = demo_world\<lparr>users := []\<rparr>"

lemma demo_configured: "getRequiredConfiguredRootAdmin demo_server = Inr (''root@q.io'', ''correct horse'')"
  by (simp add: getRequiredConfiguredRootAdmin_def getRequiredConfiguredRootAdminEmail_def
      getRequiredConfiguredRootAdminPassword_def validatePasswordPolicy_def MIN_PASSWORD_LENGTH_def
      demo_server_def js_trim_def is_js_space_def normalizeEmailForComparison_def js_lower_def lower_char_def)

text \<open>The first start, on an empty table, when nothing fails.\<close>

lemma first_start_runs:
  assumes "faults w = []" "users w = []" "getBcryptSaltRounds sv = Inr r"
  shows "\<exists>w'. syncConfiguredRootAdminWithLock sv (email, password) w = (Inr (), w')
    \<and> faults w' = [] \<and> admin_locks w' = admin_locks w"
proof -
  let ?w1 = "w\<lparr>nonce := Suc (Suc (nonce w))\<rparr>"
  obtain c w2 where js: "js_now ?w1 = (Inr c, w2)" "users w2 = users ?w1" "faults w2 = faults ?w1"
    "admin_locks w2 = admin_locks ?w1"
    by (rule js_nowE)
  then show ?thesis
    using assms by (simp add: syncConfiguredRootAdminWithLock_def io_bind_run finds_calm
        createConfiguredFirstAdmin_def createFirstAdmin_def insert_user_def hashPassword_run draw_def
        db_insert_calm db_store_def usersTable_def)
qed

lemma demo_bootstrap: "fst (bootstrapConfiguredRootAdmin demo_server demo_empty) = Inr ()"
proof -
  have e: "faults demo_empty = []" "users demo_empty = []" "admin_locks demo_empty = []"
    by (simp_all add: demo_empty_def demo_world_def)
  obtain t w0 where acq: "js_now demo_empty = (Inr t, w0)" "faults w0 = []" "users w0 = users demo_empty"
    and try_w: "tryAcquire demo_empty = (Inr (Acquired t),
        w0\<lparr>admin_locks := [\<lparr>lock_id = ADMIN_MUTATION_LOCK_ID, lock_lockedAt = t\<rparr>]\<rparr>)"
    by (rule tryAcquire_free [OF e(1,3)])
  let ?w1 = "w0\<lparr>admin_locks := [\<lparr>lock_id = ADMIN_MUTATION_LOCK_ID, lock_lockedAt = t\<rparr>]\<rparr>"
  have "getBcryptSaltRounds demo_server = Inr 12"
    by (simp add: getBcryptSaltRounds_def demo_server_def DEFAULT_BCRYPT_SALT_ROUNDS_def)
  then obtain w2 where "syncConfiguredRootAdminWithLock demo_server (''root@q.io'', ''correct horse'') ?w1 = (Inr (), w2)"
    "faults w2 = []" "admin_locks w2 = admin_locks ?w1"
    using first_start_runs [of ?w1 demo_server 12] acq e by auto
  from withLock_free [where cb = "syncConfiguredRootAdminWithLock demo_server (''root@q.io'', ''correct horse'')",
      OF e(1,3) try_w this]
  show ?thesis by (simp add: bootstrapConfiguredRootAdmin_def demo_configured)
qed

theorem bootstrap_leaves_root_admin_witness:
  "\<exists>email password. getRequiredConfiguredRootAdmin demo_server = Inr (email, password)
    \<and> root_ready demo_server email password (users (snd (bootstrapConfiguredRootAdmin demo_server demo_empty)))"
proof (rule bootstrap_leaves_root_admin)
  show "bootstrapConfiguredRootAdmin demo_server demo_empty = (Inr (), snd (bootstrapConfiguredRootAdmin demo_server demo_empty))"
    using demo_bootstrap by (simp add: prod_eq_iff)
  show "bcrypt_compare demo_server p (bcrypt_hash demo_server p r n)" for p r n
    by (simp add: demo_server_def)
qed

end
