(* ===== verification/RoleRepository.thy ===== *)
theory RoleRepository
  imports Common
begin

text \<open>
  api/src/common/role.repository.ts: the repository of rows that belong to a user, generic in
  the table. The locale \<open>role_store\<close> states what the class relies on of its table; the lemmas
  proved in it hold for every repository derived from the class.
\<close>

section \<open>The class\<close>

text \<open>What the class reads of a row, and how a statement writes its \<open>updatedAt\<close> column.\<close>

record 'r role_table =
  rt_table :: "'r table"
  rt_id :: "'r \<Rightarrow> string"
  rt_userId :: "'r \<Rightarrow> string"
  rt_createdAt :: "'r \<Rightarrow> int"
  rt_touch :: "int \<Rightarrow> 'r \<Rightarrow> 'r"

definition owned_by :: "'r role_table \<Rightarrow> string \<Rightarrow> 'r \<Rightarrow> bool" where
  "owned_by rt userId r \<longleftrightarrow> rt_userId rt r = userId"

definition owned_row :: "'r role_table \<Rightarrow> string \<Rightarrow> string \<Rightarrow> 'r \<Rightarrow> bool" where
  "owned_row rt userId i r \<longleftrightarrow> rt_userId rt r = userId \<and> rt_id rt r = i"

text \<open>Every method is one \<open>try\<close> block that turns an error into a \<open>Failure\<close>.\<close>

definition or_failure :: "(world, ('a, string) result) io \<Rightarrow> (world, ('a, string) result) io" where
  "or_failure m = io_catch m (\<lambda>e. io_return (Failure (errorMessage e)))"

text \<open>\<open>const r = await m; if (!r.success) return Failure(r.error);\<close> and then the rest with its data.\<close>

definition ok_bind :: "('w, ('a, 'e) result) io \<Rightarrow> ('a \<Rightarrow> ('w, ('b, 'e) result) io) \<Rightarrow> ('w, ('b, 'e) result) io" where
  "ok_bind m f = io_bind m (\<lambda>r. case r of Failure e \<Rightarrow> io_return (Failure e) | Ok x \<Rightarrow> f x)"

text \<open>The row is built from the arguments, the default id and the two timestamps.\<close>

definition role_create :: "server \<Rightarrow> 'r role_table \<Rightarrow> (string \<Rightarrow> int \<Rightarrow> int \<Rightarrow> 'r) \<Rightarrow> (world, ('r, string) result) io" where
  "role_create sv rt mk = or_failure
     (io_bind js_now (\<lambda>createdAt. io_bind js_now (\<lambda>updatedAt. io_bind (draw (createId sv)) (\<lambda>i.
      io_bind (db_insert (rt_table rt) (mk i createdAt updatedAt)) (\<lambda>r. io_return (Ok r))))))"

definition role_findAll :: "'r role_table \<Rightarrow> string \<Rightarrow> (world, ('r list, string) result) io" where
  "role_findAll rt userId = or_failure
     (if userId = [] then io_return (Failure ''User ID is required'')
      else io_bind (db_select (rt_table rt) (owned_by rt userId)) (\<lambda>records.
        io_return (Ok (order_desc (rt_createdAt rt) records))))"

definition role_findOne :: "'r role_table \<Rightarrow> string \<Rightarrow> string \<Rightarrow> (world, ('r, string) result) io" where
  "role_findOne rt userId i = or_failure
     (if userId = [] \<or> i = [] then io_return (Failure ''User ID and ID are required'')
      else io_bind (db_select (rt_table rt) (owned_row rt userId i)) (\<lambda>records.
        case records of [] \<Rightarrow> io_return (Failure ''Not found'') | r # _ \<Rightarrow> io_return (Ok r)))"

definition role_update :: "'r role_table \<Rightarrow> string \<Rightarrow> string \<Rightarrow> ('r \<Rightarrow> 'r) \<Rightarrow> (world, ('r, string) result) io" where
  "role_update rt userId i args = or_failure
     (if userId = [] \<or> i = [] then io_return (Failure ''User ID and ID are required'')
      else io_bind js_now (\<lambda>now.
        io_bind (db_update (rt_table rt) (owned_row rt userId i) (\<lambda>r. rt_touch rt now (args r))) (\<lambda>_.
        role_findOne rt userId i)))"

definition role_remove :: "'r role_table \<Rightarrow> string \<Rightarrow> string \<Rightarrow> (world, (unit, string) result) io" where
  "role_remove rt userId i = or_failure
     (if userId = [] \<or> i = [] then io_return (Failure ''User ID and ID are required'')
      else io_bind (db_delete (rt_table rt) (owned_row rt userId i)) (\<lambda>_. io_return (Ok ())))"

section \<open>Methods that never reject\<close>

lemma ok_bind_OkE:
  assumes "ok_bind m f w = (Inr (Ok y), w')"
  obtains x w1 where "m w = (Inr (Ok x), w1)" "f x w1 = (Inr (Ok y), w')"
  using assms unfolding ok_bind_def by (elim io_bind_InrE) (auto split: result.splits)

lemma leaves_ok_read:
  assumes "observes K V m" "Q k" "\<And>x. V k (Ok x) \<Longrightarrow> leaves K k Q (f x)"
  shows "leaves K k Q (ok_bind m f)"
  unfolding ok_bind_def
proof (rule leaves_read [where V = V and Q = Q, OF assms(1) assms(2)])
  fix r assume "V k r"
  then show "leaves K k Q (case r of Ok x \<Rightarrow> f x | Failure e \<Rightarrow> io_return (Failure e))"
    using assms(2,3) by (cases r) (simp_all add: leaves_return)
qed

lemma leaves_ok_bind:
  assumes "leaves K k Q m" "\<And>x k'. Q k' \<Longrightarrow> leaves K k' Q (f x)"
  shows "leaves K k Q (ok_bind m f)"
  unfolding ok_bind_def
proof (rule leaves_bind [where Q = Q, OF assms(1)])
  fix r k' assume "Q k'"
  then show "leaves K k' Q (case r of Ok x \<Rightarrow> f x | Failure e \<Rightarrow> io_return (Failure e))"
    using assms(2) by (cases r) (simp_all add: leaves_return)
qed

lemma ok_bind_run: "ok_bind m f w = (case m w of (Inl e, w') \<Rightarrow> (Inl e, w')
    | (Inr (Ok x), w') \<Rightarrow> f x w' | (Inr (Failure e), w') \<Rightarrow> (Inr (Failure e), w'))"
  by (simp add: ok_bind_def io_bind_run split: prod.split sum.split result.split)

lemma or_failure_never_rejects: "never_rejects (or_failure m)"
  unfolding or_failure_def by (rule never_rejects_catch, rule never_rejects_return)

lemma role_never_rejects:
  "never_rejects (role_create sv rt mk)" "never_rejects (role_findAll rt u)"
  "never_rejects (role_findOne rt u i)" "never_rejects (role_update rt u i f)"
  "never_rejects (role_remove rt u i)"
  unfolding role_create_def role_findAll_def role_findOne_def role_update_def role_remove_def
  by (rule or_failure_never_rejects)+

lemma or_failure_Ok: "or_failure m w = (Inr (Ok x), w') \<longleftrightarrow> m w = (Inr (Ok x), w')"
  by (auto simp: or_failure_def io_catch_run split: prod.splits sum.splits)

lemma preserves_or_failure: "preserves I m \<Longrightarrow> preserves I (or_failure m)"
  unfolding or_failure_def by (intro preserves_catch preserves_return)

lemma order_desc_set [simp]: "set (order_desc k rs) = set rs"
  by (simp add: order_desc_def)

text \<open>Newest first.\<close>

lemma order_desc_sorted: "sorted_wrt (\<lambda>a b. k b \<le> k a) (order_desc k rs)"
proof -
  have "sorted (map (\<lambda>r. - k r) (order_desc k rs))" unfolding order_desc_def by (rule sorted_sort_key)
  then show ?thesis by (simp add: sorted_map)
qed

section \<open>The laws of a table with owners\<close>

locale role_store =
  fixes rt :: "'r role_table"
  assumes put_rows: "t_rows (rt_table rt) (t_put (rt_table rt) rs w) = rs"
    and cascade_rows: "t_rows (rt_table rt) (t_cascade (rt_table rt) gone w) = t_rows (rt_table rt) w"
    and rows_env: "t_rows (rt_table rt) (w\<lparr>faults := fs\<rparr>) = t_rows (rt_table rt) w"
      "t_rows (rt_table rt) (w\<lparr>clock := c, ticks := ts\<rparr>) = t_rows (rt_table rt) w"
      "t_rows (rt_table rt) (w\<lparr>nonce := n\<rparr>) = t_rows (rt_table rt) w"
    and touch_keeps: "rt_id rt (rt_touch rt now r) = rt_id rt r" "rt_userId rt (rt_touch rt now r) = rt_userId rt r"
begin

abbreviation rows :: "world \<Rightarrow> 'r list" where
  "rows \<equiv> t_rows (rt_table rt)"

lemma rows_env_free: "env_free (\<lambda>w. Q (rows w))"
  by (simp add: env_free_def rows_env)

text \<open>The rows of one user.\<close>

definition rows_of :: "string \<Rightarrow> world \<Rightarrow> 'r list" where
  "rows_of v w = filter (\<lambda>r. rt_userId rt r = v) (rows w)"

lemma env_free_rows_of: "env_free (\<lambda>w. rows_of v w = rs)"
  unfolding rows_of_def by (simp add: env_free_def rows_env)

lemma findOne_preserves: "preserves (\<lambda>w. rows_of v w = rs) (role_findOne rt userId i)"
  unfolding role_findOne_def
  by (intro preserves_or_failure preserves_if preserves_return preserves_bind preserves_select env_free_rows_of)
    (auto intro: preserves_return split: list.split)

lemma findAll_preserves: "preserves (\<lambda>w. rows_of v w = rs) (role_findAll rt userId)"
  unfolding role_findAll_def
  by (intro preserves_or_failure preserves_if preserves_return preserves_bind preserves_select env_free_rows_of)

lemma filter_update_other:
  assumes "\<And>r. rt_userId rt (f r) = rt_userId rt r" "v \<noteq> userId"
  shows "filter (\<lambda>r. rt_userId rt r = v) (map (\<lambda>r. if owned_row rt userId i r then f r else r) rs)
    = filter (\<lambda>r. rt_userId rt r = v) rs"
  using assms by (induction rs) (auto simp: owned_row_def)

text \<open>An operation on behalf of one user leaves the rows of every other user alone.\<close>

lemma update_isolates:
  assumes "\<And>r. rt_userId rt (args r) = rt_userId rt r" "v \<noteq> userId"
  shows "preserves (\<lambda>w. rows_of v w = rs) (role_update rt userId i args)"
  unfolding role_update_def
proof (intro preserves_or_failure preserves_if preserves_return preserves_bind preserves_now env_free_rows_of
    findOne_preserves)
  fix now
  show "preserves (\<lambda>w. rows_of v w = rs)
      (db_update (rt_table rt) (owned_row rt userId i) (\<lambda>r. rt_touch rt now (args r)))"
    by (rule preserves_update [OF env_free_rows_of])
      (simp add: rows_of_def put_rows filter_update_other touch_keeps assms)
qed

lemma remove_isolates:
  assumes "v \<noteq> userId"
  shows "preserves (\<lambda>w. rows_of v w = rs) (role_remove rt userId i)"
  unfolding role_remove_def
proof (intro preserves_or_failure preserves_if preserves_return preserves_bind)
  show "preserves (\<lambda>w. rows_of v w = rs) (db_delete (rt_table rt) (owned_row rt userId i))"
    by (rule preserves_delete [OF env_free_rows_of])
      (use assms in \<open>auto simp: rows_of_def cascade_rows put_rows owned_row_def intro!: filter_cong\<close>)
qed

lemma create_isolates:
  assumes "\<And>i c u. rt_userId rt (mk i c u) = userId" "v \<noteq> userId"
  shows "preserves (\<lambda>w. rows_of v w = rs) (role_create sv rt mk)"
  unfolding role_create_def
proof (intro preserves_or_failure preserves_return preserves_bind preserves_now preserves_draw env_free_rows_of)
  fix i c u
  show "preserves (\<lambda>w. rows_of v w = rs) (db_insert (rt_table rt) (mk i c u))"
    by (rule preserves_insert [OF env_free_rows_of]) (use assms in \<open>auto simp: rows_of_def put_rows\<close>)
qed

text \<open>What a read returns is a row of the table, and the caller's.\<close>

lemma select_rows:
  assumes "db_select (rt_table rt) P w = (Inr rs, w')"
  shows "rs = filter P (rows w)"
  using assms by (auto simp: db_select_def external_def rows_env split: list.splits fault.splits)

lemma findOne_sound:
  assumes "role_findOne rt userId i w = (Inr (Ok r), w')"
  shows "r \<in> set (rows w) \<and> rt_userId rt r = userId \<and> rt_id rt r = i \<and> userId \<noteq> []"
proof -
  obtain rs w1 where "db_select (rt_table rt) (owned_row rt userId i) w = (Inr (r # rs), w1)" and u: "userId \<noteq> []"
    using assms unfolding role_findOne_def or_failure_Ok
    by (auto simp: io_bind_run split: if_splits prod.splits sum.splits list.splits)
  then have "r # rs = filter (owned_row rt userId i) (rows w)" by (intro select_rows)
  then have "r \<in> set (filter (owned_row rt userId i) (rows w))" by (metis list.set_intros(1))
  then show ?thesis using u by (simp add: owned_row_def)
qed

lemma findAll_sound:
  assumes "role_findAll rt userId w = (Inr (Ok rs), w')"
  shows "set rs = set (rows_of userId w) \<and> sorted_wrt (\<lambda>a b. rt_createdAt rt b \<le> rt_createdAt rt a) rs"
proof -
  obtain xs w1 where xs: "db_select (rt_table rt) (owned_by rt userId) w = (Inr xs, w1)"
    and rs: "rs = order_desc (rt_createdAt rt) xs"
    using assms unfolding role_findAll_def or_failure_Ok
    by (auto simp: io_bind_run split: if_splits prod.splits sum.splits)
  from select_rows [OF xs] rs show ?thesis
    by (simp add: rows_of_def owned_by_def order_desc_sorted)
qed

text \<open>The table after a read and after an insertion, by outcome.\<close>

lemma env_free_rows: "env_free (\<lambda>w. rows w = rs)"
  by (simp add: env_free_def rows_env)

lemma findAll_triple:
  "triple (\<lambda>w. rows w = rs) (role_findAll rt userId)
     (\<lambda>r w. rows w = rs \<and> (\<forall>l. r = Ok l \<longrightarrow> set l = {x \<in> set rs. rt_userId rt x = userId})) (\<lambda>_ _. False)"
proof (rule tripleI)
  fix w assume w: "rows w = rs"
  obtain r w1 where run: "role_findAll rt userId w = (Inr r, w1)"
    using role_never_rejects(2) by (rule never_rejectsE)
  have "preserves (\<lambda>w. rows w = rs) (role_findAll rt userId)"
    unfolding role_findAll_def
    by (intro preserves_or_failure preserves_if preserves_return preserves_bind preserves_select env_free_rows)
  then have "rows w1 = rs" using preservesD [where I = "\<lambda>w. rows w = rs" and w = w] w run by fastforce
  moreover have "set l = {x \<in> set rs. rt_userId rt x = userId}" if "r = Ok l" for l
    using findAll_sound [of userId w l w1] run that w by (auto simp: rows_of_def)
  ultimately show "case role_findAll rt userId w of
      (Inl e, w') \<Rightarrow> False
    | (Inr r, w') \<Rightarrow> rows w' = rs \<and> (\<forall>l. r = Ok l \<longrightarrow> set l = {x \<in> set rs. rt_userId rt x = userId})"
    by (simp add: run)
qed

lemma insert_rows:
  assumes "rows w = rs" "Q rs" "Q (rs @ [r])"
  shows "Q (rows (snd (db_insert (rt_table rt) r w)))"
  using assms by (auto simp: db_insert_def external_def db_store_def rows_env put_rows
      split: list.splits fault.splits option.splits)

lemma create_rows:
  assumes w: "rows w = rs" and Q: "Q rs" "\<And>i c u. Q (rs @ [mk i c u])"
  shows "Q (rows (snd (role_create sv rt mk w)))"
proof -
  obtain c w1 where n1: "js_now w = (Inr c, w1)" "rows w1 = rs"
    using preservesD [where I = "\<lambda>w. rows w = rs", OF preserves_now [OF env_free_rows] w] js_now_run [of w] by metis
  obtain u w2 where n2: "js_now w1 = (Inr u, w2)" "rows w2 = rs"
    using preservesD [where I = "\<lambda>w. rows w = rs", OF preserves_now [OF env_free_rows] n1(2)] js_now_run [of w1] by metis
  obtain i w3 where n3: "draw (createId sv) w2 = (Inr i, w3)" "rows w3 = rs"
    using n2(2) by (simp add: draw_def rows_env)
  have "Q (rows (snd (db_insert (rt_table rt) (mk i c u) w3)))"
    using n3(2) Q by (rule insert_rows)
  then show ?thesis
    by (auto simp: role_create_def or_failure_def io_catch_run io_bind_run n1 n2 n3 case_prod_beta split: sum.splits)
qed

text \<open>A successful creation appends a row built from the arguments, which the constraints accept.\<close>

lemma insert_sound:
  assumes "db_insert (rt_table rt) r w = (Inr x, w')"
  shows "x = r \<and> rows w' = rows w @ [r] \<and> (\<exists>w0. t_check (rt_table rt) w0 (rows w @ [r]) = None)"
  using assms unfolding db_insert_def external_def db_store_def
  by (auto simp: rows_env put_rows split: list.splits fault.splits option.splits)

lemma create_sound:
  assumes "role_create sv rt mk w = (Inr (Ok r), w')"
  shows "(\<exists>i c u. r = mk i c u) \<and> rows w' = rows w @ [r] \<and> (\<exists>w0. t_check (rt_table rt) w0 (rows w @ [r]) = None)"
proof -
  obtain c w1 u w2 i w3 where r: "js_now w = (Inr c, w1)" "js_now w1 = (Inr u, w2)" "draw (createId sv) w2 = (Inr i, w3)"
    and ins: "db_insert (rt_table rt) (mk i c u) w3 = (Inr r, w')"
    using assms unfolding role_create_def or_failure_Ok by (elim io_bind_InrE) auto
  have now: "rows y = rows x" if "js_now x = (k, y)" for k x y
    using preservesD [where I = "\<lambda>v. rows v = rows x", OF preserves_now [OF env_free_rows] refl] that by simp
  have "rows w3 = rows w" using now [OF r(1)] now [OF r(2)] r(3) by (auto simp: draw_def rows_env)
  then show ?thesis using insert_sound [OF ins] by auto
qed

text \<open>A successful update rewrites the caller's rows with the id, and returns one of them.\<close>

lemma update_sound:
  assumes "role_update rt userId i args w = (Inr (Ok r), w')"
  shows "\<exists>now. rows w' = map (\<lambda>x. if owned_row rt userId i x then rt_touch rt now (args x) else x) (rows w)
    \<and> (\<exists>x\<in>set (rows w). owned_row rt userId i x \<and> r = rt_touch rt now (args x))"
proof -
  obtain now w1 xs w2 where n: "js_now w = (Inr now, w1)"
    and up: "db_update (rt_table rt) (owned_row rt userId i) (\<lambda>r. rt_touch rt now (args r)) w1 = (Inr xs, w2)"
    and found: "role_findOne rt userId i w2 = (Inr (Ok r), w')"
    using assms unfolding role_update_def or_failure_Ok by (auto elim!: io_bind_InrE split: if_splits)
  have w1: "rows w1 = rows w"
    using preservesD [where I = "\<lambda>v. rows v = rows w", OF preserves_now [OF env_free_rows] refl] n by simp
  have w2: "rows w2 = map (\<lambda>x. if owned_row rt userId i x then rt_touch rt now (args x) else x) (rows w)"
    using up unfolding db_update_def external_def db_store_def
    by (auto simp: rows_env put_rows w1 split: list.splits fault.splits option.splits)
  have "preserves (\<lambda>v. rows v = rows w2) (role_findOne rt userId i)"
    unfolding role_findOne_def
    by (intro preserves_or_failure preserves_if preserves_return preserves_bind preserves_select env_free_rows)
      (auto intro: preserves_return split: list.split)
  from preservesD [where I = "\<lambda>v. rows v = rows w2", OF this refl] have w': "rows w' = rows w2" using found by simp
  have "r \<in> set (rows w2)" "owned_row rt userId i r" using findOne_sound [OF found] by (simp_all add: owned_row_def)
  then have "\<exists>x\<in>set (rows w). owned_row rt userId i x \<and> r = rt_touch rt now (args x)"
    unfolding w2 by (auto split: if_splits)
  with w2 w' show ?thesis by (intro exI [of _ now] conjI) simp_all
qed

text \<open>After a successful removal the row is gone.\<close>

lemma remove_gone:
  assumes "role_remove rt userId i w = (Inr (Ok ()), w')"
  shows "\<forall>r\<in>set (rows w'). \<not> (rt_userId rt r = userId \<and> rt_id rt r = i)"
proof -
  obtain w1 where "db_delete (rt_table rt) (owned_row rt userId i) w = (Inr (), w1)" "w' = w1"
    using assms unfolding role_remove_def or_failure_Ok
    by (auto simp: io_bind_run split: if_splits prod.splits sum.splits)
  then show ?thesis
    by (auto simp: db_delete_def external_def cascade_rows put_rows owned_row_def split: list.splits fault.splits)
qed

end

end
