(* ===== verification/ApiKeys.thy ===== *)
theory ApiKeys
  imports RoleRepository Auth
begin

text \<open>
  api/src/api-key: repository, service, controller and guard of the API keys. The repository
  extends the class of RoleRepository; its table is an instance of the locale there.
\<close>

section \<open>The repository\<close>

definition apiKeyTable :: "api_key_row role_table" where
  "apiKeyTable = \<lparr>rt_table = apiKeysTable, rt_id = key_id, rt_userId = key_userId,
     rt_createdAt = key_createdAt, rt_touch = (\<lambda>now k. k\<lparr>key_updatedAt := now\<rparr>)\<rparr>"

lemma apiKeyTable_sel [simp]:
  "rt_table apiKeyTable = apiKeysTable" "rt_id apiKeyTable = key_id" "rt_userId apiKeyTable = key_userId"
  "rt_createdAt apiKeyTable = key_createdAt" "rt_touch apiKeyTable now k = k\<lparr>key_updatedAt := now\<rparr>"
  by (simp_all add: apiKeyTable_def)

interpretation key_store: role_store apiKeyTable
  by unfold_locales auto

text \<open>models/api-key.model.ts as \<open>transformSnapshotToData\<close> fills it.\<close>

record api_key =
  ak_id :: string
  ak_userId :: string
  ak_name :: string
  ak_key :: string
  ak_isActive :: bool
  ak_createdAt :: int
  ak_updatedAt :: int
  ak_lastUsedAt :: "int option"

definition transformSnapshotToData :: "api_key_row \<Rightarrow> api_key" where
  "transformSnapshotToData r = \<lparr>ak_id = key_id r, ak_userId = key_userId r, ak_name = key_name r,
     ak_key = key_keyValue r, ak_isActive = key_isActive r, ak_createdAt = key_createdAt r,
     ak_updatedAt = key_updatedAt r, ak_lastUsedAt = key_lastUsedAt r\<rparr>"

fun map_ok :: "('a \<Rightarrow> 'b) \<Rightarrow> ('a, 'e) result \<Rightarrow> ('b, 'e) result" where
  "map_ok f (Ok x) = Ok (f x)"
| "map_ok f (Failure e) = Failure e"

definition generateApiKey :: "server \<Rightarrow> (world, string) io" where
  "generateApiKey sv = io_bind (draw (random_hex sv)) (\<lambda>hex. io_return (''quantflow_'' @ hex))"

definition repo_createApiKey :: "server \<Rightarrow> string \<Rightarrow> string \<Rightarrow> (world, (api_key, string) result) io" where
  "repo_createApiKey sv userId name = io_bind (generateApiKey sv) (\<lambda>apiKey.
     io_bind (role_create sv apiKeyTable (\<lambda>i created updated.
        \<lparr>key_id = i, key_userId = userId, key_name = name, key_keyValue = apiKey, key_isActive = True,
         key_lastUsedAt = None, key_createdAt = created, key_updatedAt = updated\<rparr>)) (\<lambda>r.
     io_return (map_ok (\<lambda>row. (transformSnapshotToData row)\<lparr>ak_key := apiKey\<rparr>) r)))"

definition findByKey :: "string \<Rightarrow> (world, (api_key, string) result) io" where
  "findByKey key = or_failure
     (io_bind (db_select apiKeysTable (\<lambda>r. key_keyValue r = key \<and> key_isActive r)) (\<lambda>records.
      case records of [] \<Rightarrow> io_return (Failure ''API key not found or inactive'')
      | apiKey # _ \<Rightarrow> io_return (Ok (transformSnapshotToData apiKey))))"

definition updateLastUsed :: "string \<Rightarrow> (world, (unit, string) result) io" where
  "updateLastUsed keyId = or_failure (io_bind js_now (\<lambda>now.
     io_bind (db_update apiKeysTable (\<lambda>r. key_id r = keyId) (\<lambda>r. r\<lparr>key_lastUsedAt := Some now\<rparr>)) (\<lambda>_.
     io_return (Ok ()))))"

definition repo_deleteApiKey :: "string \<Rightarrow> string \<Rightarrow> (world, (unit, string) result) io" where
  "repo_deleteApiKey userId i = or_failure (io_bind (role_findOne apiKeyTable userId i) (\<lambda>existingKey.
     case existingKey of Failure _ \<Rightarrow> io_return (Failure ''API key not found'')
     | Ok _ \<Rightarrow> io_bind (db_delete apiKeysTable (\<lambda>r. key_id r = i \<and> key_userId r = userId)) (\<lambda>_.
         io_return (Ok ()))))"

section \<open>The service\<close>

definition findAllKeys :: "string \<Rightarrow> (world, (api_key list, string) result) io" where
  "findAllKeys userId = io_bind (role_findAll apiKeyTable userId) (\<lambda>r.
     io_return (map_ok (map transformSnapshotToData) r))"

definition createApiKey :: "server \<Rightarrow> string \<Rightarrow> string \<Rightarrow> (world, (api_key, string) result) io" where
  "createApiKey sv userId name = io_bind (findAllKeys userId) (\<lambda>existingKeys. case existingKeys of
      Failure e \<Rightarrow> io_return (Failure e)
    | Ok keys \<Rightarrow>
        if \<exists>k\<in>set keys. ak_name k = name
        then io_return (Failure ''An API key with this name already exists'')
        else repo_createApiKey sv userId name)"

definition getUserApiKeys :: "string \<Rightarrow> (world, (api_key list, string) result) io" where
  "getUserApiKeys userId = findAllKeys userId"

definition getApiKeyById :: "string \<Rightarrow> string \<Rightarrow> (world, (api_key, string) result) io" where
  "getApiKeyById userId keyId = io_bind (role_findOne apiKeyTable userId keyId) (\<lambda>r.
     io_return (map_ok transformSnapshotToData r))"

definition deleteApiKey :: "string \<Rightarrow> string \<Rightarrow> (world, (unit, string) result) io" where
  "deleteApiKey userId keyId = repo_deleteApiKey userId keyId"

definition validateApiKey :: "string \<Rightarrow> (world, (api_key, string) result) io" where
  "validateApiKey key = io_bind (findByKey key) (\<lambda>r. case r of
      Failure e \<Rightarrow> io_return (Failure e)
    | Ok k \<Rightarrow> io_bind (findById (ak_userId k)) (\<lambda>user.
        if \<not> (case user of Some u \<Rightarrow> user_isActive u | None \<Rightarrow> False)
        then io_return (Failure ''API key owner is inactive'')
        else io_bind (updateLastUsed (ak_id k)) (\<lambda>_. io_return (Ok k))))"

definition getApiKeyStats :: "string \<Rightarrow> (world, (nat \<times> nat, string) result) io" where
  "getApiKeyStats userId = io_bind (findAllKeys userId) (\<lambda>r.
     io_return (map_ok (\<lambda>keys. (length keys, length (filter ak_isActive keys))) r))"

section \<open>The controller\<close>

definition unwrap :: "(string \<Rightarrow> nat) \<Rightarrow> ('a, string) result \<Rightarrow> (world, 'a) io" where
  "unwrap status r = (case r of Ok x \<Rightarrow> io_return x | Failure e \<Rightarrow> io_throw (Http (status e) e))"

definition post_api_key :: "server \<Rightarrow> string \<Rightarrow> string \<Rightarrow> (world, api_key) io" where
  "post_api_key sv uid name = io_bind (createApiKey sv uid name) (unwrap (\<lambda>_. 400))"

definition get_api_keys :: "string \<Rightarrow> (world, api_key list) io" where
  "get_api_keys uid = io_bind (getUserApiKeys uid) (unwrap (\<lambda>_. 500))"

definition get_api_key :: "string \<Rightarrow> string \<Rightarrow> (world, api_key) io" where
  "get_api_key uid keyId = io_bind (getApiKeyById uid keyId) (unwrap (\<lambda>e. if e = ''Not found'' then 404 else 500))"

definition delete_api_key :: "string \<Rightarrow> string \<Rightarrow> (world, string) io" where
  "delete_api_key uid keyId = io_bind (deleteApiKey uid keyId) (\<lambda>r.
     io_bind (unwrap (\<lambda>e. if e = ''API key not found'' then 404 else 500) r) (\<lambda>_.
     io_return ''API key deleted successfully''))"

definition get_api_key_stats :: "string \<Rightarrow> (world, nat \<times> nat) io" where
  "get_api_key_stats uid = io_bind (getApiKeyStats uid) (unwrap (\<lambda>_. 500))"

section \<open>The guard\<close>

definition extractApiKeyFromHeader :: "string option \<Rightarrow> string option \<Rightarrow> string option" where
  "extractApiKeyFromHeader authHeader apiKeyHeader =
     (if truthy_opt apiKeyHeader then apiKeyHeader
      else case authHeader of
        None \<Rightarrow> None
      | Some header \<Rightarrow>
          if header = [] then None
          else let parts = split_at (CHR '' '') header; key = nth_opt parts 1 in
            if nth_opt parts 0 \<in> {Some ''Bearer'', Some ''ApiKey''} \<and> truthy_opt key then key else None)"

definition api_key_canActivate :: "string option \<Rightarrow> string option \<Rightarrow> (world, string \<times> string \<times> string) io" where
  "api_key_canActivate authHeader apiKeyHeader = (case extractApiKeyFromHeader authHeader apiKeyHeader of
      None \<Rightarrow> io_throw (Http 401 ''API key is required'')
    | Some apiKey \<Rightarrow> io_bind (validateApiKey apiKey) (\<lambda>r. case r of
         Failure _ \<Rightarrow> io_throw (Http 401 ''Invalid API key'')
       | Ok k \<Rightarrow> io_return (ak_userId k, ak_id k, ak_name k)))"

section \<open>Facts\<close>

text \<open>The statements of the repository that are not in the class, for one user's rows.\<close>

lemma delete_preserves_others:
  assumes "v \<noteq> userId"
  shows "preserves (\<lambda>w. key_store.rows_of v w = rs) (deleteApiKey userId keyId)"
  unfolding deleteApiKey_def repo_deleteApiKey_def
proof (intro preserves_or_failure preserves_bind key_store.findOne_preserves preserves_result preserves_return)
  show "preserves (\<lambda>w. key_store.rows_of v w = rs) (db_delete apiKeysTable (\<lambda>r. key_id r = keyId \<and> key_userId r = userId))"
    by (rule preserves_delete [OF key_store.env_free_rows_of])
      (use assms in \<open>auto simp: key_store.rows_of_def intro!: filter_cong\<close>)
qed

lemma create_preserves_others:
  assumes "v \<noteq> userId"
  shows "preserves (\<lambda>w. key_store.rows_of v w = rs) (createApiKey sv userId name)"
  unfolding createApiKey_def repo_createApiKey_def findAllKeys_def generateApiKey_def
  by (intro preserves_bind preserves_result preserves_return preserves_if preserves_draw
      key_store.env_free_rows_of key_store.findAll_preserves key_store.create_isolates [where userId = userId])
    (use assms in simp_all)

definition keys_of :: "string \<Rightarrow> world \<Rightarrow> api_key_row list" where
  "keys_of v w = filter (\<lambda>k. key_userId k = v) (api_keys w)"

lemma keys_of_rows: "key_store.rows_of v w = keys_of v w"
  by (simp add: key_store.rows_of_def keys_of_def)

text \<open>Creating and deleting API keys for one user never changes, adds or removes a key of
  another user, whatever fails on the way.\<close>

theorem api_keys_isolated:
  assumes "v \<noteq> userId"
  shows "keys_of v (snd (createApiKey sv userId name w)) = keys_of v w
    \<and> keys_of v (snd (deleteApiKey userId keyId w)) = keys_of v w"
  using preservesD [OF create_preserves_others [OF assms], of w "keys_of v w" sv name]
    preservesD [OF delete_preserves_others [OF assms], of w "keys_of v w" keyId]
  by (simp_all add: keys_of_rows)

theorem api_keys_isolated_witness:
  "keys_of ''id-ann'' (snd (createApiKey demo_server ''id-root'' ''ci'' demo_world)) = keys_of ''id-ann'' demo_world
    \<and> keys_of ''id-ann'' (snd (deleteApiKey ''id-root'' ''k1'' demo_world)) = keys_of ''id-ann'' demo_world"
  by (rule api_keys_isolated) simp

lemma findByKey_sound:
  assumes "findByKey key w = (Inr (Ok k), w')"
  shows "\<exists>r\<in>set (api_keys w). key_keyValue r = key \<and> key_isActive r \<and> k = transformSnapshotToData r
    \<and> users w' = users w"
proof -
  obtain r rs where sel: "db_select apiKeysTable (\<lambda>r. key_keyValue r = key \<and> key_isActive r) w = (Inr (r # rs), w')"
    and k: "k = transformSnapshotToData r"
    using assms unfolding findByKey_def or_failure_Ok
    by (auto simp: io_bind_run split: prod.splits sum.splits list.splits)
  then have "r # rs = filter (\<lambda>r. key_keyValue r = key \<and> key_isActive r) (api_keys w)"
    using key_store.select_rows [of _ w "r # rs" w'] by simp
  then have "r \<in> set (filter (\<lambda>r. key_keyValue r = key \<and> key_isActive r) (api_keys w))"
    by (metis list.set_intros(1))
  moreover have "users w' = users w"
    using sel by (auto simp: db_select_def external_def split: list.splits fault.splits)
  ultimately show ?thesis using k by auto
qed

lemma validateApiKey_Ok:
  assumes "validateApiKey key w = (Inr (Ok k), w')"
  obtains r u where "r \<in> set (api_keys w)" "u \<in> set (users w)" "key_keyValue r = key" "key_isActive r"
    "user_id u = key_userId r" "user_isActive u" "k = transformSnapshotToData r"
proof -
  obtain k' w1 where k': "findByKey key w = (Inr (Ok k'), w1)"
    and rest: "io_bind (findById (ak_userId k')) (\<lambda>user.
        if \<not> (case user of Some u \<Rightarrow> user_isActive u | None \<Rightarrow> False)
        then io_return (Failure ''API key owner is inactive'')
        else io_bind (updateLastUsed (ak_id k')) (\<lambda>_. io_return (Ok k'))) w1 = (Inr (Ok k), w')"
    using assms by (auto simp: validateApiKey_def io_bind_run [of "findByKey key"] split: prod.splits sum.splits result.splits)
  obtain r where r: "r \<in> set (api_keys w)" "key_keyValue r = key" "key_isActive r"
    "k' = transformSnapshotToData r" "users w1 = users w"
    using findByKey_sound [OF k'] by blast
  obtain x w2 where x: "findById (ak_userId k') w1 = (Inr x, w2)"
    using rest by (cases "findById (ak_userId k') w1"; cases "fst (findById (ak_userId k') w1)")
      (auto simp: io_bind_run)
  then obtain u where u: "x = Some u" "user_isActive u" "k = k'"
    using rest by (auto simp: io_bind_run split: option.splits if_splits prod.splits sum.splits)
  then have "u \<in> set (users w)" "user_id u = key_userId r"
    using findById_Inr [OF x] r(4,5) first_row_filter [of "\<lambda>u. user_id u = ak_userId k'" "users w1" u]
    by (auto simp: transformSnapshotToData_def)
  then show thesis using that r u by blast
qed

text \<open>An API key is accepted only if a row of the table holds exactly this value, the row
  is active, and its owner is a user of the table who is active; deactivating the account
  turns all its keys off.\<close>

theorem validateApiKey_sound:
  assumes "validateApiKey key w = (Inr (Ok k), w')"
  shows "\<exists>r\<in>set (api_keys w). \<exists>u\<in>set (users w). key_keyValue r = key \<and> key_isActive r
    \<and> user_id u = key_userId r \<and> user_isActive u \<and> k = transformSnapshotToData r"
  using assms by (rule validateApiKey_Ok) blast

definition demo_key :: api_key_row where
  "demo_key = \<lparr>key_id = ''k1'', key_userId = ''id-ann'', key_name = ''ci'', key_keyValue = ''quantflow_00'',
     key_isActive = True, key_lastUsedAt = None, key_createdAt = 0, key_updatedAt = 0\<rparr>"

definition demo_key_world :: world where
  "demo_key_world = demo_world\<lparr>api_keys := [demo_key]\<rparr>"

lemma demo_key_valid:
  "validateApiKey ''quantflow_00'' demo_key_world = (Inr (Ok (transformSnapshotToData demo_key)),
     snd (validateApiKey ''quantflow_00'' demo_key_world))"
  by (simp add: validateApiKey_def findByKey_def or_failure_def updateLastUsed_def io_bind_run io_catch_run
      db_select_calm finds_calm demo_key_world_def demo_world_def demo_key_def transformSnapshotToData_def
      demo_user_def js_now_def db_update_calm db_store_def apiKeysTable_def)

theorem validateApiKey_sound_witness:
  "\<exists>r\<in>set (api_keys demo_key_world). \<exists>u\<in>set (users demo_key_world). key_keyValue r = ''quantflow_00''
    \<and> key_isActive r \<and> user_id u = key_userId r \<and> user_isActive u
    \<and> transformSnapshotToData demo_key = transformSnapshotToData r"
  by (rule validateApiKey_sound [OF demo_key_valid])

text \<open>Names are unique per user among the keys created one after the other.\<close>

definition names_unique :: "world \<Rightarrow> bool" where
  "names_unique w \<longleftrightarrow> distinct (map (\<lambda>k. (key_userId k, key_name k)) (api_keys w))"

text \<open>Creating keys one after the other never gives a user two keys of the same name.\<close>

theorem createApiKey_names_unique:
  assumes "names_unique w"
  shows "names_unique (snd (createApiKey sv userId name w))"
proof -
  let ?ks = "api_keys w"
  obtain r w1 where all: "role_findAll apiKeyTable userId w = (Inr r, w1)" and ks: "api_keys w1 = ?ks"
    and names: "\<And>l. r = Ok l \<Longrightarrow> set l = {k \<in> set ?ks. key_userId k = userId}"
    using key_store.findAll_triple [of ?ks userId] unfolding triple_def
    by (cases "role_findAll apiKeyTable userId w"; cases "fst (role_findAll apiKeyTable userId w)") fastforce+
  show ?thesis
  proof (cases r)
    case (Failure e)
    then show ?thesis
      using all ks assms by (simp add: createApiKey_def findAllKeys_def io_bind_run names_unique_def)
  next
    case (Ok l)
    show ?thesis
    proof (cases "\<exists>k\<in>set l. key_name k = name")
      case True
      then show ?thesis
        using Ok all ks assms
        by (auto simp: createApiKey_def findAllKeys_def io_bind_run names_unique_def transformSnapshotToData_def)
    next
      case False
      define hex where "hex = random_hex sv (nonce w1)"
      let ?w2 = "w1\<lparr>nonce := Suc (nonce w1)\<rparr>"
      let ?mk = "\<lambda>i created updated. \<lparr>key_id = i, key_userId = userId, key_name = name,
         key_keyValue = ''quantflow_'' @ hex, key_isActive = True,
         key_lastUsedAt = None, key_createdAt = created, key_updatedAt = updated\<rparr>"
      have "snd (createApiKey sv userId name w) = snd (role_create sv apiKeyTable ?mk ?w2)"
        using Ok all False
        by (auto simp: createApiKey_def findAllKeys_def repo_createApiKey_def generateApiKey_def draw_def
            hex_def transformSnapshotToData_def io_bind_run case_prod_beta split: sum.splits)
      moreover have "names_unique (snd (role_create sv apiKeyTable ?mk ?w2))"
        unfolding names_unique_def
        using key_store.create_rows [of ?w2 ?ks "\<lambda>ks. distinct (map (\<lambda>k. (key_userId k, key_name k)) ks)" ?mk sv]
          ks assms False names [OF Ok]
        by (fastforce simp: names_unique_def)
      ultimately show ?thesis by simp
    qed
  qed
qed

theorem createApiKey_names_unique_witness:
  "names_unique (snd (createApiKey demo_server ''id-ann'' ''ci'' demo_key_world))"
  by (rule createApiKey_names_unique) (simp add: names_unique_def demo_key_world_def)

end
