(* ===== verification/AuthGuards.thy ===== *)
theory AuthGuards
  imports ApiKeys
begin

text \<open>
  The entry points that accept either kind of credential (auth-combined.guard.ts), the
  passport strategy of the API-key routes (jwt.strategy.ts) and the controller of the
  authentication routes (auth.controller.ts).
\<close>

section \<open>The combined guard\<close>

definition validateJwtToken :: "server \<Rightarrow> string \<Rightarrow> (world, authenticated_user) io" where
  "validateJwtToken sv token = io_bind (validateToken sv token) (\<lambda>r. case r of
      Failure msg \<Rightarrow> io_throw (Http 401 msg)
    | Ok user \<Rightarrow> io_return (toAuthenticatedJwtUser user))"

definition api_key_user :: "api_key \<Rightarrow> authenticated_user" where
  "api_key_user k = \<lparr>au_uid = ak_userId k, au_id = ak_userId k, au_username = [], au_email = [],
     au_firstName = None, au_lastName = None, au_isActive = True, au_isEmailVerified = True,
     au_role = USER, au_authType = ''apikey''\<rparr>"

definition guard_validateApiKey :: "string \<Rightarrow> (world, authenticated_user) io" where
  "guard_validateApiKey apiKey = io_bind (validateApiKey apiKey) (\<lambda>r. case r of
      Failure msg \<Rightarrow> io_throw (Http 401 msg)
    | Ok k \<Rightarrow> io_return (api_key_user k))"

definition combined_canActivate :: "server \<Rightarrow> string option \<Rightarrow> (world, authenticated_user) io" where
  "combined_canActivate sv authorization = (case extractAuthHeaderToken authorization ''Bearer'' of
      Some jwtToken \<Rightarrow> validateJwtToken sv jwtToken
    | None \<Rightarrow> (case extractAuthHeaderToken authorization ''ApiKey'' of
         Some apiKey \<Rightarrow> guard_validateApiKey apiKey
       | None \<Rightarrow> io_throw (Http 401 ''Authentication required. Provide Bearer JWT token or ApiKey.'')))"

section \<open>The passport strategy\<close>

text \<open>
  The library has checked signature, expiry, issuer and audience; the payload is one this API
  signed. \<open>Number(v) || 0\<close> is the version, 0 when it is absent.
\<close>

definition is_http_401 :: "js_error \<Rightarrow> bool" where
  "is_http_401 e = (case e of Http s _ \<Rightarrow> s = 401 | _ \<Rightarrow> False)"

definition strategy_user :: "user_row \<Rightarrow> authenticated_user" where
  "strategy_user u = \<lparr>au_uid = user_id u, au_id = user_id u, au_username = user_username u,
     au_email = user_email u, au_firstName = or_null (user_firstName u), au_lastName = or_null (user_lastName u),
     au_isActive = user_isActive u, au_isEmailVerified = user_isEmailVerified u, au_role = role_of u,
     au_authType = ''jwt''\<rparr>"

definition strategy_validate :: "jwt_payload \<Rightarrow> (world, authenticated_user) io" where
  "strategy_validate payload =
     (if jp_sub payload = [] then io_throw (Http 401 ''Invalid token payload'')
      else io_catch
        (io_bind (findById (jp_sub payload)) (\<lambda>user. case user of
            None \<Rightarrow> io_throw (Http 401 ''User not found'')
          | Some u \<Rightarrow>
              if \<not> user_isActive u then io_throw (Http 401 ''User inactive'')
              else if given (jp_sessionVersion payload) 0 \<noteq> user_sessionVersion u
                then io_throw (Http 401 ''Token has been invalidated'')
              else io_return (strategy_user u)))
        (\<lambda>e. if is_http_401 e then io_throw e else io_throw (Http 401 ''Token validation failed'')))"

section \<open>The controller\<close>

definition unwrap_401 :: "('a, string) result \<Rightarrow> (world, 'a) io" where
  "unwrap_401 r = (case r of Failure msg \<Rightarrow> io_throw (Http 401 msg) | Ok x \<Rightarrow> io_return x)"

definition post_login :: "server \<Rightarrow> string \<Rightarrow> string \<Rightarrow> (world, string \<times> auth_user) io" where
  "post_login sv email password = io_bind (login sv email password) unwrap_401"

definition post_validate :: "server \<Rightarrow> string \<Rightarrow> (world, auth_user) io" where
  "post_validate sv token = io_bind (validateToken sv token) unwrap_401"

definition getCurrentUser :: "server \<Rightarrow> string option \<Rightarrow> (world, auth_user) io" where
  "getCurrentUser sv authHeader = (case authHeader of
      None \<Rightarrow> io_throw (Http 401 ''Bearer token is required'')
    | Some h \<Rightarrow>
        if \<not> js_starts_with h ''Bearer '' then io_throw (Http 401 ''Bearer token is required'')
        else io_bind (validateToken sv (drop 7 h)) unwrap_401)"

text \<open>The answer of \<open>validate-api-key\<close>: user, key, name and last use.\<close>

definition get_validate_api_key :: "string option \<Rightarrow> (world, string \<times> string \<times> string \<times> int option) io" where
  "get_validate_api_key authHeader = (case authHeader of
      None \<Rightarrow> io_throw (Http 401 ''Authorization header is required'')
    | Some h \<Rightarrow>
        if h = [] then io_throw (Http 401 ''Authorization header is required'')
        else if \<not> js_starts_with h ''ApiKey '' \<and> \<not> js_starts_with h ''Bearer ''
          then io_throw (Http 401 ''Invalid authorization header format'')
        else io_bind (validateApiKey (drop 7 h)) (\<lambda>r. io_bind (unwrap_401 r) (\<lambda>k.
          io_return (ak_userId k, ak_id k, ak_name k, ak_lastUsedAt k))))"

section \<open>Facts\<close>

lemma jwt_guard_Inr:
  assumes "validateJwtToken sv token w = (Inr who, w')"
  obtains a where "validateToken sv token w = (Inr (Ok a), w')" "who = toAuthenticatedJwtUser a"
  using assms by (auto simp: validateJwtToken_def io_bind_run split: prod.splits sum.splits result.splits)

lemma api_guard_Inr:
  assumes "guard_validateApiKey key w = (Inr who, w')"
  obtains k where "validateApiKey key w = (Inr (Ok k), w')" "who = api_key_user k"
  using assms by (auto simp: guard_validateApiKey_def io_bind_run split: prod.splits sum.splits result.splits)

text \<open>C11. Whoever the combined guard lets in is an active user of the table. With an API key
  the request never has the administrator role, even when the key's owner is one; the role
  can only come with a session token of an administrator.\<close>

theorem combined_guard_sound:
  assumes "combined_canActivate sv authorization w = (Inr who, w')"
  shows "\<exists>u\<in>set (users w). user_isActive u \<and> au_uid who = user_id u
    \<and> (au_role who = ADMIN \<longrightarrow> user_role u = role_value ADMIN \<and> au_authType who = ''jwt''
         \<and> extractAuthHeaderToken authorization ''Bearer'' \<noteq> None)"
proof (cases "extractAuthHeaderToken authorization ''Bearer''")
  case (Some token)
  then obtain a where a: "validateToken sv token w = (Inr (Ok a), w')" "who = toAuthenticatedJwtUser a"
    using assms by (auto simp: combined_canActivate_def elim: jwt_guard_Inr)
  obtain payload now u where "u \<in> set (users w)" "token_good payload u" "a = toAuthUser sv u"
    using a(1) by (rule validateToken_Ok)
  then show ?thesis
    using a(2) Some by (intro bexI [of _ u])
      (auto simp: toAuthenticatedJwtUser_def toAuthUser_def token_good_def role_of_def split: if_splits)
next
  case None
  then obtain key k where k: "validateApiKey key w = (Inr (Ok k), w')" "who = api_key_user k"
    using assms by (auto simp: combined_canActivate_def split: option.splits elim: api_guard_Inr)
  obtain r u where "u \<in> set (users w)" "user_id u = key_userId r" "user_isActive u"
    "k = transformSnapshotToData r"
    using k(1) by (rule validateApiKey_Ok)
  then show ?thesis
    using k(2) by (intro bexI [of _ u]) (auto simp: api_key_user_def transformSnapshotToData_def)
qed

theorem combined_guard_sound_witness:
  "\<exists>u\<in>set (users demo_world). user_isActive u \<and> au_uid (toAuthenticatedJwtUser (toAuthUser demo_auth demo_root)) = user_id u
    \<and> (au_role (toAuthenticatedJwtUser (toAuthUser demo_auth demo_root)) = ADMIN \<longrightarrow> user_role u = role_value ADMIN
         \<and> au_authType (toAuthenticatedJwtUser (toAuthUser demo_auth demo_root)) = ''jwt''
         \<and> extractAuthHeaderToken (Some ''Bearer t'') ''Bearer'' \<noteq> None)"
proof (rule combined_guard_sound)
  have "extractAuthHeaderToken (Some ''Bearer t'') ''Bearer'' = Some ''t''"
    by (simp add: extractAuthHeaderToken_def nth_opt_def)
  then show "combined_canActivate demo_auth (Some ''Bearer t'') demo_world =
      (Inr (toAuthenticatedJwtUser (toAuthUser demo_auth demo_root)), snd (js_now demo_world))"
    by (simp add: combined_canActivate_def validateJwtToken_def io_bind_run demo_validate)
qed

text \<open>The two implementations of the session check agree where the database answers: the
  passport strategy lets in exactly the users the token service does.\<close>

text \<open>When the database answers, the passport strategy and the token service accept the
  same payloads, as the same request user.\<close>

theorem strategy_agrees_with_token_service:
  assumes "faults w = []" "\<And>t. jwt_verify sv token t = Inr payload" "jp_sub payload \<noteq> []"
  shows "(\<exists>who. fst (strategy_validate payload w) = Inr who) = (\<exists>a. fst (validateToken sv token w) = Inr (Ok a))
    \<and> (\<forall>a. fst (validateToken sv token w) = Inr (Ok a) \<longrightarrow>
         fst (strategy_validate payload w) = Inr (toAuthenticatedJwtUser a))"
proof -
  obtain c w1 where js: "js_now w = (Inr c, w1)" "users w1 = users w" "faults w1 = faults w"
    by (rule js_nowE)
  have same: "toAuthenticatedJwtUser (toAuthUser sv u) = strategy_user u" for u
    by (simp add: toAuthenticatedJwtUser_def toAuthUser_def strategy_user_def)
  show ?thesis
    using assms js
    by (cases "first_row (filter (\<lambda>u. user_id u = jp_sub payload) (users w))")
      (auto simp: strategy_validate_def validateToken_def io_catch_run io_bind_run finds_calm same)
qed

theorem strategy_agrees_with_token_service_witness:
  "fst (strategy_validate (token_payload demo_auth demo_root) demo_world)
     = Inr (toAuthenticatedJwtUser (toAuthUser demo_auth demo_root))"
  using strategy_agrees_with_token_service [of demo_world demo_auth "''t''" "token_payload demo_auth demo_root"]
  by (simp add: demo_auth_sel demo_world_facts demo_validate token_payload_def demo_root_facts)

end
