(* ===== verification/RevisionRepository.thy ===== *)
theory RevisionRepository
  imports RoleRepository
begin

text \<open>
  api/src/common/role-revision.repository.ts: rows that belong to a user and are revisions of
  a key. The locale \<open>revision_store\<close> extends the contract of \<open>role_store\<close>.
\<close>

section \<open>The class\<close>

record 'r revision_table = "'r role_table" +
  rv_key :: "'r \<Rightarrow> string"
  rv_version :: "'r \<Rightarrow> string"

definition rev_create :: "server \<Rightarrow> 'r revision_table \<Rightarrow> (string \<Rightarrow> int \<Rightarrow> int \<Rightarrow> 'r) \<Rightarrow> (world, ('r, string) result) io" where
  "rev_create sv vt mk = or_failure
     (io_bind js_now (\<lambda>createdAt. io_bind js_now (\<lambda>updatedAt. io_bind (draw (createId sv)) (\<lambda>i.
      io_bind (db_insert (rt_table vt) (mk i createdAt updatedAt)) (\<lambda>r. io_return (Ok r))))))"

text \<open>Three shapes of query: all matches, newest first; the only match; the newest match.\<close>

definition rev_many :: "'r revision_table \<Rightarrow> ('r \<Rightarrow> bool) \<Rightarrow> (world, ('r list, string) result) io" where
  "rev_many vt P = or_failure (io_bind (db_select (rt_table vt) P) (\<lambda>records.
     io_return (Ok (order_desc (rt_createdAt vt) records))))"

definition rev_one :: "'r revision_table \<Rightarrow> ('r \<Rightarrow> bool) \<Rightarrow> (world, ('r, string) result) io" where
  "rev_one vt P = or_failure (io_bind (db_select (rt_table vt) P) (\<lambda>records.
     case records of [] \<Rightarrow> io_return (Failure ''Not found'') | r # _ \<Rightarrow> io_return (Ok r)))"

definition rev_newest :: "'r revision_table \<Rightarrow> ('r \<Rightarrow> bool) \<Rightarrow> (world, ('r, string) result) io" where
  "rev_newest vt P = or_failure (io_bind (db_select (rt_table vt) P) (\<lambda>records.
     case take 1 (order_desc (rt_createdAt vt) records) of
       [] \<Rightarrow> io_return (Failure ''Not found'') | r # _ \<Rightarrow> io_return (Ok r)))"

definition rev_findAll :: "'r revision_table \<Rightarrow> string \<Rightarrow> (world, ('r list, string) result) io" where
  "rev_findAll vt userId = (if userId = [] then io_return (Failure ''User ID is required'')
     else rev_many vt (\<lambda>r. rt_userId vt r = userId))"

definition rev_findOne :: "'r revision_table \<Rightarrow> string \<Rightarrow> string \<Rightarrow> (world, ('r, string) result) io" where
  "rev_findOne vt userId i = rev_one vt (\<lambda>r. rt_userId vt r = userId \<and> rt_id vt r = i)"

definition rev_findOneById :: "'r revision_table \<Rightarrow> string \<Rightarrow> (world, ('r, string) result) io" where
  "rev_findOneById vt i = rev_one vt (\<lambda>r. rt_id vt r = i)"

definition rev_update :: "'r revision_table \<Rightarrow> string \<Rightarrow> string \<Rightarrow> ('r \<Rightarrow> 'r) \<Rightarrow> (world, ('r, string) result) io" where
  "rev_update vt userId i args = or_failure (io_bind js_now (\<lambda>now.
     io_bind (db_update (rt_table vt) (\<lambda>r. rt_userId vt r = userId \<and> rt_id vt r = i)
        (\<lambda>r. rt_touch vt now (args r))) (\<lambda>_. rev_findOne vt userId i)))"

definition rev_remove :: "'r revision_table \<Rightarrow> string \<Rightarrow> string \<Rightarrow> (world, (unit, string) result) io" where
  "rev_remove vt userId i = or_failure
     (io_bind (db_delete (rt_table vt) (\<lambda>r. rt_userId vt r = userId \<and> rt_id vt r = i)) (\<lambda>_. io_return (Ok ())))"

definition rev_findByKey :: "'r revision_table \<Rightarrow> string \<Rightarrow> string \<Rightarrow> (world, ('r list, string) result) io" where
  "rev_findByKey vt userId key = rev_many vt (\<lambda>r. rt_userId vt r = userId \<and> rv_key vt r = key)"

definition rev_findByKeyAndVersion :: "'r revision_table \<Rightarrow> string \<Rightarrow> string \<Rightarrow> string \<Rightarrow> (world, ('r, string) result) io" where
  "rev_findByKeyAndVersion vt userId key version =
     rev_one vt (\<lambda>r. rt_userId vt r = userId \<and> rv_key vt r = key \<and> rv_version vt r = version)"

definition rev_getLatestVersion :: "'r revision_table \<Rightarrow> string \<Rightarrow> string \<Rightarrow> (world, ('r, string) result) io" where
  "rev_getLatestVersion vt userId key = rev_newest vt (\<lambda>r. rt_userId vt r = userId \<and> rv_key vt r = key)"

definition rev_getGlobalLatestVersion :: "'r revision_table \<Rightarrow> string \<Rightarrow> (world, ('r, string) result) io" where
  "rev_getGlobalLatestVersion vt key = rev_newest vt (\<lambda>r. rv_key vt r = key)"

definition rev_findGlobalByKey :: "'r revision_table \<Rightarrow> string \<Rightarrow> (world, ('r list, string) result) io" where
  "rev_findGlobalByKey vt key = rev_many vt (\<lambda>r. rv_key vt r = key)"

definition rev_globalKeyExists :: "'r revision_table \<Rightarrow> string \<Rightarrow> (world, (bool, string) result) io" where
  "rev_globalKeyExists vt key = io_bind (rev_findGlobalByKey vt key) (\<lambda>r. case r of
      Failure e \<Rightarrow> io_return (Failure e) | Ok rs \<Rightarrow> io_return (Ok (length rs > 0)))"

definition rev_findGlobalByKeyAndVersion :: "'r revision_table \<Rightarrow> string \<Rightarrow> string \<Rightarrow> (world, ('r, string) result) io" where
  "rev_findGlobalByKeyAndVersion vt key version =
     rev_one vt (\<lambda>r. rv_key vt r = key \<and> rv_version vt r = version)"

section \<open>Reads\<close>

text \<open>
  The three shapes never reject; their answers, from a world with the rows \<open>rs\<close>, are those of
  the functions below, or a failure.
\<close>

lemma rev_never_rejects:
  "never_rejects (rev_many vt P)" "never_rejects (rev_one vt P)" "never_rejects (rev_newest vt P)"
  "never_rejects (rev_create sv vt mk)" "never_rejects (rev_remove vt u i)"
  unfolding rev_many_def rev_one_def rev_newest_def rev_create_def rev_remove_def
  by (rule or_failure_never_rejects)+

lemma order_desc_Nil [simp]: "order_desc k rs = [] \<longleftrightarrow> rs = []"
  by (metis order_desc_set set_empty)

lemma order_desc_hd:
  assumes "rs \<noteq> []"
  shows "hd (order_desc k rs) \<in> set rs \<and> (\<forall>x\<in>set rs. k x \<le> k (hd (order_desc k rs)))"
proof -
  obtain y ys where y: "order_desc k rs = y # ys" using assms by (cases "order_desc k rs") auto
  then have "\<forall>x\<in>set ys. k x \<le> k y" using order_desc_sorted [of k rs] by simp
  moreover have "set rs = insert y (set ys)" using y by (metis list.simps(15) order_desc_set)
  ultimately show ?thesis using y by auto
qed

text \<open>Without failures the answers are those of the rows, and the world stays.\<close>

lemma rev_reads_calm:
  assumes "faults w = []"
  shows "rev_many vt P w = (Inr (Ok (order_desc (rt_createdAt vt) (filter P (t_rows (rt_table vt) w)))), w)"
    and "rev_one vt P w = (Inr (case filter P (t_rows (rt_table vt) w) of
        [] \<Rightarrow> Failure ''Not found'' | r # _ \<Rightarrow> Ok r), w)"
    and "rev_newest vt P w = (Inr (case order_desc (rt_createdAt vt) (filter P (t_rows (rt_table vt) w)) of
        [] \<Rightarrow> Failure ''Not found'' | r # _ \<Rightarrow> Ok r), w)"
    and "rev_remove vt u i w = (Inr (Ok ()), snd (db_delete (rt_table vt) (\<lambda>r. rt_userId vt r = u \<and> rt_id vt r = i) w))"
  using assms unfolding rev_many_def rev_one_def rev_newest_def rev_remove_def or_failure_def
  by (simp_all add: io_catch_run io_bind_run db_select_calm db_delete_calm order_desc_def split: list.split)

section \<open>The laws\<close>

text \<open>
  The contract of \<open>role_store\<close> for the table seen without key and version, and writes that
  only touch the time stamp.
\<close>

locale revision_store = base: role_store "role_table.truncate vt"
  for vt :: "'r revision_table" +
  assumes key_touch: "rv_key vt (rt_touch vt now r) = rv_key vt r"
    and version_touch: "rv_version vt (rt_touch vt now r) = rv_version vt r"
    and put_env: "t_rows (rt_table vt) (t_put (rt_table vt) rs w) = rs"
begin

lemma truncate_table [simp]: "rt_table (role_table.truncate vt) = rt_table vt"
  by (simp add: role_table.truncate_def)

abbreviation table_rows :: "world \<Rightarrow> 'r list" where
  "table_rows \<equiv> t_rows (rt_table vt)"

lemma env_free_table: "env_free (\<lambda>w. table_rows w = rs)"
  using base.env_free_rows by simp

lemma select_table:
  assumes "db_select (rt_table vt) P w = (Inr rs, w')"
  shows "rs = filter P (table_rows w)"
  using base.select_rows [of P w rs w'] assms by simp

lemma reads_keep_table:
  "preserves (\<lambda>w. table_rows w = rs) (rev_many vt P)" "preserves (\<lambda>w. table_rows w = rs) (rev_one vt P)"
  "preserves (\<lambda>w. table_rows w = rs) (rev_newest vt P)"
  unfolding rev_many_def rev_one_def rev_newest_def
  by (intro preserves_or_failure preserves_bind preserves_select env_free_table;
      auto intro: preserves_return split: list.split)+

lemma many_sound:
  assumes "rev_many vt P w = (Inr (Ok rs), w')"
  shows "rs = order_desc (rt_createdAt vt) (filter P (table_rows w)) \<and> table_rows w' = table_rows w"
proof -
  obtain xs where "db_select (rt_table vt) P w = (Inr xs, w')" "rs = order_desc (rt_createdAt vt) xs"
    using assms unfolding rev_many_def or_failure_Ok by (auto simp: io_bind_run split: prod.splits sum.splits)
  moreover have "table_rows w' = table_rows w"
    using preservesD [where I = "\<lambda>x. table_rows x = table_rows w", OF reads_keep_table(1) refl] assms by (metis snd_conv)
  ultimately show ?thesis using select_table by metis
qed

lemma one_sound:
  assumes "rev_one vt P w = (Inr (Ok r), w')"
  shows "r \<in> set (table_rows w) \<and> P r \<and> table_rows w' = table_rows w"
proof -
  obtain xs where "db_select (rt_table vt) P w = (Inr (r # xs), w')"
    using assms unfolding rev_one_def or_failure_Ok
    by (auto simp: io_bind_run split: prod.splits sum.splits list.splits)
  then have "r # xs = filter P (table_rows w)" by (rule select_table)
  then have "r \<in> set (filter P (table_rows w))" by (metis list.set_intros(1))
  moreover have "table_rows w' = table_rows w"
    using preservesD [where I = "\<lambda>x. table_rows x = table_rows w", OF reads_keep_table(2) refl] assms by (metis snd_conv)
  ultimately show ?thesis by simp
qed

text \<open>The newest revision is a match, and none was created after it.\<close>

lemma newest_sound:
  assumes "rev_newest vt P w = (Inr (Ok r), w')"
  shows "r \<in> set (table_rows w) \<and> P r
    \<and> (\<forall>x\<in>set (table_rows w). P x \<longrightarrow> rt_createdAt vt x \<le> rt_createdAt vt r) \<and> table_rows w' = table_rows w"
proof -
  obtain xs where sel: "db_select (rt_table vt) P w = (Inr xs, w')"
    and r: "xs \<noteq> []" "r = hd (order_desc (rt_createdAt vt) xs)"
    using assms unfolding rev_newest_def or_failure_Ok
    by (auto simp: io_bind_run split: prod.splits sum.splits list.splits)
      (metis hd_conv_nth list.sel(1) list.simps(3) nth_Cons_0 order_desc_Nil take_Suc list.inject One_nat_def take_eq_Nil)+
  have "table_rows w' = table_rows w"
    using preservesD [where I = "\<lambda>x. table_rows x = table_rows w", OF reads_keep_table(3) refl] assms by (metis snd_conv)
  then show ?thesis
    using order_desc_hd [OF r(1), of "rt_createdAt vt"] select_table [OF sel] r by auto
qed

lemma remove_rows:
  assumes "rev_remove vt userId i w = (Inr (Ok ()), w')"
  shows "table_rows w' = filter (\<lambda>r. \<not> (rt_userId vt r = userId \<and> rt_id vt r = i)) (table_rows w)"
  using assms unfolding rev_remove_def or_failure_Ok
  using base.cascade_rows base.rows_env(1)
  by (auto simp: io_bind_run db_delete_def external_def put_env
      split: prod.splits sum.splits list.splits fault.splits)

lemma create_table_rows:
  assumes "table_rows w = rs" "Q rs" "\<And>i c u. Q (rs @ [mk i c u])"
  shows "Q (table_rows (snd (rev_create sv vt mk w)))"
  using base.create_rows [of w rs Q mk sv] assms
  by (simp add: rev_create_def role_create_def)

end

end
