(* ===== verification/Storage.thy ===== *)
theory Storage
  imports RevisionRepository
begin

text \<open>
  api/src/custom-bot/storage.service.ts over the object store of the world. The five calls of
  the MinIO client that it makes come first: each is one external call, objects are kept in
  the order they were stored; the error that each way of reading a missing object fails with is
  the client's, a parameter.
\<close>

section \<open>The object store\<close>

definition getObject :: "server \<Rightarrow> string \<Rightarrow> string \<Rightarrow> (world, string) io" where
  "getObject sv bucket key = external (\<lambda>w. case map_of (objects w) (bucket, key) of
      Some ob \<Rightarrow> (Inr (so_data ob), w)
    | None \<Rightarrow> (Inl (get_missing sv key), w))"

definition statObject :: "server \<Rightarrow> string \<Rightarrow> string \<Rightarrow> (world, nat \<times> string) io" where
  "statObject sv bucket key = external (\<lambda>w. case map_of (objects w) (bucket, key) of
      Some ob \<Rightarrow> (Inr (length (so_data ob), so_etag ob), w)
    | None \<Rightarrow> (Inl (stat_missing sv key), w))"

definition putObject :: "server \<Rightarrow> string \<Rightarrow> string \<Rightarrow> string \<Rightarrow> (world, unit) io" where
  "putObject sv bucket key data = external (io_modify (\<lambda>w.
     w\<lparr>objects := AList.update (bucket, key) \<lparr>so_data = data, so_etag = etag_of sv data\<rparr> (objects w)\<rparr>))"

definition removeObject :: "string \<Rightarrow> string \<Rightarrow> (world, unit) io" where
  "removeObject bucket key = external (io_modify (\<lambda>w. w\<lparr>objects := AList.delete (bucket, key) (objects w)\<rparr>))"

definition keys_with_prefix :: "string \<Rightarrow> string \<Rightarrow> world \<Rightarrow> string list" where
  "keys_with_prefix bucket p w =
     map (\<lambda>e. snd (fst e)) (filter (\<lambda>e. fst (fst e) = bucket \<and> prefix p (snd (fst e))) (objects w))"

definition client_listObjects :: "string \<Rightarrow> string \<Rightarrow> (world, string list) io" where
  "client_listObjects bucket p = external (io_get (keys_with_prefix bucket p))"

section \<open>The service\<close>

text \<open>\<open>catch (error) { return Failure(`...: ${error.message}`) }\<close>\<close>

definition or_failure_with :: "string \<Rightarrow> (world, ('a, string) result) io \<Rightarrow> (world, ('a, string) result) io" where
  "or_failure_with msg m = io_catch m (\<lambda>e. io_return (Failure (msg @ '': '' @ errorMessage e)))"

definition missing_object :: "js_error \<Rightarrow> bool" where
  "missing_object e \<longleftrightarrow> error_code e = Some ''NoSuchKey'' \<or> js_includes (errorMessage e) ''does not exist''"

definition fileExists :: "server \<Rightarrow> string \<Rightarrow> (world, (bool, string) result) io" where
  "fileExists sv filePath = io_catch
     (io_bind (statObject sv (bots_bucket sv) filePath) (\<lambda>_. io_return (Ok True)))
     (\<lambda>e. io_return (if missing_object e then Ok False
        else Failure (''Error checking file existence: '' @ errorMessage e)))"

definition getFileInfo :: "server \<Rightarrow> string \<Rightarrow> (world, (nat \<times> string, string) result) io" where
  "getFileInfo sv filePath = or_failure_with ''Error getting file info''
     (io_bind (statObject sv (bots_bucket sv) filePath) (\<lambda>stat. io_return (Ok stat)))"

definition getObjectMetadata :: "server \<Rightarrow> string \<Rightarrow> (world, (nat \<times> string, string) result) io" where
  "getObjectMetadata sv filePath = or_failure_with ''Error getting object metadata''
     (io_bind (statObject sv (bots_bucket sv) filePath) (\<lambda>stat. io_return (Ok stat)))"

definition parse_zip :: "server \<Rightarrow> string \<Rightarrow> (world, (string \<times> string) list) io" where
  "parse_zip sv buffer = (case zip_entries sv buffer of Inl e \<Rightarrow> io_throw e | Inr entries \<Rightarrow> io_return entries)"

definition missing_file :: "(string \<times> string) list \<Rightarrow> string list \<Rightarrow> string option" where
  "missing_file entries requiredFiles = find (\<lambda>f. f \<notin> fst ` set entries) requiredFiles"

definition validateZipStructure :: "server \<Rightarrow> string \<Rightarrow> string list \<Rightarrow> (world, (bool, string) result) io" where
  "validateZipStructure sv filePath requiredFiles = or_failure_with ''Error validating ZIP structure''
     (io_bind (getObject sv (bots_bucket sv) filePath) (\<lambda>buffer.
      io_bind (parse_zip sv buffer) (\<lambda>entries.
      case missing_file entries requiredFiles of
        Some f \<Rightarrow> io_return (Failure (''Required file missing: '' @ f))
      | None \<Rightarrow> io_return (Ok True))))"

definition uploadBotFile :: "server \<Rightarrow> string \<Rightarrow> string \<Rightarrow> string \<Rightarrow> string \<Rightarrow> (world, (string, string) result) io" where
  "uploadBotFile sv content fileName userId botName = or_failure_with ''Error uploading file''
     (let filePath = userId @ ''/'' @ botName @ ''/'' @ fileName in
      io_bind (putObject sv (bots_bucket sv) filePath content) (\<lambda>_. io_return (Ok filePath)))"

definition downloadFile :: "server \<Rightarrow> string \<Rightarrow> (world, (string, string) result) io" where
  "downloadFile sv filePath = or_failure_with ''Error downloading file''
     (io_bind (getObject sv (bots_bucket sv) filePath) (\<lambda>buffer. io_return (Ok buffer)))"

definition deleteFile :: "server \<Rightarrow> string \<Rightarrow> (world, (unit, string) result) io" where
  "deleteFile sv filePath = or_failure_with ''Error deleting file''
     (io_bind (removeObject (bots_bucket sv) filePath) (\<lambda>_. io_return (Ok ())))"

definition listObjects :: "server \<Rightarrow> string \<Rightarrow> (world, (string list, string) result) io" where
  "listObjects sv p = or_failure_with ''Error listing objects''
     (io_bind (client_listObjects (bots_bucket sv) p) (\<lambda>names. io_return (Ok names)))"

definition getBotFrontendStream :: "server \<Rightarrow> string \<Rightarrow> (world, (string, string) result) io" where
  "getBotFrontendStream sv frontendPath = io_catch
     (io_bind (getObject sv (bots_bucket sv) frontendPath) (\<lambda>stream. io_return (Ok stream)))
     (\<lambda>e. io_return (Failure (if missing_object e then ''Frontend bundle not found''
        else ''Error retrieving frontend bundle: '' @ errorMessage e)))"

definition frontend_paths :: "string list" where
  "frontend_paths = [''frontend/dist/bundle.js'', ''frontend/dist/index.js'', ''frontend/bundle.js'',
     ''frontend.js'', ''dist/frontend.js'']"

text \<open>The first path, in this order, that the archive has an entry for.\<close>

fun first_entry :: "(string \<times> string) list \<Rightarrow> string list \<Rightarrow> (string \<times> string) option" where
  "first_entry entries [] = None"
| "first_entry entries (p # ps) = (case find (\<lambda>e. fst e = p) entries of
     Some e \<Rightarrow> Some e | None \<Rightarrow> first_entry entries ps)"

definition getFrontendPath :: "string \<Rightarrow> string \<Rightarrow> string \<Rightarrow> string" where
  "getFrontendPath userId botName version = userId @ ''/'' @ botName @ ''/'' @ version @ ''/frontend.js''"

definition extractAndStoreFrontend :: "server \<Rightarrow> string \<Rightarrow> string \<Rightarrow> string \<Rightarrow> string \<Rightarrow>
    (world, (string option, string) result) io" where
  "extractAndStoreFrontend sv zipFilePath userId botName version =
     or_failure_with ''Error extracting frontend bundle''
     (io_bind (getObject sv (bots_bucket sv) zipFilePath) (\<lambda>buffer.
      io_bind (parse_zip sv buffer) (\<lambda>entries.
      case first_entry entries frontend_paths of
        None \<Rightarrow> io_return (Ok None)
      | Some e \<Rightarrow>
          io_bind (putObject sv (bots_bucket sv) (getFrontendPath userId botName version) (snd e)) (\<lambda>_.
          io_return (Ok (Some (getFrontendPath userId botName version)))))))"

fun remove_all :: "string \<Rightarrow> string list \<Rightarrow> nat \<Rightarrow> (world, nat) io" where
  "remove_all bucket [] n = io_return n"
| "remove_all bucket (k # ks) n = io_bind (removeObject bucket k) (\<lambda>_. remove_all bucket ks (Suc n))"

definition deletePrefixFromBucket :: "server \<Rightarrow> string \<Rightarrow> string \<Rightarrow> (world, (nat, string) result) io" where
  "deletePrefixFromBucket sv bucket p = or_failure_with ''Error deleting objects with prefix''
     (io_bind (client_listObjects bucket p) (\<lambda>names.
      io_bind (remove_all bucket names 0) (\<lambda>deletedCount. io_return (Ok deletedCount))))"

section \<open>Facts\<close>

text \<open>Only the object store is touched.\<close>

definition store_free :: "(world \<Rightarrow> bool) \<Rightarrow> bool" where
  "store_free I \<longleftrightarrow> env_free I \<and> (\<forall>w obs. I (w\<lparr>objects := obs\<rparr>) = I w)"

lemma store_freeD: "store_free I \<Longrightarrow> env_free I" "store_free I \<Longrightarrow> I (w\<lparr>objects := obs\<rparr>) = I w"
  by (auto simp: store_free_def)

lemma preserves_client:
  assumes "store_free I"
  shows "preserves I (getObject sv b k)" "preserves I (statObject sv b k)" "preserves I (putObject sv b k d)"
    "preserves I (removeObject b k)" "preserves I (client_listObjects b p)"
  unfolding getObject_def statObject_def putObject_def removeObject_def client_listObjects_def
  by (rule preserves_external [OF store_freeD(1) [OF assms]];
      simp add: preserves_def store_freeD(2) [OF assms] split: option.split)+

lemma preserves_or_failure_with: "preserves I m \<Longrightarrow> preserves I (or_failure_with msg m)"
  unfolding or_failure_with_def by (intro preserves_catch preserves_return)

lemma preserves_parse_zip: "preserves I (parse_zip sv b)"
  by (auto simp: parse_zip_def intro: preserves_throw preserves_return split: sum.split)

lemma preserves_remove_all: "store_free I \<Longrightarrow> preserves I (remove_all b ks n)"
  by (induction ks arbitrary: n) (simp_all add: preserves_return preserves_bind preserves_client)

lemma preserves_storage:
  assumes "store_free I"
  shows "preserves I (fileExists sv p)" "preserves I (validateZipStructure sv p req)"
    "preserves I (uploadBotFile sv c f u b)" "preserves I (deleteFile sv p)" "preserves I (listObjects sv p)"
    "preserves I (extractAndStoreFrontend sv z u b v)"
  unfolding fileExists_def validateZipStructure_def uploadBotFile_def deleteFile_def listObjects_def
    extractAndStoreFrontend_def Let_def
  by (intro preserves_or_failure_with preserves_catch preserves_bind preserves_return preserves_parse_zip
      preserves_option preserves_client [OF assms])+

lemma or_failure_with_never_rejects: "never_rejects (or_failure_with msg m)"
  unfolding or_failure_with_def by (rule never_rejects_catch, rule never_rejects_return)

lemma storage_never_rejects:
  "never_rejects (fileExists sv p)" "never_rejects (validateZipStructure sv p req)"
  "never_rejects (deleteFile sv p)" "never_rejects (listObjects sv p)"
  "never_rejects (extractAndStoreFrontend sv z u b v)" "never_rejects (deletePrefixFromBucket sv b p)"
  unfolding validateZipStructure_def deleteFile_def listObjects_def extractAndStoreFrontend_def
    deletePrefixFromBucket_def
  by (rule or_failure_with_never_rejects | simp add: fileExists_def never_rejects_catch never_rejects_return)+

text \<open>Upload and download; the archive check finds exactly the archives that have every file.\<close>

lemma client_calm [io_simps]:
  assumes "faults w = []"
  shows "getObject sv b k w = (case map_of (objects w) (b, k) of Some ob \<Rightarrow> (Inr (so_data ob), w)
      | None \<Rightarrow> (Inl (get_missing sv k), w))"
    and "putObject sv b k d w =
      (Inr (), w\<lparr>objects := AList.update (b, k) \<lparr>so_data = d, so_etag = etag_of sv d\<rparr> (objects w)\<rparr>)"
    and "removeObject b k w = (Inr (), w\<lparr>objects := AList.delete (b, k) (objects w)\<rparr>)"
    and "client_listObjects b p w = (Inr (keys_with_prefix b p w), w)"
  using assms by (simp_all add: getObject_def putObject_def removeObject_def client_listObjects_def external_calm)

lemma upload_download:
  assumes "faults w = []"
  shows "\<exists>w1. uploadBotFile sv content fileName userId botName w
      = (Inr (Ok (userId @ ''/'' @ botName @ ''/'' @ fileName)), w1)
    \<and> fst (downloadFile sv (userId @ ''/'' @ botName @ ''/'' @ fileName) w1) = Inr (Ok content)"
  using assms by (simp add: uploadBotFile_def downloadFile_def or_failure_with_def io_bind_run io_catch_run
      client_calm update_conv' Let_def)

lemma zip_check:
  assumes "faults w = []" "map_of (objects w) (bots_bucket sv, p) = Some ob" "zip_entries sv (so_data ob) = Inr entries"
  shows "fst (validateZipStructure sv p req w) = Inr (Ok True) \<longleftrightarrow> set req \<subseteq> fst ` set entries"
proof -
  have "missing_file entries req = None \<longleftrightarrow> set req \<subseteq> fst ` set entries"
    by (auto simp: missing_file_def find_None_iff)
  then show ?thesis
    using assms by (auto simp: validateZipStructure_def or_failure_with_def io_bind_run io_catch_run
        client_calm parse_zip_def split: option.splits)
qed

text \<open>Deleting by prefix removes exactly the objects of the bucket under the prefix.\<close>

lemma remove_all_calm:
  "faults w = [] \<Longrightarrow> remove_all b ks n w =
     (Inr (n + length ks), w\<lparr>objects := filter (\<lambda>e. \<not> (fst (fst e) = b \<and> snd (fst e) \<in> set ks)) (objects w)\<rparr>)"
proof (induction ks arbitrary: n w)
  case (Cons k ks)
  have "filter (\<lambda>e. \<not> (fst (fst e) = b \<and> snd (fst e) \<in> set ks)) (AList.delete (b, k) (objects w))
      = filter (\<lambda>e. \<not> (fst (fst e) = b \<and> snd (fst e) \<in> set (k # ks))) (objects w)"
    by (auto simp: AList.delete_eq intro!: filter_cong)
  then show ?case
    using Cons by (simp add: io_bind_run client_calm)
qed simp

lemma delete_prefix:
  assumes "faults w = []"
  shows "deletePrefixFromBucket sv b p w = (Inr (Ok (length (keys_with_prefix b p w))),
     w\<lparr>objects := filter (\<lambda>e. \<not> (fst (fst e) = b \<and> prefix p (snd (fst e)))) (objects w)\<rparr>)"
proof -
  have "filter (\<lambda>e. \<not> (fst (fst e) = b \<and> snd (fst e) \<in> set (keys_with_prefix b p w))) (objects w)
      = filter (\<lambda>e. \<not> (fst (fst e) = b \<and> prefix p (snd (fst e)))) (objects w)"
    by (force simp: keys_with_prefix_def intro!: filter_cong)
  then show ?thesis
    using assms by (simp add: deletePrefixFromBucket_def or_failure_with_def io_bind_run io_catch_run
        client_calm remove_all_calm)
qed

end
