(* ===== verification/CustomBotRepository.thy ===== *)
theory CustomBotRepository
  imports Storage UserRepository "HOL-Library.Multiset"
begin

text \<open>
  api/src/custom-bot/custom-bot.repository.ts: the versions of the uploaded bots, an instance
  of the revision repository, with grouping by name, ownership and instance counts.
\<close>

section \<open>The table\<close>

definition customBotTable :: "custom_bot_row revision_table" where
  "customBotTable = \<lparr>rt_table = customBotsTable, rt_id = cb_id, rt_userId = cb_userId,
     rt_createdAt = cb_createdAt, rt_touch = (\<lambda>now c. c\<lparr>cb_updatedAt := now\<rparr>),
     rv_key = cb_name, rv_version = cb_version\<rparr>"

lemma customBotTable_sel [simp]:
  "rt_table customBotTable = customBotsTable" "rt_id customBotTable = cb_id"
  "rt_userId customBotTable = cb_userId" "rt_createdAt customBotTable = cb_createdAt"
  "rt_touch customBotTable now c = c\<lparr>cb_updatedAt := now\<rparr>"
  "rv_key customBotTable = cb_name" "rv_version customBotTable = cb_version"
  by (simp_all add: customBotTable_def)

lemma customBots_cascade [simp]: "custom_bots (t_cascade customBotsTable gone w) = custom_bots w"
  by (simp add: customBotsTable_def)

interpretation versions: revision_store customBotTable
  by unfold_locales (auto simp: role_table.truncate_def customBotTable_def)

section \<open>Versions and groups\<close>

text \<open>\<open>CustomBotVersion\<close>, \<open>CustomBotWithVersions\<close> and \<open>VersionWithInstances\<close> of custom-bot.types.ts.\<close>

record custom_bot_version =
  bv_id :: string
  bv_version :: string
  bv_config :: custom_bot_config
  bv_userId :: string
  bv_filePath :: string
  bv_status :: string
  bv_createdAt :: int
  bv_updatedAt :: int

record custom_bot_with_versions =
  bw_id :: string
  bw_name :: string
  bw_userId :: string
  bw_latestVersion :: string
  bw_versions :: "custom_bot_version list"
  bw_createdAt :: int
  bw_updatedAt :: int

definition to_version :: "custom_bot_row \<Rightarrow> custom_bot_version" where
  "to_version b = \<lparr>bv_id = cb_id b, bv_version = cb_version b, bv_config = cb_config b,
     bv_userId = cb_userId b, bv_filePath = cb_filePath b, bv_status = cb_status b,
     bv_createdAt = cb_createdAt b, bv_updatedAt = cb_updatedAt b\<rparr>"

text \<open>The summary of a list of versions, newest first and not empty.\<close>

definition with_versions :: "custom_bot_row list \<Rightarrow> custom_bot_with_versions" where
  "with_versions bs = (let latestBot = hd bs in
     \<lparr>bw_id = cb_id latestBot, bw_name = cb_name latestBot, bw_userId = cb_userId latestBot,
      bw_latestVersion = cb_version latestBot, bw_versions = map to_version bs,
      bw_createdAt = cb_createdAt (last bs), bw_updatedAt = cb_updatedAt latestBot\<rparr>)"

text \<open>\<open>botsByName\<close>: a map keeps its keys in insertion order.\<close>

fun add_to_group :: "(string \<times> custom_bot_row list) list \<Rightarrow> custom_bot_row \<Rightarrow> (string \<times> custom_bot_row list) list" where
  "add_to_group groups b = AList.update (cb_name b)
     ((case map_of groups (cb_name b) of None \<Rightarrow> [] | Some bs \<Rightarrow> bs) @ [b]) groups"

definition group_by_name :: "custom_bot_row list \<Rightarrow> (string \<times> custom_bot_row list) list" where
  "group_by_name bs = foldl add_to_group [] bs"

definition summarise :: "custom_bot_row list \<Rightarrow> custom_bot_with_versions list" where
  "summarise bs = order_desc bw_updatedAt
     (map (\<lambda>g. with_versions (order_desc cb_createdAt (snd g))) (group_by_name bs))"

section \<open>Methods\<close>

definition exists_from :: "('a list, string) result \<Rightarrow> (bool, string) result" where
  "exists_from r = (case r of Failure e \<Rightarrow> Failure e | Ok rs \<Rightarrow> Ok (length rs > 0))"

definition userBotExists :: "string \<Rightarrow> string \<Rightarrow> (world, (bool, string) result) io" where
  "userBotExists userId name = io_bind (rev_findByKey customBotTable userId name) (\<lambda>r. io_return (exists_from r))"

definition globalBotExists :: "string \<Rightarrow> (world, (bool, string) result) io" where
  "globalBotExists name = io_bind (rev_findGlobalByKey customBotTable name) (\<lambda>r. io_return (exists_from r))"

definition userVersionExists :: "string \<Rightarrow> string \<Rightarrow> string \<Rightarrow> (world, (bool, string) result) io" where
  "userVersionExists userId name version =
     io_bind (rev_findByKeyAndVersion customBotTable userId name version) (\<lambda>r. io_return (Ok (is_ok r)))"

definition globalVersionExists :: "string \<Rightarrow> string \<Rightarrow> (world, (bool, string) result) io" where
  "globalVersionExists name version =
     io_bind (rev_findGlobalByKeyAndVersion customBotTable name version) (\<lambda>r. io_return (Ok (is_ok r)))"

definition getUserCustomBots :: "string \<Rightarrow> (world, (custom_bot_with_versions list, string) result) io" where
  "getUserCustomBots userId = io_bind (rev_findAll customBotTable userId) (\<lambda>r. case r of
      Failure e \<Rightarrow> io_return (Failure e) | Ok bs \<Rightarrow> io_return (Ok (summarise bs)))"

definition all_versions :: "(custom_bot_row list, string) result \<Rightarrow> (custom_bot_with_versions, string) result" where
  "all_versions r = (case r of Failure e \<Rightarrow> Failure e
     | Ok [] \<Rightarrow> Failure ''Bot not found'' | Ok (b # bs) \<Rightarrow> Ok (with_versions (b # bs)))"

definition getAllUserVersions :: "string \<Rightarrow> string \<Rightarrow> (world, (custom_bot_with_versions, string) result) io" where
  "getAllUserVersions userId name =
     io_bind (rev_findByKey customBotTable userId name) (\<lambda>r. io_return (all_versions r))"

definition getAllGlobalVersions :: "string \<Rightarrow> (world, (custom_bot_with_versions, string) result) io" where
  "getAllGlobalVersions name = io_bind (rev_findGlobalByKey customBotTable name) (\<lambda>r. io_return (all_versions r))"

definition getSpecificUserVersion :: "string \<Rightarrow> string \<Rightarrow> string \<Rightarrow> (world, (custom_bot_row, string) result) io" where
  "getSpecificUserVersion userId name version = rev_findByKeyAndVersion customBotTable userId name version"

definition getSpecificGlobalVersion :: "string \<Rightarrow> string \<Rightarrow> (world, (custom_bot_row, string) result) io" where
  "getSpecificGlobalVersion name version = rev_findGlobalByKeyAndVersion customBotTable name version"

text \<open>\<open>createNewGlobalVersion\<close> with the data the service passes.\<close>

definition createNewGlobalVersion :: "server \<Rightarrow> string \<Rightarrow> custom_bot_config \<Rightarrow> string \<Rightarrow> (world, (custom_bot_row, string) result) io" where
  "createNewGlobalVersion sv userId config filePath = rev_create sv customBotTable (\<lambda>i created updated.
     \<lparr>cb_id = i, cb_userId = userId, cb_name = cc_name config, cb_version = cc_version config,
      cb_config = config, cb_filePath = filePath, cb_status = ''active'', cb_createdAt = created,
      cb_updatedAt = updated\<rparr>)"

definition isVersionNewer :: "server \<Rightarrow> string \<Rightarrow> string \<Rightarrow> bool" where
  "isVersionNewer sv currentVersion newVersion = semver_gt sv newVersion currentVersion"

definition checkUserOwnership :: "string \<Rightarrow> string \<Rightarrow> (world, (bool, string) result) io" where
  "checkUserOwnership userId name = io_bind (rev_findGlobalByKey customBotTable name) (\<lambda>r. case r of
      Failure e \<Rightarrow> io_return (Failure e)
    | Ok bs \<Rightarrow> (case bs of [] \<Rightarrow> io_return (Failure ''Bot not found'')
        | b # _ \<Rightarrow> if cb_userId b \<noteq> userId then io_return (Failure ''Insufficient permissions'')
                  else io_return (Ok True)))"

definition countInstancesByCustomBotId :: "string \<Rightarrow> (world, (nat, string) result) io" where
  "countInstancesByCustomBotId customBotId = or_failure
     (io_bind (db_select botsTable (\<lambda>b. bot_customBotId b = customBotId)) (\<lambda>records.
      io_return (Ok (length records))))"

text \<open>The counts, a map whose keys are the ids asked for, in their order.\<close>

definition count_instances :: "string list \<Rightarrow> bot_row list \<Rightarrow> (string \<times> nat) list" where
  "count_instances ids records = foldl
     (\<lambda>counts b. AList.update (bot_customBotId b)
        ((case map_of counts (bot_customBotId b) of Some n \<Rightarrow> n | None \<Rightarrow> 0) + 1) counts)
     (foldl (\<lambda>counts i. AList.update i 0 counts) [] ids) records"

definition countInstancesByCustomBotIds :: "string list \<Rightarrow> (world, ((string \<times> nat) list, string) result) io" where
  "countInstancesByCustomBotIds ids = or_failure
     (if length ids = 0 then io_return (Ok [])
      else io_bind (db_select botsTable (\<lambda>b. bot_customBotId b \<in> set ids)) (\<lambda>records.
        io_return (Ok (count_instances ids records))))"

definition removeAllByName :: "string \<Rightarrow> string \<Rightarrow> (world, (unit, string) result) io" where
  "removeAllByName userId name = or_failure
     (io_bind (db_delete customBotsTable (\<lambda>c. cb_userId c = userId \<and> cb_name c = name)) (\<lambda>_.
      io_return (Ok ())))"

definition getVersionsForBot :: "string \<Rightarrow> string \<Rightarrow> (world, (custom_bot_version list, string) result) io" where
  "getVersionsForBot userId name = io_bind (getAllUserVersions userId name) (\<lambda>r. case r of
      Failure e \<Rightarrow> io_return (Failure e) | Ok b \<Rightarrow> io_return (Ok (bw_versions b)))"

definition getAllGlobalCustomBots :: "(world, (custom_bot_with_versions list, string) result) io" where
  "getAllGlobalCustomBots = or_failure (io_bind (db_select customBotsTable (\<lambda>_. True)) (\<lambda>records.
     io_return (Ok (summarise (order_desc cb_createdAt records)))))"

definition getBotsWithVersions :: "string \<Rightarrow> (world, (custom_bot_with_versions list, string) result) io" where
  "getBotsWithVersions userId = getUserCustomBots userId"

definition createBot :: "server \<Rightarrow> string \<Rightarrow> string \<Rightarrow> string \<Rightarrow> custom_bot_config \<Rightarrow> string \<Rightarrow> string option \<Rightarrow>
    (world, (custom_bot_row, string) result) io" where
  "createBot sv userId name version config filePath status = rev_create sv customBotTable (\<lambda>i created updated.
     \<lparr>cb_id = i, cb_userId = userId, cb_name = name, cb_version = version, cb_config = config, cb_filePath = filePath,
      cb_status = or_else status ''active'', cb_createdAt = created, cb_updatedAt = updated\<rparr>)"

section \<open>Grouping loses and invents nothing\<close>

lemma group_by_name_snoc: "group_by_name (bs @ [b]) = add_to_group (group_by_name bs) b"
  by (simp add: group_by_name_def)

lemma group_by_name_map: "map_of (group_by_name bs) n =
    (if n \<in> cb_name ` set bs then Some (filter (\<lambda>b. cb_name b = n) bs) else None)"
proof (induction bs rule: rev_induct)
  case (snoc b bs)
  then show ?case
    by (auto simp: group_by_name_snoc update_conv' filter_empty_conv eq_commute [of "[]"])
      (metis rev_image_eqI)
qed (simp add: group_by_name_def)

lemma group_by_name_distinct: "distinct (map fst (group_by_name bs))"
  by (induction bs rule: rev_induct) (simp_all add: group_by_name_snoc distinct_update, simp add: group_by_name_def)

lemma group_by_name_in:
  "(n, g) \<in> set (group_by_name bs) \<longleftrightarrow> n \<in> cb_name ` set bs \<and> g = filter (\<lambda>b. cb_name b = n) bs"
  using map_of_eq_Some_iff [OF group_by_name_distinct, of bs n g]
  by (auto simp: group_by_name_map split: if_splits)

lemma order_desc_mset [simp]: "mset (order_desc k rs) = mset rs"
  by (simp add: order_desc_def)

lemma with_versions_sel:
  assumes "bs \<noteq> []" "\<forall>b\<in>set bs. cb_name b = n"
  shows "bw_name (with_versions bs) = n" "bw_versions (with_versions bs) = map to_version bs"
  using assms by (simp_all add: with_versions_def Let_def)

lemma group_name:
  assumes "x \<in> set (group_by_name bs)"
  shows "bw_name (with_versions (order_desc cb_createdAt (snd x))) = fst x"
proof -
  obtain n g where [simp]: "x = (n, g)" by (cases x)
  have g: "n \<in> cb_name ` set bs" "g = filter (\<lambda>b. cb_name b = n) bs"
    using assms by (simp_all add: group_by_name_in)
  have "order_desc cb_createdAt g \<noteq> []" using g by (auto simp: filter_empty_conv)
  then have "bw_name (with_versions (order_desc cb_createdAt g)) = n"
    by (rule with_versions_sel(1)) (use g in auto)
  then show ?thesis by simp
qed

lemma summarise_spec:
  "distinct (map bw_name (summarise bs))"
  "bw_name ` set (summarise bs) = cb_name ` set bs"
  "s \<in> set (summarise bs) \<Longrightarrow> mset (bw_versions s) = mset (map to_version (filter (\<lambda>b. cb_name b = bw_name s) bs))"
  "s \<in> set (summarise bs) \<Longrightarrow> \<exists>b\<in>set bs. cb_name b = bw_name s \<and> cb_version b = bw_latestVersion s
     \<and> (\<forall>c\<in>set bs. cb_name c = bw_name s \<longrightarrow> cb_createdAt c \<le> cb_createdAt b)"
proof -
  let ?f = "\<lambda>g. with_versions (order_desc cb_createdAt (snd g))"
  have names: "map bw_name (map ?f (group_by_name bs)) = map fst (group_by_name bs)"
    using group_name by (auto intro: map_cong)
  have "mset (map bw_name (summarise bs)) = mset (map bw_name (map ?f (group_by_name bs)))"
    unfolding summarise_def by (simp only: mset_map order_desc_mset)
  then have ms: "mset (map bw_name (summarise bs)) = mset (map fst (group_by_name bs))"
    by (simp only: names)
  show "distinct (map bw_name (summarise bs))"
    using mset_eq_imp_distinct_iff [OF ms] group_by_name_distinct by blast
  have "set (map bw_name (summarise bs)) = set (map fst (group_by_name bs))"
    using ms by (rule mset_eq_setD)
  also have "\<dots> = cb_name ` set bs" 
    unfolding set_map dom_map_of_conv_image_fst [symmetric]
    by (auto simp: dom_def group_by_name_map)
  finally show "bw_name ` set (summarise bs) = cb_name ` set bs" by simp
next
  assume "s \<in> set (summarise bs)"
  then obtain n g where g: "(n, g) \<in> set (group_by_name bs)" "s = with_versions (order_desc cb_createdAt g)"
    by (auto simp: summarise_def)
  have sn: "bw_name s = n" using group_name [OF g(1)] g(2) by simp
  have gf: "n \<in> cb_name ` set bs" "g = filter (\<lambda>b. cb_name b = n) bs"
    using g(1) by (simp_all add: group_by_name_in)
  then have ne: "g \<noteq> []" by (auto simp: filter_empty_conv)
  have vs: "bw_versions s = map to_version (order_desc cb_createdAt g)"
    using g(2) by (simp add: with_versions_def Let_def)
  show "mset (bw_versions s) = mset (map to_version (filter (\<lambda>b. cb_name b = bw_name s) bs))"
    by (simp add: vs sn gf(2))
  show "\<exists>b\<in>set bs. cb_name b = bw_name s \<and> cb_version b = bw_latestVersion s
     \<and> (\<forall>c\<in>set bs. cb_name c = bw_name s \<longrightarrow> cb_createdAt c \<le> cb_createdAt b)"
    using order_desc_hd [OF ne, of cb_createdAt] gf(2)
    by (intro bexI [of _ "hd (order_desc cb_createdAt g)"]) (auto simp: sn g(2) with_versions_def Let_def)
qed

section \<open>Counting\<close>

lemma count_init: "map_of (foldl (\<lambda>counts i. AList.update i 0 counts) [] ids) i
    = (if i \<in> set ids then Some (0 :: nat) else None)"
  by (induction ids rule: rev_induct) (auto simp: update_conv')

lemma count_instances_map:
  assumes "\<forall>b\<in>set bs. bot_customBotId b \<in> set ids"
  shows "map_of (count_instances ids bs) i
    = (if i \<in> set ids then Some (length (filter (\<lambda>b. bot_customBotId b = i) bs)) else None)"
  using assms
proof (induction bs arbitrary: i rule: rev_induct)
  case Nil
  then show ?case by (simp add: count_instances_def count_init)
next
  case (snoc b bs)
  then show ?case by (auto simp: count_instances_def update_conv')
qed

section \<open>Reads of the repository\<close>

lemma select_bots:
  assumes "db_select botsTable P w = (Inr rs, w')"
  shows "rs = filter P (bots w)"
  using assms by (auto simp: db_select_def external_def split: list.splits fault.splits)

lemma count_one_sound:
  assumes "countInstancesByCustomBotId i w = (Inr (Ok n), w')"
  shows "n = length (filter (\<lambda>b. bot_customBotId b = i) (bots w))"
  using assms select_bots unfolding countInstancesByCustomBotId_def or_failure_Ok
  by (auto simp: io_bind_run split: prod.splits sum.splits)

lemma count_many_sound:
  assumes "countInstancesByCustomBotIds ids w = (Inr (Ok counts), w')"
  shows "map_of counts i = (if i \<in> set ids
    then Some (length (filter (\<lambda>b. bot_customBotId b = i) (bots w))) else None)"
proof (cases "ids = []")
  case True
  then show ?thesis
    using assms unfolding countInstancesByCustomBotIds_def or_failure_Ok by simp
next
  case False
  then obtain rs where rs: "db_select botsTable (\<lambda>b. bot_customBotId b \<in> set ids) w = (Inr rs, w')"
    "counts = count_instances ids rs"
    using assms unfolding countInstancesByCustomBotIds_def or_failure_Ok
    by (auto simp: io_bind_run split: prod.splits sum.splits)
  have "rs = filter (\<lambda>b. bot_customBotId b \<in> set ids) (bots w)" using rs(1) by (rule select_bots)
  then show ?thesis
    using rs(2) count_instances_map [of rs ids i]
    by (auto intro!: arg_cong [where f = length] filter_cong)
qed

lemma checkUserOwnership_sound:
  assumes "checkUserOwnership userId name w = (Inr (Ok b), w')"
  shows "\<exists>c\<in>set (custom_bots w). cb_name c = name \<and> cb_userId c = userId
     \<and> (\<forall>d\<in>set (custom_bots w). cb_name d = name \<longrightarrow> cb_createdAt d \<le> cb_createdAt c)"
proof -
  obtain c bs where r: "rev_findGlobalByKey customBotTable name w = (Inr (Ok (c # bs)), w')" "cb_userId c = userId"
    using assms by (auto simp: checkUserOwnership_def io_bind_run
        split: prod.splits sum.splits result.splits list.splits if_splits)
  then have eq: "c # bs = order_desc cb_createdAt (filter (\<lambda>r. cb_name r = name) (custom_bots w))"
    using versions.many_sound unfolding rev_findGlobalByKey_def by fastforce
  have ne: "filter (\<lambda>r. cb_name r = name) (custom_bots w) \<noteq> []"
    by (metis eq list.distinct(1) order_desc_Nil)
  have hd: "hd (order_desc cb_createdAt (filter (\<lambda>r. cb_name r = name) (custom_bots w))) = c"
    unfolding eq [symmetric] by simp
  show ?thesis
    using order_desc_hd [OF ne, of cb_createdAt] r(2) unfolding hd by auto
qed

text \<open>The list of a user's bots has one entry per name, with exactly the user's versions of
  that name, newest first, and the version created last as the latest.\<close>

theorem getUserCustomBots_groups:
  assumes "getUserCustomBots userId w = (Inr (Ok gs), w')"
  shows "distinct (map bw_name gs)
    \<and> bw_name ` set gs = {cb_name b |b. b \<in> set (custom_bots w) \<and> cb_userId b = userId}
    \<and> (\<forall>s\<in>set gs. mset (bw_versions s) =
         mset (map to_version (filter (\<lambda>b. cb_userId b = userId \<and> cb_name b = bw_name s) (custom_bots w)))
       \<and> (\<exists>b\<in>set (custom_bots w). cb_userId b = userId \<and> cb_name b = bw_name s \<and> cb_version b = bw_latestVersion s
           \<and> (\<forall>c\<in>set (custom_bots w). cb_userId c = userId \<longrightarrow> cb_name c = bw_name s
                \<longrightarrow> cb_createdAt c \<le> cb_createdAt b)))"
proof -
  obtain bs where bs: "rev_findAll customBotTable userId w = (Inr (Ok bs), w')" "gs = summarise bs"
    using assms by (auto simp: getUserCustomBots_def io_bind_run split: prod.splits sum.splits result.splits)
  then have b: "bs = order_desc cb_createdAt (filter (\<lambda>r. cb_userId r = userId) (custom_bots w))"
    using versions.many_sound unfolding rev_findAll_def by (fastforce split: if_splits)
  then have set_bs: "set bs = {c \<in> set (custom_bots w). cb_userId c = userId}" by simp
  have ms: "mset (map to_version (filter (\<lambda>b. cb_name b = n) bs))
      = mset (map to_version (filter (\<lambda>b. cb_userId b = userId \<and> cb_name b = n) (custom_bots w)))" for n
    unfolding b by (simp only: mset_map mset_filter order_desc_mset filter_filter_mset conj_commute)
  show ?thesis
    using summarise_spec(1) [of bs] summarise_spec(2) [of bs] summarise_spec(3) [of _ bs] summarise_spec(4) [of _ bs]
    unfolding bs(2) ms set_bs by blast
qed

section \<open>A concrete world\<close>

definition demo_bot_config :: custom_bot_config where
  "demo_bot_config = \<lparr>cc_name = ''trend-bot'', cc_description = None, cc_version = ''1.0.1'', cc_type = ''scheduled'',
     cc_runtime = ''nodejs20'', cc_author = None, cc_entrypoints = [(''bot'', ''bot.py'')], cc_schema_bot = [],
     cc_readme = [], cc_hasFrontend = None, cc_metadata = None\<rparr>"

definition demo_version :: "string \<Rightarrow> string \<Rightarrow> int \<Rightarrow> custom_bot_row" where
  "demo_version i version created = \<lparr>cb_id = i, cb_userId = ''id-ann'', cb_name = ''trend-bot'', cb_version = version,
     cb_config = demo_bot_config, cb_filePath = ''id-ann/trend-bot/'' @ version, cb_status = ''active'',
     cb_createdAt = created, cb_updatedAt = created\<rparr>"

text \<open>Ann's bot in the versions 1.0.1 and 1.0.10, each with its archive.\<close>

definition two_versions :: world where
  "two_versions = demo_world\<lparr>
     custom_bots := [demo_version ''v1'' ''1.0.1'' 10, demo_version ''v10'' ''1.0.10'' 20],
     objects := [((''custom-bots'', ''id-ann/trend-bot/1.0.1''), \<lparr>so_data = ''old'', so_etag = ''old''\<rparr>),
                 ((''custom-bots'', ''id-ann/trend-bot/1.0.10''), \<lparr>so_data = ''new'', so_etag = ''new''\<rparr>)]\<rparr>"

lemma demo_version_sel [simp]:
  "cb_id (demo_version i v t) = i" "cb_userId (demo_version i v t) = ''id-ann''"
  "cb_name (demo_version i v t) = ''trend-bot''" "cb_version (demo_version i v t) = v"
  "cb_filePath (demo_version i v t) = ''id-ann/trend-bot/'' @ v" "cb_createdAt (demo_version i v t) = t"
  by (simp_all add: demo_version_def)

lemma two_versions_sel:
  "faults two_versions = []" "bots two_versions = []"
  "custom_bots two_versions = [demo_version ''v1'' ''1.0.1'' 10, demo_version ''v10'' ''1.0.10'' 20]"
  by (simp_all add: two_versions_def demo_world_def)

lemma getUserCustomBots_calm:
  assumes "faults w = []" "userId \<noteq> []"
  shows "getUserCustomBots userId w = (Inr (Ok (summarise (order_desc cb_createdAt
    (filter (\<lambda>c. cb_userId c = userId) (custom_bots w))))), w)"
  using assms by (simp add: getUserCustomBots_def rev_findAll_def io_bind_run rev_reads_calm)

theorem getUserCustomBots_groups_witness:
  "\<exists>gs :: custom_bot_with_versions list. distinct (map bw_name gs)
    \<and> bw_name ` set gs = {cb_name b |b. b \<in> set (custom_bots two_versions) \<and> cb_userId b = ''id-ann''}
    \<and> (\<forall>s\<in>set gs. mset (bw_versions s) =
         mset (map to_version (filter (\<lambda>b. cb_userId b = ''id-ann'' \<and> cb_name b = bw_name s) (custom_bots two_versions)))
       \<and> (\<exists>b\<in>set (custom_bots two_versions). cb_userId b = ''id-ann'' \<and> cb_name b = bw_name s \<and> cb_version b = bw_latestVersion s
           \<and> (\<forall>c\<in>set (custom_bots two_versions). cb_userId c = ''id-ann'' \<longrightarrow> cb_name c = bw_name s
                \<longrightarrow> cb_createdAt c \<le> cb_createdAt b)))"
proof -
  have "''id-ann'' \<noteq> []" by simp
  from getUserCustomBots_groups [OF getUserCustomBots_calm [OF two_versions_sel(1) this]] show ?thesis by blast
qed

end
