(* ===== verification/CustomBotSchema.thy ===== *)
theory CustomBotSchema
  imports CustomBotRepository
begin

text \<open>
  api/src/custom-bot/custom-bot.schema.ts: the JSON schema a bot configuration must satisfy,
  as a predicate on JSON values (the meaning of its keywords, which ajv implements), and the
  configuration a value that satisfies it stands for. The wording of ajv's messages and its
  check of the bot's own schema are parameters.
\<close>

section \<open>Keywords\<close>

definition str_between :: "nat \<Rightarrow> nat \<Rightarrow> json \<Rightarrow> bool" where
  "str_between lo hi j = (case j of JStr s \<Rightarrow> lo \<le> length s \<and> length s \<le> hi | _ \<Rightarrow> False)"

definition str_in :: "string list \<Rightarrow> json \<Rightarrow> bool" where
  "str_in xs j = (case j of JStr s \<Rightarrow> s \<in> set xs | _ \<Rightarrow> False)"

definition is_str :: "json \<Rightarrow> bool" where
  "is_str j = (case j of JStr _ \<Rightarrow> True | _ \<Rightarrow> False)"

definition is_obj :: "json \<Rightarrow> bool" where
  "is_obj j = (case j of JObj _ \<Rightarrow> True | _ \<Rightarrow> False)"

text \<open>A property of an object: absent, or of the given shape.\<close>

definition prop_ok :: "js_object \<Rightarrow> string \<Rightarrow> (json \<Rightarrow> bool) \<Rightarrow> bool" where
  "prop_ok kvs k P = (case map_of kvs k of None \<Rightarrow> True | Some v \<Rightarrow> P v)"

definition has_prop :: "js_object \<Rightarrow> string \<Rightarrow> bool" where
  "has_prop kvs k \<longleftrightarrow> k \<in> fst ` set kvs"

definition only_props :: "js_object \<Rightarrow> string list \<Rightarrow> bool" where
  "only_props kvs ks \<longleftrightarrow> fst ` set kvs \<subseteq> set ks"

definition str_list :: "nat \<Rightarrow> json \<Rightarrow> bool" where
  "str_list n j = (case j of JArr xs \<Rightarrow> length xs \<le> n \<and> list_all is_str xs | _ \<Rightarrow> False)"

text \<open>The pattern \<open>^[a-z0-9-]+$\<close> with the length bounds, and \<open>^\d+\.\d+\.\d+$\<close>.\<close>

definition bot_name_ok :: "json \<Rightarrow> bool" where
  "bot_name_ok j = (case j of JStr s \<Rightarrow> 3 \<le> length s \<and> length s \<le> 50
       \<and> list_all (\<lambda>c. is_lower_alnum c \<or> c = CHR ''-'') s | _ \<Rightarrow> False)"

definition semver_text :: "string \<Rightarrow> bool" where
  "semver_text s \<longleftrightarrow> (let parts = split_at (CHR ''.'') s in
     length parts = 3 \<and> list_all (\<lambda>p. p \<noteq> [] \<and> list_all is_digit p) parts)"

definition bot_version_ok :: "json \<Rightarrow> bool" where
  "bot_version_ok j = (case j of JStr s \<Rightarrow> semver_text s | _ \<Rightarrow> False)"

definition RUNTIMES :: "string list" where
  "RUNTIMES = [''python3.11'', ''nodejs20'', ''rust-stable'', ''dotnet8'', ''gcc13'', ''scala3'', ''ghc96'']"

definition BOT_TYPES :: "string list" where
  "BOT_TYPES = [''scheduled'', ''realtime'', ''event'']"

definition entrypoints_ok :: "json \<Rightarrow> bool" where
  "entrypoints_ok j = (case j of JObj kvs \<Rightarrow> has_prop kvs ''bot'' \<and> prop_ok kvs ''bot'' is_str
       \<and> prop_ok kvs ''query'' is_str \<and> only_props kvs [''bot'', ''query''] | _ \<Rightarrow> False)"

definition schema_ok :: "json \<Rightarrow> bool" where
  "schema_ok j = (case j of JObj kvs \<Rightarrow> has_prop kvs ''bot'' \<and> prop_ok kvs ''bot'' is_obj
       \<and> only_props kvs [''bot''] | _ \<Rightarrow> False)"

definition metadata_ok :: "json \<Rightarrow> bool" where
  "metadata_ok j = (case j of JObj kvs \<Rightarrow> prop_ok kvs ''categories'' (str_list 10)
       \<and> prop_ok kvs ''instruments'' (str_list 20) \<and> prop_ok kvs ''exchanges'' (str_list 20)
       \<and> prop_ok kvs ''tags'' (str_list 20) | _ \<Rightarrow> False)"

section \<open>The schema\<close>

definition required_props :: "string list" where
  "required_props = [''name'', ''version'', ''entrypoints'', ''schema'', ''readme'', ''type'', ''runtime'']"

definition allowed_props :: "string list" where
  "allowed_props = [''name'', ''description'', ''version'', ''runtime'', ''author'', ''type'',
     ''entrypoints'', ''schema'', ''readme'', ''metadata'']"

definition customBotConfigSchema :: "json \<Rightarrow> bool" where
  "customBotConfigSchema j = (case j of JObj kvs \<Rightarrow>
       list_all (has_prop kvs) required_props
     \<and> prop_ok kvs ''name'' bot_name_ok
     \<and> prop_ok kvs ''description'' (str_between 0 500)
     \<and> prop_ok kvs ''version'' bot_version_ok
     \<and> prop_ok kvs ''runtime'' (str_in RUNTIMES)
     \<and> prop_ok kvs ''author'' (str_between 0 100)
     \<and> prop_ok kvs ''type'' (str_in BOT_TYPES)
     \<and> prop_ok kvs ''entrypoints'' entrypoints_ok
     \<and> prop_ok kvs ''schema'' schema_ok
     \<and> prop_ok kvs ''readme'' (str_between 50 10000)
     \<and> prop_ok kvs ''metadata'' metadata_ok
     \<and> only_props kvs allowed_props
     \<and> (map_of kvs ''type'' = Some (JStr ''scheduled'') \<longrightarrow> prop_ok kvs ''runtime'' (str_in RUNTIMES))
   | _ \<Rightarrow> False)"

section \<open>The configuration\<close>

definition obj_field :: "js_object \<Rightarrow> string \<Rightarrow> js_object option" where
  "obj_field kvs k = (case map_of kvs k of Some (JObj v) \<Rightarrow> Some v | _ \<Rightarrow> None)"

definition str_values :: "js_object \<Rightarrow> (string \<times> string) list" where
  "str_values kvs = concat (map (\<lambda>e. case snd e of JStr s \<Rightarrow> [(fst e, s)] | _ \<Rightarrow> []) kvs)"

text \<open>A value read as a \<open>CustomBotConfig\<close>; None when a field the code relies on is not there.\<close>

definition decode_config :: "json \<Rightarrow> custom_bot_config option" where
  "decode_config j = (case j of JObj kvs \<Rightarrow>
     (case (str_field kvs ''name'', str_field kvs ''version'', str_field kvs ''type'',
            str_field kvs ''runtime'', str_field kvs ''readme'',
            obj_field kvs ''entrypoints'', obj_field kvs ''schema'') of
       (Some name, Some version, Some type, Some runtime, Some readme, Some entrypoints, Some schema) \<Rightarrow>
         (case obj_field schema ''bot'' of None \<Rightarrow> None
          | Some botSchema \<Rightarrow> Some \<lparr>cc_name = name, cc_description = str_field kvs ''description'',
              cc_version = version, cc_type = type, cc_runtime = runtime,
              cc_author = str_field kvs ''author'', cc_entrypoints = str_values entrypoints,
              cc_schema_bot = botSchema, cc_readme = readme, cc_hasFrontend = None,
              cc_metadata = map_of kvs ''metadata''\<rparr>)
     | _ \<Rightarrow> None)
   | _ \<Rightarrow> None)"

section \<open>Validation\<close>

text \<open>\<open>validateSchema\<close>: ajv compiles the bot's own schema or refuses it with a message.\<close>

definition validateSchema :: "server \<Rightarrow> js_object \<Rightarrow> string list option" where
  "validateSchema sv schema = (case ajv_compiles sv schema of None \<Rightarrow> None | Some m \<Rightarrow> Some [m])"

text \<open>None when the configuration is valid, the errors otherwise.\<close>

definition validateCustomBotConfigPayload :: "server \<Rightarrow> json \<Rightarrow> string list option" where
  "validateCustomBotConfigPayload sv config =
     (if \<not> customBotConfigSchema config then Some (ajv_config_errors sv config)
      else (case decode_config config of None \<Rightarrow> None
        | Some c \<Rightarrow> validateSchema sv (cc_schema_bot c)))"

definition validateCustomBotPayload :: "server \<Rightarrow> json \<Rightarrow> string list option" where
  "validateCustomBotPayload sv payload = (case payload of
      JObj kvs \<Rightarrow> (case map_of kvs ''config'' of
          Some c \<Rightarrow> validateCustomBotConfigPayload sv (if json_truthy c then c else payload)
        | None \<Rightarrow> validateCustomBotConfigPayload sv payload)
    | _ \<Rightarrow> validateCustomBotConfigPayload sv payload)"

section \<open>Facts\<close>

lemma has_prop_map_of: "has_prop kvs k \<longleftrightarrow> (\<exists>v. map_of kvs k = Some v)"
  by (metis has_prop_def map_of_eq_None_iff not_None_eq)

lemma prop_field:
  assumes "has_prop kvs k" "prop_ok kvs k P" "\<And>v. P v \<Longrightarrow> is_str v"
  obtains s where "str_field kvs k = Some s" "P (JStr s)"
proof -
  obtain v where v: "map_of kvs k = Some v" "P v"
    using assms(1,2) by (auto simp: has_prop_map_of prop_ok_def)
  have "is_str v" using v(2) by (rule assms(3))
  then obtain s where "v = JStr s" by (cases v) (auto simp: is_str_def)
  then show thesis using that v by (simp add: str_field_def)
qed

lemma shape_is_str:
  "bot_name_ok v \<Longrightarrow> is_str v" "bot_version_ok v \<Longrightarrow> is_str v" "str_in xs v \<Longrightarrow> is_str v"
  "str_between a b v \<Longrightarrow> is_str v"
  by (auto simp: bot_name_ok_def bot_version_ok_def str_in_def str_between_def is_str_def split: json.splits)

lemma prop_obj:
  assumes "has_prop kvs k" "prop_ok kvs k P" "\<And>v. P v \<Longrightarrow> is_obj v"
  obtains ob where "obj_field kvs k = Some ob" "P (JObj ob)"
proof -
  obtain v where v: "map_of kvs k = Some v" "P v"
    using assms(1,2) by (auto simp: has_prop_map_of prop_ok_def)
  have "is_obj v" using v(2) by (rule assms(3))
  then obtain ob where "v = JObj ob" by (cases v) (auto simp: is_obj_def)
  then show thesis using that v by (simp add: obj_field_def)
qed

text \<open>C18. A configuration that passes the schema can be read as a bot configuration, and then
  its name is 3 to 50 lower-case letters, digits and hyphens (so it has no slash and cannot
  leave its place in the object store), its version is three numbers, its type and runtime
  are known, and it has a bot entry point.\<close>

theorem schema_gives_config:
  assumes "customBotConfigSchema j"
  shows "\<exists>c. decode_config j = Some c
    \<and> 3 \<le> length (cc_name c) \<and> length (cc_name c) \<le> 50 \<and> CHR ''/'' \<notin> set (cc_name c)
    \<and> list_all (\<lambda>ch. is_lower_alnum ch \<or> ch = CHR ''-'') (cc_name c)
    \<and> semver_text (cc_version c) \<and> cc_type c \<in> set BOT_TYPES \<and> cc_runtime c \<in> set RUNTIMES
    \<and> (\<exists>f. map_of (cc_entrypoints c) ''bot'' = Some f)"
proof -
  obtain kvs where j: "j = JObj kvs" using assms by (cases j) (auto simp: customBotConfigSchema_def)
  note s = assms [unfolded j customBotConfigSchema_def required_props_def, simplified]
  obtain name where n: "str_field kvs ''name'' = Some name" "bot_name_ok (JStr name)"
    using s shape_is_str(1) by (auto elim: prop_field)
  obtain version where v: "str_field kvs ''version'' = Some version" "bot_version_ok (JStr version)"
    using s shape_is_str(2) by (auto elim: prop_field)
  obtain type where t: "str_field kvs ''type'' = Some type" "str_in BOT_TYPES (JStr type)"
    using s shape_is_str(3) by (auto elim: prop_field)
  obtain runtime where r: "str_field kvs ''runtime'' = Some runtime" "str_in RUNTIMES (JStr runtime)"
    using s shape_is_str(3) by (auto elim: prop_field)
  obtain readme where m: "str_field kvs ''readme'' = Some readme"
    using s shape_is_str(4) by (auto elim: prop_field)
  have eo: "entrypoints_ok x \<Longrightarrow> is_obj x" "schema_ok x \<Longrightarrow> is_obj x" for x
    by (auto simp: entrypoints_ok_def schema_ok_def is_obj_def split: json.splits)
  obtain ents where e: "obj_field kvs ''entrypoints'' = Some ents" "entrypoints_ok (JObj ents)"
    using s eo(1) by (auto elim: prop_obj)
  obtain sch where sc: "obj_field kvs ''schema'' = Some sch" "schema_ok (JObj sch)"
    using s eo(2) by (auto elim: prop_obj)
  obtain bs where b: "obj_field sch ''bot'' = Some bs"
    using sc(2) by (auto simp: schema_ok_def elim: prop_obj [where P = is_obj])
  obtain fl where f: "str_field ents ''bot'' = Some fl"
    using e(2) by (auto simp: entrypoints_ok_def elim: prop_field [where P = is_str])
  have "map_of (str_values kvs') k = Some x" if "map_of kvs' k = Some (JStr x)" for kvs' k x
    using that by (induction kvs') (auto simp: str_values_def split: json.splits if_splits)
  then have "map_of (str_values ents) ''bot'' = Some fl"
    using f by (auto simp: str_field_def split: option.splits json.splits)
  moreover have "CHR ''/'' \<notin> set name" if "list_all (\<lambda>ch. is_lower_alnum ch \<or> ch = CHR ''-'') name"
    using that by (auto simp: list_all_iff is_lower_alnum_def is_digit_def)
  ultimately show ?thesis
    using n v t r m e sc b
    by (auto simp: j decode_config_def bot_name_ok_def bot_version_ok_def str_in_def)
qed

definition demo_config :: json where
  "demo_config = JObj [(''name'', JStr ''trend-bot''), (''version'', JStr ''1.0.1''), (''type'', JStr ''scheduled''),
     (''runtime'', JStr ''nodejs20''), (''readme'', JStr (replicate 60 (CHR ''x''))),
     (''entrypoints'', JObj [(''bot'', JStr ''bot.py'')]), (''schema'', JObj [(''bot'', JObj [])])]"

lemma demo_config_valid: "customBotConfigSchema demo_config"
  by (simp add: demo_config_def customBotConfigSchema_def required_props_def allowed_props_def has_prop_def
      prop_ok_def only_props_def bot_name_ok_def bot_version_ok_def semver_text_def str_in_def str_between_def
      RUNTIMES_def BOT_TYPES_def entrypoints_ok_def schema_ok_def is_str_def is_obj_def is_lower_alnum_def is_digit_def Let_def)

theorem schema_gives_config_witness:
  "\<exists>c. decode_config demo_config = Some c
    \<and> 3 \<le> length (cc_name c) \<and> length (cc_name c) \<le> 50 \<and> CHR ''/'' \<notin> set (cc_name c)
    \<and> list_all (\<lambda>ch. is_lower_alnum ch \<or> ch = CHR ''-'') (cc_name c)
    \<and> semver_text (cc_version c) \<and> cc_type c \<in> set BOT_TYPES \<and> cc_runtime c \<in> set RUNTIMES
    \<and> (\<exists>f. map_of (cc_entrypoints c) ''bot'' = Some f)"
  by (rule schema_gives_config [OF demo_config_valid])

end
