(* ===== verification/CustomBots.thy ===== *)
theory CustomBots
  imports CustomBotSchema AuthGuards
begin

text \<open>
  api/src/custom-bot/custom-bot.service.ts and custom-bot.controller.ts: uploading, versioning
  and deleting bots. A configuration arrives as a JSON value; it is read as a configuration
  once the schema has accepted it.
\<close>

section \<open>Creation and update\<close>

definition COMPILED_RUNTIMES :: "string list" where
  "COMPILED_RUNTIMES = [''rust-stable'', ''dotnet8'', ''gcc13'', ''scala3'', ''ghc96'']"

definition requiredFiles :: "custom_bot_config \<Rightarrow> string list" where
  "requiredFiles config = (if cc_runtime config \<in> set COMPILED_RUNTIMES then []
     else filter (\<lambda>f. f \<noteq> []) (map snd (cc_entrypoints config)))"

definition runtime_error :: string where
  "runtime_error = ''Bots must specify a valid runtime ('' @ js_join '', '' RUNTIMES @ '')''"

text \<open>From the archive on, both methods are the same.\<close>

definition storeVersion :: "server \<Rightarrow> string \<Rightarrow> custom_bot_config \<Rightarrow> string \<Rightarrow> (world, (custom_bot_row, string) result) io" where
  "storeVersion sv userId config filePath =
     io_bind (validateZipStructure sv filePath (requiredFiles config)) (\<lambda>zipValidation. case zipValidation of
       Failure e \<Rightarrow> io_return (Failure (''ZIP validation failed: '' @ e))
     | Ok _ \<Rightarrow>
         io_bind (extractAndStoreFrontend sv filePath userId (cc_name config) (cc_version config)) (\<lambda>frontendResult.
         let finalConfig = config\<lparr>cc_hasFrontend := Some (case frontendResult of Ok (Some _) \<Rightarrow> True | _ \<Rightarrow> False)\<rparr> in
         ok_bind (createNewGlobalVersion sv userId finalConfig filePath) (\<lambda>_.
         getSpecificGlobalVersion (cc_name config) (cc_version config))))"

definition create_body :: "server \<Rightarrow> string \<Rightarrow> custom_bot_config \<Rightarrow> string \<Rightarrow> (world, (custom_bot_row, string) result) io" where
  "create_body sv userId config filePath = ok_bind (globalBotExists (cc_name config)) (\<lambda>existing.
     if cc_runtime config = [] \<or> cc_runtime config \<notin> set RUNTIMES then io_return (Failure runtime_error)
     else if existing then io_return (Failure ''Custom bot with this name already exists'')
     else storeVersion sv userId config filePath)"

definition checked_config :: "server \<Rightarrow> json \<Rightarrow> (custom_bot_config, string) result" where
  "checked_config sv config = (case validateCustomBotConfigPayload sv config of
      Some errors \<Rightarrow> Failure (''Validation failed: '' @ js_join '', '' errors)
    | None \<Rightarrow> (case decode_config config of None \<Rightarrow> Failure [] | Some c \<Rightarrow> Ok c))"

definition createCustomBot :: "server \<Rightarrow> string \<Rightarrow> json \<Rightarrow> string \<Rightarrow> (world, (custom_bot_row, string) result) io" where
  "createCustomBot sv userId config filePath = or_failure_with ''Failed to create custom bot''
     (case checked_config sv config of Failure e \<Rightarrow> io_return (Failure e)
      | Ok c \<Rightarrow> create_body sv userId c filePath)"

definition update_body :: "server \<Rightarrow> string \<Rightarrow> string \<Rightarrow> custom_bot_config \<Rightarrow> string \<Rightarrow> (world, (custom_bot_row, string) result) io" where
  "update_body sv userId name config filePath =
     (if cc_name config \<noteq> name then io_return (Failure ''Bot name in config must match the URL parameter'')
      else if cc_runtime config = [] \<or> cc_runtime config \<notin> set RUNTIMES then io_return (Failure runtime_error)
      else ok_bind (globalBotExists name) (\<lambda>existing.
        if \<not> existing then io_return (Failure ''Custom bot does not exist. Create it first using POST.'')
        else ok_bind (checkUserOwnership userId name) (\<lambda>_.
        ok_bind (rev_getGlobalLatestVersion customBotTable name) (\<lambda>latestBot.
        if \<not> isVersionNewer sv (cb_version latestBot) (cc_version config)
        then io_return (Failure (''Version '' @ cc_version config @ '' must be greater than current version ''
               @ cb_version latestBot))
        else ok_bind (globalVersionExists name (cc_version config)) (\<lambda>taken.
        if taken then io_return (Failure (''Version '' @ cc_version config @ '' already exists for this bot''))
        else storeVersion sv userId config filePath)))))"

definition updateCustomBot :: "server \<Rightarrow> string \<Rightarrow> string \<Rightarrow> json \<Rightarrow> string \<Rightarrow> (world, (custom_bot_row, string) result) io" where
  "updateCustomBot sv userId name config filePath = or_failure_with ''Failed to update custom bot''
     (case checked_config sv config of Failure e \<Rightarrow> io_return (Failure e)
      | Ok c \<Rightarrow> update_body sv userId name c filePath)"

section \<open>Reads\<close>

definition service_getUserCustomBots :: "string \<Rightarrow> (world, (custom_bot_with_versions list, string) result) io" where
  "service_getUserCustomBots userId = or_failure_with ''Failed to get user custom bots'' (getUserCustomBots userId)"

definition getById :: "string \<Rightarrow> (world, (custom_bot_row, string) result) io" where
  "getById i = rev_findOneById customBotTable i"

definition getVersionsWithInstanceCounts :: "string \<Rightarrow> string \<Rightarrow>
    (world, ((custom_bot_version \<times> nat) list, string) result) io" where
  "getVersionsWithInstanceCounts userId name = ok_bind (getAllUserVersions userId name) (\<lambda>b.
     ok_bind (countInstancesByCustomBotIds (map bv_id (bw_versions b))) (\<lambda>counts.
     io_return (Ok (map (\<lambda>v. (v, case map_of counts (bv_id v) of Some n \<Rightarrow> n | None \<Rightarrow> 0)) (bw_versions b)))))"

definition checkOrphaned :: "string \<Rightarrow> (world, (bool \<times> string \<times> string, string) result) io" where
  "checkOrphaned customBotId = ok_bind (rev_findOneById customBotTable customBotId) (\<lambda>b.
     ok_bind (countInstancesByCustomBotId customBotId) (\<lambda>n.
     io_return (Ok (n = 0, cb_name b, cb_version b))))"

definition service_getAllUserVersions :: "string \<Rightarrow> string \<Rightarrow> (world, (custom_bot_with_versions, string) result) io" where
  "service_getAllUserVersions userId name = getAllUserVersions userId name"

definition service_getAllGlobalVersions :: "string \<Rightarrow> (world, (custom_bot_with_versions, string) result) io" where
  "service_getAllGlobalVersions name = getAllGlobalVersions name"

definition getUserSpecificVersion :: "string \<Rightarrow> string \<Rightarrow> string \<Rightarrow> (world, (custom_bot_row, string) result) io" where
  "getUserSpecificVersion userId name version = getSpecificUserVersion userId name version"

definition getGlobalSpecificVersion :: "string \<Rightarrow> string \<Rightarrow> (world, (custom_bot_row, string) result) io" where
  "getGlobalSpecificVersion name version = getSpecificGlobalVersion name version"

definition getGlobalLatestVersion :: "string \<Rightarrow> (world, (custom_bot_row, string) result) io" where
  "getGlobalLatestVersion name = rev_getGlobalLatestVersion customBotTable name"

definition service_getAllGlobalCustomBots :: "(world, (custom_bot_with_versions list, string) result) io" where
  "service_getAllGlobalCustomBots = getAllGlobalCustomBots"

section \<open>Deletion\<close>

text \<open>Best-effort cleanup: failures are only logged.\<close>

definition cleanup :: "server \<Rightarrow> string \<Rightarrow> (world, unit) io" where
  "cleanup sv p = io_bind (listObjects sv p) (\<lambda>filesResult. case filesResult of
      Failure _ \<Rightarrow> io_return ()
    | Ok files \<Rightarrow> io_for files (\<lambda>f. io_bind (deleteFile sv f) (\<lambda>_. io_return ())))"

definition deleteVersion :: "server \<Rightarrow> string \<Rightarrow> string \<Rightarrow> string \<Rightarrow> (world, (unit, string) result) io" where
  "deleteVersion sv userId name version = ok_bind (checkUserOwnership userId name) (\<lambda>_.
     ok_bind (getSpecificGlobalVersion name version) (\<lambda>customBot.
     ok_bind (countInstancesByCustomBotId (cb_id customBot)) (\<lambda>n.
     if n > 0 then io_return (Failure (''Cannot delete version '' @ version @ '': '' @ nat_to_string n
         @ '' active instance(s) reference it''))
     else ok_bind (rev_remove customBotTable userId (cb_id customBot)) (\<lambda>_.
       io_bind (cleanup sv (cb_filePath customBot)) (\<lambda>_. io_return (Ok ()))))))"

definition versions_in_use :: "custom_bot_version list \<Rightarrow> (string \<times> nat) list \<Rightarrow> string list" where
  "versions_in_use vs counts = map (\<lambda>(i, n).
     (case find (\<lambda>v. bv_id v = i) vs of Some v \<Rightarrow> (if bv_version v = [] then i else bv_version v) | None \<Rightarrow> i)
       @ '' ('' @ nat_to_string n @ '')'') (filter (\<lambda>(i, n). n > 0) counts)"

definition deleteAllVersions :: "server \<Rightarrow> string \<Rightarrow> string \<Rightarrow> (world, (unit, string) result) io" where
  "deleteAllVersions sv userId name = ok_bind (checkUserOwnership userId name) (\<lambda>_.
     ok_bind (getAllGlobalVersions name) (\<lambda>b.
     ok_bind (countInstancesByCustomBotIds (map bv_id (bw_versions b))) (\<lambda>counts.
     let inUse = versions_in_use (bw_versions b) counts in
     if length inUse > 0
     then io_return (Failure (''Cannot delete: versions with active instance(s): '' @ js_join '', '' inUse))
     else ok_bind (removeAllByName userId name) (\<lambda>_.
       io_bind (cleanup sv (userId @ ''/'' @ name @ ''/'')) (\<lambda>_. io_return (Ok ()))))))"

section \<open>The controller\<close>

definition validateFilePath :: "json option \<Rightarrow> string \<Rightarrow> (world, string) io" where
  "validateFilePath filePath userId = (case filePath of
      Some (JStr p) \<Rightarrow>
        (let trimmed = js_trim p in
         if trimmed = [] then io_throw (Http 400 ''filePath is required'')
         else if js_includes trimmed ''..'' \<or> js_includes trimmed ''//''
           then io_throw (Http 400 ''Invalid file path'')
         else if \<not> js_starts_with trimmed (userId @ ''/'')
           then io_throw (Http 400 ''File path must belong to the authenticated user'')
         else io_return trimmed)
    | _ \<Rightarrow> io_throw (Http 400 ''filePath must be a string''))"

text \<open>An uploaded file: MIME type, original name and content.\<close>

record uploaded_file =
  uf_mimetype :: string
  uf_originalname :: string
  uf_buffer :: string

definition uploadFile :: "server \<Rightarrow> string \<Rightarrow> uploaded_file option \<Rightarrow> string option \<Rightarrow> authenticated_user \<Rightarrow> (world, string) io" where
  "uploadFile sv name file version user = (case file of
      None \<Rightarrow> io_throw (Http 400 ''File is required'')
    | Some f \<Rightarrow>
        if uf_mimetype f \<noteq> ''application/zip'' \<and> \<not> js_ends_with (uf_originalname f) ''.zip''
        then io_throw (Http 400 ''Only ZIP files are allowed'')
        else if \<not> truthy_opt version then io_throw (Http 400 ''Version is required'')
        else io_bind (uploadBotFile sv (uf_buffer f) (the version) (au_uid user) name) (\<lambda>r. case r of
            Failure e \<Rightarrow> io_throw (Http 400 (''Upload failed: '' @ e))
          | Ok p \<Rightarrow> io_return p))"

text \<open>\<open>config.name\<close> of an arbitrary JSON value; reading it from null throws.\<close>

definition json_name :: "json \<Rightarrow> (world, json option) io" where
  "json_name j = (case j of
      JNull \<Rightarrow> io_throw (plain_error ''Cannot read properties of null (reading 'name')'')
    | JObj kvs \<Rightarrow> io_return (map_of kvs ''name'')
    | _ \<Rightarrow> io_return None)"

text \<open>What POST and PUT check before they call the service.\<close>

definition deploy_checks :: "server \<Rightarrow> string \<Rightarrow> string option \<Rightarrow> json option \<Rightarrow> string \<Rightarrow> (world, string \<times> json) io" where
  "deploy_checks sv name config filePath userId = io_bind (validateFilePath filePath userId) (\<lambda>p.
     io_bind (fileExists sv p) (\<lambda>fileExistsResult. case fileExistsResult of
       Failure e \<Rightarrow> io_throw (Http 400 (''File validation failed: '' @ e))
     | Ok False \<Rightarrow> io_throw (Http 400 ''File not found at specified file path'')
     | Ok True \<Rightarrow>
         if \<not> truthy_opt config then io_throw (Http 400 ''Config field is required'')
         else (case json_parse sv (the config) of
             None \<Rightarrow> io_throw (Http 400 ''Config must be valid JSON'')
           | Some j \<Rightarrow> io_bind (json_name j) (\<lambda>n.
               if n \<noteq> Some (JStr name) then io_throw (Http 400 ''Bot name in config must match URL parameter'')
               else io_return (p, j)))))"

definition unwrap_as :: "nat \<Rightarrow> ('a, string) result \<Rightarrow> (world, 'a) io" where
  "unwrap_as status r = (case r of Failure e \<Rightarrow> io_throw (Http status e) | Ok x \<Rightarrow> io_return x)"

definition post_custom_bot :: "server \<Rightarrow> string \<Rightarrow> string option \<Rightarrow> json option \<Rightarrow> authenticated_user \<Rightarrow> (world, custom_bot_row) io" where
  "post_custom_bot sv name config filePath user = io_bind (deploy_checks sv name config filePath (au_uid user)) (\<lambda>(p, j).
     io_bind (createCustomBot sv (au_uid user) j p) (unwrap_as 400))"

definition put_custom_bot :: "server \<Rightarrow> string \<Rightarrow> string option \<Rightarrow> json option \<Rightarrow> authenticated_user \<Rightarrow> (world, custom_bot_row) io" where
  "put_custom_bot sv name config filePath user = io_bind (deploy_checks sv name config filePath (au_uid user)) (\<lambda>(p, j).
     io_bind (updateCustomBot sv (au_uid user) name j p) (unwrap_as 400))"

definition getFrontendBundleById :: "server \<Rightarrow> string \<Rightarrow> (world, string) io" where
  "getFrontendBundleById sv i = io_bind (getById i) (\<lambda>result. case result of
      Failure _ \<Rightarrow> io_throw (Http 404 (''Custom bot not found: '' @ i))
    | Ok customBot \<Rightarrow>
        if cc_hasFrontend (cb_config customBot) \<noteq> Some True
        then io_throw (Http 404 ''This bot does not have a custom frontend'')
        else io_bind (getBotFrontendStream sv
            (getFrontendPath (cb_userId customBot) (cb_name customBot) (cb_version customBot))) (\<lambda>streamResult.
          case streamResult of Failure _ \<Rightarrow> io_throw (Http 404 ''Frontend bundle not found'')
          | Ok stream \<Rightarrow> io_return stream))"

definition get_custom_bots :: "authenticated_user \<Rightarrow> (world, custom_bot_with_versions list) io" where
  "get_custom_bots user = io_bind (service_getUserCustomBots (au_uid user)) (unwrap_as 400)"

definition get_versions_with_instances :: "string \<Rightarrow> authenticated_user \<Rightarrow> (world, (custom_bot_version \<times> nat) list) io" where
  "get_versions_with_instances name user = io_bind (getVersionsWithInstanceCounts (au_uid user) name) (unwrap_as 404)"

definition get_all_versions :: "string \<Rightarrow> (world, custom_bot_with_versions) io" where
  "get_all_versions name = io_bind (service_getAllGlobalVersions name) (unwrap_as 404)"

definition get_specific_version :: "string \<Rightarrow> string \<Rightarrow> (world, custom_bot_row) io" where
  "get_specific_version name version = io_bind (getGlobalSpecificVersion name version) (unwrap_as 404)"

definition delete_version :: "server \<Rightarrow> string \<Rightarrow> string \<Rightarrow> authenticated_user \<Rightarrow> (world, unit) io" where
  "delete_version sv name version user = io_bind (deleteVersion sv (au_uid user) name version) (unwrap_as 400)"

definition delete_all_versions :: "server \<Rightarrow> string \<Rightarrow> authenticated_user \<Rightarrow> (world, unit) io" where
  "delete_all_versions sv name user = io_bind (deleteAllVersions sv (au_uid user) name) (unwrap_as 400)"

section \<open>What the operations see and leave\<close>

text \<open>The view: the versions and the deployed instances.\<close>

definition bots_view :: "world \<Rightarrow> custom_bot_row list \<times> bot_row list" where
  "bots_view w = (custom_bots w, bots w)"

lemma env_free_view: "env_free (\<lambda>w. bots_view w = k)"
  by (simp add: env_free_def bots_view_def)

lemma store_free_view: "store_free (\<lambda>w. bots_view w = k)"
  by (simp add: store_free_def env_free_view) (simp add: bots_view_def)

lemma view_rev:
  "preserves (\<lambda>w. bots_view w = k) (rev_many customBotTable P)"
  "preserves (\<lambda>w. bots_view w = k) (rev_one customBotTable P)"
  "preserves (\<lambda>w. bots_view w = k) (rev_newest customBotTable P)"
  unfolding rev_many_def rev_one_def rev_newest_def
  by (intro preserves_or_failure preserves_bind preserves_select env_free_view;
      auto intro: preserves_return split: list.split)+

text \<open>A read that keeps the view and whose answer is sound.\<close>

lemma observes_read:
  assumes "\<And>k. preserves (\<lambda>w. bots_view w = k) m"
    and "\<And>w x w'. m w = (Inr (Ok x), w') \<Longrightarrow> V (bots_view w) x"
  shows "observes bots_view (\<lambda>k r. \<forall>x. r = Ok x \<longrightarrow> V k x) m"
  by (rule observesI, rule preservesD [OF assms(1) refl]) (auto dest: assms(2))

lemma observes_many:
  "observes bots_view (\<lambda>k r. \<forall>rs. r = Ok rs \<longrightarrow> rs = order_desc cb_createdAt (filter P (fst k)))
     (rev_many customBotTable P)"
  by (rule observes_read [OF view_rev(1)]) (use versions.many_sound in \<open>fastforce simp: bots_view_def\<close>)

lemma observes_one:
  "observes bots_view (\<lambda>k r. \<forall>c. r = Ok c \<longrightarrow> c \<in> set (fst k) \<and> P c) (rev_one customBotTable P)"
  by (rule observes_read [OF view_rev(2)]) (use versions.one_sound in \<open>fastforce simp: bots_view_def\<close>)

lemma observes_newest:
  "observes bots_view (\<lambda>k r. \<forall>c. r = Ok c \<longrightarrow> c \<in> set (fst k) \<and> P c
      \<and> (\<forall>x\<in>set (fst k). P x \<longrightarrow> cb_createdAt x \<le> cb_createdAt c)) (rev_newest customBotTable P)"
  by (rule observes_read [OF view_rev(3)]) (use versions.newest_sound in \<open>fastforce simp: bots_view_def\<close>)

lemma observes_exists:
  "observes bots_view (\<lambda>k r. \<forall>b. r = Ok b \<longrightarrow> b = (\<exists>c\<in>set (fst k). cb_name c = name)) (globalBotExists name)"
  unfolding globalBotExists_def rev_findGlobalByKey_def
proof (rule observes_weaken [OF observes_bind [OF observes_many observes_return]], elim exE conjE, intro allI impI)
  fix k :: "custom_bot_row list \<times> bot_row list" and y x b
  assume "\<forall>rs. x = Ok rs \<longrightarrow> rs = order_desc cb_createdAt (filter (\<lambda>r. rv_key customBotTable r = name) (fst k))"
    "y = exists_from x" "y = Ok b"
  then show "b = (\<exists>c\<in>set (fst k). cb_name c = name)"
    by (cases x) (auto simp: exists_from_def filter_empty_conv)
qed

lemma observes_owner:
  "observes bots_view (\<lambda>k r. \<forall>b. r = Ok b \<longrightarrow> (\<exists>c\<in>set (fst k). cb_name c = name \<and> cb_userId c = userId))
     (checkUserOwnership userId name)"
proof (rule observes_read)
  fix k
  show "preserves (\<lambda>w. bots_view w = k) (checkUserOwnership userId name)"
    unfolding checkUserOwnership_def rev_findGlobalByKey_def
    by (intro preserves_bind view_rev preserves_result preserves_return)
      (auto intro: preserves_return split: list.split)
qed (use checkUserOwnership_sound in \<open>fastforce simp: bots_view_def\<close>)

lemma view_count: "preserves (\<lambda>w. bots_view w = k) (countInstancesByCustomBotId i)"
  "preserves (\<lambda>w. bots_view w = k) (countInstancesByCustomBotIds ids)"
  unfolding countInstancesByCustomBotId_def countInstancesByCustomBotIds_def
  by (intro preserves_or_failure preserves_if preserves_bind preserves_select preserves_return env_free_view)+

lemma observes_count:
  "observes bots_view (\<lambda>k r. \<forall>n. r = Ok n \<longrightarrow> n = length (filter (\<lambda>b. bot_customBotId b = i) (snd k)))
     (countInstancesByCustomBotId i)"
  by (rule observes_read [OF view_count(1)]) (auto simp: bots_view_def dest: count_one_sound)

lemma observes_counts:
  "observes bots_view (\<lambda>k r. \<forall>counts. r = Ok counts \<longrightarrow> (\<forall>i. map_of counts i = (if i \<in> set ids
      then Some (length (filter (\<lambda>b. bot_customBotId b = i) (snd k))) else None)))
     (countInstancesByCustomBotIds ids)"
  by (rule observes_read [OF view_count(2)]) (auto simp: bots_view_def count_many_sound)

lemma observes_version_exists: "observes bots_view (\<lambda>_ _. True) (globalVersionExists name v)"
  unfolding globalVersionExists_def rev_findGlobalByKeyAndVersion_def
  by (rule observes_weaken [OF observes_bind [OF observes_one observes_return]]) simp

lemma observes_storage:
  "observes bots_view (\<lambda>_ _. True) (validateZipStructure sv p req)"
  "observes bots_view (\<lambda>_ _. True) (extractAndStoreFrontend sv z u b v)"
  "observes bots_view (\<lambda>_ _. True) (cleanup sv p)"
proof -
  have "preserves (\<lambda>w. bots_view w = k) (cleanup sv p)" for k
    unfolding cleanup_def
    by (intro preserves_bind preserves_result preserves_for preserves_return preserves_storage store_free_view)
  then show "observes bots_view (\<lambda>_ _. True) (validateZipStructure sv p req)"
    "observes bots_view (\<lambda>_ _. True) (extractAndStoreFrontend sv z u b v)"
    "observes bots_view (\<lambda>_ _. True) (cleanup sv p)"
    by (intro observes_preserves preserves_storage store_free_view | assumption)+
qed

lemma leaves_create:
  assumes "Q k" "\<And>i c u. Q (fst k @ [\<lparr>cb_id = i, cb_userId = userId, cb_name = cc_name config,
      cb_version = cc_version config, cb_config = config, cb_filePath = filePath, cb_status = ''active'',
      cb_createdAt = c, cb_updatedAt = u\<rparr>], snd k)"
  shows "leaves bots_view k Q (createNewGlobalVersion sv userId config filePath)"
proof -
  have ins: "leaves bots_view k Q (db_insert customBotsTable r)" if "Q (fst k @ [r], snd k)" for r
    using assms(1) that by (intro leavesI)
      (auto simp: db_insert_def external_def db_store_def bots_view_def split: list.splits fault.splits option.splits)
  show ?thesis
    unfolding createNewGlobalVersion_def rev_create_def or_failure_def customBotTable_sel
    by (rule leaves_catch_return,
        rule leaves_read [where Q = Q, OF observes_preserves [OF preserves_now [OF env_free_view]]], rule assms(1),
        rule leaves_read [where Q = Q, OF observes_preserves [OF preserves_now [OF env_free_view]]], rule assms(1),
        rule leaves_read [where Q = Q, OF observes_preserves [OF preserves_draw [OF env_free_view]]], rule assms(1),
        rule leaves_bind, rule ins, rule assms(2), rule leaves_return)
qed

lemma leaves_delete:
  assumes "Q k" "Q (filter (\<lambda>c. \<not> P c) (fst k),
      filter (\<lambda>b. bot_customBotId b \<notin> cb_id ` set (filter P (fst k))) (snd k))"
  shows "leaves bots_view k Q (db_delete customBotsTable P)"
  using assms by (intro leavesI)
    (auto simp: db_delete_def external_def bots_view_def customBotsTable_def split: list.splits fault.splits)

section \<open>The contract\<close>

text \<open>Every name belongs to one user.\<close>

definition one_owner :: "custom_bot_row list \<Rightarrow> bool" where
  "one_owner cs \<longleftrightarrow> (\<forall>c\<in>set cs. \<forall>d\<in>set cs. cb_name c = cb_name d \<longrightarrow> cb_userId c = cb_userId d)"

definition versions_of :: "string \<Rightarrow> custom_bot_row list \<Rightarrow> custom_bot_row list" where
  "versions_of v cs = filter (\<lambda>c. cb_userId c = v) cs"

text \<open>
  What a request of the user \<open>u\<close> may do: deployed instances stay, names keep having one owner,
  and the versions of every other user stay as they are.
\<close>

definition cb_contract :: "string \<Rightarrow> custom_bot_row list \<times> bot_row list \<Rightarrow> custom_bot_row list \<times> bot_row list \<Rightarrow> bool" where
  "cb_contract u k k' \<longleftrightarrow> snd k' = snd k \<and> (one_owner (fst k) \<longrightarrow> one_owner (fst k'))
     \<and> (\<forall>v. v \<noteq> u \<longrightarrow> versions_of v (fst k') = versions_of v (fst k))"

lemma cb_contract_refl: "cb_contract u k k"
  by (simp add: cb_contract_def)

lemma cb_contract_create:
  assumes "\<And>c. one_owner (fst k) \<Longrightarrow> c \<in> set (fst k) \<Longrightarrow> cb_name c = cb_name r \<Longrightarrow> cb_userId c = u"
    and "cb_userId r = u"
  shows "cb_contract u k (fst k @ [r], snd k)"
proof -
  have "one_owner (fst k @ [r])" if one: "one_owner (fst k)"
  proof -
    have same: "cb_userId c = cb_userId d"
      if "c = r \<or> c \<in> set (fst k)" "d = r \<or> d \<in> set (fst k)" "cb_name c = cb_name d" for c d
      using that(1,2)
    proof (elim disjE)
      assume cr: "c = r" and d: "d \<in> set (fst k)"
      have "cb_name d = cb_name r" using that(3) unfolding cr by (rule sym)
      from assms(1) [OF one d this] show ?thesis unfolding cr assms(2) by (rule sym)
    next
      assume c: "c \<in> set (fst k)" and dr: "d = r"
      have "cb_name c = cb_name r" using that(3) unfolding dr .
      from assms(1) [OF one c this] show ?thesis unfolding dr assms(2) .
    next
      assume "c \<in> set (fst k)" "d \<in> set (fst k)"
      then show ?thesis using one that(3) unfolding one_owner_def by blast
    next
      assume "c = r" "d = r"
      then show ?thesis by (simp only:)
    qed
    show ?thesis
      unfolding one_owner_def
    proof (intro ballI impI)
      fix c d assume "c \<in> set (fst k @ [r])" "d \<in> set (fst k @ [r])" and n: "cb_name c = cb_name d"
      then have "c = r \<or> c \<in> set (fst k)" "d = r \<or> d \<in> set (fst k)" by auto
      then show "cb_userId c = cb_userId d" using n by (rule same)
    qed
  qed
  moreover have "versions_of v (fst k @ [r]) = versions_of v (fst k)" if "v \<noteq> u" for v
    using that assms(2) by (simp add: versions_of_def)
  ultimately show ?thesis by (simp add: cb_contract_def)
qed

lemma filter_all: "(\<And>x. x \<in> set xs \<Longrightarrow> P x) \<Longrightarrow> filter P xs = xs"
  by (simp add: filter_id_conv)

lemma cb_contract_delete:
  assumes "\<And>c. P c \<Longrightarrow> cb_userId c = u"
    and "\<And>c b. c \<in> set (fst k) \<Longrightarrow> P c \<Longrightarrow> b \<in> set (snd k) \<Longrightarrow> bot_customBotId b \<noteq> cb_id c"
  shows "cb_contract u k (filter (\<lambda>c. \<not> P c) (fst k),
      filter (\<lambda>b. bot_customBotId b \<notin> cb_id ` set (filter P (fst k))) (snd k))"
proof -
  have "filter (\<lambda>b. bot_customBotId b \<notin> cb_id ` set (filter P (fst k))) (snd k) = snd k"
    by (rule filter_all) (use assms(2) in auto)
  moreover have "versions_of v (filter (\<lambda>c. \<not> P c) (fst k)) = versions_of v (fst k)" if "v \<noteq> u" for v
    unfolding versions_of_def filter_filter by (rule filter_cong) (use assms(1) that in auto)
  moreover have "one_owner (filter (\<lambda>c. \<not> P c) (fst k))" if "one_owner (fst k)"
    using that unfolding one_owner_def set_filter by blast
  ultimately show ?thesis by (simp add: cb_contract_def)
qed

section \<open>Every request respects it\<close>

lemma leaves_store:
  assumes "\<And>c. one_owner (fst k) \<Longrightarrow> c \<in> set (fst k) \<Longrightarrow> cb_name c = cc_name config \<Longrightarrow> cb_userId c = u"
  shows "leaves bots_view k (cb_contract u k) (storeVersion sv u config filePath)"
proof -
  have created: "leaves bots_view k (cb_contract u k) (createNewGlobalVersion sv u cfg filePath)"
    if "cc_name cfg = cc_name config" for cfg
    by (rule leaves_create [OF cb_contract_refl], rule cb_contract_create) (use assms that in simp_all)
  show ?thesis
    unfolding storeVersion_def Let_def getSpecificGlobalVersion_def rev_findGlobalByKeyAndVersion_def
    apply (rule leaves_read [OF observes_storage(1) cb_contract_refl], rule leaves_result)
     apply (rule leaves_read [OF observes_storage(2) cb_contract_refl])
     apply (rule leaves_ok_bind, rule created, simp)
     apply (erule leaves_observes [OF observes_one])
    apply (rule leaves_return, rule cb_contract_refl)
    done
qed

lemma leaves_with: "leaves K k Q m \<Longrightarrow> leaves K k Q (or_failure_with msg m)"
  unfolding or_failure_with_def by (rule leaves_catch_return)

lemma contract_create: "leaves bots_view k (cb_contract u k) (createCustomBot sv u j filePath)"
  unfolding createCustomBot_def
proof (rule leaves_with, rule leaves_result)
  fix c
  show "leaves bots_view k (cb_contract u k) (create_body sv u c filePath)"
    unfolding create_body_def
    by (rule leaves_ok_read [OF observes_exists cb_contract_refl], intro leaves_if leaves_return cb_contract_refl)
      (rule leaves_store, auto)
qed (rule leaves_return, rule cb_contract_refl)

lemma contract_update: "leaves bots_view k (cb_contract u k) (updateCustomBot sv u name j filePath)"
  unfolding updateCustomBot_def
proof (rule leaves_with, rule leaves_result)
  fix c
  show "leaves bots_view k (cb_contract u k) (update_body sv u name c filePath)"
    unfolding update_body_def
  proof (intro leaves_if leaves_return cb_contract_refl)
    assume "\<not> cc_name c \<noteq> name"
    then have name: "cc_name c = name" by simp
    have store: "leaves bots_view k (cb_contract u k) (storeVersion sv u c filePath)"
      if ex: "\<exists>d\<in>set (fst k). cb_name d = name \<and> cb_userId d = u"
    proof (rule leaves_store)
      fix e assume e: "one_owner (fst k)" "e \<in> set (fst k)" "cb_name e = cc_name c"
      obtain d where d: "d \<in> set (fst k)" "cb_name d = name" "cb_userId d = u" using ex by blast
      have "cb_name e = cb_name d" using e(3) d(2) name by (simp only:)
      then have "cb_userId e = cb_userId d" using e(1,2) d(1) unfolding one_owner_def by blast
      then show "cb_userId e = u" using d(3) by (simp only:)
    qed
    show "leaves bots_view k (cb_contract u k) (ok_bind (globalBotExists name) (\<lambda>existing.
        if \<not> existing then io_return (Failure ''Custom bot does not exist. Create it first using POST.'')
        else ok_bind (checkUserOwnership u name) (\<lambda>_.
        ok_bind (rev_getGlobalLatestVersion customBotTable name) (\<lambda>latestBot.
        if \<not> isVersionNewer sv (cb_version latestBot) (cc_version c)
        then io_return (Failure (''Version '' @ cc_version c @ '' must be greater than current version ''
               @ cb_version latestBot))
        else ok_bind (globalVersionExists name (cc_version c)) (\<lambda>taken.
        if taken then io_return (Failure (''Version '' @ cc_version c @ '' already exists for this bot''))
        else storeVersion sv u c filePath)))))"
      unfolding rev_getGlobalLatestVersion_def
      apply (rule leaves_ok_read [OF observes_exists cb_contract_refl], intro leaves_if leaves_return cb_contract_refl)
      apply (rule leaves_ok_read [OF observes_owner cb_contract_refl])
      apply (rule leaves_ok_read [OF observes_newest cb_contract_refl], intro leaves_if leaves_return cb_contract_refl)
      apply (rule leaves_ok_read [OF observes_version_exists cb_contract_refl], intro leaves_if leaves_return cb_contract_refl)
      apply (rule store, blast)
      done
  qed
qed (rule leaves_return, rule cb_contract_refl)

lemma leaves_cleanup: "Q k \<Longrightarrow> leaves bots_view k Q (io_bind (cleanup sv p) (\<lambda>_. io_return (Ok ())))"
  by (rule leaves_bind [OF leaves_observes [OF observes_storage(3)]]) (auto intro: leaves_return)

text \<open>A guarded removal followed by the best-effort cleanup.\<close>

lemma leaves_removal:
  assumes "cb_contract u k (filter (\<lambda>c. \<not> P c) (fst k),
      filter (\<lambda>b. bot_customBotId b \<notin> cb_id ` set (filter P (fst k))) (snd k))"
  shows "leaves bots_view k (cb_contract u k)
     (ok_bind (or_failure (io_bind (db_delete customBotsTable P) (\<lambda>_. io_return (Ok ())))) (\<lambda>_.
        io_bind (cleanup sv p) (\<lambda>_. io_return (Ok ()))))"
  unfolding or_failure_def
  apply (rule leaves_ok_bind)
   apply (rule leaves_catch_return, rule leaves_bind)
    apply (rule leaves_delete, rule cb_contract_refl, rule assms)
   apply (erule leaves_return)
  apply (erule leaves_cleanup)
  done

lemma unused_version: "\<forall>n. Ok x = Ok n \<longrightarrow> n = m \<Longrightarrow> \<not> (0::nat) < x \<Longrightarrow> m = 0"
  by simp

lemma contract_deleteVersion: "leaves bots_view k (cb_contract u k) (deleteVersion sv u name version)"
proof -
  have removal: "cb_contract u k (filter (\<lambda>c. \<not> (cb_userId c = u \<and> cb_id c = i)) (fst k),
      filter (\<lambda>b. bot_customBotId b \<notin> cb_id ` set (filter (\<lambda>c. cb_userId c = u \<and> cb_id c = i) (fst k))) (snd k))"
    if "length (filter (\<lambda>b. bot_customBotId b = i) (snd k)) = 0" for i
    by (rule cb_contract_delete) (use that in \<open>auto simp: filter_empty_conv\<close>)
  show ?thesis
    unfolding deleteVersion_def getSpecificGlobalVersion_def rev_findGlobalByKeyAndVersion_def
      rev_remove_def customBotTable_sel
    apply (rule leaves_ok_read [OF observes_owner cb_contract_refl])
    apply (rule leaves_ok_read [OF observes_one cb_contract_refl])
    apply (rule leaves_ok_read [OF observes_count cb_contract_refl])
    apply (rule leaves_if, rule leaves_return, rule cb_contract_refl)
    apply (rule leaves_removal, rule removal)
    apply (erule (1) unused_version)
    done
qed

lemma observes_all_versions:
  "observes bots_view (\<lambda>k r. \<forall>b. r = Ok b \<longrightarrow> set (map bv_id (bw_versions b)) =
      cb_id ` {c \<in> set (fst k). cb_name c = name}) (getAllGlobalVersions name)"
proof (rule observes_read)
  fix k
  show "preserves (\<lambda>w. bots_view w = k) (getAllGlobalVersions name)"
    unfolding getAllGlobalVersions_def rev_findGlobalByKey_def
    by (intro preserves_bind view_rev preserves_return)
next
  fix w b w'
  assume "getAllGlobalVersions name w = (Inr (Ok b), w')"
  then obtain c cs where r: "rev_findGlobalByKey customBotTable name w = (Inr (Ok (c # cs)), w')"
    and b: "b = with_versions (c # cs)"
    by (auto simp: getAllGlobalVersions_def io_bind_run all_versions_def
        split: prod.splits sum.splits result.splits list.splits)
  have "c # cs = order_desc cb_createdAt (filter (\<lambda>r. cb_name r = name) (custom_bots w))"
    using versions.many_sound r unfolding rev_findGlobalByKey_def by fastforce
  then have "set (c # cs) = {x \<in> set (custom_bots w). cb_name x = name}"
    by (metis order_desc_set set_filter)
  moreover have "map bv_id (bw_versions b) = map cb_id (c # cs)"
    unfolding b with_versions_def Let_def by (simp add: to_version_def)
  ultimately show "set (map bv_id (bw_versions b)) = cb_id ` {c \<in> set (fst (bots_view w)). cb_name c = name}"
    by (simp only: set_map bots_view_def fst_conv)
qed

lemma unused_counts:
  assumes "\<not> length (versions_in_use vs counts) > 0" "map_of counts i = Some n"
  shows "n = 0"
  using assms map_of_SomeD [OF assms(2)] by (auto simp: versions_in_use_def filter_empty_conv)

lemma Ok_only: "\<forall>y. Ok x = Ok y \<longrightarrow> P y \<Longrightarrow> P x"
  by simp

lemma contract_deleteAll: "leaves bots_view k (cb_contract u k) (deleteAllVersions sv u name)"
proof -
  have removal: "cb_contract u k (filter (\<lambda>c. \<not> (cb_userId c = u \<and> cb_name c = name)) (fst k),
      filter (\<lambda>b. bot_customBotId b \<notin> cb_id ` set (filter (\<lambda>c. cb_userId c = u \<and> cb_name c = name) (fst k))) (snd k))"
    if ids: "set ids = cb_id ` {c \<in> set (fst k). cb_name c = name}"
      and counts: "\<forall>i. map_of counts i = (if i \<in> set ids
        then Some (length (filter (\<lambda>b. bot_customBotId b = i) (snd k))) else None)"
      and unused: "\<not> length (versions_in_use vs counts) > 0" for ids counts vs
  proof (rule cb_contract_delete)
    fix c b assume c: "c \<in> set (fst k)" "cb_userId c = u \<and> cb_name c = name" and b: "b \<in> set (snd k)"
    then have "cb_id c \<in> set ids" using ids by auto
    then have "length (filter (\<lambda>b. bot_customBotId b = cb_id c) (snd k)) = 0"
      using counts unused_counts [OF unused, of "cb_id c"] by simp
    then show "bot_customBotId b \<noteq> cb_id c" using b by (auto simp: filter_empty_conv)
  qed simp
  show ?thesis
    unfolding deleteAllVersions_def removeAllByName_def Let_def
    apply (rule leaves_ok_read [OF observes_owner cb_contract_refl])
    apply (rule leaves_ok_read [OF observes_all_versions cb_contract_refl])
    apply (rule leaves_ok_read [OF observes_counts cb_contract_refl])
    apply (rule leaves_if, rule leaves_return, rule cb_contract_refl)
    apply (rule leaves_removal, rule removal)
      apply (erule Ok_only)
     apply (erule Ok_only)
    apply assumption
    done
qed

section \<open>Sequences of requests\<close>

datatype custom_bot_request =
    PostBot string "string option" "json option"
  | PutBot string "string option" "json option"
  | DeleteVersion string string
  | DeleteAllVersions string

fun handle_custom_bot :: "server \<Rightarrow> authenticated_user \<Rightarrow> custom_bot_request \<Rightarrow> (world, unit) io" where
  "handle_custom_bot sv user (PostBot name config filePath) = ignore_result (post_custom_bot sv name config filePath user)"
| "handle_custom_bot sv user (PutBot name config filePath) = ignore_result (put_custom_bot sv name config filePath user)"
| "handle_custom_bot sv user (DeleteVersion name version) = ignore_result (delete_version sv name version user)"
| "handle_custom_bot sv user (DeleteAllVersions name) = ignore_result (delete_all_versions sv name user)"

definition serve_custom_bots :: "server \<Rightarrow> (authenticated_user \<times> custom_bot_request) list \<Rightarrow> (world, unit) io" where
  "serve_custom_bots sv reqs = io_for reqs (\<lambda>(user, req). handle_custom_bot sv user req)"

lemma leaves_ignore: "leaves K k Q m \<Longrightarrow> leaves K k Q (ignore_result m)"
  unfolding ignore_result_def
  by (rule leaves_catch_return, rule leaves_bind, assumption, erule leaves_return)

lemma leaves_unwrap: "Q k \<Longrightarrow> leaves K k Q (unwrap_as n r)"
  by (simp add: unwrap_as_def leaves_def split: result.split)

lemma observes_deploy_checks: "observes bots_view (\<lambda>_ _. True) (deploy_checks sv name config filePath u)"
proof (rule observes_preserves)
  fix k
  have "preserves (\<lambda>w. bots_view w = k) (validateFilePath filePath u)"
    by (auto simp: validateFilePath_def Let_def intro: preserves_throw preserves_return split: option.split json.split)
  moreover have "preserves (\<lambda>w. bots_view w = k) (json_name j)" for j
    by (auto simp: json_name_def intro: preserves_throw preserves_return split: json.split)
  ultimately show "preserves (\<lambda>w. bots_view w = k) (deploy_checks sv name config filePath u)"
    unfolding deploy_checks_def
    by (intro preserves_bind preserves_storage store_free_view)
      (auto intro!: preserves_bind preserves_throw preserves_return split: result.split bool.split option.split)
qed

lemma contract_handle: "leaves bots_view k (cb_contract (au_uid user) k) (handle_custom_bot sv user req)"
  by (cases req; simp only: handle_custom_bot.simps post_custom_bot_def put_custom_bot_def delete_version_def
      delete_all_versions_def; rule leaves_ignore)
    (rule leaves_read [OF observes_deploy_checks cb_contract_refl], simp only: case_prod_beta,
      rule leaves_bind [OF contract_create leaves_unwrap], assumption,
     rule leaves_read [OF observes_deploy_checks cb_contract_refl], simp only: case_prod_beta,
      rule leaves_bind [OF contract_update leaves_unwrap], assumption,
     rule leaves_bind [OF contract_deleteVersion leaves_unwrap], assumption,
     rule leaves_bind [OF contract_deleteAll leaves_unwrap], assumption)

text \<open>What every sequence keeps: the instances, and that a name has one owner.\<close>

lemma serve_keeps:
  "leaves bots_view k (\<lambda>k'. snd k' = snd k \<and> (one_owner (fst k) \<longrightarrow> one_owner (fst k'))) (serve_custom_bots sv reqs)"
  unfolding serve_custom_bots_def
proof (induction reqs arbitrary: k)
  case Nil
  show ?case by (simp only: io_for.simps) (rule leaves_return, simp)
next
  case (Cons a reqs)
  obtain user req where [simp]: "a = (user, req)" by (cases a)
  have first: "leaves bots_view k (\<lambda>k'. snd k' = snd k \<and> (one_owner (fst k) \<longrightarrow> one_owner (fst k')))
      (handle_custom_bot sv user req)"
    by (rule leaves_mono [OF contract_handle]) (simp add: cb_contract_def)
  show ?case
    by (simp only: io_for.simps \<open>a = (user, req)\<close> prod.case)
      (rule leaves_bind [OF first], rule leaves_mono [OF Cons.IH], simp)
qed

text \<open>Uploading, updating and deleting bots never removes or changes a deployed instance: a
  version is only deleted when no instance uses it, whatever fails on the way.\<close>

theorem instances_survive: "bots (snd (serve_custom_bots sv reqs w)) = bots w"
  using leavesD [OF serve_keeps refl, of sv reqs w] by (simp add: bots_view_def)

text \<open>C15. A bot name belongs to one user: nobody can publish a version under the name of
  somebody else's bot, in any sequence of requests of any users, each served to its end before the
  next begins. (Uploads under way at the same time are not covered: the check of the name and the
  insert are two calls.)\<close>

theorem bot_names_have_one_owner:
  assumes "one_owner (custom_bots w)"
  shows "one_owner (custom_bots (snd (serve_custom_bots sv reqs w)))"
  using leavesD [OF serve_keeps refl, of sv reqs w] assms by (simp add: bots_view_def)

text \<open>A request of one user leaves the versions of every other user untouched.\<close>

theorem custom_bots_isolated:
  assumes "v \<noteq> au_uid user"
  shows "versions_of v (custom_bots (snd (handle_custom_bot sv user req w))) = versions_of v (custom_bots w)"
  using leavesD [where w = w, OF contract_handle [of _ user sv req] refl] assms by (simp add: cb_contract_def bots_view_def)

section \<open>New versions are newer\<close>

lemma storeVersion_Ok:
  assumes "storeVersion sv u config filePath w = (Inr (Ok c), w')"
  shows "cb_name c = cc_name config \<and> cb_version c = cc_version config"
proof -
  obtain w1 where "getSpecificGlobalVersion (cc_name config) (cc_version config) w1 = (Inr (Ok c), w')"
    using assms unfolding storeVersion_def Let_def
    by (elim io_bind_InrE) (auto elim!: io_bind_InrE ok_bind_OkE split: result.splits)
  then show ?thesis
    using versions.one_sound unfolding getSpecificGlobalVersion_def rev_findGlobalByKeyAndVersion_def
    by fastforce
qed

text \<open>The steps an accepted update went through.\<close>

lemma update_body_Ok:
  assumes "update_body sv userId name cfg filePath w = (Inr (Ok c), w')"
  obtains b w1 b' w2 latest w3 w4 where "cc_name cfg = name" "globalBotExists name w = (Inr (Ok b), w1)"
    "checkUserOwnership userId name w1 = (Inr (Ok b'), w2)"
    "rev_getGlobalLatestVersion customBotTable name w2 = (Inr (Ok latest), w3)"
    "isVersionNewer sv (cb_version latest) (cc_version cfg)"
    "storeVersion sv userId cfg filePath w4 = (Inr (Ok c), w')"
  using assms unfolding update_body_def
  by (simp split: if_splits) (elim ok_bind_OkE, simp split: if_splits, elim ok_bind_OkE, simp split: if_splits,
      elim ok_bind_OkE, simp split: if_splits)

text \<open>C16. An accepted update is made by the owner and its version is greater than the one that was
  the newest of the name.\<close>

theorem update_is_newer:
  assumes "updateCustomBot sv userId name j filePath w = (Inr (Ok c), w')"
  shows "cb_name c = name \<and> (\<exists>latest\<in>set (custom_bots w). cb_name latest = name
    \<and> (\<forall>x\<in>set (custom_bots w). cb_name x = name \<longrightarrow> cb_createdAt x \<le> cb_createdAt latest)
    \<and> semver_gt sv (cb_version c) (cb_version latest)
    \<and> (\<exists>own\<in>set (custom_bots w). cb_name own = name \<and> cb_userId own = userId))"
proof -
  obtain cfg where "update_body sv userId name cfg filePath w = (Inr (Ok c), w')"
    using assms unfolding updateCustomBot_def or_failure_with_def
    by (auto simp: io_catch_run split: result.splits prod.splits sum.splits)
  then obtain b w1 b' w2 latest w3 w4 where r: "cc_name cfg = name" "globalBotExists name w = (Inr (Ok b), w1)"
    "checkUserOwnership userId name w1 = (Inr (Ok b'), w2)"
    "rev_getGlobalLatestVersion customBotTable name w2 = (Inr (Ok latest), w3)"
    "isVersionNewer sv (cb_version latest) (cc_version cfg)"
    "storeVersion sv userId cfg filePath w4 = (Inr (Ok c), w')"
    by (rule update_body_Ok)
  have w1: "bots_view w1 = bots_view w" using observesD(1) [OF observes_exists r(2)] .
  have w2: "bots_view w2 = bots_view w" using observesD(1) [OF observes_owner r(3)] w1 by simp
  have "latest \<in> set (custom_bots w) \<and> cb_name latest = name
      \<and> (\<forall>x\<in>set (custom_bots w). cb_name x = name \<longrightarrow> cb_createdAt x \<le> cb_createdAt latest)"
    using observesD(2) [OF observes_newest r(4) [unfolded rev_getGlobalLatestVersion_def]] w2
    by (simp add: bots_view_def)
  moreover have "\<exists>own\<in>set (custom_bots w). cb_name own = name \<and> cb_userId own = userId"
    using observesD(2) [OF observes_owner r(3)] w1 by (simp add: bots_view_def)
  ultimately show ?thesis
    using storeVersion_Ok [OF r(6)] r(1,5) by (auto simp: isVersionNewer_def)
qed

section \<open>Concrete requests\<close>

definition demo_ann :: authenticated_user where
  "demo_ann = \<lparr>au_uid = ''id-ann'', au_id = ''id-ann'', au_username = ''ann'', au_email = ''ann@q.io'',
     au_firstName = None, au_lastName = None, au_isActive = True, au_isEmailVerified = True,
     au_role = USER, au_authType = ''session''\<rparr>"

lemma two_versions_one_owner: "one_owner (custom_bots two_versions)"
  by (simp add: one_owner_def two_versions_sel)

theorem bot_names_have_one_owner_witness:
  "one_owner (custom_bots (snd (serve_custom_bots demo_server
     [(demo_ann, DeleteVersion ''trend-bot'' ''1.0.1''), (demo_ann, PutBot ''trend-bot'' (Some ''{}'') None)] two_versions)))"
  by (rule bot_names_have_one_owner [OF two_versions_one_owner])

theorem custom_bots_isolated_witness:
  "versions_of ''id-root'' (custom_bots (snd (handle_custom_bot demo_server demo_ann (DeleteAllVersions ''trend-bot'') two_versions)))
     = versions_of ''id-root'' (custom_bots two_versions)"
  by (rule custom_bots_isolated) (simp add: demo_ann_def)

text \<open>Ann publishes version 1.10.10 of her bot.\<close>

definition demo_update :: json where
  "demo_update = JObj [(''name'', JStr ''trend-bot''), (''version'', JStr ''1.10.10''), (''type'', JStr ''scheduled''),
     (''runtime'', JStr ''nodejs20''), (''readme'', JStr (replicate 60 (CHR ''x''))),
     (''entrypoints'', JObj [(''bot'', JStr ''bot.py'')]), (''schema'', JObj [(''bot'', JObj [])])]"

definition demo_update_config :: custom_bot_config where
  "demo_update_config = \<lparr>cc_name = ''trend-bot'', cc_description = None, cc_version = ''1.10.10'', cc_type = ''scheduled'',
     cc_runtime = ''nodejs20'', cc_author = None, cc_entrypoints = [(''bot'', ''bot.py'')], cc_schema_bot = [],
     cc_readme = replicate 60 (CHR ''x''), cc_hasFrontend = None, cc_metadata = None\<rparr>"

lemma demo_update_checked: "checked_config demo_server demo_update = Ok demo_update_config"
proof -
  have "customBotConfigSchema demo_update"
    by (simp add: demo_update_def customBotConfigSchema_def required_props_def allowed_props_def has_prop_def
        prop_ok_def only_props_def bot_name_ok_def bot_version_ok_def semver_text_def str_in_def str_between_def
        RUNTIMES_def BOT_TYPES_def entrypoints_ok_def schema_ok_def is_str_def is_obj_def is_lower_alnum_def is_digit_def Let_def)
  moreover have "decode_config demo_update = Some demo_update_config"
    by (simp add: demo_update_def demo_update_config_def decode_config_def str_field_def obj_field_def str_values_def)
  moreover have "validateSchema demo_server s = None" for s
    by (simp add: validateSchema_def demo_server_def)
  ultimately show ?thesis
    by (simp add: checked_config_def validateCustomBotConfigPayload_def)
qed

lemma demo_update_accepted:
  "\<exists>c w'. updateCustomBot demo_server ''id-ann'' ''trend-bot'' demo_update ''id-ann/trend-bot/1.0.1'' two_versions
     = (Inr (Ok c), w')"
proof -
  have zip: "validateZipStructure demo_server ''id-ann/trend-bot/1.0.1'' (requiredFiles demo_update_config) two_versions
      = (Inr (Ok True), two_versions)"
    by (simp add: validateZipStructure_def or_failure_with_def io_catch_run io_bind_run client_calm two_versions_sel
        requiredFiles_def COMPILED_RUNTIMES_def demo_update_config_def parse_zip_def missing_file_def)
      (simp add: two_versions_def demo_server_def)
  have frontend: "extractAndStoreFrontend demo_server ''id-ann/trend-bot/1.0.1'' ''id-ann'' ''trend-bot'' ''1.10.10'' two_versions
      = (Inr (Ok None), two_versions)"
    by (simp add: extractAndStoreFrontend_def or_failure_with_def io_catch_run io_bind_run client_calm two_versions_sel
        parse_zip_def frontend_paths_def)
      (simp add: two_versions_def demo_server_def)
  define r where "r = \<lparr>cb_id = createId demo_server 0, cb_userId = ''id-ann'', cb_name = ''trend-bot'', cb_version = ''1.10.10'',
     cb_config = demo_update_config\<lparr>cc_hasFrontend := Some False\<rparr>, cb_filePath = ''id-ann/trend-bot/1.0.1'',
     cb_status = ''active'', cb_createdAt = 1001, cb_updatedAt = 1003\<rparr>"
  have sel: "cc_name demo_update_config = ''trend-bot''" "cc_version demo_update_config = ''1.10.10''"
    "cc_runtime demo_update_config = ''nodejs20''"
    by (simp_all add: demo_update_config_def)
  have put: "db_insert customBotsTable r w = (Inr r, w\<lparr>custom_bots := custom_bots w @ [r]\<rparr>)"
    if "custom_bots w = custom_bots two_versions" "users w = users demo_world" "faults w = []" for w
    using that by (simp add: db_insert_calm db_store_def customBotsTable_def two_versions_sel r_def demo_server_def
        demo_world_def demo_user_def nat_to_string.simps)
  define w1 where "w1 = two_versions\<lparr>clock := 1003, ticks := [3], nonce := 1, custom_bots := custom_bots two_versions @ [r]\<rparr>"
  have create: "createNewGlobalVersion demo_server ''id-ann'' (demo_update_config\<lparr>cc_hasFrontend := Some False\<rparr>)
     ''id-ann/trend-bot/1.0.1'' two_versions = (Inr (Ok r), w1)"
    unfolding createNewGlobalVersion_def rev_create_def or_failure_def
    by (simp add: io_catch_run io_bind_run js_now_def draw_def sel r_def [symmetric] put w1_def two_versions_def demo_world_def)
  have "faults w1 = []" by (simp add: w1_def two_versions_sel)
  moreover have "cb_name r = ''trend-bot''" "cb_version r = ''1.10.10''" by (simp_all add: r_def)
  ultimately have "getSpecificGlobalVersion ''trend-bot'' ''1.10.10'' w1 = (Inr (Ok r), w1)"
    by (simp add: getSpecificGlobalVersion_def rev_findGlobalByKeyAndVersion_def rev_reads_calm two_versions_sel w1_def)
  then have store: "storeVersion demo_server ''id-ann'' demo_update_config ''id-ann/trend-bot/1.0.1'' two_versions = (Inr (Ok r), w1)"
    by (simp add: storeVersion_def Let_def io_bind_run zip frontend sel ok_bind_run create)
  have "update_body demo_server ''id-ann'' ''trend-bot'' demo_update_config ''id-ann/trend-bot/1.0.1'' two_versions = (Inr (Ok r), w1)"
    by (simp add: update_body_def sel RUNTIMES_def ok_bind_run globalBotExists_def rev_findGlobalByKey_def io_bind_run
        rev_reads_calm two_versions_sel order_desc_def exists_from_def checkUserOwnership_def
        rev_getGlobalLatestVersion_def globalVersionExists_def rev_findGlobalByKeyAndVersion_def store)
      (simp add: isVersionNewer_def demo_server_def)
  then show ?thesis
    by (simp add: updateCustomBot_def or_failure_with_def demo_update_checked io_catch_run)
qed

theorem update_is_newer_witness:
  "\<exists>c :: custom_bot_row. cb_name c = ''trend-bot'' \<and> (\<exists>latest\<in>set (custom_bots two_versions). cb_name latest = ''trend-bot''
    \<and> (\<forall>x\<in>set (custom_bots two_versions). cb_name x = ''trend-bot'' \<longrightarrow> cb_createdAt x \<le> cb_createdAt latest)
    \<and> semver_gt demo_server (cb_version c) (cb_version latest)
    \<and> (\<exists>own\<in>set (custom_bots two_versions). cb_name own = ''trend-bot'' \<and> cb_userId own = ''id-ann''))"
proof -
  obtain c w' where "updateCustomBot demo_server ''id-ann'' ''trend-bot'' demo_update ''id-ann/trend-bot/1.0.1'' two_versions
     = (Inr (Ok c), w')"
    using demo_update_accepted by (elim exE)
  from update_is_newer [OF this] show ?thesis by (intro exI [of _ c])
qed

end
