(* ===== verification/CustomBotFiles.thy ===== *)
theory CustomBotFiles
  imports CustomBots
begin

text \<open>
  What the operations on custom bots do to the files of the object store, and concrete runs of
  them: the path a request may name, the exact effect of a deletion, and the archive that the
  deletion of another version takes with it.
\<close>

section \<open>The path of a request\<close>

text \<open>C17. The path that a request is allowed to use lies below the directory of the
  authenticated user and cannot leave it: it has neither \<open>..\<close> nor an empty segment, and white
  space around it is gone.\<close>

theorem validateFilePath_confined:
  assumes "validateFilePath filePath userId w = (Inr p, w')"
  shows "prefix (userId @ ''/'') p \<and> \<not> sublist ''..'' p \<and> \<not> sublist ''//'' p \<and> js_trim p = p \<and> w' = w"
  using assms by (auto simp: validateFilePath_def Let_def js_includes_def js_starts_with_def js_trim_idem
      split: option.splits json.splits if_splits)

theorem validateFilePath_confined_witness:
  "prefix (''id-ann'' @ ''/'') ''id-ann/trend-bot/1.0.1'' \<and> \<not> sublist ''..'' ''id-ann/trend-bot/1.0.1''
    \<and> \<not> sublist ''//'' ''id-ann/trend-bot/1.0.1'' \<and> js_trim ''id-ann/trend-bot/1.0.1'' = ''id-ann/trend-bot/1.0.1''
    \<and> demo_world = demo_world"
  by (rule validateFilePath_confined [where filePath = "Some (JStr '' id-ann/trend-bot/1.0.1'')"])
    (simp add: validateFilePath_def js_trim_def is_js_space_def Let_def js_includes_def js_starts_with_def
      sublist_Cons_right)

section \<open>The effect of a deletion\<close>

lemma cleanup_calm:
  assumes "faults w = []"
  shows "cleanup sv p w = (Inr (), w\<lparr>objects :=
     filter (\<lambda>e. \<not> (fst (fst e) = bots_bucket sv \<and> prefix p (snd (fst e)))) (objects w)\<rparr>)"
proof -
  have delete: "io_for ks (\<lambda>f. io_bind (deleteFile sv f) (\<lambda>_. io_return ())) w
      = (Inr (), w\<lparr>objects := filter (\<lambda>e. \<not> (fst (fst e) = bots_bucket sv \<and> snd (fst e) \<in> set ks)) (objects w)\<rparr>)"
    if "faults w = []" for ks w
    using that
  proof (induction ks arbitrary: w)
    case (Cons k ks)
    have "filter (\<lambda>e. \<not> (fst (fst e) = bots_bucket sv \<and> snd (fst e) \<in> set ks))
          (AList.delete (bots_bucket sv, k) (objects w))
        = filter (\<lambda>e. \<not> (fst (fst e) = bots_bucket sv \<and> snd (fst e) \<in> set (k # ks))) (objects w)"
      by (auto simp: AList.delete_eq intro!: filter_cong)
    then show ?case
      using Cons by (simp add: io_bind_run deleteFile_def or_failure_with_def io_catch_run client_calm)
  qed simp
  have "filter (\<lambda>e. \<not> (fst (fst e) = bots_bucket sv \<and> snd (fst e) \<in> set (keys_with_prefix (bots_bucket sv) p w))) (objects w)
      = filter (\<lambda>e. \<not> (fst (fst e) = bots_bucket sv \<and> prefix p (snd (fst e)))) (objects w)"
    by (force simp: keys_with_prefix_def intro!: filter_cong)
  then show ?thesis
    using assms delete [OF assms] by (simp add: cleanup_def listObjects_def or_failure_with_def io_bind_run
        io_catch_run client_calm)
qed

text \<open>Without failures, an accepted deletion of a version removes its row, keeps every instance,
  and removes from the bucket every object whose name begins with the path of the version's
  archive.\<close>

theorem deleteVersion_effect:
  assumes "faults w = []" "deleteVersion sv userId name version w = (Inr (Ok ()), w')"
  shows "\<exists>c\<in>set (custom_bots w). cb_name c = name \<and> cb_version c = version
     \<and> (\<forall>b\<in>set (bots w). bot_customBotId b \<noteq> cb_id c)
     \<and> custom_bots w' = filter (\<lambda>d. \<not> (cb_userId d = userId \<and> cb_id d = cb_id c)) (custom_bots w)
     \<and> objects w' = filter (\<lambda>e. \<not> (fst (fst e) = bots_bucket sv \<and> prefix (cb_filePath c) (snd (fst e)))) (objects w)"
proof -
  obtain b w1 c w2 w3 u w4 where r: "checkUserOwnership userId name w = (Inr (Ok b), w1)"
    "getSpecificGlobalVersion name version w1 = (Inr (Ok c), w2)"
    "countInstancesByCustomBotId (cb_id c) w2 = (Inr (Ok 0), w3)"
    "rev_remove customBotTable userId (cb_id c) w3 = (Inr (Ok u), w4)"
    "io_bind (cleanup sv (cb_filePath c)) (\<lambda>_. io_return (Ok ())) w4 = (Inr (Ok () :: (unit, string) result), w')"
    using assms(2) unfolding deleteVersion_def
    by (elim ok_bind_OkE) (simp only: not_gr_zero split: if_splits, simp, elim ok_bind_OkE, rule that, assumption+)
  have w1: "w1 = w"
    using r(1) assms(1) by (simp add: checkUserOwnership_def rev_findGlobalByKey_def io_bind_run rev_reads_calm
        split: list.splits if_splits)
  have one: "rev_one customBotTable (\<lambda>r. cb_name r = name \<and> cb_version r = version) w = (Inr (Ok c), w2)"
    using r(2) unfolding w1 getSpecificGlobalVersion_def rev_findGlobalByKeyAndVersion_def by simp
  then have w2: "w2 = w" "c \<in> set (custom_bots w)" "cb_name c = name" "cb_version c = version"
    using versions.one_sound [OF one] by (simp_all add: rev_reads_calm [OF assms(1)])
  have w3: "w3 = w" "\<forall>b\<in>set (bots w). bot_customBotId b \<noteq> cb_id c"
    using r(3) assms(1) count_one_sound [OF r(3)] unfolding w2(1)
    by (auto simp: countInstancesByCustomBotId_def or_failure_def io_catch_run io_bind_run db_select_calm filter_empty_conv)
  have w4: "w4 = snd (db_delete customBotsTable (\<lambda>d. cb_userId d = userId \<and> cb_id d = cb_id c) w)"
    using r(4) assms(1) unfolding w3(1) by (simp add: rev_reads_calm)
  have w4': "faults w4 = []" "objects w4 = objects w"
    "custom_bots w4 = filter (\<lambda>d. \<not> (cb_userId d = userId \<and> cb_id d = cb_id c)) (custom_bots w)"
    unfolding w4 using assms(1) by (simp_all add: db_delete_calm customBotsTable_def)
  have "w' = w4\<lparr>objects := filter (\<lambda>e. \<not> (fst (fst e) = bots_bucket sv \<and> prefix (cb_filePath c) (snd (fst e)))) (objects w4)\<rparr>"
    using r(5) by (simp add: io_bind_run cleanup_calm [OF w4'(1)])
  then show ?thesis using w2 w3 w4' by auto
qed

section \<open>A deletion by prefix\<close>

lemma two_versions_delete:
  "\<exists>w'. deleteVersion demo_server ''id-ann'' ''trend-bot'' ''1.0.1'' two_versions = (Inr (Ok ()), w')"
  by (simp add: deleteVersion_def ok_bind_run checkUserOwnership_def rev_findGlobalByKey_def io_bind_run
      rev_reads_calm two_versions_sel order_desc_def getSpecificGlobalVersion_def rev_findGlobalByKeyAndVersion_def
      countInstancesByCustomBotId_def or_failure_def io_catch_run db_select_calm db_delete_calm
      customBotsTable_def cleanup_calm)

theorem deleteVersion_effect_witness:
  "\<exists>w' :: world. \<exists>c\<in>set (custom_bots two_versions). cb_name c = ''trend-bot'' \<and> cb_version c = ''1.0.1''
     \<and> (\<forall>b\<in>set (bots two_versions). bot_customBotId b \<noteq> cb_id c)
     \<and> custom_bots w' = filter (\<lambda>d. \<not> (cb_userId d = ''id-ann'' \<and> cb_id d = cb_id c)) (custom_bots two_versions)
     \<and> objects w' = filter (\<lambda>e. \<not> (fst (fst e) = bots_bucket demo_server \<and> prefix (cb_filePath c) (snd (fst e))))
         (objects two_versions)"
proof -
  obtain w' where "deleteVersion demo_server ''id-ann'' ''trend-bot'' ''1.0.1'' two_versions = (Inr (Ok ()), w')"
    using two_versions_delete by (elim exE) (rule that)
  then show ?thesis by (intro exI [of _ w']) (rule deleteVersion_effect [OF two_versions_sel(1)])
qed

text \<open>Deleting version 1.0.1 of a bot also removes the archive of its version 1.0.10, whose
  row stays and goes on naming the archive: the cleanup deletes by prefix, and the path of one
  version can be a prefix of the path of another.\<close>

theorem deleteVersion_strands_other_version:
  "\<exists>w'. deleteVersion demo_server ''id-ann'' ''trend-bot'' ''1.0.1'' two_versions = (Inr (Ok ()), w')
     \<and> custom_bots w' = [demo_version ''v10'' ''1.0.10'' 20] \<and> objects w' = []"
  by (simp add: deleteVersion_def ok_bind_run checkUserOwnership_def rev_findGlobalByKey_def io_bind_run
      rev_reads_calm two_versions_sel order_desc_def getSpecificGlobalVersion_def rev_findGlobalByKeyAndVersion_def
      countInstancesByCustomBotId_def or_failure_def io_catch_run db_select_calm db_delete_calm
      customBotsTable_def cleanup_calm)
    (simp add: two_versions_def demo_server_def)

section \<open>A failed lookup\<close>

text \<open>The check that a version is still free answers "it does not exist" whenever its query
  fails, also for a version that does exist: the failure is not told from an empty answer.\<close>

theorem failed_lookup_reads_as_free:
  "fst (globalVersionExists name version (w\<lparr>faults := FailBefore e # fs\<rparr>)) = Inr (Ok False)"
  by (simp add: globalVersionExists_def rev_findGlobalByKeyAndVersion_def rev_one_def or_failure_def
      io_bind_run io_catch_run db_select_def external_def)

end
