(* ===== verification/BotValidator.thy ===== *)
theory BotValidator
  imports CustomBots
begin

text \<open>
  api/src/bot/bot.validator.ts and bot.constants.ts: the shape of a bot type, and the check of
  the configuration of an instance against the schema of its bot. ajv and cron-validator are
  parameters. The schema was accepted when the bot was uploaded, so that its \<open>properties\<close> are an
  object; objects are read by their own keys.
\<close>

section \<open>bot.constants.ts\<close>

text \<open>\<open>[a-z0-9]+(-[a-z0-9]+)*\<close>: words joined by single hyphens.\<close>

definition kebab :: "string \<Rightarrow> bool" where
  "kebab s \<longleftrightarrow> list_all (\<lambda>p. p \<noteq> [] \<and> list_all is_lower_alnum p) (split_at (CHR ''-'') s)"

definition bot_type_pattern :: "string \<Rightarrow> bool" where
  "bot_type_pattern s = (case split_at (CHR ''/'') s of [a, b] \<Rightarrow> kebab a \<and> kebab b | _ \<Rightarrow> False)"

record bot_topics =
  CREATED :: string
  UPDATED :: string
  DELETED :: string

definition BOT_TOPICS :: bot_topics where
  "BOT_TOPICS = \<lparr>CREATED = ''quantflow.bot.created'', UPDATED = ''quantflow.bot.updated'',
     DELETED = ''quantflow.bot.deleted''\<rparr>"

definition SCHEDULED_BOT_TOPICS :: bot_topics where
  "SCHEDULED_BOT_TOPICS = \<lparr>CREATED = ''quantflow.bot-schedule.created'', UPDATED = ''quantflow.bot-schedule.updated'',
     DELETED = ''quantflow.bot-schedule.deleted''\<rparr>"

section \<open>Filtering by the schema\<close>

definition schema_properties :: "json \<Rightarrow> (string \<times> json) list" where
  "schema_properties s = (case s of
      JObj kvs \<Rightarrow> (case map_of kvs ''properties'' of Some (JObj ps) \<Rightarrow> ps | _ \<Rightarrow> [])
    | _ \<Rightarrow> [])"

definition schema_field :: "json \<Rightarrow> string \<Rightarrow> json option" where
  "schema_field s k = (case s of JObj kvs \<Rightarrow> map_of kvs k | _ \<Rightarrow> None)"

definition truthy_field :: "json \<Rightarrow> string \<Rightarrow> bool" where
  "truthy_field s k = (case schema_field s k of Some v \<Rightarrow> json_truthy v | None \<Rightarrow> False)"

text \<open>The properties that are filtered in their turn.\<close>

definition closed_object :: "json \<Rightarrow> bool" where
  "closed_object s \<longleftrightarrow> schema_field s ''type'' = Some (JStr ''object'') \<and> truthy_field s ''properties''
     \<and> schema_field s ''additionalProperties'' = Some (JBool False)"

lemma size_map_of: "map_of kvs k = Some v \<Longrightarrow> size v < size_list (size_prod (\<lambda>_. 0) size) kvs"
  by (induction kvs) (auto split: if_splits)

lemma schema_properties_size:
  "size_list (size_prod (\<lambda>_. 0) size) (schema_properties s) \<le> size s"
proof -
  have "size_list (size_prod (\<lambda>_. 0) size) ps \<le> size (JObj kvs)" if "map_of kvs k = Some (JObj ps)" for kvs k ps
    using size_map_of [OF that] by simp
  then show ?thesis
    by (auto simp: schema_properties_def split: json.splits option.splits)
qed

function filterObjectProperties :: "json \<Rightarrow> json \<Rightarrow> json" and filter_keys :: "js_object \<Rightarrow> (string \<times> json) list \<Rightarrow> js_object" where
  "filterObjectProperties (JObj kvs) schema = JObj (filter_keys kvs (schema_properties schema))"
| "filterObjectProperties JNull schema = JNull"
| "filterObjectProperties (JBool b) schema = JBool b"
| "filterObjectProperties (JNum q) schema = JNum q"
| "filterObjectProperties (JStr s) schema = JStr s"
| "filterObjectProperties (JArr xs) schema = JArr xs"
| "filter_keys kvs [] = []"
| "filter_keys kvs ((k, p) # ps) = (case map_of kvs k of
      None \<Rightarrow> filter_keys kvs ps
    | Some v \<Rightarrow> (k, if closed_object p then filterObjectProperties v p else v) # filter_keys kvs ps)"
  by pat_completeness auto
termination
  by (relation "measure (\<lambda>x. case x of Inl (_, s) \<Rightarrow> 2 * size s + 1
      | Inr (_, ps) \<Rightarrow> 2 * size_list (size_prod (\<lambda>_. 0) size) ps)")
    (use schema_properties_size in \<open>auto simp: less_Suc_eq_le\<close>)

definition filterConfigForSchema :: "js_object \<Rightarrow> js_object \<Rightarrow> json" where
  "filterConfigForSchema config schema =
     (if map_of schema ''additionalProperties'' \<noteq> Some (JBool False) then JObj config
      else if \<not> truthy_field (JObj schema) ''properties'' then JObj config
      else filterObjectProperties (JObj config) (JObj schema))"

section \<open>Validation\<close>

text \<open>\<open>!config.k\<close>, for a key that may be absent.\<close>

definition falsy_key :: "js_object \<Rightarrow> string \<Rightarrow> bool" where
  "falsy_key config k = (case map_of config k of None \<Rightarrow> True | Some v \<Rightarrow> \<not> json_truthy v)"

text \<open>\<open>v.split("/")\<close> of a value that may not be a string.\<close>

definition split_slash :: "json \<Rightarrow> (world, string list) io" where
  "split_slash v = (case v of
      JStr s \<Rightarrow> io_return (split_at (CHR ''/'') s)
    | _ \<Rightarrow> io_throw (plain_error ''type.split is not a function''))"

text \<open>One error as the validator words it.\<close>

definition error_text :: "string \<times> string \<Rightarrow> string" where
  "error_text e = (if fst e = [] then snd e else fst e @ '' '' @ snd e)"

definition validateWithSchema :: "server \<Rightarrow> custom_bot_row \<Rightarrow> js_object \<Rightarrow> (world, (bool, string list) result) io" where
  "validateWithSchema sv customBot config =
     (let bot = cc_schema_bot (cb_config customBot) in
      case ajv_validate sv bot (filterConfigForSchema config bot) of
        Inl e \<Rightarrow> io_throw e
      | Inr [] \<Rightarrow> io_return (Ok True)
      | Inr errors \<Rightarrow> io_return (Failure (map error_text errors)))"

definition checkSchedule :: "server \<Rightarrow> js_object \<Rightarrow> (world, string list option) io" where
  "checkSchedule sv config = (case map_of config ''schedule'' of
      None \<Rightarrow> io_return (Some [''No schedule provided''])
    | Some v \<Rightarrow> if \<not> json_truthy v then io_return (Some [''No schedule provided''])
        else (case isValidCron sv v of
            Inl e \<Rightarrow> io_throw e
          | Inr ok \<Rightarrow> io_return (if ok then None
              else Some [js_text (number_text sv) v @ '' is not a valid cron expression''])))"

definition validate_config :: "server \<Rightarrow> js_object \<Rightarrow> custom_bot_row \<Rightarrow> (world, (bool, string list) result) io" where
  "validate_config sv config customBot = (case map_of config ''type'' of
      None \<Rightarrow> io_return (Failure [''No type provided''])
    | Some type \<Rightarrow>
       if \<not> json_truthy type then io_return (Failure [''No type provided''])
       else if \<not> bot_type_pattern (js_text (number_text sv) type)
         then io_return (Failure [''Invalid bot type format. Expected format: type/name''])
       else io_bind (split_slash type) (\<lambda>parts.
         if nth_opt parts 0 = Some ''scheduled''
         then io_bind (checkSchedule sv config) (\<lambda>problem. case problem of
             Some errors \<Rightarrow> io_return (Failure errors)
           | None \<Rightarrow> validateWithSchema sv customBot config)
         else validateWithSchema sv customBot config))"

section \<open>Facts\<close>

text \<open>Validation looks at nothing but the configuration and the bot.\<close>

lemma validation_pure:
  "snd (split_slash v w) = w" "snd (checkSchedule sv config w) = w" "snd (validateWithSchema sv c config w) = w"
  by (simp_all add: split_slash_def checkSchedule_def validateWithSchema_def Let_def
      split: json.split option.split sum.split list.split)

lemma preserves_pure: "(\<And>w. snd (m w) = w) \<Longrightarrow> preserves I m"
  by (simp add: preserves_def)

lemma preserves_validate: "preserves I (validate_config sv config c)"
  unfolding validate_config_def
  by (intro preserves_option preserves_if preserves_bind preserves_return preserves_pure validation_pure)

text \<open>An object keeps its keys apart, at every level.\<close>

fun wf_json :: "json \<Rightarrow> bool" where
  "wf_json (JObj kvs) = (distinct (map fst kvs) \<and> (\<forall>v\<in>set (map snd kvs). wf_json v))"
| "wf_json (JArr xs) = (\<forall>x\<in>set xs. wf_json x)"
| "wf_json _ = True"

lemma wf_schema_properties:
  assumes "wf_json s"
  shows "distinct (map fst (schema_properties s))" "\<forall>p\<in>set (map snd (schema_properties s)). wf_json p"
proof -
  have "wf_json (JObj (schema_properties s))"
  proof (cases s)
    case (JObj kvs)
    then show ?thesis
      using assms by (fastforce simp: schema_properties_def dest: map_of_SomeD split: option.split json.split)
  qed (simp_all add: schema_properties_def)
  then show "distinct (map fst (schema_properties s))" "\<forall>p\<in>set (map snd (schema_properties s)). wf_json p"
    by simp_all
qed

text \<open>The value of a key after the filter.\<close>

definition filtered_value :: "json \<Rightarrow> json \<Rightarrow> json" where
  "filtered_value p v = (if closed_object p then filterObjectProperties v p else v)"

lemma filter_keys_sub: "x \<in> set (filter_keys kvs ps) \<Longrightarrow> fst x \<in> fst ` set ps"
  by (induction ps) (auto split: option.splits)

lemma filter_keys_lookup:
  assumes "distinct (map fst ps)"
  shows "map_of (filter_keys kvs ps) k = (case map_of ps k of None \<Rightarrow> None
     | Some p \<Rightarrow> map_option (filtered_value p) (map_of kvs k))"
  using assms
proof (induction ps)
  case (Cons a ps)
  obtain k' p where a: "a = (k', p)" by (cases a)
  have "map_of (filter_keys kvs ps) k' = None"
    using filter_keys_sub [of _ kvs ps] Cons.prems unfolding a by (auto simp: map_of_eq_None_iff)
  then show ?case
    using Cons by (auto simp: a filtered_value_def [abs_def] split: option.split)
qed simp

lemma filter_keys_cong:
  "(\<And>k. k \<in> fst ` set ps \<Longrightarrow> map_of kvs k = map_of kvs' k) \<Longrightarrow> filter_keys kvs ps = filter_keys kvs' ps"
  by (induction ps) (auto split: option.split)

section \<open>What the filter keeps\<close>

lemma filtered_value_simps:
  "filterObjectProperties obj schema = (case obj of JObj kvs \<Rightarrow> JObj (filter_keys kvs (schema_properties schema)) | j \<Rightarrow> j)"
  by (cases obj) simp_all

lemma filter_twice:
  "wf_json schema \<Longrightarrow> filterObjectProperties (filterObjectProperties obj schema) schema = filterObjectProperties obj schema"
  "distinct (map fst ps) \<Longrightarrow> \<forall>p\<in>set (map snd ps). wf_json p \<Longrightarrow>
     (\<And>k p. (k, p) \<in> set ps \<Longrightarrow> map_of kvs' k = map_option (filtered_value p) (map_of kvs k)) \<Longrightarrow>
     filter_keys kvs' ps = filter_keys kvs ps"
proof (induction obj schema and kvs ps arbitrary: and kvs' rule: filterObjectProperties_filter_keys.induct)
  case (1 kvs schema)
  note wf = wf_schema_properties [OF 1(2)]
  have "filter_keys (filter_keys kvs (schema_properties schema)) (schema_properties schema)
      = filter_keys kvs (schema_properties schema)"
    by (rule 1(1)) (use wf in \<open>auto simp: filter_keys_lookup\<close>)
  then show ?case by simp
next
  case (8 kvs k p ps)
  have rest: "filter_keys kvs' ps = filter_keys kvs ps"
  proof (cases "map_of kvs k")
    case None
    then show ?thesis using 8(1) 8(4-6) by auto
  next
    case (Some v)
    then show ?thesis using 8(3) 8(4-6) by auto
  qed
  have "map_of kvs' k = map_option (filtered_value p) (map_of kvs k)" using 8(6) by simp
  moreover have "filtered_value p (filtered_value p v) = filtered_value p v" if "map_of kvs k = Some v" for v
    using 8(2) [OF that] 8(5) by (simp add: filtered_value_def)
  ultimately show ?case
    using rest by (cases "map_of kvs k") (simp_all add: filtered_value_def split: if_splits)
qed simp_all

text \<open>C19. What the validator hands to ajv for a closed schema is exactly the declared part of the
  configuration: filtering again changes nothing, every key is declared, every declared key of
  the configuration is there, and its value is the configuration's unless its own schema is closed.\<close>

theorem filter_keeps_declared:
  assumes "wf_json schema"
  shows "filterObjectProperties (filterObjectProperties obj schema) schema = filterObjectProperties obj schema
    \<and> (\<forall>kvs. obj = JObj kvs \<longrightarrow> (\<exists>kept. filterObjectProperties obj schema = JObj kept
        \<and> (\<forall>k. map_of kept k = (case map_of (schema_properties schema) k of None \<Rightarrow> None
             | Some p \<Rightarrow> (case map_of kvs k of None \<Rightarrow> None
                 | Some v \<Rightarrow> Some (if closed_object p then filterObjectProperties v p else v))))))"
  using filter_twice(1) [OF assms, of obj] filter_keys_lookup [OF wf_schema_properties(1) [OF assms]]
  by (auto simp: filtered_value_def [abs_def] split: option.split)

definition demo_schema :: json where
  "demo_schema = JObj [(''additionalProperties'', JBool False),
     (''properties'', JObj [(''symbol'', JObj [(''type'', JStr ''string'')]), (''risk'', JObj [(''type'', JStr ''object''),
        (''additionalProperties'', JBool False), (''properties'', JObj [(''max'', JObj [])])])])]"

theorem filter_keeps_declared_witness:
  "filterObjectProperties (filterObjectProperties (JObj [(''name'', JStr ''x''), (''risk'', JObj [(''min'', JNum 1)])]) demo_schema) demo_schema
     = JObj [(''risk'', JObj [])]"
proof -
  have "wf_json demo_schema" by (simp add: demo_schema_def)
  from filter_keeps_declared [OF this, of "JObj [(''name'', JStr ''x''), (''risk'', JObj [(''min'', JNum 1)])]"]
  show ?thesis
    by (simp add: demo_schema_def schema_properties_def closed_object_def schema_field_def truthy_field_def)
qed

text \<open>With a closed schema the verdict on a configuration depends only on its type, its
  schedule and the keys that the schema declares.\<close>

theorem validation_ignores_undeclared:
  assumes "map_of (cc_schema_bot (cb_config c)) ''additionalProperties'' = Some (JBool False)"
    "truthy_field (JObj (cc_schema_bot (cb_config c))) ''properties''"
    "\<And>k. k \<in> {''type'', ''schedule''} \<union> fst ` set (schema_properties (JObj (cc_schema_bot (cb_config c)))) \<Longrightarrow>
       map_of config k = map_of config' k"
  shows "validate_config sv config c w = validate_config sv config' c w"
proof -
  have "filterConfigForSchema config (cc_schema_bot (cb_config c)) = filterConfigForSchema config' (cc_schema_bot (cb_config c))"
    using assms by (auto simp: filterConfigForSchema_def intro: filter_keys_cong)
  then have schema: "validateWithSchema sv c config = validateWithSchema sv c config'"
    by (simp add: validateWithSchema_def Let_def)
  have schedule: "checkSchedule sv config = checkSchedule sv config'"
    using assms(3) [of "''schedule''"] by (simp add: checkSchedule_def)
  have "map_of config ''type'' = map_of config' ''type''" using assms(3) by simp
  then show ?thesis unfolding validate_config_def schema schedule by (simp only:)
qed

definition demo_closed_bot :: custom_bot_row where
  "demo_closed_bot = demo_version ''v1'' ''1.0.1'' 10
     \<lparr>cb_config := demo_bot_config\<lparr>cc_schema_bot := [(''additionalProperties'', JBool False),
        (''properties'', JObj [(''symbol'', JObj [(''type'', JStr ''string'')])])]\<rparr>\<rparr>"

theorem validation_ignores_undeclared_witness:
  "validate_config demo_server [(''type'', JStr ''realtime/trend-bot''), (''symbol'', JStr ''BTC''), (''name'', JStr ''a'')] demo_closed_bot demo_world
     = validate_config demo_server [(''type'', JStr ''realtime/trend-bot''), (''symbol'', JStr ''BTC'')] demo_closed_bot demo_world"
  by (rule validation_ignores_undeclared)
    (auto simp: demo_closed_bot_def schema_properties_def truthy_field_def schema_field_def)

section \<open>What validation accepts\<close>

lemma validate_config_Ok: "validate_config sv config c w = (Inr (Ok b), w') \<Longrightarrow> validate_config sv config c w = (Inr (Ok True), w')"
  by (auto simp: validate_config_def split_slash_def checkSchedule_def validateWithSchema_def Let_def io_bind_run
      split: option.splits if_splits json.splits sum.splits list.splits)

text \<open>The validator accepts a configuration exactly when its type is a string of the form
  type/name, a scheduled bot has a schedule that is a cron expression, and ajv finds no error
  in the filtered configuration.\<close>

lemma validate_accepts:
  "(\<exists>w'. validate_config sv config c w = (Inr (Ok True), w')) \<longleftrightarrow>
     (\<exists>type. map_of config ''type'' = Some (JStr type) \<and> bot_type_pattern type
       \<and> (if hd (split_at (CHR ''/'') type) = ''scheduled''
           then \<exists>v. map_of config ''schedule'' = Some v \<and> json_truthy v \<and> isValidCron sv v = Inr True else True)
       \<and> ajv_validate sv (cc_schema_bot (cb_config c)) (filterConfigForSchema config (cc_schema_bot (cb_config c))) = Inr [])"
proof -
  have schema: "(\<exists>w'. validateWithSchema sv c config w = (Inr (Ok True), w')) \<longleftrightarrow>
      ajv_validate sv (cc_schema_bot (cb_config c)) (filterConfigForSchema config (cc_schema_bot (cb_config c))) = Inr []" for w
    by (simp add: validateWithSchema_def Let_def split: sum.split list.split)
  have schedule: "checkSchedule sv config w = (Inr None, w') \<longleftrightarrow> w' = w \<and>
      (\<exists>v. map_of config ''schedule'' = Some v \<and> json_truthy v \<and> isValidCron sv v = Inr True)" for w w'
    by (auto simp: checkSchedule_def split: option.splits sum.splits)
  have hd: "nth_opt (split_at (CHR ''/'') s) 0 = Some (hd (split_at (CHR ''/'') s))" for s
    by (simp add: nth_opt_def hd_conv_nth)
  have ne: "bot_type_pattern s \<Longrightarrow> s \<noteq> []" for s
    by (auto simp: bot_type_pattern_def)
  have bind: "(\<exists>w'. io_bind (checkSchedule sv config) (\<lambda>problem. case problem of
        Some errors \<Rightarrow> io_return (Failure errors) | None \<Rightarrow> validateWithSchema sv c config) w = (Inr (Ok True), w'))
      \<longleftrightarrow> checkSchedule sv config w = (Inr None, w) \<and> (\<exists>w'. validateWithSchema sv c config w = (Inr (Ok True), w'))"
    using validation_pure(2) [of sv config w]
    by (cases "checkSchedule sv config w") (auto simp: io_bind_run split: sum.split option.split)
  show ?thesis
  proof (cases "map_of config ''type''")
    case (Some t)
    show ?thesis
    proof (cases t)
      case (JStr s)
      then show ?thesis
        using Some ne [of s] by (auto simp: validate_config_def split_slash_def hd bind schema schedule)
    qed (simp_all add: Some validate_config_def split_slash_def)
  qed (simp add: validate_config_def)
qed

text \<open>The validator accepts a configuration exactly when its type is a string of the form
  type/name, a scheduled bot has a schedule that is a cron expression, and ajv finds no error
  in the filtered configuration.\<close>

theorem validate_accepts_iff:
  "(\<exists>w'. validate_config sv config c w = (Inr (Ok True), w')) \<longleftrightarrow>
     (\<exists>type. map_of config ''type'' = Some (JStr type) \<and> bot_type_pattern type
       \<and> (if hd (split_at (CHR ''/'') type) = ''scheduled''
           then \<exists>v. map_of config ''schedule'' = Some v \<and> json_truthy v \<and> isValidCron sv v = Inr True else True)
       \<and> ajv_validate sv (cc_schema_bot (cb_config c)) (filterConfigForSchema config (cc_schema_bot (cb_config c))) = Inr [])"
  by (rule validate_accepts)

end
