(* ===== verification/BotService.thy ===== *)
theory BotService
  imports BotValidator
begin

text \<open>
  api/src/bot/bot.service.ts, bot.repository.ts and bot.controller.ts: deploying, updating and
  removing instances of custom bots, and the events that tell the runtime. The methods have no
  catch clause: what the validator or semver throws is the rejection of the request.
\<close>

section \<open>The repository\<close>

definition botRepository :: "bot_row role_table" where
  "botRepository = \<lparr>rt_table = botsTable, rt_id = bot_id, rt_userId = bot_userId, rt_createdAt = bot_createdAt,
     rt_touch = (\<lambda>now b. b\<lparr>bot_updatedAt := now\<rparr>)\<rparr>"

lemma botRepository_sel [simp]:
  "rt_table botRepository = botsTable" "rt_id botRepository = bot_id" "rt_userId botRepository = bot_userId"
  "rt_createdAt botRepository = bot_createdAt" "rt_touch botRepository now b = b\<lparr>bot_updatedAt := now\<rparr>"
  by (simp_all add: botRepository_def)

interpretation instances: role_store botRepository
  by unfold_locales auto

section \<open>Publishing\<close>

text \<open>nats.service.ts, \<open>publish\<close>: one external call; the failure is a value.\<close>

definition nats_publish :: "server \<Rightarrow> string \<Rightarrow> bot_event \<Rightarrow> (world, (unit, string) result) io" where
  "nats_publish sv topic payload =
     (if \<not> nats_connected sv then io_return (Failure ''NATS connection not established'')
      else or_failure (io_bind (external (io_modify (\<lambda>w. w\<lparr>messages := messages w @ [(topic, payload)]\<rparr>))) (\<lambda>_.
        io_return (Ok ()))))"

definition getTopicsForBotType :: "custom_bot_row \<Rightarrow> bot_topics option" where
  "getTopicsForBotType customBot = (let botType = cc_type (cb_config customBot) in
     if botType = ''realtime'' then Some BOT_TOPICS
     else if botType = ''scheduled'' then Some SCHEDULED_BOT_TOPICS else None)"

text \<open>The payload of a creation or an update.\<close>

definition deploy_event :: "string \<Rightarrow> js_object \<Rightarrow> string \<Rightarrow> custom_bot_row \<Rightarrow> bot_event" where
  "deploy_event i config customBotId customBot =
     \<lparr>ev_id = i, ev_config = obj_put config ''customBotId'' (JStr customBotId),
      ev_custom = Some \<lparr>ec_config = cb_config customBot, ec_createdAt = cb_createdAt customBot,
        ec_updatedAt = cb_updatedAt customBot, ec_filePath = cb_filePath customBot, ec_version = cb_version customBot\<rparr>\<rparr>"

section \<open>Validation of a request\<close>

definition semver_valid_json :: "server \<Rightarrow> json \<Rightarrow> bool" where
  "semver_valid_json sv v = (case v of JStr s \<Rightarrow> semver_valid sv s | _ \<Rightarrow> False)"

definition version_text :: "json \<Rightarrow> string" where
  "version_text v = (case v of JStr s \<Rightarrow> s | _ \<Rightarrow> [])"

definition quoted :: "string \<Rightarrow> string" where
  "quoted s = CHR 0x27 # s @ [CHR 0x27]"

definition missing_name :: string where
  "missing_name = ''Invalid bot type: missing name after '' @ quoted ''/''"

text \<open>\<open>name?.trim()\<close> is truthy.\<close>

definition named :: "string option \<Rightarrow> bool" where
  "named name = (case name of None \<Rightarrow> False | Some n \<Rightarrow> js_trim n \<noteq> [])"

definition validateBotTypeAndConfig :: "server \<Rightarrow> js_object \<Rightarrow> (world, (custom_bot_row, string) result) io" where
  "validateBotTypeAndConfig sv config =
     (if falsy_key config ''type'' then io_return (Failure ''Bot type is required'')
      else if falsy_key config ''version'' then io_return (Failure ''Bot version is required'')
      else let type = the (map_of config ''type''); version = the (map_of config ''version'') in
        if \<not> bot_type_pattern (js_text (number_text sv) type)
        then io_return (Failure ''Invalid bot type format. Expected format: type/name'')
        else if \<not> semver_valid_json sv version
        then io_return (Failure ''Invalid version format. Expected format: x.y.z'')
        else io_bind (split_slash type) (\<lambda>parts.
          if \<not> named (nth_opt parts 1) then io_return (Failure missing_name)
          else io_bind (getSpecificGlobalVersion (the (nth_opt parts 1)) (version_text version)) (\<lambda>customBotResult.
            case customBotResult of
              Failure _ \<Rightarrow> io_return (Failure (''Bot type '' @ quoted (js_text (number_text sv) type) @ '' not found''))
            | Ok customBot \<Rightarrow> io_bind (validate_config sv config customBot) (\<lambda>validationResult.
                case validationResult of
                  Failure errors \<Rightarrow> io_return (Failure (or_else (Some (js_join '', '' errors)) ''Invalid bot config''))
                | Ok _ \<Rightarrow> io_return (Ok customBot)))))"

definition frontend_flag :: "custom_bot_row \<Rightarrow> json" where
  "frontend_flag customBot = JBool (case cc_hasFrontend (cb_config customBot) of Some b \<Rightarrow> b | None \<Rightarrow> False)"

section \<open>Creation\<close>

definition bot_create :: "server \<Rightarrow> string \<Rightarrow> string \<Rightarrow> js_object \<Rightarrow> (world, (bot_row, string) result) io" where
  "bot_create sv uid name config = ok_bind (validateBotTypeAndConfig sv config) (\<lambda>customBot.
     ok_bind (role_create sv botRepository (\<lambda>i created updated.
        \<lparr>bot_id = i, bot_userId = uid, bot_customBotId = cb_id customBot, bot_name = name,
         bot_config = obj_put config ''hasFrontend'' (frontend_flag customBot),
         bot_topic = Some ''quantflow-scheduled-custom-bot'', bot_createdAt = created, bot_updatedAt = updated\<rparr>)) (\<lambda>b.
     io_bind (case getTopicsForBotType customBot of
        None \<Rightarrow> io_return (Ok ())
      | Some topics \<Rightarrow> nats_publish sv (CREATED topics) (deploy_event (bot_id b) config (cb_id customBot) customBot)) (\<lambda>_.
     role_findOne botRepository uid (bot_id b))))"

section \<open>Update\<close>

text \<open>\<open>semver.major(v)\<close> throws on what is not a version.\<close>

definition major_of :: "server \<Rightarrow> json \<Rightarrow> (world, nat) io" where
  "major_of sv v = (case v of
      JStr s \<Rightarrow> (case semver_major sv s of
          Some m \<Rightarrow> io_return m | None \<Rightarrow> io_throw (plain_error (''Invalid Version: '' @ s)))
    | _ \<Rightarrow> io_throw (plain_error ''Invalid version''))"

text \<open>The event of an update: it is built from the caller's own version of the bot.\<close>

definition publish_update :: "server \<Rightarrow> string \<Rightarrow> js_object \<Rightarrow> string \<Rightarrow> custom_bot_row \<Rightarrow> (world, unit) io" where
  "publish_update sv uid config i deployed = io_bind (role_findOne botRepository uid i) (\<lambda>botResult. case botResult of
      Failure _ \<Rightarrow> io_return ()
    | Ok b \<Rightarrow> io_bind (getSpecificUserVersion uid (cb_name deployed) (cb_version deployed)) (\<lambda>customBotResult.
        case customBotResult of
          Failure _ \<Rightarrow> io_return ()
        | Ok customBot \<Rightarrow> (case getTopicsForBotType customBot of
              None \<Rightarrow> io_return ()
            | Some topics \<Rightarrow> io_bind (nats_publish sv (UPDATED topics)
                  (deploy_event (bot_id b) config (cb_id deployed) customBot)) (\<lambda>_. io_return ()))))"

text \<open>Both versions are there, and their major numbers differ.\<close>

definition major_change :: "server \<Rightarrow> js_object \<Rightarrow> js_object \<Rightarrow> (world, bool) io" where
  "major_change sv current new =
     (if falsy_key current ''version'' \<or> falsy_key new ''version'' then io_return False
      else io_bind (major_of sv (the (map_of current ''version''))) (\<lambda>a.
           io_bind (major_of sv (the (map_of new ''version''))) (\<lambda>b. io_return (a \<noteq> b))))"

definition version_changed :: "server \<Rightarrow> js_object \<Rightarrow> js_object \<Rightarrow> bool" where
  "version_changed sv current new =
     (if falsy_key current ''version'' \<or> falsy_key new ''version'' then True
      else \<not> semver_eq sv (version_text (the (map_of current ''version''))) (version_text (the (map_of new ''version''))))"

definition field_text :: "server \<Rightarrow> js_object \<Rightarrow> string \<Rightarrow> string" where
  "field_text sv config k = (case map_of config k of None \<Rightarrow> ''undefined'' | Some v \<Rightarrow> js_text (number_text sv) v)"

definition bot_update :: "server \<Rightarrow> string \<Rightarrow> string \<Rightarrow> string option \<Rightarrow> js_object \<Rightarrow> (world, (bot_row, string) result) io" where
  "bot_update sv uid i name config = ok_bind (validateBotTypeAndConfig sv config) (\<lambda>newCustomBot.
     io_bind (role_findOne botRepository uid i) (\<lambda>currentBot. case currentBot of
       Failure _ \<Rightarrow> io_return (Failure ''Bot not found'')
     | Ok current \<Rightarrow> io_bind (major_change sv (bot_config current) config) (\<lambda>breaking.
         if breaking then io_return (Failure (''Major version upgrade ('' @ field_text sv (bot_config current) ''version''
             @ '' -> '' @ field_text sv config ''version'' @ '') requires delete and redeploy. ''
             @ ''In-place updates are only supported for minor/patch bumps to preserve state compatibility.''))
         else io_bind (role_update botRepository uid i (\<lambda>b. b\<lparr>
             bot_name := (case name of None \<Rightarrow> bot_name b | Some n \<Rightarrow> n),
             bot_config := obj_put config ''hasFrontend'' (frontend_flag newCustomBot),
             bot_customBotId := (if version_changed sv (bot_config current) config then cb_id newCustomBot
               else bot_customBotId current)\<rparr>)) (\<lambda>result.
           io_bind (if is_ok result then publish_update sv uid config i newCustomBot else io_return ()) (\<lambda>_.
           io_return result)))))"

section \<open>Removal\<close>

text \<open>\<open>BotDeleteResult\<close>: name, version and id of a version nothing uses any more.\<close>

type_synonym bot_delete_result = "(string \<times> string \<times> string) option"

text \<open>The topics of the deletion: None when the caller has no version of the bot.\<close>

definition removal_topics :: "string \<Rightarrow> js_object \<Rightarrow> (world, (bot_topics option, string) result) io" where
  "removal_topics uid config =
     (if falsy_key config ''type'' \<or> falsy_key config ''version'' then io_return (Ok None)
      else io_bind (split_slash (the (map_of config ''type''))) (\<lambda>parts.
        if \<not> named (nth_opt parts 1) then io_return (Failure missing_name)
        else io_bind (getSpecificUserVersion uid (the (nth_opt parts 1)) (version_text (the (map_of config ''version''))))
          (\<lambda>customBotResult. io_return (Ok (case customBotResult of
              Ok customBot \<Rightarrow> getTopicsForBotType customBot | Failure _ \<Rightarrow> None)))))"

definition orphaned_version :: "string \<Rightarrow> (world, bot_delete_result) io" where
  "orphaned_version customBotId =
     (if customBotId = [] then io_return None
      else io_bind (checkOrphaned customBotId) (\<lambda>orphanResult. io_return (case orphanResult of
        Failure _ \<Rightarrow> None
      | Ok (orphaned, name, version) \<Rightarrow> if orphaned then Some (name, version, customBotId) else None)))"

definition bot_remove :: "server \<Rightarrow> string \<Rightarrow> string \<Rightarrow> (world, (bot_delete_result, string) result) io" where
  "bot_remove sv uid i = io_bind (role_findOne botRepository uid i) (\<lambda>botResult. case botResult of
      Failure _ \<Rightarrow> io_return (Failure ''Bot not found'')
    | Ok b \<Rightarrow> ok_bind (removal_topics uid (bot_config b)) (\<lambda>topics.
        ok_bind (role_remove botRepository uid i) (\<lambda>_.
        io_bind (orphaned_version (bot_customBotId b)) (\<lambda>deleteResult.
        io_bind (case topics of
            None \<Rightarrow> io_return (Ok ())
          | Some ts \<Rightarrow> nats_publish sv (DELETED ts)
              \<lparr>ev_id = bot_id b, ev_config = bot_config b, ev_custom = None\<rparr>) (\<lambda>_.
        io_return (Ok deleteResult))))))"

section \<open>Reads and the controller\<close>

definition bot_findAll :: "string \<Rightarrow> (world, (bot_row list, string) result) io" where
  "bot_findAll uid = role_findAll botRepository uid"

definition bot_findOne :: "string \<Rightarrow> string \<Rightarrow> (world, (bot_row, string) result) io" where
  "bot_findOne uid i = role_findOne botRepository uid i"

definition post_bot :: "server \<Rightarrow> authenticated_user \<Rightarrow> string \<Rightarrow> js_object \<Rightarrow> (world, bot_row) io" where
  "post_bot sv user name config = io_bind (bot_create sv (au_uid user) name config) (unwrap_as 400)"

definition get_bots :: "authenticated_user \<Rightarrow> (world, bot_row list) io" where
  "get_bots user = io_bind (bot_findAll (au_uid user)) (unwrap_as 404)"

definition get_bot :: "authenticated_user \<Rightarrow> string \<Rightarrow> (world, bot_row) io" where
  "get_bot user i = io_bind (bot_findOne (au_uid user) i) (unwrap_as 404)"

definition put_bot :: "server \<Rightarrow> authenticated_user \<Rightarrow> string \<Rightarrow> string option \<Rightarrow> js_object \<Rightarrow> (world, bot_row) io" where
  "put_bot sv user i name config = io_bind (bot_update sv (au_uid user) i name config) (unwrap_as 400)"

definition delete_bot :: "server \<Rightarrow> authenticated_user \<Rightarrow> string \<Rightarrow> (world, bot_delete_result) io" where
  "delete_bot sv user i = io_bind (bot_remove sv (au_uid user) i) (unwrap_as 400)"

section \<open>Instances belong to their owners\<close>

text \<open>The parts of the requests that leave the instances alone.\<close>

lemma bot_reads_keep:
  assumes "env_free I"
  shows "preserves I (validateBotTypeAndConfig sv config)" "preserves I (getSpecificUserVersion u n v)"
    "preserves I (role_findOne botRepository u i)" "preserves I (checkOrphaned c)"
    "preserves I (orphaned_version c)" "preserves I (removal_topics u config)"
proof -
  have one: "preserves I (rev_one vt P)" for vt :: "custom_bot_row revision_table" and P
    unfolding rev_one_def
    by (intro preserves_or_failure preserves_bind preserves_select assms) (auto intro: preserves_return split: list.split)
  then show user: "preserves I (getSpecificUserVersion u n v)" for u n v
    by (simp add: getSpecificUserVersion_def rev_findByKeyAndVersion_def)
  show "preserves I (validateBotTypeAndConfig sv config)"
    unfolding validateBotTypeAndConfig_def Let_def getSpecificGlobalVersion_def rev_findGlobalByKeyAndVersion_def
    by (intro preserves_if preserves_bind preserves_result preserves_return preserves_validate one
        preserves_pure [OF validation_pure(1)])
  show "preserves I (role_findOne botRepository u i)"
    unfolding role_findOne_def
    by (intro preserves_or_failure preserves_if preserves_return preserves_bind preserves_select assms)
      (auto intro: preserves_return split: list.split)
  have count: "preserves I (countInstancesByCustomBotId c)" for c
    unfolding countInstancesByCustomBotId_def
    by (intro preserves_or_failure preserves_bind preserves_select preserves_return assms)
  show orphan: "preserves I (checkOrphaned c)" for c
    unfolding checkOrphaned_def ok_bind_def rev_findOneById_def
    by (intro preserves_bind preserves_result preserves_return one count)
  show "preserves I (orphaned_version c)"
    unfolding orphaned_version_def by (intro preserves_if preserves_bind preserves_return orphan)
  show "preserves I (removal_topics u config)"
    unfolding removal_topics_def
    by (intro preserves_if preserves_bind preserves_return user preserves_pure [OF validation_pure(1)])
qed

lemma publish_keeps: "env_free I \<Longrightarrow> (\<And>w ms. I (w\<lparr>messages := ms\<rparr>) = I w) \<Longrightarrow> preserves I (nats_publish sv t p)"
  unfolding nats_publish_def
  by (intro preserves_if preserves_return preserves_or_failure preserves_bind preserves_external)
    (simp_all add: preserves_def)

lemma major_pure: "snd (major_of sv v w) = w" "snd (major_change sv a b w) = w"
proof -
  show m: "snd (major_of sv v w) = w" for v w by (simp add: major_of_def split: json.split option.split)
  have "snd (io_bind (major_of sv x) (\<lambda>a. io_bind (major_of sv y) (\<lambda>b. io_return (a \<noteq> b))) w) = w" for x y
    using m [of x w] m [of y w]
    by (cases "major_of sv x w"; cases "major_of sv y w") (auto simp: io_bind_run split: sum.split)
  note both = this
  show "snd (major_change sv a b w) = w" by (simp add: major_change_def both)
qed

lemma publish_update_keeps:
  "env_free I \<Longrightarrow> (\<And>w ms. I (w\<lparr>messages := ms\<rparr>) = I w) \<Longrightarrow> preserves I (publish_update sv u config i c)"
  unfolding publish_update_def
  by (intro preserves_bind preserves_result preserves_option preserves_return bot_reads_keep publish_keeps)

definition instances_of :: "string \<Rightarrow> world \<Rightarrow> bot_row list" where
  "instances_of v w = filter (\<lambda>b. bot_userId b = v) (bots w)"

lemma instances_of_eq: "instances_of = instances.rows_of"
  by (intro ext) (simp add: instances_of_def instances.rows_of_def)

lemma env_free_instances: "env_free (\<lambda>w. instances_of v w = rs)" "instances_of v (w\<lparr>messages := ms\<rparr>) = instances_of v w"
  by (simp_all add: env_free_def instances_of_def)

datatype bot_request =
    CreateBot string js_object
  | UpdateBot string "string option" js_object
  | RemoveBot string
  | ReadBots
  | ReadBot string

fun handle_bot :: "server \<Rightarrow> authenticated_user \<Rightarrow> bot_request \<Rightarrow> (world, unit) io" where
  "handle_bot sv user (CreateBot name config) = ignore_result (post_bot sv user name config)"
| "handle_bot sv user (UpdateBot i name config) = ignore_result (put_bot sv user i name config)"
| "handle_bot sv user (RemoveBot i) = ignore_result (delete_bot sv user i)"
| "handle_bot sv user ReadBots = ignore_result (get_bots user)"
| "handle_bot sv user (ReadBot i) = ignore_result (get_bot user i)"

lemma preserves_ok_bind: "preserves I m \<Longrightarrow> (\<And>x. preserves I (f x)) \<Longrightarrow> preserves I (ok_bind m f)"
  unfolding ok_bind_def by (intro preserves_bind preserves_result preserves_return)

lemma preserves_ignore: "preserves I m \<Longrightarrow> preserves I (ignore_result m)"
  unfolding ignore_result_def by (intro preserves_catch preserves_bind preserves_return)

lemma preserves_unwrap: "preserves I (unwrap_as n r)"
  by (auto simp: unwrap_as_def intro: preserves_throw preserves_return split: result.split)

lemma bot_requests_isolated:
  assumes "v \<noteq> uid"
  shows "preserves (\<lambda>w. instances_of v w = rs) (bot_create sv uid name config)"
    "preserves (\<lambda>w. instances_of v w = rs) (bot_update sv uid i newName config)"
    "preserves (\<lambda>w. instances_of v w = rs) (bot_remove sv uid i)"
proof -
  note keeps = bot_reads_keep [OF env_free_instances(1)] publish_keeps [OF env_free_instances(1)]
    publish_update_keeps [OF env_free_instances(1)] preserves_pure [OF major_pure(2)]
  show "preserves (\<lambda>w. instances_of v w = rs) (bot_create sv uid name config)"
    unfolding bot_create_def
    by (intro preserves_ok_bind preserves_bind preserves_option preserves_return keeps
        instances.create_isolates [folded instances_of_eq, where userId = uid] assms)
      (simp_all add: env_free_instances)
  show "preserves (\<lambda>w. instances_of v w = rs) (bot_update sv uid i newName config)"
    unfolding bot_update_def
    by (intro preserves_ok_bind preserves_bind preserves_result preserves_if preserves_return keeps
        instances.update_isolates [folded instances_of_eq] assms)
      (simp_all add: env_free_instances)
  show "preserves (\<lambda>w. instances_of v w = rs) (bot_remove sv uid i)"
    unfolding bot_remove_def
    by (intro preserves_ok_bind preserves_bind preserves_result preserves_option preserves_return keeps
        instances.remove_isolates [folded instances_of_eq] assms)
      (simp_all add: env_free_instances)
qed

text \<open>A request of one user never creates, changes or removes an instance of another user.\<close>

theorem bot_instances_isolated:
  assumes "v \<noteq> au_uid user"
  shows "instances_of v (snd (handle_bot sv user req w)) = instances_of v w"
proof -
  have "preserves (\<lambda>x. instances_of v x = instances_of v w) (handle_bot sv user req)"
  proof (cases req)
    case ReadBots
    then show ?thesis
      using instances.findAll_preserves [folded instances_of_eq]
      by (simp add: get_bots_def bot_findAll_def preserves_ignore preserves_bind preserves_unwrap)
  next
    case (ReadBot i)
    then show ?thesis
      using instances.findOne_preserves [folded instances_of_eq]
      by (simp add: get_bot_def bot_findOne_def preserves_ignore preserves_bind preserves_unwrap)
  qed (simp_all only: handle_bot.simps post_bot_def put_bot_def delete_bot_def,
      (intro preserves_ignore preserves_bind preserves_unwrap bot_requests_isolated assms)+)
  then show ?thesis by (rule preservesD) (rule refl)
qed

theorem bot_instances_isolated_witness:
  "instances_of ''id-root'' (snd (handle_bot demo_server demo_ann (RemoveBot ''b1'') two_versions)) = instances_of ''id-root'' two_versions"
  by (rule bot_instances_isolated) (simp add: demo_ann_def)

section \<open>Accepted requests\<close>

text \<open>The view of the proofs: versions, instances, messages.\<close>

definition deploy_view :: "world \<Rightarrow> custom_bot_row list \<times> bot_row list \<times> (string \<times> bot_event) list" where
  "deploy_view w = (custom_bots w, bots w, messages w)"

lemma env_free_deploy: "env_free (\<lambda>w. deploy_view w = k)"
  by (simp add: env_free_def deploy_view_def)

lemma deploy_reads:
  assumes "m w = (r, w')" "\<And>k. preserves (\<lambda>w. deploy_view w = k) m"
  shows "deploy_view w' = deploy_view w"
  using preservesD [OF assms(2) refl, of w] by (simp add: assms(1))

text \<open>What an accepted configuration is.\<close>

definition accepted_config :: "server \<Rightarrow> js_object \<Rightarrow> custom_bot_row \<Rightarrow> bool" where
  "accepted_config sv config c \<longleftrightarrow> (\<exists>kind version.
     map_of config ''type'' = Some (JStr (kind @ ''/'' @ cb_name c)) \<and> map_of config ''version'' = Some (JStr version)
     \<and> semver_valid sv version \<and> cb_version c = version
     \<and> ajv_validate sv (cc_schema_bot (cb_config c)) (filterConfigForSchema config (cc_schema_bot (cb_config c))) = Inr [])"

lemma bot_type_parts:
  assumes "bot_type_pattern s"
  shows "\<exists>kind name. split_at (CHR ''/'') s = [kind, name] \<and> s = kind @ ''/'' @ name"
proof -
  obtain a b where ab: "split_at (CHR ''/'') s = [a, b]"
    using assms by (auto simp: bot_type_pattern_def split: list.splits)
  then have "s = js_join [CHR ''/''] [a, b]" by (metis js_join_split_at)
  then show ?thesis using ab by simp
qed

lemma validateBotTypeAndConfig_Ok:
  assumes "validateBotTypeAndConfig sv config w = (Inr (Ok c), w')"
  shows "c \<in> set (custom_bots w) \<and> accepted_config sv config c \<and> deploy_view w' = deploy_view w"
proof -
  obtain type version where tv: "map_of config ''type'' = Some type" "map_of config ''version'' = Some version"
    and rest: "bot_type_pattern (js_text (number_text sv) type)" "semver_valid_json sv version"
    using assms by (auto simp: validateBotTypeAndConfig_def Let_def falsy_key_def split: if_splits option.splits)
  obtain v where v: "version = JStr v" "semver_valid sv v"
    using rest(2) by (cases version) (auto simp: semver_valid_json_def)
  obtain parts w1 where sp: "split_slash type w = (Inr parts, w1)"
    using assms tv rest by (auto simp: validateBotTypeAndConfig_def Let_def falsy_key_def elim!: io_bind_InrE split: if_splits)
  then obtain s where s: "type = JStr s" "parts = split_at (CHR ''/'') s" "w1 = w"
    by (cases type) (auto simp: split_slash_def)
  have "bot_type_pattern s" using rest(1) s(1) by simp
  then obtain kind name where kn: "split_at (CHR ''/'') s = [kind, name]" "s = kind @ ''/'' @ name"
    using bot_type_parts by blast
  have "named (Some name)"
    using assms tv rest sp s kn v by (auto simp: validateBotTypeAndConfig_def Let_def falsy_key_def nth_opt_def io_bind_run split: if_splits)
  then obtain w2 where found: "getSpecificGlobalVersion name v w = (Inr (Ok c), w2)"
    and ok: "\<exists>b. validate_config sv config c w2 = (Inr (Ok b), w')"
    using assms tv rest sp s kn v
    by (auto simp: validateBotTypeAndConfig_def Let_def falsy_key_def nth_opt_def io_bind_Inr version_text_def
        split: if_splits elim!: io_bind_InrE) (auto split: result.splits elim!: io_bind_InrE)
  have c: "c \<in> set (custom_bots w)" "cb_name c = name" "cb_version c = v"
    using versions.one_sound [OF found [unfolded getSpecificGlobalVersion_def rev_findGlobalByKeyAndVersion_def]] by simp_all
  have "validate_config sv config c w2 = (Inr (Ok True), w')"
    using ok validate_config_Ok by blast
  then have "ajv_validate sv (cc_schema_bot (cb_config c)) (filterConfigForSchema config (cc_schema_bot (cb_config c))) = Inr []"
    using validate_accepts [of sv config c w2] by blast
  then have "accepted_config sv config c"
    unfolding accepted_config_def using tv s(1) kn(2) v c by auto
  moreover have "deploy_view w' = deploy_view w"
    using assms bot_reads_keep(1) [OF env_free_deploy] by (rule deploy_reads)
  ultimately show ?thesis using c by simp
qed

lemma create_keeps_rest:
  assumes "role_create sv botRepository mk w = (Inr (Ok r), w')"
  shows "custom_bots w' = custom_bots w \<and> messages w' = messages w"
proof -
  define I where "I = (\<lambda>x :: world. custom_bots x = custom_bots w \<and> messages x = messages w)"
  have env: "env_free I" by (simp add: I_def env_free_def)
  have "preserves I (role_create sv botRepository mk)"
    unfolding role_create_def
    by (intro preserves_or_failure preserves_bind preserves_return preserves_now preserves_draw preserves_insert env)
      (simp add: I_def)
  from preservesD [OF this, of w] show ?thesis using assms by (simp add: I_def)
qed

lemma publish_appends:
  assumes "nats_publish sv t p w = (r, w')"
  shows "custom_bots w' = custom_bots w \<and> bots w' = bots w \<and> messages w' \<in> {messages w, messages w @ [(t, p)]}"
  using assms unfolding nats_publish_def
  by (auto simp: or_failure_def io_catch_run io_bind_run external_def split: if_splits list.splits fault.splits)

text \<open>The events a request may send: none, or this one on the topic of the bot's type.\<close>

definition event_sent :: "(bot_topics \<Rightarrow> string) \<Rightarrow> custom_bot_row \<Rightarrow> bot_event \<Rightarrow> world \<Rightarrow> world \<Rightarrow> bool" where
  "event_sent topic c ev w w' \<longleftrightarrow> messages w' = messages w
     \<or> (\<exists>ts. getTopicsForBotType c = Some ts \<and> messages w' = messages w @ [(topic ts, ev)])"

text \<open>C12. An accepted creation adds one instance, the one it returns: the caller's, of a version whose
  name and version are those of the configuration and against whose schema the configuration
  was checked. At most one event is sent, the creation of this instance, and only after the
  row is stored.\<close>

theorem bot_create_sound:
  assumes "bot_create sv uid name config w = (Inr (Ok b), w')"
  shows "\<exists>c\<in>set (custom_bots w). accepted_config sv config c
    \<and> bots w' = bots w @ [b] \<and> bot_userId b = uid \<and> bot_name b = name \<and> bot_customBotId b = cb_id c
    \<and> bot_config b = obj_put config ''hasFrontend'' (frontend_flag c)
    \<and> event_sent CREATED c (deploy_event (bot_id b) config (cb_id c) c) w w'"
proof -
  define mk where "mk c i created updated = \<lparr>bot_id = i, bot_userId = uid, bot_customBotId = cb_id c, bot_name = name,
    bot_config = obj_put config ''hasFrontend'' (frontend_flag c), bot_topic = Some ''quantflow-scheduled-custom-bot'',
    bot_createdAt = created, bot_updatedAt = updated\<rparr>" for c i created updated
  obtain c w1 r w2 where v: "validateBotTypeAndConfig sv config w = (Inr (Ok c), w1)"
    and cr: "role_create sv botRepository (mk c) w1 = (Inr (Ok r), w2)"
    and rest: "io_bind (case getTopicsForBotType c of None \<Rightarrow> io_return (Ok ())
      | Some topics \<Rightarrow> nats_publish sv (CREATED topics) (deploy_event (bot_id r) config (cb_id c) c)) (\<lambda>_.
     role_findOne botRepository uid (bot_id r)) w2 = (Inr (Ok b), w')"
    using assms unfolding bot_create_def mk_def by (elim ok_bind_OkE)
  have c: "c \<in> set (custom_bots w)" "accepted_config sv config c" "bots w1 = bots w" "messages w1 = messages w"
    using validateBotTypeAndConfig_Ok [OF v] by (simp_all add: deploy_view_def)
  have r: "\<exists>i k u. r = mk c i k u" "bots w2 = bots w @ [r]" "distinct (map bot_id (bots w @ [r]))" "messages w2 = messages w"
    using instances.create_sound [OF cr] create_keeps_rest [OF cr] c(3,4)
    by (auto simp: botsTable_def split: if_splits)
  obtain w3 where pub: "bots w3 = bots w2" "event_sent CREATED c (deploy_event (bot_id r) config (cb_id c) c) w w3"
    and found: "role_findOne botRepository uid (bot_id r) w3 = (Inr (Ok b), w')"
    using rest r(4) by (elim io_bind_InrE) (auto simp: event_sent_def split: option.splits dest!: publish_appends)
  have "deploy_view w' = deploy_view w3" using found bot_reads_keep(3) [OF env_free_deploy] by (rule deploy_reads)
  then have w': "bots w' = bots w3" "messages w' = messages w3" by (simp_all add: deploy_view_def)
  have "b \<in> set (bots w @ [r])" "bot_id b = bot_id r"
    using instances.findOne_sound [OF found] pub(1) r(2) by simp_all
  then have "b = r" using r(3) by (auto simp: image_iff)
  then show ?thesis
    using c(1,2) r pub w' by (intro bexI [of _ c]) (auto simp: mk_def event_sent_def)
qed

lemma version_event:
  assumes "getSpecificUserVersion uid name version w = (Inr (Ok c), w1)"
    "(case getTopicsForBotType c of None \<Rightarrow> io_return () | Some topics \<Rightarrow> io_bind (nats_publish sv (UPDATED topics) (e c)) (\<lambda>_. io_return ())) w1 = (Inr x, w')"
  shows "custom_bots w' = custom_bots w \<and> bots w' = bots w \<and> c \<in> set (custom_bots w) \<and> cb_userId c = uid \<and> cb_name c = name \<and> cb_version c = version
    \<and> (messages w' = messages w \<or> event_sent UPDATED c (e c) w w')"
proof -
  have w1: "deploy_view w1 = deploy_view w" using assms(1) bot_reads_keep(2) [OF env_free_deploy] by (rule deploy_reads)
  have c: "c \<in> set (custom_bots w)" "cb_userId c = uid" "cb_name c = name" "cb_version c = version"
    using versions.one_sound [OF assms(1) [unfolded getSpecificUserVersion_def rev_findByKeyAndVersion_def]]
    by (simp_all add: deploy_view_def)
  show ?thesis
  proof (cases "getTopicsForBotType c")
    case None
    then show ?thesis using assms(2) w1 c by (simp add: deploy_view_def)
  next
    case (Some ts)
    then obtain y where "nats_publish sv (UPDATED ts) (e c) w1 = (Inr y, w')" using assms(2) by (auto elim: io_bind_InrE)
    from publish_appends [OF this] w1 show ?thesis using Some c by (auto simp: deploy_view_def event_sent_def)
  qed
qed

lemma publish_update_effect:
  assumes "publish_update sv uid config i d w = (Inr x, w')"
  shows "custom_bots w' = custom_bots w \<and> bots w' = bots w
    \<and> (messages w' = messages w \<or> (\<exists>b\<in>set (bots w). \<exists>c\<in>set (custom_bots w). bot_id b = i \<and> bot_userId b = uid \<and> cb_userId c = uid
         \<and> cb_name c = cb_name d \<and> cb_version c = cb_version d
         \<and> event_sent UPDATED c (deploy_event i config (cb_id d) c) w w'))"
proof -
  obtain r w1 where r: "role_findOne botRepository uid i w = (Inr r, w1)"
    and rest: "(case r of Failure _ \<Rightarrow> io_return () | Ok b \<Rightarrow>
        io_bind (getSpecificUserVersion uid (cb_name d) (cb_version d)) (\<lambda>customBotResult. case customBotResult of
          Failure _ \<Rightarrow> io_return ()
        | Ok customBot \<Rightarrow> (case getTopicsForBotType customBot of None \<Rightarrow> io_return ()
            | Some topics \<Rightarrow> io_bind (nats_publish sv (UPDATED topics)
                  (deploy_event (bot_id b) config (cb_id d) customBot)) (\<lambda>_. io_return ())))) w1 = (Inr x, w')"
    using assms unfolding publish_update_def by (elim io_bind_InrE)
  have w1: "deploy_view w1 = deploy_view w" using r bot_reads_keep(3) [OF env_free_deploy] by (rule deploy_reads)
  show ?thesis
  proof (cases r)
    case (Ok b)
    then obtain q w2 where q: "getSpecificUserVersion uid (cb_name d) (cb_version d) w1 = (Inr q, w2)"
      and rest2: "(case q of Failure _ \<Rightarrow> io_return () | Ok customBot \<Rightarrow> (case getTopicsForBotType customBot of None \<Rightarrow> io_return ()
            | Some topics \<Rightarrow> io_bind (nats_publish sv (UPDATED topics)
                  (deploy_event (bot_id b) config (cb_id d) customBot)) (\<lambda>_. io_return ()))) w2 = (Inr x, w')"
      using rest by (auto elim: io_bind_InrE)
    have b: "b \<in> set (bots w)" "bot_id b = i" "bot_userId b = uid"
      using instances.findOne_sound [OF r [unfolded Ok]] by simp_all
    show ?thesis
    proof (cases q)
      case (Ok c)
      then show ?thesis
        using version_event [OF q [unfolded Ok], of sv "deploy_event (bot_id b) config (cb_id d)" x w'] rest2 w1 b
        by (auto simp: deploy_view_def event_sent_def)
    next
      case (Failure e)
      have "deploy_view w2 = deploy_view w" using w1 deploy_reads [OF q bot_reads_keep(2) [OF env_free_deploy]] by simp
      then show ?thesis using rest2 Failure by (simp add: deploy_view_def)
    qed
  qed (use rest w1 in \<open>simp add: deploy_view_def\<close>)
qed

lemma update_keeps_rest:
  assumes "role_update botRepository uid i args w = (r, w')"
  shows "custom_bots w' = custom_bots w \<and> messages w' = messages w"
proof -
  define I where "I = (\<lambda>x :: world. custom_bots x = custom_bots w \<and> messages x = messages w)"
  have env: "env_free I" by (simp add: I_def env_free_def)
  have "preserves I (role_update botRepository uid i args)"
    unfolding role_update_def
    by (intro preserves_or_failure preserves_if preserves_bind preserves_return preserves_now preserves_update
        bot_reads_keep env)
      (simp add: I_def)
  from preservesD [OF this, of w] show ?thesis using assms by (simp add: I_def)
qed

text \<open>Both configurations name a version and the major numbers agree, or one of them names none.\<close>

definition compatible_versions :: "server \<Rightarrow> js_object \<Rightarrow> js_object \<Rightarrow> bool" where
  "compatible_versions sv current new \<longleftrightarrow> falsy_key current ''version'' \<or> falsy_key new ''version''
     \<or> (\<exists>x y m. map_of current ''version'' = Some (JStr x) \<and> map_of new ''version'' = Some (JStr y)
          \<and> semver_major sv x = Some m \<and> semver_major sv y = Some m)"

lemma major_of_Inr: "major_of sv v w = (Inr m, w') \<longleftrightarrow> w' = w \<and> (\<exists>s. v = JStr s \<and> semver_major sv s = Some m)"
  by (auto simp: major_of_def split: json.splits option.splits)

lemma major_change_False:
  assumes "major_change sv current new w = (Inr False, w')"
  shows "w' = w \<and> compatible_versions sv current new"
proof (cases "falsy_key current ''version'' \<or> falsy_key new ''version''")
  case False
  then obtain x y where xy: "map_of current ''version'' = Some x" "map_of new ''version'' = Some y"
    by (auto simp: falsy_key_def split: option.splits)
  obtain m w1 where "major_of sv x w = (Inr m, w1)" "major_of sv y w1 = (Inr m, w')"
    using assms False xy by (auto simp: major_change_def elim!: io_bind_InrE)
  then show ?thesis using xy by (auto simp: major_of_Inr compatible_versions_def)
qed (use assms in \<open>auto simp: major_change_def compatible_versions_def\<close>)

definition new_fields :: "server \<Rightarrow> string option \<Rightarrow> js_object \<Rightarrow> custom_bot_row \<Rightarrow> bot_row \<Rightarrow> bot_row \<Rightarrow> bot_row" where
  "new_fields sv name config c old b = b\<lparr>bot_name := (case name of None \<Rightarrow> bot_name b | Some n \<Rightarrow> n),
     bot_config := obj_put config ''hasFrontend'' (frontend_flag c),
     bot_customBotId := (if version_changed sv (bot_config old) config then cb_id c else bot_customBotId old)\<rparr>"

text \<open>The calls behind an accepted update.\<close>

lemma bot_update_OkE:
  assumes "bot_update sv uid i name config w = (Inr (Ok b), w')"
  obtains c w1 old w2 w4 x where "validateBotTypeAndConfig sv config w = (Inr (Ok c), w1)" "role_findOne botRepository uid i w1 = (Inr (Ok old), w2)"
    "compatible_versions sv (bot_config old) config" "role_update botRepository uid i (new_fields sv name config c old) w2 = (Inr (Ok b), w4)"
    "publish_update sv uid config i c w4 = (Inr x, w')"
proof -
  from assms obtain c w1 where v: "validateBotTypeAndConfig sv config w = (Inr (Ok c), w1)"
    and rest: "io_bind (role_findOne botRepository uid i) (\<lambda>currentBot. case currentBot of
       Failure _ \<Rightarrow> io_return (Failure ''Bot not found'')
     | Ok current \<Rightarrow> io_bind (major_change sv (bot_config current) config) (\<lambda>breaking.
         if breaking then io_return (Failure (''Major version upgrade ('' @ field_text sv (bot_config current) ''version''
             @ '' -> '' @ field_text sv config ''version'' @ '') requires delete and redeploy. ''
             @ ''In-place updates are only supported for minor/patch bumps to preserve state compatibility.''))
         else io_bind (role_update botRepository uid i (new_fields sv name config c current)) (\<lambda>result.
           io_bind (if is_ok result then publish_update sv uid config i c else io_return ()) (\<lambda>_.
           io_return result)))) w1 = (Inr (Ok b), w')"
    unfolding bot_update_def new_fields_def [abs_def] by (elim ok_bind_OkE)
  then obtain old w2 w3 w4 x where "role_findOne botRepository uid i w1 = (Inr (Ok old), w2)"
    "major_change sv (bot_config old) config w2 = (Inr False, w3)" "role_update botRepository uid i (new_fields sv name config c old) w3 = (Inr (Ok b), w4)"
    "publish_update sv uid config i c w4 = (Inr x, w')"
    by (auto elim!: io_bind_InrE split: if_splits result.splits)
  then show thesis using that [OF v] major_change_False by metis
qed

lemma changed_row:
  assumes "role_update botRepository uid i args w = (Inr (Ok b), w')" "\<And>y. bot_id (args y) = bot_id y"
  shows "\<exists>now y. y \<in> set (bots w) \<and> bot_id y = i \<and> bot_userId y = uid \<and> b = (args y)\<lparr>bot_updatedAt := now\<rparr>
    \<and> b \<in> set (bots w') \<and> map bot_id (bots w') = map bot_id (bots w)"
proof -
  obtain now y where u: "bots w' = map (\<lambda>x. if owned_row botRepository uid i x then (args x)\<lparr>bot_updatedAt := now\<rparr> else x) (bots w)"
    and y: "y \<in> set (bots w)" "owned_row botRepository uid i y" "b = (args y)\<lparr>bot_updatedAt := now\<rparr>"
    using instances.update_sound [OF assms(1)] by (auto cong: if_cong)
  then show ?thesis using y by (intro exI [of _ now] exI [of _ y]) (auto simp: u owned_row_def assms(2))
qed

text \<open>C13. An accepted update rewrites one instance of the caller: its identity and owner stay, its
  configuration was checked against the version it names, the major version does not change,
  and the reference to the version moves exactly when the version text changes. At most one
  update event is sent, and only for a version that the caller owns.\<close>

theorem bot_update_sound:
  assumes "bot_update sv uid i name config w = (Inr (Ok b), w')"
  shows "\<exists>old\<in>set (bots w). \<exists>c\<in>set (custom_bots w). bot_id old = i \<and> bot_userId old = uid \<and> bot_id b = i \<and> bot_userId b = uid
    \<and> accepted_config sv config c \<and> compatible_versions sv (bot_config old) config
    \<and> bot_config b = obj_put config ''hasFrontend'' (frontend_flag c)
    \<and> bot_customBotId b = (if version_changed sv (bot_config old) config then cb_id c else bot_customBotId old)
    \<and> map bot_id (bots w') = map bot_id (bots w) \<and> b \<in> set (bots w')
    \<and> (messages w' = messages w \<or> (\<exists>own\<in>set (custom_bots w). cb_userId own = uid \<and> cb_name own = cb_name c
         \<and> cb_version own = cb_version c \<and> event_sent UPDATED own (deploy_event i config (cb_id c) own) w w'))"
proof -
  obtain c w1 old w2 w4 x where v: "validateBotTypeAndConfig sv config w = (Inr (Ok c), w1)"
    and fo: "role_findOne botRepository uid i w1 = (Inr (Ok old), w2)" and compatible: "compatible_versions sv (bot_config old) config"
    and up: "role_update botRepository uid i (new_fields sv name config c old) w2 = (Inr (Ok b), w4)"
    and pub: "publish_update sv uid config i c w4 = (Inr x, w')"
    by (rule bot_update_OkE [OF assms])
  have c: "c \<in> set (custom_bots w)" "accepted_config sv config c" "deploy_view w1 = deploy_view w"
    using validateBotTypeAndConfig_Ok [OF v] by simp_all
  have w2: "deploy_view w2 = deploy_view w" using c(3) deploy_reads [OF fo bot_reads_keep(3) [OF env_free_deploy]] by simp
  have old: "old \<in> set (bots w)" "bot_id old = i" "bot_userId old = uid"
    using instances.findOne_sound [OF fo] c(3) by (simp_all add: deploy_view_def)
  obtain now y where y: "bot_id y = i" "bot_userId y = uid" "b = (new_fields sv name config c old y)\<lparr>bot_updatedAt := now\<rparr>"
    and rows: "b \<in> set (bots w4)" "map bot_id (bots w4) = map bot_id (bots w)"
    using changed_row [OF up] w2 by (auto simp: new_fields_def deploy_view_def)
  have b: "bot_id b = i" "bot_userId b = uid" "bot_config b = obj_put config ''hasFrontend'' (frontend_flag c)"
    "bot_customBotId b = (if version_changed sv (bot_config old) config then cb_id c else bot_customBotId old)"
    using y by (simp_all add: new_fields_def)
  note rest = update_keeps_rest [OF up] publish_update_effect [OF pub]
  have msgs: "messages w' = messages w \<or> (\<exists>own\<in>set (custom_bots w). cb_userId own = uid \<and> cb_name own = cb_name c
         \<and> cb_version own = cb_version c \<and> event_sent UPDATED own (deploy_event i config (cb_id c) own) w w')"
    using rest w2 by (auto simp: deploy_view_def event_sent_def)
  show ?thesis
    using old c compatible b rows rest msgs by (intro bexI [of _ old] bexI [of _ c] conjI) simp_all
qed

lemma remove_effect:
  assumes "role_remove botRepository uid i w = (Inr (Ok u), w')"
  shows "custom_bots w' = custom_bots w \<and> messages w' = messages w
    \<and> bots w' = filter (\<lambda>b. \<not> (bot_userId b = uid \<and> bot_id b = i)) (bots w)"
proof -
  have "db_delete botsTable (owned_row botRepository uid i) w = (Inr (), w')"
    using assms unfolding role_remove_def or_failure_Ok by (auto elim!: io_bind_InrE split: if_splits)
  then show ?thesis
    by (auto simp: db_delete_def external_def owned_row_def split: list.splits fault.splits)
qed

lemma removal_topics_own:
  assumes "removal_topics uid config w = (Inr (Ok (Some ts)), w')"
  shows "\<exists>c\<in>set (custom_bots w). cb_userId c = uid \<and> getTopicsForBotType c = Some ts
    \<and> (\<exists>s. map_of config ''type'' = Some (JStr s) \<and> nth_opt (split_at (CHR ''/'') s) 1 = Some (cb_name c))"
proof -
  obtain v parts w1 where v: "map_of config ''type'' = Some v" "split_slash v w = (Inr parts, w1)"
    and n: "named (nth_opt parts 1)"
    and rest: "io_bind (getSpecificUserVersion uid (the (nth_opt parts 1)) (version_text (the (map_of config ''version''))))
       (\<lambda>customBotResult. io_return (Ok (case customBotResult of
              Ok customBot \<Rightarrow> getTopicsForBotType customBot | Failure _ \<Rightarrow> None))) w1 = (Inr (Ok (Some ts) :: (bot_topics option, string) result), w')"
    using assms by (auto simp: removal_topics_def falsy_key_def elim!: io_bind_InrE split: if_splits option.splits)
  obtain s where s: "v = JStr s" "parts = split_at (CHR ''/'') s" "w1 = w"
    using v(2) by (cases v) (auto simp: split_slash_def)
  obtain c w2 where c: "getSpecificUserVersion uid (the (nth_opt parts 1)) (version_text (the (map_of config ''version''))) w = (Inr (Ok c), w2)"
    "getTopicsForBotType c = Some ts"
    using rest s(3) by (auto elim!: io_bind_InrE split: result.splits)
  have "c \<in> set (custom_bots w)" "cb_userId c = uid" "cb_name c = the (nth_opt parts 1)"
    using versions.one_sound [OF c(1) [unfolded getSpecificUserVersion_def rev_findByKeyAndVersion_def]] by simp_all
  moreover have "nth_opt parts 1 = Some (the (nth_opt parts 1))" using n by (auto simp: named_def split: option.splits)
  ultimately show ?thesis using c(2) v(1) s by (intro bexI [of _ c]) auto
qed

lemma orphaned_sound:
  assumes "orphaned_version i w = (Inr (Some (n, v, j)), w')"
  shows "j = i \<and> (\<forall>b\<in>set (bots w). bot_customBotId b \<noteq> i)"
proof -
  have "\<exists>n v. checkOrphaned i w = (Inr (Ok (True, n, v)), w') \<and> j = i"
    using assms by (auto simp: orphaned_version_def elim!: io_bind_InrE split: if_splits result.splits)
  then obtain n v where co: "checkOrphaned i w = (Inr (Ok (True, n, v)), w')" and j: "j = i" by blast
  obtain c w1 m w2 where f: "rev_findOneById customBotTable i w = (Inr (Ok c), w1)"
    "countInstancesByCustomBotId i w1 = (Inr (Ok m), w2)" "m = 0"
    using co unfolding checkOrphaned_def by (elim ok_bind_OkE) auto
  have "preserves (\<lambda>x. bots x = bots w) (rev_findOneById customBotTable i)"
    unfolding rev_findOneById_def rev_one_def
    by (intro preserves_or_failure preserves_bind preserves_select) (auto simp: env_free_def intro: preserves_return split: list.split)
  from preservesD [where I = "\<lambda>x. bots x = bots w", OF this refl] have "bots w1 = bots w" using f(1) by simp
  then show ?thesis using count_one_sound [OF f(2)] f(3) j by (auto simp: filter_empty_conv)
qed

text \<open>The calls behind a removal.\<close>

lemma bot_remove_OkE:
  assumes "bot_remove sv uid i w = (Inr (Ok d), w')"
  obtains old w1 topics w2 u w3 w4 z where "role_findOne botRepository uid i w = (Inr (Ok old), w1)"
    "removal_topics uid (bot_config old) w1 = (Inr (Ok topics), w2)" "role_remove botRepository uid i w2 = (Inr (Ok u), w3)"
    "orphaned_version (bot_customBotId old) w3 = (Inr d, w4)"
    "(case topics of None \<Rightarrow> io_return (Ok ()) | Some ts \<Rightarrow> nats_publish sv (DELETED ts)
       \<lparr>ev_id = bot_id old, ev_config = bot_config old, ev_custom = None\<rparr>) w4 = (Inr z, w')"
  using assms unfolding bot_remove_def by (auto elim!: io_bind_InrE ok_bind_OkE split: result.splits)

lemma removal_messages:
  assumes "removal_topics uid config w1 = (Inr (Ok topics), w2)"
    "(case topics of None \<Rightarrow> io_return (Ok ()) | Some ts \<Rightarrow> nats_publish sv (DELETED ts) e) w = (Inr z, w')"
  shows "bots w' = bots w \<and> (messages w' = messages w \<or> (\<exists>c\<in>set (custom_bots w1). cb_userId c = uid \<and> event_sent DELETED c e w w'))"
proof (cases topics)
  case (Some ts)
  obtain c where "c \<in> set (custom_bots w1)" "cb_userId c = uid" "getTopicsForBotType c = Some ts"
    using removal_topics_own [OF assms(1) [unfolded Some]] by blast
  moreover have "bots w' = bots w \<and> messages w' \<in> {messages w, messages w @ [(DELETED ts, e)]}"
    using publish_appends assms(2) Some by simp
  ultimately show ?thesis by (auto simp: event_sent_def)
qed (use assms(2) in simp)

text \<open>C14. An accepted removal deletes exactly the caller's instance. A version is reported as orphaned
  only when no instance is left on it, and at most one deletion event is sent, only for a bot
  of which the caller owns a version.\<close>

theorem bot_remove_sound:
  assumes "bot_remove sv uid i w = (Inr (Ok d), w')"
  shows "\<exists>old\<in>set (bots w). bot_id old = i \<and> bot_userId old = uid
    \<and> bots w' = filter (\<lambda>b. \<not> (bot_userId b = uid \<and> bot_id b = i)) (bots w)
    \<and> (\<forall>n v j. d = Some (n, v, j) \<longrightarrow> j = bot_customBotId old \<and> (\<forall>b\<in>set (bots w'). bot_customBotId b \<noteq> j))
    \<and> (messages w' = messages w \<or> (\<exists>c\<in>set (custom_bots w). cb_userId c = uid
         \<and> event_sent DELETED c \<lparr>ev_id = i, ev_config = bot_config old, ev_custom = None\<rparr> w w'))"
proof -
  obtain old w1 topics w2 u w3 w4 z where fo: "role_findOne botRepository uid i w = (Inr (Ok old), w1)"
    and t: "removal_topics uid (bot_config old) w1 = (Inr (Ok topics), w2)" and rm: "role_remove botRepository uid i w2 = (Inr (Ok u), w3)"
    and orph: "orphaned_version (bot_customBotId old) w3 = (Inr d, w4)"
    and pub: "(case topics of None \<Rightarrow> io_return (Ok ()) | Some ts \<Rightarrow> nats_publish sv (DELETED ts)
       \<lparr>ev_id = bot_id old, ev_config = bot_config old, ev_custom = None\<rparr>) w4 = (Inr z, w')"
    by (rule bot_remove_OkE [OF assms])
  have o: "old \<in> set (bots w)" "bot_id old = i" "bot_userId old = uid"
    using instances.findOne_sound [OF fo] by simp_all
  have w1: "deploy_view w1 = deploy_view w" using fo bot_reads_keep(3) [OF env_free_deploy] by (rule deploy_reads)
  have w2: "deploy_view w2 = deploy_view w" using w1 deploy_reads [OF t bot_reads_keep(6) [OF env_free_deploy]] by simp
  have w4: "deploy_view w4 = deploy_view w3" using orph bot_reads_keep(5) [OF env_free_deploy] by (rule deploy_reads)
  have bots: "bots w3 = filter (\<lambda>b. \<not> (bot_userId b = uid \<and> bot_id b = i)) (bots w)" "messages w4 = messages w"
    using remove_effect [OF rm] w2 w4 by (simp_all add: deploy_view_def)
  note sent = removal_messages [OF t pub, unfolded o(2)]
  have msgs: "messages w' = messages w \<or> (\<exists>c\<in>set (custom_bots w). cb_userId c = uid
         \<and> event_sent DELETED c \<lparr>ev_id = i, ev_config = bot_config old, ev_custom = None\<rparr> w w')"
    using sent w1 bots(2) by (auto simp: deploy_view_def event_sent_def)
  have "\<forall>n v j. d = Some (n, v, j) \<longrightarrow> j = bot_customBotId old \<and> (\<forall>b\<in>set (bots w'). bot_customBotId b \<noteq> j)"
    using orphaned_sound [of "bot_customBotId old" w3 _ _ _ w4] orph sent w4 by (auto simp: deploy_view_def)
  then show ?thesis using o bots sent w4 msgs by (intro bexI [of _ old]) (simp_all add: deploy_view_def)
qed

section \<open>Concrete requests\<close>

definition demo_deploy :: js_object where
  "demo_deploy = [(''type'', JStr ''scheduled/trend-bot''), (''version'', JStr ''1.0.10''), (''schedule'', JStr ''0 * * * *'')]"

lemma demo_split: "split_at (CHR ''/'') ''scheduled/trend-bot'' = [''scheduled'', ''trend-bot'']"
  by simp

lemma demo_pattern: "bot_type_pattern ''scheduled/trend-bot''"
  by (simp add: bot_type_pattern_def kebab_def is_lower_alnum_def is_digit_def)

lemma demo_versions_found:
  assumes "faults w = []" "custom_bots w = custom_bots two_versions"
  shows "getSpecificGlobalVersion ''trend-bot'' ''1.0.10'' w = (Inr (Ok (demo_version ''v10'' ''1.0.10'' 20)), w)"
    "getSpecificUserVersion ''id-ann'' ''trend-bot'' ''1.0.10'' w = (Inr (Ok (demo_version ''v10'' ''1.0.10'' 20)), w)"
    "getSpecificUserVersion ''id-root'' ''trend-bot'' ''1.0.10'' w = (Inr (Failure ''Not found''), w)"
  by (simp_all add: getSpecificGlobalVersion_def rev_findGlobalByKeyAndVersion_def getSpecificUserVersion_def
      rev_findByKeyAndVersion_def rev_reads_calm assms two_versions_sel)

lemma demo_config_validates:
  assumes "faults w = []" "map_of config ''type'' = Some (JStr s)" "bot_type_pattern s"
    "split_at (CHR ''/'') s = [''scheduled'', name]" "js_trim name \<noteq> []"
    "map_of config ''version'' = Some (JStr ''1.0.10'')" "map_of config ''schedule'' = Some (JStr ''0 * * * *'')"
    "getSpecificGlobalVersion name ''1.0.10'' w = (Inr (Ok c), w)"
  shows "validateBotTypeAndConfig demo_server config w = (Inr (Ok c), w)"
proof -
  have "s \<noteq> []" using assms(4) by auto
  have "validate_config demo_server config c w = (Inr (Ok True), w)"
    using assms \<open>s \<noteq> []\<close> by (simp add: validate_config_def split_slash_def io_bind_run nth_opt_def
        checkSchedule_def validateWithSchema_def Let_def) (simp add: demo_server_def)
  then show ?thesis
    using assms \<open>s \<noteq> []\<close> by (simp add: validateBotTypeAndConfig_def Let_def falsy_key_def semver_valid_json_def
        split_slash_def io_bind_run nth_opt_def named_def version_text_def)
      (simp add: demo_server_def)
qed

lemma demo_deploy_valid:
  "validateBotTypeAndConfig demo_server demo_deploy two_versions = (Inr (Ok (demo_version ''v10'' ''1.0.10'' 20)), two_versions)"
proof (rule demo_config_validates [OF two_versions_sel(1) _ demo_pattern demo_split])
  show "js_trim ''trend-bot'' \<noteq> []" by (simp add: js_trim_def is_js_space_def)
  show "getSpecificGlobalVersion ''trend-bot'' ''1.0.10'' two_versions = (Inr (Ok (demo_version ''v10'' ''1.0.10'' 20)), two_versions)"
    by (rule demo_versions_found(1) [OF two_versions_sel(1) refl])
qed (simp_all add: demo_deploy_def)

text \<open>An instance of Ann's bot, and the world after its creation by a user.\<close>

definition demo_instance :: "string \<Rightarrow> bot_row" where
  "demo_instance uid = \<lparr>bot_id = ''id0'', bot_userId = uid, bot_customBotId = ''v10'', bot_name = ''mine'',
     bot_config = obj_put demo_deploy ''hasFrontend'' (JBool False),
     bot_topic = Some ''quantflow-scheduled-custom-bot'', bot_createdAt = 1001, bot_updatedAt = 1003\<rparr>"

definition demo_deployed :: "string \<Rightarrow> world" where
  "demo_deployed uid = two_versions\<lparr>clock := 1003, ticks := [3], nonce := 1, bots := [demo_instance uid],
     messages := [(CREATED SCHEDULED_BOT_TOPICS, deploy_event ''id0'' demo_deploy ''v10'' (demo_version ''v10'' ''1.0.10'' 20))]\<rparr>"

lemma demo_topics: "getTopicsForBotType (demo_version i v t) = Some SCHEDULED_BOT_TOPICS"
  by (simp add: getTopicsForBotType_def demo_version_def demo_bot_config_def)

lemma demo_publish:
  "faults w = [] \<Longrightarrow> nats_publish demo_server t p w = (Inr (Ok ()), w\<lparr>messages := messages w @ [(t, p)]\<rparr>)"
  by (simp add: nats_publish_def or_failure_def io_catch_run io_bind_run external_calm) (simp add: demo_server_def)

lemma demo_find:
  "faults w = [] \<Longrightarrow> bots w = [demo_instance uid] \<Longrightarrow> uid \<noteq> [] \<Longrightarrow>
     role_findOne botRepository uid ''id0'' w = (Inr (Ok (demo_instance uid)), w)"
  by (simp add: role_findOne_def or_failure_def io_catch_run io_bind_run db_select_calm owned_row_def demo_instance_def)

lemma demo_create:
  assumes "uid \<in> {''id-ann'', ''id-root''}"
  shows "bot_create demo_server uid ''mine'' demo_deploy two_versions = (Inr (Ok (demo_instance uid)), demo_deployed uid)"
proof -
  have flag: "frontend_flag (demo_version i v t) = JBool False" for i v t
    by (simp add: frontend_flag_def demo_version_def demo_bot_config_def)
  have ins: "db_insert botsTable (demo_instance uid) w = (Inr (demo_instance uid), w\<lparr>bots := [demo_instance uid]\<rparr>)"
    if "custom_bots w = custom_bots two_versions" "users w = users demo_world" "faults w = []" "bots w = []" for w
    using that assms by (auto simp: db_insert_calm db_store_def botsTable_def two_versions_sel demo_instance_def
        demo_world_def demo_user_def)
  have "createId demo_server 0 = ''id0''" by (simp add: demo_server_def nat_to_string.simps char_of_def bit_Suc_0_iff)
  then have created: "role_create demo_server botRepository (\<lambda>i created updated.
        \<lparr>bot_id = i, bot_userId = uid, bot_customBotId = ''v10'', bot_name = ''mine'',
         bot_config = obj_put demo_deploy ''hasFrontend'' (JBool False),
         bot_topic = Some ''quantflow-scheduled-custom-bot'', bot_createdAt = created, bot_updatedAt = updated\<rparr>) two_versions
      = (Inr (Ok (demo_instance uid)), two_versions\<lparr>clock := 1003, ticks := [3], nonce := 1, bots := [demo_instance uid]\<rparr>)"
    unfolding role_create_def or_failure_def
    by (simp add: io_catch_run io_bind_run js_now_def draw_def demo_instance_def [symmetric] ins two_versions_def demo_world_def)
  have "uid \<noteq> []" using assms by auto
  then show ?thesis
    by (simp add: demo_deploy_valid bot_create_def ok_bind_run flag created demo_topics io_bind_run demo_publish two_versions_sel)
      (simp add: demo_find two_versions_sel demo_deployed_def demo_instance_def two_versions_def demo_world_def)
qed

lemma demo_deployed_sel:
  "faults (demo_deployed uid) = []" "custom_bots (demo_deployed uid) = custom_bots two_versions"
  "bots (demo_deployed uid) = [demo_instance uid]"
  by (simp_all add: demo_deployed_def two_versions_sel)

theorem bot_create_sound_witness:
  "\<exists>c\<in>set (custom_bots two_versions). accepted_config demo_server demo_deploy c
    \<and> bots (demo_deployed ''id-ann'') = bots two_versions @ [demo_instance ''id-ann'']
    \<and> bot_userId (demo_instance ''id-ann'') = ''id-ann'' \<and> bot_name (demo_instance ''id-ann'') = ''mine''
    \<and> bot_customBotId (demo_instance ''id-ann'') = cb_id c
    \<and> bot_config (demo_instance ''id-ann'') = obj_put demo_deploy ''hasFrontend'' (frontend_flag c)
    \<and> event_sent CREATED c (deploy_event (bot_id (demo_instance ''id-ann'')) demo_deploy (cb_id c) c)
        two_versions (demo_deployed ''id-ann'')"
  by (rule bot_create_sound [OF demo_create]) simp

lemma demo_remove:
  "\<exists>d w'. bot_remove demo_server ''id-root'' ''id0'' (demo_deployed ''id-root'') = (Inr (Ok d), w')
        \<and> bots w' = [] \<and> messages w' = messages (demo_deployed ''id-root'')"
proof -
  have topics: "removal_topics ''id-root'' (bot_config (demo_instance ''id-root'')) (demo_deployed ''id-root'')
      = (Inr (Ok None), demo_deployed ''id-root'')"
    using demo_versions_found(3) [OF demo_deployed_sel(1,2)]
    by (simp add: removal_topics_def demo_instance_def demo_deploy_def obj_put_def falsy_key_def split_slash_def io_bind_run
        nth_opt_def named_def js_trim_def is_js_space_def version_text_def)
  have "\<exists>d w'. orphaned_version ''v10'' w = (Inr d, w') \<and> bots w' = bots w \<and> messages w' = messages w" if "faults w = []" for w
    using that by (simp add: orphaned_version_def checkOrphaned_def ok_bind_run io_bind_run rev_findOneById_def rev_reads_calm
        countInstancesByCustomBotId_def or_failure_def io_catch_run db_select_calm split: list.split)
  from this [of "demo_deployed ''id-root''\<lparr>bots := []\<rparr>"]
  obtain d w' where orph: "orphaned_version ''v10'' (demo_deployed ''id-root''\<lparr>bots := []\<rparr>) = (Inr d, w')"
    "bots w' = []" "messages w' = messages (demo_deployed ''id-root'')"
    by (auto simp: demo_deployed_sel(1))
  have "role_remove botRepository ''id-root'' ''id0'' (demo_deployed ''id-root'')
      = (Inr (Ok ()), demo_deployed ''id-root''\<lparr>bots := []\<rparr>)"
    by (simp add: role_remove_def or_failure_def io_catch_run io_bind_run db_delete_calm demo_deployed_sel owned_row_def demo_instance_def)
  then show ?thesis
    using orph by (simp add: bot_remove_def io_bind_run demo_find [OF demo_deployed_sel(1,3)] ok_bind_run topics)
      (simp add: demo_instance_def)
qed

text \<open>A user who deploys a bot that somebody else uploaded is served: the runtime is told to start
  the instance. When that user removes the instance again, the row is deleted but no event is
  sent, because the removal looks the version up among the user's own bots.\<close>

theorem foreign_instance_removed_silently:
  "bot_create demo_server ''id-root'' ''mine'' demo_deploy two_versions
      = (Inr (Ok (demo_instance ''id-root'')), demo_deployed ''id-root'')
   \<and> length (messages (demo_deployed ''id-root'')) = 1
   \<and> (\<exists>d w'. bot_remove demo_server ''id-root'' ''id0'' (demo_deployed ''id-root'') = (Inr (Ok d), w')
        \<and> bots w' = [] \<and> messages w' = messages (demo_deployed ''id-root''))"
proof (intro conjI)
  show "bot_create demo_server ''id-root'' ''mine'' demo_deploy two_versions
      = (Inr (Ok (demo_instance ''id-root'')), demo_deployed ''id-root'')"
    by (rule demo_create) simp
  show "length (messages (demo_deployed ''id-root'')) = 1" by (simp add: demo_deployed_def)
qed (rule demo_remove)

theorem bot_remove_sound_witness:
  "\<exists>d w'. bot_remove demo_server ''id-root'' ''id0'' (demo_deployed ''id-root'') = (Inr (Ok d), w')
    \<and> (\<exists>old\<in>set (bots (demo_deployed ''id-root'')). bot_id old = ''id0'' \<and> bot_userId old = ''id-root''
    \<and> bots w' = filter (\<lambda>b. \<not> (bot_userId b = ''id-root'' \<and> bot_id b = ''id0'')) (bots (demo_deployed ''id-root''))
    \<and> (\<forall>n v j. d = Some (n, v, j) \<longrightarrow> j = bot_customBotId old \<and> (\<forall>b\<in>set (bots w'). bot_customBotId b \<noteq> j))
    \<and> (messages w' = messages (demo_deployed ''id-root'') \<or> (\<exists>c\<in>set (custom_bots (demo_deployed ''id-root'')). cb_userId c = ''id-root''
         \<and> event_sent DELETED c \<lparr>ev_id = ''id0'', ev_config = bot_config old, ev_custom = None\<rparr> (demo_deployed ''id-root'') w')))"
proof -
  obtain d w' where "bot_remove demo_server ''id-root'' ''id0'' (demo_deployed ''id-root'') = (Inr (Ok d), w')"
    using demo_remove by blast
  from this bot_remove_sound [OF this] show ?thesis by (intro exI [of _ d] exI [of _ w'] conjI)
qed

section \<open>A change of the bot at the same version\<close>

definition grid_bot :: custom_bot_row where
  "grid_bot = (demo_version ''g10'' ''1.0.10'' 30)\<lparr>cb_name := ''grid-bot''\<rparr>"

definition two_bots :: world where
  "two_bots = (demo_deployed ''id-ann'')\<lparr>custom_bots := custom_bots two_versions @ [grid_bot]\<rparr>"

definition demo_switch :: js_object where
  "demo_switch = [(''type'', JStr ''scheduled/grid-bot''), (''version'', JStr ''1.0.10''), (''schedule'', JStr ''0 * * * *'')]"

definition switched :: bot_row where
  "switched = (demo_instance ''id-ann'')\<lparr>bot_config := obj_put demo_switch ''hasFrontend'' (JBool False), bot_updatedAt := 1006\<rparr>"

lemma two_bots_sel:
  "faults two_bots = []" "custom_bots two_bots = custom_bots two_versions @ [grid_bot]"
  "bots two_bots = [demo_instance ''id-ann'']" "users two_bots = users demo_world"
  by (simp_all add: two_bots_def demo_deployed_sel) (simp add: demo_deployed_def two_versions_def)

lemma grid_found:
  assumes "faults w = []" "custom_bots w = custom_bots two_bots"
  shows "getSpecificGlobalVersion ''grid-bot'' ''1.0.10'' w = (Inr (Ok grid_bot), w)"
    "getSpecificUserVersion ''id-ann'' ''grid-bot'' ''1.0.10'' w = (Inr (Ok grid_bot), w)"
  by (simp_all add: getSpecificGlobalVersion_def rev_findGlobalByKeyAndVersion_def getSpecificUserVersion_def
      rev_findByKeyAndVersion_def rev_reads_calm assms two_versions_sel two_bots_sel grid_bot_def)

lemma grid_valid: "validateBotTypeAndConfig demo_server demo_switch two_bots = (Inr (Ok grid_bot), two_bots)"
proof (rule demo_config_validates [OF two_bots_sel(1)])
  show "bot_type_pattern ''scheduled/grid-bot''"
    by (simp add: bot_type_pattern_def kebab_def is_lower_alnum_def is_digit_def)
  show "js_trim ''grid-bot'' \<noteq> []" by (simp add: js_trim_def is_js_space_def)
  show "getSpecificGlobalVersion ''grid-bot'' ''1.0.10'' two_bots = (Inr (Ok grid_bot), two_bots)"
    by (rule grid_found(1) [OF two_bots_sel(1) refl])
qed (simp_all add: demo_switch_def)

lemma grid_update:
  "\<exists>w'. bot_update demo_server ''id-ann'' ''id0'' None demo_switch two_bots = (Inr (Ok switched), w') \<and> bots w' = [switched]"
proof -
  have major: "major_change demo_server (bot_config (demo_instance ''id-ann'')) demo_switch two_bots = (Inr False, two_bots)"
    by (simp add: major_change_def falsy_key_def demo_instance_def demo_deploy_def demo_switch_def obj_put_def major_of_def
        io_bind_run) (simp add: demo_server_def)
  have same: "\<not> version_changed demo_server (bot_config (demo_instance ''id-ann'')) demo_switch"
    by (simp add: version_changed_def falsy_key_def demo_instance_def demo_deploy_def demo_switch_def obj_put_def version_text_def)
      (simp add: demo_server_def)
  have flag: "frontend_flag grid_bot = JBool False"
    by (simp add: frontend_flag_def grid_bot_def demo_version_def demo_bot_config_def)
  define w1 where "w1 = two_bots\<lparr>clock := 1006, ticks := [], bots := [switched]\<rparr>"
  have find: "role_findOne botRepository ''id-ann'' ''id0'' w1 = (Inr (Ok switched), w1)"
    by (simp add: role_findOne_def or_failure_def io_catch_run io_bind_run db_select_calm owned_row_def w1_def two_bots_sel
        switched_def demo_instance_def)
  have stored: "db_update botsTable (owned_row botRepository ''id-ann'' ''id0'') (\<lambda>b. b\<lparr>bot_config := obj_put demo_switch ''hasFrontend'' (JBool False),
      bot_customBotId := bot_customBotId (demo_instance ''id-ann''), bot_updatedAt := 1006\<rparr>) (two_bots\<lparr>clock := 1006, ticks := []\<rparr>)
     = (Inr [switched], w1)"
    by (simp add: db_update_calm two_bots_sel db_store_def w1_def botsTable_def owned_row_def switched_def demo_instance_def
        two_versions_sel demo_world_def demo_user_def)
  have up: "role_update botRepository ''id-ann'' ''id0'' (\<lambda>b. b\<lparr>bot_config := obj_put demo_switch ''hasFrontend'' (JBool False),
      bot_customBotId := bot_customBotId (demo_instance ''id-ann'')\<rparr>) two_bots = (Inr (Ok switched), w1)"
    using stored find by (simp add: role_update_def or_failure_def io_catch_run io_bind_run js_now_def two_bots_def demo_deployed_def)
  have pub: "\<exists>w'. publish_update demo_server ''id-ann'' demo_switch ''id0'' grid_bot w1 = (Inr (), w') \<and> bots w' = [switched]"
  proof -
    have "getTopicsForBotType grid_bot = Some SCHEDULED_BOT_TOPICS"
      by (simp add: getTopicsForBotType_def grid_bot_def demo_version_def demo_bot_config_def)
    moreover have "getSpecificUserVersion ''id-ann'' (cb_name grid_bot) (cb_version grid_bot) w1 = (Inr (Ok grid_bot), w1)"
      using grid_found(2) [of w1] by (simp add: w1_def two_bots_sel) (simp add: grid_bot_def)
    moreover have "faults w1 = []" "bots w1 = [switched]" by (simp_all add: w1_def two_bots_sel)
    ultimately show ?thesis by (simp add: publish_update_def io_bind_run find demo_publish)
  qed
  show ?thesis
    using pub by (auto simp: bot_update_def ok_bind_run grid_valid io_bind_run demo_find [OF two_bots_sel(1,3)] major same flag up)
qed

theorem bot_update_sound_witness:
  "\<exists>w'. bot_update demo_server ''id-ann'' ''id0'' None demo_switch two_bots = (Inr (Ok switched), w')
    \<and> (\<exists>old\<in>set (bots two_bots). \<exists>c\<in>set (custom_bots two_bots). bot_id old = ''id0'' \<and> bot_userId old = ''id-ann''
    \<and> bot_id switched = ''id0'' \<and> bot_userId switched = ''id-ann''
    \<and> accepted_config demo_server demo_switch c \<and> compatible_versions demo_server (bot_config old) demo_switch
    \<and> bot_config switched = obj_put demo_switch ''hasFrontend'' (frontend_flag c)
    \<and> bot_customBotId switched = (if version_changed demo_server (bot_config old) demo_switch then cb_id c else bot_customBotId old)
    \<and> map bot_id (bots w') = map bot_id (bots two_bots) \<and> switched \<in> set (bots w')
    \<and> (messages w' = messages two_bots \<or> (\<exists>own\<in>set (custom_bots two_bots). cb_userId own = ''id-ann'' \<and> cb_name own = cb_name c
         \<and> cb_version own = cb_version c \<and> event_sent UPDATED own (deploy_event ''id0'' demo_switch (cb_id c) own) two_bots w')))"
proof -
  obtain w' where "bot_update demo_server ''id-ann'' ''id0'' None demo_switch two_bots = (Inr (Ok switched), w')"
    using grid_update by blast
  from this bot_update_sound [OF this] show ?thesis by (intro exI [of _ w'] conjI)
qed

text \<open>An update that names another bot at the same version is accepted and stored, but the
  instance goes on referring to the bot it was created from: afterwards no instance refers to
  the version it runs, which the deletion guards then take for unused.\<close>

theorem bot_switch_keeps_old_reference:
  "\<exists>w'. bot_update demo_server ''id-ann'' ''id0'' None demo_switch two_bots = (Inr (Ok switched), w') \<and> bots w' = [switched]
     \<and> map_of (bot_config switched) ''type'' = Some (JStr (''scheduled/'' @ cb_name grid_bot))
     \<and> bot_customBotId switched = ''v10'' \<and> cb_id grid_bot = ''g10''"
  using grid_update by (simp add: switched_def demo_switch_def obj_put_def grid_bot_def demo_instance_def)

end
