(* ===== verification/BotState.thy ===== *)
theory BotState
  imports BotService
begin

text \<open>
  api/src/bot-state/bot-state.service.ts and bot-state.controller.ts: the state that a bot keeps
  between its runs, one archive per bot in the object store. A request unpacks the archive in a
  temporary directory of its own, which is modelled by the files of the state directory in the
  order of the directory; every call of the file system can fail. Packing and unpacking are the
  parameters \<open>tar_state\<close> and \<open>untar_state\<close>.
\<close>

section \<open>Errors, keys and limits\<close>

datatype state_error_code =
    STATE_BOT_NOT_FOUND
  | STATE_KEY_NOT_FOUND
  | STATE_INVALID_KEY
  | STATE_STORAGE_ERROR
  | STATE_FILE_TOO_LARGE
  | STATE_INVALID_JSON
  | STATE_CONCURRENT_MODIFICATION

type_synonym state_error = "state_error_code \<times> string"

definition isValidKey :: "string \<Rightarrow> bool" where
  "isValidKey key \<longleftrightarrow> 1 \<le> length key \<and> length key \<le> 255 \<and> list_all is_id_char key"

definition isValidBotId :: "string \<Rightarrow> bool" where
  "isValidBotId botId \<longleftrightarrow> botId \<noteq> [] \<and> list_all is_id_char botId"

text \<open>Megabytes of the environment; None is NaN, which no size exceeds.\<close>

definition megabytes :: "string option \<Rightarrow> string \<Rightarrow> int option" where
  "megabytes v d = map_option (\<lambda>n. n * 1024 * 1024) (js_parseInt (or_else v d))"

definition exceeds :: "nat \<Rightarrow> int option \<Rightarrow> bool" where
  "exceeds bytes bound = (case bound of None \<Rightarrow> False | Some l \<Rightarrow> int bytes > l)"

definition maxStateFileSize :: "server \<Rightarrow> int option" where
  "maxStateFileSize sv = megabytes (env_max_state_file_mb sv) ''10''"

definition maxStateArchiveSize :: "server \<Rightarrow> int option" where
  "maxStateArchiveSize sv = megabytes (env_max_state_archive_mb sv) ''100''"

definition state_path :: "string \<Rightarrow> string" where
  "state_path botId = botId @ ''/state.tar.gz''"

section \<open>The temporary directory\<close>

text \<open>The files of the state directory, None when there is no such directory.\<close>

type_synonym state_dir = "(string \<times> string) list option"

definition enoent :: js_error where
  "enoent = Err (Some ''ENOENT'') ''no such file or directory'' None"

definition fs_call :: "js_error + 'a \<Rightarrow> (world, 'a) io" where
  "fs_call r = external (\<lambda>w. (r, w))"

text \<open>\<open>try { await fs.access(p) } catch { ... }\<close>: any failure reads as absent.\<close>

definition fs_present :: "bool \<Rightarrow> (world, bool) io" where
  "fs_present b = io_catch (io_bind (fs_call (if b then Inr () else Inl enoent)) (\<lambda>_. io_return True))
     (\<lambda>_. io_return False)"

definition json_file :: "string \<Rightarrow> string" where
  "json_file key = key @ ''.json''"

definition not_found :: "js_error \<Rightarrow> bool" where
  "not_found e \<longleftrightarrow> error_code e = Some ''NotFound''"

section \<open>Download\<close>

definition downloadAndExtractStateWithEtag :: "server \<Rightarrow> string \<Rightarrow> (world, (state_dir \<times> string) option) io" where
  "downloadAndExtractStateWithEtag sv botId = io_bind
     (io_catch (io_bind (statObject sv (state_bucket sv) (state_path botId)) (\<lambda>stat. io_return (Some stat)))
        (\<lambda>e. if not_found e then io_return None else io_throw e)) (\<lambda>found. case found of
      None \<Rightarrow> io_return None
    | Some (bytes, etag) \<Rightarrow>
        if exceeds bytes (maxStateArchiveSize sv)
        then io_throw (plain_error (''State archive exceeds maximum size ('' @ nat_to_string bytes @ '' bytes > ''
               @ int_text (the (maxStateArchiveSize sv)) @ '' bytes)''))
        else io_bind (fs_call (Inr ())) (\<lambda>_. io_catch
          (io_bind (getObject sv (state_bucket sv) (state_path botId)) (\<lambda>archive.
           io_bind (fs_call (Inr ())) (\<lambda>_.
           io_bind (fs_call (untar_state sv archive)) (\<lambda>dir.
           io_bind (fs_call (Inr ())) (\<lambda>_. io_return (Some (dir, etag)))))))
          (\<lambda>e. io_bind (fs_call (Inr ())) (\<lambda>_. io_throw e))))"

definition downloadAndExtractState :: "server \<Rightarrow> string \<Rightarrow> (world, state_dir option) io" where
  "downloadAndExtractState sv botId =
     io_bind (downloadAndExtractStateWithEtag sv botId) (\<lambda>r. io_return (map_option fst r))"

section \<open>Upload\<close>

text \<open>The comparison before the archive is removed: true when the request may go on.\<close>

definition unchanged_or_gone :: "server \<Rightarrow> string \<Rightarrow> string \<Rightarrow> (world, bool) io" where
  "unchanged_or_gone sv botId expectedEtag =
     (if expectedEtag = [] then io_return True
      else io_catch (io_bind (statObject sv (state_bucket sv) (state_path botId)) (\<lambda>stat.
          io_return (snd stat = expectedEtag)))
        (\<lambda>e. if not_found e then io_return True else io_throw e))"

text \<open>The comparison before a new archive is stored: an archive that is gone is a conflict.\<close>

definition unchanged :: "server \<Rightarrow> string \<Rightarrow> string \<Rightarrow> (world, bool) io" where
  "unchanged sv botId expectedEtag =
     (if expectedEtag = [] then io_return True
      else io_catch (io_bind (statObject sv (state_bucket sv) (state_path botId)) (\<lambda>stat.
          io_return (snd stat = expectedEtag)))
        (\<lambda>e. if not_found e then io_return False else io_throw e))"

definition remove_archive :: "server \<Rightarrow> string \<Rightarrow> (world, bool) io" where
  "remove_archive sv botId = io_bind
     (io_catch (removeObject (state_bucket sv) (state_path botId)) (\<lambda>_. io_return ())) (\<lambda>_. io_return True)"

definition json_files :: "(string \<times> string) list \<Rightarrow> (string \<times> string) list" where
  "json_files files = filter (\<lambda>e. js_ends_with (fst e) ''.json'') files"

definition uploadStateWithLocking :: "server \<Rightarrow> string \<Rightarrow> state_dir \<Rightarrow> string \<Rightarrow> (world, bool) io" where
  "uploadStateWithLocking sv botId dir expectedEtag = io_bind (fs_present (dir \<noteq> None)) (\<lambda>present.
     if \<not> present then io_bind (unchanged_or_gone sv botId expectedEtag) (\<lambda>ok.
       if \<not> ok then io_return False else remove_archive sv botId)
     else io_bind (fs_call (Inr (the dir))) (\<lambda>files.
       if json_files files = [] then io_bind (unchanged_or_gone sv botId expectedEtag) (\<lambda>ok.
         if \<not> ok then io_return False else remove_archive sv botId)
       else io_bind (unchanged sv botId expectedEtag) (\<lambda>ok.
         if \<not> ok then io_return False
         else io_bind (fs_call (Inr (tar_state sv files))) (\<lambda>archive.
           io_bind (putObject sv (state_bucket sv) (state_path botId) archive) (\<lambda>_. io_return True)))))"

text \<open>The deprecated variant gives no ETag.\<close>

definition uploadState :: "server \<Rightarrow> string \<Rightarrow> state_dir \<Rightarrow> (world, unit) io" where
  "uploadState sv botId dir = io_bind (uploadStateWithLocking sv botId dir []) (\<lambda>_. io_return ())"

section \<open>The four operations\<close>

definition state_failure :: "state_error_code \<Rightarrow> string \<Rightarrow> (world, ('a, state_error) result) io" where
  "state_failure code msg = io_return (Failure (code, msg))"

text \<open>\<open>catch (error)\<close> of every method.\<close>

definition or_storage_error :: "string \<Rightarrow> (world, ('a, state_error) result) io \<Rightarrow> (world, ('a, state_error) result) io" where
  "or_storage_error msg m = io_catch m (\<lambda>e. state_failure STATE_STORAGE_ERROR msg)"

text \<open>\<open>fs.rm\<close> of the temporary directory.\<close>

definition with_cleanup :: "(world, 'a) io \<Rightarrow> (world, 'a) io" where
  "with_cleanup m = io_finally m (fs_call (Inr ()))"

definition checked_bot_id :: "string \<Rightarrow> (world, ('a, state_error) result) io \<Rightarrow> (world, ('a, state_error) result) io" where
  "checked_bot_id botId m = (if \<not> isValidBotId botId then state_failure STATE_STORAGE_ERROR ''Invalid bot ID format'' else m)"

definition owned_bot :: "string \<Rightarrow> string \<Rightarrow> (world, ('a, state_error) result) io \<Rightarrow> (world, ('a, state_error) result) io" where
  "owned_bot uid botId m = io_bind (bot_findOne uid botId) (\<lambda>botResult. case botResult of
      Failure _ \<Rightarrow> state_failure STATE_BOT_NOT_FOUND ''Bot not found or access denied'' | Ok _ \<Rightarrow> m)"

definition checked_key :: "string \<Rightarrow> (world, ('a, state_error) result) io \<Rightarrow> (world, ('a, state_error) result) io" where
  "checked_key key m = (if \<not> isValidKey key then state_failure STATE_INVALID_KEY ''Invalid state key'' else m)"

text \<open>One entry per JSON file: its name without the extension, and its size.\<close>

fun stat_files :: "(string \<times> string) list \<Rightarrow> (world, (string \<times> nat) list) io" where
  "stat_files [] = io_return []"
| "stat_files (f # fs) = io_bind (fs_call (Inr (length (snd f)))) (\<lambda>bytes.
     io_bind (stat_files fs) (\<lambda>rest. io_return ((take (length (fst f) - 5) (fst f), bytes) # rest)))"

definition listKeys :: "server \<Rightarrow> string \<Rightarrow> string \<Rightarrow> (world, ((string \<times> nat) list, state_error) result) io" where
  "listKeys sv uid botId = checked_bot_id botId (owned_bot uid botId (or_storage_error ''Failed to list state keys''
     (io_bind (downloadAndExtractState sv botId) (\<lambda>tempDir. case tempDir of
        None \<Rightarrow> io_return (Ok [])
      | Some dir \<Rightarrow> with_cleanup (io_bind (fs_present (dir \<noteq> None)) (\<lambda>present.
          if \<not> present then io_return (Ok [])
          else io_bind (fs_call (Inr (the dir))) (\<lambda>files.
               io_bind (stat_files (json_files files)) (\<lambda>keys. io_return (Ok keys)))))))))"

text \<open>\<open>fs.stat\<close> of the file of a key: None when it fails.\<close>

definition stat_key :: "state_dir \<Rightarrow> string \<Rightarrow> (world, string option) io" where
  "stat_key dir key = io_catch
     (io_bind (fs_call (case dir of None \<Rightarrow> Inl enoent | Some files \<Rightarrow>
          (case map_of files (json_file key) of None \<Rightarrow> Inl enoent | Some c \<Rightarrow> Inr c))) (\<lambda>c. io_return (Some c)))
     (\<lambda>_. io_return None)"

definition getKey :: "server \<Rightarrow> string \<Rightarrow> string \<Rightarrow> string \<Rightarrow> (world, (json, state_error) result) io" where
  "getKey sv uid botId key = checked_bot_id botId (owned_bot uid botId (checked_key key
     (or_storage_error ''Failed to get state key''
     (io_bind (downloadAndExtractState sv botId) (\<lambda>tempDir. case tempDir of
        None \<Rightarrow> state_failure STATE_KEY_NOT_FOUND ''State key not found''
      | Some dir \<Rightarrow> with_cleanup (io_bind (stat_key dir key) (\<lambda>stats. case stats of
          None \<Rightarrow> state_failure STATE_KEY_NOT_FOUND ''State key not found''
        | Some content \<Rightarrow>
            if exceeds (length content) (maxStateFileSize sv)
            then state_failure STATE_FILE_TOO_LARGE (''State file exceeds maximum size limit (''
                   @ int_text (the (maxStateFileSize sv) div 1024 div 1024) @ ''MB)'')
            else io_bind (fs_call (Inr content)) (\<lambda>text. case json_parse sv text of
                None \<Rightarrow> state_failure STATE_INVALID_JSON ''State file contains invalid JSON''
              | Some v \<Rightarrow> io_return (Ok v)))))))))"

definition deleteKey :: "server \<Rightarrow> string \<Rightarrow> string \<Rightarrow> string \<Rightarrow> (world, (bool, state_error) result) io" where
  "deleteKey sv uid botId key = owned_bot uid botId (checked_bot_id botId (checked_key key
     (or_storage_error ''Failed to delete state key''
     (io_bind (downloadAndExtractStateWithEtag sv botId) (\<lambda>downloadResult. case downloadResult of
        None \<Rightarrow> io_return (Ok False)
      | Some (dir, etag) \<Rightarrow> with_cleanup
          (io_bind (fs_present (case dir of None \<Rightarrow> False | Some files \<Rightarrow> map_of files (json_file key) \<noteq> None)) (\<lambda>present.
           if \<not> present then io_return (Ok False)
           else io_bind (fs_call (Inr (map_option (AList.delete (json_file key)) dir))) (\<lambda>dir'.
                io_bind (uploadStateWithLocking sv botId dir' etag) (\<lambda>uploadSucceeded.
                if \<not> uploadSucceeded then state_failure STATE_CONCURRENT_MODIFICATION
                    ''State was modified by another operation. Please retry the request.''
                else io_return (Ok True))))))))))"

definition clearState :: "server \<Rightarrow> string \<Rightarrow> string \<Rightarrow> (world, (bool, state_error) result) io" where
  "clearState sv uid botId = checked_bot_id botId (owned_bot uid botId (or_storage_error ''Failed to clear state''
     (io_bind (io_catch (io_bind (statObject sv (state_bucket sv) (state_path botId)) (\<lambda>_. io_return True))
        (\<lambda>e. if not_found e then io_return False else io_throw e)) (\<lambda>exists.
      if \<not> exists then io_return (Ok True)
      else io_bind (removeObject (state_bucket sv) (state_path botId)) (\<lambda>_. io_return (Ok True))))))"

section \<open>The controller\<close>

definition state_http :: "(state_error_code \<Rightarrow> string \<Rightarrow> js_error) \<Rightarrow> ('a, state_error) result \<Rightarrow> (world, 'a) io" where
  "state_http f r = (case r of Ok x \<Rightarrow> io_return x | Failure (code, msg) \<Rightarrow> io_throw (f code msg))"

fun list_error :: "state_error_code \<Rightarrow> string \<Rightarrow> js_error" where
  "list_error STATE_BOT_NOT_FOUND msg = Http 404 ''Bot not found or access denied''"
| "list_error _ msg = Http 400 ''Failed to list state keys''"

fun get_error :: "state_error_code \<Rightarrow> string \<Rightarrow> js_error" where
  "get_error STATE_BOT_NOT_FOUND msg = Http 404 ''Bot or state key not found''"
| "get_error STATE_KEY_NOT_FOUND msg = Http 404 ''Bot or state key not found''"
| "get_error STATE_INVALID_KEY msg = Http 400 ''Invalid state key''"
| "get_error STATE_FILE_TOO_LARGE msg = Http 413 msg"
| "get_error STATE_INVALID_JSON msg = Http 422 ''State file contains invalid JSON''"
| "get_error _ msg = Http 400 ''Failed to get state key''"

fun delete_error :: "state_error_code \<Rightarrow> string \<Rightarrow> js_error" where
  "delete_error STATE_BOT_NOT_FOUND msg = Http 404 ''Bot not found or access denied''"
| "delete_error STATE_INVALID_KEY msg = Http 400 ''Invalid state key''"
| "delete_error STATE_CONCURRENT_MODIFICATION msg =
     Http 409 ''State was modified by another operation. Please retry the request.''"
| "delete_error _ msg = Http 400 ''Failed to delete state key''"

fun clear_error :: "state_error_code \<Rightarrow> string \<Rightarrow> js_error" where
  "clear_error STATE_BOT_NOT_FOUND msg = Http 404 ''Bot not found or access denied''"
| "clear_error _ msg = Http 400 ''Failed to clear state''"

datatype state_request = ListKeys | GetKey string | DeleteKey string | ClearState

fun handle_state :: "server \<Rightarrow> authenticated_user \<Rightarrow> string \<Rightarrow> state_request \<Rightarrow> (world, unit) io" where
  "handle_state sv user botId ListKeys = ignore_result (io_bind (listKeys sv (au_uid user) botId) (state_http list_error))"
| "handle_state sv user botId (GetKey k) = ignore_result (io_bind (getKey sv (au_uid user) botId k) (state_http get_error))"
| "handle_state sv user botId (DeleteKey k) = ignore_result (io_bind (deleteKey sv (au_uid user) botId k) (state_http delete_error))"
| "handle_state sv user botId ClearState = ignore_result (io_bind (clearState sv (au_uid user) botId) (state_http clear_error))"

section \<open>A request changes nothing but its archive\<close>

text \<open>Invariants that do not look at the archive of the bot.\<close>

definition archive_free :: "server \<Rightarrow> string \<Rightarrow> (world \<Rightarrow> bool) \<Rightarrow> bool" where
  "archive_free sv botId I \<longleftrightarrow> env_free I
     \<and> (\<forall>w d. I (w\<lparr>objects := AList.update (state_bucket sv, state_path botId) d (objects w)\<rparr>) = I w)
     \<and> (\<forall>w. I (w\<lparr>objects := AList.delete (state_bucket sv, state_path botId) (objects w)\<rparr>) = I w)"

lemma archive_calls:
  assumes "archive_free sv botId I"
  shows "preserves I (statObject sv b k)" "preserves I (getObject sv b k)" "preserves I (fs_call r)"
    "preserves I (putObject sv (state_bucket sv) (state_path botId) d)"
    "preserves I (removeObject (state_bucket sv) (state_path botId))" "preserves I (bot_findOne uid i)"
proof -
  have env: "env_free I" using assms by (simp add: archive_free_def)
  show "preserves I (bot_findOne uid i)" unfolding bot_findOne_def by (rule bot_reads_keep(3) [OF env])
  show "preserves I (statObject sv b k)" "preserves I (getObject sv b k)" "preserves I (fs_call r)"
    unfolding statObject_def getObject_def fs_call_def
    by (rule preserves_external [OF env], simp add: preserves_def split: option.split)+
  show "preserves I (putObject sv (state_bucket sv) (state_path botId) d)"
    "preserves I (removeObject (state_bucket sv) (state_path botId))"
    unfolding putObject_def removeObject_def
    by (rule preserves_external [OF env], use assms in \<open>simp add: preserves_def archive_free_def\<close>)+
qed

lemma archive_free_fs:
  assumes "archive_free sv botId I"
  shows "preserves I (fs_present b)" "preserves I (stat_key dir key)" "preserves I (stat_files files)"
proof -
  show "preserves I (fs_present b)" "preserves I (stat_key dir key)"
    unfolding fs_present_def stat_key_def by (intro preserves_catch preserves_bind preserves_return archive_calls [OF assms])+
  show "preserves I (stat_files files)"
    by (induction files) (simp_all only: stat_files.simps preserves_return, intro preserves_bind preserves_return archive_calls [OF assms])
qed

lemmas state_rules = preserves_catch preserves_bind preserves_finally preserves_if preserves_option preserves_return preserves_throw

lemma archive_transfers:
  assumes "archive_free sv botId I"
  shows "preserves I (downloadAndExtractStateWithEtag sv botId)" "preserves I (downloadAndExtractState sv botId)"
    "preserves I (uploadStateWithLocking sv botId dir etag)"
proof -
  show down: "preserves I (downloadAndExtractStateWithEtag sv botId)"
    unfolding downloadAndExtractStateWithEtag_def
    by (intro preserves_bind, intro state_rules archive_calls [OF assms])
      (auto intro!: state_rules archive_calls [OF assms] split: option.split prod.split)
  show "preserves I (downloadAndExtractState sv botId)"
    unfolding downloadAndExtractState_def by (intro preserves_bind preserves_return down)
  show "preserves I (uploadStateWithLocking sv botId dir etag)"
    unfolding uploadStateWithLocking_def unchanged_or_gone_def unchanged_def remove_archive_def
    by (intro state_rules archive_calls [OF assms] archive_free_fs [OF assms])
qed

lemma state_operations:
  assumes "archive_free sv botId I"
  shows "preserves I (listKeys sv uid botId)" "preserves I (getKey sv uid botId key)"
    "preserves I (deleteKey sv uid botId key)" "preserves I (clearState sv uid botId)"
proof -
  note rules = state_rules preserves_result archive_calls [OF assms] archive_free_fs [OF assms] archive_transfers [OF assms]
  show "preserves I (listKeys sv uid botId)"
    unfolding listKeys_def checked_bot_id_def owned_bot_def or_storage_error_def state_failure_def with_cleanup_def
    by (intro rules)
  show "preserves I (getKey sv uid botId key)"
    unfolding getKey_def checked_bot_id_def owned_bot_def checked_key_def or_storage_error_def state_failure_def with_cleanup_def
    by (intro rules)
  show "preserves I (deleteKey sv uid botId key)"
    unfolding deleteKey_def checked_bot_id_def owned_bot_def checked_key_def or_storage_error_def state_failure_def with_cleanup_def
    by (intro preserves_if rules) (auto intro!: rules split: option.split prod.split)
  show "preserves I (clearState sv uid botId)"
    unfolding clearState_def checked_bot_id_def owned_bot_def or_storage_error_def state_failure_def
    by (intro rules)
qed

lemma handle_state_keeps:
  assumes "archive_free sv botId I"
  shows "preserves I (handle_state sv user botId req)"
proof -
  have http: "preserves I (state_http f r)" for f :: "state_error_code \<Rightarrow> string \<Rightarrow> js_error" and r :: "('a, state_error) result"
    by (auto simp: state_http_def intro: preserves_return preserves_throw split: result.split)
  show ?thesis
    by (cases req; simp only: handle_state.simps; intro preserves_ignore preserves_bind http state_operations [OF assms])
qed

text \<open>A state request changes no row of any table, sends no message, and touches no object but the
  archive of the bot that it names.\<close>

theorem state_requests_isolated:
  "users (snd (handle_state sv user botId req w)) = users w
   \<and> api_keys (snd (handle_state sv user botId req w)) = api_keys w
   \<and> custom_bots (snd (handle_state sv user botId req w)) = custom_bots w
   \<and> bots (snd (handle_state sv user botId req w)) = bots w
   \<and> messages (snd (handle_state sv user botId req w)) = messages w
   \<and> AList.delete (state_bucket sv, state_path botId) (objects (snd (handle_state sv user botId req w)))
       = AList.delete (state_bucket sv, state_path botId) (objects w)"
proof -
  define I where "I = (\<lambda>x :: world. (users x, api_keys x, custom_bots x, bots x, messages x,
      AList.delete (state_bucket sv, state_path botId) (objects x))
    = (users w, api_keys w, custom_bots w, bots w, messages w, AList.delete (state_bucket sv, state_path botId) (objects w)))"
  have "archive_free sv botId I"
    by (simp add: archive_free_def env_free_def I_def delete_update_same delete_idem)
  from preservesD [OF handle_state_keeps [OF this], of w user req] show ?thesis
    by (simp add: I_def)
qed

text \<open>A method that answers one of the given errors and leaves the object store alone.\<close>

definition denied :: "state_error_code set \<Rightarrow> (world, ('a, state_error) result) io \<Rightarrow> world \<Rightarrow> bool" where
  "denied codes m w \<longleftrightarrow> (\<exists>code msg w1. m w = (Inr (Failure (code, msg)), w1) \<and> code \<in> codes \<and> objects w1 = objects w)"

lemma denied_bot_id: "denied codes m w \<Longrightarrow> denied (insert STATE_STORAGE_ERROR codes) (checked_bot_id botId m) w"
  by (auto simp: denied_def checked_bot_id_def state_failure_def)

lemma owned_bot_denied:
  assumes "\<forall>b\<in>set (bots w). \<not> (bot_id b = botId \<and> bot_userId b = uid)"
  shows "denied {STATE_BOT_NOT_FOUND} (owned_bot uid botId m) w"
proof -
  obtain r w1 where r: "role_findOne botRepository uid botId w = (Inr r, w1)"
    using role_never_rejects(3) by (rule never_rejectsE)
  have "preserves (\<lambda>x. objects x = objects w) (role_findOne botRepository uid botId)"
    by (rule bot_reads_keep(3)) (simp add: env_free_def)
  from preservesD [OF this refl] have "objects w1 = objects w" by (simp add: r)
  moreover have "\<exists>e. r = Failure e"
  proof (cases r)
    case (Ok b)
    then show ?thesis using instances.findOne_sound r assms by fastforce
  qed simp
  ultimately show ?thesis by (auto simp: denied_def owned_bot_def bot_findOne_def io_bind_run r state_failure_def)
qed

text \<open>C20. Who does not own the instance can neither read nor change its state: every operation answers
  with an error and leaves the object store as it was.\<close>

theorem state_needs_owner:
  assumes "\<forall>b\<in>set (bots w). \<not> (bot_id b = botId \<and> bot_userId b = uid)"
  shows "denied {STATE_STORAGE_ERROR, STATE_BOT_NOT_FOUND} (listKeys sv uid botId) w
    \<and> denied {STATE_STORAGE_ERROR, STATE_BOT_NOT_FOUND} (getKey sv uid botId key) w
    \<and> denied {STATE_BOT_NOT_FOUND} (deleteKey sv uid botId key) w
    \<and> denied {STATE_STORAGE_ERROR, STATE_BOT_NOT_FOUND} (clearState sv uid botId) w"
  unfolding listKeys_def getKey_def deleteKey_def clearState_def
  by (intro conjI denied_bot_id owned_bot_denied assms)

theorem state_needs_owner_witness:
  "denied {STATE_STORAGE_ERROR, STATE_BOT_NOT_FOUND} (listKeys demo_server ''id-ann'' ''id0'') (demo_deployed ''id-root'')
    \<and> denied {STATE_STORAGE_ERROR, STATE_BOT_NOT_FOUND} (getKey demo_server ''id-ann'' ''id0'' ''cash'') (demo_deployed ''id-root'')
    \<and> denied {STATE_BOT_NOT_FOUND} (deleteKey demo_server ''id-ann'' ''id0'' ''cash'') (demo_deployed ''id-root'')
    \<and> denied {STATE_STORAGE_ERROR, STATE_BOT_NOT_FOUND} (clearState demo_server ''id-ann'' ''id0'') (demo_deployed ''id-root'')"
  by (rule state_needs_owner) (simp add: demo_deployed_sel demo_instance_def)

section \<open>Reading and deleting a key\<close>

definition archive_of :: "server \<Rightarrow> world \<Rightarrow> string \<Rightarrow> stored_object option" where
  "archive_of sv w botId = map_of (objects w) (state_bucket sv, state_path botId)"

text \<open>The answer to a read, by the archive alone.\<close>

definition read_files :: "server \<Rightarrow> state_dir \<Rightarrow> string \<Rightarrow> (json, state_error) result" where
  "read_files sv dir key = (case Option.bind dir (\<lambda>files. map_of files (json_file key)) of
      None \<Rightarrow> Failure (STATE_KEY_NOT_FOUND, ''State key not found'')
    | Some content \<Rightarrow>
        if exceeds (length content) (maxStateFileSize sv)
        then Failure (STATE_FILE_TOO_LARGE, ''State file exceeds maximum size limit (''
               @ int_text (the (maxStateFileSize sv) div 1024 div 1024) @ ''MB)'')
        else (case json_parse sv content of
            None \<Rightarrow> Failure (STATE_INVALID_JSON, ''State file contains invalid JSON'')
          | Some v \<Rightarrow> Ok v))"

definition read_state :: "server \<Rightarrow> string option \<Rightarrow> string \<Rightarrow> (json, state_error) result" where
  "read_state sv archive key = (case archive of
      None \<Rightarrow> Failure (STATE_KEY_NOT_FOUND, ''State key not found'')
    | Some data \<Rightarrow>
        if exceeds (length data) (maxStateArchiveSize sv) then Failure (STATE_STORAGE_ERROR, ''Failed to get state key'')
        else (case untar_state sv data of
            Inl _ \<Rightarrow> Failure (STATE_STORAGE_ERROR, ''Failed to get state key'')
          | Inr dir \<Rightarrow> read_files sv dir key))"

text \<open>A request that passes the checks, in a world without failures.\<close>

definition admitted :: "server \<Rightarrow> string \<Rightarrow> string \<Rightarrow> string \<Rightarrow> world \<Rightarrow> bool" where
  "admitted sv uid botId key w \<longleftrightarrow> faults w = [] \<and> isValidBotId botId \<and> isValidKey key \<and> uid \<noteq> []
     \<and> (\<exists>b\<in>set (bots w). bot_id b = botId \<and> bot_userId b = uid) \<and> not_found (stat_missing sv (state_path botId))"

lemma fs_calm [io_simps]: "faults w = [] \<Longrightarrow> fs_call r w = (r, w)" "faults w = [] \<Longrightarrow> fs_present b w = (Inr b, w)"
  by (simp_all add: fs_present_def fs_call_def external_calm io_bind_run io_catch_run)

lemma owned_calm:
  assumes "admitted sv uid botId key w"
  shows "owned_bot uid botId m w = m w"
proof -
  have "botId \<noteq> []" using assms by (simp add: admitted_def isValidBotId_def)
  moreover obtain b bs where "filter (owned_row botRepository uid botId) (bots w) = b # bs"
    using assms by (cases "filter (owned_row botRepository uid botId) (bots w)") (auto simp: admitted_def filter_empty_conv owned_row_def)
  ultimately have "bot_findOne uid botId w = (Inr (Ok b), w)"
    using assms by (simp add: admitted_def bot_findOne_def role_findOne_def or_failure_def io_catch_run io_bind_run db_select_calm)
  then show ?thesis by (simp add: owned_bot_def io_bind_run)
qed

lemma stat_calm: "faults w = [] \<Longrightarrow> statObject sv b k w = (case map_of (objects w) (b, k) of
    Some ob \<Rightarrow> (Inr (length (so_data ob), so_etag ob), w) | None \<Rightarrow> (Inl (stat_missing sv k), w))"
  by (simp add: statObject_def external_calm)

lemma download_calm:
  assumes "faults w = []" "not_found (stat_missing sv (state_path botId))"
  shows "downloadAndExtractStateWithEtag sv botId w = (case archive_of sv w botId of
      None \<Rightarrow> (Inr None, w)
    | Some ob \<Rightarrow> if exceeds (length (so_data ob)) (maxStateArchiveSize sv)
        then (Inl (plain_error (''State archive exceeds maximum size ('' @ nat_to_string (length (so_data ob)) @ '' bytes > ''
               @ int_text (the (maxStateArchiveSize sv)) @ '' bytes)'')), w)
        else (case untar_state sv (so_data ob) of Inl e \<Rightarrow> (Inl e, w) | Inr dir \<Rightarrow> (Inr (Some (dir, so_etag ob)), w)))"
  using assms by (auto simp: downloadAndExtractStateWithEtag_def archive_of_def io_bind_run io_catch_run stat_calm client_calm
      fs_calm split: option.split sum.split)

lemma getKey_calm:
  assumes "admitted sv uid botId key w"
  shows "getKey sv uid botId key w = (Inr (read_state sv (map_option so_data (archive_of sv w botId)) key), w)"
proof -
  have a: "faults w = []" "isValidBotId botId" "isValidKey key" "not_found (stat_missing sv (state_path botId))"
    using assms by (simp_all add: admitted_def)
  have stat: "stat_key dir key w = (Inr (Option.bind dir (\<lambda>files. map_of files (json_file key))), w)" for dir
    using a(1) by (simp add: stat_key_def io_catch_run io_bind_run fs_calm split: option.split)
  show ?thesis
    using a by (simp add: getKey_def checked_bot_id_def checked_key_def owned_calm [OF assms] or_storage_error_def io_catch_run
        downloadAndExtractState_def io_bind_run download_calm read_state_def read_files_def with_cleanup_def io_finally_run stat
        fs_calm state_failure_def split: option.split sum.split)
qed

text \<open>What is stored after the key is gone.\<close>

lemma upload_calm:
  assumes "faults w = []" "archive_of sv w botId = Some ob"
  shows "uploadStateWithLocking sv botId (Some files) (so_etag ob) w = (Inr True,
     w\<lparr>objects := (if json_files files = [] then AList.delete (state_bucket sv, state_path botId) (objects w)
        else AList.update (state_bucket sv, state_path botId)
          \<lparr>so_data = tar_state sv files, so_etag = etag_of sv (tar_state sv files)\<rparr> (objects w))\<rparr>)"
proof -
  have same: "unchanged_or_gone sv botId (so_etag ob) w = (Inr True, w)" "unchanged sv botId (so_etag ob) w = (Inr True, w)"
    using assms by (simp_all add: unchanged_or_gone_def unchanged_def archive_of_def io_catch_run io_bind_run stat_calm)
  show ?thesis
    using assms(1) by (simp add: uploadStateWithLocking_def io_bind_run fs_calm same remove_archive_def io_catch_run client_calm)
qed

text \<open>Without failures, deleting a key that is there removes it and no other: afterwards it is not
  found, and every other key reads as before.\<close>

theorem deleteKey_effect:
  assumes "admitted sv uid botId key w" "archive_of sv w botId = Some ob"
    and "\<not> exceeds (length (so_data ob)) (maxStateArchiveSize sv)"
    and "untar_state sv (so_data ob) = Inr (Some files)" "map_of files (json_file key) = Some content"
    and "untar_state sv (tar_state sv (AList.delete (json_file key) files)) = Inr (Some (AList.delete (json_file key) files))"
    and "\<not> exceeds (length (tar_state sv (AList.delete (json_file key) files))) (maxStateArchiveSize sv)"
  shows "\<exists>w'. deleteKey sv uid botId key w = (Inr (Ok True), w')
     \<and> fst (getKey sv uid botId key w') = Inr (Failure (STATE_KEY_NOT_FOUND, ''State key not found''))
     \<and> (\<forall>k. isValidKey k \<and> k \<noteq> key \<longrightarrow> fst (getKey sv uid botId k w') = fst (getKey sv uid botId k w))"
proof -
  have a: "faults w = []" "isValidBotId botId" "isValidKey key" "not_found (stat_missing sv (state_path botId))"
    using assms(1) by (simp_all add: admitted_def)
  define rest where "rest = AList.delete (json_file key) files"
  define w' where "w' = w\<lparr>objects := (if json_files rest = [] then AList.delete (state_bucket sv, state_path botId) (objects w)
        else AList.update (state_bucket sv, state_path botId)
          \<lparr>so_data = tar_state sv rest, so_etag = etag_of sv (tar_state sv rest)\<rparr> (objects w))\<rparr>"
  have run: "deleteKey sv uid botId key w = (Inr (Ok True), w')"
    using a assms(2-5) by (simp add: deleteKey_def checked_bot_id_def checked_key_def owned_calm [OF assms(1)] or_storage_error_def
        io_catch_run io_bind_run download_calm with_cleanup_def io_finally_run fs_calm upload_calm w'_def rest_def)
  have adm: "admitted sv uid botId k w'" "admitted sv uid botId k w" if "isValidKey k" for k
    using assms(1) that by (simp_all add: admitted_def w'_def)
  have arch: "archive_of sv w' botId = (if json_files rest = [] then None
      else Some \<lparr>so_data = tar_state sv rest, so_etag = etag_of sv (tar_state sv rest)\<rparr>)"
    by (simp add: archive_of_def w'_def delete_conv' update_conv')
  have none: "map_of rest (json_file k) = None" if "json_files rest = []" for k
  proof (rule ccontr)
    assume "map_of rest (json_file k) \<noteq> None"
    then obtain c where "(json_file k, c) \<in> set rest" by (auto dest: map_of_SomeD)
    then have "(json_file k, c) \<in> set (json_files rest)" by (simp add: json_files_def js_ends_with_def json_file_def suffix_def)
    then show False using that by simp
  qed
  have after: "read_state sv (map_option so_data (archive_of sv w' botId)) k = read_files sv (Some rest) k" for k
    using none assms(6,7) by (simp add: arch read_state_def rest_def [symmetric]) (simp add: read_files_def)
  have before: "read_state sv (map_option so_data (archive_of sv w botId)) k = read_files sv (Some files) k" for k
    using assms(2-4) by (simp add: read_state_def)
  have other: "read_files sv (Some rest) k = read_files sv (Some files) k" if "k \<noteq> key" for k
    using that by (simp add: read_files_def rest_def delete_conv' json_file_def)
  have "read_files sv (Some rest) key = Failure (STATE_KEY_NOT_FOUND, ''State key not found'')"
    by (simp add: read_files_def rest_def delete_conv')
  then show ?thesis
    using run a(3) adm other by (simp add: getKey_calm after before)
qed

definition demo_stored :: world where
  "demo_stored = (demo_deployed ''id-ann'')\<lparr>objects := [((''bot-state'', ''id0/state.tar.gz''),
     \<lparr>so_data = ''cash.json!1!mode.json!2'', so_etag = ''e1''\<rparr>)]\<rparr>"

lemma demo_limit: "\<not> exceeds n (maxStateArchiveSize demo_server) \<longleftrightarrow> n \<le> 104857600"
proof -
  have "maxStateArchiveSize demo_server = Some 104857600"
  proof -
    have "js_parseInt ''100'' = Some 100" by code_simp
    moreover have "env_max_state_archive_mb demo_server = None" by (simp add: demo_server_def)
    ultimately show ?thesis by (simp add: maxStateArchiveSize_def megabytes_def or_else_def)
  qed
  then show ?thesis by (auto simp: exceeds_def)
qed

theorem deleteKey_effect_witness:
  "\<exists>w'. deleteKey demo_server ''id-ann'' ''id0'' ''cash'' demo_stored = (Inr (Ok True), w')
     \<and> fst (getKey demo_server ''id-ann'' ''id0'' ''cash'' w') = Inr (Failure (STATE_KEY_NOT_FOUND, ''State key not found''))
     \<and> (\<forall>k. isValidKey k \<and> k \<noteq> ''cash'' \<longrightarrow>
          fst (getKey demo_server ''id-ann'' ''id0'' k w') = fst (getKey demo_server ''id-ann'' ''id0'' k demo_stored))"
proof (rule deleteKey_effect)
  show "admitted demo_server ''id-ann'' ''id0'' ''cash'' demo_stored"
    by (simp add: admitted_def demo_stored_def demo_deployed_sel isValidBotId_def isValidKey_def is_id_char_def is_lower_alnum_def
        is_digit_def demo_instance_def) (simp add: demo_server_def not_found_def)
  show "archive_of demo_server demo_stored ''id0'' = Some \<lparr>so_data = ''cash.json!1!mode.json!2'', so_etag = ''e1''\<rparr>"
    by (simp add: archive_of_def demo_stored_def state_path_def) (simp add: demo_server_def)
  show "untar_state demo_server (so_data \<lparr>so_data = ''cash.json!1!mode.json!2'', so_etag = ''e1''\<rparr>)
      = Inr (Some [(''cash.json'', ''1''), (''mode.json'', ''2'')])"
    by (simp add: demo_server_def)
qed (simp_all add: demo_limit json_file_def, simp_all add: demo_server_def)

end
