(* ===== verification/StateLocking.thy ===== *)
theory StateLocking
  imports BotState
begin

text \<open>
  The optimistic locking of bot-state.service.ts: the ETag of the download is compared before the
  new archive is stored. \<open>archive_conflict\<close> says when a request finds another archive than the one
  it has read, and the lemmas show that an upload is refused then and only then. Comparing and
  storing are two calls of the storage; what another process writes between them is not covered
  (the code overwrites it).
\<close>

section \<open>What is promised\<close>

text \<open>With an ETag, an archive of another ETag is a conflict; an archive that is gone is one only
  when a new one is to be stored.\<close>

definition archive_conflict :: "stored_object option \<Rightarrow> string \<Rightarrow> bool \<Rightarrow> bool" where
  "archive_conflict found expectedEtag storing \<longleftrightarrow> expectedEtag \<noteq> []
     \<and> (case found of None \<Rightarrow> storing | Some ob \<Rightarrow> so_etag ob \<noteq> expectedEtag)"

definition kept_files :: "state_dir \<Rightarrow> (string \<times> string) list" where
  "kept_files dir = (case dir of None \<Rightarrow> [] | Some files \<Rightarrow> json_files files)"

definition archive_stored :: "server \<Rightarrow> string \<Rightarrow> state_dir \<Rightarrow> world \<Rightarrow> world" where
  "archive_stored sv botId dir w = w\<lparr>objects := (if kept_files dir = []
     then AList.delete (state_bucket sv, state_path botId) (objects w)
     else AList.update (state_bucket sv, state_path botId)
       \<lparr>so_data = tar_state sv (the dir), so_etag = etag_of sv (tar_state sv (the dir))\<rparr> (objects w))\<rparr>"

section \<open>The comparison\<close>

lemma unchanged_calm:
  assumes "faults w = []" "not_found (stat_missing sv (state_path botId))"
  shows "unchanged sv botId e w = (Inr (\<not> archive_conflict (archive_of sv w botId) e True), w)"
    and "unchanged_or_gone sv botId e w = (Inr (\<not> archive_conflict (archive_of sv w botId) e False), w)"
  using assms by (auto simp: unchanged_def unchanged_or_gone_def archive_conflict_def archive_of_def io_catch_run io_bind_run
      stat_calm split: option.split)

text \<open>C21. In a world where no call fails and the storage answers NotFound for an object that is not
  there, an upload of the state of a bot ends as follows. If the caller gave the ETag of its
  download and the archive now has another one, or there is no archive any more and one is to be
  stored, the answer is false and nothing has changed. Otherwise the answer is true: the archive is
  removed if the directory holds no JSON file, else it holds the packed directory, and no other
  object is touched. Comparison and write are one step here: no other process writes in between.\<close>

theorem upload_with_locking_spec:
  assumes "faults w = []" "not_found (stat_missing sv (state_path botId))"
  shows "uploadStateWithLocking sv botId dir expectedEtag w =
    (if archive_conflict (archive_of sv w botId) expectedEtag (kept_files dir \<noteq> []) then (Inr False, w)
     else (Inr True, archive_stored sv botId dir w))"
proof (cases dir)
  case None
  then show ?thesis
    using assms by (simp add: uploadStateWithLocking_def io_bind_run fs_calm unchanged_calm kept_files_def archive_stored_def
        remove_archive_def io_catch_run client_calm)
next
  case (Some files)
  then show ?thesis
    using assms by (simp add: uploadStateWithLocking_def io_bind_run fs_calm unchanged_calm kept_files_def archive_stored_def
        remove_archive_def io_catch_run client_calm)
qed

text \<open>The stored state of bot id0 has the ETag e1: an upload that has read e0 is refused.\<close>

theorem upload_with_locking_spec_witness:
  "uploadStateWithLocking demo_server ''id0'' (Some [(''mode.json'', ''2'')]) ''e0'' demo_stored = (Inr False, demo_stored)
   \<and> uploadStateWithLocking demo_server ''id0'' (Some [(''mode.json'', ''2'')]) ''e1'' demo_stored
     = (Inr True, archive_stored demo_server ''id0'' (Some [(''mode.json'', ''2'')]) demo_stored)"
proof -
  have h: "faults demo_stored = []" "not_found (stat_missing demo_server (state_path ''id0''))"
    by (simp_all add: demo_stored_def demo_deployed_sel demo_server_def not_found_def)
  have a: "archive_of demo_server demo_stored ''id0'' = Some \<lparr>so_data = ''cash.json!1!mode.json!2'', so_etag = ''e1''\<rparr>"
    by (simp add: archive_of_def demo_stored_def state_path_def demo_server_def)
  have k: "kept_files (Some [(''mode.json'', ''2'')]) = [(''mode.json'', ''2'')]"
    by code_simp
  show ?thesis
    by (simp add: upload_with_locking_spec [OF h] a k archive_conflict_def)
qed

text \<open>Of two requests that have read the same archive, the one that comes second finds a conflict when
  it stores, unless the first has stored an archive with the very same ETag.\<close>

lemma second_upload_conflicts:
  assumes "etag \<noteq> []" "etag_of sv (tar_state sv (the dir)) \<noteq> etag"
  shows "archive_conflict (archive_of sv (archive_stored sv botId dir w) botId) etag True"
  using assms by (simp add: archive_conflict_def archive_of_def archive_stored_def delete_conv' update_conv')

end
