(* ===== verification/Dates.thy ===== *)
theory Dates
  imports Prelude
begin

text \<open>
  The calendar behind JavaScript's \<open>Date\<close> (ECMAScript, "Time Values and Time Range"): days are counted
  from 1 January 1970, a date of local midnight is its day number, and an invalid date is None.
  Local time has a fixed offset from UTC, as in the containers the program runs in. On top of it,
  the date functions of api/src/logs/logs.service.ts: which texts are dates, and the list of the
  days of a range.
\<close>

section \<open>Years, months and days\<close>

definition day_from_year :: "int \<Rightarrow> int" where
  "day_from_year y = 365 * (y - 1970) + (y - 1969) div 4 - (y - 1901) div 100 + (y - 1601) div 400"

definition year_from_day :: "int \<Rightarrow> int" where
  "year_from_day d = (let y = 1970 + 400 * d div 146097 in
     if d < day_from_year y then y - 1 else if day_from_year (y + 1) \<le> d then y + 1 else y)"

definition leap_year :: "int \<Rightarrow> bool" where
  "leap_year y \<longleftrightarrow> y mod 4 = 0 \<and> (y mod 100 \<noteq> 0 \<or> y mod 400 = 0)"

text \<open>The first day of each month within its year, and of the year after it; months count from 0.\<close>

definition month_starts :: "bool \<Rightarrow> int list" where
  "month_starts leap = (if leap then [0, 31, 60, 91, 121, 152, 182, 213, 244, 274, 305, 335, 366]
     else [0, 31, 59, 90, 120, 151, 181, 212, 243, 273, 304, 334, 365])"

definition month_start :: "int \<Rightarrow> int \<Rightarrow> int" where
  "month_start y m = month_starts (leap_year y) ! nat m"

definition year_of :: "int \<Rightarrow> int" where
  "year_of d = year_from_day d"

definition day_in_year :: "int \<Rightarrow> int" where
  "day_in_year d = d - day_from_year (year_of d)"

definition month_of :: "int \<Rightarrow> int" where
  "month_of d = int (length (takeWhile (\<lambda>s. s \<le> day_in_year d) (month_starts (leap_year (year_of d))))) - 1"

definition date_of :: "int \<Rightarrow> int" where
  "date_of d = day_in_year d - month_start (year_of d) (month_of d) + 1"

text \<open>\<open>MakeDay\<close>: months and days out of range carry over.\<close>

definition make_day :: "int \<Rightarrow> int \<Rightarrow> int \<Rightarrow> int" where
  "make_day y m d = (let y' = y + m div 12 in day_from_year y' + month_start y' (m mod 12) + d - 1)"

lemma succ_div:
  fixes x n :: int
  assumes "0 < n"
  shows "(x + 1) div n = x div n + (if (x + 1) mod n = 0 then 1 else 0)"
proof (cases "(x + 1) mod n = 0")
  case True
  then have "x + 1 = n * ((x + 1) div n)" using mult_div_mod_eq [of n "x + 1"] by simp
  then have "x = n * ((x + 1) div n - 1) + (n - 1)" by (simp add: right_diff_distrib)
  then have "x div n = (x + 1) div n - 1" using assms by (intro int_div_pos_eq [where r = "n - 1"]) auto
  then show ?thesis using True by simp
next
  case False
  then have "0 < (x + 1) mod n" using assms by (simp add: order_less_le)
  moreover have "x = n * ((x + 1) div n) + ((x + 1) mod n - 1)" using mult_div_mod_eq [of n "x + 1"] by linarith
  moreover have "(x + 1) mod n < n" using assms by simp
  ultimately have "x div n = (x + 1) div n" by (intro int_div_pos_eq [where r = "(x + 1) mod n - 1"]) auto
  then show ?thesis using False by simp
qed

lemma leap_mods:
  "(y - 1968) mod 4 = 0 \<longleftrightarrow> y mod 4 = 0" "(y - 1900) mod 100 = 0 \<longleftrightarrow> y mod 100 = 0"
  "(y - 1600) mod 400 = 0 \<longleftrightarrow> y mod 400 = 0"
  "y mod 400 = 0 \<Longrightarrow> y mod 100 = 0" "y mod 100 = 0 \<Longrightarrow> y mod 4 = 0" for y :: int
proof -
  show "(y - 1968) mod 4 = 0 \<longleftrightarrow> y mod 4 = 0" by presburger
  have "(100::int) dvd y - 1900 \<longleftrightarrow> 100 dvd y" "(400::int) dvd y - 1600 \<longleftrightarrow> 400 dvd y"
    by (simp_all add: dvd_diff_left_iff)
  then show "(y - 1900) mod 100 = 0 \<longleftrightarrow> y mod 100 = 0" "(y - 1600) mod 400 = 0 \<longleftrightarrow> y mod 400 = 0"
    by (simp_all add: dvd_eq_mod_eq_0)
  have "(100::int) dvd 400" "(4::int) dvd 100" by simp_all
  then show "y mod 400 = 0 \<Longrightarrow> y mod 100 = 0" "y mod 100 = 0 \<Longrightarrow> y mod 4 = 0"
    by (metis dvd_eq_mod_eq_0 dvd_trans)+
qed

lemma leap_sum:
  fixes y a a' b b' c c' :: int
  assumes "a' = a + (if p then 1 else 0)" "b' = b + (if q then 1 else 0)" "c' = c + (if r then 1 else 0)" "r \<longrightarrow> q" "q \<longrightarrow> p"
  shows "365 * (y + 1 - 1970) + a' - b' + c' = 365 * (y - 1970) + a - b + c + (if p \<and> (\<not> q \<or> r) then 366 else 365)"
  using assms by (cases p; cases q; cases r) simp_all

lemma day_from_year_Suc: "day_from_year (y + 1) = day_from_year y + (if leap_year y then 366 else 365)"
  unfolding day_from_year_def leap_year_def
proof (rule leap_sum)
  have eq: "y - 1969 + 1 = y - 1968" "y - 1901 + 1 = y - 1900" "y - 1601 + 1 = y - 1600"
    "y + 1 - 1969 = y - 1968" "y + 1 - 1901 = y - 1900" "y + 1 - 1601 = y - 1600" by simp_all
  note step = succ_div [OF zero_less_numeral, where x = "y - 1969"] succ_div [OF zero_less_numeral, where x = "y - 1901"]
    succ_div [OF zero_less_numeral, where x = "y - 1601"]
  show "(y + 1 - 1969) div 4 = (y - 1969) div 4 + (if y mod 4 = 0 then 1 else 0)"
    "(y + 1 - 1901) div 100 = (y - 1901) div 100 + (if y mod 100 = 0 then 1 else 0)"
    "(y + 1 - 1601) div 400 = (y - 1601) div 400 + (if y mod 400 = 0 then 1 else 0)"
    by (simp_all only: eq step [unfolded eq] leap_mods(1-3))
qed (rule impI, erule leap_mods(4,5))+

lemma year_sum:
  fixes y a b c :: int
  assumes "4 * a \<le> y - 1969" "y - 1969 < 4 * a + 4" "100 * b \<le> y - 1901" "y - 1901 < 100 * b + 100"
    "400 * c \<le> y - 1601" "y - 1601 < 400 * c + 400"
  shows "400 * (365 * (y - 1970) + a - b + c) \<le> 146097 * (y - 1970) + 700"
    and "146097 * (y - 1970) - 700 \<le> 400 * (365 * (y - 1970) + a - b + c)"
proof -
  show "400 * (365 * (y - 1970) + a - b + c) \<le> 146097 * (y - 1970) + 700" using assms by (simp add: algebra_simps)
  show "146097 * (y - 1970) - 700 \<le> 400 * (365 * (y - 1970) + a - b + c)" using assms by (simp add: algebra_simps)
qed
lemma day_from_year_bounds:
  "400 * day_from_year y \<le> 146097 * (y - 1970) + 700" "146097 * (y - 1970) - 700 \<le> 400 * day_from_year y"
proof -
  have b: "4 * (x div 4) \<le> x" "x < 4 * (x div 4) + 4" "100 * (x div 100) \<le> x" "x < 100 * (x div 100) + 100"
    "400 * (x div 400) \<le> x" "x < 400 * (x div 400) + 400" for x :: int
    by (simp_all add: minus_mod_eq_mult_div [symmetric])
  show "400 * day_from_year y \<le> 146097 * (y - 1970) + 700" "146097 * (y - 1970) - 700 \<le> 400 * day_from_year y"
    unfolding day_from_year_def by (rule year_sum; rule b)+
qed

lemma year_from_day: "day_from_year (year_from_day d) \<le> d \<and> d < day_from_year (year_from_day d + 1)"
proof -
  define y where "y = 1970 + 400 * d div 146097"
  have "146097 * (y - 1970) \<le> 400 * d" "400 * d < 146097 * (y - 1970) + 146097"
    by (simp_all add: y_def minus_mod_eq_mult_div [symmetric])
  then have "day_from_year (y - 1) \<le> d" "d < day_from_year (y + 1 + 1)"
    using day_from_year_bounds [of "y - 1"] day_from_year_bounds [of "y + 1 + 1"] by (simp_all add: algebra_simps)
  then show ?thesis by (auto simp: year_from_day_def Let_def y_def [symmetric])
qed

lemma day_from_year_mono: "y \<le> y' \<Longrightarrow> day_from_year y \<le> day_from_year y'"
proof (induction y' rule: int_ge_induct)
  case (step i)
  then show ?case by (simp add: day_from_year_Suc)
qed simp

lemma year_from_day_unique:
  assumes "day_from_year y \<le> d" "d < day_from_year (y + 1)"
  shows "year_from_day d = y"
proof (rule antisym)
  show "year_from_day d \<le> y"
    using year_from_day [of d] assms day_from_year_mono [of "y + 1" "year_from_day d"] by (cases "year_from_day d \<le> y") auto
  show "y \<le> year_from_day d"
    using year_from_day [of d] assms day_from_year_mono [of "year_from_day d + 1" y] by (cases "y \<le> year_from_day d") auto
qed

section \<open>Months\<close>

lemma month_starts_facts:
  "length (month_starts leap) = 13" "month_starts leap ! 0 = 0" "month_starts leap ! 12 = (if leap then 366 else 365)"
  "sorted_wrt (<) (month_starts leap)" "\<forall>i<12. month_starts leap ! Suc i - month_starts leap ! i \<le> 31"
  by (simp_all add: month_starts_def All_less_Suc numeral_eq_Suc)

lemma month_starts_less: "i < j \<Longrightarrow> j < 13 \<Longrightarrow> month_starts leap ! i < month_starts leap ! j"
  using month_starts_facts(1,4) [of leap] by (simp add: sorted_wrt_nth_less)

lemma day_in_year_bounds: "0 \<le> day_in_year d" "day_in_year d < month_starts (leap_year (year_of d)) ! 12"
  using year_from_day [of d] day_from_year_Suc [of "year_from_day d"]
  by (auto simp: day_in_year_def year_of_def month_starts_facts)

definition months_up_to :: "bool \<Rightarrow> int \<Rightarrow> nat" where
  "months_up_to leap x = length (takeWhile (\<lambda>s. s \<le> x) (month_starts leap))"

lemma months_up_to_eq:
  assumes "i < 12" "month_starts leap ! i \<le> x" "x < month_starts leap ! Suc i"
  shows "months_up_to leap x = Suc i"
proof -
  have "month_starts leap ! j \<le> x" if "j < Suc i" for j
    using that assms month_starts_less [of j i leap] by (cases "j = i") auto
  then have "takeWhile (\<lambda>s. s \<le> x) (month_starts leap) = take (Suc i) (month_starts leap)"
    using assms by (intro takeWhile_eq_take_P_nth) auto
  then show ?thesis using assms month_starts_facts(1) [of leap] by (simp add: months_up_to_def)
qed

lemma months_up_to_bounds:
  assumes "0 \<le> x" "x < month_starts leap ! 12"
  obtains i where "i < 12" "months_up_to leap x = Suc i" "month_starts leap ! i \<le> x" "x < month_starts leap ! Suc i"
proof -
  define n where "n = months_up_to leap x"
  have "n \<le> 12"
    using nth_length_takeWhile [of "\<lambda>s. s \<le> x" "month_starts leap"] assms(2) month_starts_facts(1) [of leap]
      set_takeWhileD [of "month_starts leap ! 12" "\<lambda>s. s \<le> x" "month_starts leap"]
      nth_mem [of 12 "takeWhile (\<lambda>s. s \<le> x) (month_starts leap)"] takeWhile_nth [of 12 "\<lambda>s. s \<le> x" "month_starts leap"]
    by (fastforce simp: n_def months_up_to_def not_le)
  moreover have "n \<noteq> 0"
    using assms(1) month_starts_facts(2) [of leap] by (cases leap) (auto simp: n_def months_up_to_def month_starts_def)
  ultimately obtain i where i: "n = Suc i" "i < 12" by (cases n) auto
  have "x < month_starts leap ! Suc i"
    using nth_length_takeWhile [of "\<lambda>s. s \<le> x" "month_starts leap"] i month_starts_facts(1) [of leap]
    by (auto simp: n_def months_up_to_def)
  moreover have "month_starts leap ! i \<le> x"
    using set_takeWhileD [of _ "\<lambda>s. s \<le> x" "month_starts leap"] takeWhile_nth [of i "\<lambda>s. s \<le> x" "month_starts leap"]
      nth_mem [of i "takeWhile (\<lambda>s. s \<le> x) (month_starts leap)"] i
    by (fastforce simp: n_def months_up_to_def)
  ultimately show ?thesis using i that by (simp add: n_def)
qed

lemma month_of_up_to: "month_of d = int (months_up_to (leap_year (year_of d)) (day_in_year d)) - 1"
  by (simp add: month_of_def months_up_to_def)

lemma month_index:
  obtains i where "i < 12" "month_of d = int i" "date_of d = day_in_year d - month_starts (leap_year (year_of d)) ! i + 1"
    "month_starts (leap_year (year_of d)) ! i \<le> day_in_year d" "day_in_year d < month_starts (leap_year (year_of d)) ! Suc i"
proof -
  obtain i where i: "i < 12" "months_up_to (leap_year (year_of d)) (day_in_year d) = Suc i"
    "month_starts (leap_year (year_of d)) ! i \<le> day_in_year d" "day_in_year d < month_starts (leap_year (year_of d)) ! Suc i"
    by (rule months_up_to_bounds [OF day_in_year_bounds [of d]])
  then have "month_of d = int i" by (simp add: month_of_up_to)
  then show ?thesis using i that [of i] by (simp add: date_of_def month_start_def)
qed

lemma month_of_bounds: "0 \<le> month_of d" "month_of d < 12" "1 \<le> date_of d" "date_of d \<le> 31"
    "date_of d \<le> month_start (year_of d) (month_of d + 1) - month_start (year_of d) (month_of d)"
proof -
  obtain i where i: "i < 12" "month_of d = int i" "date_of d = day_in_year d - month_starts (leap_year (year_of d)) ! i + 1"
    "month_starts (leap_year (year_of d)) ! i \<le> day_in_year d" "day_in_year d < month_starts (leap_year (year_of d)) ! Suc i"
    by (rule month_index [of d])
  moreover have "nat (int i + 1) = Suc i" by simp
  ultimately show "0 \<le> month_of d" "month_of d < 12" "1 \<le> date_of d" "date_of d \<le> 31"
    "date_of d \<le> month_start (year_of d) (month_of d + 1) - month_start (year_of d) (month_of d)"
    using month_starts_facts(5) [of "leap_year (year_of d)"] by (auto simp: month_start_def)
qed

definition real_date :: "int \<Rightarrow> int \<Rightarrow> int \<Rightarrow> bool" where
  "real_date y m d \<longleftrightarrow> 0 \<le> m \<and> m < 12 \<and> 1 \<le> d \<and> d \<le> month_start y (m + 1) - month_start y m"

lemma real_date_of: "real_date (year_of d) (month_of d) (date_of d)"
  using month_of_bounds [of d] by (simp add: real_date_def)

lemma make_day_shift: "0 \<le> month_of d \<Longrightarrow> make_day (year_of d) (month_of d) (date_of d + k) = d + k"
  using month_of_bounds(2) [of d] by (simp add: make_day_def Let_def date_of_def day_in_year_def)

lemma make_day_of [simp]: "make_day (year_of d) (month_of d) (date_of d) = d"
  using make_day_shift [of d 0] month_of_bounds(1) [of d] by simp

lemma parts_of_make_day:
  assumes "real_date y m d"
  shows "year_of (make_day y m d) = y \<and> month_of (make_day y m d) = m \<and> date_of (make_day y m d) = d"
proof -
  define i where "i = nat m"
  have i: "i < 12" "m = int i" "nat (m + 1) = Suc i" using assms by (auto simp: i_def real_date_def nat_add_distrib)
  define x where "x = month_starts (leap_year y) ! i + d - 1"
  have day: "make_day y m d = day_from_year y + x"
    using i by (simp add: make_day_def Let_def x_def month_start_def)
  have d: "1 \<le> d" "d \<le> month_starts (leap_year y) ! Suc i - month_starts (leap_year y) ! i"
    using assms i by (simp_all add: real_date_def month_start_def)
  then have x: "month_starts (leap_year y) ! i \<le> x" "x < month_starts (leap_year y) ! Suc i" by (simp_all add: x_def)
  moreover have "0 \<le> month_starts (leap_year y) ! i" "month_starts (leap_year y) ! Suc i \<le> month_starts (leap_year y) ! 12"
    using i month_starts_less [of 0 i "leap_year y"] month_starts_less [of "Suc i" 12 "leap_year y"] month_starts_facts(2) [of "leap_year y"]
    by (cases "i = 0"; cases "Suc i = 12"; simp)+
  ultimately have "year_of (make_day y m d) = y"
    unfolding year_of_def day by (intro year_from_day_unique) (auto simp: day_from_year_Suc month_starts_facts(3) split: if_splits)
  then show ?thesis
    using day x i by (simp add: month_of_up_to date_of_def day_in_year_def months_up_to_eq month_start_def x_def)
qed

text \<open>The calendar is ordered like the numbers YYYYMMDD.\<close>

definition date_number :: "int \<Rightarrow> int" where
  "date_number d = 10000 * year_of d + 100 * (month_of d + 1) + date_of d"

lemma year_of_mono: "d \<le> d' \<Longrightarrow> year_of d \<le> year_of d'"
  using year_from_day [of d] year_from_day [of d'] day_from_year_mono [of "year_from_day d' + 1" "year_from_day d"]
  by (cases "year_of d \<le> year_of d'") (auto simp: year_of_def)

lemma date_number_less:
  assumes "d < d'"
  shows "date_number d < date_number d'"
proof (cases "year_of d = year_of d'")
  case True
  obtain i where i: "i < 12" "month_of d = int i" "date_of d = day_in_year d - month_starts (leap_year (year_of d)) ! i + 1"
    "month_starts (leap_year (year_of d)) ! i \<le> day_in_year d" "day_in_year d < month_starts (leap_year (year_of d)) ! Suc i"
    by (rule month_index [of d])
  obtain j where j: "j < 12" "month_of d' = int j" "date_of d' = day_in_year d' - month_starts (leap_year (year_of d)) ! j + 1"
    "month_starts (leap_year (year_of d)) ! j \<le> day_in_year d'" "day_in_year d' < month_starts (leap_year (year_of d)) ! Suc j"
    using month_index [of d'] True by metis
  have days: "day_in_year d < day_in_year d'" using assms True by (simp add: day_in_year_def)
  have "i \<le> j"
    using i(4) j(1,5) days month_starts_less [of "Suc j" i "leap_year (year_of d)"] i(1) by (cases "Suc j = i"; cases "i \<le> j") auto
  then show ?thesis
    using True days i(2,3) j(2,3) month_of_bounds(4) [of d] month_of_bounds(3) [of d']
    by (cases "i = j") (auto simp: date_number_def)
next
  case False
  then have "year_of d + 1 \<le> year_of d'" using year_of_mono [of d d'] assms by simp
  then show ?thesis using month_of_bounds [of d] month_of_bounds [of d'] by (simp add: date_number_def)
qed

lemma date_number_le: "date_number d \<le> date_number d' \<longleftrightarrow> d \<le> d'"
  using date_number_less [of d d'] date_number_less [of d' d] by (cases d d' rule: linorder_cases) auto

section \<open>Dates as text\<close>

text \<open>\<open>getFullYear().toString()\<close> with the month and the day padded to two digits.\<close>

definition date_text :: "int \<Rightarrow> string" where
  "date_text t = int_text (year_of t) @ pad_zero 2 (int_text (month_of t + 1)) @ pad_zero 2 (int_text (date_of t))"

text \<open>\<open>new Date(y, m, d)\<close>: a year of at most two digits is one of the twentieth century, NaN gives an
  invalid date.\<close>

fun new_date :: "int option \<Rightarrow> int option \<Rightarrow> int option \<Rightarrow> int option" where
  "new_date (Some y) (Some m) (Some d) = Some (make_day (if 0 \<le> y \<and> y \<le> 99 then 1900 + y else y) m d)"
| "new_date _ _ _ = None"

definition year_part :: "string \<Rightarrow> int option" where
  "year_part s = js_parseInt (take 4 s)"

definition month_part :: "string \<Rightarrow> int option" where
  "month_part s = js_parseInt (take 2 (drop 4 s))"

definition day_part :: "string \<Rightarrow> int option" where
  "day_part s = js_parseInt (take 2 (drop 6 s))"

definition date_from_text :: "string \<Rightarrow> int option" where
  "date_from_text s = new_date (year_part s) (map_option (\<lambda>m. m - 1) (month_part s)) (day_part s)"

definition isValidDateFormat :: "string \<Rightarrow> bool" where
  "isValidDateFormat s \<longleftrightarrow> length s = 8 \<and> list_all is_digit s
     \<and> (case date_from_text s of None \<Rightarrow> False
        | Some t \<Rightarrow> Some (year_of t) = year_part s \<and> Some (month_of t) = map_option (\<lambda>m. m - 1) (month_part s)
            \<and> Some (date_of t) = day_part s)"

text \<open>\<open>current.setDate(n)\<close>.\<close>

definition set_date :: "int \<Rightarrow> int \<Rightarrow> int" where
  "set_date t n = make_day (year_of t) (month_of t) n"

lemma set_date_next [simp]: "set_date t (date_of t + k) = t + k" "set_date t (date_of t - 1) = t - 1"
  using make_day_shift [of t k] make_day_shift [of t "-1"] month_of_bounds(1) [of t] by (simp_all add: set_date_def)

function days_until :: "int \<Rightarrow> int \<Rightarrow> string list" where
  "days_until current last_day = (if current \<le> last_day
     then date_text current # days_until (set_date current (date_of current + 1)) last_day else [])"
  by pat_completeness auto
termination by (relation "measure (\<lambda>(current, last_day). nat (last_day + 1 - current))") auto

declare days_until.simps [simp del]

definition generateDateRange :: "string \<Rightarrow> string \<Rightarrow> string list" where
  "generateDateRange startDate endDate = (case (date_from_text startDate, date_from_text endDate) of
      (Some start, Some last_day) \<Rightarrow> if start > last_day then [] else days_until start last_day
    | _ \<Rightarrow> [])"

fun lookback_days :: "nat \<Rightarrow> int \<Rightarrow> string list" where
  "lookback_days 0 current = []"
| "lookback_days (Suc n) current = date_text current # lookback_days n (set_date current (date_of current - 1))"

text \<open>\<open>toISOString()\<close> of a time in milliseconds.\<close>

definition iso_year :: "int \<Rightarrow> string" where
  "iso_year y = (if 0 \<le> y \<and> y \<le> 9999 then pad_zero 4 (int_text y)
     else (if y < 0 then ''-'' else ''+'') @ pad_zero 6 (int_text \<bar>y\<bar>))"

definition iso_text :: "int \<Rightarrow> string" where
  "iso_text ms = (let t = ms div 86400000; r = ms mod 86400000; two = (\<lambda>n. pad_zero 2 (int_text n)) in
     iso_year (year_of t) @ ''-'' @ two (month_of t + 1) @ ''-'' @ two (date_of t) @ ''T'' @ two (r div 3600000) @ '':''
     @ two (r div 60000 mod 60) @ '':'' @ two (r div 1000 mod 60) @ ''.'' @ pad_zero 3 (int_text (r mod 1000)) @ ''Z'')"

section \<open>The dates of a range\<close>

lemma days_until_upto: "days_until a b = map date_text [a..b]"
proof (induction a b rule: days_until.induct)
  case (1 a b)
  then show ?case by (subst days_until.simps) (simp add: upto_rec1)
qed

lemma lookback_upto: "lookback_days n t = map (\<lambda>i. date_text (t - int i)) [0..<n]"
proof (induction n arbitrary: t)
  case (Suc n)
  have "[0..<Suc n] = 0 # map Suc [0..<n]" by (simp add: upt_conv_Cons map_Suc_upt del: upt_Suc)
  then show ?case using Suc by (simp add: o_def diff_diff_eq del: upt_Suc)
qed simp

definition four_digit :: "int \<Rightarrow> bool" where
  "four_digit t \<longleftrightarrow> 1000 \<le> year_of t \<and> year_of t \<le> 9999"

lemma pad_two:
  assumes "0 \<le> n" "n < 100"
  shows "length (pad_zero 2 (int_text n)) = 2 \<and> list_all is_digit (pad_zero 2 (int_text n))
    \<and> digits_value (pad_zero 2 (int_text n)) = nat n"
  using assms length_nat_to_string [of 2 "nat n"] by (simp add: int_text_def digits_pad_zero digits_nat_to_string max_absorb1)

lemma date_text_parts:
  assumes "four_digit t"
  shows "length (date_text t) = 8" "list_all is_digit (date_text t)" "year_part (date_text t) = Some (year_of t)"
    "month_part (date_text t) = Some (month_of t + 1)" "day_part (date_text t) = Some (date_of t)"
    "int (digits_value (date_text t)) = date_number t" "take 1 (date_text t) \<noteq> ''0''"
proof -
  define y where "y = int_text (year_of t)"
  define m where "m = pad_zero 2 (int_text (month_of t + 1))"
  define d where "d = pad_zero 2 (int_text (date_of t))"
  have parts: "date_text t = y @ m @ d" by (simp add: date_text_def y_def m_def d_def)
  have m: "length m = 2" "list_all is_digit m" "digits_value m = nat (month_of t + 1)"
    and d: "length d = 2" "list_all is_digit d" "digits_value d = nat (date_of t)"
    using pad_two [of "month_of t + 1"] pad_two [of "date_of t"] month_of_bounds [of t] by (simp_all add: m_def d_def)
  have year: "1000 \<le> nat (year_of t)" "nat (year_of t) < 10000" "0 \<le> year_of t"
    using assms by (simp_all add: four_digit_def le_nat_iff nat_less_iff)
  have y: "length y = 4" "list_all is_digit y" "digits_value y = nat (year_of t)"
    using year length_nat_to_string [of 4 "nat (year_of t)"] length_nat_to_string [of 3 "nat (year_of t)"]
    by (simp_all add: y_def int_text_def digits_nat_to_string)
  then show "length (date_text t) = 8" "list_all is_digit (date_text t)" "year_part (date_text t) = Some (year_of t)"
    "month_part (date_text t) = Some (month_of t + 1)" "day_part (date_text t) = Some (date_of t)"
    using m d year month_of_bounds [of t] parseInt_digits [of y] parseInt_digits [of m] parseInt_digits [of d]
      length_0_conv [of y] length_0_conv [of m] length_0_conv [of d]
    by (auto simp: parts year_part_def month_part_def day_part_def)
  show "int (digits_value (date_text t)) = date_number t"
    using y m d year month_of_bounds [of t] by (simp add: parts digits_value_append date_number_def)
  show "take 1 (date_text t) \<noteq> ''0''"
  proof
    assume "take 1 (date_text t) = ''0''"
    then obtain r where "y = CHR ''0'' # r" using y(1) by (cases y) (auto simp: parts)
    moreover have "digits_value (CHR ''0'' # r) = digits_value r" by (simp add: digits_value_def)
    ultimately show False using y year digits_value_less [of r] by simp
  qed
qed

lemma valid_text_of:
  assumes "four_digit t"
  shows "isValidDateFormat (date_text t)" "date_from_text (date_text t) = Some t"
proof -
  show "date_from_text (date_text t) = Some t"
    using date_text_parts [OF assms] assms by (simp add: date_from_text_def four_digit_def)
  then show "isValidDateFormat (date_text t)"
    using date_text_parts [OF assms] by (simp add: isValidDateFormat_def)
qed

lemma digit_parts:
  assumes "length s = 8" "list_all is_digit s"
  shows "s = take 4 s @ take 2 (drop 4 s) @ take 2 (drop 6 s)"
    and "list_all is_digit (take 4 s)" "list_all is_digit (take 2 (drop 4 s))" "list_all is_digit (take 2 (drop 6 s))"
proof -
  have "take 2 (drop 4 s) @ drop 2 (drop 4 s) = drop 4 s" by (rule append_take_drop_id)
  moreover have "drop 2 (drop 4 s) = drop 6 s" "take 2 (drop 6 s) = drop 6 s" using assms(1) by simp_all
  ultimately show "s = take 4 s @ take 2 (drop 4 s) @ take 2 (drop 6 s)" by (metis append_take_drop_id)
qed (use assms(2) in \<open>auto simp: list_all_iff dest: in_set_takeD in_set_dropD\<close>)

text \<open>A valid date whose year has four digits is the text of its day.\<close>

lemma valid_is_text:
  assumes "isValidDateFormat s" "take 1 s \<noteq> ''0''"
  shows "\<exists>t. four_digit t \<and> s = date_text t"
proof -
  have s: "length s = 8" "list_all is_digit s" using assms(1) by (simp_all add: isValidDateFormat_def)
  define y m d where "y = take 4 s" and "m = take 2 (drop 4 s)" and "d = take 2 (drop 6 s)"
  have parts: "s = y @ m @ d" "list_all is_digit y" "list_all is_digit m" "list_all is_digit d"
    using digit_parts [OF s] by (simp_all add: y_def m_def d_def)
  have len: "length y = 4" "length m = 2" "length d = 2" using s by (simp_all add: y_def m_def d_def)
  have ints: "year_part s = Some (int (digits_value y))" "month_part s = Some (int (digits_value m))"
    "day_part s = Some (int (digits_value d))"
    using parts(2-4) len by (simp_all add: year_part_def month_part_def day_part_def y_def m_def d_def parseInt_digits flip: length_greater_0_conv)
  then obtain t where t: "date_from_text s = Some t" "year_of t = int (digits_value y)" "month_of t + 1 = int (digits_value m)"
      "date_of t = int (digits_value d)"
    using assms(1) by (auto simp: isValidDateFormat_def split: option.splits)
  have "1000 \<le> digits_value y"
  proof -
    obtain c r where y: "y = c # r" "length r = 3" using len(1) by (cases y) auto
    have "is_digit c" using parts(2) y by simp
    moreover have "c \<noteq> CHR ''0''" using assms(2) parts(1) y by auto
    then have "of_char c \<noteq> (48 :: nat)" using of_char_eq_iff [of c "CHR ''0''", where 'a = nat] by simp
    ultimately have "1 \<le> of_char c - (48 :: nat)" unfolding is_digit_def by arith
    moreover have "digits_value y = (of_char c - 48) * 1000 + digits_value r"
      using digits_value_append [of "[c]" r] y by (simp add: digits_value_def)
    ultimately show ?thesis by simp
  qed
  then have four: "four_digit t" using t(2) digits_value_less [OF parts(2)] len by (simp add: four_digit_def)
  have "int (digits_value s) = date_number t"
    using t(2-4) len parts(1) by (simp add: digits_value_append date_number_def)
  then have "digits_value s = digits_value (date_text t)" using date_text_parts(6) [OF four] by simp
  then have "s = date_text t"
    using date_text_parts(1,2) [OF four] s by (intro digits_value_inj) auto
  then show ?thesis using four by blast
qed

section \<open>Ranges\<close>

lemma generateDateRange_texts:
  assumes "four_digit a" "four_digit b"
  shows "generateDateRange (date_text a) (date_text b) = map date_text [a..b]"
  using valid_text_of [OF assms(1)] valid_text_of [OF assms(2)]
  by (simp add: generateDateRange_def days_until_upto)

text \<open>C22. The days of a range are its valid dates, each once and in order: no day is left out, none is
  repeated, and the loop ends.\<close>

theorem generateDateRange_complete:
  assumes "isValidDateFormat s" "take 1 s \<noteq> ''0''" "isValidDateFormat e" "take 1 e \<noteq> ''0''"
  shows "set (generateDateRange s e) = {x. isValidDateFormat x \<and> take 1 x \<noteq> ''0''
      \<and> digits_value s \<le> digits_value x \<and> digits_value x \<le> digits_value e}
    \<and> sorted_wrt (<) (map digits_value (generateDateRange s e))"
proof -
  obtain a b where ab: "four_digit a" "s = date_text a" "four_digit b" "e = date_text b"
    using valid_is_text assms by blast
  have range: "generateDateRange s e = map date_text [a..b]" using ab generateDateRange_texts by simp
  have between: "four_digit t" if "a \<le> t" "t \<le> b" for t
    using ab(1,3) year_of_mono [OF that(1)] year_of_mono [OF that(2)] by (simp add: four_digit_def)
  have order: "digits_value (date_text t) \<le> digits_value (date_text u) \<longleftrightarrow> t \<le> u"
    if "four_digit t" "four_digit u" for t u
    using date_text_parts(6) [OF that(1)] date_text_parts(6) [OF that(2)] date_number_le [of t u] by linarith
  have all: "set (generateDateRange s e) = {x. isValidDateFormat x \<and> take 1 x \<noteq> ''0''
      \<and> digits_value s \<le> digits_value x \<and> digits_value x \<le> digits_value e}"
  proof (intro equalityI subsetI CollectI)
    fix x assume "x \<in> set (generateDateRange s e)"
    then obtain t where t: "x = date_text t" "a \<le> t" "t \<le> b" by (auto simp: range)
    then show "isValidDateFormat x \<and> take 1 x \<noteq> ''0'' \<and> digits_value s \<le> digits_value x \<and> digits_value x \<le> digits_value e"
      using ab between [OF t(2,3)] by (simp only: t(1) order valid_text_of(1) date_text_parts(7) not_False_eq_True simp_thms)
  next
    fix x assume "x \<in> {x. isValidDateFormat x \<and> take 1 x \<noteq> ''0'' \<and> digits_value s \<le> digits_value x \<and> digits_value x \<le> digits_value e}"
    then have x: "isValidDateFormat x" "take 1 x \<noteq> ''0''" "digits_value s \<le> digits_value x" "digits_value x \<le> digits_value e"
      by blast+
    obtain t where t: "four_digit t" "x = date_text t" using valid_is_text [OF x(1,2)] by blast
    then have "a \<le> t" "t \<le> b" using x(3,4) ab by (simp_all only: order)
    then show "x \<in> set (generateDateRange s e)" using t by (simp add: range)
  qed
  have "digits_value (date_text t) < digits_value (date_text u)" if "a \<le> t" "t < u" "u \<le> b" for t u
    using that between [of t] between [of u] order [of u t] by simp
  then have "sorted_wrt (<) (map digits_value (generateDateRange s e))"
    by (auto simp: range sorted_wrt_map sorted_wrt_iff_nth_less)
  then show ?thesis using all by blast
qed

text \<open>The end of February 2024.\<close>

lemma demo_days:
  "date_text 19781 = ''20240228''" "date_text 19782 = ''20240229''" "date_text 19783 = ''20240301''"
  "four_digit 19781" "four_digit 19782" "four_digit 19783"
proof -
  have y: "year_of 19781 = 2024" "year_of 19782 = 2024" "year_of 19783 = 2024"
    by (simp_all add: year_of_def year_from_day_def day_from_year_def Let_def)
  then show "four_digit 19781" "four_digit 19782" "four_digit 19783" by (simp_all add: four_digit_def)
  have m: "month_of 19781 = 1" "month_of 19782 = 1" "month_of 19783 = 2"
    by (simp_all add: month_of_def y day_in_year_def day_from_year_def leap_year_def month_starts_def)
  have d: "date_of 19781 = 28" "date_of 19782 = 29" "date_of 19783 = 1"
    by (simp_all add: date_of_def m y day_in_year_def day_from_year_def leap_year_def month_starts_def month_start_def)
  show "date_text 19781 = ''20240228''" "date_text 19782 = ''20240229''" "date_text 19783 = ''20240301''"
    by (simp_all add: date_text_def y m d int_text_def pad_zero_def)
      (simp_all add: nat_to_string.simps char_of_def bit_Suc_0_iff)
qed

theorem generateDateRange_complete_witness:
  "''20240229'' \<in> set (generateDateRange ''20240228'' ''20240301'')"
proof -
  note valid = valid_text_of(1) [OF demo_days(4)] valid_text_of(1) [OF demo_days(5)] valid_text_of(1) [OF demo_days(6)]
  have "set (generateDateRange ''20240228'' ''20240301'') = {x. isValidDateFormat x \<and> take 1 x \<noteq> ''0''
      \<and> digits_value ''20240228'' \<le> digits_value x \<and> digits_value x \<le> digits_value ''20240301''}"
    by (rule conjunct1 [OF generateDateRange_complete]) (use valid in \<open>simp_all add: demo_days\<close>)
  moreover have "digits_value ''20240228'' \<le> digits_value ''20240229'' \<and> digits_value ''20240229'' \<le> digits_value ''20240301''"
    by (simp add: digits_value_def)
  ultimately show ?thesis using valid(2) by (simp only: demo_days mem_Collect_eq) simp
qed

end
