(* ===== verification/Utf8.thy ===== *)
theory Utf8
  imports Prelude
begin

text \<open>
  Decoding of bytes as Node does it (\<open>buffer.toString("utf-8")\<close>, the UTF-8 decoder of the WHATWG
  encoding standard). A string of the model that stands for text holds the UTF-8 form of the text,
  so that decoding keeps what is well formed and puts the form of U+FFFD in place of every maximal
  part that is not. Lines are cut at the same places before and after decoding; pieces cut inside a
  character are not decoded to the same text.
\<close>

section \<open>The decoder\<close>

definition ascii_char :: "char \<Rightarrow> bool" where
  "ascii_char c \<longleftrightarrow> (of_char c :: nat) < 0x80"

definition in_bytes :: "char \<Rightarrow> nat \<Rightarrow> nat \<Rightarrow> bool" where
  "in_bytes c a b \<longleftrightarrow> a \<le> of_char c \<and> of_char c \<le> b"

definition continuation :: "char \<Rightarrow> bool" where
  "continuation c \<longleftrightarrow> in_bytes c 0x80 0xBF"

text \<open>How many bytes follow a first byte.\<close>

definition tail_len :: "char \<Rightarrow> nat option" where
  "tail_len b = (if ascii_char b then Some 0 else if in_bytes b 0xC2 0xDF then Some 1
     else if in_bytes b 0xE0 0xEF then Some 2 else if in_bytes b 0xF0 0xF4 then Some 3 else None)"

text \<open>Overlong forms, surrogates and numbers beyond U+10FFFF are excluded by the second byte.\<close>

definition second_ok :: "char \<Rightarrow> char \<Rightarrow> bool" where
  "second_ok b c \<longleftrightarrow> continuation c \<and> (b = CHR 0xE0 \<longrightarrow> in_bytes c 0xA0 0xBF) \<and> (b = CHR 0xED \<longrightarrow> in_bytes c 0x80 0x9F)
     \<and> (b = CHR 0xF0 \<longrightarrow> in_bytes c 0x90 0xBF) \<and> (b = CHR 0xF4 \<longrightarrow> in_bytes c 0x80 0x8F)"

text \<open>The bytes after the first that can belong to its character.\<close>

definition matched :: "char \<Rightarrow> nat \<Rightarrow> string \<Rightarrow> string" where
  "matched b n s = (case s of [] \<Rightarrow> [] | c # _ \<Rightarrow> if second_ok b c then takeWhile continuation (take n s) else [])"

definition replacement :: string where
  "replacement = [CHR 0xEF, CHR 0xBF, CHR 0xBD]"

function utf8_text :: "string \<Rightarrow> string" where
  "utf8_text [] = []"
| "utf8_text (b # s) = (case tail_len b of
      None \<Rightarrow> replacement @ utf8_text s
    | Some n \<Rightarrow> (if length (matched b n s) = n then b # matched b n s else replacement)
        @ utf8_text (drop (length (matched b n s)) s))"
  by pat_completeness auto
termination by (relation "measure length") auto

section \<open>White space\<close>

definition ascii_space :: "char \<Rightarrow> bool" where
  "ascii_space c \<longleftrightarrow> c = CHR '' '' \<or> in_bytes c 0x09 0x0D"

text \<open>The other characters that \<open>trim\<close> removes, in their UTF-8 form.\<close>

definition wide_space :: "char \<Rightarrow> char \<Rightarrow> char \<Rightarrow> bool" where
  "wide_space a b c \<longleftrightarrow> a = CHR 0xE1 \<and> b = CHR 0x9A \<and> c = CHR 0x80
     \<or> a = CHR 0xE2 \<and> b = CHR 0x80 \<and> (in_bytes c 0x80 0x8A \<or> c = CHR 0xA8 \<or> c = CHR 0xA9 \<or> c = CHR 0xAF)
     \<or> a = CHR 0xE2 \<and> b = CHR 0x81 \<and> c = CHR 0x9F \<or> a = CHR 0xE3 \<and> b = CHR 0x80 \<and> c = CHR 0x80
     \<or> a = CHR 0xEF \<and> b = CHR 0xBB \<and> c = CHR 0xBF"

text \<open>\<open>!line.trim()\<close>\<close>

fun blank_line :: "string \<Rightarrow> bool" where
  "blank_line [] = True"
| "blank_line (a # s) = (if ascii_space a then blank_line s else case s of
      [] \<Rightarrow> False
    | b # t \<Rightarrow> if a = CHR 0xC2 \<and> b = CHR 0xA0 then blank_line t else (case t of
        [] \<Rightarrow> False | c # u \<Rightarrow> wide_space a b c \<and> blank_line u))"

section \<open>Text of ASCII\<close>

lemma ascii_tail [simp]: "ascii_char c \<Longrightarrow> tail_len c = Some 0"
  by (simp add: tail_len_def)

lemma ascii_not_continuation: "ascii_char c \<Longrightarrow> \<not> continuation c"
  by (simp add: ascii_char_def continuation_def in_bytes_def)

lemma matched_0 [simp]: "matched b 0 s = []"
  by (simp add: matched_def split: list.split)

lemma utf8_ascii_Cons [simp]: "ascii_char c \<Longrightarrow> utf8_text (c # s) = c # utf8_text s"
  by simp

lemma utf8_ascii: "list_all ascii_char s \<Longrightarrow> utf8_text s = s"
  by (induction s) (simp_all del: utf8_text.simps(2))

section \<open>Lines\<close>

lemma matched_length: "length (matched b n s) \<le> length s" "length (matched b n s) \<le> n"
  by (auto simp: matched_def split: list.split intro: order.trans [OF length_takeWhile_le])

lemma matched_continuation: "c \<in> set (matched b n s) \<Longrightarrow> continuation c"
  by (auto simp: matched_def split: list.splits if_splits dest: set_takeWhileD)

lemma matched_before_ascii:
  assumes "ascii_char c"
  shows "matched b n (x @ c # y) = matched b n x"
proof (cases x)
  case Nil
  then show ?thesis using ascii_not_continuation [OF assms] by (simp add: matched_def second_ok_def)
next
  case (Cons a x')
  have "takeWhile continuation (take n (x @ c # y)) = takeWhile continuation (take n x)"
    using ascii_not_continuation [OF assms]
    by (cases "n - length x") (auto simp: takeWhile_append takeWhile_eq_all_conv intro!: sym [where t = x])
  then show ?thesis by (simp add: matched_def Cons)
qed

lemma utf8_at_ascii:
  assumes "ascii_char c"
  shows "utf8_text (x @ c # y) = utf8_text x @ c # utf8_text y"
proof (induction x rule: utf8_text.induct)
  case 1
  then show ?case using assms by simp
next
  case (2 b s)
  show ?case
  proof (cases "tail_len b")
    case None
    then show ?thesis using 2(1) by simp
  next
    case (Some n)
    have "drop (length (matched b n s)) (s @ c # y) = drop (length (matched b n s)) s @ c # y"
      using matched_length(1) [of b n s] by simp
    then show ?thesis using 2(2) [OF Some] Some by (simp add: matched_before_ascii [OF assms])
  qed
qed

lemma utf8_no_ascii:
  assumes "ascii_char c" "c \<notin> set s"
  shows "c \<notin> set (utf8_text s)"
  using assms(2)
proof (induction s rule: utf8_text.induct)
  case (2 b s)
  have r: "c \<notin> set replacement" using assms(1) by (auto simp: replacement_def ascii_char_def)
  show ?case
  proof (cases "tail_len b")
    case None
    then show ?thesis using 2(1,3) r by simp
  next
    case (Some n)
    have "c \<notin> set (matched b n s)" using matched_continuation ascii_not_continuation [OF assms(1)] by blast
    moreover have "c \<notin> set (drop (length (matched b n s)) s)" using 2(3) by (auto dest: in_set_dropD)
    ultimately show ?thesis using 2(2) [OF Some] 2(3) r Some by simp
  qed
qed simp

text \<open>Cutting at an ASCII character and decoding may be swapped.\<close>

lemma split_at_utf8:
  assumes "ascii_char c"
  shows "split_at c (utf8_text s) = map utf8_text (split_at c s)"
proof (induction s rule: length_induct)
  case (1 s)
  show ?case
  proof (cases "c \<in> set s")
    case False
    then show ?thesis using utf8_no_ascii [OF assms False] by (simp add: split_at_no_sep)
  next
    case True
    then obtain x y where s: "s = x @ c # y" "c \<notin> set x" by (auto dest: split_list_first)
    then show ?thesis
      using 1 utf8_no_ascii [OF assms s(2)] by (simp add: utf8_at_ascii [OF assms] split_at_append_sep)
  qed
qed

section \<open>Pieces\<close>

text \<open>Decoded one by one, the pieces give the text of the whole.\<close>

definition no_cut :: "string list \<Rightarrow> bool" where
  "no_cut cs \<longleftrightarrow> concat (map utf8_text cs) = utf8_text (concat cs)"

lemma no_cut_ascii:
  assumes "list_all ascii_char (concat cs)"
  shows "no_cut cs"
proof -
  have "list_all ascii_char c" if "c \<in> set cs" for c using assms that by (auto simp: list_all_iff)
  then have "map utf8_text cs = cs" by (auto simp: utf8_ascii intro: map_idI)
  then show ?thesis using assms by (simp add: no_cut_def utf8_ascii)
qed

text \<open>The two bytes of an e with an acute accent: in one piece they are kept, in two pieces each is
  replaced.\<close>

lemma cut_character:
  "utf8_text [CHR 0xC3, CHR 0xA9] = [CHR 0xC3, CHR 0xA9]" "\<not> no_cut [[CHR 0xC3], [CHR 0xA9]]"
  by code_simp+

end
