(* ===== verification/Logs.thy ===== *)
theory Logs
  imports BotState Dates Utf8
begin

text \<open>
  api/src/logs/logs.service.ts and the paging of logs.controller.ts: log lines are kept in one object
  per bot and day, and a query reads them by date, by range of dates, or backwards from today. Each
  piece of a streamed object is one external call. Objects hold bytes; what is read of them is decoded as
  the code does it, piece by piece from the start and as a whole from the tail (Utf8).
\<close>

section \<open>Queries and entries\<close>

record logs_query =
  lq_date :: "string option"
  lq_dateRange :: "string option"
  lq_lookbackDays :: "nat option"
  lq_limit :: int
  lq_offset :: int
  lq_type :: "string option"
  lq_sort :: "string option"
  lq_startTime :: "int option"
  lq_endTime :: "int option"

record log_entry =
  le_date :: string
  le_content :: json
  le_timestamp :: json

definition TAIL_BYTES :: nat where
  "TAIL_BYTES = 512 * 1024"

definition isNotFoundError :: "js_error \<Rightarrow> bool" where
  "isNotFoundError e \<longleftrightarrow> error_code e = Some ''NoSuchKey'' \<or> error_code e = Some ''NotFound''"

definition metrics_only :: "logs_query \<Rightarrow> bool" where
  "metrics_only q \<longleftrightarrow> lq_type q = Some ''metrics''"

definition log_path :: "string \<Rightarrow> string \<Rightarrow> string" where
  "log_path botId date = ''logs/'' @ botId @ ''/'' @ date @ ''.log''"

section \<open>Lines\<close>

text \<open>A property of a parsed value: undefined reads as null, which is as falsy.\<close>

fun json_prop :: "json \<Rightarrow> string \<Rightarrow> json" where
  "json_prop (JObj kvs) k = (case map_of kvs k of Some v \<Rightarrow> v | None \<Rightarrow> JNull)"
| "json_prop _ k = JNull"

definition or_null :: "json \<Rightarrow> json" where
  "or_null v = (if json_truthy v then v else JNull)"

definition plain_line :: "string \<Rightarrow> string \<Rightarrow> log_entry" where
  "plain_line line logDate = \<lparr>le_date = logDate, le_content = JStr line, le_timestamp = JNull\<rparr>"

text \<open>Reading a property of null throws, like text that is not JSON.\<close>

definition normalizeLine :: "server \<Rightarrow> string \<Rightarrow> string \<Rightarrow> log_entry" where
  "normalizeLine sv line logDate = (case json_parse sv line of
      None \<Rightarrow> plain_line line logDate
    | Some parsed \<Rightarrow> if parsed = JNull then plain_line line logDate
        else if json_truthy (json_prop parsed ''_metric'')
        then \<lparr>le_date = logDate, le_content = JStr line, le_timestamp = or_null (json_prop parsed ''timestamp'')\<rparr>
        else \<lparr>le_date = logDate,
          le_content = (if json_truthy (json_prop parsed ''message'') then json_prop parsed ''message'' else JStr line),
          le_timestamp = or_null (json_prop parsed ''timestamp'')\<rparr>)"

definition is_metric :: "server \<Rightarrow> string \<Rightarrow> bool" where
  "is_metric sv line \<longleftrightarrow> (case json_parse sv line of None \<Rightarrow> False
     | Some parsed \<Rightarrow> parsed \<noteq> JNull \<and> json_truthy (json_prop parsed ''_metric''))"

definition outside_window :: "server \<Rightarrow> logs_query \<Rightarrow> log_entry \<Rightarrow> bool" where
  "outside_window sv q e \<longleftrightarrow> (case (lq_startTime q, lq_endTime q) of
      (Some s, Some t) \<Rightarrow> le_timestamp e \<noteq> JNull \<and> (case js_date sv (le_timestamp e) of
          None \<Rightarrow> False | Some x \<Rightarrow> x < s \<or> x > t)
    | _ \<Rightarrow> False)"

text \<open>Blank lines are skipped, and lines without a metric when only metrics are asked for.\<close>

definition wanted :: "server \<Rightarrow> logs_query \<Rightarrow> string \<Rightarrow> bool" where
  "wanted sv q line \<longleftrightarrow> \<not> blank_line line \<and> (metrics_only q \<longrightarrow> is_metric sv line)"

section \<open>Reading from the start\<close>

text \<open>The entries found so far and the number of lines skipped for the offset.\<close>

type_synonym found = "log_entry list \<times> nat"

definition full :: "logs_query \<Rightarrow> log_entry list \<Rightarrow> bool" where
  "full q entries \<longleftrightarrow> \<not> metrics_only q \<and> int (length entries) \<ge> lq_limit q"

text \<open>The lines of one piece; the flag tells that the limit was reached.\<close>

fun stream_lines :: "server \<Rightarrow> logs_query \<Rightarrow> string \<Rightarrow> string list \<Rightarrow> found \<Rightarrow> found \<times> bool" where
  "stream_lines sv q logDate [] st = (st, False)"
| "stream_lines sv q logDate (line # lines) (entries, skipped) =
     (if \<not> wanted sv q line then stream_lines sv q logDate lines (entries, skipped)
      else if int skipped < lq_offset q then stream_lines sv q logDate lines (entries, Suc skipped)
      else let normalized = normalizeLine sv line logDate in
        if outside_window sv q normalized then stream_lines sv q logDate lines (entries, skipped)
        else let entries' = entries @ [normalized] in
          if full q entries' then ((entries', skipped), True)
          else stream_lines sv q logDate lines (entries', skipped))"

definition stream_leftover :: "server \<Rightarrow> logs_query \<Rightarrow> string \<Rightarrow> string \<Rightarrow> found \<Rightarrow> found" where
  "stream_leftover sv q logDate leftover st = (case st of (entries, skipped) \<Rightarrow>
     if \<not> wanted sv q leftover then (entries, skipped)
     else if int skipped < lq_offset q then (entries, Suc skipped)
     else if full q entries then (entries, skipped)
     else let normalized = normalizeLine sv leftover logDate in
       if outside_window sv q normalized then (entries, skipped) else (entries @ [normalized], skipped))"

definition newline :: char where
  "newline = CHR 0x0A"

text \<open>A piece of a stream arrives, or the stream fails.\<close>

definition read_chunk :: "string \<Rightarrow> (world, string) io" where
  "read_chunk c = external (io_return c)"

fun stream_chunks :: "server \<Rightarrow> logs_query \<Rightarrow> string \<Rightarrow> string list \<Rightarrow> string \<Rightarrow> found \<Rightarrow> (world, found) io" where
  "stream_chunks sv q logDate [] leftover st = io_return (stream_leftover sv q logDate leftover st)"
| "stream_chunks sv q logDate (c # cs) leftover st = io_bind (read_chunk c) (\<lambda>chunk.
     let lines = split_at newline (leftover @ utf8_text chunk) in
     case stream_lines sv q logDate (butlast lines) st of
       (st', True) \<Rightarrow> io_return st'
     | (st', False) \<Rightarrow> stream_chunks sv q logDate cs (last lines) st')"

definition streamFilteredLogs :: "server \<Rightarrow> string \<Rightarrow> string \<Rightarrow> logs_query \<Rightarrow> found \<Rightarrow> (world, found) io" where
  "streamFilteredLogs sv logPath logDate q st = io_bind
     (io_catch (io_bind (getObject sv (log_bucket sv) logPath) (\<lambda>stream. io_return (Some stream)))
        (\<lambda>e. if isNotFoundError e then io_return None else io_throw e)) (\<lambda>stream. case stream of
      None \<Rightarrow> io_return st
    | Some content \<Rightarrow> stream_chunks sv q logDate (chunks_of sv content) [] st)"

section \<open>Reading the tail\<close>

definition getPartialObject :: "server \<Rightarrow> string \<Rightarrow> string \<Rightarrow> nat \<Rightarrow> (world, string) io" where
  "getPartialObject sv bucket key start = external (\<lambda>w. case map_of (objects w) (bucket, key) of
      Some ob \<Rightarrow> (Inr (drop start (so_data ob)), w)
    | None \<Rightarrow> (Inl (get_missing sv key), w))"

fun read_chunks :: "string list \<Rightarrow> (world, string) io" where
  "read_chunks [] = io_return []"
| "read_chunks (c # cs) = io_bind (read_chunk c) (\<lambda>x. io_bind (read_chunks cs) (\<lambda>rest. io_return (x @ rest)))"

definition tail_entries :: "server \<Rightarrow> logs_query \<Rightarrow> string \<Rightarrow> string list \<Rightarrow> log_entry list" where
  "tail_entries sv q logDate lines = filter (\<lambda>e. \<not> outside_window sv q e)
     (map (\<lambda>line. normalizeLine sv line logDate) (filter (\<lambda>line. \<not> blank_line line) lines))"

definition keep_last :: "int \<Rightarrow> 'a list \<Rightarrow> 'a list" where
  "keep_last n xs = drop (length xs - nat n) xs"

text \<open>The flag tells that the object is larger than the tail.\<close>

definition tailFilteredLogs :: "server \<Rightarrow> string \<Rightarrow> string \<Rightarrow> logs_query \<Rightarrow> log_entry list \<Rightarrow> (world, log_entry list \<times> bool) io" where
  "tailFilteredLogs sv logPath logDate q entries = io_bind
     (io_catch (io_bind (statObject sv (log_bucket sv) logPath) (\<lambda>stat. io_return (Some (fst stat))))
        (\<lambda>e. if isNotFoundError e then io_return None else io_throw e)) (\<lambda>stat. case stat of
      None \<Rightarrow> io_return (entries, False)
    | Some fileSize \<Rightarrow> let start = fileSize - TAIL_BYTES in io_bind
        (io_catch (io_bind (if start > 0 then getPartialObject sv (log_bucket sv) logPath start
              else getObject sv (log_bucket sv) logPath) (\<lambda>stream. io_return (Some stream)))
           (\<lambda>e. if isNotFoundError e then io_return None else io_throw e)) (\<lambda>stream. case stream of
         None \<Rightarrow> io_return (entries, False)
       | Some content \<Rightarrow> io_bind (read_chunks (chunks_of sv content)) (\<lambda>text.
           let lines = split_at newline (utf8_text text);
               lines = (if start > 0 then tl lines else lines);
               entries = entries @ tail_entries sv q logDate lines;
               entries = (if full q entries then keep_last (lq_limit q) entries else entries)
           in io_return (entries, start > 0))))"

section \<open>Which days\<close>

fun split_dashes :: "string \<Rightarrow> string list" where
  "split_dashes [] = [[]]"
| "split_dashes [c] = [[c]]"
| "split_dashes (c # d # s) = (if c = CHR ''-'' \<and> d = CHR ''-'' then [] # split_dashes s
     else (case split_dashes (d # s) of [] \<Rightarrow> [[c]] | x # xs \<Rightarrow> (c # x) # xs))"

definition iso_day :: "string \<Rightarrow> string" where
  "iso_day s = filter (\<lambda>c. c \<noteq> CHR ''-'') (take 10 s)"

text \<open>The days of the query, and the query with the bounds of a range of times.\<close>

definition parseDateQuery :: "server \<Rightarrow> logs_query \<Rightarrow> string list \<times> logs_query" where
  "parseDateQuery sv q =
     (if truthy_opt (lq_date q)
      then (if isValidDateFormat (the (lq_date q)) then ([the (lq_date q)], q) else ([], q))
      else if truthy_opt (lq_dateRange q) then
        let range = the (lq_dateRange q) in
        if js_includes range ''T'' then (case split_dashes range of
            [a, b] \<Rightarrow> (case (js_date sv (JStr a), js_date sv (JStr b)) of
                (Some s, Some t) \<Rightarrow> (generateDateRange (iso_day a) (iso_day b), q\<lparr>lq_startTime := Some s, lq_endTime := Some t\<rparr>)
              | _ \<Rightarrow> ([], q))
          | _ \<Rightarrow> ([], q))
        else (case split_at (CHR ''-'') range of
            a # b # _ \<Rightarrow> if a = [] \<or> b = [] \<or> \<not> isValidDateFormat a \<or> \<not> isValidDateFormat b then ([], q)
                else (generateDateRange a b, q)
          | _ \<Rightarrow> ([], q))
      else ([], q))"

definition local_day :: "server \<Rightarrow> int \<Rightarrow> int" where
  "local_day sv ms = (ms + 60000 * tz_minutes sv) div 86400000"

definition generateLookbackDates :: "server \<Rightarrow> nat \<Rightarrow> (world, string list) io" where
  "generateLookbackDates sv days = io_bind js_now (\<lambda>now. io_return (lookback_days days (local_day sv now)))"

section \<open>The queries\<close>

type_synonym page = "log_entry list \<times> bool"

definition latest_day :: "server \<Rightarrow> string \<Rightarrow> logs_query \<Rightarrow> int \<Rightarrow> string \<Rightarrow> (world, log_entry list) io" where
  "latest_day sv botId q maxNeeded date =
     (if metrics_only q
      then io_bind (streamFilteredLogs sv (log_path botId date) date (q\<lparr>lq_offset := 0\<rparr>) ([], 0)) (\<lambda>st. io_return (fst st))
      else io_bind (tailFilteredLogs sv (log_path botId date) date (q\<lparr>lq_offset := 0, lq_limit := maxNeeded\<rparr>) []) (\<lambda>(dayEntries, truncated).
        if truncated \<and> int (length dayEntries) < maxNeeded
        then io_bind (streamFilteredLogs sv (log_path botId date) date
               (q\<lparr>lq_offset := 0, lq_limit := max maxNeeded 10000\<rparr>) ([], 0)) (\<lambda>st. io_return (fst st))
        else io_return dayEntries))"

fun latest_days :: "server \<Rightarrow> string \<Rightarrow> logs_query \<Rightarrow> int \<Rightarrow> string list \<Rightarrow> log_entry list \<Rightarrow> (world, log_entry list) io" where
  "latest_days sv botId q maxNeeded [] collected = io_return collected"
| "latest_days sv botId q maxNeeded (date # dates) collected =
     io_bind (latest_day sv botId q maxNeeded date) (\<lambda>dayEntries.
     let dayEntries = (if int (length dayEntries) > maxNeeded then keep_last maxNeeded dayEntries else dayEntries);
         collected = dayEntries @ collected
     in if int (length collected) \<ge> maxNeeded then io_return collected
        else latest_days sv botId q maxNeeded dates collected)"

definition getLatestLogs :: "server \<Rightarrow> string \<Rightarrow> logs_query \<Rightarrow> (world, page) io" where
  "getLatestLogs sv botId q = io_bind (generateLookbackDates sv (the (lq_lookbackDays q))) (\<lambda>dates.
     let maxNeeded = lq_offset q + lq_limit q + 1 in
     io_bind (latest_days sv botId q maxNeeded dates []) (\<lambda>collected.
     let afterOffset = drop (nat (lq_offset q)) (rev collected);
         entries = take (nat (lq_limit q)) afterOffset
     in io_return (if lq_sort q = Some ''asc'' then rev entries else entries, int (length afterOffset) > lq_limit q)))"

text \<open>The days of a range in order, until the limit is reached.\<close>

fun stream_days :: "server \<Rightarrow> string \<Rightarrow> logs_query \<Rightarrow> string list \<Rightarrow> found \<Rightarrow> (world, log_entry list) io" where
  "stream_days sv botId q [] st = io_return (fst st)"
| "stream_days sv botId q (date # dates) st =
     io_bind (streamFilteredLogs sv (log_path botId date) date q st) (\<lambda>st'.
     if full q (fst st') then io_return (fst st') else stream_days sv botId q dates st')"

definition read_days :: "server \<Rightarrow> string \<Rightarrow> logs_query \<Rightarrow> string list \<Rightarrow> (world, log_entry list) io" where
  "read_days sv botId q dates = (let sortOrder = or_else (lq_sort q) ''desc'' in
     if length dates = 1 \<and> \<not> metrics_only q \<and> lq_startTime q = None
     then io_bind (tailFilteredLogs sv (log_path botId (hd dates)) (hd dates) q []) (\<lambda>(entries, _).
       io_return (if sortOrder = ''asc'' then rev entries else entries))
     else if sortOrder = ''desc'' \<and> \<not> metrics_only q
     then let maxRead = max (lq_offset q + lq_limit q) 10000 in
       io_bind (stream_days sv botId (q\<lparr>lq_offset := 0, lq_limit := maxRead\<rparr>) dates ([], 0)) (\<lambda>entries.
       io_return (take (nat (lq_limit q)) (drop (nat (lq_offset q)) (rev entries))))
     else io_bind (stream_days sv botId q dates ([], 0)) (\<lambda>entries.
       io_return (if sortOrder = ''desc'' then rev entries else entries)))"

definition truthy_days :: "nat option \<Rightarrow> bool" where
  "truthy_days n \<longleftrightarrow> (case n of None \<Rightarrow> False | Some k \<Rightarrow> k \<noteq> 0)"

definition fetch_failed :: "(world, (page, string) result) io \<Rightarrow> (world, (page, string) result) io" where
  "fetch_failed m = io_catch m (\<lambda>e. io_return (Failure (''Failed to fetch logs: '' @ errorMessage e)))"

definition getLogs :: "server \<Rightarrow> string \<Rightarrow> string \<Rightarrow> logs_query \<Rightarrow> (world, (page, string) result) io" where
  "getLogs sv uid botId q =
     (if uid = [] then io_return (Failure ''Authentication required'')
      else io_bind (bot_findOne uid botId) (\<lambda>botResult. case botResult of
        Failure _ \<Rightarrow> io_return (Failure ''Bot not found or access denied'')
      | Ok _ \<Rightarrow>
          if \<not> truthy_opt (lq_date q) \<and> \<not> truthy_opt (lq_dateRange q) \<and> truthy_days (lq_lookbackDays q)
          then fetch_failed (io_bind (getLatestLogs sv botId q) (\<lambda>p. io_return (Ok p)))
          else (case parseDateQuery sv q of (dates, q') \<Rightarrow>
            if dates = [] then io_return (Failure (''Invalid date or dateRange format. Use YYYYMMDD, ''
                @ ''YYYYMMDD-YYYYMMDD, or ISO datetime range with -- separator''))
            else fetch_failed (io_bind (read_days sv botId q' dates) (\<lambda>entries.
              io_return (Ok (entries, full q' entries)))))))"

section \<open>The controller\<close>

text \<open>A query as the validation pipe admits it (get-logs-query.dto.ts).\<close>

definition valid_query :: "logs_query \<Rightarrow> bool" where
  "valid_query q \<longleftrightarrow> (case lq_lookbackDays q of None \<Rightarrow> True | Some n \<Rightarrow> 1 \<le> n \<and> n \<le> 90)
     \<and> 1 \<le> lq_limit q \<and> lq_limit q \<le> 2000 \<and> 0 \<le> lq_offset q
     \<and> (case lq_type q of None \<Rightarrow> True | Some t \<Rightarrow> t \<in> {''all'', ''metrics''})
     \<and> (case lq_sort q of None \<Rightarrow> True | Some t \<Rightarrow> t \<in> {''asc'', ''desc''})"

definition VALID_BOT_ID :: "string \<Rightarrow> bool" where
  "VALID_BOT_ID botId \<longleftrightarrow> botId \<noteq> [] \<and> list_all is_id_char botId"

definition access_error :: "string \<Rightarrow> bool" where
  "access_error e \<longleftrightarrow> js_includes e ''not found'' \<or> js_includes e ''access denied''"

definition get_logs :: "server \<Rightarrow> authenticated_user \<Rightarrow> string \<Rightarrow> logs_query \<Rightarrow> (world, page) io" where
  "get_logs sv user botId q =
     (if \<not> VALID_BOT_ID botId then io_throw (Http 400 ''Invalid bot ID'')
      else io_bind (getLogs sv (au_uid user) botId (q\<lparr>lq_sort := Some (or_else (lq_sort q) ''desc'')\<rparr>)) (\<lambda>r. case r of
          Ok p \<Rightarrow> io_return p
        | Failure e \<Rightarrow> io_throw (Http (if access_error e then 404 else 400) e)))"

section \<open>Pieces of a stream\<close>

lemma split_at_append:
  "split_at c (a @ b) = butlast (split_at c a) @ split_at c (last (split_at c a) @ b)"
proof (induction a)
  case (Cons x a)
  obtain y ys where a: "split_at c a = y # ys" by (cases "split_at c a") auto
  show ?case
  proof (cases "x = c")
    case False
    then show ?thesis using Cons a by (cases ys) (auto split: list.splits)
  qed (use Cons in auto)
qed simp

lemma no_sep_last: "c \<notin> set (last (split_at c s))"
  by (rule split_at_elems [OF last_in_set]) simp

text \<open>What reading whole lines from the start amounts to: the wanted lines after the offset, those
  outside the window of time left out, up to the limit.\<close>

definition log_entries :: "server \<Rightarrow> logs_query \<Rightarrow> string \<Rightarrow> string list \<Rightarrow> log_entry list" where
  "log_entries sv q logDate lines = filter (\<lambda>e. \<not> outside_window sv q e) (map (\<lambda>line. normalizeLine sv line logDate) lines)"

definition select_lines :: "server \<Rightarrow> logs_query \<Rightarrow> string \<Rightarrow> string list \<Rightarrow> found \<Rightarrow> found" where
  "select_lines sv q logDate lines st = (case st of (entries, skipped) \<Rightarrow>
     let candidates = filter (wanted sv q) lines; k = nat (lq_offset q - int skipped);
         new = log_entries sv q logDate (drop k candidates)
     in (entries @ (if metrics_only q then new else take (nat (lq_limit q - int (length entries))) new),
         skipped + min k (length candidates)))"

lemma select_nil: "select_lines sv q d [] st = st"
  by (cases st) (simp add: select_lines_def log_entries_def)

lemma log_entries_append [simp]: "log_entries sv q d (l1 @ l2) = log_entries sv q d l1 @ log_entries sv q d l2"
  by (simp add: log_entries_def)

lemma select_append:
  "select_lines sv q d (l1 @ l2) st = select_lines sv q d l2 (select_lines sv q d l1 st)"
proof (cases st)
  case (Pair entries skipped)
  define c1 c2 k where "c1 = filter (wanted sv q) l1" and "c2 = filter (wanted sv q) l2" and "k = nat (lq_offset q - int skipped)"
  define new where "new = log_entries sv q d (drop k c1)"
  have k: "nat (lq_offset q - int (skipped + min k (length c1))) = k - length c1"
    by (simp add: k_def min_def) arith
  have n: "nat (lq_limit q - int (length entries)) - length new =
      nat (lq_limit q - int (length (entries @ take (nat (lq_limit q - int (length entries))) new)))"
    by (simp add: min_def) arith
  have "min k (length c1 + length c2) = min k (length c1) + min (k - length c1) (length c2)" by simp
  then show ?thesis
    unfolding Pair select_lines_def Let_def prod.case c1_def [symmetric] filter_append c2_def [symmetric]
      k_def [symmetric] k drop_append log_entries_append new_def [symmetric] length_append
    using n by simp
qed


lemma full_select:
  assumes "full q (fst st)" "\<not> int (snd st) < lq_offset q"
  shows "select_lines sv q d lines st = st"
  using assms by (cases st) (simp add: full_def select_lines_def Let_def)

lemma not_full_room: "\<not> full q entries \<Longrightarrow> metrics_only q \<or> int (length entries) < lq_limit q"
  by (auto simp: full_def)

lemma select_one:
  assumes "\<not> full q (fst st)"
  shows "select_lines sv q d (line # lines) st = select_lines sv q d lines (case st of (entries, skipped) \<Rightarrow>
     if \<not> wanted sv q line then (entries, skipped)
     else if int skipped < lq_offset q then (entries, Suc skipped)
     else if outside_window sv q (normalizeLine sv line d) then (entries, skipped)
     else (entries @ [normalizeLine sv line d], skipped))"
proof (cases st)
  case (Pair entries skipped)
  have one: "select_lines sv q d [line] (entries, skipped) =
     (if \<not> wanted sv q line then (entries, skipped)
     else if int skipped < lq_offset q then (entries, Suc skipped)
     else if outside_window sv q (normalizeLine sv line d) then (entries, skipped)
     else (entries @ [normalizeLine sv line d], skipped))"
  proof -
    have "nat (lq_offset q - int skipped) = 0 \<longleftrightarrow> \<not> int skipped < lq_offset q" by auto
    moreover have "metrics_only q \<or> 1 \<le> nat (lq_limit q - int (length entries))"
      using not_full_room [OF assms] Pair by auto
    ultimately show ?thesis
      by (cases "nat (lq_offset q - int skipped)")
        (auto simp: select_lines_def Let_def log_entries_def take_Cons' not_less)
  qed
  show ?thesis
    using select_append [of sv q d "[line]" lines st] unfolding Pair one by simp
qed

lemma skipped_before_full:
  assumes "\<not> full q (fst st)" "full q (fst (select_lines sv q d lines st))"
  shows "\<not> int (snd (select_lines sv q d lines st)) < lq_offset q"
proof (cases st)
  case (Pair entries skipped)
  define k where "k = nat (lq_offset q - int skipped)"
  have "k < length (filter (wanted sv q) lines)"
  proof (rule ccontr)
    assume "\<not> k < length (filter (wanted sv q) lines)"
    then have "fst (select_lines sv q d lines st) = entries"
      by (simp add: Pair select_lines_def Let_def k_def [symmetric] log_entries_def)
    then show False using assms Pair by simp
  qed
  then show ?thesis by (simp add: Pair select_lines_def Let_def k_def [symmetric] min_def) (simp add: k_def)
qed

lemma stream_lines_select:
  assumes "\<not> full q (fst st)"
  shows "stream_lines sv q d lines st = (select_lines sv q d lines st, full q (fst (select_lines sv q d lines st)))"
  using assms
proof (induction lines arbitrary: st)
  case Nil
  then show ?case by (simp add: select_nil)
next
  case (Cons line lines)
  obtain entries skipped where st: "st = (entries, skipped)" by (cases st)
  let ?st = "(entries @ [normalizeLine sv line d], skipped)"
  show ?case
  proof (cases "wanted sv q line \<and> \<not> int skipped < lq_offset q \<and> \<not> outside_window sv q (normalizeLine sv line d)
      \<and> full q (entries @ [normalizeLine sv line d])")
    case True
    then show ?thesis
      using full_select [of q ?st sv d lines] select_one [OF Cons.prems, of sv d line lines] by (simp add: st Let_def)
  next
    case False
    then show ?thesis using Cons.prems Cons.IH select_one [OF Cons.prems, of sv d line lines] by (auto simp: st Let_def)
  qed
qed

lemma stream_leftover_select: "stream_leftover sv q d x st = select_lines sv q d [x] st"
proof (cases "full q (fst st)")
  case True
  then show ?thesis
    by (cases st) (auto simp: stream_leftover_def select_lines_def Let_def log_entries_def full_def min_def)
next
  case False
  then show ?thesis
    using select_one [OF False, of sv d x "[]"] by (cases st) (simp add: stream_leftover_def select_nil Let_def)
qed

lemma read_chunk_calm: "faults w = [] \<Longrightarrow> read_chunk c w = (Inr c, w)"
  by (simp add: read_chunk_def external_calm)

text \<open>The lines are those of the decoded pieces put together.\<close>

lemma stream_chunks_select:
  assumes "faults w = []" "\<not> full q (fst st)" "newline \<notin> set leftover"
  shows "stream_chunks sv q d cs leftover st w =
    (Inr (select_lines sv q d (split_at newline (leftover @ concat (map utf8_text cs))) st), w)"
  using assms(2,3)
proof (induction cs arbitrary: leftover st)
  case Nil
  then show ?case by (simp add: stream_leftover_select split_at_no_sep)
next
  case (Cons c cs)
  define lines where "lines = split_at newline (leftover @ utf8_text c)"
  define st' where "st' = select_lines sv q d (butlast lines) st"
  have all: "select_lines sv q d (split_at newline (leftover @ concat (map utf8_text (c # cs)))) st
      = select_lines sv q d (split_at newline (last lines @ concat (map utf8_text cs))) st'"
    using split_at_append [of newline "leftover @ utf8_text c" "concat (map utf8_text cs)"] by (simp add: select_append lines_def st'_def)
  have step: "stream_chunks sv q d (c # cs) leftover st w =
      (if full q (fst st') then io_return st' else stream_chunks sv q d cs (last lines) st') w"
    using Cons.prems assms(1)
    by (simp add: io_bind_run read_chunk_calm lines_def [symmetric] stream_lines_select st'_def Let_def)
  show ?case
  proof (cases "full q (fst st')")
    case True
    then have "\<not> int (snd st') < lq_offset q"
      unfolding st'_def by (rule skipped_before_full [OF Cons.prems(1)])
    then show ?thesis
      unfolding step all using full_select [OF True] True by simp
  next
    case False
    then show ?thesis
      unfolding step all using Cons.IH [OF False, of "last lines"] by (simp add: lines_def no_sep_last)
  qed
qed


definition stored_log :: "server \<Rightarrow> string \<Rightarrow> world \<Rightarrow> string \<Rightarrow> string list" where
  "stored_log sv botId w date = (case map_of (objects w) (log_bucket sv, log_path botId date) of
      None \<Rightarrow> [] | Some ob \<Rightarrow> split_at newline (utf8_text (so_data ob)))"

text \<open>The store: nothing fails, a missing object is reported as such, and a stream is the object in pieces,
  none of which cuts a character of a log.\<close>

definition good_store :: "server \<Rightarrow> world \<Rightarrow> bool" where
  "good_store sv w \<longleftrightarrow> faults w = [] \<and> (\<forall>k. isNotFoundError (get_missing sv k) \<and> isNotFoundError (stat_missing sv k))
     \<and> (\<forall>s. concat (chunks_of sv s) = s)
     \<and> list_all (\<lambda>((b, _), ob). b = log_bucket sv \<longrightarrow> no_cut (chunks_of sv (so_data ob))) (objects w)"

lemma whole_text:
  assumes "good_store sv w" "map_of (objects w) (log_bucket sv, k) = Some ob"
  shows "concat (map utf8_text (chunks_of sv (so_data ob))) = utf8_text (so_data ob)"
proof -
  have "no_cut (chunks_of sv (so_data ob))" "concat (chunks_of sv (so_data ob)) = so_data ob"
    using assms map_of_SomeD [OF assms(2)] by (fastforce simp: good_store_def list_all_iff)+
  then show ?thesis by (simp add: no_cut_def)
qed

text \<open>Reading from the start gives the selection of the pieces as they are decoded, whatever the pieces.\<close>

lemma stream_decoded:
  assumes "faults w = []" "isNotFoundError (get_missing sv p)" "\<not> full q (fst st)"
  shows "streamFilteredLogs sv p d q st w = (Inr (case map_of (objects w) (log_bucket sv, p) of None \<Rightarrow> st
    | Some ob \<Rightarrow> select_lines sv q d (split_at newline (concat (map utf8_text (chunks_of sv (so_data ob))))) st), w)"
  using stream_chunks_select [of w q st "[]"] assms
  by (simp add: streamFilteredLogs_def io_bind_run io_catch_run client_calm split: option.split)

lemma stream_selects:
  assumes "good_store sv w" "\<not> full q (fst st)"
  shows "streamFilteredLogs sv (log_path botId d) d q st w = (Inr (select_lines sv q d (stored_log sv botId w d) st), w)"
proof -
  have w: "faults w = []" "isNotFoundError (get_missing sv k)" for k
    using assms(1) by (simp_all add: good_store_def)
  show ?thesis
    using whole_text [OF assms(1)] by (simp add: stream_decoded [OF w assms(2)] stored_log_def select_nil split: option.split)
qed

text \<open>C23. Where no call fails and no piece ends inside a character, reading a day from the start gives
  the wanted lines of the text of the whole object, after the offset and up to the limit, in whatever
  pieces the store streams it; a day without an object has none.\<close>

theorem stream_is_selection:
  assumes "good_store sv w" "\<not> full q (fst st)"
  shows "streamFilteredLogs sv (log_path botId d) d q st w = (Inr (select_lines sv q d (stored_log sv botId w d) st), w)"
  by (rule stream_selects [OF assms])

text \<open>A piece that ends inside a character corrupts the line: the entry of a log that consists of one e
  with an acute accent is two replacement characters when the store streams its two bytes apart.\<close>

lemma cut_character_corrupted:
  assumes "faults w = []" "isNotFoundError (get_missing sv p)" "map_of (objects w) (log_bucket sv, p) = Some ob"
    and "chunks_of sv (so_data ob) = [[CHR 0xC3], [CHR 0xA9]]" "json_parse sv (replacement @ replacement) = None"
    and "\<not> metrics_only q" "lq_offset q = 0" "lq_limit q = 1" "lq_startTime q = None"
  shows "streamFilteredLogs sv p d q ([], 0) w = (Inr ([plain_line (replacement @ replacement) d], 0), w)"
proof -
  have pieces: "utf8_text [CHR 0xC3] = replacement" "utf8_text [CHR 0xA9] = replacement" by code_simp+
  have lines: "split_at newline (replacement @ replacement) = [replacement @ replacement]"
    by (rule split_at_no_sep) (simp add: newline_def replacement_def)
  have "\<not> blank_line (replacement @ replacement)" by code_simp
  then have "wanted sv q (replacement @ replacement)" using assms(6) by (simp add: wanted_def)
  moreover have "normalizeLine sv (replacement @ replacement) d = plain_line (replacement @ replacement) d"
    by (simp add: normalizeLine_def assms(5))
  ultimately show ?thesis
    using assms(3,4,6-9) stream_decoded [OF assms(1,2), of q "([], 0)" d]
    by (simp del: utf8_text.simps add: full_def pieces lines select_lines_def Let_def log_entries_def outside_window_def)
qed

text \<open>Two lines and a blank one, the second without its end.\<close>

definition demo_logs :: world where
  "demo_logs = (demo_deployed ''id-ann'')\<lparr>objects := [((''bot-logs'', ''logs/id0/20240229.log''),
     \<lparr>so_data = ''up'' @ [newline] @ '' '' @ [newline] @ ''buy'', so_etag = ''e''\<rparr>)]\<rparr>"

definition demo_query :: logs_query where
  "demo_query = \<lparr>lq_date = Some ''20240229'', lq_dateRange = None, lq_lookbackDays = None, lq_limit = 100, lq_offset = 0,
     lq_type = None, lq_sort = Some ''desc'', lq_startTime = None, lq_endTime = None\<rparr>"

lemma demo_good: "good_store demo_server demo_logs"
  by (simp add: good_store_def demo_logs_def demo_deployed_sel)
    (simp add: demo_server_def isNotFoundError_def no_cut_ascii ascii_char_def newline_def)

lemma demo_lines: "stored_log demo_server ''id0'' demo_logs ''20240229'' = [''up'', '' '', ''buy'']"
proof -
  have "log_bucket demo_server = ''bot-logs''" by (simp add: demo_server_def)
  moreover have "utf8_text (''up'' @ [newline] @ '' '' @ [newline] @ ''buy'') = ''up'' @ [newline] @ '' '' @ [newline] @ ''buy''"
    by (rule utf8_ascii) (simp add: ascii_char_def newline_def)
  ultimately show ?thesis by (simp add: stored_log_def demo_logs_def log_path_def newline_def)
qed

lemma demo_line: "normalizeLine demo_server line d = plain_line line d" if "line \<noteq> []"
proof -
  have "json_parse demo_server line = Some (JStr line)" by (simp add: demo_server_def)
  then show ?thesis by (simp add: normalizeLine_def plain_line_def or_null_def)
qed

theorem stream_is_selection_witness:
  "streamFilteredLogs demo_server ''logs/id0/20240229.log'' ''20240229'' (demo_query\<lparr>lq_offset := 1\<rparr>) ([], 0) demo_logs
    = (Inr ([plain_line ''buy'' ''20240229''], 1), demo_logs)"
proof -
  have "streamFilteredLogs demo_server (log_path ''id0'' ''20240229'') ''20240229'' (demo_query\<lparr>lq_offset := 1\<rparr>) ([], 0) demo_logs
    = (Inr (select_lines demo_server (demo_query\<lparr>lq_offset := 1\<rparr>) ''20240229''
        (stored_log demo_server ''id0'' demo_logs ''20240229'') ([], 0)), demo_logs)"
    by (rule stream_is_selection [OF demo_good]) (simp add: full_def demo_query_def metrics_only_def)
  then show ?thesis
    by (simp add: demo_lines select_lines_def Let_def wanted_def metrics_only_def demo_query_def ascii_space_def wide_space_def
        in_bytes_def log_entries_def demo_line outside_window_def log_path_def)
qed

end
