(* ===== verification/LogPages.thy ===== *)
theory LogPages
  imports Logs
begin

text \<open>
  What the queries of Logs answer: the latest page is a page of the whole log of the days looked back
  over, a page of one day is its tail, a page of a range is cut from its first entries; every page is
  bounded, only the owner reads one, and reading changes nothing.
\<close>

section \<open>The newest entries\<close>

lemma suffix_filter_map: "suffix xs ys \<Longrightarrow> suffix (filter P (map f (filter R xs))) (filter P (map f (filter R ys)))"
  by (auto simp: suffix_def)

text \<open>Cutting a file and dropping the first line leaves the last lines of the whole, also when the cut
  falls inside a character.\<close>

lemma split_at_drop: "suffix (tl (split_at c (drop n s))) (split_at c s)"
proof -
  have "split_at c s = butlast (split_at c (take n s)) @ split_at c (last (split_at c (take n s)) @ drop n s)"
    using split_at_append [of c "take n s" "drop n s"] by simp
  moreover obtain y ys where y: "split_at c (drop n s) = y # ys" by (cases "split_at c (drop n s)") auto
  moreover have "split_at c (x @ drop n s) = (x @ y) # ys" if "c \<notin> set x" for x
    using that y by (induction x) auto
  ultimately show ?thesis using no_sep_last [of c "take n s"] by (auto simp: suffix_def)
qed

lemma rev_keep_last: "rev (keep_last n xs) = take (nat n) (rev xs)"
  by (cases "nat n \<le> length xs") (simp_all add: keep_last_def rev_drop)

lemma decoded_drop: "suffix (tl (split_at newline (utf8_text (drop n s)))) (split_at newline (utf8_text s))"
proof -
  have "ascii_char newline" by (simp add: ascii_char_def newline_def)
  moreover have "suffix (map utf8_text (tl (split_at newline (drop n s)))) (map utf8_text (split_at newline s))"
    using split_at_drop [of newline n s] by (auto simp: suffix_def)
  ultimately show ?thesis by (simp add: split_at_utf8 map_tl)
qed

text \<open>All entries of a day, the oldest first.\<close>

definition day_log :: "server \<Rightarrow> string \<Rightarrow> logs_query \<Rightarrow> world \<Rightarrow> string \<Rightarrow> log_entry list" where
  "day_log sv botId q w date = log_entries sv q date (filter (wanted sv q) (stored_log sv botId w date))"

lemma read_chunks_calm: "faults w = [] \<Longrightarrow> read_chunks cs w = (Inr (concat cs), w)"
  by (induction cs) (simp_all add: io_bind_run read_chunk_calm)

text \<open>The tail holds the newest entries of the day, as many as it has room for.\<close>

lemma tail_is_newest:
  assumes "good_store sv w" "\<not> metrics_only q" "0 \<le> lq_limit q"
  obtains es truncated where "tailFilteredLogs sv (log_path botId d) d q [] w = (Inr (es, truncated), w)"
    "suffix es (day_log sv botId q w d)" "int (length es) \<le> lq_limit q"
    "truncated \<or> es = keep_last (lq_limit q) (day_log sv botId q w d)"
proof -
  have w: "faults w = []" "isNotFoundError (get_missing sv k)" "isNotFoundError (stat_missing sv k)" "concat (chunks_of sv x) = x" for k x
    using assms(1) by (simp_all add: good_store_def)
  define whole where "whole = day_log sv botId q w d"
  have day: "whole = tail_entries sv q d (stored_log sv botId w d)"
  proof -
    have "wanted sv q = (\<lambda>line. \<not> blank_line line)" using assms(2) by (simp add: fun_eq_iff wanted_def)
    then show ?thesis by (simp add: whole_def day_log_def tail_entries_def log_entries_def)
  qed
  define cut where "cut es = (if full q es then keep_last (lq_limit q) es else es)" for es :: "log_entry list"
  have cut: "suffix (cut es) es" "int (length (cut es)) \<le> lq_limit q" "cut es = keep_last (lq_limit q) es" for es
    using assms(2,3) by (auto simp: cut_def keep_last_def full_def suffix_drop)
  show ?thesis
  proof (cases "map_of (objects w) (log_bucket sv, log_path botId d)")
    case None
    then have "tailFilteredLogs sv (log_path botId d) d q [] w = (Inr ([], False), w)"
      using w by (simp add: tailFilteredLogs_def io_bind_run io_catch_run stat_calm)
    moreover have "whole = []" using None by (simp add: whole_def day_log_def stored_log_def log_entries_def)
    ultimately show ?thesis using that [of "[]" False] assms(3) by (simp add: whole_def keep_last_def)
  next
    case (Some ob)
    define start where "start = length (so_data ob) - TAIL_BYTES"
    define lines where "lines = (if start > 0 then tl (split_at newline (utf8_text (drop start (so_data ob))))
        else split_at newline (utf8_text (so_data ob)))"
    have run: "tailFilteredLogs sv (log_path botId d) d q [] w = (Inr (cut (tail_entries sv q d lines), start > 0), w)"
      using w Some by (simp add: tailFilteredLogs_def io_bind_run io_catch_run stat_calm start_def [symmetric] Let_def
          getPartialObject_def external_calm client_calm read_chunks_calm lines_def cut_def)
    have stored: "stored_log sv botId w d = split_at newline (utf8_text (so_data ob))" using Some by (simp add: stored_log_def)
    have "suffix lines (stored_log sv botId w d)" by (simp add: lines_def stored decoded_drop)
    then have "suffix (tail_entries sv q d lines) whole"
      unfolding day tail_entries_def by (rule suffix_filter_map)
    then have "suffix (cut (tail_entries sv q d lines)) whole" using cut(1) suffix_order.trans by blast
    moreover have "start > 0 \<or> cut (tail_entries sv q d lines) = keep_last (lq_limit q) whole"
      using cut(3) by (simp add: day stored lines_def)
    ultimately show ?thesis using that [OF run] cut(2) by (simp add: whole_def)
  qed
qed

lemma rev_suffix_take: "suffix xs ys \<Longrightarrow> n \<le> length xs \<Longrightarrow> take n (rev xs) = take n (rev ys)"
  by (auto simp: suffix_def)

lemma same_lines [simp]:
  "day_log sv botId (q\<lparr>lq_offset := n\<rparr>) w d = day_log sv botId q w d"
  "day_log sv botId (q\<lparr>lq_limit := m\<rparr>) w d = day_log sv botId q w d"
  "metrics_only (q\<lparr>lq_offset := n\<rparr>) = metrics_only q" "metrics_only (q\<lparr>lq_limit := m\<rparr>) = metrics_only q"
proof -
  have "wanted sv (q\<lparr>lq_offset := n\<rparr>) = wanted sv q" "wanted sv (q\<lparr>lq_limit := m\<rparr>) = wanted sv q"
    "outside_window sv (q\<lparr>lq_offset := n\<rparr>) = outside_window sv q" "outside_window sv (q\<lparr>lq_limit := m\<rparr>) = outside_window sv q"
    by (simp_all add: fun_eq_iff wanted_def metrics_only_def outside_window_def)
  then show "day_log sv botId (q\<lparr>lq_offset := n\<rparr>) w d = day_log sv botId q w d"
    "day_log sv botId (q\<lparr>lq_limit := m\<rparr>) w d = day_log sv botId q w d"
    by (simp_all add: day_log_def log_entries_def)
qed (simp_all add: metrics_only_def)

text \<open>Without an offset, reading from the start gives the first entries of the day.\<close>

lemma stream_from_start:
  assumes "good_store sv w" "lq_offset q \<le> 0" "metrics_only q \<or> 0 < lq_limit q"
  shows "\<exists>n. streamFilteredLogs sv (log_path botId d) d q ([], 0) w = (Inr (if metrics_only q
    then day_log sv botId q w d else take (nat (lq_limit q)) (day_log sv botId q w d), n), w)"
proof -
  have "\<not> full q (fst ([], 0 :: nat))" using assms(3) by (auto simp: full_def)
  then show ?thesis
    using stream_selects [OF assms(1), of q "([], 0)" botId d] assms(2)
    by (simp add: select_lines_def Let_def day_log_def)
qed

lemma latest_day_newest:
  assumes "good_store sv w" "0 < M" "metrics_only q \<or> int (length (day_log sv botId q w d)) \<le> max M 10000"
  shows "\<exists>es. latest_day sv botId q M d w = (Inr es, w) \<and> take (nat M) (rev es) = take (nat M) (rev (day_log sv botId q w d))"
proof (cases "metrics_only q")
  case True
  then show ?thesis
    using stream_from_start [OF assms(1), of "q\<lparr>lq_offset := 0\<rparr>" botId d] by (auto simp: latest_day_def io_bind_run)
next
  case False
  obtain es truncated where tail: "tailFilteredLogs sv (log_path botId d) d (q\<lparr>lq_offset := 0, lq_limit := M\<rparr>) [] w = (Inr (es, truncated), w)"
    "suffix es (day_log sv botId q w d)" "int (length es) \<le> M" "truncated \<or> es = keep_last M (day_log sv botId q w d)"
    using tail_is_newest [OF assms(1), of "q\<lparr>lq_offset := 0, lq_limit := M\<rparr>" botId d] False assms(2) by auto
  obtain n where stream: "streamFilteredLogs sv (log_path botId d) d (q\<lparr>lq_offset := 0, lq_limit := max M 10000\<rparr>) ([], 0) w
      = (Inr (day_log sv botId q w d, n), w)"
    using stream_from_start [OF assms(1), of "q\<lparr>lq_offset := 0, lq_limit := max M 10000\<rparr>" botId d] False assms(3)
    by (auto simp: less_max_iff_disj)
  show ?thesis
  proof (cases "truncated \<and> int (length es) < M")
    case True
    then show ?thesis using False tail(1) stream by (simp add: latest_day_def io_bind_run)
  next
    case newest: False
    have "take (nat M) (rev es) = take (nat M) (rev (day_log sv botId q w d))"
    proof (cases truncated)
      case True
      then show ?thesis using newest tail(2,3) by (intro rev_suffix_take) auto
    next
      case False
      then show ?thesis using tail(4) by (simp add: rev_keep_last)
    qed
    then show ?thesis using False newest tail(1) by (auto simp: latest_day_def io_bind_run)
  qed
qed

lemma take_after:
  assumes "take n xs = take n ys"
  shows "take n (zs @ xs) = take n (zs @ ys)"
  using arg_cong [OF assms, of "take (n - length zs)"] by (simp add: min_def)

lemma take_before: "take n (take n xs @ ys) = take n (xs @ ys)"
  by (simp add: min_def)

definition capped :: "server \<Rightarrow> string \<Rightarrow> logs_query \<Rightarrow> world \<Rightarrow> int \<Rightarrow> string list \<Rightarrow> bool" where
  "capped sv botId q w M dates \<longleftrightarrow> metrics_only q \<or> (\<forall>d\<in>set dates. int (length (day_log sv botId q w d)) \<le> max M 10000)"

lemma latest_days_newest:
  assumes "good_store sv w" "0 < M" "capped sv botId q w M dates"
  shows "\<exists>es. latest_days sv botId q M dates collected w = (Inr es, w)
    \<and> take (nat M) (rev es) = take (nat M) (rev collected @ concat (map (\<lambda>d. rev (day_log sv botId q w d)) dates))"
  using assms(3)
proof (induction dates arbitrary: collected)
  case (Cons d dates)
  obtain es where es: "latest_day sv botId q M d w = (Inr es, w)"
    "take (nat M) (rev es) = take (nat M) (rev (day_log sv botId q w d))"
    using latest_day_newest [OF assms(1,2), of q botId d] Cons.prems by (auto simp: capped_def)
  define es' where "es' = (if int (length es) > M then keep_last M es else es)"
  have es': "rev es' = take (nat M) (rev (day_log sv botId q w d))"
    unfolding es'_def using es(2) assms(2) by (auto simp: rev_keep_last not_less)
  let ?rest = "concat (map (\<lambda>d. rev (day_log sv botId q w d)) dates)"
  have same: "take (nat M) (rev collected @ rev es' @ ?rest) = take (nat M) (rev collected @ rev (day_log sv botId q w d) @ ?rest)"
    unfolding es' by (rule take_after [OF take_before])
  show ?case
  proof (cases "int (length (es' @ collected)) \<ge> M")
    case True
    then have "take (nat M) (rev collected @ rev es' @ ?rest) = take (nat M) (rev (es' @ collected))" by simp
    then show ?thesis using es(1) True same by (simp add: io_bind_run es'_def [symmetric] Let_def)
  next
    case False
    obtain r where "latest_days sv botId q M dates (es' @ collected) w = (Inr r, w)"
      "take (nat M) (rev r) = take (nat M) (rev (es' @ collected) @ ?rest)"
      using Cons.IH [of "es' @ collected"] Cons.prems by (auto simp: capped_def)
    then show ?thesis using es(1) False same by (simp add: io_bind_run es'_def [symmetric] Let_def)
  qed
qed simp

section \<open>Pages\<close>

definition reads_own :: "string \<Rightarrow> string \<Rightarrow> world \<Rightarrow> bool" where
  "reads_own uid botId w \<longleftrightarrow> uid \<noteq> [] \<and> botId \<noteq> [] \<and> (\<exists>b\<in>set (bots w). bot_id b = botId \<and> bot_userId b = uid)"

lemma findOne_own:
  assumes "faults w = []" "reads_own uid botId w"
  shows "\<exists>b. bot_findOne uid botId w = (Inr (Ok b), w)"
proof -
  obtain b bs where "filter (owned_row botRepository uid botId) (bots w) = b # bs"
    using assms by (cases "filter (owned_row botRepository uid botId) (bots w)") (auto simp: reads_own_def filter_empty_conv owned_row_def)
  then show ?thesis
    using assms by (simp add: reads_own_def bot_findOne_def role_findOne_def or_failure_def io_catch_run io_bind_run db_select_calm)
qed

text \<open>C24. Where no call fails, no piece of a stream ends inside a character and the reader owns the
  instance, the latest pages are the pages of the whole log of the days looked back over, the newest entry
  first, and the flag tells exactly whether entries follow: reading backwards from the ends of the
  files, day by day, and stopping early loses nothing, as long as no day is longer than the cap on
  reading a whole day.\<close>

theorem latest_page:
  assumes "good_store sv w" "reads_own uid botId w"
    and "\<not> truthy_opt (lq_date q)" "\<not> truthy_opt (lq_dateRange q)" "lq_lookbackDays q = Some n" "n \<noteq> 0"
    and "0 \<le> lq_offset q" "0 < lq_limit q"
    and "dates = lookback_days n (local_day sv (clock (snd (js_now w))))" "capped sv botId q w (lq_offset q + lq_limit q + 1) dates"
  shows "fst (getLogs sv uid botId q w) = Inr (Ok (
     let everything = concat (map (\<lambda>d. rev (day_log sv botId q w d)) dates);
         page = take (nat (lq_limit q)) (drop (nat (lq_offset q)) everything)
     in (if lq_sort q = Some ''asc'' then rev page else page, int (length everything) > lq_offset q + lq_limit q)))"
proof -
  define M where "M = lq_offset q + lq_limit q + 1"
  define w1 where "w1 = snd (js_now w)"
  have now: "js_now w = (Inr (clock w1), w1)" unfolding w1_def by (rule js_now_run)
  have objects: "day_log sv botId q w1 = day_log sv botId q w" "good_store sv w1"
    using assms(1) by (simp_all add: fun_eq_iff day_log_def stored_log_def good_store_def w1_def)
  define everything where "everything = concat (map (\<lambda>d. rev (day_log sv botId q w d)) dates)"
  obtain es where es: "latest_days sv botId q M dates [] w1 = (Inr es, w1)" "take (nat M) (rev es) = take (nat M) everything"
    using latest_days_newest [OF objects(2), of M botId q dates "[]"] assms(7,8,10)
    by (auto simp: everything_def objects M_def capped_def)
  have len: "int (length (drop (nat (lq_offset q)) (rev es))) > lq_limit q \<longleftrightarrow> int (length everything) > lq_offset q + lq_limit q"
    using arg_cong [OF es(2), of length] assms(7,8) by (auto simp: M_def min_def split: if_splits)
  have page: "take (nat (lq_limit q)) (drop (nat (lq_offset q)) (rev es)) = take (nat (lq_limit q)) (drop (nat (lq_offset q)) everything)"
    using arg_cong [OF es(2), of "\<lambda>l. take (nat (lq_limit q)) (drop (nat (lq_offset q)) l)"] assms(7,8)
    by (simp add: M_def drop_take min_absorb1 nat_add_distrib)
  have dates: "lookback_days n (local_day sv (clock w1)) = dates" using assms(9) by (simp add: w1_def)
  have "faults w = []" using assms(1) by (simp add: good_store_def)
  then obtain b where "bot_findOne uid botId w = (Inr (Ok b), w)" using findOne_own assms(2) by blast
  then show ?thesis
    using assms(2-6) page len
    by (simp add: getLogs_def io_bind_run truthy_days_def fetch_failed_def io_catch_run getLatestLogs_def generateLookbackDates_def now
        dates Let_def es(1) M_def [symmetric] everything_def [symmetric] reads_own_def)
qed

definition demo_latest :: logs_query where
  "demo_latest = demo_query\<lparr>lq_date := None, lq_lookbackDays := Some 2, lq_limit := 1\<rparr>"

lemma demo_reads: "reads_own ''id-ann'' ''id0'' demo_logs"
  by (simp add: reads_own_def demo_logs_def demo_deployed_sel demo_instance_def)

lemma demo_day_log:
  assumes "lq_type q = None" "lq_startTime q = None"
  shows "day_log demo_server ''id0'' q demo_logs ''20240229'' = [plain_line ''up'' ''20240229'', plain_line ''buy'' ''20240229'']"
  using assms by (simp add: day_log_def demo_lines wanted_def metrics_only_def ascii_space_def wide_space_def in_bytes_def log_entries_def
      demo_line outside_window_def)

text \<open>On 29 February 2024.\<close>

definition demo_leap_day :: world where
  "demo_leap_day = demo_logs\<lparr>clock := 1709164800000, ticks := []\<rparr>"

theorem latest_page_witness:
  "fst (getLogs demo_server ''id-ann'' ''id0'' demo_latest demo_leap_day) = Inr (Ok ([plain_line ''buy'' ''20240229''], True))"
proof -
  have same: "day_log demo_server ''id0'' demo_latest demo_leap_day d = day_log demo_server ''id0'' demo_latest demo_logs d" for d
    by (simp add: day_log_def stored_log_def demo_leap_day_def)
  have "log_bucket demo_server = ''bot-logs''" "tz_minutes demo_server = 0" by (simp_all add: demo_server_def)
  then have other: "day_log demo_server ''id0'' demo_latest demo_logs ''20240228'' = []" and day: "local_day demo_server 1709164800000 = 19782"
    by (simp_all add: day_log_def stored_log_def demo_logs_def log_path_def log_entries_def local_day_def)
  have two: "day_log demo_server ''id0'' demo_latest demo_logs ''20240229'' = [plain_line ''up'' ''20240229'', plain_line ''buy'' ''20240229'']"
    by (rule demo_day_log) (simp_all add: demo_latest_def demo_query_def)
  have dates: "lookback_days 2 19782 = [''20240229'', ''20240228'']" by (simp add: lookback_upto demo_days upt_rec)
  have "fst (getLogs demo_server ''id-ann'' ''id0'' demo_latest demo_leap_day) = Inr (Ok (
     let everything = concat (map (\<lambda>d. rev (day_log demo_server ''id0'' demo_latest demo_leap_day d)) [''20240229'', ''20240228'']);
         page = take (nat (lq_limit demo_latest)) (drop (nat (lq_offset demo_latest)) everything)
     in (if lq_sort demo_latest = Some ''asc'' then rev page else page,
         int (length everything) > lq_offset demo_latest + lq_limit demo_latest)))"
  proof (rule latest_page [where n = 2])
    show "good_store demo_server demo_leap_day" using demo_good by (simp add: good_store_def demo_leap_day_def)
    show "reads_own ''id-ann'' ''id0'' demo_leap_day" using demo_reads by (simp add: reads_own_def demo_leap_day_def)
    show "[''20240229'', ''20240228''] = lookback_days 2 (local_day demo_server (clock (snd (js_now demo_leap_day))))"
      by (simp add: demo_leap_day_def js_now_def day dates)
    show "capped demo_server ''id0'' demo_latest demo_leap_day (lq_offset demo_latest + lq_limit demo_latest + 1) [''20240229'', ''20240228'']"
      by (simp add: capped_def same two other) (simp add: demo_latest_def demo_query_def)
  qed (simp_all add: demo_latest_def demo_query_def)
  then show ?thesis by (simp add: same two other) (simp add: demo_latest_def demo_query_def)
qed

section \<open>One day\<close>

text \<open>A query for one day answers with its last entries in the order of the file when the newest are
  asked for first, and in the reverse order when the oldest are; the offset plays no part, so that
  every page of the day is the same.\<close>

theorem single_date_page:
  assumes "good_store sv w" "reads_own uid botId w"
    and "lq_date q = Some d" "isValidDateFormat d" "\<not> metrics_only q" "lq_startTime q = None" "0 \<le> lq_limit q"
    and "map_of (objects w) (log_bucket sv, log_path botId d) = Some ob" "length (so_data ob) \<le> TAIL_BYTES"
  shows "fst (getLogs sv uid botId q w) = Inr (Ok (let es = keep_last (lq_limit q) (day_log sv botId q w d) in
     (if or_else (lq_sort q) ''desc'' = ''asc'' then rev es else es, full q es)))"
proof -
  have w: "faults w = []" "isNotFoundError (get_missing sv k)" "concat (chunks_of sv x) = x" for k x
    using assms(1) by (simp_all add: good_store_def)
  obtain b where b: "bot_findOne uid botId w = (Inr (Ok b), w)" using findOne_own [OF w(1) assms(2)] by blast
  have d: "d \<noteq> []" using assms(4) by (auto simp: isValidDateFormat_def)
  obtain es truncated where tail: "tailFilteredLogs sv (log_path botId d) d q [] w = (Inr (es, truncated), w)"
    "truncated \<or> es = keep_last (lq_limit q) (day_log sv botId q w d)"
    by (rule tail_is_newest [OF assms(1,5,7)])
  have "\<not> truncated"
    using tail(1) assms(8,9) w by (auto simp: tailFilteredLogs_def io_bind_run io_catch_run stat_calm client_calm read_chunks_calm Let_def)
  then have run: "tailFilteredLogs sv (log_path botId d) d q [] w = (Inr (keep_last (lq_limit q) (day_log sv botId q w d), False), w)"
    using tail by simp
  have "uid \<noteq> []" using assms(2) by (simp add: reads_own_def)
  then show ?thesis
    using assms(3-6) b d by (simp add: getLogs_def io_bind_run parseDateQuery_def read_days_def fetch_failed_def io_catch_run run Let_def full_def)
qed

theorem single_date_page_witness:
  "fst (getLogs demo_server ''id-ann'' ''id0'' demo_query demo_logs)
     = Inr (Ok ([plain_line ''up'' ''20240229'', plain_line ''buy'' ''20240229''], False))"
proof -
  have "log_bucket demo_server = ''bot-logs''" by (simp add: demo_server_def)
  then have ob: "map_of (objects demo_logs) (log_bucket demo_server, log_path ''id0'' ''20240229'')
      = Some \<lparr>so_data = ''up'' @ [newline] @ '' '' @ [newline] @ ''buy'', so_etag = ''e''\<rparr>"
    by (simp add: demo_logs_def log_path_def)
  have two: "day_log demo_server ''id0'' demo_query demo_logs ''20240229'' = [plain_line ''up'' ''20240229'', plain_line ''buy'' ''20240229'']"
    by (rule demo_day_log) (simp_all add: demo_query_def)
  have "isValidDateFormat ''20240229''" using valid_text_of(1) [OF demo_days(5)] by (simp add: demo_days)
  then have "fst (getLogs demo_server ''id-ann'' ''id0'' demo_query demo_logs) = Inr (Ok (
      let es = keep_last (lq_limit demo_query) (day_log demo_server ''id0'' demo_query demo_logs ''20240229'') in
     (if or_else (lq_sort demo_query) ''desc'' = ''asc'' then rev es else es, full demo_query es)))"
    by (intro single_date_page [OF demo_good demo_reads _ _ _ _ _ ob])
      (simp_all add: demo_query_def metrics_only_def TAIL_BYTES_def)
  then show ?thesis by (simp add: two) (simp add: demo_query_def keep_last_def or_else_def full_def metrics_only_def)
qed

section \<open>Ranges\<close>

lemma stream_days_run:
  assumes "good_store sv w" "lq_offset q \<le> 0" "\<not> metrics_only q" "int (length es) < lq_limit q"
  shows "stream_days sv botId q dates (es, n) w =
    (Inr (take (nat (lq_limit q)) (es @ concat (map (day_log sv botId q w) dates))), w)"
  using assms(4)
proof (induction dates arbitrary: es n)
  case (Cons d dates)
  let ?es = "es @ take (nat (lq_limit q - int (length es))) (day_log sv botId q w d)"
  have "\<not> full q (fst (es, n))" using Cons.prems assms(3) by (simp add: full_def)
  then have one: "streamFilteredLogs sv (log_path botId d) d q (es, n) w = (Inr (?es, n), w)"
    using stream_selects [OF assms(1), of q "(es, n)" botId d] assms(2,3)
    by (simp add: select_lines_def Let_def day_log_def)
  have room: "nat (lq_limit q - int (length es)) = nat (lq_limit q) - length es" using Cons.prems by arith
  show ?case
  proof (cases "full q ?es")
    case True
    then have "nat (lq_limit q) - length es \<le> length (day_log sv botId q w d)"
      using assms(3) Cons.prems room by (simp add: full_def)
    then show ?thesis using one True Cons.prems room by (simp add: io_bind_run)
  next
    case False
    then have short: "int (length ?es) < lq_limit q" using assms(3) by (simp add: full_def)
    then have "length (day_log sv botId q w d) < nat (lq_limit q) - length es" using room Cons.prems by (simp add: min_def split: if_splits)
    then have "?es = es @ day_log sv botId q w d" by (simp add: room)
    then show ?thesis using one False Cons.IH [OF short] by (simp add: io_bind_run)
  qed
qed (simp add: min_def)

lemma parse_keeps:
  assumes "parseDateQuery sv q = (dates, q')"
  shows "lq_offset q' = lq_offset q \<and> lq_limit q' = lq_limit q \<and> lq_sort q' = lq_sort q \<and> lq_type q' = lq_type q
    \<and> metrics_only q' = metrics_only q \<and> full q' = full q"
  using assms by (auto simp: parseDateQuery_def Let_def fun_eq_iff metrics_only_def full_def split: if_splits list.splits option.splits)

text \<open>A page of a range of days, newest first, is cut from the first 10000 entries of the range, not
  from the last: of a longer range the newest entries are on no page of that window.\<close>

theorem range_page:
  assumes "good_store sv w" "reads_own uid botId w"
    and "\<not> truthy_opt (lq_date q)" "truthy_opt (lq_dateRange q)" "parseDateQuery sv q = (dates, q')" "2 \<le> length dates"
    and "\<not> metrics_only q" "or_else (lq_sort q) ''desc'' = ''desc''" "0 \<le> lq_offset q"
  shows "fst (getLogs sv uid botId q w) = Inr (Ok (
     let read = take (nat (max (lq_offset q + lq_limit q) 10000)) (concat (map (day_log sv botId q' w) dates));
         page = take (nat (lq_limit q)) (drop (nat (lq_offset q)) (rev read))
     in (page, full q page)))"
proof -
  obtain b where b: "bot_findOne uid botId w = (Inr (Ok b), w)"
    using findOne_own [OF _ assms(2)] assms(1) by (auto simp: good_store_def)
  define M where "M = max (lq_offset q + lq_limit q) 10000"
  note same = parse_keeps [OF assms(5)]
  have log: "day_log sv botId (q'\<lparr>lq_offset := 0, lq_limit := m\<rparr>) w = day_log sv botId q' w" for m
    by (simp add: fun_eq_iff)
  have run: "stream_days sv botId (q'\<lparr>lq_offset := 0, lq_limit := M\<rparr>) dates ([], 0) w
      = (Inr (take (nat M) (concat (map (day_log sv botId q' w) dates))), w)"
    using stream_days_run [OF assms(1), of "q'\<lparr>lq_offset := 0, lq_limit := M\<rparr>" "[]" botId dates 0] assms(7) same
    by (simp add: M_def less_max_iff_disj log)
  have "uid \<noteq> []" "dates \<noteq> []" "length dates \<noteq> 1" using assms(2,6) by (auto simp: reads_own_def)
  then show ?thesis
    using assms(3-8) b run same
    by (simp add: getLogs_def io_bind_run read_days_def fetch_failed_def io_catch_run Let_def M_def [symmetric])
qed

theorem range_page_witness:
  "fst (getLogs demo_server ''id-ann'' ''id0'' (demo_query\<lparr>lq_date := None, lq_dateRange := Some ''20240228-20240229''\<rparr>) demo_logs)
     = Inr (Ok ([plain_line ''buy'' ''20240229'', plain_line ''up'' ''20240229''], False))"
proof -
  let ?q = "demo_query\<lparr>lq_date := None, lq_dateRange := Some ''20240228-20240229''\<rparr>"
  have bucket: "log_bucket demo_server = ''bot-logs''" by (simp add: demo_server_def)
  have two: "day_log demo_server ''id0'' ?q demo_logs ''20240229'' = [plain_line ''up'' ''20240229'', plain_line ''buy'' ''20240229'']"
    by (rule demo_day_log) (simp_all add: demo_query_def)
  have other: "day_log demo_server ''id0'' ?q demo_logs ''20240228'' = []"
    using bucket by (simp add: day_log_def stored_log_def demo_logs_def log_path_def log_entries_def)
  have valid: "isValidDateFormat ''20240228''" "isValidDateFormat ''20240229''"
    using valid_text_of(1) [OF demo_days(4)] valid_text_of(1) [OF demo_days(5)] by (simp_all add: demo_days)
  have "generateDateRange ''20240228'' ''20240229'' = [''20240228'', ''20240229'']"
    using generateDateRange_texts [OF demo_days(4,5)] by (simp add: demo_days upto_rec1)
  then have parse: "parseDateQuery demo_server ?q = ([''20240228'', ''20240229''], ?q)"
    using valid by (simp add: parseDateQuery_def demo_query_def js_includes_def sublist_Cons_right)
  have "fst (getLogs demo_server ''id-ann'' ''id0'' ?q demo_logs) = Inr (Ok (
     let read = take (nat (max (lq_offset ?q + lq_limit ?q) 10000)) (concat (map (day_log demo_server ''id0'' ?q demo_logs) [''20240228'', ''20240229'']));
         page = take (nat (lq_limit ?q)) (drop (nat (lq_offset ?q)) (rev read))
     in (page, full ?q page)))"
    by (rule range_page [OF demo_good demo_reads _ _ parse]) (simp_all add: demo_query_def metrics_only_def or_else_def)
  then show ?thesis by (simp add: two other) (simp add: demo_query_def full_def metrics_only_def)
qed

section \<open>Sizes\<close>

lemma select_bound:
  "\<not> metrics_only q \<Longrightarrow> int (length (fst st)) \<le> lq_limit q \<Longrightarrow> int (length (fst (select_lines sv q d l st))) \<le> lq_limit q"
  by (cases st) (simp add: select_lines_def Let_def min_def, arith)

lemma stream_bound:
  assumes "\<not> metrics_only q"
  shows "stream_chunks sv q d cs leftover st w = (Inr st', w') \<Longrightarrow> int (length (fst st)) < lq_limit q \<Longrightarrow>
    int (length (fst st')) \<le> lq_limit q"
proof (induction cs arbitrary: leftover st w)
  case Nil
  then show ?case using select_bound [OF assms, of st] by (auto simp: stream_leftover_select)
next
  case (Cons c cs)
  define st1 where "st1 x = select_lines sv q d (butlast (split_at newline (leftover @ x))) st" for x
  have "\<not> full q (fst st)" using Cons.prems(2) by (simp add: full_def)
  then have lines: "stream_lines sv q d (butlast (split_at newline (leftover @ x))) st = (st1 x, full q (fst (st1 x)))" for x
    by (simp add: stream_lines_select st1_def)
  obtain x w1 where run: "(let lines = split_at newline (leftover @ x) in case stream_lines sv q d (butlast lines) st of
       (st', True) \<Rightarrow> io_return st' | (st', False) \<Rightarrow> stream_chunks sv q d cs (last lines) st') w1 = (Inr st', w')"
    by (rule io_bind_InrE [OF Cons.prems(1) [unfolded stream_chunks.simps]])
  have bound: "int (length (fst (st1 x))) \<le> lq_limit q" using Cons.prems(2) by (simp add: st1_def select_bound assms)
  show ?case
  proof (cases "full q (fst (st1 x))")
    case True
    then show ?thesis using run bound by (simp add: Let_def lines)
  next
    case False
    then show ?thesis using run Cons.IH assms by (simp add: Let_def lines full_def)
  qed
qed

lemma streamFiltered_bound:
  assumes "\<not> metrics_only q" "streamFilteredLogs sv p d q st w = (Inr st', w')" "int (length (fst st)) < lq_limit q"
  shows "int (length (fst st')) \<le> lq_limit q"
proof -
  obtain r w1 where "(case r of None \<Rightarrow> io_return st | Some content \<Rightarrow> stream_chunks sv q d (chunks_of sv content) [] st) w1
      = (Inr st', w')"
    by (rule io_bind_InrE [OF assms(2) [unfolded streamFilteredLogs_def]])
  then show ?thesis using stream_bound [OF assms(1)] assms(3) by (cases r) auto
qed

lemma stream_days_bound:
  assumes "\<not> metrics_only q"
  shows "stream_days sv botId q dates st w = (Inr es, w') \<Longrightarrow> int (length (fst st)) < lq_limit q \<Longrightarrow> int (length es) \<le> lq_limit q"
proof (induction dates arbitrary: st w)
  case (Cons d dates)
  obtain st1 w1 where 1: "streamFilteredLogs sv (log_path botId d) d q st w = (Inr st1, w1)"
    "(if full q (fst st1) then io_return (fst st1) else stream_days sv botId q dates st1) w1 = (Inr es, w')"
    by (rule io_bind_InrE [OF Cons.prems(1) [unfolded stream_days.simps]])
  then show ?case
    using streamFiltered_bound [OF assms 1(1) Cons.prems(2)] Cons.IH assms by (auto simp: full_def split: if_splits)
qed simp

lemma tail_bound:
  assumes "\<not> metrics_only q" "tailFilteredLogs sv p d q [] w = (Inr (es, t), w')" "0 \<le> lq_limit q"
  shows "int (length es) \<le> lq_limit q"
  using assms by (fastforce simp: tailFilteredLogs_def Let_def full_def keep_last_def elim!: io_bind_InrE split: option.splits if_splits)

lemma latest_bound:
  "getLatestLogs sv botId q w = (Inr (es, hasMore), w') \<Longrightarrow> 1 \<le> lq_limit q \<Longrightarrow> int (length es) \<le> lq_limit q"
  by (auto simp: getLatestLogs_def Let_def elim!: io_bind_InrE split: if_splits)

lemma read_days_bound:
  assumes "read_days sv botId q dates w = (Inr es, w')" "\<not> metrics_only q" "1 \<le> lq_limit q" "0 \<le> lq_offset q"
  shows "int (length es) \<le> lq_limit q"
proof -
  consider (tail) es' t w1 w2 where "tailFilteredLogs sv (log_path botId (hd dates)) (hd dates) q [] w1 = (Inr (es', t), w2)" "length es = length es'"
    | (desc) xs where "es = take (nat (lq_limit q)) xs"
    | (asc) w1 w2 where "stream_days sv botId q dates ([], 0) w1 = (Inr es, w2)"
  proof -
    show thesis
      using assms(1,2) that unfolding read_days_def Let_def
      by (auto elim!: io_bind_InrE split: if_splits prod.splits)
  qed
  then show ?thesis
  proof cases
    case tail
    then show ?thesis using tail_bound [OF assms(2) tail(1)] assms(3) by simp
  next
    case desc
    then have "length es \<le> nat (lq_limit q)" by simp
    then show ?thesis using assms(3) by linarith
  next
    case asc
    then show ?thesis using stream_days_bound [OF assms(2) asc] assms(3) by simp
  qed
qed

lemma page_size_run:
  assumes "valid_query q" "\<not> metrics_only q" "get_logs sv user botId q w = (Inr (es, hasMore), w')"
  shows "int (length es) \<le> lq_limit q \<and> length es \<le> 2000"
proof -
  define q1 where "q1 = q\<lparr>lq_sort := Some (or_else (lq_sort q) ''desc'')\<rparr>"
  have lim: "1 \<le> lq_limit q" "lq_limit q \<le> 2000" "lq_limit q1 = lq_limit q" "\<not> metrics_only q1" "0 \<le> lq_offset q1"
    using assms(1,2) by (simp_all add: valid_query_def q1_def metrics_only_def)
  obtain w1 where run: "getLogs sv (au_uid user) botId q1 w = (Inr (Ok (es, hasMore)), w1)"
    using assms(3) by (auto simp: get_logs_def q1_def elim!: io_bind_InrE split: if_splits result.splits)
  have "int (length es) \<le> lq_limit q1"
  proof (cases "\<not> truthy_opt (lq_date q1) \<and> \<not> truthy_opt (lq_dateRange q1) \<and> truthy_days (lq_lookbackDays q1)")
    case True
    then obtain w2 w3 where "getLatestLogs sv botId q1 w2 = (Inr (es, hasMore), w3)"
      using run by (auto simp: getLogs_def fetch_failed_def io_catch_run elim!: io_bind_InrE split: if_splits result.splits prod.splits sum.splits)
    then show ?thesis using latest_bound [of sv botId q1 w2 es hasMore w3] lim by simp
  next
    case False
    obtain dates q2 where parse: "parseDateQuery sv q1 = (dates, q2)" by (cases "parseDateQuery sv q1")
    then obtain w2 w3 where "read_days sv botId q2 dates w2 = (Inr es, w3)"
      using run False by (auto simp: getLogs_def fetch_failed_def io_catch_run elim!: io_bind_InrE split: if_splits result.splits prod.splits sum.splits)
    then show ?thesis using read_days_bound parse_keeps [OF parse] lim by fastforce
  qed
  then show ?thesis using lim by simp
qed

text \<open>Whatever fails, a page of log lines has at most as many entries as were asked for, hence at
  most 2000.\<close>

theorem page_size:
  "case get_logs sv user botId q w of
     (Inr (es, _), _) \<Rightarrow> if valid_query q \<and> \<not> metrics_only q then int (length es) \<le> lq_limit q \<and> length es \<le> 2000 else True
   | _ \<Rightarrow> True"
  by (auto split: prod.split sum.split dest: page_size_run)

text \<open>Reading logs needs the instance, and changes no table, no object and no message.\<close>

lemma getLogs_owner:
  assumes "getLogs sv uid botId q w = (Inr (Ok p), w')"
  shows "\<exists>b\<in>set (bots w). bot_id b = botId \<and> bot_userId b = uid"
proof -
  obtain b w1 where "bot_findOne uid botId w = (Inr (Ok b), w1)"
    using assms by (auto simp: getLogs_def elim!: io_bind_InrE split: if_splits result.splits)
  then show ?thesis using instances.findOne_sound by (fastforce simp: bot_findOne_def)
qed

lemma getLogs_keeps:
  assumes "env_free I"
  shows "preserves I (getLogs sv uid botId q)"
proof -
  note rules = preserves_catch preserves_bind preserves_if preserves_option preserves_return preserves_throw preserves_now [OF assms]
  have client: "preserves I (getObject sv b k)" "preserves I (statObject sv b k)" "preserves I (getPartialObject sv b k n)"
    "preserves I (read_chunk c)" for b k n c
    unfolding getObject_def statObject_def getPartialObject_def read_chunk_def
    by (rule preserves_external [OF assms], simp add: preserves_def io_return_def split: option.split)+
  have chunks: "preserves I (stream_chunks sv q d cs x st)" for q d cs x st
    by (induction cs arbitrary: x st) (auto simp: Let_def intro!: rules client split: prod.split bool.split)
  have pieces: "preserves I (read_chunks cs)" for cs
    by (induction cs) (simp_all only: read_chunks.simps preserves_return, intro rules client)
  have stream: "preserves I (streamFilteredLogs sv p d q st)" for p d q st
    unfolding streamFilteredLogs_def by (intro rules client chunks)
  have tail: "preserves I (tailFilteredLogs sv p d q es)" for p d q es
    unfolding tailFilteredLogs_def Let_def by (intro rules client pieces)
  have days: "preserves I (stream_days sv botId q dates st)" for q dates st
    by (induction dates arbitrary: st) (auto intro!: rules stream)
  have day: "preserves I (latest_day sv botId q M d)" for q M d
    unfolding latest_day_def by (auto intro!: rules stream tail split: prod.split)
  have latest: "preserves I (latest_days sv botId q M dates c)" for q M dates c
    by (induction dates arbitrary: c) (auto simp: Let_def intro!: rules day)
  have "preserves I (read_days sv botId q dates)" for q dates
    unfolding read_days_def Let_def by (auto intro!: rules days tail split: prod.split)
  moreover have "preserves I (getLatestLogs sv botId q)" for q
    unfolding getLatestLogs_def generateLookbackDates_def Let_def by (intro rules latest)
  moreover have "preserves I (bot_findOne uid botId)" unfolding bot_findOne_def by (rule bot_reads_keep(3) [OF assms])
  ultimately show ?thesis
    unfolding getLogs_def fetch_failed_def by (auto intro!: rules preserves_result split: prod.split)
qed

end
