(* ===== verification/LogStream.thy ===== *)
theory LogStream
  imports LogPages
begin

text \<open>
  The live log streams of api/src/logs/logs.controller.ts: one NATS subscription per bot and process fans
  out to all connected clients. The first part is the history that a stream starts with. The second is
  the bookkeeping of subscriptions as a step relation. The code runs on one thread: what follows an
  already resolved promise runs before the next event of a socket, a timer or NATS; such an event
  is a step only when no request is between two of its awaits (\<open>quiet\<close>). NATS calls no callback after
  \<open>unsubscribe\<close>.
\<close>

section \<open>The history\<close>

datatype sse_event =
    SseError string
  | SseHistory "log_entry list"
  | SseWarning string
  | SseUpdate string

definition ACCESS_DENIED_MESSAGE :: string where
  "ACCESS_DENIED_MESSAGE = ''Bot not found or access denied''"

text \<open>The events that are written, and whether the stream goes on.\<close>

definition history_events :: "(page, string) result \<Rightarrow> sse_event list \<times> bool" where
  "history_events r = (case r of
      Failure e \<Rightarrow> if js_includes e ''Authentication required'' then ([SseError ''Authentication required''], False)
        else if access_error e then ([SseError ACCESS_DENIED_MESSAGE], False)
        else ([SseWarning ''History unavailable''], True)
    | Ok (entries, _) \<Rightarrow> ([SseHistory entries], True))"

definition sendHistoricalLogs :: "server \<Rightarrow> string \<Rightarrow> string \<Rightarrow> (world, sse_event list \<times> bool) io" where
  "sendHistoricalLogs sv botId userId = io_bind js_now (\<lambda>now.
     io_bind (getLogs sv userId botId \<lparr>lq_date = Some (date_text (local_day sv now)), lq_dateRange = None, lq_lookbackDays = None,
        lq_limit = 1000, lq_offset = 0, lq_type = None, lq_sort = None, lq_startTime = None, lq_endTime = None\<rparr>)
     (\<lambda>r. io_return (history_events r)))"

text \<open>\<open>streamLogs\<close> up to the subscription.\<close>

definition stream_start :: "server \<Rightarrow> authenticated_user \<Rightarrow> string \<Rightarrow> (world, sse_event list \<times> bool) io" where
  "stream_start sv user botId =
     (if \<not> VALID_BOT_ID botId then io_return ([SseError ''Invalid bot ID''], False)
      else sendHistoricalLogs sv botId (au_uid user))"

section \<open>The subscriptions of a process\<close>

text \<open>Where the request of a client is: \<open>Creating\<close>, \<open>Waiting\<close> and \<open>Returned\<close> hold the value of the promise
  it awaits, a \<open>SubscriptionResult\<close> or the subscription in it.\<close>

type_synonym subscription_result = "nat option \<times> bool"

datatype phase =
    Idle
  | Fetching
  | Creating subscription_result
  | Waiting subscription_result
  | Returned "nat option"
  | Streaming "nat option"
  | Gone

record hub =
  h_active :: "string \<Rightarrow> nat option"
  h_pending :: "string \<Rightarrow> subscription_result option"
  h_clients :: "nat \<Rightarrow> nat set"
  h_subject :: "nat \<Rightarrow> string"
  h_live :: "nat set"
  h_next :: nat
  h_bot :: "nat \<Rightarrow> string"
  h_phase :: "nat \<Rightarrow> phase"
  h_disconnected :: "nat set"
  h_ended :: "nat set"
  h_sent :: "(nat \<times> sse_event) list"

definition hub_start :: "(nat \<Rightarrow> string) \<Rightarrow> hub" where
  "hub_start of_client = \<lparr>h_active = (\<lambda>_. None), h_pending = (\<lambda>_. None), h_clients = (\<lambda>_. {}), h_subject = (\<lambda>_. []),
     h_live = {}, h_next = 0, h_bot = of_client, h_phase = (\<lambda>_. Idle), h_disconnected = {}, h_ended = {}, h_sent = []\<rparr>"

definition set_phase :: "nat \<Rightarrow> phase \<Rightarrow> hub \<Rightarrow> hub" where
  "set_phase c p h = h\<lparr>h_phase := (h_phase h)(c := p)\<rparr>"

definition unsubscribe :: "string \<Rightarrow> nat \<Rightarrow> hub \<Rightarrow> hub" where
  "unsubscribe b s h = h\<lparr>h_live := h_live h - {s}, h_active := (h_active h)(b := None)\<rparr>"

text \<open>\<open>removeStaleClient\<close>, which \<open>cleanup\<close> repeats.\<close>

definition removeStaleClient :: "nat \<Rightarrow> string \<Rightarrow> hub \<Rightarrow> hub" where
  "removeStaleClient c b h = (case h_active h b of None \<Rightarrow> h
     | Some s \<Rightarrow> let h = h\<lparr>h_clients := (h_clients h)(s := h_clients h s - {c})\<rparr> in
         if h_clients h s = {} then unsubscribe b s h else h)"

definition cleanup_client :: "nat \<Rightarrow> hub \<Rightarrow> hub" where
  "cleanup_client c h = removeStaleClient c (h_bot h c) (h\<lparr>h_disconnected := insert c (h_disconnected h)\<rparr>)"

definition live_warning :: "nat \<Rightarrow> hub \<Rightarrow> hub" where
  "live_warning c h = h\<lparr>h_sent := h_sent h @ [(c, SseWarning ''Live streaming unavailable'')]\<rparr>"

text \<open>\<open>createSubscription\<close>: \<open>ok\<close> tells whether NATS accepts it.\<close>

definition createSubscription :: "bool \<Rightarrow> nat \<Rightarrow> hub \<Rightarrow> subscription_result \<times> hub" where
  "createSubscription ok c h = (if \<not> ok then ((None, True), live_warning c h)
     else let s = h_next h; b = h_bot h c in
       ((Some s, False), h\<lparr>h_next := Suc s, h_clients := (h_clients h)(s := {c}), h_subject := (h_subject h)(s := b),
          h_live := insert s (h_live h), h_active := (h_active h)(b := Some s)\<rparr>))"

text \<open>\<open>getOrCreateSubscription\<close> up to its first await.\<close>

definition getOrCreateSubscription :: "bool \<Rightarrow> nat \<Rightarrow> hub \<Rightarrow> hub" where
  "getOrCreateSubscription ok c h = (let b = h_bot h c in
     case h_active h b of Some s \<Rightarrow> set_phase c (Returned (Some s)) h
     | None \<Rightarrow> (case h_pending h b of Some r \<Rightarrow> set_phase c (Waiting r) h
        | None \<Rightarrow> (case createSubscription ok c h of (r, h) \<Rightarrow>
            set_phase c (Creating r) (h\<lparr>h_pending := (h_pending h)(b := Some r)\<rparr>))))"

text \<open>The request that waited for the creation by another one.\<close>

definition resume_waiting :: "nat \<Rightarrow> subscription_result \<Rightarrow> hub \<Rightarrow> hub" where
  "resume_waiting c r h = (if fst r = None \<and> \<not> snd r then set_phase c (Returned None) (live_warning c h)
     else set_phase c (Returned (h_active h (h_bot h c))) h)"

definition setupFanOut :: "nat \<Rightarrow> nat option \<Rightarrow> hub \<Rightarrow> hub" where
  "setupFanOut c sub h = set_phase c (Streaming sub) (case sub of None \<Rightarrow> h
     | Some s \<Rightarrow> h\<lparr>h_clients := (h_clients h)(s := insert c (h_clients h s))\<rparr>)"

text \<open>The callback of a subscription; the clients are served in the order \<open>cs\<close>.\<close>

definition fan_out :: "nat list \<Rightarrow> nat \<Rightarrow> string \<Rightarrow> hub \<Rightarrow> hub" where
  "fan_out cs s msg h = (let b = h_subject h s;
       h = h\<lparr>h_sent := h_sent h @ map (\<lambda>c. (c, SseUpdate msg)) (filter (\<lambda>c. c \<notin> h_ended h) cs),
         h_clients := (h_clients h)(s := h_clients h s - h_ended h)\<rparr> in
     if h_clients h s = {} then (case h_active h b of None \<Rightarrow> h | Some s' \<Rightarrow> unsubscribe b s' h) else h)"

definition between_awaits :: "phase \<Rightarrow> bool" where
  "between_awaits p \<longleftrightarrow> (case p of Creating _ \<Rightarrow> True | Waiting _ \<Rightarrow> True | Returned _ \<Rightarrow> True | _ \<Rightarrow> False)"

definition quiet :: "hub \<Rightarrow> bool" where
  "quiet h \<longleftrightarrow> (\<forall>c. \<not> between_awaits (h_phase h c))"

inductive hub_step :: "hub \<Rightarrow> hub \<Rightarrow> bool" where
  connect: "h_phase h c = Idle \<Longrightarrow> hub_step h (set_phase c Fetching h)"
| denied: "h_phase h c = Fetching \<Longrightarrow> hub_step h ((set_phase c Gone h)\<lparr>h_ended := insert c (h_ended h)\<rparr>)"
| late: "h_phase h c = Fetching \<Longrightarrow> c \<in> h_disconnected h \<Longrightarrow> hub_step h (set_phase c Gone (cleanup_client c h))"
| enter: "h_phase h c = Fetching \<Longrightarrow> c \<notin> h_disconnected h \<Longrightarrow> hub_step h (getOrCreateSubscription ok c h)"
| created: "h_phase h c = Creating r \<Longrightarrow>
    hub_step h (set_phase c (Returned (fst r)) (h\<lparr>h_pending := (h_pending h)(h_bot h c := None)\<rparr>))"
| waited: "h_phase h c = Waiting r \<Longrightarrow> hub_step h (resume_waiting c r h)"
| dropped: "h_phase h c = Returned sub \<Longrightarrow> c \<in> h_disconnected h \<Longrightarrow> hub_step h (set_phase c Gone (cleanup_client c h))"
| joined: "h_phase h c = Returned sub \<Longrightarrow> c \<notin> h_disconnected h \<Longrightarrow> hub_step h (setupFanOut c sub h)"
| close_fetching: "quiet h \<Longrightarrow> h_phase h c = Fetching \<Longrightarrow> hub_step h (cleanup_client c h)"
| close_streaming: "quiet h \<Longrightarrow> h_phase h c = Streaming sub \<Longrightarrow> hub_step h (set_phase c Gone (cleanup_client c h))"
| close_gone: "quiet h \<Longrightarrow> h_phase h c = Gone \<Longrightarrow> hub_step h (cleanup_client c h)"
| broken: "quiet h \<Longrightarrow> h_phase h c = Streaming sub \<Longrightarrow> hub_step h (h\<lparr>h_ended := insert c (h_ended h)\<rparr>)"
| message: "quiet h \<Longrightarrow> s \<in> h_live h \<Longrightarrow> set cs = h_clients h s \<Longrightarrow> distinct cs \<Longrightarrow> hub_step h (fan_out cs s msg h)"
| keepalive: "quiet h \<Longrightarrow> h_phase h c = Streaming sub \<Longrightarrow> c \<in> h_ended h \<Longrightarrow> hub_step h (removeStaleClient c (h_bot h c) h)"

inductive hub_run :: "(nat \<Rightarrow> string) \<Rightarrow> hub \<Rightarrow> bool" for of_client where
  run_start: "hub_run of_client (hub_start of_client)"
| run_step: "hub_run of_client h \<Longrightarrow> hub_step h h' \<Longrightarrow> hub_run of_client h'"

section \<open>The invariant\<close>

definition connected :: "hub \<Rightarrow> nat \<Rightarrow> bool" where
  "connected h c \<longleftrightarrow> c \<notin> h_disconnected h \<and> c \<notin> h_ended h"

definition hub_inv :: "hub \<Rightarrow> bool" where
  "hub_inv h \<longleftrightarrow>
     (\<forall>b s. h_active h b = Some s \<longrightarrow> s \<in> h_live h \<and> h_subject h s = b \<and> h_clients h s \<noteq> {})
   \<and> (\<forall>s. s \<in> h_live h \<longrightarrow> h_active h (h_subject h s) = Some s \<and> s < h_next h)
   \<and> (\<forall>s c. c \<in> h_clients h s \<longrightarrow> s \<in> h_live h \<and> h_phase h c \<noteq> Idle \<and> h_phase h c \<noteq> Fetching \<and> h_phase h c \<noteq> Gone
        \<and> h_bot h c = h_subject h s)
   \<and> (\<forall>c s. h_phase h c = Streaming (Some s) \<and> connected h c \<longrightarrow> h_active h (h_bot h c) = Some s \<and> c \<in> h_clients h s)
   \<and> (\<forall>c s. h_phase h c = Returned (Some s) \<longrightarrow> h_active h (h_bot h c) = Some s)
   \<and> (\<forall>c s w. h_phase h c = Creating (Some s, w) \<longrightarrow> h_active h (h_bot h c) = Some s)
   \<and> (\<forall>c. between_awaits (h_phase h c) \<longrightarrow> connected h c)
   \<and> (\<forall>c. h_phase h c = Idle \<or> h_phase h c = Fetching \<longrightarrow> c \<notin> h_ended h)"

lemma hub_invI:
  assumes "\<And>b s. h_active h b = Some s \<Longrightarrow> s \<in> h_live h \<and> h_subject h s = b \<and> h_clients h s \<noteq> {}"
    and "\<And>s. s \<in> h_live h \<Longrightarrow> h_active h (h_subject h s) = Some s \<and> s < h_next h"
    and "\<And>s c. c \<in> h_clients h s \<Longrightarrow> s \<in> h_live h \<and> h_phase h c \<noteq> Idle \<and> h_phase h c \<noteq> Fetching \<and> h_phase h c \<noteq> Gone
        \<and> h_bot h c = h_subject h s"
    and "\<And>c s. h_phase h c = Streaming (Some s) \<Longrightarrow> connected h c \<Longrightarrow> h_active h (h_bot h c) = Some s \<and> c \<in> h_clients h s"
    and "\<And>c s. h_phase h c = Returned (Some s) \<Longrightarrow> h_active h (h_bot h c) = Some s"
    and "\<And>c s x. h_phase h c = Creating (Some s, x) \<Longrightarrow> h_active h (h_bot h c) = Some s"
    and "\<And>c. between_awaits (h_phase h c) \<Longrightarrow> connected h c"
    and "\<And>c. h_phase h c = Idle \<or> h_phase h c = Fetching \<Longrightarrow> c \<notin> h_ended h"
  shows "hub_inv h"
  using assms unfolding hub_inv_def by (intro conjI allI impI) blast+

lemma hub_invD:
  assumes "hub_inv h"
  shows "h_active h b = Some s \<Longrightarrow> s \<in> h_live h \<and> h_subject h s = b \<and> h_clients h s \<noteq> {}"
    and "s \<in> h_live h \<Longrightarrow> h_active h (h_subject h s) = Some s \<and> s < h_next h"
    and "c \<in> h_clients h s \<Longrightarrow> s \<in> h_live h \<and> h_phase h c \<noteq> Idle \<and> h_phase h c \<noteq> Fetching \<and> h_phase h c \<noteq> Gone
        \<and> h_bot h c = h_subject h s"
    and "h_phase h c = Streaming (Some s) \<Longrightarrow> connected h c \<Longrightarrow> h_active h (h_bot h c) = Some s \<and> c \<in> h_clients h s"
    and "h_phase h c = Returned (Some s) \<Longrightarrow> h_active h (h_bot h c) = Some s"
    and "h_phase h c = Creating (Some s, x) \<Longrightarrow> h_active h (h_bot h c) = Some s"
    and "between_awaits (h_phase h c) \<Longrightarrow> connected h c"
    and "h_phase h c = Idle \<or> h_phase h c = Fetching \<Longrightarrow> c \<notin> h_ended h"
  using assms unfolding hub_inv_def by blast+

lemma hub_inv_start: "hub_inv (hub_start of_client)"
  by (rule hub_invI) (simp_all add: hub_start_def between_awaits_def)

lemma set_phase_sel [simp]:
  "h_active (set_phase c p h) = h_active h" "h_clients (set_phase c p h) = h_clients h" "h_live (set_phase c p h) = h_live h"
  "h_subject (set_phase c p h) = h_subject h" "h_next (set_phase c p h) = h_next h" "h_bot (set_phase c p h) = h_bot h"
  "h_phase (set_phase c p h) = (h_phase h)(c := p)" "h_disconnected (set_phase c p h) = h_disconnected h"
  "h_ended (set_phase c p h) = h_ended h" "h_pending (set_phase c p h) = h_pending h" "h_sent (set_phase c p h) = h_sent h"
  "connected (set_phase c p h) d = connected h d"
  by (simp_all add: set_phase_def connected_def)

text \<open>What removing a client does.\<close>

definition last_client :: "nat \<Rightarrow> string \<Rightarrow> hub \<Rightarrow> bool" where
  "last_client c b h \<longleftrightarrow> (\<exists>s. h_active h b = Some s \<and> h_clients h s - {c} = {})"

lemma remove_sel [simp]:
  "h_subject (removeStaleClient c b h) = h_subject h" "h_next (removeStaleClient c b h) = h_next h"
  "h_bot (removeStaleClient c b h) = h_bot h" "h_phase (removeStaleClient c b h) = h_phase h"
  "h_disconnected (removeStaleClient c b h) = h_disconnected h" "h_ended (removeStaleClient c b h) = h_ended h"
  "h_pending (removeStaleClient c b h) = h_pending h" "h_sent (removeStaleClient c b h) = h_sent h"
  "connected (removeStaleClient c b h) d = connected h d"
  "h_active (removeStaleClient c b h) = (if last_client c b h then (h_active h)(b := None) else h_active h)"
  "h_live (removeStaleClient c b h) = (if last_client c b h then h_live h - {the (h_active h b)} else h_live h)"
  "h_clients (removeStaleClient c b h) = (case h_active h b of None \<Rightarrow> h_clients h
     | Some s \<Rightarrow> (h_clients h)(s := h_clients h s - {c}))"
  by (auto simp: removeStaleClient_def unsubscribe_def last_client_def connected_def Let_def split: option.split)

text \<open>A subscription loses clients that need no updates, and one that has no reason to stay is given up.\<close>

lemma hub_inv_shrink:
  assumes inv: "hub_inv h" and A: "A \<subseteq> h_clients h s" "A \<noteq> {}"
    and gone: "\<And>d. d \<in> h_clients h s \<Longrightarrow> d \<notin> A \<Longrightarrow> h_phase h d = Streaming (Some s) \<Longrightarrow> \<not> connected h d"
  shows "hub_inv (h\<lparr>h_clients := (h_clients h)(s := A)\<rparr>)"
proof -
  note D = hub_invD [OF inv]
  define h1 where "h1 = h\<lparr>h_clients := (h_clients h)(s := A)\<rparr>"
  have sel: "h_active h1 = h_active h" "h_live h1 = h_live h" "h_clients h1 = (h_clients h)(s := A)" "h_subject h1 = h_subject h" "h_next h1 = h_next h"
    "h_bot h1 = h_bot h" "h_phase h1 = h_phase h" "h_ended h1 = h_ended h" "connected h1 = connected h"
    by (simp_all add: h1_def fun_eq_iff connected_def)
  have "hub_inv h1"
  proof (rule hub_invI; unfold sel)
    fix b t assume "h_active h b = Some t"
    then show "t \<in> h_live h \<and> h_subject h t = b \<and> ((h_clients h)(s := A)) t \<noteq> {}" using D(1) [of b t] A(2) by auto
  next
    fix t d assume "d \<in> ((h_clients h)(s := A)) t"
    then show "t \<in> h_live h \<and> h_phase h d \<noteq> Idle \<and> h_phase h d \<noteq> Fetching \<and> h_phase h d \<noteq> Gone \<and> h_bot h d = h_subject h t"
      using D(3) [of d t] A(1) by (auto split: if_splits)
  next
    fix d t assume "h_phase h d = Streaming (Some t)" "connected h d"
    then show "h_active h (h_bot h d) = Some t \<and> d \<in> ((h_clients h)(s := A)) t" using D(4) [of d t] gone by auto
  qed (use D(2,5-8) in blast)+
  then show ?thesis by (simp add: h1_def)
qed

lemma hub_inv_drop:
  assumes inv: "hub_inv h" and s: "s \<in> h_live h"
    and free: "\<And>d. h_phase h d = Streaming (Some s) \<Longrightarrow> \<not> connected h d" "\<And>d. h_phase h d \<noteq> Returned (Some s)" "\<And>d x. h_phase h d \<noteq> Creating (Some s, x)"
  shows "hub_inv (unsubscribe (h_subject h s) s (h\<lparr>h_clients := (h_clients h)(s := {})\<rparr>))"
proof -
  note D = hub_invD [OF inv]
  have active: "h_active h (h_subject h s) = Some s" using D(2) [OF s] by simp
  define h1 where "h1 = unsubscribe (h_subject h s) s (h\<lparr>h_clients := (h_clients h)(s := {})\<rparr>)"
  have sel: "h_active h1 = (h_active h)(h_subject h s := None)" "h_live h1 = h_live h - {s}" "h_clients h1 = (h_clients h)(s := {})"
    "h_subject h1 = h_subject h" "h_next h1 = h_next h" "h_bot h1 = h_bot h" "h_phase h1 = h_phase h" "h_ended h1 = h_ended h"
    "connected h1 = connected h"
    by (simp_all add: h1_def unsubscribe_def fun_eq_iff connected_def)
  have other: "((h_active h)(h_subject h s := None)) b = Some t" if "h_active h b = Some t" "t \<noteq> s" for b t
    using that active by auto
  have "hub_inv h1"
  proof (rule hub_invI; unfold sel)
    fix b t assume "((h_active h)(h_subject h s := None)) b = Some t"
    then show "t \<in> h_live h - {s} \<and> h_subject h t = b \<and> ((h_clients h)(s := {})) t \<noteq> {}" using D(1) [of b t] by (auto split: if_splits)
  next
    fix t d assume "d \<in> ((h_clients h)(s := {})) t"
    then show "t \<in> h_live h - {s} \<and> h_phase h d \<noteq> Idle \<and> h_phase h d \<noteq> Fetching \<and> h_phase h d \<noteq> Gone \<and> h_bot h d = h_subject h t"
      using D(3) [of d t] by (auto split: if_splits)
  next
    fix d t assume d: "h_phase h d = Streaming (Some t)" "connected h d"
    then show "((h_active h)(h_subject h s := None)) (h_bot h d) = Some t \<and> d \<in> ((h_clients h)(s := {})) t"
      using D(4) [OF d] other [of "h_bot h d" t] free(1) by auto
  qed (use D(2,5-8) other free(2,3) in blast)+
  then show ?thesis by (simp add: h1_def)
qed

lemma hub_inv_remove:
  assumes inv: "hub_inv h" and quiet: "quiet h \<or> h_phase h c = Fetching" and out: "\<not> between_awaits (h_phase h c)"
    and away: "\<And>sub. h_phase h c = Streaming sub \<Longrightarrow> \<not> connected h c"
  shows "hub_inv (removeStaleClient c (h_bot h c) h)" "c \<notin> h_clients (removeStaleClient c (h_bot h c) h) s"
proof -
  note D = hub_invD [OF inv]
  have mine: "h_active h (h_bot h c) = Some t" if "c \<in> h_clients h t" for t
    using D(3) [OF that] D(2) [of t] by metis
  then show "c \<notin> h_clients (removeStaleClient c (h_bot h c) h) s"
    by (auto split: option.split)
  show "hub_inv (removeStaleClient c (h_bot h c) h)"
  proof (cases "h_active h (h_bot h c)")
    case (Some t)
    note t = D(1) [OF Some]
    show ?thesis
    proof (cases "h_clients h t - {c} = {}")
      case True
      then have c: "c \<in> h_clients h t" "quiet h" using t quiet D(3) [of c t] by auto
      have "hub_inv (unsubscribe (h_subject h t) t (h\<lparr>h_clients := (h_clients h)(t := {})\<rparr>))"
      proof (rule hub_inv_drop [OF inv])
        show "\<not> connected h d" if "h_phase h d = Streaming (Some t)" for d using that D(4) [OF that] True away by blast
      qed (use t c(2) in \<open>auto simp: quiet_def between_awaits_def split: phase.splits\<close>)
      then show ?thesis using Some t by (simp add: removeStaleClient_def Let_def True del: Diff_eq_empty_iff)
    next
      case False
      have "hub_inv (h\<lparr>h_clients := (h_clients h)(t := h_clients h t - {c})\<rparr>)" by (rule hub_inv_shrink [OF inv _ False]) (use away in auto)
      then show ?thesis using Some False by (simp add: removeStaleClient_def Let_def)
    qed
  qed (simp add: removeStaleClient_def inv)
qed

lemma hub_inv_phase:
  assumes inv: "hub_inv h"
    and "p = Idle \<or> p = Fetching \<or> p = Gone \<Longrightarrow> \<forall>s. c \<notin> h_clients h s"
    and "\<And>s. p = Streaming (Some s) \<Longrightarrow> connected h c \<Longrightarrow> h_active h (h_bot h c) = Some s \<and> c \<in> h_clients h s"
    and "\<And>s. p = Returned (Some s) \<Longrightarrow> h_active h (h_bot h c) = Some s"
    and "\<And>s x. p = Creating (Some s, x) \<Longrightarrow> h_active h (h_bot h c) = Some s"
    and "between_awaits p \<Longrightarrow> connected h c" "p = Idle \<or> p = Fetching \<Longrightarrow> c \<notin> h_ended h"
  shows "hub_inv (set_phase c p h)"
proof -
  note D = hub_invD [OF inv]
  show ?thesis
    by (rule hub_invI; unfold set_phase_sel)
      (use D assms(2-) in \<open>auto split: if_splits\<close>)
qed

lemma hub_inv_disconnect:
  assumes inv: "hub_inv h" and "\<not> between_awaits (h_phase h c)"
  shows "hub_inv (h\<lparr>h_disconnected := insert c (h_disconnected h)\<rparr>)"
proof -
  note D = hub_invD [OF inv]
  show ?thesis
    by (rule hub_invI) (use D assms(2) in \<open>auto simp: connected_def\<close>)
qed

lemma hub_inv_end:
  assumes inv: "hub_inv h" and "\<not> between_awaits (h_phase h c)" "h_phase h c \<noteq> Idle" "h_phase h c \<noteq> Fetching"
  shows "hub_inv (h\<lparr>h_ended := insert c (h_ended h)\<rparr>)"
proof -
  note D = hub_invD [OF inv]
  show ?thesis
    by (rule hub_invI) (use D assms(2-) in \<open>auto simp: connected_def\<close>)
qed

lemma hub_inv_cleanup:
  assumes "hub_inv h" "quiet h \<or> h_phase h c = Fetching" "\<not> between_awaits (h_phase h c)"
  shows "hub_inv (cleanup_client c h)" "c \<notin> h_clients (cleanup_client c h) s"
proof -
  let ?h = "h\<lparr>h_disconnected := insert c (h_disconnected h)\<rparr>"
  have "hub_inv ?h" by (rule hub_inv_disconnect [OF assms(1,3)])
  moreover have "quiet ?h \<or> h_phase ?h c = Fetching" using assms(2) by (simp add: quiet_def)
  moreover have "\<not> connected ?h c" by (simp add: connected_def)
  ultimately show "hub_inv (cleanup_client c h)" "c \<notin> h_clients (cleanup_client c h) s"
    using hub_inv_remove [of ?h c] assms(3) by (auto simp: cleanup_client_def)
qed

lemma hub_inv_sent: "hub_inv (h\<lparr>h_sent := x\<rparr>) = hub_inv h" "hub_inv (h\<lparr>h_pending := y\<rparr>) = hub_inv h"
  "hub_inv (set_phase c p (h\<lparr>h_pending := y\<rparr>)) = hub_inv (set_phase c p h)"
  by (simp_all add: hub_inv_def connected_def)

text \<open>A new subscription, and the request that creates it.\<close>

lemma hub_inv_new:
  assumes inv: "hub_inv h" and none: "h_active h (h_bot h c) = None" and c: "h_phase h c = Fetching" "connected h c"
  shows "hub_inv (set_phase c (Creating (Some (h_next h), False)) (snd (createSubscription True c h)))"
proof -
  note D = hub_invD [OF inv]
  define s where "s = h_next h"
  have fresh: "s \<notin> h_live h" using D(2) [of s] by (auto simp: s_def)
  have old: "h_bot h c \<noteq> h_subject h t" if "t \<in> h_live h" for t using D(2) [OF that] none by auto
  define h1 where "h1 = set_phase c (Creating (Some s, False)) (snd (createSubscription True c h))"
  have sel: "h_active h1 = (h_active h)(h_bot h c := Some s)" "h_live h1 = insert s (h_live h)" "h_next h1 = Suc s"
    "h_subject h1 = (h_subject h)(s := h_bot h c)" "h_clients h1 = (h_clients h)(s := {c})" "h_bot h1 = h_bot h"
    "h_phase h1 = (h_phase h)(c := Creating (Some s, False))" "h_ended h1 = h_ended h" "connected h1 = connected h"
    by (simp_all add: h1_def createSubscription_def Let_def s_def fun_eq_iff connected_def)
  have "hub_inv h1"
  proof (rule hub_invI)
    fix t assume "t \<in> h_live h1"
    then show "h_active h1 (h_subject h1 t) = Some t \<and> t < h_next h1" using D(2) [of t] old [of t] by (auto simp: sel s_def)
  next
    fix t d assume "d \<in> h_clients h1 t"
    then show "t \<in> h_live h1 \<and> h_phase h1 d \<noteq> Idle \<and> h_phase h1 d \<noteq> Fetching \<and> h_phase h1 d \<noteq> Gone \<and> h_bot h1 d = h_subject h1 t"
      using D(3) [of d t] fresh c by (auto simp: sel split: if_splits)
  next
    fix d t assume "h_phase h1 d = Streaming (Some t)" "connected h1 d"
    then show "h_active h1 (h_bot h1 d) = Some t \<and> d \<in> h_clients h1 t"
      using D(4) [of d t] none fresh D(3) [of d s] by (auto simp: sel split: if_splits)
  next
    fix d t assume "h_phase h1 d = Returned (Some t)"
    then show "h_active h1 (h_bot h1 d) = Some t" using D(5) [of d t] none by (auto simp: sel split: if_splits)
  next
    fix d t x assume "h_phase h1 d = Creating (Some t, x)"
    then show "h_active h1 (h_bot h1 d) = Some t" using D(6) [of d t x] none by (auto simp: sel split: if_splits)
  qed (use D(1,7,8) fresh c(2) in \<open>auto simp: sel split: if_splits\<close>)
  then show ?thesis by (simp add: h1_def s_def)
qed

lemma hub_inv_enter:
  assumes inv: "hub_inv h" and c: "h_phase h c = Fetching" "c \<notin> h_disconnected h"
  shows "hub_inv (getOrCreateSubscription ok c h)"
proof -
  have conn: "connected h c" using hub_invD(8) [OF inv, of c] c by (simp add: connected_def)
  consider s where "h_active h (h_bot h c) = Some s" | r where "h_active h (h_bot h c) = None" "h_pending h (h_bot h c) = Some r"
    | "h_active h (h_bot h c) = None" "h_pending h (h_bot h c) = None" by fastforce
  then show ?thesis
  proof cases
    case (1 s)
    have "hub_inv (set_phase c (Returned (Some s)) h)" by (rule hub_inv_phase [OF inv]) (use conn 1 in auto)
    then show ?thesis using 1 by (simp add: getOrCreateSubscription_def Let_def)
  next
    case (2 r)
    have "hub_inv (set_phase c (Waiting r) h)" by (rule hub_inv_phase [OF inv]) (use conn in auto)
    then show ?thesis using 2 by (simp add: getOrCreateSubscription_def Let_def)
  next
    case 3
    have failed: "hub_inv (set_phase c (Creating (None, True)) (live_warning c h\<lparr>h_pending := (h_pending h)(h_bot h c := Some (None, True))\<rparr>))"
      by (rule hub_inv_phase) (use conn inv in \<open>auto simp: live_warning_def hub_inv_sent connected_def\<close>)
    show ?thesis using failed hub_inv_new [OF inv 3(1) c(1) conn] 3
      by (cases ok) (simp_all add: getOrCreateSubscription_def createSubscription_def Let_def live_warning_def hub_inv_sent)
  qed
qed

lemma hub_inv_joined:
  assumes inv: "hub_inv h" and c: "h_phase h c = Returned sub" "c \<notin> h_disconnected h"
  shows "hub_inv (setupFanOut c sub h)"
proof -
  note D = hub_invD [OF inv]
  show ?thesis
  proof (cases sub)
    case None
    have "hub_inv (set_phase c (Streaming None) h)" by (rule hub_inv_phase [OF inv]) (auto simp: between_awaits_def)
    then show ?thesis by (simp add: setupFanOut_def None)
  next
    case (Some s)
    then have active: "h_active h (h_bot h c) = Some s" using D(5) c(1) by blast
    have "hub_inv (h\<lparr>h_clients := (h_clients h)(s := insert c (h_clients h s))\<rparr>)"
      by (rule hub_invI) (use D D(1) [OF active] c active in \<open>auto simp: connected_def split: if_splits\<close>)
    then have "hub_inv (set_phase c (Streaming (Some s)) (h\<lparr>h_clients := (h_clients h)(s := insert c (h_clients h s))\<rparr>))"
      by (rule hub_inv_phase) (use active in \<open>auto simp: between_awaits_def\<close>)
    then show ?thesis by (simp add: setupFanOut_def Some)
  qed
qed

lemma hub_inv_message:
  assumes inv: "hub_inv h" and q: "quiet h" and s: "s \<in> h_live h"
  shows "hub_inv (fan_out cs s msg h)"
proof -
  have calm: "h_phase h d \<noteq> Returned x" "h_phase h d \<noteq> Creating y" for d x y
    using q by (auto simp: quiet_def between_awaits_def dest!: spec [of _ d])
  show ?thesis
  proof (cases "h_clients h s - h_ended h = {}")
    case True
    have "h_active h (h_subject h s) = Some s" using hub_invD(2) [OF inv s] by simp
    then have "fan_out cs s msg h = (unsubscribe (h_subject h s) s (h\<lparr>h_clients := (h_clients h)(s := {})\<rparr>))\<lparr>h_sent := h_sent (fan_out cs s msg h)\<rparr>"
      using True by (intro hub.equality) (auto simp: fan_out_def Let_def unsubscribe_def fun_eq_iff)
    moreover have "hub_inv (unsubscribe (h_subject h s) s (h\<lparr>h_clients := (h_clients h)(s := {})\<rparr>))"
    proof (rule hub_inv_drop [OF inv s])
      show "\<not> connected h d" if "h_phase h d = Streaming (Some s)" for d
        using hub_invD(4) [OF inv that] True by (auto simp: connected_def)
    qed (use calm in blast)+
    ultimately show ?thesis using hub_inv_sent(1) by metis
  next
    case False
    then have "fan_out cs s msg h = (h\<lparr>h_clients := (h_clients h)(s := h_clients h s - h_ended h)\<rparr>)\<lparr>h_sent := h_sent (fan_out cs s msg h)\<rparr>"
      by (intro hub.equality) (simp_all add: fan_out_def Let_def del: Diff_eq_empty_iff)
    moreover have "hub_inv (h\<lparr>h_clients := (h_clients h)(s := h_clients h s - h_ended h)\<rparr>)"
      by (rule hub_inv_shrink [OF inv _ False]) (auto simp: connected_def)
    ultimately show ?thesis using hub_inv_sent(1) by metis
  qed
qed

lemma hub_inv_leave:
  assumes "hub_inv h" "quiet h \<or> h_phase h c = Fetching" "\<not> between_awaits (h_phase h c)"
  shows "hub_inv (set_phase c Gone (cleanup_client c h))"
  using hub_inv_cleanup [OF assms] by (intro hub_inv_phase) (auto simp: between_awaits_def)

lemma hub_inv_denied:
  assumes "hub_inv h" "h_phase h c = Fetching"
  shows "hub_inv ((set_phase c Gone h)\<lparr>h_ended := insert c (h_ended h)\<rparr>)"
proof -
  have "hub_inv (set_phase c Gone h)"
    using assms hub_invD(3) [OF assms(1)] by (intro hub_inv_phase) (auto simp: between_awaits_def)
  then have "hub_inv ((set_phase c Gone h)\<lparr>h_ended := insert c (h_ended (set_phase c Gone h))\<rparr>)"
    by (rule hub_inv_end) (simp_all add: between_awaits_def)
  then show ?thesis by simp
qed

lemma hub_inv_continue:
  assumes inv: "hub_inv h"
  shows "h_phase h c = Creating r \<Longrightarrow> hub_inv (set_phase c (Returned (fst r)) (h\<lparr>h_pending := (h_pending h)(h_bot h c := None)\<rparr>))"
    "h_phase h c = Waiting r \<Longrightarrow> hub_inv (resume_waiting c r h)"
proof -
  assume c: "h_phase h c = Creating r"
  have "connected h c" using hub_invD(7) [OF inv, of c] c by (auto simp: between_awaits_def)
  moreover have "h_active h (h_bot h c) = Some s" if "fst r = Some s" for s
    using hub_invD(6) [OF inv, of c s "snd r"] c that by (cases r) auto
  ultimately show "hub_inv (set_phase c (Returned (fst r)) (h\<lparr>h_pending := (h_pending h)(h_bot h c := None)\<rparr>))"
    by (intro hub_inv_phase) (auto simp: connected_def hub_inv_sent inv)
next
  assume w: "h_phase h c = Waiting r"
  have c: "connected h c" using hub_invD(7) [OF inv, of c] w by (auto simp: between_awaits_def)
  have "hub_inv (set_phase c (Returned None) (live_warning c h))"
    by (rule hub_inv_phase) (use inv c in \<open>auto simp: live_warning_def hub_inv_sent connected_def\<close>)
  moreover have "hub_inv (set_phase c (Returned (h_active h (h_bot h c))) h)"
    by (rule hub_inv_phase) (use inv c in auto)
  ultimately show "hub_inv (resume_waiting c r h)" by (simp add: resume_waiting_def)
qed

lemma hub_inv_step:
  assumes "hub_step h h'" "hub_inv h"
  shows "hub_inv h'"
  using assms
proof (induction rule: hub_step.induct)
  case (connect h c)
  then show ?case using hub_invD(3,8) [OF connect.prems] by (intro hub_inv_phase) (auto simp: between_awaits_def)
next
  case (late h c)
  then show ?case by (intro hub_inv_leave) (auto simp: between_awaits_def)
next
  case (dropped h c sub)
  then have "connected h c" using hub_invD(7) [OF dropped.prems, of c] by (auto simp: between_awaits_def)
  then show ?case using dropped by (simp add: connected_def)
next
  case (close_fetching h c)
  then show ?case by (intro hub_inv_cleanup) (auto simp: between_awaits_def)
next
  case (close_streaming h c sub)
  then show ?case by (intro hub_inv_leave) (auto simp: between_awaits_def)
next
  case (close_gone h c)
  then show ?case by (intro hub_inv_cleanup) (auto simp: between_awaits_def)
next
  case (broken h c sub)
  then show ?case by (intro hub_inv_end) (auto simp: between_awaits_def)
next
  case (keepalive h c sub)
  then show ?case by (intro hub_inv_remove) (auto simp: between_awaits_def connected_def)
qed (simp_all add: hub_inv_denied hub_inv_enter hub_inv_continue hub_inv_joined hub_inv_message)

lemma hub_run_inv: "hub_run of_client h \<Longrightarrow> hub_inv h"
  by (induction rule: hub_run.induct) (simp_all add: hub_inv_start hub_inv_step)

section \<open>What the invariant gives\<close>

text \<open>Two clients of one bot arrive together.\<close>

definition two_clients :: "bool \<Rightarrow> hub" where
  "two_clients ok = getOrCreateSubscription ok 1 (getOrCreateSubscription ok 0 (set_phase 1 Fetching (set_phase 0 Fetching (hub_start (\<lambda>_. ''b'')))))"

lemma two_clients_run: "hub_run (\<lambda>_. ''b'') (two_clients ok)"
proof -
  have "hub_run (\<lambda>_. ''b'') (set_phase 0 Fetching (hub_start (\<lambda>_. ''b'')))"
    by (rule run_step [OF run_start connect]) (simp add: hub_start_def)
  then have "hub_run (\<lambda>_. ''b'') (set_phase 1 Fetching (set_phase 0 Fetching (hub_start (\<lambda>_. ''b''))))"
    by (rule run_step [OF _ connect]) (simp add: hub_start_def)
  then have "hub_run (\<lambda>_. ''b'') (getOrCreateSubscription ok 0 (set_phase 1 Fetching (set_phase 0 Fetching (hub_start (\<lambda>_. ''b'')))))"
    by (rule run_step [OF _ enter]) (simp_all add: hub_start_def)
  then show ?thesis
    unfolding two_clients_def by (rule run_step [OF _ enter])
      (simp_all add: hub_start_def getOrCreateSubscription_def createSubscription_def Let_def live_warning_def)
qed

lemmas hub_eval = two_clients_def hub_start_def getOrCreateSubscription_def createSubscription_def Let_def live_warning_def
  resume_waiting_def setupFanOut_def

definition two_streaming :: "bool \<Rightarrow> hub" where
  "two_streaming ok = (let sub = (if ok then Some 0 else None);
      h1 = set_phase 0 (Returned sub) ((two_clients ok)\<lparr>h_pending := (h_pending (two_clients ok))(''b'' := None)\<rparr>);
      h2 = (if ok then h1 else resume_waiting 1 (None, True) h1)
    in setupFanOut 1 sub (setupFanOut 0 sub h2))"

lemma two_streaming_run: "hub_run (\<lambda>_. ''b'') (two_streaming ok)"
proof -
  define sub :: "nat option" where "sub = (if ok then Some 0 else None)"
  define h1 where "h1 = set_phase 0 (Returned sub) ((two_clients ok)\<lparr>h_pending := (h_pending (two_clients ok))(''b'' := None)\<rparr>)"
  define h2 where "h2 = (if ok then h1 else resume_waiting 1 (None, True) h1)"
  have "h_phase (two_clients ok) 0 = Creating (sub, \<not> ok)" "h_bot (two_clients ok) 0 = ''b''"
    by (simp_all add: hub_eval sub_def)
  then have 1: "hub_run (\<lambda>_. ''b'') h1"
    unfolding h1_def using run_step [OF two_clients_run created, of ok 0 "(sub, \<not> ok)"] by simp
  have "\<not> ok \<Longrightarrow> h_phase h1 1 = Waiting (None, True)" by (simp add: h1_def hub_eval)
  then have 2: "hub_run (\<lambda>_. ''b'') h2" unfolding h2_def using 1 run_step [OF 1 waited] by simp
  have p: "h_phase h2 0 = Returned sub" "h_phase h2 1 = Returned sub" "h_disconnected h2 = {}"
    by (simp_all add: h2_def h1_def hub_eval sub_def)
  have 3: "hub_run (\<lambda>_. ''b'') (setupFanOut 0 sub h2)" by (rule run_step [OF 2 joined]) (simp_all add: p)
  have "hub_run (\<lambda>_. ''b'') (setupFanOut 1 sub (setupFanOut 0 sub h2))"
    by (rule run_step [OF 3 joined]) (simp_all add: setupFanOut_def p p(2) [simplified] split: option.split)
  then show ?thesis by (simp only: two_streaming_def Let_def sub_def h1_def h2_def)
qed

lemma two_streaming_state:
  "h_phase (two_streaming True) 0 = Streaming (Some 0)" "h_phase (two_streaming True) 1 = Streaming (Some 0)"
  "connected (two_streaming True) 0" "h_live (two_streaming True) = {0}" "h_clients (two_streaming True) 0 = {0, 1}"
  "h_sent (two_streaming True) = []"
  by (auto simp: two_streaming_def hub_eval connected_def)

text \<open>C25. In every state that a process can reach, there is at most one NATS subscription per bot, each one
  is in the map and has a client (none is leaked), and a client that streams and is connected is
  served by the subscription of its bot: none is left behind on a cancelled one.\<close>

theorem fan_out_consistent:
  assumes "hub_run of_client h"
  shows "(\<forall>s\<in>h_live h. h_active h (h_subject h s) = Some s \<and> h_clients h s \<noteq> {})
    \<and> (\<forall>s\<in>h_live h. \<forall>t\<in>h_live h. h_subject h s = h_subject h t \<longrightarrow> s = t)
    \<and> (\<forall>c s. h_phase h c = Streaming (Some s) \<and> connected h c \<longrightarrow>
         s \<in> h_live h \<and> h_subject h s = h_bot h c \<and> c \<in> h_clients h s)"
proof -
  note D = hub_invD [OF hub_run_inv [OF assms]]
  show ?thesis
  proof (intro conjI ballI allI impI)
    fix s assume s: "s \<in> h_live h"
    have active: "h_active h (h_subject h s) = Some s" by (rule conjunct1 [OF D(2) [OF s]])
    then show "h_active h (h_subject h s) = Some s" .
    show "h_clients h s \<noteq> {}" by (rule conjunct2 [OF conjunct2 [OF D(1) [OF active]]])
  next
    fix s t assume "s \<in> h_live h" "t \<in> h_live h" "h_subject h s = h_subject h t"
    then have "Some s = Some t" by (metis D(2))
    then show "s = t" by (rule option.inject [THEN iffD1])
  next
    fix c s assume "h_phase h c = Streaming (Some s) \<and> connected h c"
    then have c: "h_active h (h_bot h c) = Some s \<and> c \<in> h_clients h s" by (elim conjE) (rule D(4))
    note active = conjunct1 [OF c] conjunct2 [OF c]
    show "s \<in> h_live h" by (rule conjunct1 [OF D(1) [OF active(1)]])
    show "h_subject h s = h_bot h c" by (rule conjunct1 [OF conjunct2 [OF D(1) [OF active(1)]]])
    show "c \<in> h_clients h s" by (rule active)
  qed
qed

theorem fan_out_consistent_witness:
  "0 \<in> h_live (two_streaming True) \<and> h_subject (two_streaming True) 0 = h_bot (two_streaming True) 1
    \<and> 1 \<in> h_clients (two_streaming True) 0"
proof -
  have "h_phase (two_streaming True) 1 = Streaming (Some 0) \<and> connected (two_streaming True) 1"
    by (simp add: two_streaming_state) (simp add: two_streaming_def hub_eval connected_def)
  then show ?thesis using fan_out_consistent [OF two_streaming_run [of True]] by meson
qed

text \<open>A message of a bot reaches every client that streams it and is connected, once.\<close>

theorem message_reaches_all:
  assumes "hub_run of_client h" "h_phase h c = Streaming (Some s)" "connected h c" "set cs = h_clients h s" "distinct cs"
  shows "filter (\<lambda>m. fst m = c) (h_sent (fan_out cs s msg h)) = filter (\<lambda>m. fst m = c) (h_sent h) @ [(c, SseUpdate msg)]"
proof -
  have "c \<in> h_clients h s" using hub_invD(4) [OF hub_run_inv [OF assms(1)] assms(2,3)] by simp
  then have mem: "c \<in> set (filter (\<lambda>c. c \<notin> h_ended h) cs)" using assms(3,4) by (simp add: connected_def)
  have one: "filter (\<lambda>m. fst m = c) (map (\<lambda>c. (c, SseUpdate msg)) l) = [(c, SseUpdate msg)]" if "distinct l" "c \<in> set l" for l
    using that by (induction l) (auto simp: filter_empty_conv)
  have "h_sent (fan_out cs s msg h) = h_sent h @ map (\<lambda>c. (c, SseUpdate msg)) (filter (\<lambda>c. c \<notin> h_ended h) cs)"
    by (simp add: fan_out_def Let_def unsubscribe_def split: option.split)
  then show ?thesis using one [OF _ mem] assms(5) by simp
qed

theorem message_reaches_all_witness:
  "filter (\<lambda>m. fst m = 0) (h_sent (fan_out [1, 0] 0 ''up'' (two_streaming True))) = [(0, SseUpdate ''up'')]"
  using message_reaches_all [OF two_streaming_run two_streaming_state(1,3), of "[1, 0]" "''up''"]
  by (auto simp: two_streaming_state)

text \<open>When NATS refuses the subscription, the client whose request created it is warned; a client that
  waited for the same creation streams nothing and is not told.\<close>

theorem waiter_not_warned:
  "hub_run (\<lambda>_. ''b'') (two_streaming False) \<and> h_phase (two_streaming False) 1 = Streaming None
    \<and> connected (two_streaming False) 1 \<and> h_sent (two_streaming False) = [(0, SseWarning ''Live streaming unavailable'')]"
  using two_streaming_run [of False] by (simp add: two_streaming_def hub_eval connected_def)

end
