(* ===== verification/BotQuery.thy ===== *)
theory BotQuery
  imports LogPages
begin

text \<open>
  api/src/bot-query: a query is forwarded to the bot runtime, which answers a JSON object, refuses, or
  takes too long. The runtime is the parameter \<open>runtime_answer\<close>; the call can fail as well. Sending the
  query and reading the body are one external call each.
\<close>

section \<open>The service\<close>

datatype query_error_code = QUERY_BOT_NOT_FOUND | QUERY_FAILED | RUNTIME_UNAVAILABLE | QUERY_TIMEOUT | INVALID_RESPONSE

type_synonym query_error = "query_error_code \<times> string"

record query_result =
  qr_status :: json
  qr_data :: json
  qr_error :: json
  qr_duration :: json
  qr_timestamp :: json

text \<open>\<open>x || d\<close> on a JSON value.\<close>

definition json_or :: "json \<Rightarrow> json \<Rightarrow> json" where
  "json_or v d = (if json_truthy v then v else d)"

definition timeout_seconds :: "rat option \<Rightarrow> rat" where
  "timeout_seconds t = (case t of None \<Rightarrow> 30 | Some s \<Rightarrow> if s = 0 then 30 else s)"

text \<open>\<open>setTimeout\<close> in Node: a delay below one millisecond or above 2 to the 31 minus 1 becomes one.\<close>

definition timer_ms :: "rat \<Rightarrow> nat" where
  "timer_ms ms = (if 1 \<le> ms \<and> ms \<le> 2147483647 then nat \<lfloor>ms\<rfloor> else 1)"

text \<open>The rejection of a fetch that was aborted; its name stands in the place of the code.\<close>

definition abort_error :: js_error where
  "abort_error = Err (Some ''AbortError'') ''This operation was aborted'' None"

definition refused :: "js_error \<Rightarrow> bool" where
  "refused e \<longleftrightarrow> error_code e = Some ''ECONNREFUSED''
     \<or> (case e of Err _ _ (Some cause) \<Rightarrow> error_code cause = Some ''ECONNREFUSED'' | _ \<Rightarrow> False)"

definition send_query :: "server \<Rightarrow> string \<Rightarrow> string \<Rightarrow> js_object \<Rightarrow> rat option \<Rightarrow> (world, nat \<times> string) io" where
  "send_query sv botId path params timeoutSec = external (\<lambda>w.
     case runtime_answer sv botId path params (timeout_seconds timeoutSec) of (delay, r) \<Rightarrow>
       if delay \<ge> timer_ms (timeout_seconds timeoutSec * 1000) then (Inl abort_error, w)
       else (case r of FetchFails e \<Rightarrow> (Inl e, w) | Answered status body \<Rightarrow> (Inr (status, body), w)))"

definition read_body :: "string \<Rightarrow> (world, string) io" where
  "read_body body = external (io_return body)"

definition query_failure :: "query_error_code \<Rightarrow> string \<Rightarrow> (world, ('a, query_error) result) io" where
  "query_failure code msg = io_return (Failure (code, msg))"

text \<open>\<open>response.json()\<close> and the reading of its properties, which null has none of; the engine's wording of
  the two errors is left out.\<close>

definition parse_answer :: "server \<Rightarrow> string \<Rightarrow> (world, json) io" where
  "parse_answer sv body = (case json_parse sv body of
      None \<Rightarrow> io_throw (plain_error ''invalid JSON'')
    | Some v \<Rightarrow> if v = JNull then io_throw (plain_error ''null has no properties'') else io_return v)"

definition query_answer :: "server \<Rightarrow> nat \<times> string \<Rightarrow> (world, (query_result, query_error) result) io" where
  "query_answer sv response = (case response of (status, body) \<Rightarrow>
     if \<not> (200 \<le> status \<and> status \<le> 299) then io_bind (read_body body) (\<lambda>errorText.
       if status = 404 then query_failure QUERY_BOT_NOT_FOUND ''Bot not found in runtime''
       else query_failure QUERY_FAILED (''Query failed: '' @ errorText))
     else io_bind (read_body body) (\<lambda>text. io_bind (parse_answer sv text) (\<lambda>r. io_bind js_now (\<lambda>now.
       io_return (Ok \<lparr>qr_status = json_or (json_prop r ''status'') (JStr ''ok''), qr_data = json_prop r ''data'',
         qr_error = json_prop r ''error'', qr_duration = json_or (json_prop r ''duration'') (JNum 0),
         qr_timestamp = json_or (json_prop r ''timestamp'') (JStr (iso_text now))\<rparr>)))))"

definition query_catch :: "server \<Rightarrow> rat option \<Rightarrow> js_error \<Rightarrow> (world, (query_result, query_error) result) io" where
  "query_catch sv timeoutSec e =
     (if error_code e = Some ''AbortError''
      then query_failure QUERY_TIMEOUT (''Query timed out after '' @ number_text sv (timeout_seconds timeoutSec) @ '' seconds'')
      else if refused e
      then query_failure RUNTIME_UNAVAILABLE ''Bot runtime is not available. Ensure the bot-runner service is running.''
      else query_failure QUERY_FAILED (''Query failed: '' @ errorMessage e))"

definition executeQuery :: "server \<Rightarrow> string \<Rightarrow> string \<Rightarrow> string \<Rightarrow> js_object option \<Rightarrow> rat option \<Rightarrow>
    (world, (query_result, query_error) result) io" where
  "executeQuery sv uid botId queryPath params timeoutSec = io_bind (bot_findOne uid botId) (\<lambda>botResult. case botResult of
      Failure _ \<Rightarrow> query_failure QUERY_BOT_NOT_FOUND ''Bot not found or access denied''
    | Ok _ \<Rightarrow> io_catch (io_bind (send_query sv botId queryPath (case params of None \<Rightarrow> [] | Some p \<Rightarrow> p) timeoutSec) (query_answer sv))
        (query_catch sv timeoutSec))"

section \<open>The controller\<close>

definition query_http :: "query_error \<Rightarrow> js_error" where
  "query_http e = (case e of (code, msg) \<Rightarrow> (case code of
      QUERY_BOT_NOT_FOUND \<Rightarrow> Http 404 ''Bot not found or access denied''
    | RUNTIME_UNAVAILABLE \<Rightarrow> Http 503 msg
    | QUERY_TIMEOUT \<Rightarrow> Http 504 msg
    | _ \<Rightarrow> Http 400 (or_else (Some msg) ''Query failed'')))"

definition post_query :: "server \<Rightarrow> authenticated_user \<Rightarrow> string \<Rightarrow> string \<Rightarrow> js_object option \<Rightarrow> rat option \<Rightarrow> (world, query_result) io" where
  "post_query sv user botId query_path params timeout_sec =
     (if query_path = [] then io_throw (Http 400 ''query_path is required'')
      else io_bind (executeQuery sv (au_uid user) botId
             (if js_starts_with query_path ''/'' then query_path else CHR ''/'' # query_path) params timeout_sec) (\<lambda>r. case r of
           Ok x \<Rightarrow> io_return x | Failure e \<Rightarrow> io_throw (query_http e)))"

section \<open>Facts\<close>

lemma executeQuery_never_rejects: "never_rejects (executeQuery sv uid botId p ps t)"
proof -
  have "never_rejects (query_catch sv t e)" for e
    by (simp add: query_catch_def query_failure_def never_rejects_return)
  then have "never_rejects (io_catch m (query_catch sv t))" for m by (rule never_rejects_catch)
  moreover have "never_rejects (bot_findOne uid botId)" unfolding bot_findOne_def by (rule role_never_rejects)
  ultimately show ?thesis
    unfolding executeQuery_def query_failure_def
    by (intro never_rejects_bind) (auto intro: never_rejects_return split: result.split)
qed

lemma query_owner:
  assumes "executeQuery sv uid botId p ps t w = (Inr (Ok r), w')"
  shows "\<exists>b\<in>set (bots w). bot_id b = botId \<and> bot_userId b = uid"
proof -
  obtain b w1 where "bot_findOne uid botId w = (Inr (Ok b), w1)"
    using assms by (auto simp: executeQuery_def query_failure_def elim!: io_bind_InrE split: result.splits)
  then show ?thesis using instances.findOne_sound by (fastforce simp: bot_findOne_def)
qed

lemma query_keeps:
  assumes "env_free I"
  shows "preserves I (executeQuery sv uid botId p ps t)"
proof -
  note rules = preserves_catch preserves_bind preserves_if preserves_return preserves_throw preserves_now [OF assms] preserves_result
  have pure: "preserves I (send_query sv botId p q t)" "preserves I (read_body b)" for q b
    unfolding send_query_def read_body_def
    by (rule preserves_external [OF assms], simp add: preserves_def io_return_def split: prod.split fetch_result.split)+
  have "preserves I (parse_answer sv b)" for b
    by (auto simp: parse_answer_def intro!: rules split: option.split)
  then have "preserves I (query_answer sv r)" for r
    unfolding query_answer_def query_failure_def by (auto intro!: rules pure split: prod.split)
  moreover have "preserves I (query_catch sv t e)" for e
    unfolding query_catch_def query_failure_def by (intro rules)
  moreover have "preserves I (bot_findOne uid botId)" unfolding bot_findOne_def by (rule bot_reads_keep(3) [OF assms])
  ultimately show ?thesis
    unfolding executeQuery_def query_failure_def by (intro rules pure)
qed

lemma answered_in_time:
  assumes "faults w = []"
  obtains x where "fst (io_catch (query_answer sv (status, body)) (query_catch sv t) w) = Inr (Ok x)"
  | code msg where "fst (io_catch (query_answer sv (status, body)) (query_catch sv t) w) = Inr (Failure (code, msg))" "code \<noteq> QUERY_TIMEOUT"
proof -
  have calm: "read_body x w = (Inr x, w)" for x using assms by (simp add: read_body_def external_calm)
  obtain c w1 where now: "js_now w = (Inr c, w1)" using js_now_run by metis
  have plain: "\<not> refused (plain_error m)" "error_code (plain_error m) = None" for m by (simp_all add: refused_def plain_error_def)
  show thesis
  proof (cases "200 \<le> status \<and> status \<le> 299")
    case False
    then have "fst (io_catch (query_answer sv (status, body)) (query_catch sv t) w) = Inr (Failure
        (if status = 404 then (QUERY_BOT_NOT_FOUND, ''Bot not found in runtime'') else (QUERY_FAILED, ''Query failed: '' @ body)))"
      by (auto simp: io_catch_run io_bind_run query_answer_def calm query_failure_def)
    then show thesis using that(2) by (cases "status = 404") auto
  next
    case True
    show thesis
    proof (cases "json_parse sv body = None \<or> json_parse sv body = Some JNull")
      case True
      then have "\<exists>m. parse_answer sv body w = (Inl (plain_error m), w)" by (auto simp: parse_answer_def)
      then obtain m where "parse_answer sv body w = (Inl (plain_error m), w)" ..
      then have "fst (io_catch (query_answer sv (status, body)) (query_catch sv t) w)
          = Inr (Failure (QUERY_FAILED, ''Query failed: '' @ errorMessage (plain_error m)))"
        using \<open>200 \<le> status \<and> status \<le> 299\<close>
        by (simp add: io_catch_run io_bind_run query_answer_def calm query_catch_def plain query_failure_def)
      then show thesis using that(2) by simp
    next
      case False
      then obtain v where "parse_answer sv body w = (Inr v, w)" by (auto simp: parse_answer_def)
      then have "\<exists>x. fst (io_catch (query_answer sv (status, body)) (query_catch sv t) w) = Inr (Ok x)"
        using \<open>200 \<le> status \<and> status \<le> 299\<close> by (simp add: io_catch_run io_bind_run query_answer_def calm now)
      then show thesis using that(1) by blast
    qed
  qed
qed

text \<open>Without failures of other calls, the caller of a query is told of a timeout exactly when the
  runtime takes at least as long as the timer: the timeout asked for in seconds while it is between
  a millisecond and 2147483.647 seconds, and one millisecond otherwise.\<close>

theorem query_timeout_iff:
  assumes "faults w = []" "reads_own (au_uid user) botId w" "query_path \<noteq> []"
    and "runtime_answer sv botId (if js_starts_with query_path ''/'' then query_path else CHR ''/'' # query_path)
       (case params of None \<Rightarrow> [] | Some p \<Rightarrow> p) (timeout_seconds timeout_sec) = (delay, Answered status body)"
  shows "(\<exists>msg. fst (post_query sv user botId query_path params timeout_sec w) = Inl (Http 504 msg))
    \<longleftrightarrow> timer_ms (timeout_seconds timeout_sec * 1000) \<le> delay"
proof -
  define path where "path = (if js_starts_with query_path ''/'' then query_path else CHR ''/'' # query_path)"
  obtain b where b: "bot_findOne (au_uid user) botId w = (Inr (Ok b), w)" using findOne_own [OF assms(1,2)] by blast
  have calm: "read_body x w = (Inr x, w)" for x using assms(1) by (simp add: read_body_def external_calm)
  have sent: "send_query sv botId path (case params of None \<Rightarrow> [] | Some p \<Rightarrow> p) timeout_sec w =
      (if timer_ms (timeout_seconds timeout_sec * 1000) \<le> delay then (Inl abort_error, w) else (Inr (status, body), w))"
    using assms(1,4) by (simp add: send_query_def external_calm path_def)
  have post: "fst (post_query sv user botId query_path params timeout_sec w) =
      (case fst (executeQuery sv (au_uid user) botId path params timeout_sec w) of
         Inl e \<Rightarrow> Inl e | Inr (Ok x) \<Rightarrow> Inr x | Inr (Failure e) \<Rightarrow> Inl (query_http e))"
    using assms(3) by (simp add: post_query_def io_bind_run path_def [symmetric] split: prod.split sum.split result.split)
  show ?thesis
  proof (cases "timer_ms (timeout_seconds timeout_sec * 1000) \<le> delay")
    case True
    then show ?thesis
      by (simp add: post executeQuery_def io_bind_run b io_catch_run sent query_catch_def abort_error_def query_failure_def query_http_def)
  next
    case False
    have "fst (executeQuery sv (au_uid user) botId path params timeout_sec w) =
        fst (io_catch (query_answer sv (status, body)) (query_catch sv timeout_sec) w)"
      using False by (simp add: executeQuery_def io_bind_run b io_catch_run sent)
    then show ?thesis
      using False by (rule_tac answered_in_time [OF assms(1), of sv status body timeout_sec])
        (simp_all add: post query_http_def split: query_error_code.split)
  qed
qed

text \<open>A query of 30 seconds whose answer takes 5 milliseconds.\<close>

theorem query_timeout_iff_witness:
  "\<not> (\<exists>msg. fst (post_query demo_server demo_ann ''id0'' ''status'' None None demo_logs) = Inl (Http 504 msg))"
proof -
  have "runtime_answer demo_server ''id0'' (if js_starts_with ''status'' ''/'' then ''status'' else CHR ''/'' # ''status'')
      (case None of None \<Rightarrow> [] | Some p \<Rightarrow> p) (timeout_seconds None) = (5, Answered 200 ''ok'')"
    by (simp add: demo_server_def)
  moreover have "faults demo_logs = []" using demo_good by (simp add: good_store_def)
  moreover have "reads_own (au_uid demo_ann) ''id0'' demo_logs" using demo_reads by (simp add: demo_ann_def)
  ultimately have "(\<exists>msg. fst (post_query demo_server demo_ann ''id0'' ''status'' None None demo_logs) = Inl (Http 504 msg))
      \<longleftrightarrow> timer_ms (timeout_seconds None * 1000) \<le> 5"
    by (intro query_timeout_iff) simp_all
  then show ?thesis by (simp add: timeout_seconds_def timer_ms_def)
qed

end
