(* ===== verification/Mcp.thy ===== *)
theory Mcp
  imports BotQuery ApiKeys CustomBots
begin

text \<open>
  api/src/mcp: the JSON-RPC endpoint for agents. A tool works on the repositories and services of the
  other components on behalf of the owner of the API key. Arguments have the types of mcp.types.ts:
  an argument of another type reads as missing. A result is a value of its own type, which the code
  prints as JSON text.
\<close>

section \<open>The tools\<close>

text \<open>The two lists of tools, of the service and of the controller: name, arguments with their types, and the
  required arguments. The descriptions are left out.\<close>

record tool =
  tool_name :: string
  tool_properties :: "(string \<times> string) list"
  tool_required :: "string list"

definition strings :: "string list \<Rightarrow> (string \<times> string) list" where
  "strings = map (\<lambda>k. (k, ''string''))"

definition bot_tools :: "tool list" where
  "bot_tools = [\<lparr>tool_name = ''auth_status'', tool_properties = [], tool_required = []\<rparr>,
     \<lparr>tool_name = ''bot_list'', tool_properties = [], tool_required = []\<rparr>,
     \<lparr>tool_name = ''bot_get'', tool_properties = strings [''bot_id''], tool_required = [''bot_id'']\<rparr>]"

definition other_tools :: "tool list" where
  "other_tools =
     [\<lparr>tool_name = ''bot_update'', tool_properties = strings [''bot_id'', ''name''] @ [(''config'', ''object'')],
         tool_required = [''bot_id'', ''config'']\<rparr>,
      \<lparr>tool_name = ''bot_delete'', tool_properties = strings [''bot_id''], tool_required = [''bot_id'']\<rparr>,
      \<lparr>tool_name = ''logs_get'', tool_properties = strings [''bot_id'', ''date'', ''date_range''] @ [(''limit'', ''number'')],
         tool_required = [''bot_id'']\<rparr>,
      \<lparr>tool_name = ''logs_summary'', tool_properties = strings [''bot_id''], tool_required = [''bot_id'']\<rparr>,
      \<lparr>tool_name = ''bot_state_list'', tool_properties = strings [''bot_id''], tool_required = [''bot_id'']\<rparr>,
      \<lparr>tool_name = ''bot_state_get'', tool_properties = strings [''bot_id'', ''key''], tool_required = [''bot_id'', ''key'']\<rparr>,
      \<lparr>tool_name = ''bot_query'',
         tool_properties = strings [''bot_id'', ''query_path''] @ [(''params'', ''object''), (''timeout_sec'', ''number'')],
         tool_required = [''bot_id'', ''query_path'']\<rparr>,
      \<lparr>tool_name = ''custom_bot_list'', tool_properties = [], tool_required = []\<rparr>,
      \<lparr>tool_name = ''custom_bot_get'', tool_properties = strings [''name'', ''version''], tool_required = [''name'']\<rparr>,
      \<lparr>tool_name = ''custom_bot_schema'', tool_properties = strings [''name'', ''version''], tool_required = [''name'']\<rparr>]"

definition service_tools :: "tool list" where
  "service_tools = bot_tools @
     [\<lparr>tool_name = ''bot_deploy'', tool_properties = [(''config'', ''object'')], tool_required = [''config'']\<rparr>] @ other_tools"

definition controller_tools :: "tool list" where
  "controller_tools = bot_tools @
     [\<lparr>tool_name = ''bot_deploy'', tool_properties = [(''name'', ''string''), (''config'', ''object'')],
        tool_required = [''name'', ''config'']\<rparr>] @ other_tools"

section \<open>Arguments and results\<close>

definition obj_field :: "js_object \<Rightarrow> string \<Rightarrow> js_object" where
  "obj_field ob k = (case map_of ob k of Some (JObj kvs) \<Rightarrow> kvs | _ \<Rightarrow> [])"

definition num_field :: "js_object \<Rightarrow> string \<Rightarrow> rat option" where
  "num_field ob k = (case map_of ob k of Some (JNum q) \<Rightarrow> Some q | _ \<Rightarrow> None)"

text \<open>A string argument that is missing: an empty text is as falsy.\<close>

definition arg :: "js_object \<Rightarrow> string \<Rightarrow> string" where
  "arg args k = (case str_field args k of None \<Rightarrow> [] | Some s \<Rightarrow> s)"

record bot_summary =
  bs_id :: string
  bs_name :: string
  bs_type :: json
  bs_version :: json
  bs_createdAt :: int
  bs_updatedAt :: int

record logs_summary =
  ls_total :: nat
  ls_errors :: nat
  ls_start :: "string option"
  ls_end :: "string option"
  ls_last :: "log_entry option"

record custom_summary =
  cs_name :: string
  cs_latestVersion :: string
  cs_type :: string
  cs_description :: string
  cs_author :: string
  cs_createdAt :: int

record custom_details =
  cd_name :: string
  cd_version :: string
  cd_description :: "string option"
  cd_type :: string
  cd_author :: "string option"
  cd_runtime :: string
  cd_entrypoints :: "(string \<times> string) list"
  cd_createdAt :: int
  cd_updatedAt :: int

datatype tool_value =
    AuthStatus
  | BotList "bot_summary list"
  | BotGot bot_row
  | BotDeployed string string json json
  | BotUpdated string string
  | BotDeleted string
  | LogsGot string nat "log_entry list"
  | LogsSummary string logs_summary
  | StateKeys string "(string \<times> nat) list"
  | StateValue string string json
  | QueryAnswer query_result
  | CustomBotList "custom_summary list"
  | CustomBotGot custom_details
  | CustomBotSchema string string js_object

section \<open>The handlers\<close>

definition tool_error :: "string \<Rightarrow> (world, 'a) io" where
  "tool_error msg = io_throw (plain_error msg)"

text \<open>\<open>if (!userId) throw ...\<close>.\<close>

definition signed_in :: "string \<Rightarrow> (world, 'a) io \<Rightarrow> (world, 'a) io" where
  "signed_in userId m = (if userId = [] then tool_error ''Authentication required'' else m)"

definition needs :: "string \<Rightarrow> js_object \<Rightarrow> (world, 'a) io \<Rightarrow> (world, 'a) io" where
  "needs k args m = (if arg args k = [] then tool_error (k @ '' is required'') else m)"

text \<open>\<open>if (!result.success) throw new Error(result.error || fallback)\<close>.\<close>

definition or_throw :: "string \<Rightarrow> ('a, string) result \<Rightarrow> (world, 'a) io" where
  "or_throw fallback r = (case r of Ok x \<Rightarrow> io_return x | Failure e \<Rightarrow> tool_error (or_else (Some e) fallback))"

definition or_throw_message :: "string \<Rightarrow> ('a, 'c \<times> string) result \<Rightarrow> (world, 'a) io" where
  "or_throw_message fallback r = (case r of Ok x \<Rightarrow> io_return x | Failure e \<Rightarrow> tool_error (or_else (Some (snd e)) fallback))"

definition json_field :: "js_object \<Rightarrow> string \<Rightarrow> json" where
  "json_field ob k = (case map_of ob k of None \<Rightarrow> JNull | Some v \<Rightarrow> v)"

definition bot_summary_of :: "bot_row \<Rightarrow> bot_summary" where
  "bot_summary_of b = \<lparr>bs_id = bot_id b, bs_name = bot_name b, bs_type = json_or (json_field (bot_config b) ''type'') (JStr ''unknown''),
     bs_version = json_or (json_field (bot_config b) ''version'') (JStr ''unknown''),
     bs_createdAt = bot_createdAt b, bs_updatedAt = bot_updatedAt b\<rparr>"

definition handleBotList :: "string \<Rightarrow> (world, tool_value) io" where
  "handleBotList userId = signed_in userId (io_bind (role_findAll botRepository userId) (\<lambda>r.
     io_bind (or_throw ''Failed to list bots'' r) (\<lambda>rows. io_return (BotList (map bot_summary_of rows)))))"

definition handleBotGet :: "js_object \<Rightarrow> string \<Rightarrow> (world, tool_value) io" where
  "handleBotGet args userId = signed_in userId (io_bind (role_findOne botRepository userId (arg args ''bot_id'')) (\<lambda>r.
     io_bind (or_throw ''Bot not found'' r) (\<lambda>b. io_return (BotGot b))))"

text \<open>The part of the type after its first slash.\<close>

definition custom_bot_name :: "string \<Rightarrow> string" where
  "custom_bot_name configType = (if js_includes configType ''/'' then split_at (CHR ''/'') configType ! 1 else configType)"

text \<open>Without a configuration the destructuring throws; the engine's wording is left out.\<close>

definition has_config :: "js_object \<Rightarrow> bool" where
  "has_config args \<longleftrightarrow> (case map_of args ''config'' of Some (JObj _) \<Rightarrow> True | _ \<Rightarrow> False)"

definition handleBotDeploy :: "server \<Rightarrow> js_object \<Rightarrow> string \<Rightarrow> (world, tool_value) io" where
  "handleBotDeploy sv args userId = signed_in userId (let config = obj_field args ''config'';
      configName = arg config ''name''; configType = arg config ''type''; configVersion = arg config ''version'' in
     if \<not> has_config args then tool_error ''no configuration''
     else if configName = [] \<or> configType = [] \<or> configVersion = []
     then tool_error (''Config must include '' @ quoted ''name'' @ '', '' @ quoted ''type'' @ '', and '' @ quoted ''version'' @ '' fields'')
     else io_bind (getGlobalSpecificVersion (custom_bot_name configType) configVersion) (\<lambda>found. case found of
       Failure _ \<Rightarrow> tool_error (''Custom bot '' @ quoted (custom_bot_name configType) @ '' version '' @ quoted configVersion @ '' not found'')
     | Ok customBot \<Rightarrow> io_bind (role_create sv botRepository (\<lambda>i created updated.
          \<lparr>bot_id = i, bot_userId = userId, bot_customBotId = cb_id customBot, bot_name = configName, bot_config = config,
           bot_topic = Some ''quantflow-scheduled-custom-bot'', bot_createdAt = created, bot_updatedAt = updated\<rparr>)) (\<lambda>r.
        io_bind (or_throw ''Failed to deploy bot'' r) (\<lambda>b. io_return (BotDeployed (bot_id b) (bot_name b) (json_field (bot_config b) ''type'') (json_field (bot_config b) ''version''))))))"

definition handleBotUpdate :: "js_object \<Rightarrow> string \<Rightarrow> (world, tool_value) io" where
  "handleBotUpdate args userId = signed_in userId
     (io_bind (role_update botRepository userId (arg args ''bot_id'') (\<lambda>b. b\<lparr>
          bot_name := (if arg args ''name'' = [] then bot_name b else arg args ''name''),
          bot_config := (case map_of args ''config'' of Some (JObj config) \<Rightarrow> config | _ \<Rightarrow> bot_config b)\<rparr>)) (\<lambda>r.
      io_bind (or_throw ''Failed to update bot'' r) (\<lambda>b. io_return (BotUpdated (bot_id b) (bot_name b)))))"

definition handleBotDelete :: "js_object \<Rightarrow> string \<Rightarrow> (world, tool_value) io" where
  "handleBotDelete args userId = signed_in userId
     (io_bind (role_remove botRepository userId (arg args ''bot_id'')) (\<lambda>r.
      io_bind (or_throw ''Failed to delete bot'' r) (\<lambda>_. io_return (BotDeleted (arg args ''bot_id'')))))"

definition plain_query :: "string option \<Rightarrow> string option \<Rightarrow> int \<Rightarrow> logs_query" where
  "plain_query date days limit = \<lparr>lq_date = date, lq_dateRange = days, lq_lookbackDays = None, lq_limit = limit, lq_offset = 0,
     lq_type = None, lq_sort = None, lq_startTime = None, lq_endTime = None\<rparr>"

text \<open>\<open>Math.min(input.limit || 100, 500)\<close>, of whole numbers.\<close>

definition logs_limit :: "rat option \<Rightarrow> int" where
  "logs_limit l = min (case l of None \<Rightarrow> 100 | Some q \<Rightarrow> if q = 0 then 100 else \<lfloor>q\<rfloor>) 500"

definition handleLogsGet :: "server \<Rightarrow> js_object \<Rightarrow> string \<Rightarrow> (world, tool_value) io" where
  "handleLogsGet sv args userId = signed_in userId
     (io_bind (getLogs sv userId (arg args ''bot_id'') (plain_query (str_field args ''date'') (str_field args ''date_range'')
          (logs_limit (num_field args ''limit'')))) (\<lambda>r.
      io_bind (or_throw ''Failed to get logs'' r) (\<lambda>p. io_return (LogsGot (arg args ''bot_id'') (length (fst p)) (fst p)))))"

text \<open>\<open>log.content?.toLowerCase()\<close> throws when the content is not a text.\<close>

fun error_line :: "log_entry \<Rightarrow> bool option" where
  "error_line e = (case le_content e of
      JStr s \<Rightarrow> Some (js_includes (js_lower s) ''error'' \<or> js_includes (js_lower s) ''failed'')
    | JNull \<Rightarrow> Some False
    | _ \<Rightarrow> None)"

definition count_errors :: "log_entry list \<Rightarrow> (world, nat) io" where
  "count_errors logs = (if \<exists>e\<in>set logs. error_line e = None then tool_error ''toLowerCase is not a function''
     else io_return (length (filter (\<lambda>e. error_line e = Some True) logs)))"

definition summary_of :: "log_entry list \<Rightarrow> nat \<Rightarrow> logs_summary" where
  "summary_of logs errorCount = \<lparr>ls_total = length logs, ls_errors = errorCount,
     ls_start = (if logs = [] then None else Some (le_date (last logs))), ls_end = (if logs = [] then None else Some (le_date (hd logs))),
     ls_last = (if logs = [] then None else Some (hd logs))\<rparr>"

definition handleLogsSummary :: "server \<Rightarrow> js_object \<Rightarrow> string \<Rightarrow> (world, tool_value) io" where
  "handleLogsSummary sv args userId = signed_in userId (io_bind js_now (\<lambda>now.
     io_bind (getLogs sv userId (arg args ''bot_id'') (plain_query (Some (date_text (local_day sv now))) None 100)) (\<lambda>r.
     io_bind (or_throw ''Failed to get logs for summary'' r) (\<lambda>p.
     io_bind (count_errors (fst p)) (\<lambda>n. io_return (LogsSummary (arg args ''bot_id'') (summary_of (fst p) n)))))))"

definition handleBotStateList :: "server \<Rightarrow> js_object \<Rightarrow> string \<Rightarrow> (world, tool_value) io" where
  "handleBotStateList sv args userId = signed_in userId (needs ''bot_id'' args
     (io_bind (listKeys sv userId (arg args ''bot_id'')) (\<lambda>r.
      io_bind (or_throw_message ''Failed to list state keys'' r) (\<lambda>keys. io_return (StateKeys (arg args ''bot_id'') keys)))))"

definition handleBotStateGet :: "server \<Rightarrow> js_object \<Rightarrow> string \<Rightarrow> (world, tool_value) io" where
  "handleBotStateGet sv args userId = signed_in userId (needs ''bot_id'' args (needs ''key'' args
     (io_bind (getKey sv userId (arg args ''bot_id'') (arg args ''key'')) (\<lambda>r.
      io_bind (or_throw_message ''Failed to get state value'' r) (\<lambda>v. io_return (StateValue (arg args ''bot_id'') (arg args ''key'') v))))))"

definition handleBotQuery :: "server \<Rightarrow> js_object \<Rightarrow> string \<Rightarrow> (world, tool_value) io" where
  "handleBotQuery sv args userId = signed_in userId (needs ''bot_id'' args (needs ''query_path'' args
     (io_bind (executeQuery sv userId (arg args ''bot_id'') (arg args ''query_path'') (Some (obj_field args ''params''))
         (num_field args ''timeout_sec'')) (\<lambda>r.
      io_bind (or_throw_message ''Failed to execute query'' r) (\<lambda>x. io_return (QueryAnswer x))))))"

definition custom_summary_of :: "custom_bot_with_versions \<Rightarrow> custom_summary" where
  "custom_summary_of b = (let newest = (case bw_versions b of [] \<Rightarrow> None | v # _ \<Rightarrow> Some (bv_config v));
      get = (\<lambda>f d. or_else (Option.bind newest f) d) in
     \<lparr>cs_name = bw_name b, cs_latestVersion = bw_latestVersion b, cs_type = get (\<lambda>c. Some (cc_type c)) ''unknown'',
      cs_description = get cc_description [], cs_author = get cc_author ''unknown'', cs_createdAt = bw_createdAt b\<rparr>)"

definition handleCustomBotList :: "(world, tool_value) io" where
  "handleCustomBotList = io_bind service_getAllGlobalCustomBots (\<lambda>r.
     io_bind (or_throw ''Failed to list custom bots'' r) (\<lambda>rows. io_return (CustomBotList (map custom_summary_of rows))))"

definition asked_version :: "js_object \<Rightarrow> (world, custom_bot_row) io" where
  "asked_version args = io_bind (if arg args ''version'' \<noteq> []
       then getGlobalSpecificVersion (arg args ''name'') (arg args ''version'')
       else getGlobalLatestVersion (arg args ''name'')) (or_throw ''Custom bot not found'')"

definition custom_details_of :: "custom_bot_row \<Rightarrow> custom_details" where
  "custom_details_of b = \<lparr>cd_name = cb_name b, cd_version = cb_version b, cd_description = cc_description (cb_config b),
     cd_type = cc_type (cb_config b), cd_author = cc_author (cb_config b), cd_runtime = cc_runtime (cb_config b),
     cd_entrypoints = cc_entrypoints (cb_config b), cd_createdAt = cb_createdAt b, cd_updatedAt = cb_updatedAt b\<rparr>"

definition handleCustomBotGet :: "js_object \<Rightarrow> (world, tool_value) io" where
  "handleCustomBotGet args = io_bind (asked_version args) (\<lambda>b. io_return (CustomBotGot (custom_details_of b)))"

definition handleCustomBotSchema :: "js_object \<Rightarrow> (world, tool_value) io" where
  "handleCustomBotSchema args = io_bind (asked_version args) (\<lambda>b.
     io_return (CustomBotSchema (cb_name b) (cb_version b) (cc_schema_bot (cb_config b))))"

text \<open>A tool answers a value or an error text.\<close>

definition run_tool :: "server \<Rightarrow> string \<Rightarrow> js_object \<Rightarrow> string \<Rightarrow> (world, tool_value) io option" where
  "run_tool sv name args userId = map_of
     [(''auth_status'', io_return AuthStatus), (''bot_list'', handleBotList userId), (''bot_get'', handleBotGet args userId),
      (''bot_deploy'', handleBotDeploy sv args userId), (''bot_update'', handleBotUpdate args userId),
      (''bot_delete'', handleBotDelete args userId), (''logs_get'', handleLogsGet sv args userId),
      (''logs_summary'', handleLogsSummary sv args userId), (''bot_state_list'', handleBotStateList sv args userId),
      (''bot_state_get'', handleBotStateGet sv args userId), (''bot_query'', handleBotQuery sv args userId),
      (''custom_bot_list'', handleCustomBotList), (''custom_bot_get'', handleCustomBotGet args),
      (''custom_bot_schema'', handleCustomBotSchema args)] name"

definition handleToolCall :: "server \<Rightarrow> string \<Rightarrow> js_object \<Rightarrow> string \<Rightarrow> (world, string + tool_value) io" where
  "handleToolCall sv name args userId = (case run_tool sv name args userId of
      None \<Rightarrow> io_return (Inl (''Unknown tool: '' @ name))
    | Some m \<Rightarrow> io_catch (io_bind m (\<lambda>x. io_return (Inr x))) (\<lambda>e. io_return (Inl (''Error: '' @ errorMessage e))))"

section \<open>The endpoint\<close>

datatype rpc_answer =
    RpcInitialized
  | RpcTools "tool list"
  | RpcTool "string + tool_value"
  | RpcPong
  | RpcError int string

definition key_owner :: "string option \<Rightarrow> (world, string option) io" where
  "key_owner apiKey = (if truthy_opt apiKey then io_bind (validateApiKey (the apiKey)) (\<lambda>r. case r of
      Ok k \<Rightarrow> io_return (Some (ak_userId k)) | Failure _ \<Rightarrow> io_return None) else io_return None)"

definition rpc_method :: "server \<Rightarrow> string \<Rightarrow> js_object \<Rightarrow> string option \<Rightarrow> (world, rpc_answer) io" where
  "rpc_method sv meth params userId =
     (if meth = ''initialize'' then io_return RpcInitialized
      else if meth = ''tools/list'' then io_return (RpcTools controller_tools)
      else if meth = ''tools/call'' then
        (if \<not> truthy_opt userId then io_return (RpcError (- 32001) ''Authentication required. Provide x-api-key header.'')
         else if arg params ''name'' = [] then io_return (RpcError (- 32602) ''Missing tool name'')
         else io_bind (handleToolCall sv (arg params ''name'') (obj_field params ''arguments'') (the userId)) (\<lambda>r. io_return (RpcTool r)))
      else if meth = ''ping'' then io_return RpcPong
      else io_return (RpcError (- 32601) (''Method not found: '' @ meth)))"

definition handleRpc :: "server \<Rightarrow> string \<Rightarrow> js_object \<Rightarrow> string option \<Rightarrow> (world, rpc_answer) io" where
  "handleRpc sv meth params apiKey = io_bind (key_owner apiKey) (\<lambda>userId.
     io_catch (rpc_method sv meth params userId) (\<lambda>e. io_return (RpcError (- 32603) (errorMessage e))))"

section \<open>The lists of tools\<close>

text \<open>Every tool that is listed is known to the handler and no other is; the two lists agree on the
  names, and on the arguments of every tool but one: the list that clients see asks for a
  name beside the configuration of a deployment, which the handler reads inside the configuration.\<close>

theorem listed_tools_known:
  "map tool_name controller_tools = map tool_name service_tools
   \<and> {t. run_tool sv t args u \<noteq> None} = set (map tool_name controller_tools)
   \<and> filter (\<lambda>(a, b). a \<noteq> b) (zip controller_tools service_tools)
       = [(\<lparr>tool_name = ''bot_deploy'', tool_properties = [(''name'', ''string''), (''config'', ''object'')], tool_required = [''name'', ''config'']\<rparr>,
            \<lparr>tool_name = ''bot_deploy'', tool_properties = [(''config'', ''object'')], tool_required = [''config'']\<rparr>)]"
proof -
  have "{t. run_tool sv t args u \<noteq> None} = set (map tool_name controller_tools)"
    unfolding run_tool_def map_of_eq_None_iff by (auto simp: controller_tools_def bot_tools_def other_tools_def)
  moreover have "filter (\<lambda>(a, b). a \<noteq> b) (zip controller_tools service_tools)
      = [(\<lparr>tool_name = ''bot_deploy'', tool_properties = [(''name'', ''string''), (''config'', ''object'')], tool_required = [''name'', ''config'']\<rparr>,
            \<lparr>tool_name = ''bot_deploy'', tool_properties = [(''config'', ''object'')], tool_required = [''config'']\<rparr>)]"
    by (simp add: controller_tools_def service_tools_def bot_tools_def other_tools_def)
  ultimately show ?thesis by (simp add: controller_tools_def service_tools_def)
qed

section \<open>What a tool call changes\<close>

lemma tool_rules:
  "preserves I (tool_error m)" "preserves I (or_throw d r)" "preserves I (or_throw_message d r')"
  by (auto simp: tool_error_def or_throw_def or_throw_message_def intro: preserves_throw preserves_return split: result.split)

lemma preserves_signed: "preserves I m \<Longrightarrow> preserves I (signed_in u m)" "preserves I m \<Longrightarrow> preserves I (needs k args m)"
  by (simp_all add: signed_in_def needs_def tool_rules)

lemma table_reads_keep:
  assumes "env_free I"
  shows "preserves I (rev_one vt P)" "preserves I (rev_newest vt P)" "preserves I (role_findAll rt u)" "preserves I (role_findOne rt u i)"
    "preserves I service_getAllGlobalCustomBots"
  unfolding rev_one_def rev_newest_def role_findAll_def role_findOne_def service_getAllGlobalCustomBots_def getAllGlobalCustomBots_def
  by (intro preserves_or_failure preserves_if preserves_bind preserves_return preserves_select assms;
      auto intro: preserves_return split: list.split)+

lemma state_reads_keep:
  assumes "env_free I"
  shows "preserves I (listKeys sv u botId)" "preserves I (getKey sv u botId key)"
proof -
  have calls: "preserves I (statObject sv b k)" "preserves I (getObject sv b k)" "preserves I (fs_call r)" for b k r
    unfolding statObject_def getObject_def fs_call_def
    by (rule preserves_external [OF assms], simp add: preserves_def split: option.split)+
  have findOne: "preserves I (bot_findOne u i)" for i unfolding bot_findOne_def by (rule table_reads_keep [OF assms])
  have fs: "preserves I (fs_present b)" "preserves I (stat_key dir key)" for b dir
    unfolding fs_present_def stat_key_def by (intro preserves_catch preserves_bind preserves_return calls)+
  have files: "preserves I (stat_files files)" for files
    by (induction files) (simp_all only: stat_files.simps preserves_return, intro preserves_bind preserves_return calls)
  have "preserves I (downloadAndExtractStateWithEtag sv botId)"
    unfolding downloadAndExtractStateWithEtag_def
    by (intro preserves_bind, intro state_rules calls) (auto intro!: state_rules calls split: option.split prod.split)
  then have down: "preserves I (downloadAndExtractState sv botId)"
    unfolding downloadAndExtractState_def by (intro preserves_bind preserves_return)
  note rules = state_rules preserves_result calls findOne fs files down
  show "preserves I (listKeys sv u botId)"
    unfolding listKeys_def checked_bot_id_def owned_bot_def or_storage_error_def state_failure_def with_cleanup_def by (intro rules)
  show "preserves I (getKey sv u botId key)"
    unfolding getKey_def checked_bot_id_def owned_bot_def checked_key_def or_storage_error_def state_failure_def with_cleanup_def
    by (intro rules)
qed

text \<open>All but the three tools that write keep whatever does not look at the failures, the clock and the
  random numbers.\<close>

lemma reading_tools_keep:
  assumes "env_free I" "run_tool sv name args u = Some m" "name \<notin> {''bot_deploy'', ''bot_update'', ''bot_delete''}"
  shows "preserves I m"
proof -
  have version: "preserves I (asked_version args)"
    unfolding asked_version_def getGlobalSpecificVersion_def getSpecificGlobalVersion_def getGlobalLatestVersion_def
      rev_findGlobalByKeyAndVersion_def rev_getGlobalLatestVersion_def
    by (intro preserves_bind preserves_if tool_rules table_reads_keep assms)
  have count: "preserves I (count_errors es)" for es
    unfolding count_errors_def by (intro preserves_if tool_rules preserves_return)
  note defs = handleBotList_def handleBotGet_def handleLogsGet_def handleLogsSummary_def handleBotStateList_def handleBotStateGet_def
    handleBotQuery_def handleCustomBotList_def handleCustomBotGet_def handleCustomBotSchema_def
  have all: "preserves I (handleBotList u)" "preserves I (handleBotGet args u)" "preserves I (handleLogsGet sv args u)"
    "preserves I (handleLogsSummary sv args u)" "preserves I (handleBotStateList sv args u)" "preserves I (handleBotStateGet sv args u)"
    "preserves I (handleBotQuery sv args u)" "preserves I handleCustomBotList" "preserves I (handleCustomBotGet args)"
    "preserves I (handleCustomBotSchema args)"
    unfolding defs
    by (intro preserves_signed preserves_bind preserves_return tool_rules table_reads_keep assms getLogs_keeps state_reads_keep
        query_keeps preserves_now version count)+
  show ?thesis
    using assms(2,3) all unfolding run_tool_def by (auto simp: preserves_return split: if_splits)
qed

text \<open>All of the world but the instances of \<open>userId\<close>.\<close>

definition rest_of_world :: "string \<Rightarrow> world \<Rightarrow> user_row list \<times> api_key_row list \<times> custom_bot_row list
    \<times> ((string \<times> string) \<times> stored_object) list \<times> (string \<times> bot_event) list \<times> bot_row list" where
  "rest_of_world userId w = (users w, api_keys w, custom_bots w, objects w, messages w, filter (\<lambda>b. bot_userId b \<noteq> userId) (bots w))"

lemma env_free_rest: "env_free (\<lambda>w. rest_of_world u w = k)"
  by (simp add: env_free_def rest_of_world_def)

lemmas rest_rules = preserves_or_failure preserves_if preserves_bind preserves_return preserves_now [OF env_free_rest]
  preserves_draw [OF env_free_rest] table_reads_keep [OF env_free_rest]

lemma rest_create:
  "(\<And>i c t. bot_userId (mk i c t) = u) \<Longrightarrow> preserves (\<lambda>w. rest_of_world u w = k) (role_create sv botRepository mk)"
  unfolding role_create_def by (intro rest_rules preserves_insert [OF env_free_rest]) (simp add: rest_of_world_def)

lemma rest_update:
  assumes "\<And>b. bot_userId (f b) = bot_userId b"
  shows "preserves (\<lambda>w. rest_of_world u w = k) (role_update botRepository u i f)"
proof -
  have "filter (\<lambda>b. bot_userId b \<noteq> u) (map (\<lambda>r. if owned_row botRepository u i r then rt_touch botRepository now (f r) else r) l)
      = filter (\<lambda>b. bot_userId b \<noteq> u) l" for now l
    using assms by (induction l) (auto simp: owned_row_def)
  then show ?thesis
    unfolding role_update_def by (intro rest_rules preserves_update [OF env_free_rest]) (simp add: rest_of_world_def)
qed

lemma rest_remove: "preserves (\<lambda>w. rest_of_world u w = k) (role_remove botRepository u i)"
proof -
  have "filter (\<lambda>b. bot_userId b \<noteq> u) (filter (\<lambda>r. \<not> owned_row botRepository u i r) l) = filter (\<lambda>b. bot_userId b \<noteq> u) l" for l
    by (induction l) (auto simp: owned_row_def)
  then show ?thesis
    unfolding role_remove_def by (intro rest_rules preserves_delete [OF env_free_rest]) (simp add: rest_of_world_def)
qed

lemma tool_keeps_rest:
  assumes "run_tool sv name args u = Some m"
  shows "preserves (\<lambda>w. rest_of_world u w = k) m"
proof (cases "name \<in> {''bot_deploy'', ''bot_update'', ''bot_delete''}")
  case True
  have version: "preserves (\<lambda>w. rest_of_world u w = k) (getGlobalSpecificVersion n v)" for n v
    unfolding getGlobalSpecificVersion_def getSpecificGlobalVersion_def rev_findGlobalByKeyAndVersion_def
    by (rule table_reads_keep [OF env_free_rest])
  have "preserves (\<lambda>w. rest_of_world u w = k) (handleBotDeploy sv args u)"
    unfolding handleBotDeploy_def Let_def
    by (intro preserves_signed preserves_if preserves_bind preserves_result preserves_return tool_rules version
        rest_create) simp_all
  moreover have "preserves (\<lambda>w. rest_of_world u w = k) (handleBotUpdate args u)"
    unfolding handleBotUpdate_def
    by (intro preserves_signed preserves_bind preserves_return tool_rules rest_update) simp_all
  moreover have "preserves (\<lambda>w. rest_of_world u w = k) (handleBotDelete args u)"
    unfolding handleBotDelete_def
    by (intro preserves_signed preserves_bind preserves_return tool_rules rest_remove)
  ultimately show ?thesis using assms True unfolding run_tool_def by auto
qed (rule reading_tools_keep [OF env_free_rest assms])

text \<open>Whatever tool an agent calls, with whatever arguments and failures, the rest of the world stays as it
  is: the accounts, the keys, the uploaded bots, the objects and the instances of all other users; and no
  event is ever published, so the runtime is not told of what is deployed, updated or deleted this way.\<close>

lemma tool_keeps_rest_of_world:
  "rest_of_world userId (snd (handleToolCall sv name args userId w)) = rest_of_world userId w"
proof (cases "run_tool sv name args userId")
  case (Some m)
  have "preserves (\<lambda>x. rest_of_world userId x = rest_of_world userId w) (handleToolCall sv name args userId)"
    unfolding handleToolCall_def Some option.case
    by (intro preserves_catch preserves_bind preserves_return tool_keeps_rest [OF Some])
  then show ?thesis by (rule preservesD) (rule refl)
qed (simp add: handleToolCall_def)

section \<open>What an agent may change\<close>

text \<open>The part of the world that looking up a key leaves alone.\<close>

definition beside_keys :: "world \<Rightarrow> user_row list \<times> custom_bot_row list \<times> ((string \<times> string) \<times> stored_object) list
    \<times> (string \<times> bot_event) list \<times> bot_row list" where
  "beside_keys w = (users w, custom_bots w, objects w, messages w, bots w)"

lemma env_free_beside: "env_free (\<lambda>w. beside_keys w = k)"
  by (simp add: env_free_def beside_keys_def)

lemma key_owner_keeps: "preserves (\<lambda>w. beside_keys w = k) (key_owner apiKey)"
proof -
  have "preserves (\<lambda>w. beside_keys w = k) (findByKey key)" for key
    unfolding findByKey_def
    by (intro preserves_or_failure preserves_bind preserves_select [OF env_free_beside])
      (auto intro: preserves_return split: list.split)
  moreover have "preserves (\<lambda>w. beside_keys w = k) (updateLastUsed i)" for i
    unfolding updateLastUsed_def
    by (intro preserves_or_failure preserves_catch preserves_bind preserves_return preserves_now [OF env_free_beside]
        preserves_update [OF env_free_beside]) (simp_all add: beside_keys_def apiKeysTable_def)
  moreover have "preserves (\<lambda>w. beside_keys w = k) (findById i)" for i
    unfolding findById_def
    by (intro preserves_bind preserves_select [OF env_free_beside]) (auto intro: preserves_return split: list.split)
  ultimately show ?thesis
    unfolding key_owner_def validateApiKey_def
    by (auto intro!: preserves_bind preserves_return preserves_if split: result.split option.split)
qed

lemma key_owner_active:
  assumes "key_owner apiKey w = (Inr (Some userId), w1)"
  shows "\<exists>r\<in>set (api_keys w). \<exists>u\<in>set (users w). apiKey = Some (key_keyValue r) \<and> key_isActive r
    \<and> user_id u = userId \<and> key_userId r = userId \<and> user_isActive u"
proof -
  obtain key k where key: "apiKey = Some key" and ok: "validateApiKey key w = (Inr (Ok k), w1)" and userId: "userId = ak_userId k"
    using assms unfolding key_owner_def
    by (cases apiKey) (auto simp: io_bind_run truthy_opt.simps split: if_splits prod.splits sum.splits result.splits)
  obtain r u where r: "r \<in> set (api_keys w)" "u \<in> set (users w)" "key_keyValue r = key" "key_isActive r"
    "user_id u = key_userId r" "user_isActive u" "k = transformSnapshotToData r"
    using ok by (rule validateApiKey_Ok)
  have "key_userId r = userId" using userId r(7) by (simp add: transformSnapshotToData_def)
  then show ?thesis using key r by (intro bexI [of _ r] bexI [of _ u]) simp_all
qed

lemma rpc_method_cases:
  "preserves (\<lambda>x. x = w) (rpc_method sv meth params userId)
   \<or> (\<exists>u name args. userId = Some u \<and> rpc_method sv meth params userId
        = io_bind (handleToolCall sv name args u) (\<lambda>r. io_return (RpcTool r)))"
  by (cases userId) (auto simp: rpc_method_def intro!: preserves_return)

text \<open>C26. Whatever an agent sends, it changes no account, no uploaded bot, no object and no event; and it changes
  an instance only when the request carries the value of an active key of an active account, and then only
  the instances of this account.\<close>

theorem agent_changes_own_instances_only:
  "let w' = snd (handleRpc sv meth params apiKey w) in
   (users w', custom_bots w', objects w', messages w') = (users w, custom_bots w, objects w, messages w)
   \<and> (bots w' = bots w
      \<or> (\<exists>r\<in>set (api_keys w). \<exists>u\<in>set (users w). apiKey = Some (key_keyValue r) \<and> key_isActive r
          \<and> user_id u = key_userId r \<and> user_isActive u
          \<and> filter (\<lambda>b. bot_userId b \<noteq> key_userId r) (bots w') = filter (\<lambda>b. bot_userId b \<noteq> key_userId r) (bots w)))"
proof -
  let ?w' = "snd (handleRpc sv meth params apiKey w)"
  obtain x w1 where k: "key_owner apiKey w = (x, w1)" by fastforce
  have same: "beside_keys w1 = beside_keys w"
    using preservesD [OF key_owner_keeps [of "beside_keys w" apiKey], of w] k by simp
  show ?thesis
  proof (cases x)
    case (Inl e)
    then show ?thesis using k same by (simp add: handleRpc_def io_bind_run beside_keys_def)
  next
    case (Inr userId)
    have run: "snd (handleRpc sv meth params apiKey w) = snd (rpc_method sv meth params userId w1)"
      using k Inr by (simp add: handleRpc_def io_bind_run io_catch_run io_return_run split: prod.split sum.split)
    consider "preserves (\<lambda>y. y = w1) (rpc_method sv meth params userId)"
      | u name args where "userId = Some u" "rpc_method sv meth params userId
          = io_bind (handleToolCall sv name args u) (\<lambda>r. io_return (RpcTool r))"
      using rpc_method_cases by blast
    then show ?thesis
    proof cases
      case 1
      then show ?thesis using run same preservesD [OF 1, of w1] by (simp add: beside_keys_def)
    next
      case 2
      have tool: "snd (handleRpc sv meth params apiKey w) = snd (handleToolCall sv name args u w1)"
        unfolding run 2(2) by (simp add: io_bind_run io_return_run split: prod.split sum.split)
      have "rest_of_world u (snd (handleRpc sv meth params apiKey w)) = rest_of_world u w1"
        unfolding tool by (rule tool_keeps_rest_of_world)
      then have kept: "users ?w' = users w" "custom_bots ?w' = custom_bots w" "objects ?w' = objects w" "messages ?w' = messages w"
        "filter (\<lambda>b. bot_userId b \<noteq> u) (bots ?w') = filter (\<lambda>b. bot_userId b \<noteq> u) (bots w)"
        using same by (simp_all add: rest_of_world_def beside_keys_def)
      have "\<exists>r\<in>set (api_keys w). \<exists>v\<in>set (users w). apiKey = Some (key_keyValue r) \<and> key_isActive r
          \<and> user_id v = u \<and> key_userId r = u \<and> user_isActive v"
        using k Inr 2(1) by (intro key_owner_active [of _ _ _ w1]) simp
      then show ?thesis using kept unfolding Let_def by metis
    qed
  qed
qed

end
