(* ===== verification/Events.thy ===== *)
theory Events
  imports Prelude
begin

text \<open>
  frontend/src/lib/events/event-parser.ts and lib/log-utils.ts: the lines of a log as events. A date is its time in
  milliseconds, or None when it is invalid; an event without a date has none at all. The text forms that
  \<open>Date\<close> and the package date-fns read are parameters, as are JSON.parse and JSON.stringify.
\<close>

type_synonym js_date = "int option"

record page_env =
  pe_json_parse :: "string \<Rightarrow> json option"
  pe_stringify :: "json \<Rightarrow> string"
  pe_parseISO :: "string \<Rightarrow> js_date"
  pe_date :: "string \<Rightarrow> js_date"

record raw_log_entry =
  re_date :: string
  re_content :: string
  re_timestamp :: "string option"

datatype event_type = LogEvent | MetricEvent

datatype log_level = DEBUG | INFO | WARN | ERROR

record log_event =
  ev_timestamp :: "js_date option"
  ev_type :: event_type
  ev_data :: json
  ev_metricType :: "json option"
  ev_level :: "log_level option"
  ev_raw :: string

section \<open>Prefixes of a line\<close>

text \<open>In a shape, d stands for a digit, an underscore for white space and every other character for itself.\<close>

definition char_fits :: "char \<Rightarrow> char \<Rightarrow> bool" where
  "char_fits p c \<longleftrightarrow> (if p = CHR ''d'' then is_digit c else if p = CHR ''_'' then is_js_space c else c = p)"

definition stamp_shape :: string where
  "stamp_shape = ''[dddd-dd-dd_dd:dd:dd]''"

definition has_stamp :: "string \<Rightarrow> bool" where
  "has_stamp content \<longleftrightarrow> list_all2 char_fits stamp_shape (take 21 content)"

text \<open>The text between the brackets, with T for the blank.\<close>

definition stamp_text :: "string \<Rightarrow> string" where
  "stamp_text content = (let m = take 19 (drop 1 content) in if m ! 10 = CHR '' '' then m[10 := CHR ''T''] else m)"

definition extractTimestamp :: "page_env \<Rightarrow> string \<Rightarrow> js_date option" where
  "extractTimestamp pe content = (if has_stamp content then Some (pe_date pe (stamp_text content)) else None)"

definition stripTimestamp :: "string \<Rightarrow> string" where
  "stripTimestamp content = (if has_stamp content then dropWhile is_js_space (drop 21 content) else content)"

text \<open>\<open>toUpperCase\<close> of the letters a to z; no other letter becomes one of them.\<close>

definition upper_char :: "char \<Rightarrow> char" where
  "upper_char c = (let n = of_char c :: nat in if 97 \<le> n \<and> n \<le> 122 then char_of (n - 32) else c)"

definition js_upper :: "string \<Rightarrow> string" where
  "js_upper s = map upper_char s"

definition level_names :: "(string \<times> log_level) list" where
  "level_names = [(''DEBUG'', DEBUG), (''INFO'', INFO), (''WARNING'', WARN), (''WARN'', WARN), (''ERROR'', ERROR)]"

text \<open>The name before the colon, case ignored.\<close>

definition level_prefix :: "string \<Rightarrow> (string \<times> log_level) option" where
  "level_prefix content = List.find (\<lambda>(n, _). js_starts_with (js_upper content) (n @ '':'')) level_names"

definition extractLevel :: "string \<Rightarrow> log_level option" where
  "extractLevel content = map_option snd (level_prefix content)"

definition strip_level :: "string \<Rightarrow> string" where
  "strip_level content = (case level_prefix content of None \<Rightarrow> content
     | Some (n, _) \<Rightarrow> dropWhile is_js_space (drop (Suc (length n)) content))"

section \<open>JSON lines\<close>

text \<open>One object in braces on one line, at the end of the text; the dot matches no line terminator.\<close>

definition json_body :: "page_env \<Rightarrow> string \<Rightarrow> js_object option" where
  "json_body pe content = (let cleaned = strip_level content in
     if 2 \<le> length cleaned \<and> hd cleaned = CHR ''{'' \<and> last cleaned = CHR ''}''
        \<and> CHR 0x0A \<notin> set cleaned \<and> CHR 0x0D \<notin> set cleaned
     then (case pe_json_parse pe cleaned of Some (JObj kvs) \<Rightarrow> Some kvs | _ \<Rightarrow> None) else None)"

definition has_key :: "js_object \<Rightarrow> string \<Rightarrow> bool" where
  "has_key ob k \<longleftrightarrow> map_of ob k \<noteq> None"

text \<open>Reading a property: None is undefined.\<close>

definition prop_of :: "json option \<Rightarrow> string \<Rightarrow> json option" where
  "prop_of v k = (case v of Some (JObj kvs) \<Rightarrow> map_of kvs k | _ \<Rightarrow> None)"

fun truthy_value :: "json option \<Rightarrow> bool" where
  "truthy_value None = False"
| "truthy_value (Some v) = json_truthy v"

definition tryParseMetric :: "page_env \<Rightarrow> string \<Rightarrow> js_object option" where
  "tryParseMetric pe content = (case json_body pe content of
      Some ob \<Rightarrow> if has_key ob ''_metric'' then Some ob else None | None \<Rightarrow> None)"

definition tryParseStructuredLog :: "page_env \<Rightarrow> string \<Rightarrow> js_object option" where
  "tryParseStructuredLog pe content = (case json_body pe content of
      Some ob \<Rightarrow> if \<not> has_key ob ''_metric''
          \<and> (has_key ob ''level'' \<or> has_key ob ''message'' \<or> has_key ob ''msg''
             \<or> truthy_value (prop_of (map_of ob ''fields'') ''message'')) then Some ob else None
    | None \<Rightarrow> None)"

text \<open>\<open>new Date(ms)\<close>: the whole part, within 8.64e15 of the epoch.\<close>

definition date_of_number :: "rat \<Rightarrow> js_date" where
  "date_of_number q = (let t = (if 0 \<le> q then \<lfloor>q\<rfloor> else \<lceil>q\<rceil>) in
     if \<bar>q\<bar> \<le> 8640000000000000 then Some t else None)"

definition epoch_ms :: "rat \<Rightarrow> rat" where
  "epoch_ms q = (if q < 10000000000 then q * 1000 else q)"

text \<open>Digits and perhaps a Z.\<close>

definition digits_z :: "string \<Rightarrow> string option" where
  "digits_z s = (let d = (if s \<noteq> [] \<and> last s = CHR ''Z'' then butlast s else s) in
     if d \<noteq> [] \<and> list_all is_digit d then Some d else None)"

definition parseTimestampValue :: "page_env \<Rightarrow> json option \<Rightarrow> js_date option" where
  "parseTimestampValue pe v = (case v of
      Some (JNum q) \<Rightarrow> Some (date_of_number (epoch_ms q))
    | Some (JStr s) \<Rightarrow> (case digits_z s of
          Some d \<Rightarrow> Some (date_of_number (epoch_ms (of_nat (digits_value d))))
        | None \<Rightarrow> (case pe_parseISO pe s of None \<Rightarrow> None | Some t \<Rightarrow> Some (Some t)))
    | _ \<Rightarrow> None)"

definition first_given :: "'a option \<Rightarrow> 'a option \<Rightarrow> 'a option" where
  "first_given a b = (case a of None \<Rightarrow> b | Some _ \<Rightarrow> a)"

definition extractTimestampFromStructuredLog :: "page_env \<Rightarrow> js_object \<Rightarrow> js_date option" where
  "extractTimestampFromStructuredLog pe slog = first_given (parseTimestampValue pe (map_of slog ''time''))
     (first_given (parseTimestampValue pe (map_of slog ''timestamp'')) (parseTimestampValue pe (map_of slog ''ts'')))"

definition mapStructuredLogLevel :: "json option \<Rightarrow> log_level option" where
  "mapStructuredLogLevel level = (case level of
      Some (JNum q) \<Rightarrow> Some (if q \<le> 20 then DEBUG else if q \<le> 30 then INFO else if q \<le> 40 then WARN else ERROR)
    | Some (JStr s) \<Rightarrow> (let upper = js_upper s in
        if upper \<in> {''TRACE'', ''DEBUG'', ''10'', ''20''} then Some DEBUG
        else if upper \<in> {''INFO'', ''30''} then Some INFO
        else if upper \<in> {''WARN'', ''WARNING'', ''40''} then Some WARN
        else if upper \<in> {''ERROR'', ''FATAL'', ''50'', ''60''} then Some ERROR else None)
    | _ \<Rightarrow> None)"

definition resolveTimestamp :: "page_env \<Rightarrow> string option \<Rightarrow> js_date option \<Rightarrow> js_date option" where
  "resolveTimestamp pe apiTimestamp extracted =
     (if truthy_opt apiTimestamp then
        (case pe_parseISO pe (the apiTimestamp) of Some t \<Rightarrow> Some (Some t)
         | None \<Rightarrow> (case pe_date pe (the apiTimestamp) of Some t \<Rightarrow> Some (Some t) | None \<Rightarrow> extracted))
      else extracted)"

section \<open>The chain of parsers\<close>

definition parseMetricJSON :: "page_env \<Rightarrow> string \<Rightarrow> string option \<Rightarrow> log_event option" where
  "parseMetricJSON pe content apiTimestamp = (let stripped = stripTimestamp content in
     case tryParseMetric pe stripped of None \<Rightarrow> None
     | Some metric \<Rightarrow> Some \<lparr>ev_timestamp = resolveTimestamp pe apiTimestamp (extractTimestamp pe content), ev_type = MetricEvent,
         ev_data = JObj metric, ev_metricType = map_of metric ''_metric'', ev_level = extractLevel stripped, ev_raw = content\<rparr>)"

definition structured_message :: "page_env \<Rightarrow> js_object \<Rightarrow> json" where
  "structured_message pe slog =
     (if truthy_value (map_of slog ''message'') then the (map_of slog ''message'')
      else if truthy_value (map_of slog ''msg'') then the (map_of slog ''msg'')
      else if truthy_value (prop_of (map_of slog ''fields'') ''message'') then the (prop_of (map_of slog ''fields'') ''message'')
      else JStr (pe_stringify pe (JObj slog)))"

definition parseStructuredJSON :: "page_env \<Rightarrow> string \<Rightarrow> string option \<Rightarrow> log_event option" where
  "parseStructuredJSON pe content apiTimestamp = (let stripped = stripTimestamp content in
     case tryParseStructuredLog pe stripped of None \<Rightarrow> None
     | Some slog \<Rightarrow> Some \<lparr>ev_timestamp = resolveTimestamp pe apiTimestamp
           (first_given (extractTimestampFromStructuredLog pe slog) (extractTimestamp pe content)), ev_type = LogEvent,
         ev_data = structured_message pe slog, ev_metricType = None,
         ev_level = first_given (mapStructuredLogLevel (map_of slog ''level'')) (first_given (extractLevel stripped) (Some INFO)),
         ev_raw = content\<rparr>)"

definition parseBracketLog :: "page_env \<Rightarrow> string \<Rightarrow> string option \<Rightarrow> log_event option" where
  "parseBracketLog pe content apiTimestamp = (case extractTimestamp pe content of None \<Rightarrow> None
     | Some bracketTs \<Rightarrow> (let stripped = stripTimestamp content in
         Some \<lparr>ev_timestamp = resolveTimestamp pe apiTimestamp (Some bracketTs), ev_type = LogEvent, ev_data = JStr stripped,
           ev_metricType = None, ev_level = first_given (extractLevel stripped) (Some INFO), ev_raw = content\<rparr>))"

definition parsePlainText :: "page_env \<Rightarrow> string \<Rightarrow> string option \<Rightarrow> log_event option" where
  "parsePlainText pe content apiTimestamp = Some \<lparr>ev_timestamp = resolveTimestamp pe apiTimestamp None, ev_type = LogEvent,
     ev_data = JStr content, ev_metricType = None, ev_level = first_given (extractLevel content) (Some INFO), ev_raw = content\<rparr>"

definition parsers :: "(page_env \<Rightarrow> string \<Rightarrow> string option \<Rightarrow> log_event option) list" where
  "parsers = [parseMetricJSON, parseStructuredJSON, parseBracketLog, parsePlainText]"

fun first_parse :: "(string \<Rightarrow> string option \<Rightarrow> log_event option) list \<Rightarrow> string \<Rightarrow> string option \<Rightarrow> log_event option" where
  "first_parse [] content timestamp = None"
| "first_parse (p # ps) content timestamp = (case p content timestamp of Some e \<Rightarrow> Some e | None \<Rightarrow> first_parse ps content timestamp)"

definition parseLogLine :: "page_env \<Rightarrow> string \<Rightarrow> string option \<Rightarrow> log_event" where
  "parseLogLine pe content timestamp = (case first_parse (map (\<lambda>p. p pe) parsers) content timestamp of
      Some e \<Rightarrow> e
    | None \<Rightarrow> \<lparr>ev_timestamp = resolveTimestamp pe timestamp None, ev_type = LogEvent, ev_data = JStr content,
        ev_metricType = None, ev_level = Some INFO, ev_raw = content\<rparr>)"

definition text_lines :: "string \<Rightarrow> string list" where
  "text_lines content = filter (\<lambda>line. js_trim line \<noteq> []) (split_at (CHR 0x0A) content)"

definition parseEvents :: "page_env \<Rightarrow> raw_log_entry list \<Rightarrow> log_event list" where
  "parseEvents pe logs = concat (map (\<lambda>entry. map (\<lambda>line. parseLogLine pe line (re_timestamp entry)) (text_lines (re_content entry))) logs)"

definition isMetricEvent :: "log_event \<Rightarrow> bool" where
  "isMetricEvent event \<longleftrightarrow> ev_type event = MetricEvent"

definition isLogEvent :: "log_event \<Rightarrow> bool" where
  "isLogEvent event \<longleftrightarrow> ev_type event = LogEvent"

definition expandLogEntries :: "raw_log_entry list \<Rightarrow> raw_log_entry list" where
  "expandLogEntries entries = concat (map (\<lambda>entry. map (\<lambda>line. entry\<lparr>re_content := line\<rparr>) (text_lines (re_content entry))) entries)"

section \<open>Facts\<close>

lemma parseLogLine_chain:
  "parseLogLine pe content timestamp = (case parseMetricJSON pe content timestamp of Some e \<Rightarrow> e
     | None \<Rightarrow> (case parseStructuredJSON pe content timestamp of Some e \<Rightarrow> e
     | None \<Rightarrow> (case parseBracketLog pe content timestamp of Some e \<Rightarrow> e
     | None \<Rightarrow> the (parsePlainText pe content timestamp))))"
  by (simp add: parseLogLine_def parsers_def parsePlainText_def split: option.split)

lemma parse_raw [simp]: "ev_raw (parseLogLine pe content timestamp) = content"
  by (auto simp: parseLogLine_chain parseMetricJSON_def parseStructuredJSON_def parseBracketLog_def parsePlainText_def
      Let_def split: option.splits)

lemma parse_metric: "isMetricEvent (parseLogLine pe content timestamp) \<longleftrightarrow> tryParseMetric pe (stripTimestamp content) \<noteq> None"
  by (auto simp: isMetricEvent_def parseLogLine_chain parseMetricJSON_def parseStructuredJSON_def parseBracketLog_def
      parsePlainText_def Let_def split: option.split)

lemma parse_metric_data:
  "tryParseMetric pe (stripTimestamp content) = Some metric \<Longrightarrow> ev_data (parseLogLine pe content timestamp) = JObj metric
     \<and> ev_metricType (parseLogLine pe content timestamp) = map_of metric ''_metric''"
  by (simp add: parseLogLine_chain parseMetricJSON_def Let_def)

text \<open>The API's own timestamp wins; without one an event has the date its line carries.\<close>

lemma parse_api_timestamp:
  assumes "timestamp = Some (x # xs)" "pe_parseISO pe (x # xs) = Some t"
  shows "ev_timestamp (parseLogLine pe content timestamp) = Some (Some t)"
  using assms by (auto simp: parseLogLine_chain parseMetricJSON_def parseStructuredJSON_def parseBracketLog_def parsePlainText_def
      resolveTimestamp_def Let_def split: option.split)

lemma parse_metric_timestamp:
  "tryParseMetric pe (stripTimestamp content) \<noteq> None \<Longrightarrow> ev_timestamp (parseLogLine pe content None) = extractTimestamp pe content"
  by (auto simp: parseLogLine_chain parseMetricJSON_def resolveTimestamp_def Let_def)

lemma text_lines_line: "line \<in> set (text_lines content) \<Longrightarrow> text_lines line = [line]"
  unfolding text_lines_def using split_at_elems [of line "CHR 0x0A" content] by (auto simp: split_at_no_sep)

lemma map_text_lines: "concat (map (\<lambda>l. map f (text_lines l)) (text_lines content)) = map f (text_lines content)"
proof -
  have "concat (map (\<lambda>l. map f (text_lines l)) ls) = map f ls" if "\<forall>l\<in>set ls. text_lines l = [l]" for ls
    using that by (induction ls) simp_all
  then show ?thesis using text_lines_line by blast
qed

text \<open>Every line of the log that is not blank becomes exactly one event, in the order of the log, whatever the line
  holds; expanding the entries into lines first, as the console does, gives the same events; and an
  event is a metric exactly when its line, without the bracketed date, is a JSON object with \<open>_metric\<close>.\<close>

theorem parseEvents_lines:
  "map ev_raw (parseEvents pe logs) = concat (map (\<lambda>e. text_lines (re_content e)) logs)
   \<and> parseEvents pe (expandLogEntries logs) = parseEvents pe logs
   \<and> filter isMetricEvent (parseEvents pe logs) = filter (\<lambda>e. tryParseMetric pe (stripTimestamp (ev_raw e)) \<noteq> None) (parseEvents pe logs)"
proof (intro conjI)
  show "map ev_raw (parseEvents pe logs) = concat (map (\<lambda>e. text_lines (re_content e)) logs)"
    by (induction logs) (simp_all add: parseEvents_def comp_def)
  show "parseEvents pe (expandLogEntries logs) = parseEvents pe logs"
  proof (induction logs)
    case (Cons e es)
    have "parseEvents pe (expandLogEntries (e # es)) = parseEvents pe (map (\<lambda>line. e\<lparr>re_content := line\<rparr>) (text_lines (re_content e)))
        @ parseEvents pe (expandLogEntries es)"
      by (simp add: expandLogEntries_def parseEvents_def)
    also have "parseEvents pe (map (\<lambda>line. e\<lparr>re_content := line\<rparr>) (text_lines (re_content e))) = parseEvents pe [e]"
      by (simp add: parseEvents_def comp_def map_text_lines)
    finally show ?case using Cons.IH by (simp add: parseEvents_def)
  qed (simp add: expandLogEntries_def)
  have line: "e \<in> set (parseEvents pe logs) \<Longrightarrow> isMetricEvent e \<longleftrightarrow> tryParseMetric pe (stripTimestamp (ev_raw e)) \<noteq> None" for e
    unfolding parseEvents_def by (auto simp: parse_metric simp del: not_None_eq)
  show "filter isMetricEvent (parseEvents pe logs) = filter (\<lambda>e. tryParseMetric pe (stripTimestamp (ev_raw e)) \<noteq> None) (parseEvents pe logs)"
    by (rule filter_cong [OF refl line])
qed

end
