(* ===== verification/EventUtils.thy ===== *)
theory EventUtils
  imports Events
begin

text \<open>
  frontend/src/lib/events/event-utils.ts and the events of hooks/use-bot-events.ts: filters and aggregations over
  events. The type of a metric is a string, as \<open>BotEvent\<close> declares; an event whose type is another value or the
  empty text counts as one without. Where a date is invalid the order that \<open>sort\<close> leaves is open; the model
  keeps the order of the list.
\<close>

definition metric_name :: "log_event \<Rightarrow> string option" where
  "metric_name e = (case ev_metricType e of
      Some (JStr s) \<Rightarrow> if ev_type e = MetricEvent \<and> s \<noteq> [] then Some s else None | _ \<Rightarrow> None)"

definition in_time :: "(int \<Rightarrow> bool) \<Rightarrow> log_event \<Rightarrow> bool" where
  "in_time P e \<longleftrightarrow> (case ev_timestamp e of Some (Some t) \<Rightarrow> P t | _ \<Rightarrow> False)"

definition dated :: "log_event \<Rightarrow> bool" where
  "dated e \<longleftrightarrow> ev_timestamp e \<noteq> None"

definition valid_date :: "log_event \<Rightarrow> bool" where
  "valid_date e \<longleftrightarrow> in_time (\<lambda>_. True) e"

definition ev_time :: "log_event \<Rightarrow> int" where
  "ev_time e = (case ev_timestamp e of Some (Some t) \<Rightarrow> t | _ \<Rightarrow> 0)"

definition sort_dates :: "log_event list \<Rightarrow> log_event list" where
  "sort_dates es = (if list_all valid_date es then sort_key ev_time es else es)"

section \<open>Filters\<close>

definition duration_units :: "(char \<times> int) list" where
  "duration_units = [(CHR ''s'', 1000), (CHR ''m'', 60000), (CHR ''h'', 3600000), (CHR ''d'', 86400000), (CHR ''w'', 604800000)]"

text \<open>Digits and a unit; everything else throws, with examples of the forms after this message.\<close>

definition parseDuration :: "string \<Rightarrow> (int, string) result" where
  "parseDuration duration = (let digits = butlast duration; unit = map_of duration_units (last duration) in
     if digits = [] \<or> \<not> list_all is_digit digits \<or> unit = None
     then Failure (''Invalid duration format: '' @ duration)
     else Ok (int (digits_value digits) * the unit))"

text \<open>A cutoff further than 8.64e15 ms from the epoch is an invalid date, which nothing is later than.\<close>

definition since :: "int \<Rightarrow> log_event list \<Rightarrow> string \<Rightarrow> (log_event list, string) result" where
  "since now events duration = (case parseDuration duration of
      Failure e \<Rightarrow> Failure e
    | Ok ms \<Rightarrow> Ok (case date_of_number (of_int (now - ms)) of
          None \<Rightarrow> [] | Some cutoff \<Rightarrow> filter (in_time (\<lambda>t. cutoff \<le> t)) events))"

definition between :: "log_event list \<Rightarrow> js_date \<Rightarrow> js_date \<Rightarrow> log_event list" where
  "between events start finish = (case (start, finish) of
      (Some a, Some b) \<Rightarrow> filter (in_time (\<lambda>t. a \<le> t \<and> t \<le> b)) events | _ \<Rightarrow> [])"

definition filterByType :: "log_event list \<Rightarrow> string \<Rightarrow> log_event list" where
  "filterByType events metricType = filter (\<lambda>e. ev_type e = MetricEvent \<and> ev_metricType e = Some (JStr metricType)) events"

definition logs_of :: "log_event list \<Rightarrow> log_event list" where
  "logs_of events = filter isLogEvent events"

definition metrics_of :: "log_event list \<Rightarrow> log_event list" where
  "metrics_of events = filter isMetricEvent events"

definition latest_of :: "log_event list \<Rightarrow> string \<Rightarrow> log_event option" where
  "latest_of events metricType = (let filtered = filterByType events metricType in
     if filtered = [] then None else Some (last filtered))"

section \<open>Aggregations\<close>

text \<open>The set that the loop fills keeps the order of insertion.\<close>

fun add_types :: "log_event list \<Rightarrow> string list \<Rightarrow> string list" where
  "add_types [] types = types"
| "add_types (e # es) types = (case metric_name e of
      Some t \<Rightarrow> add_types es (if t \<in> set types then types else types @ [t]) | None \<Rightarrow> add_types es types)"

definition getMetricTypes :: "log_event list \<Rightarrow> string list" where
  "getMetricTypes events = add_types events []"

text \<open>What a plain object inherits: reading such a key before it is written gives a function or the prototype.\<close>

definition inherited_names :: "string list" where
  "inherited_names = [''constructor'', ''hasOwnProperty'', ''isPrototypeOf'', ''propertyIsEnumerable'', ''toLocaleString'',
     ''toString'', ''valueOf'', ''__proto__'', ''__defineGetter__'', ''__defineSetter__'', ''__lookupGetter__'', ''__lookupSetter__'']"

text \<open>None: the inherited value has no \<open>push\<close>, and the call throws.\<close>

fun add_groups :: "log_event list \<Rightarrow> (string \<times> log_event list) list \<Rightarrow> (string \<times> log_event list) list option" where
  "add_groups [] groups = Some groups"
| "add_groups (e # es) groups = (case metric_name e of None \<Rightarrow> add_groups es groups
    | Some t \<Rightarrow> (case map_of groups t of
          Some l \<Rightarrow> add_groups es (AList.update t (l @ [e]) groups)
        | None \<Rightarrow> if t \<in> set inherited_names then None else add_groups es (groups @ [(t, [e])])))"

definition groupByMetricType :: "log_event list \<Rightarrow> (string \<times> log_event list) list option" where
  "groupByMetricType events = add_groups events []"

definition latestByType :: "log_event list \<Rightarrow> (string \<times> log_event) list" where
  "latestByType events = concat (map (\<lambda>t. case latest_of events t of
      Some e \<Rightarrow> if t = ''__proto__'' then [] else [(t, e)] | None \<Rightarrow> []) (getMetricTypes events))"

text \<open>A count that starts from an inherited function is its text with a 1 appended for every event; the
  prototype cannot be replaced by a text.\<close>

datatype event_count = Count nat | Garbled nat

fun next_count :: "event_count \<Rightarrow> event_count" where
  "next_count (Count n) = Count (Suc n)"
| "next_count (Garbled n) = Garbled (Suc n)"

fun add_counts :: "log_event list \<Rightarrow> (string \<times> event_count) list \<Rightarrow> (string \<times> event_count) list" where
  "add_counts [] counts = counts"
| "add_counts (e # es) counts = add_counts es (case metric_name e of None \<Rightarrow> counts
    | Some t \<Rightarrow> if t = ''__proto__'' then counts
        else (case map_of counts t of
          Some n \<Rightarrow> AList.update t (next_count n) counts
        | None \<Rightarrow> counts @ [(t, if t \<in> set inherited_names then Garbled 1 else Count 1)]))"

definition countByType :: "log_event list \<Rightarrow> (string \<times> event_count) list" where
  "countByType events = add_counts events []"

text \<open>\<open>valueKey\<close> of the object of each dated metric of the type, where it is a number.\<close>

definition number_at :: "json \<Rightarrow> string \<Rightarrow> rat option" where
  "number_at v k = (case v of JObj kvs \<Rightarrow> (case map_of kvs k of Some (JNum q) \<Rightarrow> Some q | _ \<Rightarrow> None) | _ \<Rightarrow> None)"

definition extractTimeSeries :: "log_event list \<Rightarrow> string \<Rightarrow> string \<Rightarrow> (js_date \<times> rat) list" where
  "extractTimeSeries events metricType valueKey =
     map (\<lambda>e. (the (ev_timestamp e), the (number_at (ev_data e) valueKey)))
       (filter (\<lambda>e. dated e \<and> number_at (ev_data e) valueKey \<noteq> None) (filterByType events metricType))"

section \<open>Windows and runs\<close>

datatype time_window = Window_1m | Window_5m | Window_15m | Window_1h | Window_4h | Window_1d

fun windowMs :: "time_window \<Rightarrow> int" where
  "windowMs Window_1m = 60000"
| "windowMs Window_5m = 300000"
| "windowMs Window_15m = 900000"
| "windowMs Window_1h = 3600000"
| "windowMs Window_4h = 14400000"
| "windowMs Window_1d = 86400000"

definition windowStart :: "int \<Rightarrow> log_event \<Rightarrow> js_date" where
  "windowStart ms e = (case ev_timestamp e of Some (Some t) \<Rightarrow> Some (t div ms * ms) | _ \<Rightarrow> None)"

fun add_windows :: "int \<Rightarrow> log_event list \<Rightarrow> (js_date \<times> log_event list) list \<Rightarrow> (js_date \<times> log_event list) list" where
  "add_windows ms [] groups = groups"
| "add_windows ms (e # es) groups = (let k = windowStart ms e in
     add_windows ms es (case map_of groups k of
         Some l \<Rightarrow> AList.update k (l @ [e]) groups | None \<Rightarrow> groups @ [(k, [e])]))"

definition groupByTimeWindow :: "log_event list \<Rightarrow> time_window \<Rightarrow> log_event list list" where
  "groupByTimeWindow events window = (let validEvents = filter dated events;
      groups = add_windows (windowMs window) validEvents [];
      keys = map fst groups;
      sortedKeys = (if None \<in> set keys then keys else sort_key the keys) in
     map (\<lambda>k. the (map_of groups k)) sortedKeys)"

text \<open>The gap between an event and the one before it is more than the threshold.\<close>

definition new_run :: "int \<Rightarrow> log_event \<Rightarrow> log_event \<Rightarrow> bool" where
  "new_run gapThreshold prev e \<longleftrightarrow> in_time (\<lambda>t. in_time (\<lambda>s. t - s > gapThreshold) prev) e"

fun run_loop :: "int \<Rightarrow> log_event \<Rightarrow> log_event list \<Rightarrow> log_event list list \<Rightarrow> log_event list \<Rightarrow> log_event list list" where
  "run_loop gapThreshold prev currentRun runs [] = runs @ [currentRun]"
| "run_loop gapThreshold prev currentRun runs (e # es) =
     (if new_run gapThreshold prev e then run_loop gapThreshold e [e] (runs @ [currentRun]) es
      else run_loop gapThreshold e (currentRun @ [e]) runs es)"

definition groupByRun :: "log_event list \<Rightarrow> int \<Rightarrow> log_event list list" where
  "groupByRun events gapThreshold = (case sort_dates (filter dated events) of
      [] \<Rightarrow> [] | e # es \<Rightarrow> run_loop gapThreshold e [e] [] es)"

section \<open>The events of the hook\<close>

text \<open>\<open>now i\<close> is the clock when the i-th event is stamped.\<close>

definition hook_events :: "page_env \<Rightarrow> (nat \<Rightarrow> int) \<Rightarrow> raw_log_entry list \<Rightarrow> log_event list" where
  "hook_events pe now rawLogs = (let logEntries = map (\<lambda>l. l\<lparr>re_timestamp := None\<rparr>) rawLogs;
      parsedEvents = parseEvents pe logEntries;
      stamped = map (\<lambda>(i, event). event\<lparr>ev_timestamp := first_given (ev_timestamp event) (Some (Some (now i)))\<rparr>)
                  (enumerate 0 parsedEvents) in
     sort_dates stamped)"

section \<open>The aggregations agree\<close>

lemma update_table:
  "distinct ks \<Longrightarrow> k \<in> set ks \<Longrightarrow> AList.update k v (map (\<lambda>s. (s, f s)) ks) = map (\<lambda>s. (s, (f(k := v)) s)) ks"
  by (induction ks) auto

lemma metric_of_type:
  "t \<noteq> [] \<Longrightarrow> filterByType es t = filter (\<lambda>e. metric_name e = Some t) es"
  unfolding filterByType_def by (rule filter_cong [OF refl]) (auto simp: metric_name_def split: option.splits json.splits if_splits)

lemma metric_name_nonempty: "metric_name e = Some t \<Longrightarrow> t \<noteq> []"
  by (auto simp: metric_name_def split: option.splits json.splits if_splits)

lemma add_types_append: "add_types (es @ fs) ts = add_types fs (add_types es ts)"
  by (induction es arbitrary: ts) (auto split: option.split)

lemma add_groups_append: "add_groups (es @ fs) g = Option.bind (add_groups es g) (add_groups fs)"
  by (induction es arbitrary: g) (auto split: option.split)

lemma add_counts_append: "add_counts (es @ fs) c = add_counts fs (add_counts es c)"
  by (induction es arbitrary: c) simp_all

lemma add_windows_append: "add_windows ms (es @ fs) g = add_windows ms fs (add_windows ms es g)"
  by (induction es arbitrary: g) (simp_all add: Let_def)

lemma types_snoc: "getMetricTypes (es @ [e]) = (case metric_name e of
    Some t \<Rightarrow> if t \<in> set (getMetricTypes es) then getMetricTypes es else getMetricTypes es @ [t] | None \<Rightarrow> getMetricTypes es)"
  by (simp add: getMetricTypes_def add_types_append split: option.split)

lemma types_distinct [simp]: "distinct (getMetricTypes es)"
  by (induction es rule: rev_induct) (auto simp: types_snoc split: option.split, simp add: getMetricTypes_def)

lemma types_set: "set (getMetricTypes es) = {t. \<exists>e\<in>set es. metric_name e = Some t}"
  by (induction es rule: rev_induct) (auto simp: types_snoc split: option.split, simp add: getMetricTypes_def)

lemma types_nonempty: "t \<in> set (getMetricTypes es) \<Longrightarrow> t \<noteq> []"
  using metric_name_nonempty by (auto simp: types_set)

lemma by_type_snoc:
  "t \<noteq> [] \<Longrightarrow> filterByType (es @ [e]) t = filterByType es t @ (if metric_name e = Some t then [e] else [])"
  by (simp add: metric_of_type)

lemma by_type_new: "t \<noteq> [] \<Longrightarrow> t \<notin> set (getMetricTypes es) \<Longrightarrow> filterByType es t = []"
  by (auto simp: metric_of_type types_set filter_empty_conv)

definition groups_spec :: "log_event list \<Rightarrow> (string \<times> log_event list) list" where
  "groups_spec es = map (\<lambda>t. (t, filterByType es t)) (getMetricTypes es)"

lemma groups_spec_snoc:
  "groups_spec (es @ [e]) = (case metric_name e of None \<Rightarrow> groups_spec es
     | Some t \<Rightarrow> if t \<in> set (getMetricTypes es) then AList.update t (filterByType es t @ [e]) (groups_spec es)
         else groups_spec es @ [(t, [e])])"
proof (cases "metric_name e")
  case None
  then show ?thesis by (auto simp: groups_spec_def types_snoc by_type_snoc types_nonempty)
next
  case (Some t)
  have other: "s \<in> set (getMetricTypes es) \<Longrightarrow> filterByType (es @ [e]) s = filterByType es s @ (if s = t then [e] else [])" for s
    using Some by (auto simp: by_type_snoc types_nonempty)
  show ?thesis
    using Some other by_type_new [of t es] by_type_snoc [of t es e] metric_name_nonempty [OF Some]
    by (auto simp: groups_spec_def types_snoc update_table intro!: map_cong)
qed

lemma groups_spec_lookup: "map_of (groups_spec es) t = (if t \<in> set (getMetricTypes es) then Some (filterByType es t) else None)"
  by (simp add: groups_spec_def map_of_map_restrict restrict_map_def)

lemma groupByMetricType_spec:
  "groupByMetricType es = (if set (getMetricTypes es) \<inter> set inherited_names = {} then Some (groups_spec es) else None)"
proof (induction es rule: rev_induct)
  case Nil
  then show ?case by (simp add: groupByMetricType_def groups_spec_def getMetricTypes_def)
next
  case (snoc e es)
  then show ?case
    by (cases "metric_name e")
      (auto simp: groupByMetricType_def add_groups_append groups_spec_snoc groups_spec_lookup types_snoc)
qed

definition count_of :: "log_event list \<Rightarrow> string \<Rightarrow> event_count" where
  "count_of es t = (if t \<in> set inherited_names then Garbled else Count) (length (filterByType es t))"

definition counted_types :: "log_event list \<Rightarrow> string list" where
  "counted_types es = filter (\<lambda>t. t \<noteq> ''__proto__'') (getMetricTypes es)"

lemma counted_types_snoc: "counted_types (es @ [e]) = (case metric_name e of None \<Rightarrow> counted_types es
    | Some t \<Rightarrow> if t = ''__proto__'' \<or> t \<in> set (counted_types es) then counted_types es else counted_types es @ [t])"
  by (auto simp: counted_types_def types_snoc split: option.split)

lemma count_of_snoc:
  "t \<noteq> [] \<Longrightarrow> count_of (es @ [e]) t = (if metric_name e = Some t then next_count (count_of es t) else count_of es t)"
  by (simp add: count_of_def by_type_snoc)

lemma countByType_spec: "countByType es = map (\<lambda>t. (t, count_of es t)) (counted_types es)"
proof (induction es rule: rev_induct)
  case Nil
  then show ?case by (simp add: countByType_def counted_types_def getMetricTypes_def)
next
  case (snoc e es)
  have kept: "t \<in> set (counted_types es) \<Longrightarrow> t \<noteq> []" "distinct (counted_types es)" for t
    by (auto simp: counted_types_def dest: types_nonempty)
  have fresh: "t \<noteq> [] \<Longrightarrow> t \<noteq> ''__proto__'' \<Longrightarrow> t \<notin> set (counted_types es) \<Longrightarrow> filterByType es t = []" for t
    by (rule by_type_new) (auto simp: counted_types_def)
  have step: "countByType (es @ [e]) = add_counts [e] (map (\<lambda>t. (t, count_of es t)) (counted_types es))"
    using snoc by (simp add: countByType_def add_counts_append)
  show ?case
  proof (cases "metric_name e")
    case None
    then show ?thesis using kept(1) by (auto simp: step counted_types_snoc count_of_snoc)
  next
    case (Some t)
    have t: "t \<noteq> []" by (rule metric_name_nonempty [OF Some])
    consider "t = ''__proto__''" | "t \<noteq> ''__proto__''" "t \<in> set (counted_types es)" | "t \<noteq> ''__proto__''" "t \<notin> set (counted_types es)"
      by blast
    then show ?thesis
    proof cases
      case 1
      then have "counted_types (es @ [e]) = counted_types es" using Some by (simp add: counted_types_snoc)
      then show ?thesis using 1 Some kept(1) by (auto simp: step count_of_snoc counted_types_def)
    next
      case 2
      then show ?thesis using Some kept
        by (auto simp: step counted_types_snoc count_of_snoc map_of_map_restrict restrict_map_def update_table intro!: map_cong)
    next
      case 3
      then show ?thesis using Some kept t fresh [OF t 3]
        by (auto simp: step counted_types_snoc count_of_snoc map_of_map_restrict restrict_map_def) (simp_all add: count_of_def by_type_snoc)
    qed
  qed
qed

lemma latestByType_spec:
  "latestByType es = map (\<lambda>t. (t, last (filterByType es t))) (filter (\<lambda>t. t \<noteq> ''__proto__'') (getMetricTypes es))"
proof -
  have some: "filterByType es t \<noteq> []" if "t \<in> set (getMetricTypes es)" for t
    using that types_nonempty [OF that] by (auto simp: metric_of_type types_set filter_empty_conv)
  have "concat (map (\<lambda>t. case latest_of es t of Some e \<Rightarrow> if t = ''__proto__'' then [] else [(t, e)] | None \<Rightarrow> []) ts)
      = map (\<lambda>t. (t, last (filterByType es t))) (filter (\<lambda>t. t \<noteq> ''__proto__'') ts)"
    if "\<forall>t\<in>set ts. filterByType es t \<noteq> []" for ts
    using that by (induction ts) (auto simp: latest_of_def)
  then show ?thesis using some by (simp add: latestByType_def)
qed

text \<open>The three aggregations by type say the same as the filter by type, for every type that occurs and in the
  order in which the types first occur, except for the names that every object inherits: an event of such a
  type makes the grouping throw and turns the count into a text, and the type \<open>__proto__\<close> is lost.\<close>

theorem aggregations_agree:
  "set (getMetricTypes es) = {t. \<exists>e\<in>set es. metric_name e = Some t} \<and> distinct (getMetricTypes es)
   \<and> groupByMetricType es = (if set (getMetricTypes es) \<inter> set inherited_names = {}
       then Some (map (\<lambda>t. (t, filterByType es t)) (getMetricTypes es)) else None)
   \<and> countByType es = map (\<lambda>t. (t, (if t \<in> set inherited_names then Garbled else Count) (length (filterByType es t))))
       (filter (\<lambda>t. t \<noteq> ''__proto__'') (getMetricTypes es))
   \<and> latestByType es = map (\<lambda>t. (t, last (filterByType es t))) (filter (\<lambda>t. t \<noteq> ''__proto__'') (getMetricTypes es))"
  using types_set types_distinct groupByMetricType_spec countByType_spec latestByType_spec
  unfolding groups_spec_def count_of_def counted_types_def by simp

section \<open>Runs\<close>

lemma run_loop_cover: "concat (run_loop g p cur runs es) = concat runs @ cur @ es"
  by (induction es arbitrary: p cur runs) simp_all

definition good_runs :: "int \<Rightarrow> log_event list list \<Rightarrow> bool" where
  "good_runs g runs \<longleftrightarrow> [] \<notin> set runs \<and> (\<forall>r\<in>set runs. successively (\<lambda>a b. \<not> new_run g a b) r)
     \<and> successively (\<lambda>r r'. new_run g (last r) (hd r')) runs"

lemma good_runs_snoc:
  "good_runs g (runs @ [cur]) \<Longrightarrow> new_run g (last cur) e \<Longrightarrow> good_runs g ((runs @ [cur]) @ [[e]])"
  "good_runs g (runs @ [cur]) \<Longrightarrow> \<not> new_run g (last cur) e \<Longrightarrow> good_runs g (runs @ [cur @ [e]])"
  unfolding good_runs_def by (auto simp: successively_append_iff hd_append)

lemma run_loop_good: "good_runs g (runs @ [cur]) \<Longrightarrow> p = last cur \<Longrightarrow> good_runs g (run_loop g p cur runs es)"
proof (induction es arbitrary: p cur runs)
  case (Cons e es)
  show ?case
  proof (cases "new_run g p e")
    case True
    then show ?thesis
      using Cons.IH [of "runs @ [cur]" "[e]" e] good_runs_snoc(1) [OF Cons.prems(1)] Cons.prems(2) by simp
  next
    case False
    then show ?thesis
      using Cons.IH [of runs "cur @ [e]" e] good_runs_snoc(2) [OF Cons.prems(1)] Cons.prems(2) by simp
  qed
qed simp

lemma groupByRun_good: "good_runs g (groupByRun es g)" "concat (groupByRun es g) = sort_dates (filter dated es)"
  unfolding groupByRun_def
  by (auto split: list.split intro!: run_loop_good simp: run_loop_cover) (simp_all add: good_runs_def)

text \<open>The runs are a cut of the dated events in the order of time: nothing is lost or doubled, events are
  sorted when their dates are valid, inside a run no two neighbours are further apart than the threshold,
  and between two runs the gap is larger.\<close>

theorem groupByRun_cuts_at_gaps:
  assumes "list_all valid_date (filter dated events)"
  shows "concat (groupByRun events gap) = sort_key ev_time (filter dated events)
    \<and> (\<forall>r\<in>set (groupByRun events gap). r \<noteq> [] \<and> successively (\<lambda>a b. ev_time b - ev_time a \<le> gap) r)
    \<and> successively (\<lambda>r r'. ev_time (hd r') - ev_time (last r) > gap) (groupByRun events gap)"
proof -
  have valid: "new_run gap a b \<longleftrightarrow> ev_time b - ev_time a > gap" if "valid_date a" "valid_date b" for a b
    using that by (auto simp: new_run_def in_time_def valid_date_def ev_time_def split: option.splits)
  have cover: "concat (groupByRun events gap) = sort_key ev_time (filter dated events)"
    using assms by (simp add: groupByRun_good(2) sort_dates_def)
  have "set (concat (groupByRun events gap)) = set (filter dated events)"
    unfolding cover by simp
  then have all: "\<forall>r\<in>set (groupByRun events gap). \<forall>e\<in>set r. valid_date e"
    using assms by (force simp: list_all_iff)
  have good: "[] \<notin> set (groupByRun events gap)" "\<And>r. r \<in> set (groupByRun events gap) \<Longrightarrow> successively (\<lambda>a b. \<not> new_run gap a b) r"
    "successively (\<lambda>r r'. new_run gap (last r) (hd r')) (groupByRun events gap)"
    using groupByRun_good(1) [of gap events] by (simp_all add: good_runs_def)
  have inside: "successively (\<lambda>a b. ev_time b - ev_time a \<le> gap) r" if "r \<in> set (groupByRun events gap)" for r
    by (rule successively_mono [OF good(2) [OF that]]) (use all that valid in force)
  have "successively (\<lambda>r r'. ev_time (hd r') - ev_time (last r) > gap) (groupByRun events gap)"
    by (rule successively_mono [OF good(3)]) (use all good(1) valid in \<open>metis hd_in_set last_in_set\<close>)
  then show ?thesis using cover inside good(1) by blast
qed

text \<open>Two runs, six minutes apart, with the default threshold of five minutes.\<close>

definition demo_event :: "string \<Rightarrow> int \<Rightarrow> log_event" where
  "demo_event t time = \<lparr>ev_timestamp = Some (Some time), ev_type = MetricEvent, ev_data = JObj [(''_metric'', JStr t)],
     ev_metricType = Some (JStr t), ev_level = None, ev_raw = t\<rparr>"

theorem groupByRun_cuts_at_gaps_witness:
  "concat (groupByRun [demo_event ''b'' 400000, demo_event ''a'' 1000] 300000) = [demo_event ''a'' 1000, demo_event ''b'' 400000]
   \<and> groupByRun [demo_event ''b'' 400000, demo_event ''a'' 1000] 300000 = [[demo_event ''a'' 1000], [demo_event ''b'' 400000]]"
proof -
  have "list_all valid_date (filter dated [demo_event ''b'' 400000, demo_event ''a'' 1000])"
    by (simp add: valid_date_def in_time_def demo_event_def)
  from groupByRun_cuts_at_gaps [OF this, of 300000] show ?thesis
    by (simp add: groupByRun_def sort_dates_def dated_def valid_date_def new_run_def in_time_def ev_time_def demo_event_def)
qed

section \<open>Windows\<close>

lemma window_of_time:
  fixes k m t :: int
  assumes "0 < m" "m dvd k"
  shows "t div m * m = k \<longleftrightarrow> k \<le> t \<and> t < k + m"
proof -
  obtain j where k: "k = m * j" using assms(2) by (rule dvdE)
  have split: "t = m * (t div m) + t mod m" "0 \<le> t mod m" "t mod m < m" using assms(1) by simp_all
  show ?thesis
  proof
    assume "t div m * m = k"
    then have "m * (t div m) = k" by (simp add: mult.commute)
    then show "k \<le> t \<and> t < k + m" using split by linarith
  next
    assume r: "k \<le> t \<and> t < k + m"
    then have "t div m = j" using k by (intro int_div_pos_eq [of t m j "t - m * j"]) auto
    then show "t div m * m = k" using k by (simp add: mult.commute)
  qed
qed

lemma valid_date_in_time: "valid_date e \<Longrightarrow> in_time P e = P (ev_time e)"
  by (auto simp: valid_date_def in_time_def ev_time_def split: option.splits)

lemma valid_date_windowStart: "valid_date e \<Longrightarrow> windowStart ms e = Some (ev_time e div ms * ms)"
  by (auto simp: valid_date_def in_time_def ev_time_def windowStart_def split: option.splits)

lemma in_time_dated: "in_time P e \<Longrightarrow> dated e"
  by (auto simp: in_time_def dated_def split: option.splits)

definition window_keys :: "int \<Rightarrow> log_event list \<Rightarrow> js_date list" where
  "window_keys ms es = map fst (add_windows ms es [])"

lemma add_windows_spec:
  "add_windows ms es [] = map (\<lambda>k. (k, filter (\<lambda>e. windowStart ms e = k) es)) (window_keys ms es)
   \<and> distinct (window_keys ms es) \<and> set (window_keys ms es) = windowStart ms ` set es"
proof (induction es rule: rev_induct)
  case Nil
  then show ?case by (simp add: window_keys_def)
next
  case (snoc e es)
  let ?k = "windowStart ms e" and ?f = "\<lambda>k. filter (\<lambda>e. windowStart ms e = k) es"
  have IH: "add_windows ms es [] = map (\<lambda>k. (k, ?f k)) (window_keys ms es)" "distinct (window_keys ms es)"
    "set (window_keys ms es) = windowStart ms ` set es"
    using snoc by blast+
  have step: "add_windows ms (es @ [e]) [] = (if ?k \<in> set (window_keys ms es)
      then map (\<lambda>k. (k, (?f(?k := ?f ?k @ [e])) k)) (window_keys ms es)
      else map (\<lambda>k. (k, ?f k)) (window_keys ms es) @ [(?k, [e])])"
    using update_table [OF IH(2), of ?k "?f ?k @ [e]" ?f]
    by (simp add: add_windows_append IH(1) map_of_map_restrict restrict_map_def Let_def)
  have keys: "window_keys ms (es @ [e]) = (if ?k \<in> set (window_keys ms es) then window_keys ms es else window_keys ms es @ [?k])"
    by (simp add: window_keys_def [of ms "es @ [e]"] step comp_def)
  have new: "?k \<notin> set (window_keys ms es) \<Longrightarrow> ?f ?k = []"
    unfolding IH(3) filter_empty_conv by (metis imageI)
  show ?case
  proof (cases "?k \<in> set (window_keys ms es)")
    case True
    then show ?thesis using IH(2,3) by (auto simp: keys step)
  next
    case False
    then show ?thesis using IH(2,3) new by (auto simp: keys step)
  qed
qed

text \<open>The starts of the windows, in order, and the groups by them.\<close>

lemma window_starts:
  assumes "list_all valid_date (filter dated events)"
  obtains starts where "sorted starts" "distinct starts" "Some ` set starts = windowStart (windowMs window) ` set (filter dated events)"
    "groupByTimeWindow events window = map (\<lambda>k. filter (\<lambda>e. windowStart (windowMs window) e = Some k) (filter dated events)) starts"
proof -
  let ?ms = "windowMs window" and ?valid = "filter dated events"
  let ?keys = "window_keys ?ms ?valid"
  have keys: "set ?keys = windowStart ?ms ` set ?valid" "distinct ?keys"
    and groups: "add_windows ?ms ?valid [] = map (\<lambda>k. (k, filter (\<lambda>e. windowStart ?ms e = k) ?valid)) ?keys"
    using add_windows_spec [of ?ms ?valid] by blast+
  have "valid_date e" if "e \<in> set ?valid" for e
    using assms that unfolding list_all_iff by blast
  then have no_None: "None \<notin> set ?keys"
    unfolding keys(1) by (metis imageE option.distinct(1) valid_date_windowStart)
  define starts where "starts = map the (sort_key the ?keys)"
  have Some_starts: "sort_key the ?keys = map Some starts"
    unfolding starts_def map_map by (rule map_idI [symmetric]) (use no_None in \<open>metis comp_apply option.collapse set_sort\<close>)
  have "distinct (map Some starts)" using keys(2) unfolding Some_starts [symmetric] by simp
  then have distinct: "distinct starts" by (simp add: distinct_map)
  have "map fst (add_windows ?ms ?valid []) = ?keys" by (simp add: window_keys_def)
  then have "groupByTimeWindow events window = map (\<lambda>k. filter (\<lambda>e. windowStart ?ms e = k) ?valid) (sort_key the ?keys)"
    using no_None unfolding groupByTimeWindow_def Let_def
    by (simp add: groups map_of_map_restrict restrict_map_def cong: map_cong)
  then have rows: "groupByTimeWindow events window = map (\<lambda>k. filter (\<lambda>e. windowStart ?ms e = Some k) ?valid) starts"
    unfolding Some_starts map_map comp_def .
  have set_starts: "Some ` set starts = windowStart ?ms ` set ?valid"
    using arg_cong [OF Some_starts, of set] keys(1) by simp
  have "sorted starts" unfolding starts_def by (rule sorted_sort_key)
  then show thesis by (rule that [OF _ distinct set_starts rows])
qed

text \<open>The windows are in order of time without repetition, every window has exactly the events of its stretch of time
  in their order, and every dated event is in a window.\<close>

theorem groupByTimeWindow_partition:
  assumes "list_all valid_date (filter dated events)"
  shows "\<exists>starts. sorted starts \<and> distinct starts \<and> (\<forall>k\<in>set starts. windowMs window dvd k)
    \<and> groupByTimeWindow events window = map (\<lambda>k. filter (in_time (\<lambda>t. k \<le> t \<and> t < k + windowMs window)) events) starts
    \<and> set (concat (groupByTimeWindow events window)) = set (filter dated events)"
proof -
  let ?ms = "windowMs window" and ?valid = "filter dated events"
  have pos: "0 < ?ms" by (cases window) simp_all
  have valid: "valid_date e" if "e \<in> set ?valid" for e
    using assms that unfolding list_all_iff by blast
  obtain starts where starts: "sorted starts" "distinct starts" "Some ` set starts = windowStart ?ms ` set ?valid"
    and groups: "groupByTimeWindow events window = map (\<lambda>k. filter (\<lambda>e. windowStart ?ms e = Some k) ?valid) starts"
    by (rule window_starts [OF assms, where window = window])
  have within: "windowStart ?ms e = Some k \<longleftrightarrow> in_time (\<lambda>t. k \<le> t \<and> t < k + ?ms) e" if "e \<in> set ?valid" "?ms dvd k" for e k
    using window_of_time [OF pos that(2), of "ev_time e"]
    by (simp add: valid_date_windowStart [OF valid [OF that(1)]] valid_date_in_time [OF valid [OF that(1)]])
  have dvd: "?ms dvd k" if "k \<in> set starts" for k
  proof -
    have "Some k \<in> windowStart ?ms ` set ?valid" unfolding starts(3) [symmetric] using that by (rule imageI)
    then obtain e where "e \<in> set ?valid" "windowStart ?ms e = Some k" by (elim imageE) simp
    then show ?thesis using valid by (metis dvd_triv_right option.inject valid_date_windowStart)
  qed
  have rows: "groupByTimeWindow events window = map (\<lambda>k. filter (in_time (\<lambda>t. k \<le> t \<and> t < k + ?ms)) events) starts"
    unfolding groups filter_filter
  proof (rule map_cong [OF refl], rule filter_cong [OF refl])
    fix k e assume "k \<in> set starts" "e \<in> set events"
    then show "(dated e \<and> windowStart ?ms e = Some k) = in_time (\<lambda>t. k \<le> t \<and> t < k + ?ms) e"
      using within [of e k] dvd in_time_dated [of _ e] by auto
  qed
  have "\<exists>k\<in>set starts. in_time (\<lambda>t. k \<le> t \<and> t < k + ?ms) e" if "e \<in> set ?valid" for e
  proof -
    have "windowStart ?ms e \<in> Some ` set starts" unfolding starts(3) using that by (rule imageI)
    then obtain k where "k \<in> set starts" "windowStart ?ms e = Some k" by blast
    then show ?thesis using within [OF that dvd] by blast
  qed
  then have "e \<in> set (concat (groupByTimeWindow events window)) \<longleftrightarrow> e \<in> set ?valid" for e
    unfolding rows by (simp add: image_iff) (metis in_time_dated)
  then have "set (concat (groupByTimeWindow events window)) = set ?valid" by blast
  then show ?thesis using rows starts(1,2) dvd by blast
qed

theorem groupByTimeWindow_partition_witness:
  "groupByTimeWindow [demo_event ''b'' 400000, demo_event ''a'' 1000] Window_5m = [[demo_event ''a'' 1000], [demo_event ''b'' 400000]]
   \<and> set (concat (groupByTimeWindow [demo_event ''b'' 400000, demo_event ''a'' 1000] Window_5m))
      = {demo_event ''b'' 400000, demo_event ''a'' 1000}"
proof -
  have "list_all valid_date (filter dated [demo_event ''b'' 400000, demo_event ''a'' 1000])"
    by (simp add: valid_date_def in_time_def demo_event_def)
  then have "set (concat (groupByTimeWindow [demo_event ''b'' 400000, demo_event ''a'' 1000] Window_5m))
      = set (filter dated [demo_event ''b'' 400000, demo_event ''a'' 1000])"
    using groupByTimeWindow_partition by blast
  then show ?thesis
    by (simp add: groupByTimeWindow_def dated_def windowStart_def demo_event_def insert_commute)
qed

section \<open>The events of the hook\<close>

lemma sorted_stamps:
  assumes "mono (now :: nat \<Rightarrow> int)" "\<forall>e\<in>set es. ev_timestamp e = None"
  shows "sort_dates (map (\<lambda>(i, e). e\<lparr>ev_timestamp := first_given (ev_timestamp e) (Some (Some (now i)))\<rparr>) (enumerate k es))
    = map (\<lambda>(i, e). e\<lparr>ev_timestamp := Some (Some (now i))\<rparr>) (enumerate k es)"
proof -
  let ?l = "\<lambda>k. map (\<lambda>(i, e). e\<lparr>ev_timestamp := Some (Some (now i))\<rparr>) (enumerate k es)"
  have stamped: "map (\<lambda>(i, e). e\<lparr>ev_timestamp := first_given (ev_timestamp e) (Some (Some (now i)))\<rparr>) (enumerate k es) = ?l k"
    using assms(2) by (auto simp: first_given_def in_set_enumerate_eq)
  have "map ev_time (?l k) = map now [k..<k + length es]"
    by (rule nth_equalityI) (simp_all add: ev_time_def nth_enumerate_eq)
  then have "sorted (map ev_time (?l k))"
    using assms(1) by (simp add: sorted_iff_nth_mono monoD)
  then have "sort_key ev_time (?l k) = ?l k" by (rule sort_key_id_if_sorted)
  moreover have "list_all valid_date (?l k)"
    by (auto simp: list_all_iff valid_date_def in_time_def)
  ultimately show ?thesis unfolding stamped by (simp add: sort_dates_def)
qed

definition metric_type :: "page_env \<Rightarrow> raw_log_entry \<Rightarrow> json option" where
  "metric_type pe l = Option.bind (tryParseMetric pe (re_content l)) (\<lambda>m. map_of m ''_metric'')"

definition plain_metric :: "page_env \<Rightarrow> raw_log_entry \<Rightarrow> bool" where
  "plain_metric pe l \<longleftrightarrow> text_lines (re_content l) = [re_content l] \<and> \<not> has_stamp (re_content l) \<and> tryParseMetric pe (re_content l) \<noteq> None"

lemma plain_metric_event:
  assumes "plain_metric pe l"
  shows "ev_timestamp (parseLogLine pe (re_content l) None) = None" "ev_type (parseLogLine pe (re_content l) None) = MetricEvent"
    "ev_metricType (parseLogLine pe (re_content l) None) = metric_type pe l"
proof -
  have line: "stripTimestamp (re_content l) = re_content l" "extractTimestamp pe (re_content l) = None"
    "tryParseMetric pe (re_content l) \<noteq> None"
    using assms by (simp_all add: plain_metric_def stripTimestamp_def extractTimestamp_def)
  then obtain metric where m: "tryParseMetric pe (stripTimestamp (re_content l)) = Some metric" by auto
  show "ev_timestamp (parseLogLine pe (re_content l) None) = None"
    using m line(2) by (subst parse_metric_timestamp) simp_all
  show "ev_type (parseLogLine pe (re_content l) None) = MetricEvent"
    using parse_metric [of pe "re_content l" None] m by (simp add: isMetricEvent_def)
  show "ev_metricType (parseLogLine pe (re_content l) None) = metric_type pe l"
    using parse_metric_data [OF m] m line(1) by (simp add: metric_type_def)
qed

lemma stamped_by_type:
  assumes "\<forall>l\<in>set ls. plain_metric pe l"
  shows "map ev_raw (filterByType (map (\<lambda>(i, e). e\<lparr>ev_timestamp := d i\<rparr>) (enumerate k (map (\<lambda>l. parseLogLine pe (re_content l) None) ls))) t)
    = map re_content (filter (\<lambda>l. metric_type pe l = Some (JStr t)) ls)"
  using assms by (induction ls arbitrary: k) (auto simp: filterByType_def plain_metric_event)

lemma hook_events_plain:
  assumes "mono now" "\<forall>l\<in>set rawLogs. plain_metric pe l"
  shows "hook_events pe now rawLogs = map (\<lambda>(i, l). (parseLogLine pe (re_content l) None)\<lparr>ev_timestamp := Some (Some (now i))\<rparr>) (enumerate 0 rawLogs)"
proof -
  let ?es = "parseEvents pe (map (\<lambda>l. l\<lparr>re_timestamp := None\<rparr>) rawLogs)"
  have es: "?es = map (\<lambda>l. parseLogLine pe (re_content l) None) rawLogs"
    using assms(2) by (induction rawLogs) (simp_all add: parseEvents_def plain_metric_def)
  have "\<forall>e\<in>set ?es. ev_timestamp e = None"
    unfolding es using assms(2) plain_metric_event(1) by auto
  then have "hook_events pe now rawLogs = map (\<lambda>(i, e). e\<lparr>ev_timestamp := Some (Some (now i))\<rparr>) (enumerate 0 ?es)"
    unfolding hook_events_def Let_def by (rule sorted_stamps [OF assms(1)])
  also have "\<dots> = map (\<lambda>(i, l). (parseLogLine pe (re_content l) None)\<lparr>ev_timestamp := Some (Some (now i))\<rparr>) (enumerate 0 rawLogs)"
    unfolding es by (rule nth_equalityI) (simp_all add: nth_enumerate_eq)
  finally show ?thesis .
qed

text \<open>The hook drops the timestamps that the API sends: metrics whose lines carry no date of their own are all
  stamped with the time at which they are parsed, and stay in the order in which the API sent them. As the
  hook asks for the newest first, the latest event of a type, which is the last of the list, is the oldest one.\<close>

theorem hook_events_lose_their_time:
  assumes "mono now" "\<forall>l\<in>set rawLogs. plain_metric pe l"
  shows "map ev_raw (hook_events pe now rawLogs) = map re_content rawLogs
    \<and> map ev_timestamp (hook_events pe now rawLogs) = map (\<lambda>i. Some (Some (now i))) [0..<length rawLogs]
    \<and> map ev_raw (filterByType (hook_events pe now rawLogs) t) = map re_content (filter (\<lambda>l. metric_type pe l = Some (JStr t)) rawLogs)"
proof -
  note hook = hook_events_plain [OF assms]
  have "map ev_raw (hook_events pe now rawLogs) = map re_content rawLogs"
    "map ev_timestamp (hook_events pe now rawLogs) = map (\<lambda>i. Some (Some (now i))) [0..<length rawLogs]"
    unfolding hook by (rule nth_equalityI; simp add: nth_enumerate_eq)+
  moreover have "hook_events pe now rawLogs
      = map (\<lambda>(i, e). e\<lparr>ev_timestamp := Some (Some (now i))\<rparr>) (enumerate 0 (map (\<lambda>l. parseLogLine pe (re_content l) None) rawLogs))"
    unfolding hook by (rule nth_equalityI) (simp_all add: nth_enumerate_eq)
  ultimately show ?thesis using stamped_by_type [OF assms(2), of "\<lambda>i. Some (Some (now i))"] by simp
qed

text \<open>Two readings of a metric, the newest first, as the API answers the query of the hook.\<close>

definition demo_page :: page_env where
  "demo_page = \<lparr>pe_json_parse = (\<lambda>s. Some (JObj [(''_metric'', JStr ''price''), (''raw'', JStr s)])), pe_stringify = (\<lambda>_. []),
     pe_parseISO = (\<lambda>_. Some 0), pe_date = (\<lambda>_. None)\<rparr>"

definition newest_first :: "raw_log_entry list" where
  "newest_first = [\<lparr>re_date = ''20240102'', re_content = ''{2}'', re_timestamp = Some ''2024-01-02T00:00:00Z''\<rparr>,
     \<lparr>re_date = ''20240101'', re_content = ''{1}'', re_timestamp = Some ''2024-01-01T00:00:00Z''\<rparr>]"

theorem hook_events_lose_their_time_witness:
  "map ev_timestamp (hook_events demo_page (\<lambda>i. 5 + int i) newest_first) = [Some (Some 5), Some (Some 6)]
   \<and> map ev_raw (filterByType (hook_events demo_page (\<lambda>i. 5 + int i) newest_first) ''price'') = [''{2}'', ''{1}'']"
proof -
  have mono: "mono (\<lambda>i. 5 + int i)" by (simp add: mono_def)
  have plain: "\<forall>l\<in>set newest_first. plain_metric demo_page l"
    and price: "filter (\<lambda>l. metric_type demo_page l = Some (JStr ''price'')) newest_first = newest_first"
    by (simp_all add: plain_metric_def metric_type_def newest_first_def text_lines_def js_trim_def is_js_space_def has_stamp_def
        stamp_shape_def tryParseMetric_def json_body_def strip_level_def level_prefix_def level_names_def js_upper_def
        upper_char_def js_starts_with_def demo_page_def has_key_def)
  show ?thesis
    using hook_events_lose_their_time [OF mono plain, of "''price''"] price
    by (simp add: newest_first_def upt_rec)
qed

end
