(* ===== verification/BotLogs.thy ===== *)
theory BotLogs
  imports Events
begin

text \<open>
  frontend/src/hooks/use-bot-logs.ts: the state of the hook and what changes it. An event of the page is one
  piece of the code that runs without interruption: a click, a tick of the polling timer, the rest of a
  fetch when its answer arrives, a message of the stream. The effects of React run after the event that makes
  them due. The bot and the user are given while the hook is mounted; another bot, user or mode mounts it anew.
\<close>

section \<open>Queries\<close>

record page_query =
  pq_date :: "string option"
  pq_dateRange :: "string option"
  pq_lookbackDays :: "int option"
  pq_limit :: "int option"
  pq_offset :: "int option"
  pq_type :: "string option"
  pq_sort :: "string option"

definition DEFAULT_QUERY :: page_query where
  "DEFAULT_QUERY = \<lparr>pq_date = None, pq_dateRange = None, pq_lookbackDays = None, pq_limit = Some 1000, pq_offset = Some 0,
     pq_type = None, pq_sort = Some ''desc''\<rparr>"

definition DEFAULT_LOOKBACK_DAYS :: int where
  "DEFAULT_LOOKBACK_DAYS = 30"

definition MAX_LOG_ENTRIES :: nat where
  "MAX_LOG_ENTRIES = 10000"

text \<open>\<open>x || d\<close> for an optional number.\<close>

definition num_or :: "int option \<Rightarrow> int \<Rightarrow> int" where
  "num_or x d = (case x of None \<Rightarrow> d | Some n \<Rightarrow> if n = 0 then d else n)"

definition num_param :: "string \<Rightarrow> int option \<Rightarrow> (string \<times> string) list" where
  "num_param k x = (case x of None \<Rightarrow> [] | Some n \<Rightarrow> if n = 0 then [] else [(k, int_text n)])"

definition text_param :: "string \<Rightarrow> string option \<Rightarrow> (string \<times> string) list" where
  "text_param k x = (if truthy_opt x then [(k, the x)] else [])"

text \<open>\<open>today\<close> is the date of UTC in eight digits.\<close>

definition search_params :: "string \<Rightarrow> page_query \<Rightarrow> (string \<times> string) list" where
  "search_params today q =
     (if truthy_opt (pq_dateRange q) then [(''dateRange'', the (pq_dateRange q))]
      else if truthy_opt (pq_date q) then [(''date'', the (pq_date q))]
      else if num_param ''lookbackDays'' (pq_lookbackDays q) \<noteq> [] then num_param ''lookbackDays'' (pq_lookbackDays q)
      else [(''date'', today)])
     @ num_param ''limit'' (pq_limit q) @ num_param ''offset'' (pq_offset q)
     @ text_param ''type'' (pq_type q) @ text_param ''sort'' (pq_sort q)"

section \<open>State\<close>

datatype merge_mode = Replace | Append | Prepend

text \<open>What waits for the result of a fetch: nobody, \<open>loadMore\<close> with the query it asked for, or \<open>loadEarlierLogs\<close>
  with the offset of the next page.\<close>

datatype waiting = Nobody | More page_query | Earlier int

record fetch =
  fe_query :: page_query
  fe_merge :: merge_mode
  fe_wasHistoryLoaded :: bool
  fe_aborted :: bool
  fe_waiting :: waiting

datatype stream_state = NoStream | Opening | Live

record log_page =
  pl_logs :: "raw_log_entry list"
  pl_loading :: bool
  pl_error :: "string option"
  pl_query :: page_query
  pl_hasMore :: bool
  pl_total :: int
  pl_connected :: bool
  pl_lastUpdate :: "int option"
  pl_hasEarlierLogs :: bool
  pl_loadingEarlier :: bool
  pl_loadingMore :: bool
  pl_current :: "nat option"
  pl_next :: nat
  pl_fetches :: "nat \<Rightarrow> fetch option"
  pl_polling :: bool
  pl_paginated :: bool
  pl_loadingMoreRef :: bool
  pl_loadingEarlierRef :: bool
  pl_historyLoaded :: bool
  pl_pending :: "raw_log_entry list"
  pl_earlierOffset :: int
  pl_stream :: stream_state

record hook_props =
  hp_env :: page_env
  hp_streaming :: bool
  hp_autoRefresh :: bool
  hp_refreshInterval :: int
  hp_initialQuery :: page_query
  hp_sseAuth :: bool

definition entryKey :: "raw_log_entry \<Rightarrow> string" where
  "entryKey l = re_date l @ ''|'' @ re_content l"

definition last_entries :: "raw_log_entry list \<Rightarrow> raw_log_entry list" where
  "last_entries l = drop (length l - MAX_LOG_ENTRIES) l"

text \<open>The entries whose key none of the others has.\<close>

definition new_entries :: "raw_log_entry list \<Rightarrow> raw_log_entry list \<Rightarrow> raw_log_entry list" where
  "new_entries prev l = filter (\<lambda>x. entryKey x \<notin> entryKey ` set prev) l"

definition filterActive :: "page_query \<Rightarrow> bool" where
  "filterActive q \<longleftrightarrow> truthy_opt (pq_date q) \<or> truthy_opt (pq_dateRange q)"

definition liveMode :: "hook_props \<Rightarrow> log_page \<Rightarrow> bool" where
  "liveMode hp s \<longleftrightarrow> hp_streaming hp \<and> \<not> filterActive (pl_query s)"

section \<open>Polling and buffered updates\<close>

definition stopPolling :: "log_page \<Rightarrow> log_page" where
  "stopPolling s = s\<lparr>pl_polling := False\<rparr>"

definition startPolling :: "hook_props \<Rightarrow> log_page \<Rightarrow> log_page" where
  "startPolling hp s = s\<lparr>pl_polling := (0 < hp_refreshInterval hp)\<rparr>"

definition flushPendingUpdates :: "log_page \<Rightarrow> log_page" where
  "flushPendingUpdates s = (if pl_pending s = [] then s
     else s\<lparr>pl_pending := [], pl_logs := last_entries (pl_logs s @ new_entries (pl_logs s) (pl_pending s))\<rparr>)"

section \<open>Fetching\<close>

definition abort_current :: "log_page \<Rightarrow> log_page" where
  "abort_current s = (case pl_current s of None \<Rightarrow> s
     | Some i \<Rightarrow> (case pl_fetches s i of None \<Rightarrow> s
         | Some f \<Rightarrow> s\<lparr>pl_fetches := (pl_fetches s)(i \<mapsto> f\<lparr>fe_aborted := True\<rparr>)\<rparr>))"

text \<open>\<open>fetchLogs\<close> up to its await: the running fetch is aborted, and a fetch that replaces the history makes live
  updates wait.\<close>

definition fetchLogs :: "page_query \<Rightarrow> merge_mode \<Rightarrow> waiting \<Rightarrow> log_page \<Rightarrow> log_page" where
  "fetchLogs q m waiter s = (let s1 = abort_current s; i = pl_next s in
     s1\<lparr>pl_current := Some i, pl_next := Suc i,
        pl_historyLoaded := (if m = Replace then False else pl_historyLoaded s),
        pl_loading := (if m = Replace then True else pl_loading s), pl_error := None,
        pl_fetches := (pl_fetches s1)(i \<mapsto> \<lparr>fe_query = q, fe_merge = m, fe_wasHistoryLoaded = pl_historyLoaded s,
           fe_aborted = False, fe_waiting = waiter\<rparr>)\<rparr>)"

text \<open>The rest of \<open>loadMore\<close> and \<open>loadEarlierLogs\<close> once the fetch has returned.\<close>

definition resume :: "waiting \<Rightarrow> bool \<Rightarrow> log_page \<Rightarrow> log_page" where
  "resume waiter ok s = (case waiter of
      Nobody \<Rightarrow> s
    | More nextQuery \<Rightarrow> (if ok then s\<lparr>pl_query := nextQuery, pl_paginated := True\<rparr> else s)\<lparr>pl_loadingMoreRef := False, pl_loadingMore := False\<rparr>
    | Earlier nextOffset \<Rightarrow> (if ok then s\<lparr>pl_earlierOffset := nextOffset\<rparr> else s)\<lparr>pl_loadingEarlierRef := False, pl_loadingEarlier := False\<rparr>)"

definition finish_fetch :: "log_page \<Rightarrow> log_page" where
  "finish_fetch s = s\<lparr>pl_loading := False, pl_loadingEarlier := False\<rparr>"

text \<open>\<open>live\<close>: the newest page is shown in the order of time.\<close>

definition fetched_entries :: "hook_props \<Rightarrow> fetch \<Rightarrow> raw_log_entry list \<Rightarrow> raw_log_entry list" where
  "fetched_entries hp f entries = (let expanded = expandLogEntries entries in
     if hp_streaming hp \<and> \<not> filterActive (fe_query f) \<and> fe_merge f \<noteq> Append then rev expanded else expanded)"

definition show_fetched :: "hook_props \<Rightarrow> fetch \<Rightarrow> raw_log_entry list \<Rightarrow> bool \<Rightarrow> log_page \<Rightarrow> log_page" where
  "show_fetched hp f entries hasMore s = (let expanded = fetched_entries hp f entries in
     case fe_merge f of
      Append \<Rightarrow> s\<lparr>pl_logs := last_entries (pl_logs s @ new_entries (pl_logs s) expanded), pl_hasMore := hasMore\<rparr>
    | Prepend \<Rightarrow> s\<lparr>pl_logs := take MAX_LOG_ENTRIES (new_entries (pl_logs s) expanded @ pl_logs s), pl_hasEarlierLogs := hasMore\<rparr>
    | Replace \<Rightarrow> (let s1 = flushPendingUpdates (s\<lparr>pl_historyLoaded := True,
            pl_earlierOffset := num_or (pq_limit (fe_query f)) 100, pl_logs := last_entries expanded\<rparr>) in
        if hp_streaming hp \<and> \<not> filterActive (fe_query f) then s1\<lparr>pl_hasEarlierLogs := hasMore, pl_hasMore := False\<rparr>
        else s1\<lparr>pl_hasMore := hasMore, pl_hasEarlierLogs := False\<rparr>))"

text \<open>The answer: entries, \<open>hasMore\<close> and the total.\<close>

definition fetch_answered :: "hook_props \<Rightarrow> int \<Rightarrow> fetch \<Rightarrow> raw_log_entry list \<Rightarrow> bool \<Rightarrow> int \<Rightarrow> log_page \<Rightarrow> log_page" where
  "fetch_answered hp now f entries hasMore count s =
     finish_fetch ((show_fetched hp f entries hasMore s)\<lparr>pl_total := count, pl_lastUpdate := Some now\<rparr>)"

definition fetch_failed_with :: "fetch \<Rightarrow> string \<Rightarrow> log_page \<Rightarrow> log_page" where
  "fetch_failed_with f message s =
     (let s1 = (if fe_merge f = Replace then
          (let s0 = s\<lparr>pl_historyLoaded := fe_wasHistoryLoaded f\<rparr> in if fe_wasHistoryLoaded f then flushPendingUpdates s0 else s0) else s) in
      finish_fetch (s1\<lparr>pl_error := Some (if message = [] then ''Failed to fetch logs'' else message)\<rparr>))"

text \<open>An aborted fetch only lets its waiter go on; the answer of a fetch that is not under way is nothing.\<close>

definition settle :: "nat \<Rightarrow> (fetch \<Rightarrow> log_page \<Rightarrow> log_page) \<Rightarrow> bool \<Rightarrow> log_page \<Rightarrow> log_page" where
  "settle i act ok s = (case pl_fetches s i of None \<Rightarrow> s
     | Some f \<Rightarrow> (let s1 = s\<lparr>pl_fetches := (pl_fetches s)(i := None)\<rparr> in
         if fe_aborted f then resume (fe_waiting f) False s1 else resume (fe_waiting f) ok (act f s1)))"

section \<open>The stream\<close>

definition live_entries :: "hook_props \<Rightarrow> log_page \<Rightarrow> string \<Rightarrow> string \<Rightarrow> raw_log_entry list" where
  "live_entries hp s content timestamp =
     (let entries = expandLogEntries [\<lparr>re_date = timestamp, re_content = content, re_timestamp = Some timestamp\<rparr>] in
      if pq_type (pl_query s) = Some ''metrics''
      then filter (\<lambda>e. truthy_value (prop_of (pe_json_parse (hp_env hp) (re_content e)) ''_metric'')) entries else entries)"

definition handleUpdateEvent :: "hook_props \<Rightarrow> int \<Rightarrow> string \<Rightarrow> string \<Rightarrow> log_page \<Rightarrow> log_page" where
  "handleUpdateEvent hp now content timestamp s = (let entries = live_entries hp s content timestamp in
     if entries = [] then s
     else if \<not> pl_historyLoaded s then s\<lparr>pl_pending := pl_pending s @ entries\<rparr>
     else s\<lparr>pl_logs := last_entries (pl_logs s @ entries), pl_total := pl_total s + int (length entries), pl_lastUpdate := Some now\<rparr>)"

definition open_stream :: "hook_props \<Rightarrow> log_page \<Rightarrow> log_page" where
  "open_stream hp s = (if \<not> liveMode hp s then s
     else if \<not> hp_sseAuth hp then startPolling hp s else s\<lparr>pl_stream := Opening\<rparr>)"

definition stream_opened :: "log_page \<Rightarrow> log_page" where
  "stream_opened s = (if pl_stream s = Opening then stopPolling (s\<lparr>pl_connected := True, pl_stream := Live\<rparr>) else s)"

text \<open>The end and the failure of the stream.\<close>

definition stream_closed :: "hook_props \<Rightarrow> log_page \<Rightarrow> log_page" where
  "stream_closed hp s = (if pl_stream s = NoStream then s else startPolling hp (s\<lparr>pl_connected := False, pl_stream := NoStream\<rparr>))"

text \<open>The clean-up of the effect, which had a stream or polled because nobody was signed in.\<close>

definition close_stream :: "hook_props \<Rightarrow> log_page \<Rightarrow> log_page" where
  "close_stream hp s = stopPolling (if hp_sseAuth hp then s\<lparr>pl_connected := False, pl_stream := NoStream\<rparr> else s)"

text \<open>The effect runs again when the mode changes, or after \<open>refresh\<close>.\<close>

definition stream_effect :: "hook_props \<Rightarrow> bool \<Rightarrow> log_page \<Rightarrow> log_page \<Rightarrow> log_page" where
  "stream_effect hp again old s = (if liveMode hp old = liveMode hp s \<and> \<not> again then s
     else open_stream hp (if liveMode hp old then close_stream hp s else s))"

section \<open>Queries of the user\<close>

definition updateQuery :: "(page_query \<Rightarrow> page_query) \<Rightarrow> log_page \<Rightarrow> log_page" where
  "updateQuery params s = (let updatedQuery = (params (pl_query s))\<lparr>pq_offset := Some 0\<rparr> in
     fetchLogs updatedQuery Replace Nobody (s\<lparr>pl_query := updatedQuery, pl_paginated := False\<rparr>))"

definition none_if_empty :: "string option \<Rightarrow> string option" where
  "none_if_empty x = (if truthy_opt x then x else None)"

definition setDateFilter :: "string option \<Rightarrow> log_page \<Rightarrow> log_page" where
  "setDateFilter date = updateQuery (\<lambda>q. q\<lparr>pq_date := none_if_empty date, pq_dateRange := None, pq_lookbackDays := None\<rparr>)"

definition setDateRangeFilter :: "string \<Rightarrow> string \<Rightarrow> log_page \<Rightarrow> log_page" where
  "setDateRangeFilter startDate endDate = updateQuery (\<lambda>q. q\<lparr>
     pq_dateRange := Some (startDate @ (if js_includes startDate ''T'' then ''--'' else ''-'') @ endDate),
     pq_date := None, pq_lookbackDays := None\<rparr>)"

definition setLatestFilter :: "log_page \<Rightarrow> log_page" where
  "setLatestFilter = updateQuery (\<lambda>q. q\<lparr>pq_date := None, pq_dateRange := None, pq_lookbackDays := Some DEFAULT_LOOKBACK_DAYS\<rparr>)"

definition setSort :: "bool \<Rightarrow> log_page \<Rightarrow> log_page" where
  "setSort oldest_first = updateQuery (\<lambda>q. q\<lparr>pq_sort := Some (if oldest_first then ''asc'' else ''desc'')\<rparr>)"

definition refresh :: "log_page \<Rightarrow> log_page" where
  "refresh s = (let refreshQuery = (pl_query s)\<lparr>pq_offset := Some 0\<rparr> in
     fetchLogs refreshQuery Replace Nobody (s\<lparr>pl_query := refreshQuery, pl_paginated := False\<rparr>))"

definition loadMore :: "log_page \<Rightarrow> log_page" where
  "loadMore s = (if pl_loadingMoreRef s \<or> \<not> pl_hasMore s then s
     else (let nextQuery = (pl_query s)\<lparr>pq_offset := Some (num_or (pq_offset (pl_query s)) 0 + num_or (pq_limit (pl_query s)) 100)\<rparr> in
       fetchLogs nextQuery Append (More nextQuery) (s\<lparr>pl_loadingMoreRef := True, pl_loadingMore := True\<rparr>)))"

definition loadEarlierLogs :: "log_page \<Rightarrow> log_page" where
  "loadEarlierLogs s = (if pl_loadingEarlier s then s
     else (let limit = num_or (pq_limit (pl_query s)) 100; offset = num_or (Some (pl_earlierOffset s)) limit in
       fetchLogs ((pl_query s)\<lparr>pq_offset := Some offset\<rparr>) Prepend (Earlier (offset + limit))
         (s\<lparr>pl_loadingEarlierRef := True, pl_loadingEarlier := True\<rparr>)))"

text \<open>The text that is exported, or None when there is nothing.\<close>

definition exportLogs :: "log_page \<Rightarrow> string option" where
  "exportLogs s = (if pl_logs s = [] then None
     else Some (js_join [CHR 0x0A] (map (\<lambda>l. ''['' @ re_date l @ ''] '' @ re_content l) (pl_logs s))))"

section \<open>The life of the hook\<close>

definition poll_tick :: "log_page \<Rightarrow> log_page" where
  "poll_tick s = (if pl_polling s \<and> \<not> pl_paginated s \<and> \<not> pl_loadingMoreRef s \<and> \<not> pl_loadingEarlierRef s
     then fetchLogs (pl_query s) Replace Nobody s else s)"

definition blank_page :: "hook_props \<Rightarrow> log_page" where
  "blank_page hp = \<lparr>pl_logs = [], pl_loading = True, pl_error = None, pl_query = hp_initialQuery hp, pl_hasMore = False, pl_total = 0,
     pl_connected = False, pl_lastUpdate = None, pl_hasEarlierLogs = False, pl_loadingEarlier = False, pl_loadingMore = False,
     pl_current = None, pl_next = 0, pl_fetches = (\<lambda>_. None), pl_polling = False, pl_paginated = False, pl_loadingMoreRef = False,
     pl_loadingEarlierRef = False, pl_historyLoaded = False, pl_pending = [], pl_earlierOffset = 0, pl_stream = NoStream\<rparr>"

text \<open>The three effects of the first rendering, in their order.\<close>

definition mount :: "hook_props \<Rightarrow> log_page" where
  "mount hp = open_stream hp
     (let s = fetchLogs (hp_initialQuery hp) Replace Nobody (blank_page hp) in
      if \<not> hp_streaming hp \<and> hp_autoRefresh hp then startPolling hp s else s)"

datatype page_event =
    Tick
  | Answer nat int "raw_log_entry list" bool int
  | Fail nat string
  | StreamOpened
  | StreamUpdate int string string
  | StreamClosed
  | ClickMore
  | ClickEarlier
  | ClickRefresh
  | PickDate "string option"
  | PickRange string string
  | PickLatest
  | PickSort bool

fun page_step :: "hook_props \<Rightarrow> page_event \<Rightarrow> log_page \<Rightarrow> log_page" where
  "page_step hp Tick s = poll_tick s"
| "page_step hp (Answer i now entries hasMore count) s =
     stream_effect hp False s (settle i (\<lambda>f. fetch_answered hp now f entries hasMore count) True s)"
| "page_step hp (Fail i message) s = settle i (\<lambda>f. fetch_failed_with f message) False s"
| "page_step hp StreamOpened s = stream_opened s"
| "page_step hp (StreamUpdate now content timestamp) s =
     (if pl_stream s = Live then handleUpdateEvent hp now content timestamp s else s)"
| "page_step hp StreamClosed s = stream_closed hp s"
| "page_step hp ClickMore s = loadMore s"
| "page_step hp ClickEarlier s = loadEarlierLogs s"
| "page_step hp ClickRefresh s = stream_effect hp True s (refresh s)"
| "page_step hp (PickDate date) s = stream_effect hp False s (setDateFilter date s)"
| "page_step hp (PickRange a b) s = stream_effect hp False s (setDateRangeFilter a b s)"
| "page_step hp PickLatest s = stream_effect hp False s (setLatestFilter s)"
| "page_step hp (PickSort oldest_first) s = stream_effect hp False s (setSort oldest_first s)"

fun page_run :: "hook_props \<Rightarrow> page_event list \<Rightarrow> log_page \<Rightarrow> log_page" where
  "page_run hp [] s = s"
| "page_run hp (e # es) s = page_run hp es (page_step hp e s)"

section \<open>Messages of the stream\<close>

text \<open>\<open>split\<close> at two line ends, from left to right.\<close>

fun split_blocks :: "string \<Rightarrow> string list" where
  "split_blocks [] = [[]]"
| "split_blocks [x] = [[x]]"
| "split_blocks (x # y # zs) = (if x = CHR 0x0A \<and> y = CHR 0x0A then [] # split_blocks zs
     else (case split_blocks (y # zs) of [] \<Rightarrow> [[x]] | b # bs \<Rightarrow> (x # b) # bs))"

text \<open>One chunk: the complete messages, and the buffer that stays.\<close>

definition read_sse_chunk :: "string \<Rightarrow> string \<Rightarrow> string list \<times> string" where
  "read_sse_chunk buffer chunk = (let messages = split_blocks (buffer @ chunk) in (butlast messages, last messages))"

fun read_stream :: "string \<Rightarrow> string list \<Rightarrow> string list \<times> string" where
  "read_stream buffer [] = ([], buffer)"
| "read_stream buffer (c # cs) = (case read_sse_chunk buffer c of (ms, rest) \<Rightarrow>
     (case read_stream rest cs of (ms', buffer') \<Rightarrow> (ms @ ms', buffer')))"

fun add_line :: "string \<times> string \<Rightarrow> string \<Rightarrow> string \<times> string" where
  "add_line (eventType, data) line =
     (if js_starts_with line ''event: '' then (js_trim (drop 7 line), data)
      else if js_starts_with line ''data: '' then (eventType, data @ drop 6 line)
      else if js_starts_with line ''data:'' then (eventType, data @ drop 5 line)
      else (eventType, data))"

definition parseSSEMessage :: "string \<Rightarrow> string \<times> string" where
  "parseSSEMessage msg = foldl add_line (''message'', []) (split_at (CHR 0x0A) msg)"

text \<open>The data of the updates among the messages: blank messages, other events and empty data are passed over.\<close>

definition update_data :: "string list \<Rightarrow> string list" where
  "update_data messages = map snd (filter (\<lambda>(eventType, data). eventType = ''update'' \<and> data \<noteq> [])
     (map parseSSEMessage (filter (\<lambda>m. js_trim m \<noteq> []) messages)))"

section \<open>The invariant of the page\<close>

definition waits_more :: "log_page \<Rightarrow> nat \<Rightarrow> bool" where
  "waits_more s i \<longleftrightarrow> (\<exists>f q. pl_fetches s i = Some f \<and> fe_waiting f = More q)"

definition fetch_table_ok :: "log_page \<Rightarrow> bool" where
  "fetch_table_ok s \<longleftrightarrow> (\<forall>i f. pl_fetches s i = Some f \<longrightarrow> i < pl_next s \<and> (fe_aborted f \<or> pl_current s = Some i))
     \<and> (\<forall>i. waits_more s i \<longrightarrow> pl_loadingMoreRef s) \<and> (\<forall>i j. waits_more s i \<longrightarrow> waits_more s j \<longrightarrow> i = j)"

definition view_ok :: "log_page \<Rightarrow> bool" where
  "view_ok s \<longleftrightarrow> length (pl_logs s) \<le> MAX_LOG_ENTRIES \<and> (pl_connected s \<longleftrightarrow> pl_stream s = Live)
     \<and> (pl_connected s \<longrightarrow> \<not> pl_polling s) \<and> (pl_historyLoaded s \<longrightarrow> pl_pending s = [])"

lemma length_last_entries [simp]: "length (last_entries l) \<le> MAX_LOG_ENTRIES"
  by (simp add: last_entries_def)

lemma flush_fields [simp]:
  "pl_connected (flushPendingUpdates s) = pl_connected s" "pl_stream (flushPendingUpdates s) = pl_stream s"
  "pl_polling (flushPendingUpdates s) = pl_polling s" "pl_historyLoaded (flushPendingUpdates s) = pl_historyLoaded s"
  "pl_pending (flushPendingUpdates s) = []" "pl_fetches (flushPendingUpdates s) = pl_fetches s"
  "pl_next (flushPendingUpdates s) = pl_next s" "pl_current (flushPendingUpdates s) = pl_current s"
  "pl_loadingMoreRef (flushPendingUpdates s) = pl_loadingMoreRef s" "pl_query (flushPendingUpdates s) = pl_query s"
  by (simp_all add: flushPendingUpdates_def)

lemma flush_length: "length (pl_logs s) \<le> MAX_LOG_ENTRIES \<Longrightarrow> length (pl_logs (flushPendingUpdates s)) \<le> MAX_LOG_ENTRIES"
  by (simp add: flushPendingUpdates_def)

lemma abort_fields [simp]:
  "pl_logs (abort_current s) = pl_logs s" "pl_connected (abort_current s) = pl_connected s" "pl_stream (abort_current s) = pl_stream s"
  "pl_polling (abort_current s) = pl_polling s" "pl_pending (abort_current s) = pl_pending s" "pl_next (abort_current s) = pl_next s"
  "pl_loadingMoreRef (abort_current s) = pl_loadingMoreRef s" "pl_query (abort_current s) = pl_query s"
  by (simp_all add: abort_current_def split: option.split)

lemma view_fetch: "view_ok s \<Longrightarrow> view_ok (fetchLogs q m waiter s)"
  by (simp add: view_ok_def fetchLogs_def Let_def)

lemma view_same:
  assumes "view_ok s" "pl_logs s' = pl_logs s" "pl_connected s' = pl_connected s" "pl_stream s' = pl_stream s"
    "pl_polling s' = pl_polling s" "pl_historyLoaded s' = pl_historyLoaded s" "pl_pending s' = pl_pending s"
  shows "view_ok s'"
  using assms by (simp add: view_ok_def)

lemma view_resume: "view_ok s \<Longrightarrow> view_ok (resume waiter ok s)"
  by (erule view_same) (simp_all add: resume_def split: waiting.split)

lemma view_show: "view_ok s \<Longrightarrow> view_ok (show_fetched hp f entries hasMore s)"
  unfolding show_fetched_def Let_def
  by (cases "fe_merge f") (simp_all add: view_ok_def, simp add: flush_length)

lemma view_answered: "view_ok s \<Longrightarrow> view_ok (fetch_answered hp now f entries hasMore count s)"
  by (drule view_show [of _ hp f entries hasMore], erule view_same) (simp_all add: fetch_answered_def finish_fetch_def)

lemma view_failed: "view_ok s \<Longrightarrow> view_ok (fetch_failed_with f message s)"
  by (auto simp: view_ok_def fetch_failed_with_def finish_fetch_def Let_def flush_length)

lemma view_settle: "view_ok s \<Longrightarrow> (\<And>f s. view_ok s \<Longrightarrow> view_ok (act f s)) \<Longrightarrow> view_ok (settle i act ok s)"
proof (cases "pl_fetches s i")
  case (Some f)
  assume ok: "view_ok s" and act: "\<And>f s. view_ok s \<Longrightarrow> view_ok (act f s)"
  have "view_ok (s\<lparr>pl_fetches := (pl_fetches s)(i := None)\<rparr>)" using ok by (rule view_same) simp_all
  then show ?thesis using Some act by (simp add: settle_def Let_def view_resume)
qed (simp add: settle_def)

lemma view_streams:
  "view_ok s \<Longrightarrow> view_ok (close_stream hp s)" "view_ok s \<Longrightarrow> view_ok (stream_opened s)" "view_ok s \<Longrightarrow> view_ok (stream_closed hp s)"
  by (auto simp: view_ok_def close_stream_def stopPolling_def startPolling_def stream_opened_def stream_closed_def)

text \<open>With the rule that a stream belongs to the live mode; it is broken between a change of the query and the effect.\<close>

definition stream_ok :: "hook_props \<Rightarrow> log_page \<Rightarrow> bool" where
  "stream_ok hp s \<longleftrightarrow> view_ok s \<and> (pl_stream s \<noteq> NoStream \<longrightarrow> liveMode hp s \<and> hp_sseAuth hp)"

lemma stream_ok_view: "stream_ok hp s \<Longrightarrow> view_ok s"
  by (simp add: stream_ok_def)

lemma stream_same:
  assumes "stream_ok hp s" "view_ok s'" "pl_stream s' = pl_stream s" "pl_query s' = pl_query s"
  shows "stream_ok hp s'"
  using assms by (simp add: stream_ok_def liveMode_def)

lemma stream_effect_ok:
  assumes "stream_ok hp old" "view_ok s" "pl_stream s = pl_stream old"
  shows "stream_ok hp (stream_effect hp again old s)"
proof -
  have open_ok: "stream_ok hp (open_stream hp t)" if "view_ok t" "pl_stream t = NoStream" for t
    using that by (auto simp: open_stream_def stream_ok_def view_ok_def startPolling_def liveMode_def)
  show ?thesis
  proof (cases "liveMode hp old = liveMode hp s \<and> \<not> again")
    case True
    then show ?thesis using assms by (auto simp: stream_effect_def stream_ok_def)
  next
    case False
    have "pl_stream (if liveMode hp old then close_stream hp s else s) = NoStream"
      using assms by (auto simp: stream_ok_def close_stream_def stopPolling_def)
    then show ?thesis
      using False open_ok [of "if liveMode hp old then close_stream hp s else s"] assms(2) view_streams(1)
      by (auto simp: stream_effect_def)
  qed
qed

lemma fetch_fields [simp]:
  "pl_stream (fetchLogs q m waiter s) = pl_stream s" "pl_query (fetchLogs q m waiter s) = pl_query s"
  "pl_loadingMoreRef (fetchLogs q m waiter s) = pl_loadingMoreRef s"
  by (simp_all add: fetchLogs_def Let_def)

lemma settle_fields:
  assumes "\<And>f s. pl_stream (act f s) = pl_stream s" "\<And>f s. pl_query (act f s) = pl_query s"
  shows "pl_stream (settle i act ok s) = pl_stream s" "\<not> ok \<Longrightarrow> pl_query (settle i act ok s) = pl_query s"
  using assms by (auto simp: settle_def resume_def Let_def split: option.split waiting.split)

lemma act_fields [simp]:
  "pl_stream (fetch_answered hp now f entries hasMore count s) = pl_stream s"
  "pl_query (fetch_answered hp now f entries hasMore count s) = pl_query s"
  "pl_stream (fetch_failed_with f message s) = pl_stream s" "pl_query (fetch_failed_with f message s) = pl_query s"
  by (simp_all add: fetch_answered_def finish_fetch_def show_fetched_def fetch_failed_with_def Let_def split: merge_mode.split)

lemma clicks_view:
  assumes "view_ok s"
  shows "view_ok (updateQuery params s)" "pl_stream (updateQuery params s) = pl_stream s" "view_ok (refresh s)" "pl_stream (refresh s) = pl_stream s"
    "view_ok (loadMore s)" "pl_stream (loadMore s) = pl_stream s" "pl_query (loadMore s) = pl_query s"
    "view_ok (loadEarlierLogs s)" "pl_stream (loadEarlierLogs s) = pl_stream s" "pl_query (loadEarlierLogs s) = pl_query s"
proof -
  have "view_ok (s\<lparr>pl_query := q, pl_paginated := b\<rparr>)" "view_ok (s\<lparr>pl_loadingMoreRef := b, pl_loadingMore := b\<rparr>)"
    "view_ok (s\<lparr>pl_loadingEarlierRef := b, pl_loadingEarlier := b\<rparr>)" for q b
    using assms by (auto elim: view_same)
  then show "view_ok (updateQuery params s)" "pl_stream (updateQuery params s) = pl_stream s" "view_ok (refresh s)" "pl_stream (refresh s) = pl_stream s"
    "view_ok (loadMore s)" "pl_stream (loadMore s) = pl_stream s" "pl_query (loadMore s) = pl_query s"
    "view_ok (loadEarlierLogs s)" "pl_stream (loadEarlierLogs s) = pl_stream s" "pl_query (loadEarlierLogs s) = pl_query s"
    using assms by (simp_all add: updateQuery_def refresh_def loadMore_def loadEarlierLogs_def Let_def view_fetch)
qed

lemma page_step_stream_ok:
  assumes "stream_ok hp s"
  shows "stream_ok hp (page_step hp e s)"
proof -
  note v = stream_ok_view [OF assms]
  note query = clicks_view [OF v]
  show ?thesis
  proof (cases e)
    case Tick
    then show ?thesis using assms v by (auto simp: poll_tick_def view_fetch intro: stream_same)
  next
    case (Answer i now entries hasMore count)
    then show ?thesis
      using settle_fields(1) [where act = "\<lambda>f. fetch_answered hp now f entries hasMore count"]
      by (simp add: stream_effect_ok [OF assms] view_settle [OF v view_answered])
  next
    case (Fail i message)
    then show ?thesis
      using settle_fields [where act = "\<lambda>f. fetch_failed_with f message" and ok = False]
      by (simp add: stream_same [OF assms view_settle [OF v view_failed]])
  next
    case StreamOpened
    then show ?thesis using assms view_streams(2) [OF v]
      by (auto simp: stream_ok_def stream_opened_def stopPolling_def liveMode_def)
  next
    case (StreamUpdate now content timestamp)
    have "view_ok (handleUpdateEvent hp now content timestamp s)"
      using v by (auto simp: view_ok_def handleUpdateEvent_def Let_def)
    then show ?thesis using StreamUpdate assms
      by (auto simp: stream_ok_def handleUpdateEvent_def Let_def liveMode_def)
  next
    case StreamClosed
    then show ?thesis using assms view_streams(3) [OF v, of hp]
      by (auto simp: stream_ok_def stream_closed_def startPolling_def)
  next
    case ClickMore
    then show ?thesis using query by (simp add: stream_same [OF assms])
  next
    case ClickEarlier
    then show ?thesis using query by (simp add: stream_same [OF assms])
  qed (simp_all add: stream_effect_ok [OF assms] query setDateFilter_def setDateRangeFilter_def setLatestFilter_def setSort_def)
qed

section \<open>The table of fetches\<close>

lemma table_same:
  assumes "fetch_table_ok s" "pl_fetches s' = pl_fetches s" "pl_next s' = pl_next s" "pl_current s' = pl_current s"
    "pl_loadingMoreRef s' = pl_loadingMoreRef s"
  shows "fetch_table_ok s'"
  using assms by (simp add: fetch_table_ok_def waits_more_def)

lemma table_fetch:
  assumes "fetch_table_ok s" "\<And>r. waiter = More r \<Longrightarrow> pl_loadingMoreRef s \<and> (\<forall>i. \<not> waits_more s i)"
  shows "fetch_table_ok (fetchLogs q m waiter s)"
proof -
  let ?s = "fetchLogs q m waiter s"
  have entry: "pl_fetches ?s i = Some f \<Longrightarrow> i = pl_next s \<and> fe_waiting f = waiter
      \<or> i < pl_next s \<and> fe_aborted f \<and> (\<exists>g. pl_fetches s i = Some g \<and> fe_waiting f = fe_waiting g)" for i f
    using assms(1) unfolding fetchLogs_def abort_current_def fetch_table_ok_def Let_def
    by (auto split: option.splits if_splits) (metis option.inject option.distinct(1))+
  have new: "pl_current ?s = Some (pl_next s)" "pl_next ?s = Suc (pl_next s)"
    by (simp_all add: fetchLogs_def Let_def)
  have more: "waits_more ?s i \<Longrightarrow> waits_more s i \<or> i = pl_next s \<and> (\<exists>r. waiter = More r)" for i
    unfolding waits_more_def using entry by (metis)
  show ?thesis
    unfolding fetch_table_ok_def new fetch_fields
  proof (intro conjI allI impI)
    fix i f assume "pl_fetches ?s i = Some f"
    from entry [OF this] show "i < Suc (pl_next s)" "fe_aborted f \<or> Some (pl_next s) = Some i" by auto
  next
    fix i assume "waits_more ?s i"
    then show "pl_loadingMoreRef s" using more assms unfolding fetch_table_ok_def by metis
  next
    fix i j assume "waits_more ?s i" "waits_more ?s j"
    then show "i = j" using more assms unfolding fetch_table_ok_def by metis
  qed
qed

lemma table_settle:
  assumes "fetch_table_ok s"
    "\<And>f s. pl_fetches (act f s) = pl_fetches s \<and> pl_next (act f s) = pl_next s \<and> pl_current (act f s) = pl_current s
       \<and> pl_loadingMoreRef (act f s) = pl_loadingMoreRef s"
  shows "fetch_table_ok (settle i act ok s)"
proof (cases "pl_fetches s i")
  case (Some f)
  let ?s = "settle i act ok s"
  have fields: "pl_fetches ?s = (pl_fetches s)(i := None)" "pl_next ?s = pl_next s" "pl_current ?s = pl_current s"
    "pl_loadingMoreRef ?s = (if waits_more s i then False else pl_loadingMoreRef s)"
    using assms(2) Some by (simp_all add: settle_def resume_def Let_def waits_more_def split: waiting.split)
  have "waits_more ?s j \<longleftrightarrow> j \<noteq> i \<and> waits_more s j" for j
    by (simp add: waits_more_def fields)
  then show ?thesis
    using assms(1) unfolding fetch_table_ok_def fields by (auto split: if_splits)
qed (simp add: settle_def assms(1))

lemma act_table [simp]:
  "pl_fetches (fetch_answered hp now f entries hasMore count s) = pl_fetches s
   \<and> pl_next (fetch_answered hp now f entries hasMore count s) = pl_next s
   \<and> pl_current (fetch_answered hp now f entries hasMore count s) = pl_current s
   \<and> pl_loadingMoreRef (fetch_answered hp now f entries hasMore count s) = pl_loadingMoreRef s"
  "pl_fetches (fetch_failed_with f message s) = pl_fetches s \<and> pl_next (fetch_failed_with f message s) = pl_next s
   \<and> pl_current (fetch_failed_with f message s) = pl_current s
   \<and> pl_loadingMoreRef (fetch_failed_with f message s) = pl_loadingMoreRef s"
  by (simp_all add: fetch_answered_def finish_fetch_def show_fetched_def fetch_failed_with_def Let_def split: merge_mode.split)

lemma table_effect: "fetch_table_ok s \<Longrightarrow> fetch_table_ok (stream_effect hp again old s)"
  by (erule table_same)
    (simp_all add: stream_effect_def open_stream_def close_stream_def stopPolling_def startPolling_def)

lemma page_step_table_ok:
  assumes "fetch_table_ok s"
  shows "fetch_table_ok (page_step hp e s)"
proof -
  have "fetch_table_ok (s\<lparr>pl_query := q, pl_paginated := False\<rparr>)" for q
    by (rule table_same [OF assms]) simp_all
  then have query: "fetch_table_ok (updateQuery params s)" "fetch_table_ok (refresh s)" for params
    unfolding updateQuery_def refresh_def Let_def by (auto intro!: table_fetch)
  have none: "\<not> pl_loadingMoreRef s \<Longrightarrow> \<not> waits_more s i" for i
    using assms by (auto simp: fetch_table_ok_def)
  show ?thesis
  proof (cases e)
    case ClickMore
    have "fetch_table_ok (s\<lparr>pl_loadingMoreRef := True, pl_loadingMore := True\<rparr>)"
      using assms by (simp add: fetch_table_ok_def waits_more_def)
    then show ?thesis
      using ClickMore assms none by (auto simp: loadMore_def Let_def waits_more_def intro!: table_fetch)
  next
    case ClickEarlier
    have "fetch_table_ok (s\<lparr>pl_loadingEarlierRef := True, pl_loadingEarlier := True\<rparr>)"
      by (rule table_same [OF assms]) simp_all
    then show ?thesis using ClickEarlier assms by (auto simp: loadEarlierLogs_def Let_def intro!: table_fetch)
  next
    case (Answer i now entries hasMore count)
    then show ?thesis
      using table_settle [OF assms, of "\<lambda>f. fetch_answered hp now f entries hasMore count"] table_effect by simp
  next
    case (Fail i message)
    then show ?thesis using table_settle [OF assms, of "\<lambda>f. fetch_failed_with f message"] by simp
  next
    case Tick
    then show ?thesis using assms by (auto simp: poll_tick_def intro: table_fetch)
  qed (auto simp: query table_effect setDateFilter_def setDateRangeFilter_def setLatestFilter_def setSort_def stream_opened_def stopPolling_def
      stream_closed_def startPolling_def handleUpdateEvent_def Let_def intro: table_same [OF assms])
qed

lemma mount_ok: "stream_ok hp (mount hp)" "fetch_table_ok (mount hp)"
proof -
  have "view_ok (blank_page hp)" by (simp add: view_ok_def blank_page_def)
  then have v: "view_ok (fetchLogs (hp_initialQuery hp) Replace Nobody (blank_page hp))" by (rule view_fetch)
  have none: "pl_stream (fetchLogs (hp_initialQuery hp) Replace Nobody (blank_page hp)) = NoStream"
    "pl_connected (fetchLogs (hp_initialQuery hp) Replace Nobody (blank_page hp)) = False"
    by (simp_all add: fetchLogs_def blank_page_def abort_current_def Let_def)
  show "stream_ok hp (mount hp)"
    using v none by (auto simp: mount_def Let_def open_stream_def startPolling_def stream_ok_def view_ok_def liveMode_def)
  have "fetch_table_ok (blank_page hp)" by (simp add: fetch_table_ok_def waits_more_def blank_page_def)
  then have "fetch_table_ok (fetchLogs (hp_initialQuery hp) Replace Nobody (blank_page hp))" by (rule table_fetch) simp
  then show "fetch_table_ok (mount hp)"
    unfolding mount_def Let_def by (rule table_same) (simp_all add: open_stream_def startPolling_def)
qed

lemma page_run_ok:
  "stream_ok hp s \<and> fetch_table_ok s \<Longrightarrow> stream_ok hp (page_run hp es s) \<and> fetch_table_ok (page_run hp es s)"
  by (induction es arbitrary: s) (simp_all add: page_step_stream_ok page_step_table_ok)

text \<open>C27. Whatever happens to a mounted page, in any order: at most one fetch is under way that has not been aborted, and
  \<open>loadMore\<close> has at most one fetch waiting; at most 10000 entries are held; the page polls only while no stream
  is connected, and a stream is open only in the live mode; and no update waits in the buffer once the
  history is shown.\<close>

theorem page_invariant:
  "let s = page_run hp es (mount hp) in
     (\<exists>c. {i. \<exists>f. pl_fetches s i = Some f \<and> \<not> fe_aborted f} \<subseteq> {c}) \<and> (\<exists>c. {i. waits_more s i} \<subseteq> {c})
     \<and> length (pl_logs s) \<le> 10000 \<and> \<not> (pl_connected s \<and> pl_polling s)
     \<and> (if pl_stream s = NoStream then \<not> pl_connected s else liveMode hp s)
     \<and> (if pl_historyLoaded s then pl_pending s = [] else True)"
proof -
  define s where "s = page_run hp es (mount hp)"
  have ok: "stream_ok hp s" "fetch_table_ok s"
    unfolding s_def using page_run_ok mount_ok by blast+
  have "{i. \<exists>f. pl_fetches s i = Some f \<and> \<not> fe_aborted f} \<subseteq> {the (pl_current s)}"
    using ok(2) unfolding fetch_table_ok_def by force
  moreover have "\<exists>c. {i. waits_more s i} \<subseteq> {c}"
    using ok(2) unfolding fetch_table_ok_def by (metis (no_types, lifting) mem_Collect_eq singleton_iff subsetI)
  ultimately show ?thesis
    using ok(1) unfolding s_def [symmetric] Let_def stream_ok_def view_ok_def MAX_LOG_ENTRIES_def by auto
qed

section \<open>History and updates\<close>

text \<open>Messages of the stream, with the time of their arrival.\<close>

definition updates :: "(int \<times> string \<times> string) list \<Rightarrow> page_event list" where
  "updates us = map (\<lambda>(now, content, timestamp). StreamUpdate now content timestamp) us"

definition updated_entries :: "hook_props \<Rightarrow> log_page \<Rightarrow> (int \<times> string \<times> string) list \<Rightarrow> raw_log_entry list" where
  "updated_entries hp s us = concat (map (\<lambda>(now, content, timestamp). live_entries hp s content timestamp) us)"

lemma last_entries_last [simp]: "last_entries (last_entries a @ b) = last_entries (a @ b)"
  by (cases "length a \<le> MAX_LOG_ENTRIES") (simp_all add: last_entries_def, metis add.commute)

lemma flush_logs:
  "length (pl_logs s) \<le> MAX_LOG_ENTRIES \<Longrightarrow>
     pl_logs (flushPendingUpdates s) = last_entries (pl_logs s @ new_entries (pl_logs s) (pl_pending s))"
  by (simp add: flushPendingUpdates_def new_entries_def) (simp add: last_entries_def)

lemma live_entries_query: "pl_query s' = pl_query s \<Longrightarrow> live_entries hp s' c t = live_entries hp s c t"
  by (simp add: live_entries_def)

lemma page_run_append: "page_run hp (es @ fs) s = page_run hp fs (page_run hp es s)"
  by (induction es arbitrary: s) simp_all

lemma updates_pending: "pl_historyLoaded s \<Longrightarrow> pl_pending s = [] \<Longrightarrow> pl_pending (page_run hp (updates us) s) = []"
  by (induction us arbitrary: s) (auto simp: updates_def handleUpdateEvent_def Let_def)

lemma updates_buffered:
  assumes "pl_stream s = Live" "\<not> pl_historyLoaded s"
  shows "page_run hp (updates us) s = s\<lparr>pl_pending := pl_pending s @ updated_entries hp s us\<rparr>"
  using assms
proof (induction us arbitrary: s)
  case (Cons u us)
  obtain now c t where u: "u = (now, c, t)" by (cases u)
  let ?s = "s\<lparr>pl_pending := pl_pending s @ live_entries hp s c t\<rparr>"
  have "page_step hp (StreamUpdate now c t) s = ?s"
    using Cons.prems by (simp add: handleUpdateEvent_def Let_def)
  moreover have "page_run hp (updates us) ?s = ?s\<lparr>pl_pending := pl_pending ?s @ updated_entries hp ?s us\<rparr>"
    by (rule Cons.IH) (use Cons.prems in simp_all)
  ultimately show ?case
    by (simp add: updates_def u updated_entries_def live_entries_query [of ?s s])
qed (simp add: updates_def updated_entries_def)

lemma updates_shown:
  assumes "pl_stream s = Live" "pl_historyLoaded s" "length (pl_logs s) \<le> MAX_LOG_ENTRIES"
  shows "pl_logs (page_run hp (updates us) s) = last_entries (pl_logs s @ updated_entries hp s us)"
  using assms
proof (induction us arbitrary: s)
  case (Cons u us)
  obtain now c t where u: "u = (now, c, t)" by (cases u)
  let ?s = "handleUpdateEvent hp now c t s"
  have fields: "pl_stream ?s = Live" "pl_historyLoaded ?s" "pl_query ?s = pl_query s"
    "pl_logs ?s = last_entries (pl_logs s @ live_entries hp s c t)"
    using Cons.prems by (simp_all add: handleUpdateEvent_def Let_def last_entries_def)
  have "pl_logs (page_run hp (updates us) ?s) = last_entries (pl_logs ?s @ updated_entries hp ?s us)"
    by (rule Cons.IH) (simp_all add: fields)
  then show ?case
    using Cons.prems fields by (simp add: updates_def u updated_entries_def live_entries_query [OF fields(3)])
qed (simp add: updates_def updated_entries_def last_entries_def)

text \<open>The first page of the live view: the fetch of the history is under way and the stream is connected.\<close>

definition waits_for_history :: "log_page \<Rightarrow> nat \<Rightarrow> bool" where
  "waits_for_history s i \<longleftrightarrow> pl_stream s = Live \<and> \<not> pl_historyLoaded s \<and> pl_pending s = []
     \<and> (case pl_fetches s i of None \<Rightarrow> False
        | Some f \<Rightarrow> fe_merge f = Replace \<and> fe_waiting f = Nobody \<and> \<not> fe_aborted f \<and> fe_query f = pl_query s)"

lemma replace_answered:
  assumes "pl_fetches s i = Some f" "fe_merge f = Replace" "fe_waiting f = Nobody" "\<not> fe_aborted f" "fe_query f = pl_query s" "liveMode hp s"
  shows "page_step hp (Answer i now entries hasMore count) s
    = fetch_answered hp now f entries hasMore count (s\<lparr>pl_fetches := (pl_fetches s)(i := None)\<rparr>)"
    "fetched_entries hp f entries = rev (expandLogEntries entries)"
  using assms by (simp_all add: settle_def Let_def resume_def stream_effect_def liveMode_def fetched_entries_def)

lemma replace_shown:
  assumes "fe_merge f = Replace"
  shows "pl_logs (fetch_answered hp now f entries hasMore count s)
      = (let h = last_entries (fetched_entries hp f entries) in last_entries (h @ new_entries h (pl_pending s)))"
    "pl_historyLoaded (fetch_answered hp now f entries hasMore count s)" "pl_pending (fetch_answered hp now f entries hasMore count s) = []"
  using assms
  by (simp_all add: fetch_answered_def finish_fetch_def show_fetched_def Let_def flush_logs)

text \<open>C28. The live view is a function of what the server sent: updates that arrive before the history are shown after it,
  except those whose key the history has, then the later updates follow in order; all that is dropped are the
  oldest entries beyond 10000. So no update is lost, whenever the history arrives.\<close>

theorem live_view_is_history_then_updates:
  assumes "waits_for_history s i" "liveMode hp s"
  shows "let history = last_entries (rev (expandLogEntries entries));
             view = page_run hp (updates early @ Answer i now entries hasMore count # updates late) s
         in pl_logs view = last_entries (history @ new_entries history (updated_entries hp s early) @ updated_entries hp s late)
            \<and> pl_pending view = []"
proof -
  let ?early = "updated_entries hp s early" and ?late = "updated_entries hp s late"
  let ?history = "last_entries (rev (expandLogEntries entries))"
  obtain f where f: "pl_fetches s i = Some f" "fe_merge f = Replace" "fe_waiting f = Nobody" "\<not> fe_aborted f" "fe_query f = pl_query s"
    and s: "pl_stream s = Live" "\<not> pl_historyLoaded s" "pl_pending s = []"
    using assms(1) by (auto simp: waits_for_history_def split: option.splits)
  define s1 where "s1 = page_run hp (updates early) s"
  define s2 where "s2 = page_step hp (Answer i now entries hasMore count) s1"
  have s1: "s1 = s\<lparr>pl_pending := ?early\<rparr>"
    unfolding s1_def updates_buffered [OF s(1,2)] s(3) by simp
  have same: "pl_fetches s1 i = Some f" "fe_query f = pl_query s1" "liveMode hp s1" "pl_stream s1 = Live" "pl_query s1 = pl_query s"
    "pl_pending s1 = ?early"
    using f assms(2) s(1) by (simp_all add: s1 liveMode_def)
  note answered = replace_answered [OF same(1) f(2,3,4) same(2,3)]
  have s2: "pl_logs s2 = last_entries (?history @ new_entries ?history ?early)" "pl_stream s2 = Live" "pl_historyLoaded s2"
    "pl_query s2 = pl_query s" "pl_pending s2 = []"
    unfolding s2_def answered(1) using same replace_shown [OF f(2)] answered(2) by (simp_all add: Let_def)
  have run: "page_run hp (updates early @ Answer i now entries hasMore count # updates late) s = page_run hp (updates late) s2"
    unfolding s2_def s1_def by (simp add: page_run_append)
  have "pl_logs (page_run hp (updates late) s2) = last_entries (pl_logs s2 @ updated_entries hp s2 late)"
    by (rule updates_shown) (simp_all add: s2)
  moreover have "updated_entries hp s2 late = ?late"
    by (simp add: updated_entries_def live_entries_query [OF s2(4)])
  moreover have "pl_pending (page_run hp (updates late) s2) = []"
    using s2(3,5) by (rule updates_pending)
  ultimately show ?thesis by (simp add: run s2(1) Let_def)
qed

text \<open>The order is chosen on a live page: the answer is reversed whichever order was asked for. So the oldest lines come, the newest of them
  first, and the live lines follow below.\<close>

theorem chosen_order_is_reversed:
  assumes "liveMode hp s" "pl_next s = i" "pl_pending s = []"
  shows "let s1 = page_step hp (PickSort oldest_first) s in
      map_option (\<lambda>f. pq_sort (fe_query f)) (pl_fetches s1 i) = Some (Some (if oldest_first then ''asc'' else ''desc''))
      \<and> pl_logs (page_step hp (Answer i now entries hasMore count) s1) = last_entries (rev (expandLogEntries entries))"
proof -
  let ?q = "(pl_query s)\<lparr>pq_sort := Some (if oldest_first then ''asc'' else ''desc''), pq_offset := Some 0\<rparr>"
  define s1 where "s1 = page_step hp (PickSort oldest_first) s"
  have live: "liveMode hp (setSort oldest_first s)"
    using assms(1) by (simp add: setSort_def updateQuery_def liveMode_def Let_def filterActive_def fetchLogs_def abort_current_def split: option.split)
  then have s1: "s1 = setSort oldest_first s" using assms(1) by (simp add: s1_def stream_effect_def)
  have query: "pl_query s1 = ?q" "pl_pending s1 = []" and f: "pl_fetches s1 i = Some \<lparr>fe_query = ?q, fe_merge = Replace, fe_wasHistoryLoaded = pl_historyLoaded s,
      fe_aborted = False, fe_waiting = Nobody\<rparr>"
    using assms(2,3) by (simp_all add: s1 setSort_def updateQuery_def Let_def fetchLogs_def abort_current_def split: option.split)
  note answered = replace_answered [OF f]
  have "pl_logs (page_step hp (Answer i now entries hasMore count) s1) = last_entries (rev (expandLogEntries entries))"
    using answered query live [folded s1] by (simp add: replace_shown Let_def new_entries_def last_entries_def)
  then show ?thesis unfolding s1_def [symmetric] Let_def using f by simp
qed

text \<open>A page of a realtime bot.\<close>

definition demo_hook :: hook_props where
  "demo_hook = \<lparr>hp_env = \<lparr>pe_json_parse = (\<lambda>_. None), pe_stringify = (\<lambda>_. []), pe_parseISO = (\<lambda>_. None), pe_date = (\<lambda>_. None)\<rparr>,
     hp_streaming = True, hp_autoRefresh = False, hp_refreshInterval = 30000, hp_initialQuery = DEFAULT_QUERY, hp_sseAuth = True\<rparr>"

lemmas page_eval = mount_def blank_page_def demo_hook_def DEFAULT_QUERY_def fetchLogs_def abort_current_def open_stream_def
  liveMode_def filterActive_def startPolling_def stopPolling_def stream_opened_def Let_def

definition demo_opened :: log_page where
  "demo_opened = page_step demo_hook StreamOpened (mount demo_hook)"

theorem live_view_is_history_then_updates_witness:
  "pl_logs (page_run demo_hook (updates [(1, ''b'', ''t1'')] @ Answer 0 2 [\<lparr>re_date = ''d'', re_content = ''a'', re_timestamp = None\<rparr>] False 1
       # updates [(3, ''c'', ''t2'')]) demo_opened)
   = [\<lparr>re_date = ''d'', re_content = ''a'', re_timestamp = None\<rparr>, \<lparr>re_date = ''t1'', re_content = ''b'', re_timestamp = Some ''t1''\<rparr>,
      \<lparr>re_date = ''t2'', re_content = ''c'', re_timestamp = Some ''t2''\<rparr>]"
proof -
  have s: "waits_for_history demo_opened 0" "liveMode demo_hook demo_opened"
    by (simp_all add: demo_opened_def page_eval waits_for_history_def)
  have "live_entries demo_hook demo_opened c t = expandLogEntries [\<lparr>re_date = t, re_content = c, re_timestamp = Some t\<rparr>]" for c t
    by (simp add: live_entries_def Let_def demo_opened_def page_eval)
  then show ?thesis
    using live_view_is_history_then_updates [OF s, of "[\<lparr>re_date = ''d'', re_content = ''a'', re_timestamp = None\<rparr>]" "[(1, ''b'', ''t1'')]" 2 False 1
        "[(3, ''c'', ''t2'')]"]
    by (simp add: Let_def updated_entries_def expandLogEntries_def text_lines_def js_trim_def is_js_space_def last_entries_def
        MAX_LOG_ENTRIES_def new_entries_def entryKey_def)
qed

section \<open>A view that stops\<close>

text \<open>The user refreshes a live page and asks for earlier lines before the answer is there.\<close>

definition refresh_then_earlier :: "raw_log_entry list \<Rightarrow> raw_log_entry list \<Rightarrow> page_event list" where
  "refresh_then_earlier history earlier = [StreamOpened, Answer 0 1 history True 1, ClickRefresh, StreamOpened, ClickEarlier, Fail 1 [],
     Answer 2 2 earlier False 1]"

text \<open>Asking for earlier lines aborts a fetch that replaces the history, and nothing then marks the history as
  loaded: the stream is connected, no fetch is under way, nothing polls, no error is shown, and yet
  no update is shown any more, however many arrive.\<close>

theorem earlier_lines_stop_live_view:
  "let s = page_run demo_hook (refresh_then_earlier history earlier) (mount demo_hook) in
     pl_stream s = Live \<and> pl_fetches s = (\<lambda>_. None) \<and> \<not> pl_polling s \<and> \<not> pl_loading s \<and> pl_error s = None
     \<and> (\<forall>us. pl_logs (page_run demo_hook (updates us) s) = pl_logs s)"
proof -
  define s where "s = page_run demo_hook (refresh_then_earlier history earlier) (mount demo_hook)"
  have "pl_stream s = Live \<and> \<not> pl_historyLoaded s \<and> pl_fetches s = (\<lambda>_. None) \<and> \<not> pl_polling s \<and> \<not> pl_loading s \<and> pl_error s = None"
    unfolding s_def refresh_then_earlier_def
    by (simp add: page_eval settle_def resume_def fetch_answered_def finish_fetch_def show_fetched_def fetch_failed_with_def
        flushPendingUpdates_def stream_effect_def close_stream_def refresh_def loadEarlierLogs_def num_or_def fun_eq_iff)
  then show ?thesis
    unfolding s_def [symmetric] Let_def by (simp add: updates_buffered)
qed

section \<open>Chunks\<close>

lemma split_blocks_nonempty [simp]: "split_blocks s \<noteq> []"
  by (induction s rule: split_blocks.induct) (auto split: list.split)

lemma split_blocks_single: "split_blocks s = [t] \<Longrightarrow> t = s"
  by (induction s arbitrary: t rule: split_blocks.induct) (auto split: if_splits list.splits)

lemma split_blocks_append:
  "split_blocks (a @ b) = butlast (split_blocks a) @ split_blocks (last (split_blocks a) @ b)"
proof (induction a rule: split_blocks.induct)
  case (3 x y zs)
  show ?case
  proof (cases "x = CHR 0x0A \<and> y = CHR 0x0A")
    case True
    then show ?thesis using 3(1) by simp
  next
    case False
    obtain b0 bs where s: "split_blocks (y # zs) = b0 # bs" by (metis list.exhaust split_blocks_nonempty)
    have IH: "split_blocks (y # zs @ b) = butlast (b0 # bs) @ split_blocks (last (b0 # bs) @ b)"
      using 3(2) [OF False] s by simp
    have a: "split_blocks (x # y # zs) = (x # b0) # bs" using False s by simp
    have ab: "split_blocks (x # y # zs @ b) = (case split_blocks (y # zs @ b) of [] \<Rightarrow> [[x]] | c # cs \<Rightarrow> (x # c) # cs)"
      by (simp only: split_blocks.simps(3) False if_False append_Cons)
    show ?thesis
    proof (cases bs)
      case Nil
      then have "b0 = y # zs" using s split_blocks_single by metis
      then show ?thesis using a Nil by simp
    next
      case (Cons c cs)
      then show ?thesis using a ab IH by simp
    qed
  qed
qed simp_all

lemma split_blocks_last: "split_blocks (last (split_blocks s)) = [last (split_blocks s)]"
proof -
  have "split_blocks s = butlast (split_blocks s) @ split_blocks (last (split_blocks s))"
    using split_blocks_append [of s "[]"] by simp
  moreover have "split_blocks s = butlast (split_blocks s) @ [last (split_blocks s)]" by simp
  ultimately show ?thesis by (metis same_append_eq)
qed

text \<open>C29. However the network cuts the stream, the reader sees the same messages as if all of it had come at once,
  and keeps the same unfinished rest.\<close>

theorem chunks_do_not_matter:
  "read_stream [] chunks = (butlast (split_blocks (concat chunks)), last (split_blocks (concat chunks)))"
proof -
  have "split_blocks buffer = [buffer] \<Longrightarrow> read_stream buffer chunks
      = (butlast (split_blocks (buffer @ concat chunks)), last (split_blocks (buffer @ concat chunks)))" for buffer
  proof (induction chunks arbitrary: buffer)
    case (Cons c cs)
    let ?ms = "split_blocks (buffer @ c)"
    have "split_blocks (last ?ms) = [last ?ms]" by (rule split_blocks_last)
    from Cons.IH [OF this] show ?case
      by (simp add: read_sse_chunk_def Let_def split_blocks_append [of "buffer @ c" "concat cs", simplified] butlast_append)
  qed simp
  from this [of "[]"] show ?thesis by simp
qed

end
