(* ===== verification/LiveView.thy ===== *)
theory LiveView
  imports BotLogs Logs
begin

text \<open>
  The live view against the API: what the console compares when the history of logs.service.ts and the updates of
  logs.controller.ts meet.
\<close>

text \<open>An entry of a page as the browser reads it; the content is a text unless a line held another value as its
  message, which would make the console fail.\<close>

definition raw_of :: "log_entry \<Rightarrow> raw_log_entry" where
  "raw_of e = \<lparr>re_date = le_date e, re_content = (case le_content e of JStr s \<Rightarrow> s | _ \<Rightarrow> []),
     re_timestamp = (case le_timestamp e of JStr s \<Rightarrow> Some s | _ \<Rightarrow> None)\<rparr>"

definition answered :: "server \<Rightarrow> (int \<times> string) list \<Rightarrow> raw_log_entry list" where
  "answered sv ls = map (\<lambda>(day, line). raw_of (normalizeLine sv line (date_text day))) ls"

text \<open>The update that \<open>createSubscription\<close> writes for a message that arrives at a time.\<close>

definition update_of :: "int \<Rightarrow> string \<Rightarrow> raw_log_entry" where
  "update_of ms msg = \<lparr>re_date = iso_text ms, re_content = msg, re_timestamp = Some (iso_text ms)\<rparr>"

text \<open>The characters of numbers.\<close>

definition num_char :: "char \<Rightarrow> bool" where
  "num_char c \<longleftrightarrow> is_digit c \<or> c = CHR ''-'' \<or> c = CHR ''+''"

lemma num_chars:
  "list_all num_char (int_text n)" "list_all num_char s \<Longrightarrow> list_all num_char (pad_zero k s)" "list_all num_char (iso_year y)"
proof -
  have digits: "list_all is_digit s \<Longrightarrow> list_all num_char s" for s
    by (auto simp: list_all_iff num_char_def)
  have int: "list_all num_char (int_text n)" for n
    using digits [OF digits_nat_to_string] by (auto simp: int_text_def num_char_def)
  have pad: "list_all num_char s \<Longrightarrow> list_all num_char (pad_zero k s)" for k s
    by (auto simp: pad_zero_def list_all_iff num_char_def is_digit_def)
  show "list_all num_char (int_text n)" by (rule int)
  show "list_all num_char s \<Longrightarrow> list_all num_char (pad_zero k s)" by (rule pad)
  show "list_all num_char (iso_year y)"
    using pad int by (simp add: iso_year_def) (simp add: num_char_def)
qed

lemma date_chars: "list_all num_char (date_text t)"
  unfolding date_text_def using num_chars by simp

lemma bar_not_num: "list_all num_char s \<Longrightarrow> CHR ''|'' \<notin> set s"
  by (auto simp: list_all_iff num_char_def is_digit_def)

lemma T_not_num: "list_all num_char s \<Longrightarrow> CHR ''T'' \<notin> set s"
  by (auto simp: list_all_iff num_char_def is_digit_def)

lemma iso_chars: "CHR ''|'' \<notin> set (iso_text ms)" "CHR ''T'' \<in> set (iso_text ms)"
proof -
  have two: "CHR ''|'' \<notin> set (pad_zero k (int_text n))" "CHR ''|'' \<notin> set (iso_year n)" for k n
    by (rule bar_not_num, simp add: num_chars)+
  show "CHR ''|'' \<notin> set (iso_text ms)" using two by (simp add: iso_text_def Let_def)
  show "CHR ''T'' \<in> set (iso_text ms)" by (simp add: iso_text_def Let_def)
qed

lemma key_date:
  assumes "CHR ''|'' \<notin> set (re_date x)" "CHR ''|'' \<notin> set (re_date y)" "entryKey x = entryKey y"
  shows "re_date x = re_date y"
proof -
  have "takeWhile (\<lambda>c. c \<noteq> CHR ''|'') (entryKey z) = re_date z" if "CHR ''|'' \<notin> set (re_date z)" for z :: raw_log_entry
    using that unfolding entryKey_def by (subst takeWhile_append2) auto
  then show ?thesis using assms by metis
qed

lemma dates_expand: "x \<in> set (expandLogEntries es) \<Longrightarrow> \<exists>e\<in>set es. re_date x = re_date e"
  by (auto simp: expandLogEntries_def)

text \<open>The console tells an update from a line of the history by date and content, but the API dates a line with
  the day of its file and an update with the time of its arrival: no update is ever recognised in
  the history, so a line that arrives while the history is fetched, and is already in it, is shown twice.\<close>

theorem updates_never_recognised:
  "new_entries (last_entries (rev (expandLogEntries (answered sv ls)))) (expandLogEntries [update_of ms msg])
    = expandLogEntries [update_of ms msg]"
proof -
  have "entryKey x \<noteq> entryKey y"
    if "x \<in> set (last_entries (rev (expandLogEntries (answered sv ls))))" "y \<in> set (expandLogEntries [update_of ms msg])" for x y
  proof -
    have "x \<in> set (expandLogEntries (answered sv ls))"
      using that(1) unfolding last_entries_def by (metis in_set_dropD set_rev)
    then obtain day where x: "re_date x = date_text day"
      by (auto simp: answered_def raw_of_def normalizeLine_def plain_line_def dest!: dates_expand split: option.splits if_splits)
    have y: "re_date y = iso_text ms"
      using dates_expand [OF that(2)] by (simp add: update_of_def)
    have "re_date x \<noteq> re_date y"
      unfolding x y using iso_chars(2) T_not_num [OF date_chars] by metis
    then show ?thesis
      using key_date [of x y] bar_not_num [OF date_chars] iso_chars(1) x y by metis
  qed
  then show ?thesis
    unfolding new_entries_def by (intro filter_True) (metis imageE)
qed

end
