(* ===== verification/SseClient.thy ===== *)
theory SseClient
  imports Prelude "HOL-Library.AList"
begin

text \<open>
  frontend/src/lib/sse/sse-client.ts and sse-auth.ts: the pool of event sources with reconnection. A source is closed by the client
  or open to the events of the browser; a closed source fires none. Messages change nothing in the pool.
\<close>

section \<open>State\<close>

datatype ready_state = CONNECTING | OPEN | CLOSED

text \<open>\<open>maxReconnectAttempts\<close> and \<open>reconnectDelay\<close> of the call, which every reconnection of it keeps.\<close>

record sse_options =
  op_maxReconnectAttempts :: nat
  op_reconnectDelay :: nat

definition DEFAULT_OPTIONS :: sse_options where
  "DEFAULT_OPTIONS = \<lparr>op_maxReconnectAttempts = 5, op_reconnectDelay = 3000\<rparr>"

record event_source =
  es_url :: string
  es_options :: sse_options
  es_readyState :: ready_state

record retry_timer =
  rt_url :: string
  rt_options :: sse_options
  rt_delay :: nat

record sse_client =
  sc_connections :: "(string \<times> nat) list"
  sc_attempts :: "string \<Rightarrow> nat option"
  sc_timeouts :: "string \<Rightarrow> nat option"
  sc_sources :: "nat \<Rightarrow> event_source option"
  sc_timers :: "nat \<Rightarrow> retry_timer option"
  sc_next :: nat

definition new_client :: sse_client where
  "new_client = \<lparr>sc_connections = [], sc_attempts = (\<lambda>_. None), sc_timeouts = (\<lambda>_. None), sc_sources = (\<lambda>_. None),
     sc_timers = (\<lambda>_. None), sc_next = 0\<rparr>"

definition connection :: "sse_client \<Rightarrow> string \<Rightarrow> nat option" where
  "connection s url = map_of (sc_connections s) url"

section \<open>Operations\<close>

definition set_ready :: "nat \<Rightarrow> ready_state \<Rightarrow> sse_client \<Rightarrow> sse_client" where
  "set_ready i r s = s\<lparr>sc_sources := (sc_sources s)(i := map_option (\<lambda>x. x\<lparr>es_readyState := r\<rparr>) (sc_sources s i))\<rparr>"

definition disconnect :: "string \<Rightarrow> sse_client \<Rightarrow> sse_client" where
  "disconnect url s =
     (let s1 = (case connection s url of None \<Rightarrow> s
          | Some i \<Rightarrow> (set_ready i CLOSED s)\<lparr>sc_connections := AList.delete url (sc_connections s)\<rparr>);
        s2 = (case sc_timeouts s1 url of None \<Rightarrow> s1
          | Some j \<Rightarrow> s1\<lparr>sc_timers := (sc_timers s1)(j := None), sc_timeouts := (sc_timeouts s1)(url := None)\<rparr>)
      in s2\<lparr>sc_attempts := (sc_attempts s2)(url := None)\<rparr>)"

text \<open>The inner \<open>connect\<close>; the constructor of the source may throw.\<close>

definition open_source :: "string \<Rightarrow> sse_options \<Rightarrow> bool \<Rightarrow> sse_client \<Rightarrow> sse_client" where
  "open_source url opts ok s = (if \<not> ok then s else (let i = sc_next s in
     s\<lparr>sc_sources := (sc_sources s)(i \<mapsto> \<lparr>es_url = url, es_options = opts, es_readyState = CONNECTING\<rparr>),
       sc_connections := AList.update url i (sc_connections s), sc_next := Suc i\<rparr>))"

definition connect :: "string \<Rightarrow> sse_options \<Rightarrow> bool \<Rightarrow> sse_client \<Rightarrow> sse_client" where
  "connect url opts ok s = open_source url opts ok (disconnect url s)"

definition onopen :: "event_source \<Rightarrow> nat \<Rightarrow> sse_client \<Rightarrow> sse_client" where
  "onopen x i s = (set_ready i OPEN s)\<lparr>sc_attempts := (sc_attempts s)(es_url x := Some 0)\<rparr>"

text \<open>\<open>this.reconnectAttempts.get(url) || 0\<close>.\<close>

definition attempts_of :: "sse_client \<Rightarrow> string \<Rightarrow> nat" where
  "attempts_of s url = (case sc_attempts s url of None \<Rightarrow> 0 | Some n \<Rightarrow> n)"

definition onerror :: "event_source \<Rightarrow> nat \<Rightarrow> sse_client \<Rightarrow> sse_client" where
  "onerror x i s = (let url = es_url x; attempts = attempts_of s url;
      s1 = (set_ready i CLOSED s)\<lparr>sc_connections := AList.delete url (sc_connections s)\<rparr> in
     if attempts < op_maxReconnectAttempts (es_options x) then (let j = sc_next s1 in
       s1\<lparr>sc_attempts := (sc_attempts s1)(url := Some (Suc attempts)),
          sc_timers := (sc_timers s1)(j \<mapsto> \<lparr>rt_url = url, rt_options = es_options x,
             rt_delay = op_reconnectDelay (es_options x) * 2 ^ attempts\<rparr>),
          sc_timeouts := (sc_timeouts s1)(url := Some j), sc_next := Suc j\<rparr>)
     else s1\<lparr>sc_attempts := (sc_attempts s1)(url := None)\<rparr>)"

definition timer_fires :: "retry_timer \<Rightarrow> nat \<Rightarrow> bool \<Rightarrow> sse_client \<Rightarrow> sse_client" where
  "timer_fires t j ok s = open_source (rt_url t) (rt_options t) ok
     (s\<lparr>sc_timers := (sc_timers s)(j := None), sc_timeouts := (sc_timeouts s)(rt_url t := None)\<rparr>)"

definition disconnectAll :: "sse_client \<Rightarrow> sse_client" where
  "disconnectAll s = foldl (\<lambda>s url. disconnect url s) s (map fst (sc_connections s))"

definition isConnected :: "sse_client \<Rightarrow> string \<Rightarrow> bool" where
  "isConnected s url \<longleftrightarrow> (case connection s url of None \<Rightarrow> False
     | Some i \<Rightarrow> (case sc_sources s i of None \<Rightarrow> False | Some x \<Rightarrow> es_readyState x = OPEN))"

text \<open>\<open>connected\<close> and \<open>retryCount\<close>; the other two are always null.\<close>

definition getConnectionState :: "sse_client \<Rightarrow> string \<Rightarrow> bool \<times> nat" where
  "getConnectionState s url = (isConnected s url, attempts_of s url)"

definition getActiveConnections :: "sse_client \<Rightarrow> string list" where
  "getActiveConnections s = filter (isConnected s) (map fst (sc_connections s))"

section \<open>Events\<close>

datatype pool_event =
    Connect string sse_options bool
  | Disconnect string
  | DisconnectAll
  | Opened nat
  | Errored nat
  | Fired nat bool

definition live_source :: "sse_client \<Rightarrow> nat \<Rightarrow> event_source option" where
  "live_source s i = (case sc_sources s i of None \<Rightarrow> None | Some x \<Rightarrow> if es_readyState x = CLOSED then None else Some x)"

fun sse_step :: "pool_event \<Rightarrow> sse_client \<Rightarrow> sse_client" where
  "sse_step (Connect url opts ok) s = connect url opts ok s"
| "sse_step (Disconnect url) s = disconnect url s"
| "sse_step DisconnectAll s = disconnectAll s"
| "sse_step (Opened i) s = (case live_source s i of None \<Rightarrow> s | Some x \<Rightarrow> onopen x i s)"
| "sse_step (Errored i) s = (case live_source s i of None \<Rightarrow> s | Some x \<Rightarrow> onerror x i s)"
| "sse_step (Fired j ok) s = (case sc_timers s j of None \<Rightarrow> s | Some t \<Rightarrow> timer_fires t j ok s)"

fun sse_run :: "pool_event list \<Rightarrow> sse_client \<Rightarrow> sse_client" where
  "sse_run [] s = s"
| "sse_run (e # es) s = sse_run es (sse_step e s)"

section \<open>One source or one timer for a URL\<close>

definition pool_ok :: "sse_client \<Rightarrow> bool" where
  "pool_ok s \<longleftrightarrow> (\<forall>i x. live_source s i = Some x \<longrightarrow> connection s (es_url x) = Some i)
     \<and> (\<forall>url i. connection s url = Some i \<longrightarrow> (\<exists>x. live_source s i = Some x \<and> es_url x = url) \<and> sc_timeouts s url = None)
     \<and> (\<forall>j t. sc_timers s j = Some t \<longrightarrow> sc_timeouts s (rt_url t) = Some j)
     \<and> (\<forall>url j. sc_timeouts s url = Some j \<longrightarrow> (\<exists>t. sc_timers s j = Some t \<and> rt_url t = url))
     \<and> (\<forall>i. sc_next s \<le> i \<longrightarrow> sc_sources s i = None \<and> sc_timers s i = None)"

lemma pool_okI:
  assumes "\<And>i x. live_source s i = Some x \<Longrightarrow> connection s (es_url x) = Some i"
    "\<And>url i. connection s url = Some i \<Longrightarrow> (\<exists>x. live_source s i = Some x \<and> es_url x = url) \<and> sc_timeouts s url = None"
    "\<And>j t. sc_timers s j = Some t \<Longrightarrow> sc_timeouts s (rt_url t) = Some j"
    "\<And>url j. sc_timeouts s url = Some j \<Longrightarrow> \<exists>t. sc_timers s j = Some t \<and> rt_url t = url"
    "\<And>i. sc_next s \<le> i \<Longrightarrow> sc_sources s i = None \<and> sc_timers s i = None"
  shows "pool_ok s"
  using assms unfolding pool_ok_def by blast

lemma pool_okD:
  assumes "pool_ok s"
  shows "live_source s i = Some x \<Longrightarrow> connection s (es_url x) = Some i"
    "connection s url = Some i \<Longrightarrow> \<exists>x. live_source s i = Some x \<and> es_url x = url"
    "connection s url = Some i \<Longrightarrow> sc_timeouts s url = None"
    "sc_timers s j = Some t \<Longrightarrow> sc_timeouts s (rt_url t) = Some j"
    "sc_timeouts s url = Some j \<Longrightarrow> \<exists>t. sc_timers s j = Some t \<and> rt_url t = url"
    "sc_next s \<le> i \<Longrightarrow> sc_sources s i = None" "sc_next s \<le> i \<Longrightarrow> sc_timers s i = None"
  using assms unfolding pool_ok_def by blast+

text \<open>What each operation leaves, pointwise.\<close>

lemma disconnect_fields:
  "connection (disconnect url s) = (connection s)(url := None)"
  "sc_timeouts (disconnect url s) = (sc_timeouts s)(url := None)"
  "sc_timers (disconnect url s) = (case sc_timeouts s url of None \<Rightarrow> sc_timers s | Some j \<Rightarrow> (sc_timers s)(j := None))"
  "live_source (disconnect url s) = (case connection s url of None \<Rightarrow> live_source s | Some i \<Rightarrow> (live_source s)(i := None))"
  "sc_next (disconnect url s) = sc_next s"
  "sc_sources s i = None \<Longrightarrow> sc_sources (disconnect url s) i = None"
proof -
  define s1 where "s1 = (case connection s url of None \<Rightarrow> s
      | Some i \<Rightarrow> (set_ready i CLOSED s)\<lparr>sc_connections := AList.delete url (sc_connections s)\<rparr>)"
  have s1: "connection s1 = (connection s)(url := None)" "sc_timeouts s1 = sc_timeouts s" "sc_timers s1 = sc_timers s"
    "live_source s1 = (case connection s url of None \<Rightarrow> live_source s | Some i \<Rightarrow> (live_source s)(i := None))"
    "sc_next s1 = sc_next s" "sc_sources s i = None \<Longrightarrow> sc_sources s1 i = None"
    by (auto simp: s1_def connection_def set_ready_def live_source_def delete_conv' fun_eq_iff split: option.split)
  show "connection (disconnect url s) = (connection s)(url := None)"
    "sc_timeouts (disconnect url s) = (sc_timeouts s)(url := None)"
    "sc_timers (disconnect url s) = (case sc_timeouts s url of None \<Rightarrow> sc_timers s | Some j \<Rightarrow> (sc_timers s)(j := None))"
    "live_source (disconnect url s) = (case connection s url of None \<Rightarrow> live_source s | Some i \<Rightarrow> (live_source s)(i := None))"
    "sc_next (disconnect url s) = sc_next s"
    "sc_sources s i = None \<Longrightarrow> sc_sources (disconnect url s) i = None"
    unfolding disconnect_def s1_def [symmetric] Let_def using s1
    by (auto simp: connection_def live_source_def fun_eq_iff split: option.split)
qed

lemma disconnect_ok:
  assumes "pool_ok s"
  shows "pool_ok (disconnect url s)"
proof -
  note D = pool_okD [OF assms]
  have live: "live_source (disconnect url s) i = Some x \<longleftrightarrow> live_source s i = Some x \<and> es_url x \<noteq> url" for i x
    using D(1,2) by (auto simp: disconnect_fields split: option.split) (metis option.inject)
  have timers: "sc_timers (disconnect url s) j = Some t \<longleftrightarrow> sc_timers s j = Some t \<and> rt_url t \<noteq> url" for j t
  proof (cases "sc_timeouts s url")
    case None
    then show ?thesis using D(4) [of j t] by (auto simp: disconnect_fields)
  next
    case (Some k)
    obtain v where "sc_timers s k = Some v" "rt_url v = url" using D(5) [OF Some] by blast
    then show ?thesis using D(4) [of j t] Some by (auto simp: disconnect_fields)
  qed
  show ?thesis
  proof (rule pool_okI)
    fix u i assume "connection (disconnect url s) u = Some i"
    then show "(\<exists>x. live_source (disconnect url s) i = Some x \<and> es_url x = u) \<and> sc_timeouts (disconnect url s) u = None"
      using D(2,3) unfolding live by (auto simp: disconnect_fields split: if_splits)
  next
    fix u j assume "sc_timeouts (disconnect url s) u = Some j"
    then show "\<exists>t. sc_timers (disconnect url s) j = Some t \<and> rt_url t = u"
      using D(5) unfolding timers by (auto simp: disconnect_fields split: if_splits)
  next
    fix i assume "sc_next (disconnect url s) \<le> i"
    then show "sc_sources (disconnect url s) i = None \<and> sc_timers (disconnect url s) i = None"
      using D(6,7) by (auto simp: disconnect_fields split: option.split)
  qed (use D(1,4) live timers in \<open>auto simp: disconnect_fields\<close>)
qed

lemma open_source_ok:
  assumes "pool_ok s" "connection s url = None" "sc_timeouts s url = None"
  shows "pool_ok (open_source url opts ok s)"
proof (cases ok)
  case True
  note D = pool_okD [OF assms(1)]
  let ?s = "open_source url opts ok s"
  have fields: "connection ?s = (connection s)(url \<mapsto> sc_next s)" "sc_timeouts ?s = sc_timeouts s" "sc_timers ?s = sc_timers s"
    "live_source ?s = (live_source s)(sc_next s \<mapsto> \<lparr>es_url = url, es_options = opts, es_readyState = CONNECTING\<rparr>)"
    "sc_next ?s = Suc (sc_next s)" "sc_next s < i \<Longrightarrow> sc_sources ?s i = sc_sources s i" for i
    using True by (auto simp: open_source_def Let_def connection_def live_source_def update_conv' fun_eq_iff)
  show ?thesis
  proof (rule pool_okI)
    fix i x assume "live_source ?s i = Some x"
    then show "connection ?s (es_url x) = Some i"
      using D(1) assms(2) by (fastforce simp: fields split: if_splits)
  next
    fix u i assume "connection ?s u = Some i"
    then show "(\<exists>x. live_source ?s i = Some x \<and> es_url x = u) \<and> sc_timeouts ?s u = None"
      using D(2,3,6) assms(3) by (fastforce simp: fields live_source_def split: if_splits)
  next
    fix i assume "sc_next ?s \<le> i"
    then show "sc_sources ?s i = None \<and> sc_timers ?s i = None" using D(6,7) by (simp add: fields)
  qed (use D(4,5) in \<open>simp_all add: fields\<close>)
qed (simp add: open_source_def assms(1))

lemma onopen_ok: "pool_ok s \<Longrightarrow> live_source s i = Some x \<Longrightarrow> pool_ok (onopen x i s)"
proof -
  assume ok: "pool_ok s" and i: "live_source s i = Some x"
  note D = pool_okD [OF ok]
  have fields: "connection (onopen x i s) = connection s" "sc_timeouts (onopen x i s) = sc_timeouts s"
    "sc_timers (onopen x i s) = sc_timers s" "sc_next (onopen x i s) = sc_next s"
    "live_source (onopen x i s) = (live_source s)(i \<mapsto> x\<lparr>es_readyState := OPEN\<rparr>)"
    "sc_sources s k = None \<Longrightarrow> sc_sources (onopen x i s) k = None" for k
    using i by (auto simp: onopen_def set_ready_def connection_def live_source_def fun_eq_iff split: option.splits if_splits)
  show ?thesis
  proof (rule pool_okI)
    fix k y assume "live_source (onopen x i s) k = Some y"
    then show "connection (onopen x i s) (es_url y) = Some k" using D(1) i by (auto simp: fields split: if_splits)
  next
    fix u k assume "connection (onopen x i s) u = Some k"
    then show "(\<exists>y. live_source (onopen x i s) k = Some y \<and> es_url y = u) \<and> sc_timeouts (onopen x i s) u = None"
      using D(2,3) i by (fastforce simp: fields split: if_splits)
  qed (use D(4,5,6,7) fields in auto)
qed

lemma onerror_ok:
  assumes "pool_ok s" "live_source s i = Some x"
  shows "pool_ok (onerror x i s)"
proof -
  note D = pool_okD [OF assms(1)]
  let ?u = "es_url x" and ?s = "onerror x i s" and ?n = "sc_next s"
  have conn: "connection s ?u = Some i" by (rule D(1) [OF assms(2)])
  have none: "sc_timeouts s ?u = None" by (rule D(3) [OF conn])
  define retry where "retry \<longleftrightarrow> attempts_of s ?u < op_maxReconnectAttempts (es_options x)"
  define t where "t = \<lparr>rt_url = ?u, rt_options = es_options x, rt_delay = op_reconnectDelay (es_options x) * 2 ^ attempts_of s ?u\<rparr>"
  have fields: "connection ?s = (connection s)(?u := None)" "live_source ?s = (live_source s)(i := None)"
    "sc_timeouts ?s = (if retry then (sc_timeouts s)(?u \<mapsto> ?n) else sc_timeouts s)"
    "sc_timers ?s = (if retry then (sc_timers s)(?n \<mapsto> t) else sc_timers s)"
    "sc_next ?s = (if retry then Suc ?n else ?n)" "sc_sources s k = None \<Longrightarrow> sc_sources ?s k = None" for k
    by (auto simp: onerror_def retry_def t_def set_ready_def connection_def live_source_def delete_conv' Let_def fun_eq_iff
        split: option.splits)
  show ?thesis
  proof (rule pool_okI)
    fix k y assume k: "live_source ?s k = Some y"
    then have "connection s (es_url y) = Some k" "k \<noteq> i" using D(1) by (auto simp: fields split: if_splits)
    then show "connection ?s (es_url y) = Some k" using conn by (auto simp: fields)
  next
    fix u k assume k: "connection ?s u = Some k"
    then have u: "connection s u = Some k" "u \<noteq> ?u" by (auto simp: fields split: if_splits)
    then obtain y where "live_source s k = Some y" "es_url y = u" using D(2) by blast
    then show "(\<exists>y. live_source ?s k = Some y \<and> es_url y = u) \<and> sc_timeouts ?s u = None"
      using u D(3) [OF u(1)] assms(2) by (auto simp: fields)
  next
    fix j v assume "sc_timers ?s j = Some v"
    then show "sc_timeouts ?s (rt_url v) = Some j"
      using D(4) none by (fastforce simp: fields t_def split: if_splits)
  next
    fix u j assume "sc_timeouts ?s u = Some j"
    then show "\<exists>v. sc_timers ?s j = Some v \<and> rt_url v = u"
      using D(5) D(7) [of ?n] by (fastforce simp: fields t_def split: if_splits)
  next
    fix k assume "sc_next ?s \<le> k"
    then show "sc_sources ?s k = None \<and> sc_timers ?s k = None" using D(6,7) by (auto simp: fields split: if_splits)
  qed
qed

lemma timer_fires_ok:
  assumes "pool_ok s" "sc_timers s j = Some t"
  shows "pool_ok (timer_fires t j ok s)"
proof -
  note D = pool_okD [OF assms(1)]
  let ?s = "s\<lparr>sc_timers := (sc_timers s)(j := None), sc_timeouts := (sc_timeouts s)(rt_url t := None)\<rparr>"
  have fields: "connection ?s = connection s" "live_source ?s = live_source s"
    by (simp_all add: connection_def live_source_def fun_eq_iff)
  have u: "sc_timeouts s (rt_url t) = Some j" by (rule D(4) [OF assms(2)])
  have "pool_ok ?s"
  proof (rule pool_okI)
    fix k v assume "sc_timers ?s k = Some v"
    then have "sc_timers s k = Some v" "k \<noteq> j" by (auto split: if_splits)
    then show "sc_timeouts ?s (rt_url v) = Some k" using D(4) u by simp (metis option.inject)
  next
    fix v k assume "sc_timeouts ?s v = Some k"
    then have "sc_timeouts s v = Some k" "v \<noteq> rt_url t" by (auto split: if_splits)
    then show "\<exists>w. sc_timers ?s k = Some w \<and> rt_url w = v" using D(5) assms(2) by fastforce
  qed (use D(1,2,3,6,7) in \<open>auto simp: fields\<close>)
  moreover have "connection ?s (rt_url t) = None"
    using D(3) u by (cases "connection s (rt_url t)") (auto simp: fields)
  ultimately show ?thesis unfolding timer_fires_def by (rule open_source_ok) simp
qed

lemma sse_step_ok: "pool_ok s \<Longrightarrow> pool_ok (sse_step e s)"
proof (cases e)
  case DisconnectAll
  assume "pool_ok s"
  then have "pool_ok (foldl (\<lambda>s url. disconnect url s) s urls)" for urls
    by (induction urls arbitrary: s) (simp_all add: disconnect_ok)
  then show ?thesis using DisconnectAll by (simp add: disconnectAll_def)
qed (auto simp: connect_def disconnect_fields intro: open_source_ok disconnect_ok onopen_ok onerror_ok timer_fires_ok split: option.split)

lemma sse_run_ok: "pool_ok s \<Longrightarrow> pool_ok (sse_run es s)"
  by (induction es arbitrary: s) (simp_all add: sse_step_ok)

lemma new_client_ok: "pool_ok new_client"
  by (simp add: pool_ok_def new_client_def live_source_def connection_def)

text \<open>C30. Whatever is called and whatever the browser reports, in any order: every source that is not closed is the
  connection of its URL, so there is at most one; a URL has a source or a timer that will open one, never
  both; and after \<open>disconnect\<close> it has neither.\<close>

theorem one_source_per_url:
  "let s = sse_run es new_client in
     (\<forall>url. {i. \<exists>x. live_source s i = Some x \<and> es_url x = url} = set_option (connection s url)
        \<and> {j. \<exists>t. sc_timers s j = Some t \<and> rt_url t = url} = set_option (sc_timeouts s url)
        \<and> (connection s url = None \<or> sc_timeouts s url = None))
     \<and> (\<forall>url. connection (disconnect url s) url = None \<and> sc_timeouts (disconnect url s) url = None
        \<and> {i. \<exists>x. live_source (disconnect url s) i = Some x \<and> es_url x = url} = {}
        \<and> {j. \<exists>t. sc_timers (disconnect url s) j = Some t \<and> rt_url t = url} = {})"
proof -
  define s where "s = sse_run es new_client"
  have sets: "{i. \<exists>x. live_source s i = Some x \<and> es_url x = url} = set_option (connection s url)"
    "{j. \<exists>t. sc_timers s j = Some t \<and> rt_url t = url} = set_option (sc_timeouts s url)" if "pool_ok s" for s url
    using pool_okD(1,2,4,5) [OF that] by (auto simp: elem_set)
  have ok: "pool_ok s" unfolding s_def by (rule sse_run_ok [OF new_client_ok])
  have "connection s url = None \<or> sc_timeouts s url = None" for url
    using pool_okD(3) [OF ok, of url] by (cases "connection s url") auto
  then show ?thesis
    unfolding s_def [symmetric] Let_def sets [OF ok] sets [OF disconnect_ok [OF ok]]
    by (simp add: disconnect_fields)
qed

section \<open>Giving up\<close>

text \<open>Every attempt fails: error and timer alternate.\<close>

fun fail_rounds :: "nat \<Rightarrow> nat \<Rightarrow> pool_event list" where
  "fail_rounds 0 i = []"
| "fail_rounds (Suc k) i = [Errored i, Fired (Suc i) True] @ fail_rounds k (i + 2)"

lemma fail_rounds_run:
  assumes "sc_next s = Suc i" "connection s url = Some i" "live_source s i = Some x" "es_url x = url" "es_options x = opts"
    "attempts_of s url + k \<le> op_maxReconnectAttempts opts"
  shows "let s' = sse_run (fail_rounds k i) s in
    sc_next s' = Suc (i + 2 * k) \<and> connection s' url = Some (i + 2 * k) \<and> attempts_of s' url = attempts_of s url + k
    \<and> (\<exists>y. live_source s' (i + 2 * k) = Some y \<and> es_url y = url \<and> es_options y = opts)"
  using assms
proof (induction k arbitrary: i s x)
  case 0
  then show ?case by (simp add: Let_def)
next
  case (Suc k)
  define s1 where "s1 = sse_step (Errored i) s"
  define s2 where "s2 = sse_step (Fired (Suc i) True) s1"
  let ?t = "\<lparr>rt_url = url, rt_options = opts, rt_delay = op_reconnectDelay opts * 2 ^ attempts_of s url\<rparr>"
  have less: "attempts_of s url < op_maxReconnectAttempts opts" using Suc.prems(6) by simp
  have s1: "sc_timers s1 (Suc i) = Some ?t" "sc_next s1 = Suc (Suc i)" "attempts_of s1 url = Suc (attempts_of s url)"
    using Suc.prems less by (simp_all add: s1_def onerror_def Let_def set_ready_def attempts_of_def)
  have s2: "sc_next s2 = Suc (i + 2)" "connection s2 url = Some (i + 2)" "attempts_of s2 url = Suc (attempts_of s url)"
    "live_source s2 (i + 2) = Some \<lparr>es_url = url, es_options = opts, es_readyState = CONNECTING\<rparr>"
    using s1 by (simp_all add: s2_def timer_fires_def open_source_def Let_def connection_def update_conv' live_source_def attempts_of_def)
  have "sse_run (fail_rounds (Suc k) i) s = sse_run (fail_rounds k (i + 2)) s2"
    by (simp add: s2_def s1_def)
  then show ?case
    using Suc.IH [OF s2(1,2,4)] s2(3) Suc.prems(6) by (simp add: Let_def)
qed

text \<open>A URL that never opens is tried once and then again as often as \<open>maxReconnectAttempts\<close> says; after the last error
  neither a source nor a timer is left, and the count starts anew.\<close>

theorem reconnects_at_most_max:
  "let n = op_maxReconnectAttempts opts; s = sse_run (Connect url opts True # fail_rounds n 0) new_client; s' = sse_step (Errored (2 * n)) s in
     connection s url = Some (2 * n) \<and> attempts_of s url = n
     \<and> connection s' url = None \<and> sc_timeouts s' url = None \<and> attempts_of s' url = 0 \<and> sc_next s' = sc_next s"
proof -
  let ?n = "op_maxReconnectAttempts opts"
  define s0 where "s0 = sse_step (Connect url opts True) new_client"
  have s0: "sc_next s0 = Suc 0" "connection s0 url = Some 0" "attempts_of s0 url = 0"
    "live_source s0 0 = Some \<lparr>es_url = url, es_options = opts, es_readyState = CONNECTING\<rparr>"
    by (simp_all add: s0_def connect_def disconnect_def open_source_def new_client_def connection_def attempts_of_def live_source_def Let_def)
  define s where "s = sse_run (Connect url opts True # fail_rounds ?n 0) new_client"
  have s: "connection s url = Some (2 * ?n)" "attempts_of s url = ?n"
    and ex: "\<exists>y. live_source s (2 * ?n) = Some y \<and> es_url y = url \<and> es_options y = opts"
    using fail_rounds_run [OF s0(1,2,4), of opts ?n] s0(3) by (simp_all add: s_def s0_def Let_def)
  obtain y where y: "live_source s (2 * ?n) = Some y" "es_url y = url" "es_options y = opts" using ex by blast
  have "pool_ok s" unfolding s_def by (rule sse_run_ok [OF new_client_ok])
  then have "sc_timeouts s url = None" using s(1) by (rule pool_okD(3))
  then have "connection (sse_step (Errored (2 * ?n)) s) url = None \<and> sc_timeouts (sse_step (Errored (2 * ?n)) s) url = None
      \<and> attempts_of (sse_step (Errored (2 * ?n)) s) url = 0 \<and> sc_next (sse_step (Errored (2 * ?n)) s) = sc_next s"
    using y s(2) by (simp add: onerror_def Let_def set_ready_def attempts_of_def connection_def delete_conv')
  then show ?thesis using s unfolding s_def [symmetric] Let_def by simp
qed

text \<open>\<open>disconnectAll\<close> walks over the connections only: a URL that waits for its retry has none, its timer stays, and
  when it fires the client connects again although everything was disconnected.\<close>

theorem disconnectAll_leaves_retries:
  "let s = sse_run [Connect url DEFAULT_OPTIONS True, Errored 0, DisconnectAll] new_client in
     sc_timeouts s url = Some 1 \<and> connection (sse_step (Fired 1 True) s) url = Some 2
     \<and> map_option es_readyState (sc_sources (sse_step (Fired 1 True) s) 2) = Some CONNECTING"
  by (simp add: Let_def connect_def disconnect_def open_source_def new_client_def connection_def attempts_of_def live_source_def
      onerror_def set_ready_def disconnectAll_def timer_fires_def DEFAULT_OPTIONS_def)

end
