(* ===== verification/Http.thy ===== *)
theory Http
  imports JsIo Events
begin

text \<open>
  Requests and answers of HTTP as the code of the web client sees them, in the browser and in the server of Next.js.
\<close>

record http_request =
  rq_method :: string
  rq_url :: string
  rq_headers :: "(string \<times> string) list"
  rq_body :: "json option"

text \<open>Status, status text and the body as JSON, None when it is not JSON.\<close>

datatype http_answer = NetworkError string | HttpAnswer nat string "json option"

definition js_throw :: "string \<Rightarrow> ('w, 'a) io" where
  "js_throw msg = io_throw (Err None msg None)"

text \<open>\<open>response.json()\<close>.\<close>

definition json_of :: "json option \<Rightarrow> ('w, json) io" where
  "json_of body = (case body of None \<Rightarrow> js_throw ''Unexpected token'' | Some v \<Rightarrow> io_return v)"

text \<open>Reading a property of null or undefined throws; a result None is undefined.\<close>

definition read_prop :: "json \<Rightarrow> string \<Rightarrow> ('w, json option) io" where
  "read_prop v k = (if v = JNull then js_throw ''Cannot read properties of null'' else io_return (prop_of (Some v) k))"

definition read_prop_opt :: "json option \<Rightarrow> string \<Rightarrow> ('w, json option) io" where
  "read_prop_opt v k = (case v of None \<Rightarrow> js_throw ''Cannot read properties of undefined'' | Some x \<Rightarrow> read_prop x k)"

text \<open>\<open>v || d\<close>.\<close>

definition value_or :: "json option \<Rightarrow> json \<Rightarrow> json" where
  "value_or v d = (if truthy_value v then the v else d)"

definition http_ok :: "nat \<Rightarrow> bool" where
  "http_ok status \<longleftrightarrow> 200 \<le> status \<and> status \<le> 299"

text \<open>An undefined field is left out of the text of an object.\<close>

definition opt_entry :: "string \<Rightarrow> json option \<Rightarrow> js_object" where
  "opt_entry k v = (case v of None \<Rightarrow> [] | Some x \<Rightarrow> [(k, x)])"

text \<open>The header with the token.\<close>

definition bearer :: "string \<Rightarrow> string \<times> string" where
  "bearer token = (''Authorization'', ''Bearer '' @ token)"

definition json_header :: "(string \<times> string) list" where
  "json_header = [(''Content-Type'', ''application/json'')]"

text \<open>\<open>encodeURIComponent\<close>: a code unit below 256 is kept, or becomes the one or two bytes of its UTF-8 form.\<close>

definition hex_digit :: "nat \<Rightarrow> char" where
  "hex_digit n = ''0123456789ABCDEF'' ! (n mod 16)"

definition percent :: "nat \<Rightarrow> string" where
  "percent n = ''%'' @ [hex_digit (n div 16), hex_digit n]"

definition uri_kept :: "char \<Rightarrow> bool" where
  "uri_kept c \<longleftrightarrow> is_id_char c \<or> c \<in> set ''-_.!~*()'' \<or> of_char c = (39 :: nat)"

definition encodeURIComponent :: "string \<Rightarrow> string" where
  "encodeURIComponent s = concat (map (\<lambda>c. let n = of_char c :: nat in
     if uri_kept c then [c] else if n < 128 then percent n else percent (192 + n div 64) @ percent (128 + n mod 64)) s)"

lemma http_rules [preserves_intros]:
  "preserves I (json_of body)" "preserves I (read_prop v k)" "preserves I (read_prop_opt v' k)" "preserves I (js_throw m)"
  by (auto simp: json_of_def read_prop_def read_prop_opt_def js_throw_def preserves_def split: option.split)

text \<open>A computation that resolves in every world.\<close>

definition answers :: "('w, 'a) io \<Rightarrow> bool" where
  "answers m \<longleftrightarrow> (\<forall>w. \<exists>x. fst (m w) = Inr x)"

lemma answersD: "answers m \<Longrightarrow> \<exists>x w'. m w = (Inr x, w')"
  by (metis answers_def prod.collapse)

lemma answers_return: "answers (io_return x)" "answers (io_get f)" "answers (io_modify g)"
  by (simp_all add: answers_def)

lemma answers_catch: "(\<And>e. answers (h e)) \<Longrightarrow> answers (io_catch m h)"
  by (auto simp: answers_def io_catch_run split: prod.split sum.split)

lemma answers_bind: "answers m \<Longrightarrow> (\<And>x. answers (f x)) \<Longrightarrow> answers (io_bind m f)"
  unfolding answers_def by (metis io_bind_Inr prod.collapse)

lemma answers_if: "(c \<Longrightarrow> answers m) \<Longrightarrow> (\<not> c \<Longrightarrow> answers n) \<Longrightarrow> answers (if c then m else n)"
  by simp

lemma answers_option: "answers m \<Longrightarrow> (\<And>x. answers (f x)) \<Longrightarrow> answers (case v of None \<Rightarrow> m | Some x \<Rightarrow> f x)"
  by (cases v) auto

lemma answers_result: "(\<And>x. answers (f x)) \<Longrightarrow> (\<And>e. answers (g e)) \<Longrightarrow> answers (case v of Ok x \<Rightarrow> f x | Failure e \<Rightarrow> g e)"
  by (cases v) auto

lemmas answers_intros = answers_return answers_catch answers_bind answers_if answers_option answers_result

text \<open>Every value a computation resolves with satisfies \<open>P\<close>.\<close>

definition yields :: "('a \<Rightarrow> bool) \<Rightarrow> ('w, 'a) io \<Rightarrow> bool" where
  "yields P m \<longleftrightarrow> (\<forall>w x. fst (m w) = Inr x \<longrightarrow> P x)"

lemma yieldsD: "yields P m \<Longrightarrow> fst (m w) = Inr x \<Longrightarrow> P x"
  by (simp add: yields_def)

lemma yields_return: "P x \<Longrightarrow> yields P (io_return x)"
  by (simp add: yields_def)

lemma yields_bind: "(\<And>x. yields P (f x)) \<Longrightarrow> yields P (io_bind m f)"
  by (auto simp: yields_def io_bind_run split: prod.splits sum.splits)

lemma yields_catch: "yields P m \<Longrightarrow> (\<And>e. yields P (h e)) \<Longrightarrow> yields P (io_catch m h)"
  unfolding yields_def io_catch_run by (auto split: prod.splits sum.splits) (metis fst_conv)+

lemma yields_if: "(c \<Longrightarrow> yields P m) \<Longrightarrow> (\<not> c \<Longrightarrow> yields P n) \<Longrightarrow> yields P (if c then m else n)"
  by simp

lemmas yields_intros = yields_return yields_bind yields_catch yields_if

end
