(* ===== verification/BrowserSession.thy ===== *)
theory BrowserSession
  imports Http
begin

text \<open>
  The session of the browser: frontend/src/lib/auth/jwt-auth.service.ts, contexts/auth-context.tsx and the three clients that
  send the token, lib/auth-fetch.ts, lib/api-client.ts and lib/axios-interceptor.ts, with lib/sse/sse-auth.ts. The answers of
  the network are given in their order; without one the request fails. Code runs in a browser, so there is a window. An
  operation is first run at once; then its request and its answer are two steps, so that operations overlap.
\<close>

section \<open>The browser\<close>

record browser =
  br_stored :: "string option"
  br_cookie :: "string option"
  br_user :: "json option"
  br_token :: "string option"
  br_loading :: bool
  br_page :: string
  br_ready :: bool
  br_net :: "http_answer list"
  br_sent :: "http_request list"

definition http_fetch :: "http_request \<Rightarrow> (browser, nat \<times> string \<times> json option) io" where
  "http_fetch req b = (let b' = b\<lparr>br_sent := br_sent b @ [req], br_net := tl (br_net b)\<rparr> in
     case br_net b of
       HttpAnswer status text body # _ \<Rightarrow> (Inr (status, text, body), b')
     | NetworkError msg # _ \<Rightarrow> (Inl (Err None msg None), b')
     | [] \<Rightarrow> (Inl (Err None ''Failed to fetch'' None), b'))"

text \<open>The token of an answer; the API answers a text.\<close>

definition text_of :: "json option \<Rightarrow> string" where
  "text_of v = (case v of Some (JStr s) \<Rightarrow> s | _ \<Rightarrow> [])"

section \<open>JwtAuthService\<close>

definition getToken :: "(browser, string option) io" where
  "getToken = io_get br_stored"

definition isAuthenticated :: "browser \<Rightarrow> bool" where
  "isAuthenticated b \<longleftrightarrow> br_stored b \<noteq> None"

definition setToken :: "string \<Rightarrow> (browser, unit) io" where
  "setToken token = io_modify (\<lambda>b. b\<lparr>br_stored := Some token\<rparr>)"

definition removeToken :: "(browser, unit) io" where
  "removeToken = io_modify (\<lambda>b. b\<lparr>br_stored := None\<rparr>)"

text \<open>\<open>if (data.success && data.data)\<close>.\<close>

definition with_data :: "json \<Rightarrow> (json \<Rightarrow> (browser, (json, json) result) io) \<Rightarrow> (browser, (json, json) result) io" where
  "with_data data act = io_bind (read_prop data ''success'') (\<lambda>success. io_bind (read_prop data ''data'') (\<lambda>value.
     if truthy_value success \<and> truthy_value value then act (the value)
     else io_return (Failure (JStr ''Invalid response format''))))"

definition failed_answer :: "json \<Rightarrow> string \<Rightarrow> (browser, (json, json) result) io" where
  "failed_answer data fallback = io_bind (read_prop data ''message'') (\<lambda>m. io_return (Failure (value_or m (JStr fallback))))"

definition auth_login :: "json \<Rightarrow> (browser, (json, json) result) io" where
  "auth_login credentials = io_catch
     (io_bind (http_fetch \<lparr>rq_method = ''POST'', rq_url = ''/api/auth/login'', rq_headers = json_header, rq_body = Some credentials\<rparr>)
        (\<lambda>(status, _, body). io_bind (json_of body) (\<lambda>data.
           if \<not> http_ok status then failed_answer data ''Login failed''
           else with_data data (\<lambda>value. io_bind (read_prop value ''token'') (\<lambda>token.
              io_bind (setToken (text_of token)) (\<lambda>_. io_return (Ok value)))))))
     (\<lambda>_. io_return (Failure (JStr ''Login failed. Please try again.'')))"

definition auth_validateToken :: "string \<Rightarrow> (browser, (json, json) result) io" where
  "auth_validateToken token = io_catch
     (io_bind (http_fetch \<lparr>rq_method = ''POST'', rq_url = ''/api/auth/validate'', rq_headers = json_header,
          rq_body = Some (JObj [(''token'', JStr token)])\<rparr>)
        (\<lambda>(status, _, body). io_bind (json_of body) (\<lambda>data.
           if \<not> http_ok status then failed_answer data ''Token validation failed'' else with_data data (\<lambda>value. io_return (Ok value)))))
     (\<lambda>_. io_return (Failure (JStr ''Token validation failed'')))"

definition auth_getCurrentUser :: "(browser, (json, json) result) io" where
  "auth_getCurrentUser = io_bind getToken (\<lambda>token.
     if \<not> truthy_opt token then io_return (Failure (JStr ''No authentication token found''))
     else io_catch
       (io_bind (http_fetch \<lparr>rq_method = ''GET'', rq_url = ''/api/auth/me'', rq_headers = [bearer (the token)], rq_body = None\<rparr>)
          (\<lambda>(status, _, body). io_bind (json_of body) (\<lambda>data.
             if \<not> http_ok status
             then io_bind (if status = 401 then removeToken else io_return ()) (\<lambda>_. failed_answer data ''Failed to get current user'')
             else with_data data (\<lambda>value. io_return (Ok value)))))
       (\<lambda>_. io_return (Failure (JStr ''Failed to get current user''))))"

section \<open>The context\<close>

definition clearAuthState :: "(browser, unit) io" where
  "clearAuthState = io_bind removeToken (\<lambda>_. io_modify (\<lambda>b. b\<lparr>br_user := None, br_token := None, br_cookie := None\<rparr>))"

definition context_logout :: "(browser, unit) io" where
  "context_logout = io_bind clearAuthState (\<lambda>_. io_modify (\<lambda>b. b\<lparr>br_page := ''/login''\<rparr>))"

text \<open>The clients learn of the service and of \<open>logout\<close> before the stored token is tried.\<close>

definition initializeAuth :: "(browser, unit) io" where
  "initializeAuth = io_bind (io_modify (\<lambda>b. b\<lparr>br_loading := True\<rparr>)) (\<lambda>_. io_finally (io_catch (io_bind getToken (\<lambda>storedToken.
     if truthy_opt storedToken then io_bind (auth_validateToken (the storedToken)) (\<lambda>isValid. case isValid of
         Ok _ \<Rightarrow> io_bind auth_getCurrentUser (\<lambda>currentUser. case currentUser of
             Ok user \<Rightarrow> io_modify (\<lambda>b. b\<lparr>br_user := Some user, br_token := storedToken, br_cookie := storedToken\<rparr>)
           | Failure _ \<Rightarrow> clearAuthState)
       | Failure _ \<Rightarrow> clearAuthState)
     else io_modify (\<lambda>b. b\<lparr>br_user := None, br_token := None\<rparr>)))
       (\<lambda>_. io_modify (\<lambda>b. b\<lparr>br_user := None, br_token := None\<rparr>))) (io_modify (\<lambda>b. b\<lparr>br_loading := False\<rparr>)))"

definition load_page :: "(browser, unit) io" where
  "load_page = io_bind (io_modify (\<lambda>b. b\<lparr>br_user := None, br_token := None, br_ready := True\<rparr>)) (\<lambda>_. initializeAuth)"

definition context_login :: "json \<Rightarrow> (browser, (unit, json) result) io" where
  "context_login credentials = io_catch (io_bind (auth_login credentials) (\<lambda>r. case r of
      Ok value \<Rightarrow> io_bind (read_prop value ''user'') (\<lambda>user. io_bind (read_prop value ''token'') (\<lambda>token.
         io_bind (io_modify (\<lambda>b. b\<lparr>br_user := user, br_token := Some (text_of token), br_cookie := Some (text_of token),
            br_page := ''/dashboard''\<rparr>)) (\<lambda>_. io_return (Ok ()))))
    | Failure e \<Rightarrow> io_return (Failure (value_or (Some e) (JStr ''Login failed'')))))
     (\<lambda>_. io_return (Failure (JStr ''Login failed. Please try again.'')))"

definition refreshUser :: "(browser, unit) io" where
  "refreshUser = io_bind auth_getCurrentUser (\<lambda>currentUser. case currentUser of
      Ok user \<Rightarrow> io_modify (\<lambda>b. b\<lparr>br_user := Some user\<rparr>) | Failure _ \<Rightarrow> context_logout)"

section \<open>The clients\<close>

definition global_token :: "(browser, string option) io" where
  "global_token = (\<lambda>b. (Inr (if br_ready b then br_stored b else None), b))"

definition global_logout :: "(browser, unit) io" where
  "global_logout = io_bind (io_get br_ready) (\<lambda>ready. if ready then context_logout else io_return ())"

text \<open>\<open>authFetch\<close>; headers of the caller go between the content type and the token.\<close>

definition authFetch :: "bool \<Rightarrow> http_request \<Rightarrow> (browser, nat \<times> string \<times> json option) io" where
  "authFetch skipTokenRefresh req = io_bind (io_get br_ready) (\<lambda>ready.
     if \<not> ready then js_throw ''Auth service not initialized''
     else io_bind getToken (\<lambda>token.
       if \<not> truthy_opt token then js_throw ''Not authenticated''
       else io_bind (http_fetch (req\<lparr>rq_headers := json_header @ rq_headers req @ [bearer (the token)]\<rparr>)) (\<lambda>response.
         if fst response = 401 \<and> \<not> skipTokenRefresh
         then io_bind global_logout (\<lambda>_. js_throw ''Authentication failed'') else io_return response)))"

text \<open>The error of an \<open>ApiResponse\<close>: message, code and status.\<close>

record api_error =
  ae_message :: json
  ae_code :: "json option"
  ae_statusCode :: nat

definition makeRequest :: "http_request \<Rightarrow> (browser, (json, api_error) result) io" where
  "makeRequest req = io_bind global_token (\<lambda>token.
     if \<not> truthy_opt token
     then io_return (Failure \<lparr>ae_message = JStr ''Not authenticated'', ae_code = Some (JStr ''NO_AUTH''), ae_statusCode = 401\<rparr>)
     else io_catch
       (io_bind (http_fetch (req\<lparr>rq_headers := json_header @ [bearer (the token)] @ rq_headers req\<rparr>)) (\<lambda>(status, _, body).
          io_bind (json_of body) (\<lambda>data.
            if http_ok status then io_return (Ok data)
            else io_bind (if status = 401 then global_logout else io_return ()) (\<lambda>_.
              io_bind (read_prop data ''message'') (\<lambda>message. io_bind (read_prop data ''error'') (\<lambda>err.
              io_bind (read_prop data ''code'') (\<lambda>code. io_return (Failure \<lparr>ae_message = value_or message (value_or err (JStr ''Request failed'')),
                 ae_code = code, ae_statusCode = status\<rparr>))))))))
       (\<lambda>e. io_return (Failure \<lparr>ae_message = value_or (Some (JStr (errorMessage e))) (JStr ''Network error''),
           ae_code = Some (JStr ''NETWORK_ERROR''), ae_statusCode = 500\<rparr>)))"

definition api_call :: "string \<Rightarrow> string \<Rightarrow> json option \<Rightarrow> (browser, (json, api_error) result) io" where
  "api_call meth url data = makeRequest \<lparr>rq_method = meth, rq_url = url, rq_headers = [],
     rq_body = (if truthy_value data then data else None)\<rparr>"

text \<open>The axios instance with its two interceptors; axios rejects a status outside 200 to 299. The message of the
  rejection is \<open>getErrorMessage\<close>, its status \<open>getErrorStatusCode\<close> of lib/axios.ts.\<close>

datatype axios_error = AxiosAnswer nat string "json option" | AxiosNoAnswer string

fun getErrorStatusCode :: "axios_error \<Rightarrow> nat" where
  "getErrorStatusCode (AxiosAnswer status _ _) = status"
| "getErrorStatusCode (AxiosNoAnswer _) = 500"

fun getErrorMessage :: "axios_error \<Rightarrow> json" where
  "getErrorMessage (AxiosAnswer status text body) =
     value_or (prop_of (prop_of body ''error'') ''message'') (value_or (prop_of body ''message'')
       (value_or (Some (JStr text)) (JStr ''Unknown error'')))"
| "getErrorMessage (AxiosNoAnswer _) = JStr ''No response received from server''"

definition axios_send :: "http_request \<Rightarrow> (browser, (json option, axios_error) result) io" where
  "axios_send req b = (case http_fetch req b of
      (Inl e, b') \<Rightarrow> (Inr (Failure (AxiosNoAnswer (errorMessage e))), b')
    | (Inr (status, text, body), b') \<Rightarrow> (Inr (if http_ok status then Ok body else Failure (AxiosAnswer status text body)), b'))"

fun is_unauthorized :: "('a, axios_error) result \<Rightarrow> bool" where
  "is_unauthorized (Failure (AxiosAnswer status _ _)) = (status = 401)"
| "is_unauthorized _ = False"

definition axios_request :: "http_request \<Rightarrow> (browser, (json option, axios_error) result) io" where
  "axios_request req = io_bind global_token (\<lambda>token.
     io_bind (axios_send (if truthy_opt token then req\<lparr>rq_headers := bearer (the token) # rq_headers req\<rparr> else req)) (\<lambda>r.
     io_bind (if is_unauthorized r then global_logout else io_return ()) (\<lambda>_. io_return r)))"

section \<open>Event sources\<close>

text \<open>The functions of sse-auth.ts; \<open>getToken\<close> does not throw, so their catch clauses are left out. None: the service has not been set.\<close>

definition sse_token :: "browser \<Rightarrow> string option option" where
  "sse_token b = (if br_ready b then Some (br_stored b) else None)"

definition when_signed_in :: "browser \<Rightarrow> string \<Rightarrow> 'a \<Rightarrow> ('a, string) result" where
  "when_signed_in b missing x = (case sse_token b of
      None \<Rightarrow> Failure ''Auth service not initialized''
    | Some token \<Rightarrow> if truthy_opt token then Ok x else Failure missing)"

definition createAuthenticatedSSEUrl :: "browser \<Rightarrow> string \<Rightarrow> string option \<Rightarrow> (string, string) result" where
  "createAuthenticatedSSEUrl b endpoint baseUrl =
     when_signed_in b ''Not authenticated - no token available'' (or_else baseUrl [] @ endpoint)"

definition validateSSEAuth :: "browser \<Rightarrow> (unit, string) result" where
  "validateSSEAuth b = when_signed_in b ''No authentication token available'' ()"

definition checkSSEPermission :: "browser \<Rightarrow> string \<Rightarrow> (unit, string) result" where
  "checkSSEPermission b endpoint = when_signed_in b ''Authentication required for SSE access'' ()"

definition getSSEAuthHeaders :: "browser \<Rightarrow> (string \<times> string) list" where
  "getSSEAuthHeaders b = (case sse_token b of
      Some (Some token) \<Rightarrow> if token = [] then [] else
        [bearer token, (''Content-Type'', ''text/event-stream''), (''Cache-Control'', ''no-cache'')]
    | _ \<Rightarrow> [])"

text \<open>None: an event of the browser, which carries no message.\<close>

definition handleSSEAuthError :: "string option \<Rightarrow> (browser, unit) io" where
  "handleSSEAuthError message = (case message of
      Some m \<Rightarrow> if js_includes m ''401'' then global_logout else io_return () | None \<Rightarrow> io_return ())"

section \<open>What the user does\<close>

text \<open>A request is sent at one time and answered at another, and what the code does with the answer depends on the state
  then. These are the requests under way, with what the code remembers of them; \<open>authFetch\<close>, the two other clients and
  \<open>refreshUser\<close> have read the token before.\<close>

datatype under_way =
    LoginSent json
  | RefreshSent string
  | FetchSent bool http_request string
  | ApiSent http_request string
  | AxiosSent http_request "string option"

text \<open>The rest of each operation, from the request on.\<close>

definition current_user_rest :: "string \<Rightarrow> (browser, (json, json) result) io" where
  "current_user_rest token = io_catch
     (io_bind (http_fetch \<lparr>rq_method = ''GET'', rq_url = ''/api/auth/me'', rq_headers = [bearer token], rq_body = None\<rparr>)
        (\<lambda>(status, _, body). io_bind (json_of body) (\<lambda>data.
           if \<not> http_ok status
           then io_bind (if status = 401 then removeToken else io_return ()) (\<lambda>_. failed_answer data ''Failed to get current user'')
           else with_data data (\<lambda>value. io_return (Ok value)))))
     (\<lambda>_. io_return (Failure (JStr ''Failed to get current user'')))"

definition refresh_rest :: "string \<Rightarrow> (browser, unit) io" where
  "refresh_rest token = io_bind (current_user_rest token) (\<lambda>currentUser. case currentUser of
      Ok user \<Rightarrow> io_modify (\<lambda>b. b\<lparr>br_user := Some user\<rparr>) | Failure _ \<Rightarrow> context_logout)"

definition authFetch_rest :: "bool \<Rightarrow> http_request \<Rightarrow> string \<Rightarrow> (browser, nat \<times> string \<times> json option) io" where
  "authFetch_rest skipTokenRefresh req token =
     io_bind (http_fetch (req\<lparr>rq_headers := json_header @ rq_headers req @ [bearer token]\<rparr>)) (\<lambda>response.
       if fst response = 401 \<and> \<not> skipTokenRefresh
       then io_bind global_logout (\<lambda>_. js_throw ''Authentication failed'') else io_return response)"

definition makeRequest_rest :: "http_request \<Rightarrow> string \<Rightarrow> (browser, (json, api_error) result) io" where
  "makeRequest_rest req token = io_catch
     (io_bind (http_fetch (req\<lparr>rq_headers := json_header @ [bearer token] @ rq_headers req\<rparr>)) (\<lambda>(status, _, body).
        io_bind (json_of body) (\<lambda>data.
          if http_ok status then io_return (Ok data)
          else io_bind (if status = 401 then global_logout else io_return ()) (\<lambda>_.
            io_bind (read_prop data ''message'') (\<lambda>message. io_bind (read_prop data ''error'') (\<lambda>err.
            io_bind (read_prop data ''code'') (\<lambda>code. io_return (Failure \<lparr>ae_message = value_or message (value_or err (JStr ''Request failed'')),
               ae_code = code, ae_statusCode = status\<rparr>))))))))
     (\<lambda>e. io_return (Failure \<lparr>ae_message = value_or (Some (JStr (errorMessage e))) (JStr ''Network error''),
         ae_code = Some (JStr ''NETWORK_ERROR''), ae_statusCode = 500\<rparr>))"

definition axios_rest :: "http_request \<Rightarrow> string option \<Rightarrow> (browser, (json option, axios_error) result) io" where
  "axios_rest req token =
     io_bind (axios_send (if truthy_opt token then req\<lparr>rq_headers := bearer (the token) # rq_headers req\<rparr> else req)) (\<lambda>r.
     io_bind (if is_unauthorized r then global_logout else io_return ()) (\<lambda>_. io_return r))"

text \<open>The operations are their checks, and then these.\<close>

lemma operations_split:
  "auth_getCurrentUser = io_bind getToken (\<lambda>token. if \<not> truthy_opt token then io_return (Failure (JStr ''No authentication token found''))
     else current_user_rest (the token))"
  "authFetch skip req = io_bind (io_get br_ready) (\<lambda>ready. if \<not> ready then js_throw ''Auth service not initialized''
     else io_bind getToken (\<lambda>token. if \<not> truthy_opt token then js_throw ''Not authenticated'' else authFetch_rest skip req (the token)))"
  "makeRequest req = io_bind global_token (\<lambda>token. if \<not> truthy_opt token
     then io_return (Failure \<lparr>ae_message = JStr ''Not authenticated'', ae_code = Some (JStr ''NO_AUTH''), ae_statusCode = 401\<rparr>)
     else makeRequest_rest req (the token))"
  "axios_request req = io_bind global_token (axios_rest req)"
  unfolding auth_getCurrentUser_def current_user_rest_def authFetch_def authFetch_rest_def makeRequest_def makeRequest_rest_def
    axios_request_def axios_rest_def by (rule refl)+

lemma refreshUser_split:
  "refreshUser = io_bind getToken (\<lambda>token. if \<not> truthy_opt token then context_logout else refresh_rest (the token))"
  by (rule ext) (simp add: refreshUser_def operations_split(1) refresh_rest_def io_bind_run getToken_def split: prod.split sum.split)

text \<open>A tab of the browser, and the requests under way in it. A page that is loaded starts anew; nothing is shown before its
  requests are answered, so that loading is one event. An answer may come for any of the requests. Other tabs of the same
  browser, which share cookie and storage, are not covered.\<close>

type_synonym tab = "browser \<times> under_way list"

datatype session_event =
    LoadPage "http_answer list"
  | Login json
  | Logout
  | Refresh
  | Fetch bool http_request
  | ApiCall http_request
  | AxiosCall http_request
  | SseError "string option"
  | Answered nat http_answer

definition silently :: "(browser, 'a) io \<Rightarrow> browser \<Rightarrow> browser" where
  "silently m b = snd (m b)"

fun answer_arrives :: "under_way \<Rightarrow> browser \<Rightarrow> browser" where
  "answer_arrives (LoginSent credentials) = silently (context_login credentials)"
| "answer_arrives (RefreshSent token) = silently (refresh_rest token)"
| "answer_arrives (FetchSent skip req token) = silently (authFetch_rest skip req token)"
| "answer_arrives (ApiSent req token) = silently (makeRequest_rest req token)"
| "answer_arrives (AxiosSent req token) = silently (axios_rest req token)"

text \<open>The token that the clients read before they send.\<close>

definition current_token :: "browser \<Rightarrow> string option" where
  "current_token b = (if br_ready b then br_stored b else None)"

fun session_step :: "session_event \<Rightarrow> tab \<Rightarrow> tab" where
  "session_step (LoadPage replies) (b, ws) = (silently load_page (b\<lparr>br_net := replies\<rparr>), [])"
| "session_step (Login credentials) (b, ws) = (b, ws @ [LoginSent credentials])"
| "session_step Logout (b, ws) = (silently context_logout b, ws)"
| "session_step Refresh (b, ws) = (if truthy_opt (br_stored b) then (b, ws @ [RefreshSent (the (br_stored b))])
     else (silently context_logout b, ws))"
| "session_step (Fetch skip req) (b, ws) = (if truthy_opt (current_token b)
     then (b, ws @ [FetchSent skip req (the (current_token b))]) else (b, ws))"
| "session_step (ApiCall req) (b, ws) = (if truthy_opt (current_token b)
     then (b, ws @ [ApiSent req (the (current_token b))]) else (b, ws))"
| "session_step (AxiosCall req) (b, ws) = (b, ws @ [AxiosSent req (current_token b)])"
| "session_step (SseError message) (b, ws) = (silently (handleSSEAuthError message) b, ws)"
| "session_step (Answered i answer) (b, ws) = (if i < length ws
     then (answer_arrives (ws ! i) (b\<lparr>br_net := [answer]\<rparr>), take i ws @ drop (Suc i) ws) else (b, ws))"

fun session_run :: "session_event list \<Rightarrow> tab \<Rightarrow> tab" where
  "session_run [] t = t"
| "session_run (e # es) t = session_run es (session_step e t)"

text \<open>An answer for \<open>refreshUser\<close> is late if the token it was sent with is no longer the stored one.\<close>

fun late_refresh :: "session_event \<Rightarrow> tab \<Rightarrow> bool" where
  "late_refresh (Answered i answer) (b, ws) = (i < length ws
     \<and> (case ws ! i of RefreshSent token \<Rightarrow> br_stored b \<noteq> Some token | _ \<Rightarrow> False))"
| "late_refresh _ _ = False"

fun refreshes_in_time :: "session_event list \<Rightarrow> tab \<Rightarrow> bool" where
  "refreshes_in_time [] t = True"
| "refreshes_in_time (e # es) t = (\<not> late_refresh e t \<and> refreshes_in_time es (session_step e t))"

section \<open>One session\<close>

definition signed_tokens :: "browser \<Rightarrow> bool" where
  "signed_tokens b \<longleftrightarrow> br_token b = br_stored b \<and> br_cookie b = br_stored b \<and> br_stored b \<noteq> None"

text \<open>The context, the cookie and the storage hold the same token, or neither the context nor the storage holds one.\<close>

definition tokens_agree :: "browser \<Rightarrow> bool" where
  "tokens_agree b \<longleftrightarrow> signed_tokens b \<or> br_token b = None \<and> \<not> truthy_opt (br_stored b)"

text \<open>The same, and in the second case nobody is signed in.\<close>

definition session_ok :: "browser \<Rightarrow> bool" where
  "session_ok b \<longleftrightarrow> signed_tokens b \<or> br_user b = None \<and> br_token b = None \<and> \<not> truthy_opt (br_stored b)"

definition same_session :: "browser \<Rightarrow> browser \<Rightarrow> bool" where
  "same_session b b' \<longleftrightarrow> br_user b' = br_user b \<and> br_token b' = br_token b \<and> br_cookie b' = br_cookie b \<and> br_stored b' = br_stored b"

text \<open>What the two have in common: they look at these four fields only, and hold of whoever signs in or out.\<close>

definition session_inv :: "(browser \<Rightarrow> bool) \<Rightarrow> bool" where
  "session_inv I \<longleftrightarrow> (\<forall>b b'. same_session b b' \<longrightarrow> I b \<longrightarrow> I b') \<and> (\<forall>b. signed_tokens b \<longrightarrow> I b)
     \<and> (\<forall>b. br_user b = None \<and> br_token b = None \<and> br_stored b = None \<longrightarrow> I b)"

lemma session_invs: "session_inv tokens_agree" "session_inv session_ok"
  by (auto simp: session_inv_def same_session_def tokens_agree_def session_ok_def signed_tokens_def)

lemma session_invD:
  assumes "session_inv I"
  shows "same_session b b' \<Longrightarrow> I b \<Longrightarrow> I b'" "signed_tokens b \<Longrightarrow> I b"
    "br_user b = None \<Longrightarrow> br_token b = None \<Longrightarrow> br_stored b = None \<Longrightarrow> I b"
  using assms by (auto simp: session_inv_def)

lemma fetch_keeps:
  "br_stored (snd (http_fetch req b)) = br_stored b" "br_cookie (snd (http_fetch req b)) = br_cookie b"
  "br_user (snd (http_fetch req b)) = br_user b" "br_token (snd (http_fetch req b)) = br_token b"
  by (simp_all add: http_fetch_def Let_def split: list.split http_answer.split)

lemma fetch_same: "same_session b (snd (http_fetch req b))"
  by (simp add: same_session_def fetch_keeps)

lemma session_fetch: "session_inv I \<Longrightarrow> preserves I (http_fetch req)"
  by (rule preservesI) (rule session_invD(1) [OF _ fetch_same])

lemma session_rules [preserves_intros]: "preserves I getToken" "preserves I global_token"
  by (auto simp: getToken_def global_token_def preserves_def)

lemma session_logout:
  assumes "session_inv I"
  shows "preserves I context_logout" "preserves I clearAuthState" "preserves I global_logout"
  using session_invD(3) [OF assms]
  by (auto simp: context_logout_def clearAuthState_def global_logout_def removeToken_def preserves_def io_bind_run)

lemma axios_send_snd: "snd (axios_send req b) = snd (http_fetch req b)"
  by (auto simp: axios_send_def split: prod.split sum.split)

lemma session_clients:
  assumes "session_inv I"
  shows "preserves I (authFetch_rest skip req token)" "preserves I (makeRequest_rest req token)" "preserves I (axios_rest req found)"
proof -
  note rules = preserves_intros session_logout [OF assms] session_fetch [OF assms]
  show "preserves I (authFetch_rest skip req token)" unfolding authFetch_rest_def by (intro rules)
  show "preserves I (makeRequest_rest req token)"
    unfolding makeRequest_rest_def by (intro rules) (auto simp: case_prod_beta intro!: rules)
  have "preserves I (axios_send req)" for req
    using session_fetch [OF assms, of req] by (simp add: preserves_def axios_send_snd)
  then show "preserves I (axios_rest req found)" unfolding axios_rest_def by (intro rules)
qed

text \<open>The service touches the storage only: a login that succeeds stores the token of the answer, one that fails nothing;
  \<open>getCurrentUser\<close> removes the token only when it fails.\<close>

lemmas service_eval = failed_answer_def with_data_def read_prop_def json_of_def js_throw_def getToken_def removeToken_def setToken_def
  io_bind_run io_catch_run

lemma login_answers:
  "\<exists>r. fst (auth_login credentials b) = Inr r \<and> (case r of
      Failure _ \<Rightarrow> same_session b (snd (auth_login credentials b))
    | Ok value \<Rightarrow> value \<noteq> JNull \<and> br_stored (snd (auth_login credentials b)) = Some (text_of (prop_of (Some value) ''token'')))"
proof -
  let ?req = "\<lparr>rq_method = ''POST'', rq_url = ''/api/auth/login'', rq_headers = json_header, rq_body = Some credentials\<rparr>"
  obtain r b1 where f: "http_fetch ?req b = (r, b1)" by fastforce
  have same: "same_session b b1" using fetch_same [of b ?req] f by simp
  show ?thesis
  proof (cases r)
    case (Inl e)
    then show ?thesis using f same by (simp add: auth_login_def service_eval)
  next
    case (Inr a)
    then show ?thesis using f same
      by (cases a) (auto simp: auth_login_def service_eval split: option.split)
  qed
qed

lemma validate_answers:
  "\<exists>r. fst (auth_validateToken token b) = Inr r" "same_session b (snd (auth_validateToken token b))"
proof -
  let ?req = "\<lparr>rq_method = ''POST'', rq_url = ''/api/auth/validate'', rq_headers = json_header,
     rq_body = Some (JObj [(''token'', JStr token)])\<rparr>"
  obtain r b1 where f: "http_fetch ?req b = (r, b1)" by fastforce
  have same: "same_session b b1" using fetch_same [of b ?req] f by simp
  have both: "(\<exists>r. fst (auth_validateToken token b) = Inr r) \<and> same_session b (snd (auth_validateToken token b))"
  proof (cases r)
    case (Inl e)
    then show ?thesis using f same by (simp add: auth_validateToken_def service_eval)
  next
    case (Inr a)
    then show ?thesis using f same by (cases a) (auto simp: auth_validateToken_def service_eval split: option.split)
  qed
  then show "\<exists>r. fst (auth_validateToken token b) = Inr r" "same_session b (snd (auth_validateToken token b))" by blast+
qed

lemma current_rest_answers:
  "\<exists>r. fst (current_user_rest token b) = Inr r \<and> (case r of
      Failure _ \<Rightarrow> True | Ok _ \<Rightarrow> same_session b (snd (current_user_rest token b)))"
proof -
  let ?req = "\<lparr>rq_method = ''GET'', rq_url = ''/api/auth/me'', rq_headers = [bearer token], rq_body = None\<rparr>"
  obtain r b1 where f: "http_fetch ?req b = (r, b1)" by fastforce
  have same: "same_session b b1" using fetch_same [of b ?req] f by simp
  show ?thesis
  proof (cases r)
    case (Inl e)
    then show ?thesis using f same by (simp add: current_user_rest_def service_eval)
  next
    case (Inr a)
    then show ?thesis using f same by (cases a) (auto simp: current_user_rest_def service_eval split: option.split)
  qed
qed

lemma current_user_answers:
  "\<exists>r. fst (auth_getCurrentUser b) = Inr r \<and> (case r of
      Failure _ \<Rightarrow> True | Ok _ \<Rightarrow> truthy_opt (br_stored b) \<and> same_session b (snd (auth_getCurrentUser b)))"
  using current_rest_answers [of "the (br_stored b)" b]
  by (auto simp: operations_split(1) getToken_def io_bind_run split: result.split)

lemma session_initialize: "session_ok (snd (initializeAuth b))"
proof -
  let ?b = "b\<lparr>br_loading := True\<rparr>"
  let ?v = "auth_validateToken (the (br_stored b)) ?b"
  obtain v b1 where v: "?v = (Inr v, b1)" using validate_answers(1) by (metis prod.collapse)
  have same: "same_session ?b b1" using validate_answers(2) [of ?b "the (br_stored b)"] v by simp
  obtain u b2 where u: "auth_getCurrentUser b1 = (Inr u, b2)" using current_user_answers by (metis prod.collapse)
  have kept: "case u of Failure _ \<Rightarrow> True | Ok _ \<Rightarrow> truthy_opt (br_stored b1) \<and> same_session b1 b2"
    using current_user_answers [of b1] unfolding u by (cases u) simp_all
  have stored: "truthy_opt (br_stored b) \<Longrightarrow> br_stored b \<noteq> None" by (cases "br_stored b") simp_all
  show ?thesis
    using v u same kept stored
    by (cases v; cases u) (auto simp: initializeAuth_def io_finally_run io_catch_run io_bind_run getToken_def clearAuthState_def removeToken_def
      session_ok_def signed_tokens_def same_session_def)
qed

lemma session_login:
  assumes I: "session_inv I"
  shows "preserves I (context_login credentials)"
proof (rule preservesI)
  fix b assume b: "I b"
  obtain r b1 where r: "auth_login credentials b = (Inr r, b1)"
    using login_answers [of credentials b] by (metis prod.collapse)
  show "I (snd (context_login credentials b))"
  proof (cases r)
    case (Failure e)
    then have "same_session b (snd (context_login credentials b))"
      using login_answers [of credentials b] r by (simp add: context_login_def io_catch_run io_bind_run)
    then show ?thesis using session_invD(1) [OF I] b by blast
  next
    case (Ok v)
    then have "signed_tokens (snd (context_login credentials b))"
      using login_answers [of credentials b] r
      by (simp add: context_login_def io_catch_run io_bind_run read_prop_def signed_tokens_def)
    then show ?thesis by (rule session_invD(2) [OF I])
  qed
qed

lemma refresh_result:
  "(\<exists>user. same_session (b\<lparr>br_user := Some user\<rparr>) (snd (refresh_rest token b)))
    \<or> br_user (snd (refresh_rest token b)) = None \<and> br_token (snd (refresh_rest token b)) = None \<and> br_stored (snd (refresh_rest token b)) = None"
proof -
  obtain u b2 where u: "current_user_rest token b = (Inr u, b2)" using current_rest_answers by (metis prod.collapse)
  then show ?thesis
    using current_rest_answers [of token b, unfolded u]
    by (cases u) (auto simp: refresh_rest_def io_bind_run same_session_def context_logout_def clearAuthState_def removeToken_def)
qed

text \<open>An answer for \<open>refreshUser\<close> changes the user only, or signs out.\<close>

lemma tokens_refresh: "tokens_agree b \<Longrightarrow> tokens_agree (snd (refresh_rest token b))"
  using refresh_result [of b token] by (auto simp: tokens_agree_def signed_tokens_def same_session_def)

lemma session_refresh: "session_ok b \<Longrightarrow> br_stored b = Some token \<Longrightarrow> token \<noteq> [] \<Longrightarrow> session_ok (snd (refresh_rest token b))"
  using refresh_result [of b token] by (auto simp: session_ok_def signed_tokens_def same_session_def)

lemma session_resume:
  assumes "session_inv I" "I b" "case w of RefreshSent _ \<Rightarrow> False | _ \<Rightarrow> True"
  shows "I (answer_arrives w b)"
  using assms session_clients [OF assms(1)] session_login [OF assms(1)] by (cases w) (simp_all add: silently_def preserves_def)

lemma session_sse: "session_inv I \<Longrightarrow> I b \<Longrightarrow> I (silently (handleSSEAuthError m) b)"
proof -
  assume I: "session_inv I" "I b"
  have "preserves I (handleSSEAuthError m)"
    unfolding handleSSEAuthError_def by (intro preserves_intros session_logout [OF I(1)])
  then show ?thesis using I(2) by (simp add: silently_def preserves_def)
qed

lemma session_out: "session_inv I \<Longrightarrow> I b \<Longrightarrow> I (silently context_logout b)"
  using session_logout(1) [of I] by (simp add: silently_def preserves_def)

lemma loaded_ok: "session_ok (silently load_page b)"
  by (simp add: silently_def load_page_def io_bind_run session_initialize)

lemma net_same: "session_inv I \<Longrightarrow> I (b\<lparr>br_net := a\<rparr>) = I b"
  using session_invD(1) [of I b "b\<lparr>br_net := a\<rparr>"] session_invD(1) [of I "b\<lparr>br_net := a\<rparr>" b] by (auto simp: same_session_def)

lemma ok_agree: "session_ok b \<Longrightarrow> tokens_agree b"
  by (auto simp: session_ok_def tokens_agree_def)

lemma tokens_step:
  assumes "tokens_agree b"
  shows "tokens_agree (fst (session_step e (b, ws)))"
proof (cases e)
  case (Answered i a)
  have b: "tokens_agree (b\<lparr>br_net := [a]\<rparr>)" using assms by (simp add: net_same session_invs)
  then have "tokens_agree (answer_arrives w (b\<lparr>br_net := [a]\<rparr>))" for w
    using tokens_refresh [OF b] session_resume [OF session_invs(1) b, of w] by (cases w) (simp_all add: silently_def)
  then show ?thesis using assms Answered by simp
qed (use assms session_sse [OF session_invs(1)] session_out [OF session_invs(1)] in \<open>simp_all add: loaded_ok ok_agree\<close>)

text \<open>A token that is remembered for \<open>refreshUser\<close> is not empty.\<close>

definition sent_tokens :: "under_way list \<Rightarrow> bool" where
  "sent_tokens ws \<longleftrightarrow> list_all (\<lambda>w. case w of RefreshSent token \<Rightarrow> token \<noteq> [] | _ \<Rightarrow> True) ws"

lemma truthy_present: "truthy_opt x \<Longrightarrow> \<exists>s. x = Some s \<and> s \<noteq> []"
  by (cases x) simp_all

lemma sent_step: "sent_tokens ws \<Longrightarrow> sent_tokens (snd (session_step e (b, ws)))"
  by (cases e) (auto simp: sent_tokens_def list_all_iff dest: in_set_takeD in_set_dropD dest!: truthy_present split: option.splits)

lemma session_step_ok:
  assumes "session_ok b" "sent_tokens ws" "\<not> late_refresh e (b, ws)"
  shows "session_ok (fst (session_step e (b, ws)))"
proof (cases e)
  case (Answered i a)
  have b: "session_ok (b\<lparr>br_net := [a]\<rparr>)" using assms(1) by (simp add: net_same session_invs)
  have "session_ok (answer_arrives (ws ! i) (b\<lparr>br_net := [a]\<rparr>))" if i: "i < length ws"
  proof (cases "ws ! i")
    case (RefreshSent token)
    then have "br_stored b = Some token" "token \<noteq> []"
      using assms(2,3) Answered i nth_mem [OF i] by (fastforce simp: sent_tokens_def list_all_iff)+
    then show ?thesis using session_refresh [OF b] RefreshSent by (simp add: silently_def)
  qed (use session_resume [OF session_invs(2) b, of "ws ! i"] in simp_all)
  then show ?thesis using assms(1) Answered by simp
qed (use assms(1) session_sse [OF session_invs(2)] session_out [OF session_invs(2)] in \<open>simp_all add: loaded_ok\<close>)

lemma tokens_run: "tokens_agree (fst t) \<Longrightarrow> tokens_agree (fst (session_run es t))"
proof (induction es arbitrary: t)
  case (Cons e es)
  then show ?case using tokens_step [of "fst t" e "snd t"] by simp
qed simp

lemma session_run_ok:
  "session_ok (fst t) \<Longrightarrow> sent_tokens (snd t) \<Longrightarrow> refreshes_in_time es t \<Longrightarrow> session_ok (fst (session_run es t))"
proof (induction es arbitrary: t)
  case (Cons e es)
  then show ?case using session_step_ok [of "fst t" "snd t" e] sent_step [of "snd t" e "fst t"] by simp
qed simp

text \<open>C31. In one tab, from the first load of a page on, whatever the user does, whatever requests are under way at the same time and
  however and in whichever order they are answered: the context, the cookie and the storage hold the same token, or neither
  the context nor the storage holds one. In the second case nobody is signed in either, provided that no answer for
  \<open>refreshUser\<close> comes when the token it was sent with is no longer the stored one.\<close>

theorem session_consistent:
  "tokens_agree (fst (session_run (LoadPage replies # es) t)) \<and>
    (if refreshes_in_time (LoadPage replies # es) t then session_ok (fst (session_run (LoadPage replies # es) t)) else True)"
proof (cases t)
  case (Pair b ws)
  then show ?thesis
    using tokens_run [of "(silently load_page (b\<lparr>br_net := replies\<rparr>), [])" es]
      session_run_ok [of "(silently load_page (b\<lparr>br_net := replies\<rparr>), [])" es]
    by (simp add: loaded_ok ok_agree sent_tokens_def)
qed

text \<open>The proviso is needed: when the answer comes after the user has signed out, the context shows the user again, without
  a token.\<close>

lemma late_answer_shows_user:
  assumes "br_stored b = Some token" "token \<noteq> []" "json_truthy user"
    and "answer = HttpAnswer 200 [] (Some (JObj [(''success'', JBool True), (''data'', user)]))"
  shows "case session_run [Refresh, Logout, Answered 0 answer] (b, []) of (b', _) \<Rightarrow>
    br_user b' = Some user \<and> br_token b' = None \<and> br_stored b' = None \<and> br_page b' = ''/login''"
  using assms by (simp add: silently_def context_logout_def clearAuthState_def removeToken_def refresh_rest_def current_user_rest_def
      http_fetch_def service_eval http_ok_def prop_of_def)

section \<open>An answer 401\<close>

definition signed_out :: "browser \<Rightarrow> bool" where
  "signed_out b \<longleftrightarrow> br_stored b = None \<and> br_cookie b = None \<and> br_user b = None \<and> br_token b = None \<and> br_page b = ''/login''"

lemma signed_out_logout:
  "br_ready b \<Longrightarrow> global_logout b = (Inr (), snd (context_logout b))" "signed_out (snd (context_logout b))"
  by (simp_all add: global_logout_def context_logout_def clearAuthState_def removeToken_def signed_out_def io_bind_run)

lemma fetch_answer:
  "br_net b = HttpAnswer status msg body # rest \<Longrightarrow>
   http_fetch req b = (Inr (status, msg, body), b\<lparr>br_sent := br_sent b @ [req], br_net := rest\<rparr>)"
  by (simp add: http_fetch_def)

lemma axios_unauthorized:
  assumes "br_ready b" "br_stored b = Some token" "token \<noteq> []" "br_net b = HttpAnswer 401 msg body # rest"
  shows "case axios_request req b of (r, b') \<Rightarrow> r = Inr (Failure (AxiosAnswer 401 msg body)) \<and> signed_out b'"
  using assms signed_out_logout
  by (simp add: axios_request_def axios_send_def fetch_answer io_bind_run global_token_def http_ok_def)

text \<open>C32. An answer 401 with a JSON body signs the user out, whichever of the three clients sent the request: storage, cookie
  and context are emptied, the login page is shown, and the caller gets an error.\<close>

theorem unauthorized_ends_session:
  assumes "br_ready b" "br_stored b = Some token" "token \<noteq> []" "br_net b = HttpAnswer 401 msg (Some v) # rest"
  shows "(case authFetch False req b of (r, b') \<Rightarrow> isl r \<and> signed_out b') \<and>
    (case axios_request req b of (r, b') \<Rightarrow> r = Inr (Failure (AxiosAnswer 401 msg (Some v))) \<and> signed_out b') \<and>
    signed_out (snd (makeRequest req b))"
proof -
  note run = io_bind_run io_catch_run getToken_def global_token_def json_of_def js_throw_def http_ok_def
  have 1: "case authFetch False req b of (r, b') \<Rightarrow> isl r \<and> signed_out b'"
    using assms signed_out_logout by (simp add: authFetch_def fetch_answer run)
  have 2: "case axios_request req b of (r, b') \<Rightarrow> r = Inr (Failure (AxiosAnswer 401 msg (Some v))) \<and> signed_out b'"
    by (rule axios_unauthorized) (use assms in simp_all)
  have 3: "signed_out (snd (makeRequest req b))"
    using assms signed_out_logout by (simp add: makeRequest_def fetch_answer run read_prop_def)
  show ?thesis using 1 2 3 by blast
qed

definition signed_in_browser :: browser where
  "signed_in_browser = \<lparr>br_stored = Some ''t'', br_cookie = Some ''t'', br_user = Some (JStr ''a''), br_token = Some ''t'',
     br_loading = False, br_page = ''/dashboard'', br_ready = True, br_net = [HttpAnswer 401 [] (Some (JObj []))], br_sent = []\<rparr>"

definition some_request :: http_request where
  "some_request = \<lparr>rq_method = ''GET'', rq_url = ''/api/bot'', rq_headers = [], rq_body = None\<rparr>"

theorem unauthorized_ends_session_witness:
  "(case authFetch False some_request signed_in_browser of (r, b') \<Rightarrow> isl r \<and> signed_out b') \<and>
    (case axios_request some_request signed_in_browser of (r, b') \<Rightarrow>
       r = Inr (Failure (AxiosAnswer 401 [] (Some (JObj [])))) \<and> signed_out b') \<and>
    signed_out (snd (makeRequest some_request signed_in_browser))"
  by (rule unauthorized_ends_session [where token = "''t''" and rest = "[]"]) (simp_all add: signed_in_browser_def)

text \<open>The same answer with a body that is not JSON keeps the session when the request goes through \<open>ApiClient\<close>.\<close>

lemma api_client_keeps_session:
  assumes "br_ready b" "br_stored b = Some token" "token \<noteq> []" "br_net b = HttpAnswer 401 msg None # rest"
  shows "br_stored (snd (makeRequest req b)) = Some token"
  using assms by (simp add: makeRequest_def fetch_answer io_bind_run io_catch_run global_token_def json_of_def js_throw_def)

end
