(* ===== verification/ApiServices.thy ===== *)
theory ApiServices
  imports BrowserSession CustomBotRepository
begin

text \<open>
  The services of the web client over its request clients: frontend/src/lib/api/api-client.ts (instances), api-key-service.ts,
  user.service.ts with lib/users.ts, admin-users.ts and custom-bots.service.ts. A service answers a \<open>result\<close>; an answer that
  is not JSON is None where a client passes it on.
\<close>

section \<open>Over axios: instances and API keys\<close>

text \<open>The error of these services: message and status code.\<close>

record service_error =
  se_message :: json
  se_statusCode :: nat

definition handleError :: "axios_error \<Rightarrow> service_error" where
  "handleError e = \<lparr>se_message = getErrorMessage e, se_statusCode = getErrorStatusCode e\<rparr>"

definition axios_call :: "string \<Rightarrow> string \<Rightarrow> json option \<Rightarrow> (browser, (json option, service_error) result) io" where
  "axios_call meth url body = io_bind (axios_request \<lparr>rq_method = meth, rq_url = url, rq_headers = [], rq_body = body\<rparr>) (\<lambda>r.
     io_return (case r of Ok data \<Rightarrow> Ok data | Failure e \<Rightarrow> Failure (handleError e)))"

definition name_and_config :: "js_object \<Rightarrow> json" where
  "name_and_config config = JObj (opt_entry ''name'' (map_of config ''name'') @ [(''config'', JObj config)])"

definition createBot_request :: "js_object \<Rightarrow> (browser, (json option, service_error) result) io" where
  "createBot_request config = axios_call ''POST'' ''/api/bot'' (Some (name_and_config config))"

definition getBot_request :: "string \<Rightarrow> (browser, (json option, service_error) result) io" where
  "getBot_request b = axios_call ''GET'' (''/api/bot/'' @ b) None"

definition updateBot_request :: "string \<Rightarrow> js_object \<Rightarrow> (browser, (json option, service_error) result) io" where
  "updateBot_request b config = axios_call ''PUT'' (''/api/bot/'' @ b) (Some (name_and_config config))"

definition getBots_request :: "(browser, (json option, service_error) result) io" where
  "getBots_request = axios_call ''GET'' ''/api/bot'' None"

definition deleteBot_request :: "string \<Rightarrow> (browser, (unit, service_error) result) io" where
  "deleteBot_request b = io_bind (axios_call ''DELETE'' (''/api/bot/'' @ b) None) (\<lambda>r.
     io_return (case r of Ok _ \<Rightarrow> Ok () | Failure e \<Rightarrow> Failure e))"

definition getApiKeys_request :: "(browser, (json option, service_error) result) io" where
  "getApiKeys_request = axios_call ''GET'' ''/api/api-keys'' None"

definition createApiKey_request :: "json \<Rightarrow> (browser, (json option, service_error) result) io" where
  "createApiKey_request request = axios_call ''POST'' ''/api/api-keys'' (Some request)"

definition getApiKey_request :: "string \<Rightarrow> (browser, (json option, service_error) result) io" where
  "getApiKey_request key = axios_call ''GET'' (''/api/api-keys/'' @ key) None"

definition deleteApiKey_request :: "string \<Rightarrow> (browser, (json option, service_error) result) io" where
  "deleteApiKey_request key = axios_call ''DELETE'' (''/api/api-keys/'' @ key) None"

definition getApiKeyStats_request :: "(browser, (json option, service_error) result) io" where
  "getApiKeyStats_request = axios_call ''GET'' ''/api/api-keys/stats/summary'' None"

section \<open>Over ApiClient: users\<close>

text \<open>\<open>response.error?.message || d\<close> and \<open>response.error?.statusCode || code\<close>.\<close>

definition api_failure :: "(json, api_error) result \<Rightarrow> string \<Rightarrow> nat \<Rightarrow> service_error" where
  "api_failure r d code = (case r of
      Failure e \<Rightarrow> \<lparr>se_message = value_or (Some (ae_message e)) (JStr d), se_statusCode = (if ae_statusCode e = 0 then code else ae_statusCode e)\<rparr>
    | Ok _ \<Rightarrow> \<lparr>se_message = JStr d, se_statusCode = code\<rparr>)"

text \<open>\<open>if (!response.data)\<close>.\<close>

definition api_data :: "(json, api_error) result \<Rightarrow> string \<Rightarrow> nat \<Rightarrow> (json, service_error) result" where
  "api_data r d code = (case r of Ok v \<Rightarrow> if json_truthy v then Ok v else Failure (api_failure r d code)
    | Failure _ \<Rightarrow> Failure (api_failure r d code))"

definition service_call :: "(browser, (json, api_error) result) io \<Rightarrow> ((json, api_error) result \<Rightarrow> ('a, service_error) result) \<Rightarrow> string \<Rightarrow>
    (browser, ('a, service_error) result) io" where
  "service_call call answer d = io_catch (io_bind call (\<lambda>r. io_return (answer r)))
     (\<lambda>_. io_return (Failure \<lparr>se_message = JStr d, se_statusCode = 500\<rparr>))"

definition us_createUser :: "json \<Rightarrow> (browser, (json, service_error) result) io" where
  "us_createUser userData = service_call (api_call ''POST'' ''/api/users'' (Some userData))
     (\<lambda>r. api_data r ''Failed to create user'' 400) ''Failed to create user''"

text \<open>An unknown user is no error: Ok None.\<close>

definition us_getUser :: "string \<Rightarrow> (browser, (json option, service_error) result) io" where
  "us_getUser userId = service_call (api_call ''GET'' (''/api/users/'' @ userId) None)
     (\<lambda>r. case r of
        Failure e \<Rightarrow> if ae_statusCode e = 404 then Ok None else Failure (api_failure r ''Failed to fetch user'' 400)
      | Ok v \<Rightarrow> if json_truthy v then Ok (Some v) else Failure (api_failure r ''Failed to fetch user'' 400))
     ''Failed to fetch user''"

definition us_updateUser :: "string \<Rightarrow> json \<Rightarrow> (browser, (json, service_error) result) io" where
  "us_updateUser userId data = service_call (api_call ''PUT'' (''/api/users/'' @ userId) (Some data))
     (\<lambda>r. api_data r ''Failed to update user'' 400) ''Failed to update user''"

definition api_done :: "(json, api_error) result \<Rightarrow> string \<Rightarrow> (unit, service_error) result" where
  "api_done r d = (case r of Failure _ \<Rightarrow> Failure (api_failure r d 400) | Ok _ \<Rightarrow> Ok ())"

definition us_updateLastLogin :: "string \<Rightarrow> string \<Rightarrow> (browser, (unit, service_error) result) io" where
  "us_updateLastLogin userId now = service_call
     (api_call ''PUT'' (''/api/users/'' @ userId) (Some (JObj [(''lastLogin'', JStr now)])))
     (\<lambda>r. api_done r ''Failed to update last login'') ''Failed to update last login''"

definition us_deleteUser :: "string \<Rightarrow> (browser, (unit, service_error) result) io" where
  "us_deleteUser userId = service_call (api_call ''DELETE'' (''/api/users/'' @ userId) None)
     (\<lambda>r. api_done r ''Failed to delete user'') ''Failed to delete user''"

text \<open>lib/users.ts.\<close>

definition ur_create :: "string \<Rightarrow> string \<Rightarrow> string option \<Rightarrow> (browser, (json, service_error) result) io" where
  "ur_create userId email displayName = us_createUser (JObj ([(''userId'', JStr userId), (''email'', JStr email)]
     @ opt_entry ''displayName'' (if truthy_opt displayName then map_option JStr displayName else None)))"

definition ur_update :: "string \<Rightarrow> string option \<Rightarrow> string option \<Rightarrow> (browser, (unit, service_error) result) io" where
  "ur_update userId displayName photoURL = io_bind (us_updateUser userId (JObj
     (opt_entry ''displayName'' (if truthy_opt displayName then map_option JStr displayName else None)
      @ opt_entry ''photoURL'' (if truthy_opt photoURL then map_option JStr photoURL else None))))
     (\<lambda>r. io_return (case r of Ok _ \<Rightarrow> Ok () | Failure e \<Rightarrow> Failure e))"

section \<open>Over authFetch: administration of users\<close>

definition responseError :: "json option \<Rightarrow> string \<Rightarrow> (browser, json) io" where
  "responseError body fallback = io_catch
     (io_bind (json_of body) (\<lambda>v. io_bind (read_prop v ''message'') (\<lambda>m. io_return (value_or m (JStr fallback)))))
     (\<lambda>_. io_return (JStr fallback))"

text \<open>The data are None when the answer has none.\<close>

definition readData :: "nat \<times> string \<times> json option \<Rightarrow> string \<Rightarrow> (browser, (json option, json) result) io" where
  "readData response fallback = (case response of (status, _, body) \<Rightarrow>
     if \<not> http_ok status then io_bind (responseError body fallback) (\<lambda>e. io_return (Failure e))
     else io_bind (json_of body) (\<lambda>v. io_bind (read_prop v ''data'') (\<lambda>data. io_return (Ok data))))"

text \<open>
  \<open>return readData(response, ...)\<close> in a \<open>try\<close> block is not awaited there: the clause catches what \<open>authFetch\<close> throws, and
  not what \<open>readData\<close> does.
\<close>

definition admin_call :: "string \<Rightarrow> string \<Rightarrow> json option \<Rightarrow> string \<Rightarrow> (js_error \<Rightarrow> string) \<Rightarrow> (browser, (json option, json) result) io" where
  "admin_call meth url body fallback caught = io_bind
     (io_catch (io_bind (authFetch False \<lparr>rq_method = meth, rq_url = url, rq_headers = [], rq_body = body\<rparr>) (\<lambda>r. io_return (Inl r)))
        (\<lambda>e. io_return (Inr (caught e))))
     (\<lambda>r. case r of Inl response \<Rightarrow> readData response fallback | Inr msg \<Rightarrow> io_return (Failure (JStr msg)))"

definition listAdminUsers :: "(browser, (json option, json) result) io" where
  "listAdminUsers = admin_call ''GET'' ''/api/admin/users'' None ''Failed to load users'' errorMessage"

definition createAdminUser :: "json \<Rightarrow> (browser, (json option, json) result) io" where
  "createAdminUser input = admin_call ''POST'' ''/api/admin/users'' (Some input) ''Failed to create user'' (\<lambda>_. ''Failed to create user'')"

definition updateAdminUser :: "string \<Rightarrow> json \<Rightarrow> (browser, (json option, json) result) io" where
  "updateAdminUser uid input = admin_call ''PATCH'' (''/api/admin/users/'' @ uid) (Some input) ''Failed to update user'' (\<lambda>_. ''Failed to update user'')"

definition resetAdminUserPassword :: "string \<Rightarrow> string \<Rightarrow> (browser, (json option, json) result) io" where
  "resetAdminUserPassword uid password = admin_call ''POST'' (''/api/admin/users/'' @ uid @ ''/reset-password'')
     (Some (JObj [(''password'', JStr password)])) ''Failed to reset password'' (\<lambda>_. ''Failed to reset password'')"

section \<open>Over ApiClient: custom bots\<close>

text \<open>\<open>new Date(v)\<close>; arrays and objects, which the API never gives for a time, are taken for invalid.\<close>

definition date_of_value :: "page_env \<Rightarrow> json option \<Rightarrow> js_date" where
  "date_of_value pe v = (case v of
      None \<Rightarrow> None | Some JNull \<Rightarrow> Some 0 | Some (JBool x) \<Rightarrow> Some (if x then 1 else 0) | Some (JNum q) \<Rightarrow> date_of_number q
    | Some (JStr s) \<Rightarrow> pe_date pe s | Some _ \<Rightarrow> None)"

text \<open>A review with its time (None: undefined), a version, and a bot with its versions. Fields that are undefined are None; the
  other fields of an answer are passed on by the code and left out here.\<close>

record ui_review =
  rv_fields :: js_object
  rv_reviewedAt :: "js_date option"

record ui_version =
  uv_id :: "json option"
  uv_version :: "json option"
  uv_userId :: "json option"
  uv_createdAt :: js_date
  uv_status :: "json option"
  uv_config :: "json option"
  uv_filePath :: "json option"
  uv_review :: "ui_review option"

record ui_bot =
  ub_id :: "json option"
  ub_name :: "json option"
  ub_userId :: "json option"
  ub_latestVersion :: "json option"
  ub_versions :: "ui_version list"
  ub_createdAt :: js_date
  ub_updatedAt :: js_date

definition ui_review_of :: "page_env \<Rightarrow> json option \<Rightarrow> ui_review option" where
  "ui_review_of pe review = (if \<not> truthy_value review then None
     else let time = prop_of review ''reviewedAt'' in
       Some \<lparr>rv_fields = (case review of Some (JObj kvs) \<Rightarrow> kvs | _ \<Rightarrow> []),
         rv_reviewedAt = (if truthy_value time then Some (date_of_value pe time) else None)\<rparr>)"

text \<open>A raw record with its dates converted.\<close>

record raw_bot =
  rb_version :: ui_version
  rb_name :: "json option"
  rb_updatedAt :: js_date

definition ui_version_of :: "page_env \<Rightarrow> json \<Rightarrow> ui_version" where
  "ui_version_of pe v = (let p = prop_of (Some v) in
     \<lparr>uv_id = p ''id'', uv_version = p ''version'', uv_userId = p ''userId'', uv_createdAt = date_of_value pe (p ''createdAt''),
      uv_status = p ''status'', uv_config = p ''config'', uv_filePath = p ''filePath'', uv_review = ui_review_of pe (p ''review'')\<rparr>)"

definition raw_bot_of :: "page_env \<Rightarrow> json \<Rightarrow> raw_bot" where
  "raw_bot_of pe v = \<lparr>rb_version = ui_version_of pe v, rb_name = prop_of (Some v) ''name'',
     rb_updatedAt = date_of_value pe (prop_of (Some v) ''updatedAt'')\<rparr>"

text \<open>The order of versions, newest first; dates that are not valid are taken for 0, where the comparison of the code gives no order.\<close>

definition raw_time :: "raw_bot \<Rightarrow> int" where
  "raw_time b = (case uv_createdAt (rb_version b) of Some t \<Rightarrow> t | None \<Rightarrow> 0)"

fun add_raw :: "(json option \<times> raw_bot list) list \<Rightarrow> raw_bot \<Rightarrow> (json option \<times> raw_bot list) list" where
  "add_raw groups b = AList.update (rb_name b)
     ((case map_of groups (rb_name b) of None \<Rightarrow> [] | Some bs \<Rightarrow> bs) @ [b]) groups"

definition ui_bot_of :: "raw_bot list \<Rightarrow> ui_bot" where
  "ui_bot_of raws = (let bs = sort_key (\<lambda>b. - raw_time b) raws; latest = hd bs in
     \<lparr>ub_id = uv_id (rb_version latest), ub_name = rb_name latest, ub_userId = uv_userId (rb_version latest),
      ub_latestVersion = uv_version (rb_version latest), ub_versions = map rb_version bs,
      ub_createdAt = uv_createdAt (rb_version (last bs)), ub_updatedAt = rb_updatedAt latest\<rparr>)"

definition js_typeof :: "json option \<Rightarrow> string" where
  "js_typeof v = (case v of None \<Rightarrow> ''undefined'' | Some (JBool _) \<Rightarrow> ''boolean'' | Some (JNum _) \<Rightarrow> ''number''
    | Some (JStr _) \<Rightarrow> ''string'' | Some _ \<Rightarrow> ''object'')"

text \<open>An element null throws.\<close>

definition transformToCustomBotsWithVersions :: "page_env \<Rightarrow> json option \<Rightarrow> js_error + ui_bot list" where
  "transformToCustomBotsWithVersions pe rawBots = (case rawBots of
      Some (JArr xs) \<Rightarrow> if JNull \<in> set xs then Inl (Err None ''Cannot read properties of null'' None)
        else Inr (map (ui_bot_of \<circ> snd) (foldl add_raw [] (map (raw_bot_of pe) xs)))
    | _ \<Rightarrow> Inl (Err None (''Expected array but got '' @ js_typeof rawBots) None))"

text \<open>A bot that the API has already grouped; its versions have to be an array of values that are not null.\<close>

definition grouped_bot :: "page_env \<Rightarrow> json \<Rightarrow> js_error + ui_bot" where
  "grouped_bot pe v = (let p = prop_of (Some v) in case p ''versions'' of
      Some (JArr vs) \<Rightarrow> if JNull \<in> set vs then Inl (Err None ''Cannot read properties of null'' None)
        else Inr \<lparr>ub_id = p ''id'', ub_name = p ''name'', ub_userId = p ''userId'', ub_latestVersion = p ''latestVersion'',
          ub_versions = map (ui_version_of pe) vs, ub_createdAt = date_of_value pe (p ''createdAt''), ub_updatedAt = date_of_value pe (p ''updatedAt'')\<rparr>
    | _ \<Rightarrow> Inl (Err None ''Cannot read properties of undefined'' None))"

fun collect :: "(js_error + 'a) list \<Rightarrow> js_error + 'a list" where
  "collect [] = Inr []"
| "collect (Inl e # xs) = Inl e"
| "collect (Inr x # xs) = (case collect xs of Inl e \<Rightarrow> Inl e | Inr ys \<Rightarrow> Inr (x # ys))"

definition bots_of_data :: "page_env \<Rightarrow> json option \<Rightarrow> js_error + ui_bot list" where
  "bots_of_data pe rawData = (case rawData of
      None \<Rightarrow> Inl (Err None ''Cannot read properties of undefined'' None)
    | Some JNull \<Rightarrow> Inl (Err None ''Cannot read properties of null'' None)
    | Some (JArr (x # xs)) \<Rightarrow> if x = JNull then Inl (Err None ''Cannot read properties of null'' None)
        else if truthy_value (prop_of (Some x) ''versions'') then collect (map (grouped_bot pe) (x # xs))
        else transformToCustomBotsWithVersions pe rawData
    | _ \<Rightarrow> transformToCustomBotsWithVersions pe rawData)"

definition custom_bots_answer :: "page_env \<Rightarrow> (json, api_error) result \<Rightarrow> js_error + (ui_bot list, service_error) result" where
  "custom_bots_answer pe r = (case r of
      Failure e \<Rightarrow> Inr (Failure (api_failure r ''Failed to fetch custom bots'' 500))
    | Ok v \<Rightarrow> if \<not> json_truthy v \<or> \<not> truthy_value (prop_of (Some v) ''success'')
        then Inr (Failure (api_failure r ''Failed to fetch custom bots'' 500))
        else (case bots_of_data pe (prop_of (Some v) ''data'') of Inl e \<Rightarrow> Inl e | Inr bs \<Rightarrow> Inr (Ok bs)))"

text \<open>The catch clause of the methods.\<close>

definition caught_answer :: "js_error + ('a, service_error) result \<Rightarrow> ('a, service_error) result" where
  "caught_answer r = (case r of Inr a \<Rightarrow> a
    | Inl e \<Rightarrow> Failure \<lparr>se_message = value_or (Some (JStr (errorMessage e))) (JStr ''Network error''), se_statusCode = 500\<rparr>)"

definition getCustomBots_request :: "page_env \<Rightarrow> (browser, (ui_bot list, service_error) result) io" where
  "getCustomBots_request pe = io_bind (api_call ''GET'' ''/api/custom-bots'' None) (\<lambda>r.
     io_return (caught_answer (custom_bots_answer pe r)))"

definition getCustomBot_request :: "page_env \<Rightarrow> string \<Rightarrow> (browser, (ui_bot, service_error) result) io" where
  "getCustomBot_request pe botName = io_bind (getCustomBots_request pe) (\<lambda>r. io_return (case r of
      Failure e \<Rightarrow> Failure e
    | Ok bs \<Rightarrow> (case find (\<lambda>b. ub_name b = Some (JStr botName)) bs of
        None \<Rightarrow> Failure \<lparr>se_message = JStr ''Bot not found'', se_statusCode = 404\<rparr> | Some b \<Rightarrow> Ok b)))"

definition getCustomBotVersion_request :: "page_env \<Rightarrow> string \<Rightarrow> string \<Rightarrow> (browser, (raw_bot, service_error) result) io" where
  "getCustomBotVersion_request pe botName version =
     io_bind (api_call ''GET'' (''/api/custom-bots/'' @ encodeURIComponent botName @ ''/'' @ encodeURIComponent version) None) (\<lambda>r.
       io_return (case api_data r ''Failed to fetch custom bot version'' 500 of Failure e \<Rightarrow> Failure e | Ok v \<Rightarrow> Ok (raw_bot_of pe v)))"

definition getCustomBotVersions_request :: "string \<Rightarrow> (browser, (json, service_error) result) io" where
  "getCustomBotVersions_request botName =
     io_bind (api_call ''GET'' (''/api/custom-bots/'' @ encodeURIComponent botName @ ''/versions'') None) (\<lambda>r.
       io_return (api_data r ''Failed to fetch custom bot versions'' 500))"

section \<open>Both forms of the list of bots\<close>

text \<open>The rows and the summaries of the API as JSON: \<open>stamp\<close> prints a time, \<open>c\<close> a configuration.\<close>

definition row_json :: "(int \<Rightarrow> string) \<Rightarrow> (custom_bot_config \<Rightarrow> json) \<Rightarrow> custom_bot_row \<Rightarrow> json" where
  "row_json stamp c b = JObj [(''id'', JStr (cb_id b)), (''userId'', JStr (cb_userId b)), (''name'', JStr (cb_name b)),
     (''version'', JStr (cb_version b)), (''config'', c (cb_config b)), (''filePath'', JStr (cb_filePath b)),
     (''status'', JStr (cb_status b)), (''createdAt'', JStr (stamp (cb_createdAt b))), (''updatedAt'', JStr (stamp (cb_updatedAt b)))]"

definition version_json :: "(int \<Rightarrow> string) \<Rightarrow> (custom_bot_config \<Rightarrow> json) \<Rightarrow> custom_bot_version \<Rightarrow> json" where
  "version_json stamp c v = JObj [(''id'', JStr (bv_id v)), (''version'', JStr (bv_version v)), (''config'', c (bv_config v)),
     (''userId'', JStr (bv_userId v)), (''filePath'', JStr (bv_filePath v)), (''status'', JStr (bv_status v)),
     (''createdAt'', JStr (stamp (bv_createdAt v))), (''updatedAt'', JStr (stamp (bv_updatedAt v)))]"

definition bot_json :: "(int \<Rightarrow> string) \<Rightarrow> (custom_bot_config \<Rightarrow> json) \<Rightarrow> custom_bot_with_versions \<Rightarrow> json" where
  "bot_json stamp c w = JObj [(''id'', JStr (bw_id w)), (''name'', JStr (bw_name w)), (''userId'', JStr (bw_userId w)),
     (''latestVersion'', JStr (bw_latestVersion w)), (''versions'', JArr (map (version_json stamp c) (bw_versions w))),
     (''createdAt'', JStr (stamp (bw_createdAt w))), (''updatedAt'', JStr (stamp (bw_updatedAt w)))]"

definition shown_version :: "(custom_bot_config \<Rightarrow> json) \<Rightarrow> custom_bot_version \<Rightarrow> ui_version" where
  "shown_version c v = \<lparr>uv_id = Some (JStr (bv_id v)), uv_version = Some (JStr (bv_version v)), uv_userId = Some (JStr (bv_userId v)),
     uv_createdAt = Some (bv_createdAt v), uv_status = Some (JStr (bv_status v)), uv_config = Some (c (bv_config v)),
     uv_filePath = Some (JStr (bv_filePath v)), uv_review = None\<rparr>"

definition shown_bot :: "(custom_bot_config \<Rightarrow> json) \<Rightarrow> custom_bot_with_versions \<Rightarrow> ui_bot" where
  "shown_bot c w = \<lparr>ub_id = Some (JStr (bw_id w)), ub_name = Some (JStr (bw_name w)), ub_userId = Some (JStr (bw_userId w)),
     ub_latestVersion = Some (JStr (bw_latestVersion w)), ub_versions = map (shown_version c) (bw_versions w),
     ub_createdAt = Some (bw_createdAt w), ub_updatedAt = Some (bw_updatedAt w)\<rparr>"

definition shown_row :: "(custom_bot_config \<Rightarrow> json) \<Rightarrow> custom_bot_row \<Rightarrow> raw_bot" where
  "shown_row c b = \<lparr>rb_version = shown_version c (to_version b), rb_name = Some (JStr (cb_name b)), rb_updatedAt = Some (cb_updatedAt b)\<rparr>"

lemma raw_of_row:
  assumes "\<And>t. pe_date pe (stamp t) = Some t"
  shows "raw_bot_of pe (row_json stamp c b) = shown_row c b" "ui_version_of pe (version_json stamp c v) = shown_version c v"
  by (simp_all add: raw_bot_of_def row_json_def version_json_def ui_version_of_def shown_row_def shown_version_def prop_of_def date_of_value_def
      assms ui_review_of_def to_version_def Let_def)

lemma grouped_of_json:
  assumes "\<And>t. pe_date pe (stamp t) = Some t"
  shows "grouped_bot pe (bot_json stamp c w) = Inr (shown_bot c w)"
proof -
  have "JNull \<notin> set (map (version_json stamp c) vs)" for vs by (auto simp: version_json_def)
  then show ?thesis
    by (simp add: grouped_bot_def bot_json_def prop_of_def date_of_value_def assms shown_bot_def raw_of_row(2) [OF assms] comp_def)
qed

lemma collect_map: "(\<And>x. f x = Inr (g x)) \<Longrightarrow> collect (map f xs) = Inr (map g xs)"
  by (induction xs) simp_all

lemma groups_through:
  "foldl add_raw [] (map (shown_row c) bs) = map (\<lambda>(n, g). (Some (JStr n), map (shown_row c) g)) (group_by_name bs)"
proof (induction bs rule: rev_induct)
  case Nil
  then show ?case by (simp add: group_by_name_def)
next
  case (snoc b bs)
  have inj: "inj (\<lambda>n. Some (JStr n))" by (auto intro: injI)
  have key: "rb_name (shown_row c b) = Some (JStr (cb_name b))" by (simp add: shown_row_def)
  have step: "foldl add_raw [] (map (shown_row c) (bs @ [b])) = add_raw (foldl add_raw [] (map (shown_row c) bs)) (shown_row c b)"
    by (simp del: add_raw.simps)
  have "(case map_of (map (\<lambda>(n, g). (Some (JStr n), map (shown_row c) g)) (group_by_name bs)) (Some (JStr (cb_name b))) of
      None \<Rightarrow> [] | Some bs \<Rightarrow> bs) @ [shown_row c b] =
    map (shown_row c) ((case map_of (group_by_name bs) (cb_name b) of None \<Rightarrow> [] | Some bs \<Rightarrow> bs) @ [b])"
    unfolding lookup_through [OF inj, where vf = "map (shown_row c)"] by (simp split: option.split)
  then show ?case
    unfolding step snoc.IH unfolding add_raw.simps key group_by_name_snoc add_to_group.simps
    by (simp only: update_through [OF inj, where vf = "map (shown_row c)"])
qed

lemma bot_through:
  assumes "g \<noteq> []"
  shows "ui_bot_of (map (shown_row c) g) = shown_bot c (with_versions (order_desc cb_createdAt g))"
proof -
  have "(\<lambda>b. - raw_time b) \<circ> shown_row c = (\<lambda>b. - cb_createdAt b)"
    by (simp add: fun_eq_iff raw_time_def shown_row_def shown_version_def to_version_def)
  then have sorted: "sort_key (\<lambda>b. - raw_time b) (map (shown_row c) g) = map (shown_row c) (order_desc cb_createdAt g)"
    by (simp add: sort_key_through order_desc_def)
  have "order_desc cb_createdAt g \<noteq> []" using assms by simp
  then show ?thesis
    by (simp add: ui_bot_of_def sorted hd_map last_map Let_def shown_bot_def with_versions_def shown_row_def shown_version_def to_version_def)
qed

text \<open>Whether the API answers with its own summaries or with the plain rows of the uploaded versions, the client shows the
  same bots with the same versions, newest first, each bot once.\<close>

theorem both_forms_show_same_bots:
  assumes "\<And>t. pe_date pe (stamp t) = Some t"
  shows "bots_of_data pe (Some (JArr (map (bot_json stamp c) (summarise bs)))) = Inr (map (shown_bot c) (summarise bs)) \<and>
    (\<exists>us. bots_of_data pe (Some (JArr (map (row_json stamp c) bs))) = Inr us \<and> mset us = mset (map (shown_bot c) (summarise bs)))"
proof
  have "bots_of_data pe (Some (JArr (map (bot_json stamp c) ws))) = Inr (map (shown_bot c) ws)" for ws
  proof (cases ws)
    case (Cons x xs)
    have first: "bot_json stamp c x \<noteq> JNull" "truthy_value (prop_of (Some (bot_json stamp c x)) ''versions'')"
      by (simp_all add: bot_json_def prop_of_def)
    have "bots_of_data pe (Some (JArr (map (bot_json stamp c) ws))) = collect (map (grouped_bot pe) (map (bot_json stamp c) ws))"
      by (simp add: bots_of_data_def Cons first del: collect.simps)
    also have "\<dots> = collect (map (\<lambda>w. grouped_bot pe (bot_json stamp c w)) ws)" by (simp add: comp_def)
    also have "\<dots> = Inr (map (shown_bot c) ws)" using collect_map grouped_of_json [OF assms] .
    finally show ?thesis .
  qed (simp add: bots_of_data_def transformToCustomBotsWithVersions_def)
  then show "bots_of_data pe (Some (JArr (map (bot_json stamp c) (summarise bs)))) = Inr (map (shown_bot c) (summarise bs))" .
next
  have rows: "JNull \<notin> set (map (row_json stamp c) bs)" by (auto simp: row_json_def)
  have plain: "prop_of (Some (row_json stamp c b)) ''versions'' = None" for b by (simp add: row_json_def prop_of_def)
  have "map (raw_bot_of pe) (map (row_json stamp c) bs) = map (shown_row c) bs" by (simp add: raw_of_row(1) [OF assms] comp_def)
  then have groups: "foldl add_raw [] (map (raw_bot_of pe) (map (row_json stamp c) bs)) =
      map (\<lambda>(n, g). (Some (JStr n), map (shown_row c) g)) (group_by_name bs)" by (simp only: groups_through)
  have "bots_of_data pe (Some (JArr (map (row_json stamp c) bs))) = transformToCustomBotsWithVersions pe (Some (JArr (map (row_json stamp c) bs)))"
    using rows plain by (cases bs) (auto simp: bots_of_data_def)
  also have "\<dots> = Inr (map (ui_bot_of \<circ> snd) (map (\<lambda>(n, g). (Some (JStr n), map (shown_row c) g)) (group_by_name bs)))"
    unfolding transformToCustomBotsWithVersions_def using rows groups by simp
  also have "map (ui_bot_of \<circ> snd) (map (\<lambda>(n, g). (Some (JStr n), map (shown_row c) g)) (group_by_name bs)) =
      map (\<lambda>x. shown_bot c (with_versions (order_desc cb_createdAt (snd x)))) (group_by_name bs)"
  proof -
    have "g \<noteq> []" if "(n, g) \<in> set (group_by_name bs)" for n g
      using that by (auto simp: group_by_name_in filter_empty_conv)
    then show ?thesis by (auto simp: bot_through)
  qed
  finally show "\<exists>us. bots_of_data pe (Some (JArr (map (row_json stamp c) bs))) = Inr us \<and>
      mset us = mset (map (shown_bot c) (summarise bs))"
    by (simp add: summarise_def image_mset.compositionality comp_def)
qed

text \<open>A witness prints a time as a row of strokes.\<close>

definition stroke_env :: page_env where
  "stroke_env = \<lparr>pe_json_parse = (\<lambda>_. None), pe_stringify = (\<lambda>_. []), pe_parseISO = (\<lambda>_. None), pe_date = (\<lambda>s.
     Some (if s \<noteq> [] \<and> hd s = CHR ''-'' then - int (length s - 1) else int (length s)))\<rparr>"

definition strokes :: "int \<Rightarrow> string" where
  "strokes t = (if 0 \<le> t then replicate (nat t) CHR ''i'' else CHR ''-'' # replicate (nat (- t)) CHR ''i'')"

lemma strokes_read: "pe_date stroke_env (strokes t) = Some t"
  by (auto simp: stroke_env_def strokes_def)

definition demo_rows :: "custom_bot_row list" where
  "demo_rows = [demo_version ''v1'' ''1.0.1'' 10, demo_version ''v10'' ''1.0.10'' 20]"

theorem both_forms_show_same_bots_witness:
  "bots_of_data stroke_env (Some (JArr (map (bot_json strokes (\<lambda>_. JNull)) (summarise demo_rows))))
     = Inr (map (shown_bot (\<lambda>_. JNull)) (summarise demo_rows)) \<and>
   (\<exists>us. bots_of_data stroke_env (Some (JArr (map (row_json strokes (\<lambda>_. JNull)) demo_rows))) = Inr us \<and>
      mset us = mset (map (shown_bot (\<lambda>_. JNull)) (summarise demo_rows)))"
  by (rule both_forms_show_same_bots) (rule strokes_read)

section \<open>Who rejects\<close>

lemma answers_global: "answers global_token" "answers global_logout" "answers (axios_send req)" "answers getToken"
  by (auto simp: answers_def global_token_def global_logout_def context_logout_def clearAuthState_def removeToken_def io_bind_run
      axios_send_def getToken_def split: prod.split sum.split)

lemma answers_axios: "answers (axios_call meth url body)"
  unfolding axios_call_def axios_request_def by (intro answers_intros answers_global)

lemma answers_api: "answers (api_call meth url data)"
  unfolding api_call_def makeRequest_def by (intro answers_intros answers_global)

text \<open>The services over axios and over \<open>ApiClient\<close> answer in every case.\<close>

lemma services_answer:
  "answers (createBot_request config)" "answers (getBot_request b)" "answers (updateBot_request b config)" "answers getBots_request"
  "answers (deleteBot_request b)" "answers getApiKeys_request" "answers (createApiKey_request v)" "answers (getApiKey_request key)"
  "answers (deleteApiKey_request key)" "answers getApiKeyStats_request"
  "answers (us_createUser v)" "answers (us_getUser u)" "answers (us_updateUser u v)" "answers (us_updateLastLogin u now)"
  "answers (us_deleteUser u)" "answers (ur_create u em disp)" "answers (ur_update u disp url)"
  "answers (getCustomBots_request pe)" "answers (getCustomBot_request pe nm)" "answers (getCustomBotVersion_request pe nm ver)"
  "answers (getCustomBotVersions_request nm)"
  unfolding createBot_request_def getBot_request_def updateBot_request_def getBots_request_def deleteBot_request_def getApiKeys_request_def
    createApiKey_request_def getApiKey_request_def deleteApiKey_request_def getApiKeyStats_request_def us_createUser_def us_getUser_def
    us_updateUser_def us_updateLastLogin_def us_deleteUser_def ur_create_def ur_update_def service_call_def getCustomBots_request_def
    getCustomBot_request_def getCustomBotVersion_request_def getCustomBotVersions_request_def
  by (intro answers_intros answers_axios answers_api)+

text \<open>An administration call whose answer is a success that is not JSON rejects, whatever its catch clause says; an answer without
  success never does.\<close>

lemma admin_call_rejects:
  assumes "br_ready b" "br_stored b = Some token" "token \<noteq> []" "br_net b = HttpAnswer status msg body # rest" "status \<noteq> 401"
  shows "isl (fst (admin_call meth url input fallback caught b)) \<longleftrightarrow> http_ok status \<and> (body = None \<or> body = Some JNull)"
proof -
  let ?req = "\<lparr>rq_method = meth, rq_url = url, rq_headers = [], rq_body = input\<rparr>"
  obtain b' where f: "authFetch False ?req b = (Inr (status, msg, body), b')"
    using assms by (simp add: authFetch_def io_bind_run getToken_def fetch_answer)
  have e: "answers (responseError body fallback)" unfolding responseError_def by (intro answers_intros)
  show ?thesis
  proof (cases "http_ok status")
    case True
    then show ?thesis
      by (auto simp: admin_call_def io_bind_run io_catch_run f readData_def json_of_def js_throw_def read_prop_def split: option.split)
  next
    case False
    obtain m b'' where "responseError body fallback b' = (Inr m, b'')" using answersD [OF e] by blast
    then show ?thesis using False by (simp add: admin_call_def io_bind_run io_catch_run f readData_def)
  qed
qed

end
