(* ===== verification/Routes.thy ===== *)
theory Routes
  imports Http
begin

text \<open>
  The server side of the web client: the guard of frontend/src/lib/middleware/admin-auth.ts, the proxy of
  frontend/src/app/api/proxy.ts and the handlers of app/api/**/route.ts, which relay requests of the browser to the API. The
  answers of the API are given in their order; a fetch that is aborted by its timeout has no answer. The verification of jose is
  a parameter. A request is what the browser sends, with the query string as \<open>URLSearchParams\<close> prints it.
\<close>

section \<open>Requests and answers\<close>

text \<open>The body of an answer: JSON, or a text that is not JSON, which may be empty.\<close>

datatype answer_body = JsonBody json | TextBody string

fun body_json :: "answer_body \<Rightarrow> json option" where
  "body_json (JsonBody v) = Some v"
| "body_json (TextBody _) = None"

record api_answer =
  aa_status :: nat
  aa_text :: string
  aa_type :: "string option"
  aa_body :: answer_body

datatype upstream = Upstream api_answer | NoUpstream string

record page_request =
  pr_headers :: "(string \<times> string) list"
  pr_cookies :: "(string \<times> string) list"
  pr_query :: string
  pr_body :: answer_body

record page_answer =
  pa_status :: nat
  pa_headers :: "(string \<times> string) list"
  pa_body :: answer_body

datatype jwt_outcome = Verified "string option" "string option" | JwtError string

text \<open>\<open>BOT_API_URL\<close>, \<open>JWT_SECRET\<close> and \<open>jwtVerify\<close> of token and secret: subject and e-mail of the payload, or the
  name of the error.\<close>

record next_env =
  nv_url :: "string option"
  nv_secret :: "string option"
  nv_verify :: "string \<Rightarrow> string \<Rightarrow> jwt_outcome"

record next_world =
  nw_api :: "upstream list"
  nw_sent :: "http_request list"

text \<open>\<open>headers.get\<close>: names are compared without case.\<close>

definition header_get :: "(string \<times> string) list \<Rightarrow> string \<Rightarrow> string option" where
  "header_get hs name = map_of (map (\<lambda>(n, v). (js_lower n, v)) hs) (js_lower name)"

definition header_set :: "(string \<times> string) list \<Rightarrow> string \<Rightarrow> string \<Rightarrow> (string \<times> string) list" where
  "header_set hs name v = filter (\<lambda>(n, _). js_lower n \<noteq> js_lower name) hs @ [(name, v)]"

definition json_answer :: "json \<Rightarrow> nat \<Rightarrow> page_answer" where
  "json_answer v status = \<lparr>pa_status = status, pa_headers = json_header, pa_body = JsonBody v\<rparr>"

definition str_obj :: "(string \<times> string) list \<Rightarrow> json" where
  "str_obj kvs = JObj (map (\<lambda>(k, v). (k, JStr v)) kvs)"

section \<open>The guard\<close>

text \<open>The text up to the next occurrence of \<open>sep\<close>.\<close>

fun before_next :: "string \<Rightarrow> string \<Rightarrow> string" where
  "before_next sep [] = []"
| "before_next sep (c # cs) = (if prefix sep (c # cs) then [] else c # before_next sep cs)"

definition header_token :: "string \<Rightarrow> string" where
  "header_token h = before_next ''Bearer '' (drop 7 h)"

definition unauthorized :: "(string \<times> string) list \<Rightarrow> page_answer" where
  "unauthorized kvs = json_answer (str_obj kvs) 401"

definition auth_failure :: "string \<Rightarrow> page_answer" where
  "auth_failure name =
     (if name = ''JWTExpired''
      then (unauthorized [(''error'', ''Token expired''), (''code'', ''TOKEN_EXPIRED''),
         (''message'', ''Your authentication token has expired. Please refresh and try again.'')])
         \<lparr>pa_headers := json_header @ [(''X-Auth-Error'', ''TOKEN_EXPIRED'')]\<rparr>
      else if name = ''JWTInvalid'' \<or> name = ''JWTMalformed''
      then (unauthorized [(''error'', ''Authentication failed''), (''code'', ''AUTH_ERROR''),
         (''message'', ''Invalid authentication token'')])\<lparr>pa_headers := json_header @ [(''X-Auth-Error'', ''INVALID_TOKEN'')]\<rparr>
      else unauthorized [(''error'', ''Unauthorized''), (''code'', ''AUTH_ERROR''), (''message'', ''Authentication verification failed'')])"

definition adminAuthMiddleware :: "next_env \<Rightarrow> page_request \<Rightarrow> page_answer + (string \<times> string) list" where
  "adminAuthMiddleware env req = (case header_get (pr_headers req) ''Authorization'' of
      None \<Rightarrow> Inl (unauthorized [(''error'', ''Missing authentication token'')])
    | Some authHeader \<Rightarrow>
      if \<not> js_starts_with authHeader ''Bearer '' then Inl (unauthorized [(''error'', ''Missing authentication token'')])
      else let token = header_token authHeader in
        if token = [] then Inl (unauthorized [(''error'', ''Missing authentication token'')])
        else if \<not> truthy_opt (nv_secret env) then Inl (json_answer (str_obj [(''error'', ''Server configuration error'')]) 500)
        else (case nv_verify env token (the (nv_secret env)) of
            JwtError name \<Rightarrow> Inl (auth_failure name)
          | Verified sub email \<Rightarrow>
            if \<not> truthy_opt sub then Inl (unauthorized [(''error'', ''Invalid token payload'')])
            else Inr (header_set (header_set (pr_headers req) ''x-user-id'' (the sub)) ''x-user-email'' (or_else email []))))"

definition withAdminAuth :: "next_env \<Rightarrow> (page_request \<Rightarrow> (next_world, page_answer) io) \<Rightarrow> page_request \<Rightarrow> (next_world, page_answer) io" where
  "withAdminAuth env handler req = (case adminAuthMiddleware env req of
      Inl answer \<Rightarrow> io_return answer
    | Inr requestHeaders \<Rightarrow> handler (req\<lparr>pr_headers := requestHeaders\<rparr>))"

section \<open>Fetching from the API\<close>

text \<open>Without a base URL the URL does not parse, and \<open>fetch\<close> throws.\<close>

definition api_fetch :: "next_env \<Rightarrow> string \<Rightarrow> string \<Rightarrow> (string \<times> string) list \<Rightarrow> json option \<Rightarrow> (next_world, api_answer) io" where
  "api_fetch env meth path headers body w = (if \<not> truthy_opt (nv_url env) then js_throw ''Failed to parse URL'' w
     else let req = \<lparr>rq_method = meth, rq_url = the (nv_url env) @ path, rq_headers = headers, rq_body = body\<rparr>;
              w' = w\<lparr>nw_api := tl (nw_api w), nw_sent := nw_sent w @ [req]\<rparr> in
       case nw_api w of
         Upstream a # _ \<Rightarrow> (Inr a, w')
       | NoUpstream msg # _ \<Rightarrow> (Inl (Err None msg None), w')
       | [] \<Rightarrow> (Inl (Err None ''fetch failed'' None), w'))"

definition authorization :: "page_request \<Rightarrow> (string \<times> string) list" where
  "authorization req = (case header_get (pr_headers req) ''Authorization'' of
      None \<Rightarrow> [] | Some h \<Rightarrow> if h = [] then [] else [(''Authorization'', h)])"

text \<open>\<open>response.json()\<close> and \<open>req.json()\<close>.\<close>

definition answer_json :: "api_answer \<Rightarrow> (next_world, json) io" where
  "answer_json a = json_of (body_json (aa_body a))"

definition request_json :: "page_request \<Rightarrow> (next_world, json) io" where
  "request_json req = json_of (body_json (pr_body req))"

section \<open>proxyBotApi\<close>

definition refusal :: "string \<Rightarrow> nat \<Rightarrow> page_answer" where
  "refusal msg status = json_answer (JObj [(''success'', JBool False), (''message'', JStr msg)]) status"

definition proxyBotApi :: "next_env \<Rightarrow> page_request \<Rightarrow> string \<Rightarrow> string \<Rightarrow> json option \<Rightarrow> (next_world, page_answer) io" where
  "proxyBotApi env req path meth body =
     (if \<not> truthy_opt (nv_url env) then io_return (refusal ''API service misconfigured'' 500)
      else io_catch (io_bind (api_fetch env meth path (json_header @ authorization req) body) (\<lambda>response.
         if aa_status response = 204 then io_return \<lparr>pa_status = 204, pa_headers = [], pa_body = TextBody []\<rparr>
         else let contentType = or_else (aa_type response) [] in
           if js_includes contentType ''application/json''
           then io_bind (answer_json response) (\<lambda>data. io_return (json_answer data (aa_status response)))
           else io_return \<lparr>pa_status = aa_status response,
             pa_headers = (if contentType = [] then [] else [(''content-type'', contentType)]), pa_body = aa_body response\<rparr>))
        (\<lambda>_. io_return (refusal ''API service unavailable'' 500)))"

definition with_json_body :: "page_request \<Rightarrow> (json \<Rightarrow> (next_world, page_answer) io) \<Rightarrow> (next_world, page_answer) io" where
  "with_json_body req act = (case body_json (pr_body req) of
      None \<Rightarrow> io_return (refusal ''Malformed JSON payload'' 400) | Some body \<Rightarrow> act body)"

section \<open>Relays\<close>

definition internal_error :: "string \<Rightarrow> page_answer" where
  "internal_error label = json_answer (JObj [(''error'', JObj [(''message'', JStr label), (''statusCode'', JNum 500),
     (''error'', JStr ''Internal Server Error'')])]) 500"

text \<open>The form of most handlers: an error of the API is wrapped, its success passed on with status 200.\<close>

definition relay :: "next_env \<Rightarrow> string \<Rightarrow> string \<Rightarrow> bool \<Rightarrow> string \<Rightarrow> page_request \<Rightarrow> (next_world, page_answer) io" where
  "relay env meth path has_body label = withAdminAuth env (\<lambda>req. io_catch
     (io_bind (if has_body then io_bind (request_json req) (\<lambda>v. io_return (Some v)) else io_return None) (\<lambda>body.
      io_bind (api_fetch env meth path (json_header @ authorization req) body) (\<lambda>response.
      io_bind (answer_json response) (\<lambda>data.
        io_return (if http_ok (aa_status response) then json_answer data 200
                   else json_answer (JObj [(''error'', data)]) (aa_status response))))))
     (\<lambda>_. io_return (internal_error label)))"

text \<open>The form with a fixed text for errors.\<close>

definition error_answer :: "string \<Rightarrow> nat \<Rightarrow> page_answer" where
  "error_answer label status = json_answer (str_obj [(''error'', label)]) status"

definition plain_relay :: "next_env \<Rightarrow> string \<Rightarrow> string \<Rightarrow> string \<Rightarrow> page_request \<Rightarrow> (next_world, page_answer) io" where
  "plain_relay env path refused failed = withAdminAuth env (\<lambda>req. io_catch
     (io_bind (api_fetch env ''GET'' path (json_header @ authorization req) None) (\<lambda>response.
        if \<not> http_ok (aa_status response) then io_return (error_answer refused (aa_status response))
        else io_bind (answer_json response) (\<lambda>data. io_return (json_answer data 200))))
     (\<lambda>_. io_return (error_answer failed 500)))"

section \<open>API keys, bots, logs\<close>

definition api_keys_list :: "next_env \<Rightarrow> page_request \<Rightarrow> (next_world, page_answer) io" where
  "api_keys_list env = relay env ''GET'' ''/api-keys'' False ''Error fetching API keys''"

definition api_keys_create :: "next_env \<Rightarrow> page_request \<Rightarrow> (next_world, page_answer) io" where
  "api_keys_create env = relay env ''POST'' ''/api-keys'' True ''Error creating API key''"

definition api_key_get :: "next_env \<Rightarrow> string \<Rightarrow> page_request \<Rightarrow> (next_world, page_answer) io" where
  "api_key_get env key = relay env ''GET'' (''/api-keys/'' @ key) False ''Error fetching API key''"

definition api_key_delete :: "next_env \<Rightarrow> string \<Rightarrow> page_request \<Rightarrow> (next_world, page_answer) io" where
  "api_key_delete env key = relay env ''DELETE'' (''/api-keys/'' @ key) False ''Error deleting API key''"

definition api_key_stats :: "next_env \<Rightarrow> page_request \<Rightarrow> (next_world, page_answer) io" where
  "api_key_stats env = relay env ''GET'' ''/api-keys/stats/summary'' False ''Error fetching API key stats''"

definition bots_list :: "next_env \<Rightarrow> page_request \<Rightarrow> (next_world, page_answer) io" where
  "bots_list env = relay env ''GET'' ''/bot'' False ''Error fetching bots''"

definition bots_create :: "next_env \<Rightarrow> page_request \<Rightarrow> (next_world, page_answer) io" where
  "bots_create env = relay env ''POST'' ''/bot'' True ''Error creating bot''"

definition bot_get :: "next_env \<Rightarrow> string \<Rightarrow> page_request \<Rightarrow> (next_world, page_answer) io" where
  "bot_get env botId = plain_relay env (''/bot/'' @ botId) ''Error fetching bots'' ''Error fetching bots''"

definition bot_put :: "next_env \<Rightarrow> string \<Rightarrow> page_request \<Rightarrow> (next_world, page_answer) io" where
  "bot_put env botId = relay env ''PUT'' (''/bot/'' @ botId) True ''Error creating bot''"

definition delete_error_text :: "api_answer \<Rightarrow> (next_world, json) io" where
  "delete_error_text response = io_catch
     (io_bind (answer_json response) (\<lambda>errorData. io_bind (read_prop errorData ''message'') (\<lambda>message.
      io_bind (read_prop errorData ''error'') (\<lambda>err. io_return (value_or message (value_or err (JStr ''Error deleting bot'')))))))
     (\<lambda>_. io_return (value_or (Some (JStr (aa_text response))) (JStr ''Error deleting bot'')))"

definition deleted_data :: "api_answer \<Rightarrow> json option" where
  "deleted_data response = (case aa_body response of
      JsonBody v \<Rightarrow> Some v | TextBody s \<Rightarrow> if s = [] then None else Some (JObj [(''success'', JBool True)]))"

definition bot_delete :: "next_env \<Rightarrow> string \<Rightarrow> page_request \<Rightarrow> (next_world, page_answer) io" where
  "bot_delete env botId = withAdminAuth env (\<lambda>req. io_catch
     (io_bind (api_fetch env ''DELETE'' (''/bot/'' @ botId) (json_header @ authorization req) None) (\<lambda>response.
        if \<not> http_ok (aa_status response)
        then io_bind (delete_error_text response) (\<lambda>msg. io_return (json_answer (JObj [(''error'', msg)]) (aa_status response)))
        else io_return (json_answer (value_or (deleted_data response) (JObj [(''success'', JBool True)])) 200)))
     (\<lambda>e. io_return (json_answer (JObj [(''error'', value_or (Some (JStr (errorMessage e))) (JStr ''Error deleting bot''))]) 500)))"

definition logs_get :: "next_env \<Rightarrow> string \<Rightarrow> page_request \<Rightarrow> (next_world, page_answer) io" where
  "logs_get env botId req = plain_relay env (''/logs/'' @ botId @ ''?'' @ pr_query req) ''Error fetching logs'' ''Error fetching logs'' req"

definition stream_headers :: "(string \<times> string) list" where
  "stream_headers = [(''Content-Type'', ''text/event-stream; charset=utf-8''), (''Cache-Control'', ''no-cache, no-transform''),
     (''Connection'', ''keep-alive''), (''X-Accel-Buffering'', ''no'')]"

definition logs_stream :: "next_env \<Rightarrow> string \<Rightarrow> page_request \<Rightarrow> (next_world, page_answer) io" where
  "logs_stream env botId = withAdminAuth env (\<lambda>req.
     if \<not> truthy_opt (nv_url env) then io_return (error_answer ''API server not configured'' 500)
     else io_catch
       (io_bind (api_fetch env ''GET'' (''/logs/'' @ encodeURIComponent botId @ ''/stream'')
           ((''Accept'', ''text/event-stream'') # authorization req) None) (\<lambda>answer.
          io_return (if \<not> http_ok (aa_status answer) then error_answer ''Error connecting to log stream'' (aa_status answer)
            else \<lparr>pa_status = 200, pa_headers = stream_headers, pa_body = aa_body answer\<rparr>)))
       (\<lambda>_. io_return (error_answer ''Error connecting to log stream'' 502)))"

section \<open>Custom bots\<close>

definition custom_bots_list :: "next_env \<Rightarrow> page_request \<Rightarrow> (next_world, page_answer) io" where
  "custom_bots_list env = plain_relay env ''/custom-bots'' ''Failed to fetch custom bots'' ''Internal server error''"

text \<open>\<open>xs.some(x => x.name === name)\<close>.\<close>

fun some_named :: "string \<Rightarrow> json list \<Rightarrow> (next_world, bool) io" where
  "some_named nm [] = io_return False"
| "some_named nm (x # xs) = io_bind (read_prop x ''name'') (\<lambda>n. if n = Some (JStr nm) then io_return True else some_named nm xs)"

text \<open>Does the caller own a bot of this name, or else have it installed?\<close>

definition owns_bot :: "next_env \<Rightarrow> page_request \<Rightarrow> string \<Rightarrow> (next_world, bool) io" where
  "owns_bot env req nm = io_bind (api_fetch env ''GET'' ''/custom-bots'' (json_header @ authorization req) None) (\<lambda>response.
     if \<not> http_ok (aa_status response) then io_return False
     else io_bind (answer_json response) (\<lambda>result. io_bind (read_prop result ''success'') (\<lambda>success.
       if \<not> truthy_value success \<or> \<not> truthy_value (prop_of (Some result) ''data'') then io_return False
       else (case prop_of (Some result) ''data'' of Some (JArr xs) \<Rightarrow> some_named nm xs | _ \<Rightarrow> js_throw ''some is not a function''))))"

definition has_bot :: "next_env \<Rightarrow> page_request \<Rightarrow> string \<Rightarrow> (next_world, bool) io" where
  "has_bot env req nm = io_bind (api_fetch env ''GET'' (''/user-bots/has/'' @ encodeURIComponent nm) (json_header @ authorization req) None)
     (\<lambda>response. if \<not> http_ok (aa_status response) then io_return False
       else io_bind (answer_json response) (\<lambda>result. io_bind (read_prop result ''success'') (\<lambda>success.
         io_return (truthy_value success \<and> truthy_value (prop_of (Some result) ''hasBot'')))))"

text \<open>\<open>{...data, hasAccess}\<close> of an object, of null or of undefined.\<close>

definition with_access :: "json option \<Rightarrow> bool \<Rightarrow> json" where
  "with_access data hasAccess = JObj (obj_put (case data of Some (JObj kvs) \<Rightarrow> kvs | _ \<Rightarrow> []) ''hasAccess'' (JBool hasAccess))"

definition version_details :: "next_env \<Rightarrow> page_request \<Rightarrow> string \<Rightarrow> json \<Rightarrow> (next_world, page_answer) io" where
  "version_details env req nm botResult = io_bind (read_prop botResult ''success'') (\<lambda>success.
     if \<not> truthy_value success then io_return (json_answer botResult 200)
     else io_bind (owns_bot env req nm) (\<lambda>owns. io_bind (if owns then io_return True else has_bot env req nm) (\<lambda>hasAccess.
       io_return (json_answer (JObj ([(''success'', JBool True), (''data'', with_access (prop_of (Some botResult) ''data'') hasAccess)]
         @ opt_entry ''message'' (prop_of (Some botResult) ''message''))) 200))))"

definition custom_bot_version_get :: "next_env \<Rightarrow> string \<Rightarrow> string \<Rightarrow> page_request \<Rightarrow> (next_world, page_answer) io" where
  "custom_bot_version_get env nm version = withAdminAuth env (\<lambda>req. io_catch
     (io_bind (api_fetch env ''GET'' (''/custom-bots/'' @ encodeURIComponent nm @ ''/'' @ encodeURIComponent version)
         (json_header @ authorization req) None) (\<lambda>botResponse.
        io_bind (answer_json botResponse) (\<lambda>body.
          if \<not> http_ok (aa_status botResponse)
          then io_bind (read_prop body ''message'') (\<lambda>message. let m = value_or message (JStr ''Failed to get custom bot details'') in
            io_return (json_answer (JObj [(''success'', JBool False), (''error'', m), (''message'', m)]) (aa_status botResponse)))
          else version_details env req nm body)))
     (\<lambda>e. io_return (json_answer (JObj [(''success'', JBool False), (''error'', JStr ''Failed to get custom bot details''),
         (''message'', JStr (errorMessage e))]) 500)))"

text \<open>\<open>versions.map(v => v.version)\<close>; undefined becomes null in the answer.\<close>

fun version_names :: "json list \<Rightarrow> (next_world, json list) io" where
  "version_names [] = io_return []"
| "version_names (v # vs) = io_bind (read_prop v ''version'') (\<lambda>n. io_bind (version_names vs) (\<lambda>ns.
     io_return ((case n of None \<Rightarrow> JNull | Some x \<Rightarrow> x) # ns)))"

definition custom_bot_versions :: "next_env \<Rightarrow> string \<Rightarrow> page_request \<Rightarrow> (next_world, page_answer) io" where
  "custom_bot_versions env nm = withAdminAuth env (\<lambda>req. io_catch
     (io_bind (api_fetch env ''GET'' (''/custom-bots/'' @ encodeURIComponent nm) (json_header @ authorization req) None) (\<lambda>response.
        if \<not> http_ok (aa_status response) then io_return (error_answer ''Failed to fetch bot versions'' (aa_status response))
        else io_bind (answer_json response) (\<lambda>result. io_bind (read_prop result ''success'') (\<lambda>success.
          let data = prop_of (Some result) ''data''; versions = prop_of data ''versions'' in
          if truthy_value success \<and> truthy_value data \<and> truthy_value versions
          then io_bind (case versions of Some (JArr vs) \<Rightarrow> version_names vs | _ \<Rightarrow> js_throw ''map is not a function'') (\<lambda>ns.
            io_return (json_answer (JObj [(''success'', JBool True), (''data'', JArr ns)]) 200))
          else io_return (json_answer (JObj [(''success'', JBool False), (''error'', JStr ''No versions found'')]) 200)))))
     (\<lambda>_. io_return (error_answer ''Internal server error'' 500)))"

text \<open>The bundle of a bot's page; the token is that of the cookie.\<close>

definition bundle_headers :: "(string \<times> string) list" where
  "bundle_headers = [(''Content-Type'', ''application/javascript''), (''Cache-Control'', ''no-store, must-revalidate'')]"

definition custom_bot_frontend :: "next_env \<Rightarrow> string \<Rightarrow> page_request \<Rightarrow> (next_world, page_answer) io" where
  "custom_bot_frontend env customBotId req = (let authToken = map_of (pr_cookies req) ''auth-token'' in
     if \<not> truthy_opt authToken then io_return (error_answer ''Authentication required'' 401)
     else io_catch
       (io_bind (api_fetch env ''GET'' (''/custom-bots/by-id/'' @ encodeURIComponent customBotId @ ''/frontend'') [bearer (the authToken)] None)
          (\<lambda>response. io_return (if \<not> http_ok (aa_status response) then error_answer ''Failed to fetch frontend bundle'' (aa_status response)
             else \<lparr>pa_status = 200, pa_headers = bundle_headers, pa_body = aa_body response\<rparr>)))
       (\<lambda>_. io_return (error_answer ''Internal server error'' 500)))"

section \<open>Login, users\<close>

definition auth_proxy :: "next_env \<Rightarrow> string \<Rightarrow> string \<Rightarrow> (string \<times> string) list \<Rightarrow> bool \<Rightarrow> page_request \<Rightarrow> (next_world, page_answer) io" where
  "auth_proxy env meth path headers has_body req =
     (if \<not> truthy_opt (nv_url env) then io_return (refusal ''Authentication service misconfigured'' 500)
      else io_catch
        (io_bind (if has_body then io_bind (request_json req) (\<lambda>v. io_return (Some v)) else io_return None) (\<lambda>body.
         io_bind (api_fetch env meth path headers body) (\<lambda>response.
         io_bind (answer_json response) (\<lambda>data. io_return (json_answer data (aa_status response))))))
        (\<lambda>_. io_return (refusal ''Authentication service unavailable'' 500)))"

definition login_route :: "next_env \<Rightarrow> page_request \<Rightarrow> (next_world, page_answer) io" where
  "login_route env = auth_proxy env ''POST'' ''/auth/login'' json_header True"

definition validate_route :: "next_env \<Rightarrow> page_request \<Rightarrow> (next_world, page_answer) io" where
  "validate_route env = auth_proxy env ''POST'' ''/auth/validate'' json_header True"

definition me_route :: "next_env \<Rightarrow> page_request \<Rightarrow> (next_world, page_answer) io" where
  "me_route env req = auth_proxy env ''GET'' ''/auth/me'' (json_header @ authorization req) False req"

definition profile_route :: "next_env \<Rightarrow> page_request \<Rightarrow> (next_world, page_answer) io" where
  "profile_route env req = with_json_body req (\<lambda>body. proxyBotApi env req ''/users/profile'' ''PUT'' (Some body))"

definition change_password_route :: "next_env \<Rightarrow> page_request \<Rightarrow> (next_world, page_answer) io" where
  "change_password_route env req = with_json_body req (\<lambda>body. proxyBotApi env req ''/users/change-password'' ''PUT'' (Some body))"

definition delete_account_route :: "next_env \<Rightarrow> page_request \<Rightarrow> (next_world, page_answer) io" where
  "delete_account_route env req = with_json_body req (\<lambda>body. proxyBotApi env req ''/users/delete-account'' ''DELETE'' (Some body))"

definition admin_users_list :: "next_env \<Rightarrow> page_request \<Rightarrow> (next_world, page_answer) io" where
  "admin_users_list env req = proxyBotApi env req ''/admin/users'' ''GET'' None"

definition admin_users_create :: "next_env \<Rightarrow> page_request \<Rightarrow> (next_world, page_answer) io" where
  "admin_users_create env req = with_json_body req (\<lambda>body. proxyBotApi env req ''/admin/users'' ''POST'' (Some body))"

definition admin_user_update :: "next_env \<Rightarrow> string \<Rightarrow> page_request \<Rightarrow> (next_world, page_answer) io" where
  "admin_user_update env uid req = with_json_body req (\<lambda>body.
     proxyBotApi env req (''/admin/users/'' @ encodeURIComponent uid) ''PATCH'' (Some body))"

definition admin_user_password :: "next_env \<Rightarrow> string \<Rightarrow> page_request \<Rightarrow> (next_world, page_answer) io" where
  "admin_user_password env uid req = with_json_body req (\<lambda>body.
     proxyBotApi env req (''/admin/users/'' @ encodeURIComponent uid @ ''/reset-password'') ''POST'' (Some body))"

section \<open>All routes\<close>

text \<open>The handlers that answer with one response; the two streams of custom bots, which poll the API on a timer, are in
  RouteStreams.\<close>

datatype route =
    ApiKeysList | ApiKeysCreate | ApiKeyGet string | ApiKeyDelete string | ApiKeyStats
  | BotsList | BotsCreate | BotGet string | BotPut string | BotDelete string
  | LogsGet string | LogsStream string
  | CustomBotsList | VersionGet string string | VersionsGet string | FrontendGet string
  | LoginPost | ValidatePost | MeGet
  | ProfilePut | PasswordPut | AccountDelete
  | AdminUsersList | AdminUsersCreate | AdminUserUpdate string | AdminUserPassword string

fun next_handle :: "next_env \<Rightarrow> route \<Rightarrow> page_request \<Rightarrow> (next_world, page_answer) io" where
  "next_handle env ApiKeysList = api_keys_list env"
| "next_handle env ApiKeysCreate = api_keys_create env"
| "next_handle env (ApiKeyGet key) = api_key_get env key"
| "next_handle env (ApiKeyDelete key) = api_key_delete env key"
| "next_handle env ApiKeyStats = api_key_stats env"
| "next_handle env BotsList = bots_list env"
| "next_handle env BotsCreate = bots_create env"
| "next_handle env (BotGet b) = bot_get env b"
| "next_handle env (BotPut b) = bot_put env b"
| "next_handle env (BotDelete b) = bot_delete env b"
| "next_handle env (LogsGet b) = logs_get env b"
| "next_handle env (LogsStream b) = logs_stream env b"
| "next_handle env CustomBotsList = custom_bots_list env"
| "next_handle env (VersionGet nm v) = custom_bot_version_get env nm v"
| "next_handle env (VersionsGet nm) = custom_bot_versions env nm"
| "next_handle env (FrontendGet cb) = custom_bot_frontend env cb"
| "next_handle env LoginPost = login_route env"
| "next_handle env ValidatePost = validate_route env"
| "next_handle env MeGet = me_route env"
| "next_handle env ProfilePut = profile_route env"
| "next_handle env PasswordPut = change_password_route env"
| "next_handle env AccountDelete = delete_account_route env"
| "next_handle env AdminUsersList = admin_users_list env"
| "next_handle env AdminUsersCreate = admin_users_create env"
| "next_handle env (AdminUserUpdate u) = admin_user_update env u"
| "next_handle env (AdminUserPassword u) = admin_user_password env u"

fun guarded :: "route \<Rightarrow> bool" where
  "guarded (FrontendGet _) = False"
| "guarded LoginPost = False" | "guarded ValidatePost = False" | "guarded MeGet = False"
| "guarded ProfilePut = False" | "guarded PasswordPut = False" | "guarded AccountDelete = False"
| "guarded AdminUsersList = False" | "guarded AdminUsersCreate = False"
| "guarded (AdminUserUpdate _) = False" | "guarded (AdminUserPassword _) = False"
| "guarded _ = True"

lemmas relay_defs = api_keys_list_def api_keys_create_def api_key_get_def api_key_delete_def api_key_stats_def bots_list_def
  bots_create_def bot_get_def bot_put_def logs_get_def custom_bots_list_def relay_def plain_relay_def

lemmas guarded_defs = relay_defs bot_delete_def logs_stream_def custom_bot_version_get_def custom_bot_versions_def

lemmas proxy_defs = login_route_def validate_route_def me_route_def auth_proxy_def profile_route_def change_password_route_def
  delete_account_route_def admin_users_list_def admin_users_create_def admin_user_update_def admin_user_password_def
  with_json_body_def proxyBotApi_def custom_bot_frontend_def

lemma guarded_handler: "guarded rt \<Longrightarrow> \<exists>h. next_handle env rt req = withAdminAuth env h req"
  by (cases rt) (auto simp: guarded_defs)

section \<open>Every request is answered\<close>

lemma answers_guard: "(\<And>req. answers (h req)) \<Longrightarrow> answers (withAdminAuth env h req)"
  by (simp add: withAdminAuth_def answers_return split: sum.split)

lemma answers_route: "answers (next_handle env rt req)"
  by (cases rt) (auto simp: guarded_defs proxy_defs Let_def intro!: answers_guard answers_intros)

section \<open>Whose authority\<close>

text \<open>The authorization of the caller: the header of the request, unless it is missing or empty.\<close>

definition own_authorization :: "page_request \<Rightarrow> string option" where
  "own_authorization req = (case header_get (pr_headers req) ''Authorization'' of
      None \<Rightarrow> None | Some h \<Rightarrow> if h = [] then None else Some h)"

text \<open>What the requests of a handler carry: nothing to sign in or to validate a token, the token of the cookie to load a
  bundle, and the authorization of the caller in all other cases.\<close>

fun route_authority :: "route \<Rightarrow> page_request \<Rightarrow> string option" where
  "route_authority LoginPost req = None"
| "route_authority ValidatePost req = None"
| "route_authority (FrontendGet _) req = map_option (\<lambda>t. ''Bearer '' @ t) (map_of (pr_cookies req) ''auth-token'')"
| "route_authority _ req = own_authorization req"

text \<open>The only authorization is this one, and beside it there is at most the type of the content sent or accepted.\<close>

definition carries :: "string option \<Rightarrow> http_request \<Rightarrow> bool" where
  "carries auth q \<longleftrightarrow> header_get (rq_headers q) ''Authorization'' = auth
     \<and> list_all (\<lambda>(n, _). n \<in> {''Content-Type'', ''Accept'', ''Authorization''}) (rq_headers q)"

definition sent_since :: "next_env \<Rightarrow> string option \<Rightarrow> http_request list \<Rightarrow> next_world \<Rightarrow> bool" where
  "sent_since env auth before w \<longleftrightarrow> (\<exists>qs. nw_sent w = before @ qs \<and>
     list_all (\<lambda>q. carries auth q \<and> prefix (the (nv_url env)) (rq_url q)) qs)"

lemma sent_fetch:
  "carries auth \<lparr>rq_method = meth, rq_url = the (nv_url env) @ path, rq_headers = hs, rq_body = body\<rparr> \<Longrightarrow>
   preserves (sent_since env auth before) (api_fetch env meth path hs body)"
  by (auto simp: preserves_def api_fetch_def js_throw_def Let_def sent_since_def split: list.split upstream.split)

lemma header_get_set: "header_get (header_set hs n v) k = (if js_lower n = js_lower k then Some v else header_get hs k)"
proof -
  have "map_of (map (\<lambda>(n, v). (js_lower n, v)) (filter (\<lambda>(m, _). js_lower m \<noteq> l) hs @ xs)) k' =
      (if k' = l then map_of (map (\<lambda>(n, v). (js_lower n, v)) xs) k'
       else map_of (map (\<lambda>(n, v). (js_lower n, v)) (hs @ xs)) k')" for l k' xs
    by (induction hs) (auto simp: map_add_def)
  from this [where xs = "[(n, v)]"] show ?thesis
    unfolding header_get_def header_set_def by (simp only:) (auto simp: map_add_def split: option.split)
qed

lemma header_names: "js_lower ''Authorization'' = ''authorization''" "js_lower ''x-user-id'' = ''x-user-id''"
  "js_lower ''x-user-email'' = ''x-user-email''" "js_lower ''Content-Type'' = ''content-type''" "js_lower ''Accept'' = ''accept''"
  by code_simp+

lemma guard_keeps: "adminAuthMiddleware env req = Inr hs \<Longrightarrow> authorization (req\<lparr>pr_headers := hs\<rparr>) = authorization req"
  by (auto simp: adminAuthMiddleware_def authorization_def Let_def header_get_set header_names
      split: option.splits if_splits jwt_outcome.splits)

definition bare_headers :: "(string \<times> string) list \<Rightarrow> bool" where
  "bare_headers hs \<longleftrightarrow> header_get hs ''Authorization'' = None \<and> list_all (\<lambda>(n, _). n \<in> {''Content-Type'', ''Accept'', ''Authorization''}) hs"

lemma header_get_append: "header_get hs k = None \<Longrightarrow> header_get (hs @ hs') k = header_get hs' k"
  by (simp add: header_get_def map_add_def split: option.split)

lemma carries_own:
  assumes "bare_headers hs"
  shows "carries (own_authorization req) \<lparr>rq_method = meth, rq_url = url, rq_headers = hs @ authorization req, rq_body = body\<rparr>"
proof -
  have none: "header_get hs ''Authorization'' = None"
    using assms by (simp add: bare_headers_def)
  have "header_get [(''Authorization'', h)] ''Authorization'' = Some h" "header_get [] ''Authorization'' = None" for h
    by (simp_all add: header_get_def)
  then have "header_get (authorization req) ''Authorization'' = own_authorization req"
    by (simp add: authorization_def own_authorization_def split: option.split)
  then have "header_get (hs @ authorization req) ''Authorization'' = own_authorization req"
    using header_get_append [OF none] by simp
  moreover have "list_all (\<lambda>(n, _). n \<in> {''Content-Type'', ''Accept'', ''Authorization''}) (hs @ authorization req)"
    using assms by (auto simp: bare_headers_def authorization_def split: option.split)
  ultimately show ?thesis by (simp add: carries_def)
qed

lemma sent_api:
  assumes "authorization req' = authorization req" "bare_headers hs"
  shows "preserves (sent_since env (own_authorization req) before) (api_fetch env meth path (hs @ authorization req') body)"
  unfolding assms(1) by (rule sent_fetch [OF carries_own [OF assms(2)]])

lemma bare_header_lists: "bare_headers json_header" "bare_headers [(''Accept'', ''text/event-stream'')]" "bare_headers []"
  by (simp_all add: bare_headers_def header_get_def json_header_def header_names)

lemmas sent_json = sent_api [OF _ bare_header_lists(1)]
lemmas sent_accept = sent_api [OF _ bare_header_lists(2), simplified]

lemma sent_cookie: "preserves (sent_since env (Some (''Bearer '' @ t)) before) (api_fetch env meth path [bearer t] body)"
  by (rule sent_fetch) (simp add: carries_def header_get_def bearer_def header_names)

lemma sent_none: "preserves (sent_since env None before) (api_fetch env meth path json_header body)"
  by (rule sent_fetch) (use bare_header_lists(1) in \<open>simp add: bare_headers_def carries_def\<close>)

lemma sent_guard:
  "(\<And>req'. authorization req' = authorization req \<Longrightarrow> preserves (sent_since env (own_authorization req) before) (h req')) \<Longrightarrow>
   preserves (sent_since env (own_authorization req) before) (withAdminAuth env h req)"
  by (auto simp: withAdminAuth_def preserves_return split: sum.split dest: guard_keeps)

lemma sent_json_rules [preserves_intros]: "preserves I (answer_json a)" "preserves I (request_json r)"
  by (simp_all add: answer_json_def request_json_def http_rules)

lemma sent_some [preserves_intros]: "preserves I (some_named nm xs)"
  by (induction xs) (simp_all only: some_named.simps preserves_intros)

lemma sent_versions [preserves_intros]: "preserves I (version_names ys)"
  by (induction ys) (simp_all only: version_names.simps preserves_intros)

lemma sent_delete_text [preserves_intros]: "preserves I (delete_error_text a)"
  unfolding delete_error_text_def by (intro preserves_intros)

lemma sent_json_case [preserves_intros]:
  "(\<And>xs. preserves I (f xs)) \<Longrightarrow> preserves I (case v of Some (JArr xs) \<Rightarrow> f xs | _ \<Rightarrow> js_throw m)"
  by (auto intro: http_rules split: option.split json.split)

lemma sent_version:
  assumes "authorization req' = authorization req"
  shows "preserves (sent_since env (own_authorization req) before) (version_details env req' nm body)"
  unfolding version_details_def owns_bot_def has_bot_def Let_def
  by (intro preserves_intros sent_json [OF assms])

lemma sent_proxy: "preserves (sent_since env (own_authorization req) before) (proxyBotApi env req path meth body)"
  unfolding proxyBotApi_def Let_def by (intro preserves_intros sent_json refl)

lemma sent_auth: "preserves (sent_since env None before) (auth_proxy env meth path json_header has_body req)"
  "preserves (sent_since env (own_authorization req) before) (auth_proxy env meth path (json_header @ authorization req) has_body req)"
  unfolding auth_proxy_def by (intro preserves_intros sent_json sent_none refl)+

lemma sent_frontend: "preserves (sent_since env (route_authority (FrontendGet cb) req) before) (custom_bot_frontend env cb req)"
proof (cases "truthy_opt (map_of (pr_cookies req) ''auth-token'')")
  case True
  then obtain t where t: "map_of (pr_cookies req) ''auth-token'' = Some t" by (cases "map_of (pr_cookies req) ''auth-token''") auto
  show ?thesis
    unfolding custom_bot_frontend_def Let_def route_authority.simps t option.sel option.map
    by (intro preserves_intros sent_cookie)
qed (simp add: custom_bot_frontend_def preserves_return)

lemma sent_relay:
  "preserves (sent_since env (own_authorization req) before) (relay env meth path has_body label req)"
  "preserves (sent_since env (own_authorization req) before) (plain_relay env path refused failed req)"
  unfolding relay_def plain_relay_def by (intro sent_guard preserves_intros sent_json; assumption)+

lemma sent_rest:
  "preserves (sent_since env (own_authorization req) before) (bot_delete env b req)" "preserves (sent_since env (own_authorization req) before) (logs_stream env b req)"
  "preserves (sent_since env (own_authorization req) before) (custom_bot_version_get env nm v req)"
  "preserves (sent_since env (own_authorization req) before) (custom_bot_versions env nm req)"
  unfolding bot_delete_def logs_stream_def custom_bot_version_get_def custom_bot_versions_def Let_def
  by (intro sent_guard preserves_intros sent_json sent_accept sent_version; assumption)+

lemmas small_defs = api_keys_list_def api_keys_create_def api_key_get_def api_key_delete_def api_key_stats_def bots_list_def
  bots_create_def bot_get_def bot_put_def logs_get_def custom_bots_list_def login_route_def validate_route_def me_route_def
  profile_route_def change_password_route_def delete_account_route_def admin_users_list_def admin_users_create_def
  admin_user_update_def admin_user_password_def with_json_body_def

lemma sent_route: "preserves (sent_since env (route_authority rt req) before) (next_handle env rt req)"
proof (cases rt)
  case (FrontendGet cb)
  then show ?thesis using sent_frontend by simp
qed (simp_all add: small_defs sent_relay sent_rest sent_auth sent_proxy preserves_return split: option.split)

text \<open>C33. Every request of the browser is answered, and every request a handler sends to the API goes to the configured URL
  and carries exactly the authorization its route stands for: that of the caller, whenever the caller gave one (for a bundle the
  token of the caller's cookie, for signing in and for validating a token none), and no other header than the types of the
  content.\<close>

theorem routes_act_for_caller:
  "case next_handle env rt req w of (r, w') \<Rightarrow> \<not> isl r \<and>
     (\<exists>qs. nw_sent w' = nw_sent w @ qs \<and>
        list_all (\<lambda>q. carries (route_authority rt req) q \<and> prefix (the (nv_url env)) (rq_url q)) qs)"
proof -
  obtain a w' where a: "next_handle env rt req w = (Inr a, w')" using answersD [OF answers_route] by blast
  have "sent_since env (route_authority rt req) (nw_sent w) (snd (next_handle env rt req w))"
    by (rule preservesD [OF sent_route]) (simp add: sent_since_def)
  then show ?thesis using a by (simp add: sent_since_def)
qed

section \<open>Guarded routes\<close>

text \<open>The token of the header that \<open>jose\<close> verifies with the configured secret, with its subject.\<close>

definition verified_user :: "next_env \<Rightarrow> page_request \<Rightarrow> string option" where
  "verified_user env req = (case header_get (pr_headers req) ''Authorization'' of
      Some h \<Rightarrow> if js_starts_with h ''Bearer '' \<and> header_token h \<noteq> [] \<and> truthy_opt (nv_secret env)
        then (case nv_verify env (header_token h) (the (nv_secret env)) of
            Verified sub _ \<Rightarrow> if truthy_opt sub then sub else None | JwtError _ \<Rightarrow> None)
        else None
    | None \<Rightarrow> None)"

lemma auth_failure_status [simp]: "pa_status (auth_failure e) = 401" "\<exists>v. pa_body (auth_failure e) = JsonBody v"
  by (simp_all add: auth_failure_def unauthorized_def json_answer_def)

lemma guard_refuses:
  "verified_user env req = None \<Longrightarrow>
   \<exists>a. adminAuthMiddleware env req = Inl a \<and> (pa_status a = 401 \<or> pa_status a = 500 \<and> \<not> truthy_opt (nv_secret env))"
  by (auto simp: adminAuthMiddleware_def verified_user_def Let_def unauthorized_def json_answer_def
      split: option.splits if_splits jwt_outcome.splits)

lemma guard_accepts: "adminAuthMiddleware env req = Inr hs \<Longrightarrow> verified_user env req \<noteq> None"
  by (auto simp: adminAuthMiddleware_def verified_user_def Let_def elim: truthy_opt.elims
      split: option.splits if_splits jwt_outcome.splits)

text \<open>A handler behind the guard sends nothing to the API for a request without a token that verifies, and answers 401 (500
  when the server has no secret).\<close>

theorem guarded_routes_need_token:
  assumes "guarded rt" "verified_user env req = None"
  shows "\<exists>a. next_handle env rt req w = (Inr a, w) \<and>
    (pa_status a = 401 \<or> pa_status a = 500 \<and> \<not> truthy_opt (nv_secret env))"
proof -
  obtain h where "next_handle env rt req = withAdminAuth env h req" using guarded_handler [OF assms(1)] by blast
  then show ?thesis using guard_refuses [OF assms(2)] by (auto simp: withAdminAuth_def)
qed

text \<open>Behind the guard a handler sees the request with the caller's authorization and body.\<close>

lemma guard_passes:
  assumes "verified_user env req \<noteq> None"
  obtains req' where "\<And>h. withAdminAuth env h req = h req'" "authorization req' = authorization req" "pr_body req' = pr_body req"
    "pr_query req' = pr_query req"
proof (cases "adminAuthMiddleware env req")
  case (Inl a)
  then show ?thesis using assms
    by (auto simp: adminAuthMiddleware_def verified_user_def Let_def split: option.splits if_splits jwt_outcome.splits)
next
  case (Inr hs)
  then show ?thesis using that [of "req\<lparr>pr_headers := hs\<rparr>"] guard_keeps [OF Inr] by (simp add: withAdminAuth_def)
qed

lemma fetch_upstream:
  "truthy_opt (nv_url env) \<Longrightarrow> nw_api w = Upstream a # rest \<Longrightarrow> fst (api_fetch env meth path hs body w) = Inr a"
  by (simp add: api_fetch_def Let_def)

lemma api_fetch_run:
  "truthy_opt (nv_url env) \<Longrightarrow> nw_api w = Upstream a # rest \<Longrightarrow> api_fetch env meth path hs body w =
     (Inr a, w\<lparr>nw_api := rest, nw_sent := nw_sent w @
        [\<lparr>rq_method = meth, rq_url = the (nv_url env) @ path, rq_headers = hs, rq_body = body\<rparr>]\<rparr>)"
  by (simp add: api_fetch_def Let_def)

text \<open>The handlers of the common form, and those among them that read a body.\<close>

fun relayed :: "route \<Rightarrow> bool" where
  "relayed ApiKeysList = True" | "relayed ApiKeysCreate = True" | "relayed (ApiKeyGet _) = True" | "relayed (ApiKeyDelete _) = True"
| "relayed ApiKeyStats = True" | "relayed BotsList = True" | "relayed BotsCreate = True" | "relayed (BotPut _) = True"
| "relayed _ = False"

lemma relayed_handler: "relayed rt \<Longrightarrow> \<exists>meth path has_body label. next_handle env rt = relay env meth path has_body label"
  by (cases rt) (auto simp: small_defs)

lemma relay_answer:
  assumes "verified_user env req \<noteq> None" "truthy_opt (nv_url env)" "nw_api w = Upstream a # rest"
    "aa_body a = JsonBody v" "pr_body req = JsonBody body"
  shows "fst (relay env meth path has_body label req w) = Inr (if http_ok (aa_status a) then json_answer v 200
     else json_answer (JObj [(''error'', v)]) (aa_status a))"
proof -
  obtain req' where req: "\<And>h. withAdminAuth env h req = h req'" "pr_body req' = pr_body req"
    using guard_passes [OF assms(1)] by metis
  show ?thesis using assms
    by (cases has_body) (simp_all add: relay_def req io_bind_run io_catch_run api_fetch_run answer_json_def request_json_def json_of_def)
qed

lemma delete_answer:
  assumes "verified_user env req \<noteq> None" "truthy_opt (nv_url env)" "nw_api w = Upstream a # rest" "\<not> http_ok (aa_status a)"
    "aa_body a = JsonBody (JObj kvs)" "map_of kvs ''message'' = Some m" "json_truthy m"
  shows "fst (bot_delete env b req w) = Inr (json_answer (JObj [(''error'', m)]) (aa_status a))"
proof -
  obtain req' where req: "\<And>h. withAdminAuth env h req = h req'" using guard_passes [OF assms(1)] by metis
  show ?thesis using assms
    by (simp add: bot_delete_def req io_bind_run io_catch_run api_fetch_run delete_error_text_def answer_json_def json_of_def read_prop_def
        prop_of_def value_or_def)
qed

theorem guarded_routes_need_token_witness:
  "\<exists>a. next_handle \<lparr>nv_url = Some ''http://api'', nv_secret = Some ''s'', nv_verify = (\<lambda>_ _. JwtError ''JWTExpired'')\<rparr> BotsList
      \<lparr>pr_headers = [(''Authorization'', ''Bearer t'')], pr_cookies = [], pr_query = [], pr_body = TextBody []\<rparr> \<lparr>nw_api = [], nw_sent = []\<rparr>
     = (Inr a, \<lparr>nw_api = [], nw_sent = []\<rparr>) \<and> (pa_status a = 401 \<or> pa_status a = 500 \<and> \<not> truthy_opt (Some ''s''))"
  using guarded_routes_need_token [where rt = BotsList
      and env = "\<lparr>nv_url = Some ''http://api'', nv_secret = Some ''s'', nv_verify = (\<lambda>_ _. JwtError ''JWTExpired'')\<rparr>"
      and req = "\<lparr>pr_headers = [(''Authorization'', ''Bearer t'')], pr_cookies = [], pr_query = [], pr_body = TextBody []\<rparr>"
      and w = "\<lparr>nw_api = [], nw_sent = []\<rparr>"]
  by (simp add: verified_user_def split: option.split)

end
