(* ===== verification/BrowserRoutes.thy ===== *)
theory BrowserRoutes
  imports ApiServices Routes
begin

text \<open>
  The browser and the server of the web client together: what a handler of Routes answers is what the clients of
  BrowserSession receive. The reason phrase of a status is a parameter.
\<close>

section \<open>From the browser to the handler and back\<close>

definition as_page_request :: "http_request \<Rightarrow> page_request" where
  "as_page_request q = \<lparr>pr_headers = rq_headers q, pr_cookies = [], pr_query = [],
     pr_body = (case rq_body q of Some v \<Rightarrow> JsonBody v | None \<Rightarrow> TextBody [])\<rparr>"

definition as_http_answer :: "(nat \<Rightarrow> string) \<Rightarrow> page_answer \<Rightarrow> http_answer" where
  "as_http_answer phrase a = HttpAnswer (pa_status a) (phrase (pa_status a)) (body_json (pa_body a))"

text \<open>The request that the axios instance sends for \<open>rq\<close>, and the answer of the handler of \<open>rt\<close> to it.\<close>

definition axios_sends :: "string \<Rightarrow> http_request \<Rightarrow> http_request" where
  "axios_sends token rq = rq\<lparr>rq_headers := bearer token # rq_headers rq\<rparr>"

definition route_answer :: "next_env \<Rightarrow> (nat \<Rightarrow> string) \<Rightarrow> route \<Rightarrow> http_request \<Rightarrow> next_world \<Rightarrow> http_answer" where
  "route_answer env phrase rt q w = (case fst (next_handle env rt (as_page_request q) w) of
      Inr a \<Rightarrow> as_http_answer phrase a | Inl e \<Rightarrow> NetworkError (errorMessage e))"

lemma before_next_self: "\<not> sublist sep t \<Longrightarrow> sep \<noteq> [] \<Longrightarrow> before_next sep t = t"
  by (induction t) (auto simp: sublist_Cons_right)

lemma axios_header:
  "header_get (rq_headers (axios_sends token rq)) ''Authorization'' = Some (''Bearer '' @ token)"
  by (simp add: axios_sends_def header_get_def bearer_def header_names)

lemma bearer_of: "\<not> sublist ''Bearer '' token \<Longrightarrow> header_token (''Bearer '' @ token) = token"
  by (simp add: header_token_def before_next_self)

text \<open>A session whose token no longer verifies ends with the first request: whichever guarded handler the browser calls, the
  answer is 401 and the browser is signed out.\<close>

theorem stale_session_ends:
  assumes "guarded rt" "nv_secret env = Some secret" "secret \<noteq> []" "nv_verify env token secret = JwtError e"
    and "token \<noteq> []" "\<not> sublist ''Bearer '' token"
    and "br_ready b" "br_stored b = Some token" "br_net b = route_answer env phrase rt (axios_sends token rq) w # rest"
  shows "signed_out (snd (axios_request rq b))"
proof -
  obtain h where h: "next_handle env rt (as_page_request (axios_sends token rq)) = withAdminAuth env h (as_page_request (axios_sends token rq))"
    using guarded_handler [OF assms(1)] by blast
  have "adminAuthMiddleware env (as_page_request (axios_sends token rq)) = Inl (auth_failure e)"
    using assms by (simp add: adminAuthMiddleware_def as_page_request_def axios_header js_starts_with_def bearer_of [simplified] Let_def)
  then have "route_answer env phrase rt (axios_sends token rq) w = HttpAnswer 401 (phrase 401) (body_json (pa_body (auth_failure e)))"
    by (simp add: route_answer_def h withAdminAuth_def as_http_answer_def)
  then have "br_net b = HttpAnswer 401 (phrase 401) (body_json (pa_body (auth_failure e))) # rest" using assms(9) by simp
  from axios_unauthorized [OF assms(7,8,5) this] show ?thesis by (simp add: case_prod_beta)
qed

definition demo_env :: next_env where
  "demo_env = \<lparr>nv_url = Some ''http://api'', nv_secret = Some ''s'', nv_verify = (\<lambda>token secret.
     if token = ''good'' then Verified (Some ''u1'') None else JwtError ''JWTExpired'')\<rparr>"

definition demo_browser :: "http_answer list \<Rightarrow> browser" where
  "demo_browser net = \<lparr>br_stored = Some ''old'', br_cookie = Some ''old'', br_user = Some (JStr ''a''), br_token = Some ''old'',
     br_loading = False, br_page = ''/dashboard'', br_ready = True, br_net = net, br_sent = []\<rparr>"

definition demo_net :: "http_answer list" where
  "demo_net = [route_answer demo_env (\<lambda>_. ''text'') BotsList (axios_sends ''old'' some_request) \<lparr>nw_api = [], nw_sent = []\<rparr>]"

theorem stale_session_ends_witness: "signed_out (snd (axios_request some_request (demo_browser demo_net)))"
  by (rule stale_session_ends [where rt = BotsList and env = demo_env and secret = "''s''" and token = "''old''"
        and e = "''JWTExpired''" and phrase = "\<lambda>_. ''text''" and w = "\<lparr>nw_api = [], nw_sent = []\<rparr>" and rest = "[]"])
    (simp_all add: demo_env_def demo_browser_def demo_net_def, code_simp)

text \<open>The text with which the API refuses a request reaches the user through the handlers of the common form; the deletion of
  an instance loses it, since its handler puts the text where the client looks for an object.\<close>

theorem api_error_text:
  assumes "verified_user env (as_page_request q) \<noteq> None" "truthy_opt (nv_url env)" "rq_body q \<noteq> None"
    and "nw_api w = Upstream a # rest" "\<not> http_ok (aa_status a)" "aa_body a = JsonBody (JObj kvs)"
    and "map_of kvs ''message'' = Some m" "m = JStr t" "t \<noteq> []" "relayed rt" "phrase (aa_status a) \<noteq> []"
  shows "(case route_answer env phrase rt q w of HttpAnswer st msg body \<Rightarrow> st = aa_status a \<and> getErrorMessage (AxiosAnswer st msg body) = m
      | NetworkError _ \<Rightarrow> False) \<and>
    (case route_answer env phrase (BotDelete bt) q w of HttpAnswer st msg body \<Rightarrow> st = aa_status a \<and>
      getErrorMessage (AxiosAnswer st msg body) = JStr (phrase (aa_status a)) | NetworkError _ \<Rightarrow> False)"
proof -
  obtain meth path has_body label where rt: "next_handle env rt = relay env meth path has_body label"
    using relayed_handler [OF assms(10)] by blast
  obtain v where v: "rq_body q = Some v" using assms(3) by blast
  have body: "pr_body (as_page_request q) = JsonBody v" by (simp add: as_page_request_def v)
  note relay = relay_answer [OF assms(1,2,4,6) body] and del = delete_answer [OF assms(1,2,4,5,6,7)]
  show ?thesis using assms
    by (simp add: route_answer_def rt relay del as_http_answer_def json_answer_def prop_of_def value_or_def)
qed

definition demo_refusal :: api_answer where
  "demo_refusal = \<lparr>aa_status = 409, aa_text = [], aa_type = None, aa_body = JsonBody (JObj [(''message'', JStr ''taken'')])\<rparr>"

definition demo_request :: http_request where
  "demo_request = \<lparr>rq_method = ''POST'', rq_url = ''/api/bot'', rq_headers = [(''authorization'', ''Bearer good'')],
     rq_body = Some (JObj [])\<rparr>"

theorem api_error_text_witness:
  "(case route_answer demo_env (\<lambda>_. ''Conflict'') BotsCreate demo_request \<lparr>nw_api = [Upstream demo_refusal], nw_sent = []\<rparr> of
      HttpAnswer st msg body \<Rightarrow> st = aa_status demo_refusal \<and> getErrorMessage (AxiosAnswer st msg body) = JStr ''taken''
    | NetworkError _ \<Rightarrow> False) \<and>
   (case route_answer demo_env (\<lambda>_. ''Conflict'') (BotDelete ''b'') demo_request \<lparr>nw_api = [Upstream demo_refusal], nw_sent = []\<rparr> of
      HttpAnswer st msg body \<Rightarrow> st = aa_status demo_refusal \<and> getErrorMessage (AxiosAnswer st msg body) = JStr ''Conflict''
    | NetworkError _ \<Rightarrow> False)"
proof (rule api_error_text [where kvs = "[(''message'', JStr ''taken'')]" and t = "''taken''" and rest = "[]" and bt = "''b''"
    and phrase = "\<lambda>_. ''Conflict''"])
  show "verified_user demo_env (as_page_request demo_request) \<noteq> None" by code_simp
qed (simp_all add: demo_env_def demo_refusal_def demo_request_def http_ok_def)

section \<open>The versions of a bot\<close>

definition object_answer :: "page_answer \<Rightarrow> bool" where
  "object_answer a \<longleftrightarrow> (\<exists>kvs. pa_body a = JsonBody (JObj kvs))"

lemma object_json: "object_answer (json_answer (JObj kvs) status)" "object_answer (error_answer label status)"
  "object_answer (unauthorized kvs')" "object_answer (auth_failure e)"
  by (simp_all add: object_answer_def json_answer_def error_answer_def unauthorized_def auth_failure_def str_obj_def)

lemma object_guard: "(\<And>req. yields object_answer (h req)) \<Longrightarrow> yields object_answer (withAdminAuth env h req)"
  by (auto simp: withAdminAuth_def adminAuthMiddleware_def Let_def str_obj_def object_json intro!: yields_return
      split: option.splits jwt_outcome.splits)

lemma versions_object: "yields object_answer (custom_bot_versions env nm req)"
  unfolding custom_bot_versions_def Let_def by (intro object_guard yields_intros object_json)

text \<open>The client takes the whole answer of the handler for the list: whatever the API says, what it gets is no list.\<close>

lemma versions_never_a_list:
  assumes "br_net b = route_answer env phrase (VersionsGet nm) q w # rest" "fst (getCustomBotVersions_request nm b) = Inr (Ok v)"
  shows "\<exists>kvs. v = JObj kvs"
proof -
  obtain a w' where a: "custom_bot_versions env nm (as_page_request q) w = (Inr a, w')"
    using answersD [OF answers_route [of env "VersionsGet nm"]] by fastforce
  obtain kvs where kvs: "pa_body a = JsonBody (JObj kvs)"
    using yieldsD [OF versions_object, of env nm "as_page_request q" w a] a by (auto simp: object_answer_def)
  have net: "br_net b = HttpAnswer (pa_status a) (phrase (pa_status a)) (Some (JObj kvs)) # rest"
    using assms(1) a kvs by (simp add: route_answer_def as_http_answer_def)
  then show ?thesis using assms(2) 
    by (auto simp: getCustomBotVersions_request_def io_bind_run api_call_def makeRequest_def global_token_def io_catch_run fetch_answer
        json_of_def api_data_def api_failure_def read_prop_def split: if_splits sum.splits prod.splits result.splits)
qed

end
