(* ===== verification/RouteStreams.thy ===== *)
theory RouteStreams
  imports Routes
begin

text \<open>
  The streams of custom bots, frontend/src/app/api/custom-bots/stream/route.ts and [name]/stream/route.ts: a poll of the API on
  one timer, a sign of life on another, both writing to the controller of a readable stream, which throws once it is closed.
  Time stamps are left out of the messages. Polls may overlap, and are answered in any order. Each poll carries the authorization of the caller.
\<close>

section \<open>State\<close>

datatype stream_kind = AllBots | OneBot string

datatype stream_message = Connection json | Update json | StreamError string | KeepAlive

text \<open>\<open>bs_failed\<close> counts the rejections and exceptions that nobody handles.\<close>

record bot_stream =
  bs_polling :: bool
  bs_keepAlive :: bool
  bs_closed :: bool
  bs_aborted :: bool
  bs_fetching :: nat
  bs_out :: "stream_message list"
  bs_failed :: nat

text \<open>\<open>controller.enqueue\<close> and \<open>controller.close\<close>.\<close>

definition enqueue :: "stream_message \<Rightarrow> (bot_stream, unit) io" where
  "enqueue m s = (if bs_closed s then js_throw ''Invalid state: Controller is already closed'' s else (Inr (), s\<lparr>bs_out := bs_out s @ [m]\<rparr>))"

definition close_controller :: "(bot_stream, unit) io" where
  "close_controller s = (if bs_closed s then js_throw ''Invalid state: Controller is already closed'' s else (Inr (), s\<lparr>bs_closed := True\<rparr>))"

definition clear_timers :: "(bot_stream, unit) io" where
  "clear_timers = io_modify (\<lambda>s. s\<lparr>bs_polling := False, bs_keepAlive := False\<rparr>)"

section \<open>Opening\<close>

definition connection_data :: "stream_kind \<Rightarrow> json" where
  "connection_data k = (case k of
      AllBots \<Rightarrow> str_obj [(''message'', ''Custom bots stream connected'')]
    | OneBot nm \<Rightarrow> str_obj [(''message'', ''Bot stream connected for '' @ nm), (''botName'', nm)])"

definition start_stream :: "stream_kind \<Rightarrow> bot_stream" where
  "start_stream k = \<lparr>bs_polling = True, bs_keepAlive = True, bs_closed = False, bs_aborted = False, bs_fetching = 0,
     bs_out = [Connection (connection_data k)], bs_failed = 0\<rparr>"

text \<open>An answer without a stream, or a stream.\<close>

definition open_bot_stream :: "stream_kind \<Rightarrow> page_request \<Rightarrow> page_answer + bot_stream" where
  "open_bot_stream k req =
     (if \<not> truthy_opt (header_get (pr_headers req) ''Authorization'') then Inl (error_answer ''Authorization token required'' 401)
      else if k = OneBot [] then Inl (error_answer ''Bot name parameter is required'' 400)
      else Inr (start_stream k))"

section \<open>Polling\<close>

definition poll_path :: "stream_kind \<Rightarrow> string" where
  "poll_path k = (case k of AllBots \<Rightarrow> ''/custom-bots'' | OneBot nm \<Rightarrow> ''/custom-bots/'' @ encodeURIComponent nm)"

text \<open>The request of one poll.\<close>

definition poll_request :: "next_env \<Rightarrow> stream_kind \<Rightarrow> page_request \<Rightarrow> http_request" where
  "poll_request env k req = \<lparr>rq_method = ''GET'', rq_url = or_else (nv_url env) ''undefined'' @ poll_path k,
     rq_headers = json_header @ authorization req, rq_body = None\<rparr>"

definition update_payload :: "stream_kind \<Rightarrow> json \<Rightarrow> json" where
  "update_payload k v = (case k of AllBots \<Rightarrow> v
    | OneBot _ \<Rightarrow> JObj (obj_put (case v of JObj kvs \<Rightarrow> kvs | _ \<Rightarrow> []) ''updateType'' (JStr ''bot_development'')))"

fun failed_text :: "stream_kind \<Rightarrow> string" where
  "failed_text AllBots = ''Failed to fetch custom bots data''"
| "failed_text (OneBot nm) = ''Failed to fetch bot data for '' @ [CHR 0x27] @ nm @ [CHR 0x27]"

fun broken_text :: "stream_kind \<Rightarrow> string" where
  "broken_text AllBots = ''Internal server error while fetching custom bots''"
| "broken_text (OneBot nm) = ''Internal server error while fetching bot '' @ [CHR 0x27] @ nm @ [CHR 0x27]"

fun missing_text :: "stream_kind \<Rightarrow> nat \<Rightarrow> string option" where
  "missing_text (OneBot nm) status = (if status = 404 then Some (''Bot '' @ [CHR 0x27] @ nm @ [CHR 0x27] @ '' not found'') else None)"
| "missing_text AllBots _ = None"

definition poll_response :: "stream_kind \<Rightarrow> api_answer \<Rightarrow> (bot_stream, unit) io" where
  "poll_response k response =
     (if http_ok (aa_status response)
      then io_bind (json_of (body_json (aa_body response))) (\<lambda>v. enqueue (Update (update_payload k v)))
      else if aa_status response = 401
      then io_bind (enqueue (StreamError ''Authentication failed'')) (\<lambda>_. io_bind clear_timers (\<lambda>_. close_controller))
      else (case missing_text k (aa_status response) of
          Some msg \<Rightarrow> enqueue (StreamError msg) | None \<Rightarrow> enqueue (StreamError (failed_text k))))"

text \<open>The callback of the poll timer once its fetch is answered.\<close>

definition poll_answered :: "stream_kind \<Rightarrow> upstream \<Rightarrow> (bot_stream, unit) io" where
  "poll_answered k u = io_catch
     (case u of Upstream response \<Rightarrow> poll_response k response | NoUpstream msg \<Rightarrow> js_throw msg)
     (\<lambda>_. enqueue (StreamError (broken_text k)))"

definition keep_alive :: "(bot_stream, unit) io" where
  "keep_alive = io_catch (enqueue KeepAlive) (\<lambda>_. clear_timers)"

definition client_gone :: "(bot_stream, unit) io" where
  "client_gone = io_bind clear_timers (\<lambda>_. close_controller)"

text \<open>What rejects is handled by nobody.\<close>

definition unattended :: "(bot_stream, unit) io \<Rightarrow> bot_stream \<Rightarrow> bot_stream" where
  "unattended m s = (case m s of (Inr _, s') \<Rightarrow> s' | (Inl _, s') \<Rightarrow> s'\<lparr>bs_failed := Suc (bs_failed s')\<rparr>)"

datatype stream_event = PollTick | PollAnswer upstream | KeepAliveTick | Abort | CancelStream

fun stream_step :: "stream_kind \<Rightarrow> stream_event \<Rightarrow> bot_stream \<Rightarrow> bot_stream" where
  "stream_step k PollTick s = (if bs_polling s then s\<lparr>bs_fetching := Suc (bs_fetching s)\<rparr> else s)"
| "stream_step k (PollAnswer u) s = (if 0 < bs_fetching s
     then unattended (poll_answered k u) (s\<lparr>bs_fetching := bs_fetching s - 1\<rparr>) else s)"
| "stream_step k KeepAliveTick s = (if bs_keepAlive s then unattended keep_alive s else s)"
| "stream_step k Abort s = (if bs_aborted s then s else unattended client_gone (s\<lparr>bs_aborted := True\<rparr>))"
| "stream_step k CancelStream s = s\<lparr>bs_closed := True\<rparr>"

fun stream_run :: "stream_kind \<Rightarrow> stream_event list \<Rightarrow> bot_stream \<Rightarrow> bot_stream" where
  "stream_run k [] s = s"
| "stream_run k (e # es) s = stream_run k es (stream_step k e s)"

section \<open>Properties\<close>

lemmas stream_eval = enqueue_def close_controller_def clear_timers_def js_throw_def json_of_def io_bind_run io_catch_run unattended_def

lemma poll_of_closed:
  "bs_closed s \<Longrightarrow> unattended (poll_answered k u) s = s\<lparr>bs_failed := Suc (bs_failed s)\<rparr>"
  by (auto simp: poll_answered_def poll_response_def stream_eval split: upstream.split option.split)

definition stream_ok :: "bot_stream \<Rightarrow> bool" where
  "stream_ok s \<longleftrightarrow> bs_polling s = bs_keepAlive s \<and> (bs_polling s \<or> bs_closed s) \<and> (bs_closed s \<or> bs_failed s = 0 \<and> \<not> bs_aborted s)"

lemma poll_of_open:
  assumes "\<not> bs_closed s" "stream_ok s"
  shows "stream_ok (unattended (poll_answered k u) s)"
  using assms
  by (auto simp: stream_ok_def poll_answered_def poll_response_def stream_eval split: upstream.split option.split sum.split)

lemma stream_step_ok: "stream_ok s \<Longrightarrow> stream_ok (stream_step k e s)"
proof (cases e)
  case (PollAnswer u)
  then show "stream_ok s \<Longrightarrow> stream_ok (stream_step k e s)"
    using poll_of_open [of "s\<lparr>bs_fetching := bs_fetching s - 1\<rparr>"]
    by (cases "bs_closed s") (auto simp: poll_of_closed stream_ok_def)
qed (auto simp: stream_ok_def keep_alive_def client_gone_def stream_eval split: option.split)

lemma start_stream_ok: "stream_ok (start_stream k)"
  by (simp add: start_stream_def stream_ok_def)

lemma stream_run_ok: "stream_ok s \<Longrightarrow> stream_ok (stream_run k es s)"
  by (induction es arbitrary: s) (simp_all add: stream_step_ok)

text \<open>A stream that is closed with its timers stopped.\<close>

definition stream_over :: "bot_stream \<Rightarrow> bool" where
  "stream_over s \<longleftrightarrow> bs_closed s \<and> \<not> bs_polling s \<and> \<not> bs_keepAlive s \<and> bs_aborted s"

lemma over_step:
  "stream_over s \<Longrightarrow> stream_over (stream_step k e s) \<and> bs_out (stream_step k e s) = bs_out s \<and>
     bs_failed (stream_step k e s) + bs_fetching (stream_step k e s) = bs_failed s + bs_fetching s"
  by (cases e) (auto simp: stream_over_def poll_of_closed)

lemma over_run:
  "stream_over s \<Longrightarrow> stream_over (stream_run k es s) \<and> bs_out (stream_run k es s) = bs_out s \<and>
     bs_failed (stream_run k es s) + bs_fetching (stream_run k es s) = bs_failed s + bs_fetching s"
  by (induction es arbitrary: s) (simp_all add: over_step)

lemma abort_over:
  "\<not> bs_closed s \<Longrightarrow> \<not> bs_aborted s \<Longrightarrow> stream_over (stream_step k Abort s) \<and> bs_out (stream_step k Abort s) = bs_out s \<and>
     bs_failed (stream_step k Abort s) = bs_failed s \<and> bs_fetching (stream_step k Abort s) = bs_fetching s"
  by (simp add: stream_over_def client_gone_def stream_eval)

text \<open>As long as a stream of custom bots is open both timers run and nothing has failed unhandled. Once its client is gone, it
  sends nothing more and its timers are stopped, but every poll that was under way then ends in a rejection that nobody
  handles, because the handler of its error writes to the closed stream too.\<close>

theorem polls_under_way_fail:
  "let s = stream_run k es (start_stream k); s' = stream_run k es' (stream_step k Abort s) in
     if bs_closed s then True else bs_polling s \<and> bs_keepAlive s \<and> bs_failed s = 0 \<and>
       bs_out s' = bs_out s \<and> \<not> bs_polling s' \<and> \<not> bs_keepAlive s' \<and> bs_failed s' + bs_fetching s' = bs_fetching s"
proof (cases "bs_closed (stream_run k es (start_stream k))")
  case False
  let ?s = "stream_run k es (start_stream k)"
  have ok: "stream_ok ?s" by (rule stream_run_ok [OF start_stream_ok])
  then have open_stream: "bs_polling ?s" "bs_keepAlive ?s" "bs_failed ?s = 0" "\<not> bs_aborted ?s"
    using False by (auto simp: stream_ok_def)
  note gone = abort_over [OF False open_stream(4), of k]
  have "stream_over (stream_run k es' (stream_step k Abort ?s))" using over_run gone by blast
  then show ?thesis using False open_stream gone over_run [of "stream_step k Abort ?s" k es']
    by (simp add: Let_def stream_over_def)
qed simp

text \<open>A stream that is opened polls with the authorization of the caller, as the other handlers do.\<close>

lemma polls_for_caller:
  assumes "open_bot_stream k req = Inr s"
  shows "own_authorization req \<noteq> None" "carries (own_authorization req) (poll_request env k req)"
  using assms carries_own [OF bare_header_lists(1)]
  by (cases "header_get (pr_headers req) ''Authorization''"; simp add: open_bot_stream_def own_authorization_def split: if_splits)
    (simp add: poll_request_def carries_own [OF bare_header_lists(1)])

text \<open>An event source of the browser sends no Authorization header, and is refused.\<close>

lemma event_source_refused:
  "header_get (pr_headers req) ''Authorization'' = None \<Longrightarrow>
   open_bot_stream k req = Inl (error_answer ''Authorization token required'' 401)"
  by (simp add: open_bot_stream_def)

text \<open>A cancelled stream keeps its timers until the next sign of life.\<close>

lemma cancelled_stream_stops:
  "bs_keepAlive s \<Longrightarrow> \<not> bs_polling (stream_step k KeepAliveTick (stream_step k CancelStream s))"
  by (simp add: keep_alive_def stream_eval)

end
