(* ===== verification/SdkState.thy ===== *)
theory SdkState
  imports BotState
begin

text \<open>
  sdk/nodejs/src/state.ts: the state module of the Node.js SDK, which keeps one file per key in the state directory that the
  runtime packs after a run (BotState). The world is that directory with the failures of its calls, in their order; a key
  that is accepted names a file directly below it. JSON's two functions are parameters, and so is the order in which the names
  of a directory are read, which Node does not document.
\<close>

section \<open>The process of a bot\<close>

record sdk_env =
  sd_queryPath :: "string option"
  sd_parse :: "string \<Rightarrow> json option"
  sd_stringify :: "json \<Rightarrow> string"
  sd_readdir :: "string list \<Rightarrow> string list"

record state_world =
  sw_dir :: state_dir
  sw_faults :: "js_error option list"

text \<open>A call of the file system: the next fault, or the action.\<close>

definition fs_do :: "(state_dir \<Rightarrow> (js_error + 'a) \<times> state_dir) \<Rightarrow> (state_world, 'a) io" where
  "fs_do act w = (case sw_faults w of
      Some e # rest \<Rightarrow> (Inl e, w\<lparr>sw_faults := rest\<rparr>)
    | later \<Rightarrow> (case act (sw_dir w) of (r, d) \<Rightarrow> (r, w\<lparr>sw_dir := d, sw_faults := tl later\<rparr>)))"

definition readFileSync :: "string \<Rightarrow> (state_world, string) io" where
  "readFileSync f = fs_do (\<lambda>d. (case d of None \<Rightarrow> Inl enoent
     | Some files \<Rightarrow> (case map_of files f of None \<Rightarrow> Inl enoent | Some content \<Rightarrow> Inr content), d))"

definition mkdirSync :: "(state_world, unit) io" where
  "mkdirSync = fs_do (\<lambda>d. (Inr (), Some (case d of None \<Rightarrow> [] | Some files \<Rightarrow> files)))"

definition writeFileSync :: "string \<Rightarrow> string \<Rightarrow> (state_world, unit) io" where
  "writeFileSync f content = fs_do (\<lambda>d. case d of None \<Rightarrow> (Inl enoent, d) | Some files \<Rightarrow> (Inr (), Some (AList.update f content files)))"

definition unlinkSync :: "string \<Rightarrow> (state_world, unit) io" where
  "unlinkSync f = fs_do (\<lambda>d. case d of None \<Rightarrow> (Inl enoent, d)
     | Some files \<Rightarrow> if map_of files f = None then (Inl enoent, d) else (Inr (), Some (AList.delete f files)))"

definition readdirSync :: "sdk_env \<Rightarrow> (state_world, string list) io" where
  "readdirSync env = fs_do (\<lambda>d. (case d of None \<Rightarrow> Inl enoent | Some files \<Rightarrow> Inr (sd_readdir env (map fst files)), d))"

text \<open>\<open>existsSync\<close> is false on any error.\<close>

definition existsSync :: "string \<Rightarrow> (state_world, bool) io" where
  "existsSync f = io_catch (fs_do (\<lambda>d. (Inr (d \<noteq> None \<and> map_of (the d) f \<noteq> None), d))) (\<lambda>_. io_return False)"

section \<open>The module\<close>

definition sdk_isQueryMode :: "sdk_env \<Rightarrow> bool" where
  "sdk_isQueryMode env \<longleftrightarrow> sd_queryPath env \<noteq> None"

definition read_only_error :: js_error where
  "read_only_error = Err None (''State modifications are not allowed during query execution. ''
     @ ''Queries are read-only. Use state.get() to read state values.'') None"

definition checkWriteAllowed :: "sdk_env \<Rightarrow> (state_world, unit) io" where
  "checkWriteAllowed env = throw_if (sdk_isQueryMode env) read_only_error"

definition key_problem :: "string \<Rightarrow> js_error option" where
  "key_problem key =
     (if key = [] then Some (Err None ''State key cannot be empty'' None)
      else if js_includes key ''/'' \<or> js_includes key [CHR 0x5C] \<or> js_includes key ''..''
      then Some (Err None (''State key cannot contain path separators or '' @ [CHR 0x27] @ ''..'' @ [CHR 0x27]) None)
      else None)"

definition validateKey :: "string \<Rightarrow> (state_world, unit) io" where
  "validateKey key = (case key_problem key of Some e \<Rightarrow> io_throw e | None \<Rightarrow> io_return ())"

text \<open>None is undefined.\<close>

definition sdk_get :: "sdk_env \<Rightarrow> string \<Rightarrow> json option \<Rightarrow> (state_world, json option) io" where
  "sdk_get env key defaultValue = io_bind (validateKey key) (\<lambda>_. io_catch
     (io_bind (readFileSync (json_file key)) (\<lambda>content. case sd_parse env content of
         None \<Rightarrow> io_throw (Err None ''Unexpected token'' None) | Some v \<Rightarrow> io_return (Some v)))
     (\<lambda>_. io_return defaultValue))"

definition sdk_set :: "sdk_env \<Rightarrow> string \<Rightarrow> json \<Rightarrow> (state_world, unit) io" where
  "sdk_set env key v = io_bind (checkWriteAllowed env) (\<lambda>_. io_bind (validateKey key) (\<lambda>_. io_bind mkdirSync (\<lambda>_.
     writeFileSync (json_file key) (sd_stringify env v))))"

text \<open>\<open>catch (err) { if (err.code === 'ENOENT') return x; throw err; }\<close>.\<close>

definition unless_enoent :: "'a \<Rightarrow> (state_world, 'a) io \<Rightarrow> (state_world, 'a) io" where
  "unless_enoent x m = io_catch m (\<lambda>err. if error_code err = Some ''ENOENT'' then io_return x else io_throw err)"

definition sdk_remove :: "sdk_env \<Rightarrow> string \<Rightarrow> (state_world, bool) io" where
  "sdk_remove env key = io_bind (checkWriteAllowed env) (\<lambda>_. io_bind (validateKey key) (\<lambda>_.
     unless_enoent False (io_bind (unlinkSync (json_file key)) (\<lambda>_. io_return True))))"

definition drop_json :: "string \<Rightarrow> string" where
  "drop_json f = take (length f - 5) f"

definition sdk_list :: "sdk_env \<Rightarrow> (state_world, string list) io" where
  "sdk_list env = unless_enoent [] (io_bind (readdirSync env) (\<lambda>files.
     io_return (map drop_json (filter (\<lambda>f. js_ends_with f ''.json'') files))))"

definition sdk_clear :: "sdk_env \<Rightarrow> (state_world, unit) io" where
  "sdk_clear env = io_bind (checkWriteAllowed env) (\<lambda>_. unless_enoent () (io_bind (readdirSync env) (\<lambda>files.
     io_for files (\<lambda>filename. if js_ends_with filename ''.json'' then unlinkSync filename else io_return ()))))"

definition sdk_exists :: "string \<Rightarrow> (state_world, bool) io" where
  "sdk_exists key = io_bind (validateKey key) (\<lambda>_. existsSync (json_file key))"

section \<open>A program of state operations\<close>

datatype state_op = SGet string "json option" | SSet string json | SRemove string | SList | SClear | SExists string

datatype state_out = Gives "json option" | Told bool | Keys "string list" | Done | Throws js_error

definition out_of :: "('a \<Rightarrow> state_out) \<Rightarrow> (js_error + 'a) \<times> state_world \<Rightarrow> state_out \<times> state_world" where
  "out_of f r = (case r of (Inl e, w) \<Rightarrow> (Throws e, w) | (Inr x, w) \<Rightarrow> (f x, w))"

fun state_op_step :: "sdk_env \<Rightarrow> state_op \<Rightarrow> state_world \<Rightarrow> state_out \<times> state_world" where
  "state_op_step env (SGet k d) w = out_of Gives (sdk_get env k d w)"
| "state_op_step env (SSet k v) w = out_of (\<lambda>_. Done) (sdk_set env k v w)"
| "state_op_step env (SRemove k) w = out_of Told (sdk_remove env k w)"
| "state_op_step env SList w = out_of Keys (sdk_list env w)"
| "state_op_step env SClear w = out_of (\<lambda>_. Done) (sdk_clear env w)"
| "state_op_step env (SExists k) w = out_of Told (sdk_exists k w)"

fun state_op_run :: "sdk_env \<Rightarrow> state_op list \<Rightarrow> state_world \<Rightarrow> state_out list" where
  "state_op_run env [] w = []"
| "state_op_run env (p # ps) w = (case state_op_step env p w of (x, w') \<Rightarrow> x # state_op_run env ps w')"

section \<open>What it promises: a table of keys and values\<close>

type_synonym state_table = "(string \<times> json) list"

definition for_key :: "string \<Rightarrow> state_out \<times> state_table \<Rightarrow> state_table \<Rightarrow> state_out \<times> state_table" where
  "for_key k r m = (case key_problem k of Some e \<Rightarrow> (Throws e, m) | None \<Rightarrow> r)"

definition for_write :: "bool \<Rightarrow> state_out \<times> state_table \<Rightarrow> state_table \<Rightarrow> state_out \<times> state_table" where
  "for_write query r m = (if query then (Throws read_only_error, m) else r)"

fun table_step :: "bool \<Rightarrow> state_op \<Rightarrow> state_table \<Rightarrow> state_out \<times> state_table" where
  "table_step query (SGet k d) m = for_key k (Gives (case map_of m k of Some v \<Rightarrow> Some v | None \<Rightarrow> d), m) m"
| "table_step query (SSet k v) m = for_write query (for_key k (Done, AList.update k v m) m) m"
| "table_step query (SRemove k) m = for_write query (for_key k (Told (map_of m k \<noteq> None), AList.delete k m) m) m"
| "table_step query SList m = (Keys (map fst m), m)"
| "table_step query SClear m = for_write query (Done, []) m"
| "table_step query (SExists k) m = for_key k (Told (map_of m k \<noteq> None), m) m"

fun table_run :: "bool \<Rightarrow> state_op list \<Rightarrow> state_table \<Rightarrow> state_out list" where
  "table_run query [] m = []"
| "table_run query (p # ps) m = (case table_step query p m of (x, m') \<Rightarrow> x # table_run query ps m')"

section \<open>Refinement\<close>

text \<open>A value that JSON prints and reads back.\<close>

definition printable :: "sdk_env \<Rightarrow> json \<Rightarrow> bool" where
  "printable env v \<longleftrightarrow> sd_parse env (sd_stringify env v) = Some v"

text \<open>A directory that stands for a table, whoever wrote it: there is no pending fault, and a key has the value its file parses
  to. Files of other names do not matter; without a directory the table is empty.\<close>

definition holds_table :: "sdk_env \<Rightarrow> state_world \<Rightarrow> state_table \<Rightarrow> bool" where
  "holds_table env w m \<longleftrightarrow> sw_faults w = [] \<and> distinct (map fst m) \<and> (case sw_dir w of
      None \<Rightarrow> m = []
    | Some files \<Rightarrow> distinct (map fst files) \<and>
        (\<forall>k. map_option (sd_parse env) (map_of files (json_file k)) = map_option Some (map_of m k)))"

text \<open>A directory is read in some order.\<close>

definition reads_names :: "sdk_env \<Rightarrow> bool" where
  "reads_names env \<longleftrightarrow> (\<forall>names. mset (sd_readdir env names) = mset names)"

text \<open>The same answer, the keys of a list in any order.\<close>

fun same_answer :: "state_out \<Rightarrow> state_out \<Rightarrow> bool" where
  "same_answer (Keys xs) (Keys ys) = (mset xs = mset ys)"
| "same_answer x y = (x = y)"

lemma same_answer_refl [simp]: "same_answer x x"
  by (cases x) simp_all

lemma inj_json_file: "inj json_file"
  by (auto simp: json_file_def intro: injI)

lemma json_file_eq [simp]: "json_file a = json_file b \<longleftrightarrow> a = b"
  using inj_json_file by (simp add: inj_eq)

lemma json_names: "js_ends_with (json_file k) ''.json''" "drop_json (json_file k) = k"
  by (simp_all add: json_file_def js_ends_with_def drop_json_def suffix_def)

lemma json_nameE:
  assumes "js_ends_with f ''.json''"
  obtains k where "f = json_file k"
  using assms by (auto simp: js_ends_with_def suffix_def json_file_def)

lemmas fs_eval = fs_do_def readFileSync_def mkdirSync_def writeFileSync_def unlinkSync_def readdirSync_def existsSync_def
  io_bind_run io_catch_run unless_enoent_def out_of_def validateKey_def checkWriteAllowed_def throw_if_run for_key_def for_write_def

lemma table_cases:
  assumes "holds_table env w m"
  obtains (dir) files where "w = \<lparr>sw_dir = Some files, sw_faults = []\<rparr>" "distinct (map fst m)" "distinct (map fst files)"
      "\<And>k. map_option (sd_parse env) (map_of files (json_file k)) = map_option Some (map_of m k)"
    | (none) "w = \<lparr>sw_dir = None, sw_faults = []\<rparr>" "m = []"
  using assms by (cases w) (auto simp: holds_table_def split: option.splits)

lemma table_dir:
  "holds_table env \<lparr>sw_dir = Some files, sw_faults = []\<rparr> m \<longleftrightarrow> distinct (map fst m) \<and> distinct (map fst files) \<and>
     (\<forall>k. map_option (sd_parse env) (map_of files (json_file k)) = map_option Some (map_of m k))"
  by (simp add: holds_table_def)

lemma step_get:
  assumes "holds_table env w m"
  shows "state_op_step env (SGet k d) w = (fst (table_step q (SGet k d) m), w)"
  using assms
proof (cases rule: table_cases)
  case (dir files)
  show ?thesis using dir(4) [of k]
    by (cases "map_of m k") (auto simp: dir(1) sdk_get_def fs_eval split: option.split)
qed (simp add: sdk_get_def fs_eval split: option.split)

lemma step_exists:
  assumes "holds_table env w m"
  shows "state_op_step env (SExists k) w = (fst (table_step q (SExists k) m), w)"
  using assms
proof (cases rule: table_cases)
  case (dir files)
  show ?thesis using dir(4) [of k]
    by (cases "map_of m k") (auto simp: dir(1) sdk_exists_def fs_eval split: option.split)
qed (simp add: sdk_exists_def fs_eval split: option.split)

text \<open>The names of the JSON files are the keys.\<close>

lemma listed_keys:
  assumes "distinct (map fst m)" "distinct names"
    and "\<And>k. json_file k \<in> set names \<longleftrightarrow> k \<in> fst ` set m"
  shows "mset (map drop_json (filter (\<lambda>f. js_ends_with f ''.json'') names)) = mset (map fst m)"
proof -
  have inj: "inj_on drop_json {f. js_ends_with f ''.json''}"
    by (auto simp: inj_on_def json_names elim!: json_nameE)
  have "distinct (map drop_json (filter (\<lambda>f. js_ends_with f ''.json'') names))"
    using assms(2) by (auto simp: distinct_map intro: inj_on_subset [OF inj])
  moreover have "set (map drop_json (filter (\<lambda>f. js_ends_with f ''.json'') names)) = set (map fst m)"
  proof -
    have "drop_json ` {f \<in> set names. js_ends_with f ''.json''} = {k. json_file k \<in> set names}"
      by (auto simp: json_names elim!: json_nameE intro!: image_eqI [where x = "json_file k" for k])
    then show ?thesis using assms(3) by simp
  qed
  ultimately show ?thesis using assms(1) set_eq_iff_mset_eq_distinct by blast
qed

lemma key_files:
  assumes "\<And>k. map_option (sd_parse env) (map_of files (json_file k)) = map_option Some (map_of m k)"
  shows "json_file k \<in> fst ` set files \<longleftrightarrow> k \<in> fst ` set m"
  using assms [of k] by (metis map_of_eq_None_iff option.map_disc_iff)

lemma step_list:
  assumes "holds_table env w m" "reads_names env"
  shows "\<exists>ks. state_op_step env SList w = (Keys ks, w) \<and> mset ks = mset (map fst m)"
  using assms(1)
proof (cases rule: table_cases)
  case (dir files)
  define names where "names = sd_readdir env (map fst files)"
  have same: "mset names = mset (map fst files)" using assms(2) by (simp add: names_def reads_names_def)
  have "distinct names" using dir(3) same by (metis mset_eq_imp_distinct_iff)
  moreover have "set names = fst ` set files" using same by (metis list.set_map set_mset_mset)
  ultimately have "mset (map drop_json (filter (\<lambda>f. js_ends_with f ''.json'') names)) = mset (map fst m)"
    using listed_keys [OF dir(2)] key_files [OF dir(4)] by simp
  then show ?thesis by (simp add: dir(1) sdk_list_def fs_eval names_def [symmetric])
qed (simp add: sdk_list_def fs_eval enoent_def)

lemma step_set:
  assumes "holds_table env w m" "printable env v"
  shows "\<exists>w'. state_op_step env (SSet k v) w = (fst (table_step (sdk_isQueryMode env) (SSet k v) m), w') \<and>
    holds_table env w' (snd (table_step (sdk_isQueryMode env) (SSet k v) m))"
  using assms(1)
proof (cases rule: table_cases)
  case (dir files)
  have "holds_table env \<lparr>sw_dir = Some (AList.update (json_file k) (sd_stringify env v) files), sw_faults = []\<rparr> (AList.update k v m)"
    using dir(2-4) assms(2) by (simp add: table_dir distinct_update update_conv' printable_def)
  then show ?thesis using dir(1) assms(1)
    by (simp add: sdk_set_def fs_eval split: option.split)
next
  case none
  have "holds_table env \<lparr>sw_dir = Some [(json_file k, sd_stringify env v)], sw_faults = []\<rparr> [(k, v)]"
    using assms(2) by (simp add: table_dir printable_def)
  then show ?thesis using none assms(1) by (simp add: sdk_set_def fs_eval table_dir split: option.split)
qed

lemma step_remove:
  assumes "holds_table env w m"
  shows "\<exists>w'. state_op_step env (SRemove k) w = (fst (table_step (sdk_isQueryMode env) (SRemove k) m), w') \<and>
    holds_table env w' (snd (table_step (sdk_isQueryMode env) (SRemove k) m))"
  using assms
proof (cases rule: table_cases)
  case (dir files)
  have "holds_table env \<lparr>sw_dir = Some (AList.delete (json_file k) files), sw_faults = []\<rparr> (AList.delete k m)"
    using dir(2-4) by (simp add: table_dir distinct_delete delete_conv')
  moreover have "AList.delete k m = m" if "map_of m k = None"
    using that by (simp add: delete_id map_of_eq_None_iff)
  ultimately show ?thesis using dir(1) assms dir(4) [of k]
    by (cases "map_of m k") (auto simp: sdk_remove_def fs_eval enoent_def split: option.split)
next
  case none
  then show ?thesis using assms
    by (simp add: sdk_remove_def fs_eval enoent_def split: option.split)
qed

lemma clear_files:
  assumes "distinct names" "set names \<subseteq> fst ` set files"
  shows "io_for names (\<lambda>filename. if js_ends_with filename ''.json'' then unlinkSync filename else io_return ())
      \<lparr>sw_dir = Some files, sw_faults = []\<rparr>
    = (Inr (), \<lparr>sw_dir = Some (filter (\<lambda>(f, _). f \<notin> set names \<or> \<not> js_ends_with f ''.json'') files), sw_faults = []\<rparr>)"
  using assms
proof (induction names arbitrary: files)
  case Nil
  then show ?case by (simp add: case_prod_beta)
next
  case (Cons f names)
  show ?case
  proof (cases "js_ends_with f ''.json''")
    case True
    have gone: "AList.delete f files = filter (\<lambda>(g, _). g \<noteq> f) files"
      by (auto simp: AList.delete_eq intro!: filter_cong)
    have "map_of files f \<noteq> None" using Cons.prems(2) by (simp add: map_of_eq_None_iff)
    then have "unlinkSync f \<lparr>sw_dir = Some files, sw_faults = []\<rparr> = (Inr (), \<lparr>sw_dir = Some (AList.delete f files), sw_faults = []\<rparr>)"
      by (simp add: unlinkSync_def fs_do_def)
    moreover have "set names \<subseteq> fst ` set (AList.delete f files)"
      using Cons.prems by (force simp: gone)
    ultimately show ?thesis
      using Cons.IH [of "AList.delete f files"] Cons.prems(1) True
      by (simp add: io_bind_run gone) (auto intro!: filter_cong)
  next
    case False
    then show ?thesis using Cons.IH [of files] Cons.prems
      by (simp add: io_bind_run) (auto intro!: filter_cong)
  qed
qed

lemma step_clear:
  assumes "holds_table env w m" "reads_names env"
  shows "\<exists>w'. state_op_step env SClear w = (fst (table_step (sdk_isQueryMode env) SClear m), w') \<and>
    holds_table env w' (snd (table_step (sdk_isQueryMode env) SClear m))"
  using assms(1)
proof (cases rule: table_cases)
  case (dir files)
  define names where "names = sd_readdir env (map fst files)"
  have same: "mset names = mset (map fst files)" using assms(2) by (simp add: names_def reads_names_def)
  have names: "distinct names" "set names = fst ` set files"
    using dir(3) same by (metis mset_eq_imp_distinct_iff, metis list.set_map set_mset_mset)
  define rest where "rest = filter (\<lambda>(f, _). f \<notin> set names \<or> \<not> js_ends_with f ''.json'') files"
  have read: "readdirSync env w = (Inr names, w)" by (simp add: dir(1) readdirSync_def fs_do_def names_def)
  have "map_of rest (json_file k) = None" for k
    using names(2) by (force simp: map_of_eq_None_iff rest_def json_names)
  then have "holds_table env \<lparr>sw_dir = Some rest, sw_faults = []\<rparr> []"
    using dir(3) by (simp add: table_dir rest_def distinct_map_filter)
  then show ?thesis
    using assms(1) clear_files [OF names(1), of files, folded rest_def] names(2)
    by (simp add: sdk_clear_def checkWriteAllowed_def io_bind_run throw_if_run unless_enoent_def io_catch_run out_of_def for_write_def read)
      (simp add: dir(1))
next
  case none
  then show ?thesis using assms(1) by (simp add: sdk_clear_def fs_eval enoent_def)
qed

fun op_printable :: "sdk_env \<Rightarrow> state_op \<Rightarrow> bool" where
  "op_printable env (SSet _ v) = printable env v"
| "op_printable env _ = True"

lemma step_simulates:
  assumes "op_printable env p" "holds_table env w m" "reads_names env"
  shows "\<exists>x w'. state_op_step env p w = (x, w') \<and> same_answer x (fst (table_step (sdk_isQueryMode env) p m)) \<and>
    holds_table env w' (snd (table_step (sdk_isQueryMode env) p m))"
proof (cases p)
  case (SGet k d)
  show ?thesis unfolding SGet step_get [OF assms(2), of k d "sdk_isQueryMode env"] using assms(2)
    by (simp add: for_key_def split: option.split)
next
  case (SExists k)
  show ?thesis unfolding SExists step_exists [OF assms(2), of k "sdk_isQueryMode env"] using assms(2)
    by (simp add: for_key_def split: option.split)
next
  case SList
  then show ?thesis using step_list [OF assms(2,3)] assms(2) by auto
next
  case (SSet k v)
  then show ?thesis using step_set [OF assms(2), of v k] assms(1) by fastforce
next
  case (SRemove k)
  then show ?thesis using step_remove [OF assms(2), of k] by fastforce
next
  case SClear
  then show ?thesis using step_clear [OF assms(2,3)] by fastforce
qed

lemma run_simulates:
  assumes "reads_names env"
  shows "list_all (op_printable env) ps \<Longrightarrow> holds_table env w m \<Longrightarrow>
    list_all2 same_answer (state_op_run env ps w) (table_run (sdk_isQueryMode env) ps m)"
proof (induction ps arbitrary: w m)
  case (Cons p ps)
  obtain x m' where t: "table_step (sdk_isQueryMode env) p m = (x, m')" by fastforce
  obtain y w' where "state_op_step env p w = (y, w')" "same_answer y x" "holds_table env w' m'"
    using step_simulates [OF _ Cons.prems(2) assms, of p] Cons.prems(1) by (auto simp: t)
  then show ?case using Cons.IH Cons.prems(1) by (simp add: t)
qed simp

text \<open>C34. On a directory that stands for a table, of whoever's making, when no call fails and the values that are set are such
  that JSON reads back what it printed: every program of state operations answers what the same program on the table answers,
  list up to the order in which the directory is read; and during a query it cannot change the table.\<close>

theorem state_refines_table:
  assumes "holds_table env w m" "reads_names env" "list_all (op_printable env) ps"
  shows "list_all2 same_answer (state_op_run env ps w) (table_run (sdk_isQueryMode env) ps m)"
  by (rule run_simulates [OF assms(2,3,1)])

definition demo_program :: "state_op list" where
  "demo_program = [SSet ''cash'' (JStr ''9''), SGet ''cash'' None, SExists ''a/b'', SList, SRemove ''cash'', SGet ''mode'' (Some JNull)]"

text \<open>Here the names are read backwards.\<close>

definition demo_sdk :: sdk_env where
  "demo_sdk = \<lparr>sd_queryPath = None, sd_parse = (\<lambda>s. Some (JStr s)), sd_stringify = (\<lambda>v. case v of JStr s \<Rightarrow> s | _ \<Rightarrow> []),
     sd_readdir = rev\<rparr>"

definition demo_state :: state_world where
  "demo_state = \<lparr>sw_dir = Some [(''mode.json'', ''2''), (''notes.txt'', ''x'')], sw_faults = []\<rparr>"

theorem state_refines_table_witness:
  "list_all2 same_answer (state_op_run demo_sdk demo_program demo_state)
     (table_run (sdk_isQueryMode demo_sdk) demo_program [(''mode'', JStr ''2'')])"
proof (rule state_refines_table)
  have "json_file k = ''mode.json'' \<longleftrightarrow> k = ''mode''" "json_file k \<noteq> ''notes.txt''" for k
  proof -
    have "json_file ''mode'' = ''mode.json''" by (simp add: json_file_def)
    then show "json_file k = ''mode.json'' \<longleftrightarrow> k = ''mode''" using json_file_eq [of k "''mode''"] by simp
    have "\<not> js_ends_with ''notes.txt'' ''.json''" by code_simp
    then show "json_file k \<noteq> ''notes.txt''" using json_names(1) [of k] by metis
  qed
  then show "holds_table demo_sdk demo_state [(''mode'', JStr ''2'')]"
    by (auto simp: holds_table_def demo_state_def demo_sdk_def)
  show "reads_names demo_sdk" by (simp add: reads_names_def demo_sdk_def)
  show "list_all (op_printable demo_sdk) demo_program" by (simp add: demo_program_def demo_sdk_def printable_def)
qed

text \<open>During a query nothing changes, even with failing calls.\<close>

lemma query_keeps_state:
  "sdk_isQueryMode env \<Longrightarrow> sw_dir (snd (state_op_step env p w)) = sw_dir w"
  by (cases p) (auto simp: sdk_get_def sdk_set_def sdk_remove_def sdk_list_def sdk_clear_def sdk_exists_def fs_eval
      split: list.split option.split prod.split sum.split)

text \<open>A key that the API serves (BotState) is accepted by the SDK; not every key of the SDK is served.\<close>

lemma served_keys_accepted: "isValidKey key \<Longrightarrow> key_problem key = None"
proof -
  assume key: "isValidKey key"
  have "\<not> is_id_char CHR ''/''" "\<not> is_id_char CHR 0x5C" "\<not> is_id_char CHR ''.''" by code_simp+
  moreover have "set t \<subseteq> set key" if "sublist t key" for t using that by (auto simp: sublist_def)
  ultimately show ?thesis using key by (fastforce simp: key_problem_def isValidKey_def js_includes_def list_all_iff)
qed

lemma accepted_key_not_served: "key_problem ''daily pnl'' = None" "\<not> isValidKey ''daily pnl''"
  by code_simp+

end
