(* ===== verification/SdkQuery.thy ===== *)
theory SdkQuery
  imports Http
begin

text \<open>
  sdk/nodejs/src/query.ts: the query handlers of a bot, run once for one query, or by an HTTP server for a bot that keeps
  running. A handler is a function of its request and of what it reads of the module after it has waited; \<open>JSON.parse\<close> and the
  parser of URLs are parameters.
\<close>

section \<open>Handlers\<close>

record query_request =
  qr_path :: string
  qr_params :: json

text \<open>What a handler can read beside its request: the paths of the handlers, \<open>getParams\<close> and \<open>getConfig\<close>.\<close>

record query_view =
  vw_paths :: "string list"
  vw_params :: json
  vw_config :: json

text \<open>A value (None is undefined), one that JSON cannot print, or an exception as text.\<close>

datatype handler_result = Returned "json option" | Unprintable | Thrown string

type_synonym query_handler = "query_request \<Rightarrow> query_view \<Rightarrow> handler_result"

type_synonym handler_table = "(string \<times> query_handler) list"

definition handler :: "string \<Rightarrow> query_handler \<Rightarrow> handler_table \<Rightarrow> handler_table" where
  "handler path fn handlers = AList.update path fn handlers"

text \<open>\<open>req.get(key, default)\<close>: Inl when the parameters are null; inherited names of objects are left out.\<close>

definition request_get :: "query_request \<Rightarrow> string \<Rightarrow> json option \<Rightarrow> js_error + json option" where
  "request_get req key d =
     (if qr_params req = JNull then Inl (Err None ''Cannot read properties of null'' None)
      else Inr (case prop_of (Some (qr_params req)) key of Some v \<Rightarrow> if v = JNull then d else Some v | None \<Rightarrow> d))"

text \<open>\<open>{ ...v }\<close> of an object, of null or of a number.\<close>

definition copy_of :: "json \<Rightarrow> json" where
  "copy_of v = JObj (case v of JObj kvs \<Rightarrow> kvs | _ \<Rightarrow> [])"

definition health_handler :: query_handler where
  "health_handler req vw = Returned (Some (JObj [(''status'', JStr ''ok'')]))"

definition info_handler :: query_handler where
  "info_handler req vw = Returned (Some (JObj [(''available_queries'', JArr (map JStr (vw_paths vw)))]))"

definition built_in :: "handler_table \<Rightarrow> handler_table" where
  "built_in hs = (let hs1 = (if map_of hs ''/health'' = None then handler ''/health'' health_handler hs else hs) in
     if map_of hs1 ''/info'' = None then handler ''/info'' info_handler hs1 else hs1)"

section \<open>One query\<close>

record query_env =
  qe_path :: "string option"
  qe_params :: "string option"
  qe_botType :: "string option"
  qe_config :: "string option"
  qe_parse :: "string \<Rightarrow> json option"
  qe_url :: "string \<Rightarrow> (string \<times> json) option"
  qe_writable :: bool

definition parsed_or_empty :: "query_env \<Rightarrow> string option \<Rightarrow> json" where
  "parsed_or_empty env v = (case qe_parse env (or_else v ''{}'') of Some x \<Rightarrow> x | None \<Rightarrow> JObj [])"

definition ok_result :: "json option \<Rightarrow> json" where
  "ok_result data = JObj ((''status'', JStr ''ok'') # opt_entry ''data'' data)"

definition error_result :: "string \<Rightarrow> js_object \<Rightarrow> json" where
  "error_result msg extra = JObj ([(''status'', JStr ''error''), (''error'', JStr msg)] @ extra)"

text \<open>The result file and the exit code; what cannot be written or printed leaves no file.\<close>

record query_end =
  qx_result :: "json option"
  qx_exit :: nat

definition written :: "query_env \<Rightarrow> json option \<Rightarrow> json option" where
  "written env v = (if qe_writable env then v else None)"

definition view_of :: "handler_table \<Rightarrow> json \<Rightarrow> json \<Rightarrow> query_view" where
  "view_of hs params config = \<lparr>vw_paths = map fst hs, vw_params = copy_of params, vw_config = copy_of config\<rparr>"

definition runEphemeral :: "query_env \<Rightarrow> handler_table \<Rightarrow> json \<Rightarrow> string \<Rightarrow> query_end" where
  "runEphemeral env hs config queryPath = (let params = parsed_or_empty env (qe_params env) in case map_of hs queryPath of
      None \<Rightarrow> \<lparr>qx_result = written env (Some (error_result (''No handler for path: '' @ queryPath)
                [(''available'', JArr (map (JStr \<circ> fst) hs))])), qx_exit = 1\<rparr>
    | Some fn \<Rightarrow> (case fn \<lparr>qr_path = queryPath, qr_params = params\<rparr> (view_of hs params config) of
          Returned v \<Rightarrow> \<lparr>qx_result = written env (Some (ok_result v)), qx_exit = 0\<rparr>
        | Unprintable \<Rightarrow> \<lparr>qx_result = None, qx_exit = 0\<rparr>
        | Thrown msg \<Rightarrow> \<lparr>qx_result = written env (Some (error_result msg [])), qx_exit = 1\<rparr>))"

section \<open>The server\<close>

record pending_query =
  pq_id :: nat
  pq_request :: query_request
  pq_handler :: query_handler

record query_server =
  qs_handlers :: handler_table
  qs_params :: json
  qs_config :: json
  qs_pending :: "pending_query list"
  qs_answers :: "(nat \<times> nat \<times> json) list"
  qs_crashed :: bool

definition runServer :: "handler_table \<Rightarrow> json \<Rightarrow> query_server" where
  "runServer hs config = \<lparr>qs_handlers = hs, qs_params = JObj [], qs_config = config, qs_pending = [], qs_answers = [], qs_crashed = False\<rparr>"

datatype run_mode = Ended query_end | Serving query_server

definition query_run :: "query_env \<Rightarrow> handler_table \<Rightarrow> run_mode" where
  "query_run env handlers = (let config = parsed_or_empty env (qe_config env); hs = built_in handlers in
     if truthy_opt (qe_path env) then Ended (runEphemeral env hs config (the (qe_path env)))
     else if qe_botType env = Some ''realtime'' then Serving (runServer hs config)
     else Ended (runEphemeral env hs config ''/info''))"

definition sendJson :: "nat \<Rightarrow> nat \<Rightarrow> json \<Rightarrow> query_server \<Rightarrow> query_server" where
  "sendJson i status v s = s\<lparr>qs_answers := qs_answers s @ [(i, status, v)]\<rparr>"

text \<open>
  A request arrives: a URL that does not parse is thrown outside the \<open>try\<close> block. A handler ends: printing its value throws
  after the head has been written, and so does writing the head again; a rejection that nobody handles ends the process.
\<close>

definition request_arrives :: "query_env \<Rightarrow> nat \<Rightarrow> string \<Rightarrow> query_server \<Rightarrow> query_server" where
  "request_arrives env i url s = (case qe_url env (if url = [] then ''/'' else url) of
      None \<Rightarrow> s\<lparr>qs_crashed := True\<rparr>
    | Some (path, params) \<Rightarrow> let s' = s\<lparr>qs_params := params\<rparr> in (case map_of (qs_handlers s) path of
          None \<Rightarrow> sendJson i 404 (error_result (''No handler for path: '' @ path) []) s'
        | Some fn \<Rightarrow> s'\<lparr>qs_pending := qs_pending s @
            [\<lparr>pq_id = i, pq_request = \<lparr>qr_path = path, qr_params = params\<rparr>, pq_handler = fn\<rparr>]\<rparr>))"

definition handler_ends :: "pending_query \<Rightarrow> query_server \<Rightarrow> query_server" where
  "handler_ends q s = (let s' = s\<lparr>qs_pending := filter (\<lambda>p. pq_id p \<noteq> pq_id q) (qs_pending s)\<rparr> in
     case pq_handler q (pq_request q) (view_of (qs_handlers s) (qs_params s) (qs_config s)) of
       Returned v \<Rightarrow> sendJson (pq_id q) 200 (ok_result v) s'
     | Unprintable \<Rightarrow> s'\<lparr>qs_crashed := True\<rparr>
     | Thrown msg \<Rightarrow> sendJson (pq_id q) 500 (error_result msg []) s')"

datatype server_event = Arrives nat string | Ends nat

fun server_step :: "query_env \<Rightarrow> server_event \<Rightarrow> query_server \<Rightarrow> query_server" where
  "server_step env (Arrives i url) s = (if qs_crashed s then s else request_arrives env i url s)"
| "server_step env (Ends i) s = (if qs_crashed s then s
     else case find (\<lambda>q. pq_id q = i) (qs_pending s) of None \<Rightarrow> s | Some q \<Rightarrow> handler_ends q s)"

fun server_run :: "query_env \<Rightarrow> server_event list \<Rightarrow> query_server \<Rightarrow> query_server" where
  "server_run env [] s = s"
| "server_run env (e # es) s = server_run env es (server_step env e s)"

section \<open>Properties\<close>

text \<open>Every request still waiting has the parameters of its own URL, and its handler is registered for its path.\<close>

definition own_request :: "query_env \<Rightarrow> query_server \<Rightarrow> pending_query \<Rightarrow> bool" where
  "own_request env s q \<longleftrightarrow> map_of (qs_handlers s) (qr_path (pq_request q)) = Some (pq_handler q) \<and>
     (\<exists>url. qe_url env url = Some (qr_path (pq_request q), qr_params (pq_request q)))"

lemma own_requests_step:
  "list_all (own_request env s) (qs_pending s) \<Longrightarrow>
   qs_handlers (server_step env e s) = qs_handlers s \<and> list_all (own_request env (server_step env e s)) (qs_pending (server_step env e s))"
  by (cases e) (auto simp: request_arrives_def handler_ends_def sendJson_def own_request_def Let_def list_all_iff
      split: option.split handler_result.split)

lemma crash_is_final: "qs_crashed s \<Longrightarrow> server_run env es s = s"
proof (induction es)
  case (Cons e es)
  then show ?case by (cases e) simp_all
qed simp

text \<open>When two requests overlap, the first handler still has its own request, but what it reads with \<open>getParams\<close> after waiting are
  the parameters of the second; and a value that JSON cannot print ends the server, with every other request unanswered.\<close>

theorem overlapping_queries:
  assumes "\<not> qs_crashed s" "qe_url env u = Some (path, p)" "qe_url env u' = Some (path', p')" "u \<noteq> []" "u' \<noteq> []"
    and "map_of (qs_handlers s) path = Some fn" "map_of (qs_handlers s) path' = Some fn'" "qs_pending s = []" "i \<noteq> j"
  shows "let s' = server_run env [Arrives i u, Arrives j u', Ends i] s;
             r = fn \<lparr>qr_path = path, qr_params = p\<rparr> (view_of (qs_handlers s) p' (qs_config s)) in
    (case r of Returned v \<Rightarrow> qs_answers s' = qs_answers s @ [(i, 200, ok_result v)]
      | Thrown msg \<Rightarrow> qs_answers s' = qs_answers s @ [(i, 500, error_result msg [])]
      | Unprintable \<Rightarrow> qs_answers (server_run env es s') = qs_answers s)"
  using assms
  by (simp add: Let_def request_arrives_def handler_ends_def sendJson_def crash_is_final split: handler_result.split)

definition echo_handler :: query_handler where
  "echo_handler req vw = Returned (Some (vw_params vw))"

definition demo_query_env :: query_env where
  "demo_query_env = \<lparr>qe_path = None, qe_params = None, qe_botType = Some ''realtime'', qe_config = None, qe_parse = (\<lambda>_. None),
     qe_url = (\<lambda>u. Some (''/echo'', JObj [(''url'', JStr u)])), qe_writable = True\<rparr>"

theorem overlapping_queries_witness:
  "let s = runServer (handler ''/echo'' echo_handler []) (JObj []);
       s' = server_run demo_query_env [Arrives 1 ''/a'', Arrives 2 ''/b'', Ends 1] s;
       r = echo_handler \<lparr>qr_path = ''/echo'', qr_params = JObj [(''url'', JStr ''/a'')]\<rparr>
         (view_of (qs_handlers s) (JObj [(''url'', JStr ''/b'')]) (qs_config s)) in
    (case r of Returned v \<Rightarrow> qs_answers s' = qs_answers s @ [(1, 200, ok_result v)]
      | Thrown msg \<Rightarrow> qs_answers s' = qs_answers s @ [(1, 500, error_result msg [])]
      | Unprintable \<Rightarrow> qs_answers (server_run demo_query_env [] s') = qs_answers s)"
proof -
  let ?s = "runServer (handler ''/echo'' echo_handler []) (JObj [])"
  show ?thesis
    unfolding Let_def
    by (rule overlapping_queries [of ?s demo_query_env "''/a''" "''/echo''" "JObj [(''url'', JStr ''/a'')]" "''/b''" "''/echo''"
          "JObj [(''url'', JStr ''/b'')]" echo_handler echo_handler 1 2 "[]", unfolded Let_def])
      (simp_all add: runServer_def handler_def demo_query_env_def)
qed

text \<open>One query: without a file the caller learns nothing, and the exit code is 0 when the value could not be printed.\<close>

lemma unprintable_is_silent:
  "map_of (built_in hs) path = Some fn \<Longrightarrow> (\<And>req vw. fn req vw = Unprintable) \<Longrightarrow> path \<noteq> [] \<Longrightarrow> qe_path env = Some path \<Longrightarrow>
   query_run env hs = Ended \<lparr>qx_result = None, qx_exit = 0\<rparr>"
  by (simp add: query_run_def runEphemeral_def Let_def)

lemma built_in_keeps: "map_of hs path = Some fn \<Longrightarrow> map_of (built_in hs) path = Some fn"
  by (auto simp: built_in_def handler_def update_conv' Let_def)

lemma built_in_has: "map_of (built_in hs) ''/health'' \<noteq> None" "map_of (built_in hs) ''/info'' \<noteq> None"
  by (auto simp: built_in_def handler_def update_conv' Let_def)

end
