(* ===== verification/SdkEvents.thy ===== *)
theory SdkEvents
  imports Events
begin

text \<open>
  sdk/nodejs/src/index.ts: what a bot reads and reports through the SDK, its input, its result file, and the lines for logs and
  metrics, with the page of the web client that reads these lines (Events). JSON's functions are those of the page.
\<close>

section \<open>Input and result\<close>

record bot_env =
  be_id :: "string option"
  be_config :: "string option"
  be_mountDir :: "string option"

text \<open>The files of the container by path, the output on stdout and stderr, and the exit code once the process has ended.\<close>

record bot_container =
  bc_files :: "(string \<times> string) list"
  bc_writable :: bool
  bc_stdout :: "string list"
  bc_stderr :: "string list"
  bc_exit :: "nat option"

definition sdk_parse :: "page_env \<Rightarrow> bot_env \<Rightarrow> js_error + string \<times> json" where
  "sdk_parse pe env =
     (if \<not> truthy_opt (be_id env) then Inl (Err None ''BOT_ID environment variable not set'' None)
      else if \<not> truthy_opt (be_config env) then Inl (Err None ''BOT_CONFIG environment variable not set'' None)
      else case pe_json_parse pe (the (be_config env)) of
          None \<Rightarrow> Inl (Err None ''Failed to parse BOT_CONFIG as JSON'' None)
        | Some config \<Rightarrow> Inr (the (be_id env), config))"

definition getResultFilePath :: "bot_env \<Rightarrow> string" where
  "getResultFilePath env = ''/'' @ or_else (be_mountDir env) ''bot'' @ ''/result.json''"

definition sdk_result :: "page_env \<Rightarrow> bot_env \<Rightarrow> json \<Rightarrow> bot_container \<Rightarrow> bot_container" where
  "sdk_result pe env v c = (if bc_writable c then c\<lparr>bc_files := AList.update (getResultFilePath env) (pe_stringify pe v) (bc_files c)\<rparr>
     else c\<lparr>bc_stderr := bc_stderr c @ [''RESULT_ERROR: Failed to write result file'']\<rparr>)"

definition result_object :: "string \<Rightarrow> string \<Rightarrow> js_object option \<Rightarrow> json" where
  "result_object status msg data = JObj ([(''status'', JStr status), (''message'', JStr msg)]
     @ (case data of None \<Rightarrow> [] | Some kvs \<Rightarrow> [(''data'', JObj kvs)]))"

definition sdk_success :: "page_env \<Rightarrow> bot_env \<Rightarrow> string \<Rightarrow> js_object option \<Rightarrow> bot_container \<Rightarrow> bot_container" where
  "sdk_success pe env msg data = sdk_result pe env (result_object ''success'' msg data)"

definition sdk_error :: "page_env \<Rightarrow> bot_env \<Rightarrow> string \<Rightarrow> js_object option \<Rightarrow> bot_container \<Rightarrow> bot_container" where
  "sdk_error pe env msg data c = (sdk_result pe env (result_object ''error'' msg data) c)\<lparr>bc_exit := Some 1\<rparr>"

section \<open>Lines\<close>

text \<open>\<open>{ ...a, ...b }\<close>.\<close>

definition spread :: "js_object \<Rightarrow> js_object \<Rightarrow> js_object" where
  "spread a b = foldl (\<lambda>ob (k, v). obj_put ob k v) a b"

definition metric_entry :: "string \<Rightarrow> js_object \<Rightarrow> string \<Rightarrow> json" where
  "metric_entry ty data now = JObj (spread (spread [(''_metric'', JStr ty)] data) [(''timestamp'', JStr now)])"

definition sdk_metric :: "page_env \<Rightarrow> string \<Rightarrow> js_object \<Rightarrow> string \<Rightarrow> bot_container \<Rightarrow> bot_container" where
  "sdk_metric pe ty data now c = c\<lparr>bc_stdout := bc_stdout c @ [pe_stringify pe (metric_entry ty data now)]\<rparr>"

text \<open>The second argument of \<open>log\<close>: a level, or data with a level behind it.\<close>

datatype log_argument = LevelOnly string | WithData js_object "string option" | MessageOnly

fun log_level_of :: "log_argument \<Rightarrow> string" where
  "log_level_of (LevelOnly l) = l"
| "log_level_of (WithData _ l) = or_else l ''info''"
| "log_level_of MessageOnly = ''info''"

fun log_data_of :: "log_argument \<Rightarrow> js_object" where
  "log_data_of (WithData d _) = d"
| "log_data_of _ = []"

definition message_entry :: "string \<Rightarrow> log_argument \<Rightarrow> string \<Rightarrow> json" where
  "message_entry msg a now = JObj (spread (spread [(''level'', JStr (log_level_of a)), (''message'', JStr msg)] (log_data_of a))
     [(''timestamp'', JStr now)])"

definition sdk_log :: "page_env \<Rightarrow> string \<Rightarrow> log_argument \<Rightarrow> string \<Rightarrow> bot_container \<Rightarrow> bot_container" where
  "sdk_log pe msg a now c = c\<lparr>bc_stderr := bc_stderr c @ [pe_stringify pe (message_entry msg a now)]\<rparr>"

section \<open>What the page reads\<close>



















text \<open>Data that use the names of the entry replace them.\<close>

lemma data_replace_entry:
  "message_entry ''Order failed'' (WithData [(''message'', JStr ''x''), (''_metric'', JStr ''y'')] (Some ''error'')) now =
     JObj [(''level'', JStr ''error''), (''message'', JStr ''x''), (''_metric'', JStr ''y''), (''timestamp'', JStr now)]"
  by (simp add: message_entry_def spread_def obj_put_def or_else_def)

end
