(* ===== verification/ApiPlatform.thy ===== *)
theory ApiPlatform
  imports BotService
begin

text \<open>
  What the API stands on: its configuration (api/src/config/configuration.ts and database.config.ts), the client of the object
  store (minio/minio.provider.ts), the NATS service (nats/nats.service.ts) and the health checks (health/). The environment
  is a function; \<open>Number\<close> and the parser of URLs are parameters. The calls to the broker have outcomes in their order.
\<close>

section \<open>Configuration\<close>

type_synonym process_env = "string \<Rightarrow> string option"

text \<open>The loaded configuration: None where nothing is loaded for the key.\<close>

definition configuration :: "process_env \<Rightarrow> string \<Rightarrow> json option" where
  "configuration env key = Option.bind (map_of [
     (''BOT_TYPE_API_KEY'', Some (JStr (or_else (env ''BOT_TYPE_API_KEY'') []))),
     (''FRONTEND_URL'', Some (JStr (or_else (env ''FRONTEND_URL'') ''http://localhost:3001''))),
     (''MINIO_ENDPOINT'', Some (JStr (or_else (env ''MINIO_ENDPOINT'') ''localhost''))),
     (''MINIO_EXTERNAL_ENDPOINT'', Some (JStr (or_else (env ''MINIO_EXTERNAL_ENDPOINT'') (or_else (env ''MINIO_ENDPOINT'') ''localhost:9000'')))),
     (''MINIO_PORT'', Some (JStr (or_else (env ''MINIO_PORT'') ''9000''))),
     (''MINIO_USE_SSL'', Some (JStr (or_else (env ''MINIO_USE_SSL'') ''false''))),
     (''MINIO_ACCESS_KEY'', Some (JStr (or_else (env ''MINIO_ACCESS_KEY'') ''minioadmin''))),
     (''MINIO_SECRET_KEY'', Some (JStr (or_else (env ''MINIO_SECRET_KEY'') ''minioadmin''))),
     (''CUSTOM_BOTS_BUCKET'', Some (JStr (or_else (env ''CUSTOM_BOTS_BUCKET'') ''custom-bots''))),
     (''LOG_BUCKET'', Some (JStr (or_else (env ''LOG_BUCKET'') ''logs''))),
     (''DATABASE_URL'', Some (JStr (or_else (env ''DATABASE_URL'') ''sqlite:data.db''))),
     (''NATS_URLs'', Some (JStr (or_else (env ''NATS_URLS'') ''nats://localhost:4222''))),
     (''JWT_SECRET'', map_option JStr (env ''JWT_SECRET'')),
     (''JWT_EXPIRES_IN'', Some (JStr (or_else (env ''JWT_EXPIRES_IN'') ''24h''))),
     (''HEALTH_CHECK_DATABASE'', Some (JBool (env ''HEALTH_CHECK_DATABASE'' = Some ''true'')))] key) (\<lambda>v. v)"

text \<open>\<open>ConfigService.get\<close> (version 4): the loaded configuration first, then the environment.\<close>

definition config_get :: "process_env \<Rightarrow> string \<Rightarrow> json option" where
  "config_get env key = (case configuration env key of Some v \<Rightarrow> Some v | None \<Rightarrow> map_option JStr (env key))"

definition config_text :: "process_env \<Rightarrow> string \<Rightarrow> string option" where
  "config_text env key = (case config_get env key of Some (JStr s) \<Rightarrow> Some s | _ \<Rightarrow> None)"

section \<open>The client of the object store\<close>

record minio_client =
  mn_endPoint :: string
  mn_port :: int
  mn_useSSL :: bool
  mn_accessKey :: string
  mn_secretKey :: string

definition minioClient :: "process_env \<Rightarrow> js_error + minio_client" where
  "minioClient env = (let endpoint = config_text env ''MINIO_ENDPOINT''; accessKey = config_text env ''MINIO_ACCESS_KEY'';
       secretKey = config_text env ''MINIO_SECRET_KEY'' in
     if \<not> truthy_opt endpoint then Inl (plain_error ''MINIO_ENDPOINT is required but not configured'')
     else if \<not> truthy_opt accessKey then Inl (plain_error ''MINIO_ACCESS_KEY is required but not configured'')
     else if \<not> truthy_opt secretKey then Inl (plain_error ''MINIO_SECRET_KEY is required but not configured'')
     else let portStr = or_else (config_text env ''MINIO_PORT'') ''9000'' in (case js_parseInt portStr of
         None \<Rightarrow> Inl (plain_error (''MINIO_PORT must be a valid number, got: '' @ portStr))
       | Some port \<Rightarrow> let sslValue = map_option js_lower (config_text env ''MINIO_USE_SSL'') in
           Inr \<lparr>mn_endPoint = the endpoint, mn_port = port, mn_useSSL = (sslValue = Some ''true'' \<or> sslValue = Some ''1''),
             mn_accessKey = the accessKey, mn_secretKey = the secretKey\<rparr>))"

text \<open>The checks for missing credentials never fire: the configuration has put the default credentials in their place.\<close>

lemma minio_default_credentials:
  assumes "env ''MINIO_ACCESS_KEY'' = None" "env ''MINIO_SECRET_KEY'' = None" "minioClient env = Inr client"
  shows "mn_accessKey client = ''minioadmin'' \<and> mn_secretKey client = ''minioadmin''"
  using assms
  by (auto simp: minioClient_def config_text_def config_get_def configuration_def or_else_def Let_def split: if_splits option.splits)

lemma minio_error_is_port:
  assumes "minioClient env = Inl e"
  shows "js_parseInt (or_else (env ''MINIO_PORT'') ''9000'') = None"
  using assms
  by (auto simp: minioClient_def config_text_def config_get_def configuration_def or_else_def Let_def split: if_splits option.splits)

section \<open>The database\<close>

record database_pool =
  dp_max :: int
  dp_idleTimeout :: int
  dp_connectTimeout :: int
  dp_maxLifetime :: int

record database_config =
  dc_type :: string
  dc_url :: string
  dc_host :: "string option"
  dc_port :: "int option"
  dc_username :: "string option"
  dc_password :: "string option"
  dc_database :: "string option"
  dc_development :: bool
  dc_autoSelectFamily :: "bool option"
  dc_pool :: "database_pool option"

record parsed_url =
  ur_hostname :: string
  ur_port :: string
  ur_username :: string
  ur_password :: string
  ur_pathname :: string

definition parsePositiveIntEnv :: "(string \<Rightarrow> rat option) \<Rightarrow> process_env \<Rightarrow> string \<Rightarrow> int \<Rightarrow> js_error + int" where
  "parsePositiveIntEnv number env key fallback = (case env key of
      None \<Rightarrow> Inr fallback
    | Some raw \<Rightarrow> if js_trim raw = [] then Inr fallback
        else (case number raw of
            Some q \<Rightarrow> if of_int \<lfloor>q\<rfloor> = q \<and> 1 \<le> q then Inr \<lfloor>q\<rfloor> else Inl (plain_error (key @ '' must be an integer >= 1''))
          | None \<Rightarrow> Inl (plain_error (key @ '' must be an integer >= 1''))))"

definition bind_sum :: "'e + 'a \<Rightarrow> ('a \<Rightarrow> 'e + 'b) \<Rightarrow> 'e + 'b" where
  "bind_sum r f = (case r of Inl e \<Rightarrow> Inl e | Inr x \<Rightarrow> f x)"

definition getPoolConfig :: "(string \<Rightarrow> rat option) \<Rightarrow> process_env \<Rightarrow> js_error + database_pool" where
  "getPoolConfig number env = bind_sum (parsePositiveIntEnv number env ''DB_POOL_MAX'' 10) (\<lambda>m.
     bind_sum (parsePositiveIntEnv number env ''DB_POOL_IDLE_TIMEOUT'' 20) (\<lambda>i.
     bind_sum (parsePositiveIntEnv number env ''DB_POOL_CONNECT_TIMEOUT'' 10) (\<lambda>c.
     bind_sum (parsePositiveIntEnv number env ''DB_POOL_MAX_LIFETIME'' 1800) (\<lambda>l.
       Inr \<lparr>dp_max = m, dp_idleTimeout = i, dp_connectTimeout = c, dp_maxLifetime = l\<rparr>))))"

text \<open>\<open>parseInt(s) || 5432\<close>: NaN and zero give the default.\<close>

definition port_or_default :: "string option \<Rightarrow> int" where
  "port_or_default s = (case s of None \<Rightarrow> 5432 | Some t \<Rightarrow> (case js_parseInt t of Some n \<Rightarrow> if n = 0 then 5432 else n | None \<Rightarrow> 5432))"

definition loadConfig :: "(string \<Rightarrow> rat option) \<Rightarrow> (string \<Rightarrow> parsed_url option) \<Rightarrow> process_env \<Rightarrow> js_error + database_config" where
  "loadConfig number parse_url env = (let databaseUrl = env ''DATABASE_URL''; databaseType = or_else (env ''DATABASE_TYPE'') ''sqlite'';
       development = (env ''NODE_ENV'' = Some ''development'') in
     if databaseType = ''sqlite''
     then Inr \<lparr>dc_type = ''sqlite'', dc_url = or_else databaseUrl ''./data/quantflow.db'', dc_host = None, dc_port = None, dc_username = None,
       dc_password = None, dc_database = None, dc_development = development, dc_autoSelectFamily = None, dc_pool = None\<rparr>
     else let autoSelect = Some (env ''DB_AUTO_SELECT_FAMILY'' \<noteq> Some ''false'') in
       if truthy_opt databaseUrl
       then (case parse_url (the databaseUrl) of
           None \<Rightarrow> Inl (plain_error ''Invalid URL'')
         | Some url \<Rightarrow> bind_sum (getPoolConfig number env) (\<lambda>pool.
             Inr \<lparr>dc_type = ''postgresql'', dc_url = the databaseUrl, dc_host = Some (ur_hostname url), dc_port = Some (port_or_default (Some (ur_port url))),
               dc_username = Some (ur_username url), dc_password = Some (ur_password url), dc_database = Some (drop 1 (ur_pathname url)),
               dc_development = development, dc_autoSelectFamily = autoSelect, dc_pool = Some pool\<rparr>))
       else bind_sum (getPoolConfig number env) (\<lambda>pool.
         Inr \<lparr>dc_type = ''postgresql'', dc_url = [], dc_host = Some (or_else (env ''DB_HOST'') ''localhost''),
           dc_port = Some (port_or_default (env ''DB_PORT'')), dc_username = Some (or_else (env ''DB_USERNAME'') ''quantflow''),
           dc_password = Some (or_else (env ''DB_PASSWORD'') ''quantflow_password''), dc_database = Some (or_else (env ''DB_DATABASE'') ''quantflow_oss''),
           dc_development = development, dc_autoSelectFamily = autoSelect, dc_pool = Some pool\<rparr>))"

lemma positive_int: "1 \<le> fallback \<Longrightarrow> parsePositiveIntEnv number env key fallback = Inr n \<Longrightarrow> 1 \<le> n"
  by (auto simp: parsePositiveIntEnv_def le_floor_iff split: option.splits if_splits)

text \<open>A configuration that loads has a pool of positive sizes, and neither is the port zero.\<close>

lemma loaded_pool_positive:
  assumes "loadConfig number parse_url env = Inr c" "dc_pool c = Some pool"
  shows "1 \<le> dp_max pool \<and> 1 \<le> dp_idleTimeout pool \<and> 1 \<le> dp_connectTimeout pool \<and> 1 \<le> dp_maxLifetime pool \<and> dc_port c \<noteq> Some 0"
proof -
  have pool: "1 \<le> dp_max p \<and> 1 \<le> dp_idleTimeout p \<and> 1 \<le> dp_connectTimeout p \<and> 1 \<le> dp_maxLifetime p"
    if "getPoolConfig number env = Inr p" for p
    using that by (auto simp: getPoolConfig_def bind_sum_def split: sum.splits dest!: positive_int [rotated])
  have port: "port_or_default s \<noteq> 0" for s by (simp add: port_or_default_def split: option.split)
  show ?thesis using assms pool port
    by (auto simp: loadConfig_def Let_def bind_sum_def split: if_splits option.splits sum.splits)
qed

section \<open>NATS\<close>

datatype retention = Limits

datatype storage = FileStorage | MemoryStorage

record stream_config =
  sc_name :: string
  sc_subjects :: "string list"
  sc_retention :: retention
  sc_max_age :: int
  sc_max_bytes :: "int option"
  sc_storage :: storage

text \<open>What the service asks of the broker's client, and the world: the connection (with its closed flag), the stream manager, the
  outcomes of the calls to come and the calls so far with their outcome. \<open>None\<close> is success, also when the outcomes run out.\<close>

datatype nats_call = Connect "string list" | Manager | AddStream stream_config | UpdateStream string stream_config | CloseConnection
  | Publish string json | Subscribe string

record nats_world =
  nt_connection :: "bool option"
  nt_manager :: bool
  nt_outcomes :: "js_error option list"
  nt_calls :: "(nats_call \<times> bool) list"

definition nats_do :: "nats_call \<Rightarrow> (nats_world, unit) io" where
  "nats_do c w = (let w' = w\<lparr>nt_outcomes := tl (nt_outcomes w)\<rparr> in case nt_outcomes w of
      Some e # _ \<Rightarrow> (Inl e, w'\<lparr>nt_calls := nt_calls w @ [(c, False)]\<rparr>)
    | _ \<Rightarrow> (Inr (), w'\<lparr>nt_calls := nt_calls w @ [(c, True)]\<rparr>))"

text \<open>\<open>NATS_URLS\<close>, separated by commas; an empty value is one empty address.\<close>

definition nats_servers :: "process_env \<Rightarrow> string list" where
  "nats_servers env = (case config_text env ''NATS_URLS'' of None \<Rightarrow> [''nats://localhost:4222''] | Some s \<Rightarrow> split_at (CHR '','') s)"

definition nats_connect :: "process_env \<Rightarrow> (nats_world, unit) io" where
  "nats_connect env = io_bind (nats_do (Connect (nats_servers env))) (\<lambda>_.
     io_bind (io_modify (\<lambda>w. w\<lparr>nt_connection := Some False\<rparr>)) (\<lambda>_.
     io_bind (nats_do Manager) (\<lambda>_. io_modify (\<lambda>w. w\<lparr>nt_manager := True\<rparr>))))"

definition nats_disconnect :: "(nats_world, unit) io" where
  "nats_disconnect = io_bind (io_get nt_connection) (\<lambda>conn.
     if conn = None then io_return ()
     else io_bind (nats_do CloseConnection) (\<lambda>_. io_modify (\<lambda>w. w\<lparr>nt_connection := None, nt_manager := False\<rparr>)))"

text \<open>\<open>api_error.err_code\<close> of an error is a parameter.\<close>

definition isStreamAlreadyExists :: "(js_error \<Rightarrow> nat option) \<Rightarrow> js_error \<Rightarrow> bool" where
  "isStreamAlreadyExists api_code err \<longleftrightarrow> api_code err = Some 10058 \<or> js_includes (errorMessage err) ''stream name already in use''"

text \<open>\<open>try { await m; return Ok } catch (err) { ... }\<close>.\<close>

definition attempt :: "(nats_world, unit) io \<Rightarrow> (nats_world, (unit, js_error) result) io" where
  "attempt m = io_catch (io_bind m (\<lambda>_. io_return (Ok ()))) (\<lambda>e. io_return (Failure e))"

definition ensureStream :: "(js_error \<Rightarrow> nat option) \<Rightarrow> stream_config \<Rightarrow> (nats_world, (unit, string) result) io" where
  "ensureStream api_code config = io_bind (io_get nt_manager) (\<lambda>manager.
     if \<not> manager then io_return (Failure ''JetStream manager not initialized'')
     else io_bind (attempt (nats_do (AddStream config))) (\<lambda>added. case added of
         Ok _ \<Rightarrow> io_return (Ok ())
       | Failure err \<Rightarrow>
         if \<not> isStreamAlreadyExists api_code err
         then io_return (Failure (or_else (Some (errorMessage err)) (''Failed to create stream '' @ sc_name config)))
         else io_bind (attempt (nats_do (UpdateStream (sc_name config) config))) (\<lambda>updated. case updated of
             Ok _ \<Rightarrow> io_return (Ok ())
           | Failure err \<Rightarrow> io_return (Failure (or_else (Some (errorMessage err)) (''Failed to update stream '' @ sc_name config))))))"

definition EVENTS_STREAM :: stream_config where
  "EVENTS_STREAM = \<lparr>sc_name = ''QUANTFLOW_EVENTS'',
     sc_subjects = [''quantflow.bot.created'', ''quantflow.bot.updated'', ''quantflow.bot.deleted'', ''quantflow.bot-schedule.created'',
       ''quantflow.bot-schedule.updated'', ''quantflow.bot-schedule.deleted''],
     sc_retention = Limits, sc_max_age = 7 * 24 * 60 * 60 * 1000 * 1000000, sc_max_bytes = None, sc_storage = FileStorage\<rparr>"

definition LOGS_STREAM :: stream_config where
  "LOGS_STREAM = \<lparr>sc_name = ''QUANTFLOW_BOT_LOGS'', sc_subjects = [''quantflow.bot.logs.>''], sc_retention = Limits,
     sc_max_age = 60 * 60 * 1000 * 1000000, sc_max_bytes = Some (128 * 1024 * 1024), sc_storage = MemoryStorage\<rparr>"

definition setupStreams :: "(js_error \<Rightarrow> nat option) \<Rightarrow> (nats_world, (unit, string) result) io" where
  "setupStreams api_code = io_bind (io_get nt_manager) (\<lambda>manager.
     if \<not> manager then io_return (Failure ''NATS JetStream manager not initialized'')
     else io_bind (ensureStream api_code EVENTS_STREAM) (\<lambda>eventsResult. case eventsResult of
         Failure e \<Rightarrow> io_return (Failure e)
       | Ok _ \<Rightarrow> io_bind (ensureStream api_code LOGS_STREAM) (\<lambda>_. io_return (Ok ()))))"

definition nats_onModuleInit :: "process_env \<Rightarrow> (js_error \<Rightarrow> nat option) \<Rightarrow> (nats_world, unit) io" where
  "nats_onModuleInit env api_code = io_bind (nats_connect env) (\<lambda>_. io_bind (setupStreams api_code) (\<lambda>result. case result of
      Ok _ \<Rightarrow> io_return ()
    | Failure e \<Rightarrow> io_bind nats_disconnect (\<lambda>_. io_throw (plain_error e))))"

definition nats_publish_call :: "string \<Rightarrow> json \<Rightarrow> (nats_world, (unit, string) result) io" where
  "nats_publish_call topic payload = io_bind (io_get nt_connection) (\<lambda>conn.
     if conn = None then io_return (Failure ''NATS connection not established'')
     else io_bind (attempt (nats_do (Publish topic payload))) (\<lambda>r. io_return (case r of
         Ok _ \<Rightarrow> Ok () | Failure e \<Rightarrow> Failure (errorMessage e))))"

definition nats_subscribe :: "string \<Rightarrow> (nats_world, (unit, string) result) io" where
  "nats_subscribe subject = io_bind (io_get nt_connection) (\<lambda>conn.
     if conn = None then io_return (Failure ''NATS connection not established'')
     else io_bind (attempt (nats_do (Subscribe subject))) (\<lambda>r. io_return (case r of
         Ok _ \<Rightarrow> Ok () | Failure e \<Rightarrow> Failure (errorMessage e))))"

definition nats_isConnected :: "nats_world \<Rightarrow> bool" where
  "nats_isConnected w \<longleftrightarrow> nt_connection w = Some False"

text \<open>A service that has started: connected, and the broker has accepted the stream of the events, by creation or by update.\<close>

definition accepted :: "stream_config \<Rightarrow> nats_world \<Rightarrow> bool" where
  "accepted c w \<longleftrightarrow> (AddStream c, True) \<in> set (nt_calls w) \<or> (UpdateStream (sc_name c) c, True) \<in> set (nt_calls w)"

lemma nats_do_cases:
  obtains (works) w' where "nats_do c w = (Inr (), w')" "(c, True) \<in> set (nt_calls w')" "nt_connection w' = nt_connection w"
      "nt_manager w' = nt_manager w" "set (nt_calls w) \<subseteq> set (nt_calls w')"
    | (failed) e w' where "nats_do c w = (Inl e, w')" "(c, False) \<in> set (nt_calls w')" "nt_connection w' = nt_connection w"
      "nt_manager w' = nt_manager w" "set (nt_calls w) \<subseteq> set (nt_calls w')"
proof (cases "fst (nats_do c w)")
  case (Inl e)
  then show ?thesis
    by (intro failed [of e "snd (nats_do c w)"]) (auto simp: nats_do_def Let_def split: list.splits option.splits)
next
  case (Inr u)
  then show ?thesis
    by (intro works [of "snd (nats_do c w)"]) (auto simp: nats_do_def Let_def split: list.splits option.splits)
qed

lemma attempt_cases:
  obtains (works) w' where "attempt (nats_do c) w = (Inr (Ok ()), w')" "(c, True) \<in> set (nt_calls w')" "nt_connection w' = nt_connection w"
      "nt_manager w' = nt_manager w" "set (nt_calls w) \<subseteq> set (nt_calls w')"
    | (failed) e w' where "attempt (nats_do c) w = (Inr (Failure e), w')" "nt_connection w' = nt_connection w"
      "nt_manager w' = nt_manager w" "set (nt_calls w) \<subseteq> set (nt_calls w')"
  by (rule nats_do_cases [of c w]) (auto simp: attempt_def io_catch_run io_bind_run intro: that)

text \<open>Setting up a stream always answers, leaves the connection alone, and has been accepted when it says so.\<close>

lemma ensureStream_answers:
  "\<exists>r w'. ensureStream api_code c w = (Inr r, w') \<and> nt_connection w' = nt_connection w \<and> nt_manager w' = nt_manager w \<and>
     set (nt_calls w) \<subseteq> set (nt_calls w') \<and> (is_ok r \<longrightarrow> accepted c w')"
proof (cases "nt_manager w")
  case True
  show ?thesis
  proof (rule attempt_cases [of "AddStream c" w])
    fix e w1 assume add: "attempt (nats_do (AddStream c)) w = (Inr (Failure e), w1)" "nt_connection w1 = nt_connection w"
      "nt_manager w1 = nt_manager w" "set (nt_calls w) \<subseteq> set (nt_calls w1)"
    show ?thesis
    proof (cases "isStreamAlreadyExists api_code e")
      case exists: True
      show ?thesis
        by (rule attempt_cases [of "UpdateStream (sc_name c) c" w1])
          (use add True exists in \<open>auto simp: ensureStream_def io_bind_run accepted_def\<close>)
    qed (use add True in \<open>simp add: ensureStream_def io_bind_run\<close>)
  qed (use True in \<open>simp add: ensureStream_def io_bind_run accepted_def\<close>)
qed (simp add: ensureStream_def io_bind_run)

lemma setupStreams_answers:
  assumes "nt_manager w"
  shows "\<exists>r w'. setupStreams api_code w = (Inr r, w') \<and> nt_connection w' = nt_connection w \<and>
     set (nt_calls w) \<subseteq> set (nt_calls w') \<and> (is_ok r \<longrightarrow> accepted EVENTS_STREAM w')"
proof -
  obtain r w1 where ev: "ensureStream api_code EVENTS_STREAM w = (Inr r, w1)" "nt_connection w1 = nt_connection w"
    "set (nt_calls w) \<subseteq> set (nt_calls w1)" "is_ok r \<longrightarrow> accepted EVENTS_STREAM w1"
    using ensureStream_answers by blast
  obtain r' w2 where lg: "ensureStream api_code LOGS_STREAM w1 = (Inr r', w2)" "nt_connection w2 = nt_connection w1"
    "set (nt_calls w1) \<subseteq> set (nt_calls w2)"
    using ensureStream_answers by blast
  show ?thesis
  proof (cases r)
    case (Ok u)
    then have "accepted EVENTS_STREAM w2" using ev(4) lg(3) by (auto simp: accepted_def)
    then show ?thesis using assms ev lg Ok by (auto simp: setupStreams_def io_bind_run)
  qed (use assms ev in \<open>simp add: setupStreams_def io_bind_run\<close>)
qed

text \<open>The topics of the service of the instances are subjects of the stream of the events.\<close>

definition published_topics :: "bot_topics \<Rightarrow> string list" where
  "published_topics t = [CREATED t, UPDATED t, DELETED t]"

text \<open>A NATS service that has started is connected, and the broker has accepted the stream with every topic on which the API
  announces its instances. One that has not is no longer connected, unless the broker failed to close the connection or to give
  the stream manager.\<close>

theorem nats_start_complete:
  "case nats_onModuleInit env api_code \<lparr>nt_connection = None, nt_manager = False, nt_outcomes = outcomes, nt_calls = []\<rparr> of
     (Inr _, w) \<Rightarrow> nats_isConnected w \<and> accepted EVENTS_STREAM w \<and>
       list_all (\<lambda>t. set (published_topics t) \<subseteq> set (sc_subjects EVENTS_STREAM)) [BOT_TOPICS, SCHEDULED_BOT_TOPICS]
   | (Inl _, w) \<Rightarrow> nt_connection w = None \<or> (CloseConnection, False) \<in> set (nt_calls w) \<or> (Manager, False) \<in> set (nt_calls w)"
proof -
  let ?w = "\<lparr>nt_connection = None, nt_manager = False, nt_outcomes = outcomes, nt_calls = []\<rparr>"
  have topics: "list_all (\<lambda>t. set (published_topics t) \<subseteq> set (sc_subjects EVENTS_STREAM)) [BOT_TOPICS, SCHEDULED_BOT_TOPICS]"
    by (simp add: published_topics_def EVENTS_STREAM_def BOT_TOPICS_def SCHEDULED_BOT_TOPICS_def)
  show ?thesis
  proof (rule nats_do_cases [of "Connect (nats_servers env)" ?w])
    fix w1 assume c: "nats_do (Connect (nats_servers env)) ?w = (Inr (), w1)"
    let ?w1 = "w1\<lparr>nt_connection := Some False\<rparr>"
    show ?thesis
    proof (rule nats_do_cases [of Manager ?w1])
      fix w2 assume m: "nats_do Manager ?w1 = (Inr (), w2)" "nt_connection w2 = nt_connection ?w1"
      let ?w2 = "w2\<lparr>nt_manager := True\<rparr>"
      have linked: "nats_connect env ?w = (Inr (), ?w2)" using c m(1) by (simp add: nats_connect_def io_bind_run)
      obtain r w3 where s: "setupStreams api_code ?w2 = (Inr r, w3)" "nt_connection w3 = Some False" "is_ok r \<longrightarrow> accepted EVENTS_STREAM w3"
        using setupStreams_answers [of ?w2 api_code] m(2) by auto
      show ?thesis
      proof (cases r)
        case (Ok u)
        then show ?thesis using linked s topics by (simp add: nats_onModuleInit_def io_bind_run nats_isConnected_def)
      next
        case (Failure e)
        show ?thesis
          by (rule nats_do_cases [of CloseConnection w3])
            (use linked s Failure in \<open>simp_all add: nats_onModuleInit_def io_bind_run nats_disconnect_def\<close>)
      qed
    qed (use c in \<open>simp add: nats_onModuleInit_def nats_connect_def io_bind_run\<close>)
  qed (simp add: nats_onModuleInit_def nats_connect_def io_bind_run)
qed

section \<open>Health\<close>

record component_health =
  ch_up :: bool
  ch_error :: "string option"

definition health_of :: "js_error + 'a \<Rightarrow> component_health" where
  "health_of r = (case r of Inr _ \<Rightarrow> \<lparr>ch_up = True, ch_error = None\<rparr> | Inl e \<Rightarrow> \<lparr>ch_up = False, ch_error = Some (errorMessage e)\<rparr>)"

text \<open>The answer of \<open>bucketExists\<close> is not looked at; that of the connection is.\<close>

definition checkPostgres :: "js_error + unit \<Rightarrow> component_health" where
  "checkPostgres query = health_of query"

definition checkMinio :: "js_error + bool \<Rightarrow> component_health" where
  "checkMinio bucketExists = health_of bucketExists"

definition checkNats :: "nats_world \<Rightarrow> component_health" where
  "checkNats w = (if \<not> nats_isConnected w then \<lparr>ch_up = False, ch_error = Some ''Not connected''\<rparr> else \<lparr>ch_up = True, ch_error = None\<rparr>)"

datatype health_status = HealthOk | Degraded | Unhealthy

record health_report =
  hr_status :: health_status
  hr_postgres :: "component_health option"
  hr_nats :: component_health
  hr_minio :: component_health

definition check_database :: "process_env \<Rightarrow> bool" where
  "check_database env \<longleftrightarrow> config_get env ''HEALTH_CHECK_DATABASE'' = Some (JBool True)"

definition getReadiness :: "process_env \<Rightarrow> js_error + unit \<Rightarrow> nats_world \<Rightarrow> js_error + bool \<Rightarrow> health_report" where
  "getReadiness env query w bucketExists =
     (let postgres = (if check_database env then Some (checkPostgres query) else None); nats = checkNats w; minio = checkMinio bucketExists;
          checks = [nats, minio] @ (case postgres of None \<Rightarrow> [] | Some p \<Rightarrow> [p]) in
      \<lparr>hr_status = (if list_all ch_up checks then HealthOk else if list_all (\<lambda>c. \<not> ch_up c) checks then Unhealthy else Degraded),
        hr_postgres = postgres, hr_nats = nats, hr_minio = minio\<rparr>)"

definition readiness_status :: "health_report \<Rightarrow> nat" where
  "readiness_status h = (if hr_status h = HealthOk then 200 else 503)"

text \<open>The probe is green exactly when the broker is connected, the store answers and, if asked for, the database does; a store
  without the bucket is green too.\<close>

lemma ready_iff:
  "readiness_status (getReadiness env query w bucketExists) = 200 \<longleftrightarrow>
     nats_isConnected w \<and> \<not> isl bucketExists \<and> (env ''HEALTH_CHECK_DATABASE'' \<noteq> Some ''true'' \<or> \<not> isl query)"
  by (cases query; cases bucketExists)
    (auto simp: readiness_status_def getReadiness_def checkNats_def checkMinio_def checkPostgres_def health_of_def check_database_def
      config_get_def configuration_def Let_def)

end
