(* ===== verification/CustomBotHooks.thy ===== *)
theory CustomBotHooks
  imports ApiServices SseClient
begin

text \<open>
  The hooks that load custom bots: frontend/src/hooks/custom-bots/ (one request) and hooks/sse/ (a stream with a
  request to fall back on), over the pool of SseClient and the services of ApiServices. A hook is a machine: an event is a change
  of its arguments, an answer, a timer or what the browser reports of a source; after an event React
  renders once and runs the effects whose dependencies changed (\<open>settle_hook\<close>). The services answer (\<open>services_answer\<close>), so the catch
  clauses around them are left out, and the URL of a stream is well formed, so the constructor of a source does not throw.
\<close>

section \<open>What a hook shows\<close>

text \<open>The data of a hook: the empty list or null, what a message brought as it is, or what the service made of an answer.\<close>

datatype 'a shown = Nothing | Streamed json | Fetched 'a

text \<open>\<open>user?.id\<close> as a condition.\<close>

definition signed_in_user :: "browser \<Rightarrow> bool" where
  "signed_in_user b = truthy_value (prop_of (br_user b) ''id'')"

section \<open>One request\<close>

record 'a fetch_hook =
  fh_browser :: browser
  fh_name :: string
  fh_shown :: "'a shown"
  fh_loading :: bool
  fh_error :: json
  fh_pending :: "string list"

definition fetch_hook_start :: "browser \<Rightarrow> string \<Rightarrow> 'a fetch_hook" where
  "fetch_hook_start b name = \<lparr>fh_browser = b, fh_name = name, fh_shown = Nothing, fh_loading = True, fh_error = JNull, fh_pending = []\<rparr>"

definition request_sent :: "'a fetch_hook \<Rightarrow> 'a fetch_hook" where
  "request_sent s = s\<lparr>fh_loading := True, fh_error := JNull, fh_pending := fh_pending s @ [fh_name s]\<rparr>"

definition plain_bots_fetch :: "'a fetch_hook \<Rightarrow> 'a fetch_hook" where
  "plain_bots_fetch s = (if \<not> signed_in_user (fh_browser s) then s\<lparr>fh_shown := Nothing, fh_loading := False\<rparr> else request_sent s)"

definition plain_bots_answer :: "('a, service_error) result \<Rightarrow> 'a fetch_hook \<Rightarrow> 'a fetch_hook" where
  "plain_bots_answer r s = (case r of
      Ok x \<Rightarrow> s\<lparr>fh_shown := Fetched x\<rparr>
    | Failure e \<Rightarrow> s\<lparr>fh_error := se_message e, fh_shown := Nothing\<rparr>)\<lparr>fh_loading := False\<rparr>"

definition plain_bot_fetch :: "'a fetch_hook \<Rightarrow> 'a fetch_hook" where
  "plain_bot_fetch s = (if \<not> signed_in_user (fh_browser s) \<or> fh_name s = []
     then s\<lparr>fh_shown := Nothing, fh_error := JStr ''Missing user or bot name'', fh_loading := False\<rparr> else request_sent s)"

definition plain_bot_answer :: "('a, service_error) result \<Rightarrow> 'a fetch_hook \<Rightarrow> 'a fetch_hook" where
  "plain_bot_answer r s = (case r of
      Ok x \<Rightarrow> s\<lparr>fh_shown := Fetched x\<rparr>
    | Failure e \<Rightarrow> s\<lparr>fh_shown := Nothing, fh_error := (if se_statusCode e = 404 then JStr ''Bot not found'' else se_message e)\<rparr>)\<lparr>fh_loading := False\<rparr>"

datatype 'a fetch_event = SetUser browser | SetName string | Refetch | Answer nat "('a, service_error) result"

text \<open>The dependencies of the fetch are the identifier of the user and the name; a new fetch is run by the effect.\<close>

definition user_ident :: "browser \<Rightarrow> json option" where
  "user_ident b = prop_of (br_user b) ''id''"

fun fetch_step :: "('a fetch_hook \<Rightarrow> 'a fetch_hook) \<Rightarrow> (('a, service_error) result \<Rightarrow> 'a fetch_hook \<Rightarrow> 'a fetch_hook) \<Rightarrow>
    'a fetch_event \<Rightarrow> 'a fetch_hook \<Rightarrow> 'a fetch_hook" where
  "fetch_step fetch answer (SetUser b) s = (if user_ident b = user_ident (fh_browser s) then s\<lparr>fh_browser := b\<rparr> else fetch (s\<lparr>fh_browser := b\<rparr>))"
| "fetch_step fetch answer (SetName n) s = (if n = fh_name s then s else fetch (s\<lparr>fh_name := n\<rparr>))"
| "fetch_step fetch answer Refetch s = fetch s"
| "fetch_step fetch answer (Answer k r) s = (if k < length (fh_pending s)
     then answer r (s\<lparr>fh_pending := take k (fh_pending s) @ drop (Suc k) (fh_pending s)\<rparr>) else s)"

section \<open>Messages of a stream\<close>

datatype stream_call = CallMessage json | CallError | NoCall

text \<open>\<open>onmessage\<close> of the pool on the data of a message; \<open>parse\<close> is \<open>JSON.parse\<close>, None where it throws.\<close>

definition onmessage :: "(string \<Rightarrow> json option) \<Rightarrow> string \<Rightarrow> stream_call" where
  "onmessage parse s = (case parse s of
      None \<Rightarrow> CallError
    | Some v \<Rightarrow> if v = JNull then CallError
        else if prop_of (Some v) ''type'' = Some (JStr ''update'') then
          (case prop_of (Some v) ''data'' of Some d \<Rightarrow> if json_truthy d then CallMessage d else NoCall | None \<Rightarrow> NoCall)
        else if prop_of (Some v) ''type'' = Some (JStr ''error'') then CallError else NoCall)"

section \<open>The state of a hook over a stream\<close>

text \<open>
  First the state of \<open>useSSEClient\<close>, then of the hook that uses it. \<open>hk_handlers\<close> are the values of \<open>initialLoadComplete\<close> and \<open>error\<close>
  which the handlers of the present connection have captured; \<open>hk_fallback\<close>: the timer to the first request is set.
\<close>

record 'a stream_hook =
  hk_browser :: browser
  hk_name :: string
  hk_pool :: sse_client
  hk_disconnectRef :: "string option"
  hk_connected :: bool
  hk_connecting :: bool
  hk_sse_error :: "string option"
  hk_retryCount :: nat
  hk_lastUpdate :: "int option"
  hk_shown :: "'a shown"
  hk_loading :: bool
  hk_error :: json
  hk_initialLoadComplete :: bool
  hk_handlers :: "bool \<times> json"
  hk_fallback :: bool
  hk_pending :: "string list"

definition stream_hook_start :: "browser \<Rightarrow> string \<Rightarrow> 'a stream_hook" where
  "stream_hook_start b name = \<lparr>hk_browser = b, hk_name = name, hk_pool = new_client, hk_disconnectRef = None, hk_connected = False,
     hk_connecting = False, hk_sse_error = None, hk_retryCount = 0, hk_lastUpdate = None, hk_shown = Nothing, hk_loading = True,
     hk_error = JNull, hk_initialLoadComplete = False, hk_handlers = (False, JNull), hk_fallback = False, hk_pending = []\<rparr>"

text \<open>What differs between the two hooks over a stream.\<close>

record 'a hook_kind =
  kd_enabled :: "browser \<Rightarrow> string \<Rightarrow> bool"
  kd_endpoint :: "string \<Rightarrow> string"
  kd_options :: sse_options
  kd_message :: "bool \<Rightarrow> json \<Rightarrow> 'a stream_hook \<Rightarrow> 'a stream_hook"
  kd_error :: "bool \<Rightarrow> 'a stream_hook \<Rightarrow> 'a stream_hook"
  kd_connected :: "json \<Rightarrow> 'a stream_hook \<Rightarrow> 'a stream_hook"
  kd_fetch :: "'a stream_hook \<Rightarrow> 'a stream_hook"
  kd_answer :: "string \<Rightarrow> ('a, service_error) result \<Rightarrow> 'a stream_hook \<Rightarrow> 'a stream_hook"
  kd_missing :: "'a stream_hook \<Rightarrow> 'a stream_hook"

section \<open>useSSEClient\<close>

text \<open>The handlers of a source; \<open>handleSSEAuthError\<close> only logs an event of the browser (\<open>handleSSEAuthError None\<close>).\<close>

definition handleMessage :: "'a hook_kind \<Rightarrow> int \<Rightarrow> json \<Rightarrow> 'a stream_hook \<Rightarrow> 'a stream_hook" where
  "handleMessage k now d s = kd_message k (fst (hk_handlers s)) d (s\<lparr>hk_lastUpdate := Some now, hk_sse_error := None\<rparr>)"

definition handleOpen :: "'a hook_kind \<Rightarrow> 'a stream_hook \<Rightarrow> 'a stream_hook" where
  "handleOpen k s = kd_connected k (snd (hk_handlers s))
     (s\<lparr>hk_connected := True, hk_connecting := False, hk_sse_error := None, hk_retryCount := 0\<rparr>)"

definition handleStreamError :: "'a hook_kind \<Rightarrow> 'a stream_hook \<Rightarrow> 'a stream_hook" where
  "handleStreamError k s = kd_error k (fst (hk_handlers s))
     (s\<lparr>hk_connected := False, hk_connecting := False, hk_sse_error := Some ''Connection error occurred'', hk_retryCount := Suc (hk_retryCount s)\<rparr>)"

text \<open>\<open>if (disconnectRef.current)\<close> of \<open>connect\<close>, of \<open>disconnect\<close> and of the clean-up of the effect.\<close>

definition release :: "'a stream_hook \<Rightarrow> 'a stream_hook" where
  "release s = (case hk_disconnectRef s of None \<Rightarrow> s
     | Some url \<Rightarrow> s\<lparr>hk_pool := disconnect url (hk_pool s), hk_disconnectRef := None\<rparr>)"

definition hook_connect :: "'a hook_kind \<Rightarrow> 'a stream_hook \<Rightarrow> 'a stream_hook" where
  "hook_connect k s =
     (if br_user (hk_browser s) = None \<or> \<not> kd_enabled k (hk_browser s) (hk_name s)
      then s\<lparr>hk_connecting := False, hk_sse_error := (if br_user (hk_browser s) = None then Some ''Authentication required'' else None)\<rparr>
      else (let s1 = s\<lparr>hk_connecting := True, hk_sse_error := None\<rparr> in
        case validateSSEAuth (hk_browser s) of
          Failure e \<Rightarrow> s1\<lparr>hk_connecting := False, hk_sse_error := Some e\<rparr>
        | Ok _ \<Rightarrow> (case createAuthenticatedSSEUrl (hk_browser s) (kd_endpoint k (hk_name s)) None of
            Failure e \<Rightarrow> s1\<lparr>hk_connecting := False, hk_sse_error := Some e\<rparr>
          | Ok url \<Rightarrow> (let s2 = release s1 in
              s2\<lparr>hk_pool := connect url (kd_options k) True (hk_pool s2), hk_disconnectRef := Some url,
                 hk_handlers := (hk_initialLoadComplete s, hk_error s)\<rparr>))))"

definition hook_disconnect :: "'a stream_hook \<Rightarrow> 'a stream_hook" where
  "hook_disconnect s = (release s)\<lparr>hk_connected := False, hk_connecting := False, hk_sse_error := None\<rparr>"

text \<open>100 ms lie between the two.\<close>

definition hook_reconnect :: "'a hook_kind \<Rightarrow> 'a stream_hook \<Rightarrow> 'a stream_hook" where
  "hook_reconnect k s = hook_connect k (hook_disconnect s)"

text \<open>\<open>getConnectionState\<close>: the state of the pool, or the reason that there is no URL.\<close>

definition hook_connection_state :: "'a hook_kind \<Rightarrow> 'a stream_hook \<Rightarrow> (bool \<times> nat, string) result" where
  "hook_connection_state k s = (case createAuthenticatedSSEUrl (hk_browser s) (kd_endpoint k (hk_name s)) None of
      Failure e \<Rightarrow> Failure e | Ok url \<Rightarrow> Ok (getConnectionState (hk_pool s) url))"

text \<open>The effect with its clean-up, once its dependencies changed.\<close>

definition connect_effect :: "'a hook_kind \<Rightarrow> 'a stream_hook \<Rightarrow> 'a stream_hook" where
  "connect_effect k s = (let s1 = release s in
     if kd_enabled k (hk_browser s) (hk_name s) \<and> br_user (hk_browser s) \<noteq> None then hook_connect k s1 else s1)"

section \<open>The list of bots\<close>

definition unavailable :: json where
  "unavailable = JStr ''Real-time updates temporarily unavailable''"

definition first_load :: "bool \<Rightarrow> 'a stream_hook \<Rightarrow> 'a stream_hook" where
  "first_load loaded s = (if loaded then s else s\<lparr>hk_loading := False, hk_initialLoadComplete := True\<rparr>)"

definition bots_message :: "bool \<Rightarrow> json \<Rightarrow> 'a stream_hook \<Rightarrow> 'a stream_hook" where
  "bots_message loaded d s = first_load loaded (s\<lparr>hk_shown := Streamed d, hk_error := JNull\<rparr>)"

definition bots_missing :: "'a stream_hook \<Rightarrow> 'a stream_hook" where
  "bots_missing s = s\<lparr>hk_shown := Nothing, hk_loading := False, hk_initialLoadComplete := True\<rparr>"

definition bots_fetch :: "'a stream_hook \<Rightarrow> 'a stream_hook" where
  "bots_fetch s = (if \<not> signed_in_user (hk_browser s) then bots_missing s
     else s\<lparr>hk_loading := True, hk_error := JNull, hk_pending := hk_pending s @ [hk_name s]\<rparr>)"

definition bots_answer :: "string \<Rightarrow> ('a, service_error) result \<Rightarrow> 'a stream_hook \<Rightarrow> 'a stream_hook" where
  "bots_answer name r s = (case r of
      Ok x \<Rightarrow> s\<lparr>hk_shown := Fetched x, hk_initialLoadComplete := True\<rparr>
    | Failure e \<Rightarrow> s\<lparr>hk_error := se_message e, hk_shown := Nothing\<rparr>)\<lparr>hk_loading := False\<rparr>"

definition bots_error :: "bool \<Rightarrow> 'a stream_hook \<Rightarrow> 'a stream_hook" where
  "bots_error loaded s = (if \<not> loaded then bots_fetch s else s\<lparr>hk_error := unavailable\<rparr>)"

definition bots_connected :: "json \<Rightarrow> 'a stream_hook \<Rightarrow> 'a stream_hook" where
  "bots_connected err s = (if err = unavailable then s\<lparr>hk_error := JNull\<rparr> else s)"

definition bots_hook :: "'a hook_kind" where
  "bots_hook = \<lparr>kd_enabled = (\<lambda>b name. signed_in_user b), kd_endpoint = (\<lambda>name. ''/api/custom-bots/stream''),
     kd_options = \<lparr>op_maxReconnectAttempts = 5, op_reconnectDelay = 3000\<rparr>, kd_message = bots_message, kd_error = bots_error,
     kd_connected = bots_connected, kd_fetch = bots_fetch, kd_answer = bots_answer, kd_missing = bots_missing\<rparr>"

section \<open>One bot\<close>

text \<open>\<open>data.data || data\<close>, and the check of its name.\<close>

definition bot_of_message :: "json \<Rightarrow> json" where
  "bot_of_message d = value_or (prop_of (Some d) ''data'') d"

definition bot_message :: "string \<Rightarrow> bool \<Rightarrow> json \<Rightarrow> 'a stream_hook \<Rightarrow> 'a stream_hook" where
  "bot_message name loaded d s = (let v = bot_of_message d; n = prop_of (Some v) ''name'' in
     if json_truthy v \<and> (n = Some (JStr name) \<or> \<not> truthy_value n)
     then first_load loaded (s\<lparr>hk_shown := Streamed v, hk_error := JNull\<rparr>) else s)"

definition bot_missing :: "'a stream_hook \<Rightarrow> 'a stream_hook" where
  "bot_missing s = s\<lparr>hk_shown := Nothing,
     hk_error := JStr (if \<not> signed_in_user (hk_browser s) then ''Authentication required'' else ''Bot name is required''),
     hk_loading := False, hk_initialLoadComplete := True\<rparr>"

definition bot_fetch :: "'a stream_hook \<Rightarrow> 'a stream_hook" where
  "bot_fetch s = (if \<not> signed_in_user (hk_browser s) \<or> hk_name s = [] then bot_missing s
     else s\<lparr>hk_loading := True, hk_error := JNull, hk_pending := hk_pending s @ [hk_name s]\<rparr>)"

definition bot_failure :: "string \<Rightarrow> service_error \<Rightarrow> json" where
  "bot_failure name e = (if se_statusCode e = 404 then JStr (''Bot '' @ [CHR 0x27] @ name @ [CHR 0x27] @ '' not found'')
     else if se_statusCode e = 401 then JStr ''Unauthorized access to bot''
     else if se_statusCode e = 403 then JStr ''Access forbidden for this bot'' else se_message e)"

definition bot_answer :: "string \<Rightarrow> ('a, service_error) result \<Rightarrow> 'a stream_hook \<Rightarrow> 'a stream_hook" where
  "bot_answer name r s = (case r of
      Ok x \<Rightarrow> s\<lparr>hk_shown := Fetched x, hk_initialLoadComplete := True\<rparr>
    | Failure e \<Rightarrow> s\<lparr>hk_shown := Nothing, hk_error := bot_failure name e\<rparr>)\<lparr>hk_loading := False\<rparr>"

definition bot_error :: "bool \<Rightarrow> 'a stream_hook \<Rightarrow> 'a stream_hook" where
  "bot_error loaded s = (if \<not> loaded then bot_fetch s else s\<lparr>hk_error := unavailable\<rparr>)"

definition bot_connected :: "json \<Rightarrow> 'a stream_hook \<Rightarrow> 'a stream_hook" where
  "bot_connected err s = (if err = unavailable then s\<lparr>hk_error := JNull\<rparr> else s)"

text \<open>The handlers of a connection have captured the name it was opened for, which is the name of the hook (\<open>stream_hook_ok\<close>).\<close>

definition bot_hook :: "'a hook_kind" where
  "bot_hook = \<lparr>kd_enabled = (\<lambda>b name. signed_in_user b \<and> name \<noteq> []),
     kd_endpoint = (\<lambda>name. ''/api/custom-bots/'' @ encodeURIComponent name @ ''/stream''),
     kd_options = \<lparr>op_maxReconnectAttempts = 5, op_reconnectDelay = 2000\<rparr>,
     kd_message = (\<lambda>loaded d s. bot_message (hk_name s) loaded d s), kd_error = bot_error,
     kd_connected = bot_connected, kd_fetch = bot_fetch, kd_answer = bot_answer, kd_missing = bot_missing\<rparr>"

section \<open>Rendering and effects\<close>

text \<open>
  The handlers change with \<open>initialLoadComplete\<close>, \<open>error\<close> and the name, and \<open>connect\<close> with them or with the object of the user
  (\<open>renewed\<close>). The effect of the fall-back depends on the identifier, the name, \<open>initialLoadComplete\<close> and
  \<open>connected\<close>; all clean-ups run before the effects. What \<open>kd_missing\<close> sets makes the effects run once more, to the
  same state (\<open>settle_hook_settled\<close>).
\<close>

definition handlers_changed :: "bool \<Rightarrow> 'a stream_hook \<Rightarrow> 'a stream_hook \<Rightarrow> bool" where
  "handlers_changed renewed old s \<longleftrightarrow> renewed \<or> hk_initialLoadComplete old \<noteq> hk_initialLoadComplete s
     \<or> hk_name old \<noteq> hk_name s \<or> hk_error old \<noteq> hk_error s"

definition fallback_changed :: "bool \<Rightarrow> 'a stream_hook \<Rightarrow> 'a stream_hook \<Rightarrow> bool" where
  "fallback_changed renewed old s \<longleftrightarrow> renewed \<and> user_ident (hk_browser old) \<noteq> user_ident (hk_browser s)
     \<or> hk_initialLoadComplete old \<noteq> hk_initialLoadComplete s \<or> hk_name old \<noteq> hk_name s \<or> hk_connected old \<noteq> hk_connected s"

definition fallback_effect :: "'a hook_kind \<Rightarrow> 'a stream_hook \<Rightarrow> 'a stream_hook" where
  "fallback_effect k s = (if kd_enabled k (hk_browser s) (hk_name s) then s\<lparr>hk_fallback := True\<rparr> else kd_missing k (s\<lparr>hk_fallback := False\<rparr>))"

definition settle_hook :: "'a hook_kind \<Rightarrow> bool \<Rightarrow> 'a stream_hook \<Rightarrow> 'a stream_hook \<Rightarrow> 'a stream_hook" where
  "settle_hook k renewed old s =
     (let s1 = (if handlers_changed renewed old s then connect_effect k s else s)
      in if fallback_changed renewed old s then fallback_effect k s1 else s1)"

definition mount_hook :: "'a hook_kind \<Rightarrow> browser \<Rightarrow> string \<Rightarrow> 'a stream_hook" where
  "mount_hook k b name = fallback_effect k (connect_effect k (stream_hook_start b name))"

datatype 'a hook_event =
    UserChanged browser
  | NameChanged string
  | StreamOpened nat
  | StreamFailed nat
  | StreamMessage nat string int
  | RetryDue nat
  | FallbackDue
  | FetchDone nat "('a, service_error) result"
  | RefetchClicked

definition stream_call_of :: "'a hook_kind \<Rightarrow> int \<Rightarrow> stream_call \<Rightarrow> 'a stream_hook \<Rightarrow> 'a stream_hook" where
  "stream_call_of k now c s = (case c of CallMessage d \<Rightarrow> handleMessage k now d s | CallError \<Rightarrow> handleStreamError k s | NoCall \<Rightarrow> s)"

text \<open>An event before its effects.\<close>

fun hook_event_of :: "(string \<Rightarrow> json option) \<Rightarrow> 'a hook_kind \<Rightarrow> 'a hook_event \<Rightarrow> 'a stream_hook \<Rightarrow> 'a stream_hook" where
  "hook_event_of parse k (UserChanged b) s = s\<lparr>hk_browser := b\<rparr>"
| "hook_event_of parse k (NameChanged n) s = s\<lparr>hk_name := n\<rparr>"
| "hook_event_of parse k (StreamOpened i) s =
     (if live_source (hk_pool s) i = None then s else handleOpen k (s\<lparr>hk_pool := sse_step (Opened i) (hk_pool s)\<rparr>))"
| "hook_event_of parse k (StreamFailed i) s =
     (if live_source (hk_pool s) i = None then s else handleStreamError k (s\<lparr>hk_pool := sse_step (Errored i) (hk_pool s)\<rparr>))"
| "hook_event_of parse k (StreamMessage i text now) s =
     (if live_source (hk_pool s) i = None then s else stream_call_of k now (onmessage parse text) s)"
| "hook_event_of parse k (RetryDue j) s = s\<lparr>hk_pool := sse_step (Fired j True) (hk_pool s)\<rparr>"
| "hook_event_of parse k FallbackDue s = (if \<not> hk_fallback s then s
     else (if \<not> hk_initialLoadComplete s \<and> \<not> hk_connected s then kd_fetch k else (\<lambda>s. s)) (s\<lparr>hk_fallback := False\<rparr>))"
| "hook_event_of parse k (FetchDone n r) s = (if n < length (hk_pending s)
     then kd_answer k (hk_pending s ! n) r (s\<lparr>hk_pending := take n (hk_pending s) @ drop (Suc n) (hk_pending s)\<rparr>) else s)"
| "hook_event_of parse k RefetchClicked s = kd_fetch k s"

fun renews :: "'a hook_event \<Rightarrow> bool" where
  "renews (UserChanged b) = True"
| "renews e = False"

definition hook_step :: "(string \<Rightarrow> json option) \<Rightarrow> 'a hook_kind \<Rightarrow> 'a hook_event \<Rightarrow> 'a stream_hook \<Rightarrow> 'a stream_hook" where
  "hook_step parse k e s = settle_hook k (renews e) s (hook_event_of parse k e s)"

fun hook_run :: "(string \<Rightarrow> json option) \<Rightarrow> 'a hook_kind \<Rightarrow> 'a hook_event list \<Rightarrow> 'a stream_hook \<Rightarrow> 'a stream_hook" where
  "hook_run parse k [] s = s"
| "hook_run parse k (e # es) s = hook_run parse k es (hook_step parse k e s)"


section \<open>The pool under a hook\<close>

text \<open>A URL is in use by a source or by a timer that will open one.\<close>

definition in_use :: "sse_client \<Rightarrow> string \<Rightarrow> bool" where
  "in_use p url \<longleftrightarrow> connection p url \<noteq> None \<or> sc_timeouts p url \<noteq> None"

lemma in_use_disconnect [simp]: "in_use (disconnect u p) url \<longleftrightarrow> url \<noteq> u \<and> in_use p url"
  by (simp add: in_use_def disconnect_fields)

lemma in_use_open_source: "in_use (open_source u opts ok p) url \<Longrightarrow> url = u \<or> in_use p url"
  by (auto simp: in_use_def open_source_def connection_def Let_def update_conv' split: if_splits)

lemma in_use_connect: "in_use (connect u opts ok p) url \<Longrightarrow> url = u \<or> in_use p url"
  using in_use_open_source unfolding connect_def by (metis in_use_disconnect)

lemma in_use_opened: "in_use (sse_step (Opened i) p) url \<Longrightarrow> in_use p url"
  by (auto simp: in_use_def onopen_def connection_def set_ready_def split: option.splits)

lemma in_use_errored: "pool_ok p \<Longrightarrow> in_use (sse_step (Errored i) p) url \<Longrightarrow> in_use p url"
proof (cases "live_source p i")
  case (Some x)
  assume "pool_ok p" "in_use (sse_step (Errored i) p) url"
  moreover from this(1) have "in_use p (es_url x)" using pool_okD(1) [OF _ Some] by (simp add: in_use_def)
  ultimately show ?thesis
    using Some by (auto simp: in_use_def onerror_def connection_def set_ready_def delete_conv' Let_def split: if_splits)
qed simp

lemma in_use_fired: "pool_ok p \<Longrightarrow> in_use (sse_step (Fired j ok) p) url \<Longrightarrow> in_use p url"
proof (cases "sc_timers p j")
  case (Some t)
  assume ok: "pool_ok p" and u: "in_use (sse_step (Fired j ok) p) url"
  from ok have "in_use p (rt_url t)" using pool_okD(4) [OF _ Some] by (simp add: in_use_def)
  moreover have "in_use (open_source (rt_url t) (rt_options t) ok
      (p\<lparr>sc_timers := (sc_timers p)(j := None), sc_timeouts := (sc_timeouts p)(rt_url t := None)\<rparr>)) url"
    using u Some by (simp add: timer_fires_def)
  ultimately show ?thesis
    using in_use_open_source by (fastforce simp: in_use_def connection_def split: if_splits)
qed simp

lemma live_in_use: "pool_ok p \<Longrightarrow> live_source p i = Some x \<Longrightarrow> in_use p (es_url x)"
  using pool_okD(1) by (fastforce simp: in_use_def)

lemma timer_in_use: "pool_ok p \<Longrightarrow> sc_timers p j = Some t \<Longrightarrow> in_use p (rt_url t)"
  using pool_okD(4) by (fastforce simp: in_use_def)

section \<open>What the two hooks promise to useSSEClient\<close>

definition same_connection :: "'a stream_hook \<Rightarrow> 'a stream_hook \<Rightarrow> bool" where
  "same_connection s t \<longleftrightarrow> hk_browser t = hk_browser s \<and> hk_name t = hk_name s \<and> hk_pool t = hk_pool s
     \<and> hk_disconnectRef t = hk_disconnectRef s \<and> hk_handlers t = hk_handlers s \<and> hk_connected t = hk_connected s
     \<and> hk_fallback t = hk_fallback s"

definition keeps_loaded :: "'a stream_hook \<Rightarrow> 'a stream_hook \<Rightarrow> bool" where
  "keeps_loaded s t \<longleftrightarrow> (hk_initialLoadComplete s \<longrightarrow> hk_initialLoadComplete t)"

abbreviation handler_ok :: "('a stream_hook \<Rightarrow> 'a stream_hook) \<Rightarrow> bool" where
  "handler_ok f \<equiv> (\<forall>s. same_connection s (f s) \<and> keeps_loaded s (f s))"

locale hook_laws =
  fixes k :: "'a hook_kind"
  assumes handlers: "handler_ok (kd_message k l d)" "handler_ok (kd_error k l)" "handler_ok (kd_connected k err)"
      "handler_ok (kd_fetch k)" "handler_ok (kd_answer k name r)" "handler_ok (kd_missing k)"
    and missing_idem: "kd_missing k (kd_missing k s) = kd_missing k s"
    and missing_loaded: "hk_initialLoadComplete (kd_missing k s)"
    and enabled_user: "kd_enabled k b name \<Longrightarrow> br_user b \<noteq> None"

lemmas handler_simps = same_connection_def keeps_loaded_def bots_message_def bots_error_def bots_connected_def bots_fetch_def
  bots_answer_def bots_missing_def first_load_def bot_message_def bot_error_def bot_connected_def bot_fetch_def bot_answer_def
  bot_missing_def

lemma signed_in_user_some: "signed_in_user b \<Longrightarrow> br_user b \<noteq> None"
  by (cases "br_user b") (simp_all add: signed_in_user_def prop_of_def)

definition held :: "'a stream_hook \<Rightarrow> bool" where
  "held s \<longleftrightarrow> pool_ok (hk_pool s) \<and> (\<forall>url. in_use (hk_pool s) url \<longrightarrow> hk_disconnectRef s = Some url)"

text \<open>Only the URL of the present name is in use, and its handlers have captured the present values.\<close>

definition stream_hook_ok :: "'a hook_kind \<Rightarrow> 'a stream_hook \<Rightarrow> bool" where
  "stream_hook_ok k s \<longleftrightarrow> held s \<and> (hk_disconnectRef s \<noteq> None \<longrightarrow> kd_enabled k (hk_browser s) (hk_name s)) \<and> (\<forall>url. in_use (hk_pool s) url \<longrightarrow>
     kd_enabled k (hk_browser s) (hk_name s) \<and> url = kd_endpoint k (hk_name s)
     \<and> hk_handlers s = (hk_initialLoadComplete s, hk_error s))"

lemma held_unused: "held s \<Longrightarrow> \<not> in_use (hk_pool (release s)) url"
  by (auto simp: held_def release_def split: option.split)

lemma release_fields [simp]:
  "hk_browser (release s) = hk_browser s" "hk_name (release s) = hk_name s" "hk_shown (release s) = hk_shown s"
  "hk_initialLoadComplete (release s) = hk_initialLoadComplete s" "hk_error (release s) = hk_error s"
  "hk_loading (release s) = hk_loading s" "hk_connected (release s) = hk_connected s" "hk_pending (release s) = hk_pending s"
  "hk_fallback (release s) = hk_fallback s" "hk_disconnectRef (release s) = None" "release (release s) = release s"
  by (auto simp: release_def split: option.split)

lemma release_pool_ok: "pool_ok (hk_pool s) \<Longrightarrow> pool_ok (hk_pool (release s))"
  by (simp add: release_def disconnect_ok split: option.split)

lemma connect_ok: "pool_ok p \<Longrightarrow> pool_ok (connect url opts ok p)"
  by (simp add: connect_def open_source_ok disconnect_ok disconnect_fields)

text \<open>What the hook itself shows is not touched by \<open>connect\<close>.\<close>

definition same_page :: "'a stream_hook \<Rightarrow> 'a stream_hook \<Rightarrow> bool" where
  "same_page s t \<longleftrightarrow> hk_browser t = hk_browser s \<and> hk_name t = hk_name s \<and> hk_shown t = hk_shown s \<and> hk_loading t = hk_loading s
     \<and> hk_error t = hk_error s \<and> hk_initialLoadComplete t = hk_initialLoadComplete s \<and> hk_connected t = hk_connected s
     \<and> hk_fallback t = hk_fallback s \<and> hk_pending t = hk_pending s"

lemma connect_page: "same_page s (hook_connect k s)" "same_page s (connect_effect k s)"
proof -
  show "same_page s (hook_connect k s)" for s :: "'a stream_hook"
    by (simp add: same_page_def hook_connect_def Let_def split: result.split)
  from this [of "release s"] show "same_page s (connect_effect k s)"
    by (simp add: connect_effect_def Let_def same_page_def)
qed

lemma release_none: "hk_disconnectRef s = None \<Longrightarrow> release s = s"
  by (simp add: release_def)

definition can_connect :: "'a hook_kind \<Rightarrow> 'a stream_hook \<Rightarrow> bool" where
  "can_connect k s \<longleftrightarrow> kd_enabled k (hk_browser s) (hk_name s) \<and> br_user (hk_browser s) \<noteq> None
     \<and> br_ready (hk_browser s) \<and> truthy_opt (br_stored (hk_browser s))"

lemma connect_effect_fields:
  "hk_pool (connect_effect k s) =
     (if can_connect k s then connect (kd_endpoint k (hk_name s)) (kd_options k) True (hk_pool (release s)) else hk_pool (release s))"
  "hk_disconnectRef (connect_effect k s) = (if can_connect k s then Some (kd_endpoint k (hk_name s)) else None)"
  "can_connect k s \<Longrightarrow> hk_handlers (connect_effect k s) = (hk_initialLoadComplete s, hk_error s)"
  by (auto simp: connect_effect_def hook_connect_def Let_def validateSSEAuth_def createAuthenticatedSSEUrl_def when_signed_in_def
      sse_token_def or_else_def can_connect_def release_none)

lemma connect_effect_ok:
  assumes "held s"
  shows "stream_hook_ok k (connect_effect k s)"
proof -
  have same: "hk_browser (connect_effect k s) = hk_browser s" "hk_name (connect_effect k s) = hk_name s"
    "hk_initialLoadComplete (connect_effect k s) = hk_initialLoadComplete s" "hk_error (connect_effect k s) = hk_error s"
    using connect_page(2) [of s k] by (simp_all add: same_page_def)
  have pool: "pool_ok (hk_pool (release s))" using assms by (simp add: held_def release_pool_ok)
  have use: "in_use (hk_pool (connect_effect k s)) url \<Longrightarrow> can_connect k s \<and> url = kd_endpoint k (hk_name s)" for url
    using in_use_connect held_unused [OF assms] by (fastforce simp: connect_effect_fields(1) split: if_splits)
  have "pool_ok (hk_pool (connect_effect k s))" by (simp add: connect_effect_fields(1) connect_ok pool)
  moreover have "in_use (hk_pool (connect_effect k s)) url \<Longrightarrow> hk_disconnectRef (connect_effect k s) = Some url
      \<and> kd_enabled k (hk_browser s) (hk_name s) \<and> hk_handlers (connect_effect k s) = (hk_initialLoadComplete s, hk_error s)" for url
    using use [of url] by (simp add: connect_effect_fields(2,3)) (simp add: can_connect_def)
  moreover have "hk_disconnectRef (connect_effect k s) \<noteq> None \<Longrightarrow> kd_enabled k (hk_browser s) (hk_name s)"
    by (simp add: connect_effect_fields(2) can_connect_def split: if_splits)
  ultimately show ?thesis
    using use unfolding stream_hook_ok_def held_def same by blast
qed

text \<open>What an event leaves to the effects.\<close>

definition follows :: "bool \<Rightarrow> 'a stream_hook \<Rightarrow> 'a stream_hook \<Rightarrow> bool" where
  "follows renewed s t \<longleftrightarrow> pool_ok (hk_pool t) \<and> (\<forall>url. in_use (hk_pool t) url \<longrightarrow> in_use (hk_pool s) url)
     \<and> hk_handlers t = hk_handlers s \<and> hk_disconnectRef t = hk_disconnectRef s \<and> (renewed \<or> hk_browser t = hk_browser s)"

context hook_laws
begin

lemma effects_ok:
  assumes "follows renewed old s" "stream_hook_ok k old"
  defines "s1 \<equiv> (if handlers_changed renewed old s then connect_effect k s else s)"
  shows "stream_hook_ok k s1" "same_page s s1"
proof -
  show "same_page s s1" using connect_page(2) [of s k] by (auto simp: s1_def same_page_def)
  have held: "held s" using assms(1,2) by (simp add: follows_def held_def stream_hook_ok_def)
  show "stream_hook_ok k s1"
  proof (cases "handlers_changed renewed old s")
    case True
    then show ?thesis by (simp add: s1_def connect_effect_ok [OF held])
  next
    case False
    then have "s1 = s" "hk_browser s = hk_browser old" "hk_name s = hk_name old" "hk_error s = hk_error old"
      "hk_initialLoadComplete s = hk_initialLoadComplete old" "hk_disconnectRef s = hk_disconnectRef old"
      "hk_handlers s = hk_handlers old" "\<And>url. in_use (hk_pool s) url \<Longrightarrow> in_use (hk_pool old) url"
      using assms(1) by (simp_all add: s1_def follows_def handlers_changed_def)
    then show ?thesis using held assms(2) unfolding stream_hook_ok_def by (simp, metis)
  qed
qed

lemma fallback_ok:
  assumes "stream_hook_ok k s"
  shows "stream_hook_ok k (fallback_effect k s)"
proof (cases "kd_enabled k (hk_browser s) (hk_name s)")
  case True
  then show ?thesis using assms by (simp add: fallback_effect_def stream_hook_ok_def held_def)
next
  case False
  then have "\<not> in_use (hk_pool s) url" for url using assms by (auto simp: stream_hook_ok_def)
  then show ?thesis using False assms handlers(6) by (simp add: fallback_effect_def stream_hook_ok_def held_def same_connection_def)
qed

lemma settle_hook_ok: "follows renewed old s \<Longrightarrow> stream_hook_ok k old \<Longrightarrow> stream_hook_ok k (settle_hook k renewed old s)"
  unfolding settle_hook_def Let_def
  by (cases "fallback_changed renewed old s") (simp_all only: if_True if_False effects_ok fallback_ok)

lemma mounted_hook_ok: "stream_hook_ok k (mount_hook k b name)"
proof -
  have "held (stream_hook_start b name :: 'a stream_hook)"
    by (simp add: held_def stream_hook_start_def new_client_ok in_use_def) (simp add: new_client_def connection_def)
  then show ?thesis unfolding mount_hook_def by (intro fallback_ok connect_effect_ok)
qed

text \<open>The effects that the effects cause change nothing more.\<close>

lemma settle_hook_settled:
  assumes "follows renewed old s" "stream_hook_ok k old"
  shows "settle_hook k False s (settle_hook k renewed old s) = settle_hook k renewed old s"
proof -
  define s1 where "s1 = (if handlers_changed renewed old s then connect_effect k s else s)"
  note e = effects_ok [OF assms, folded s1_def]
  define t where "t = settle_hook k renewed old s"
  then have t: "t = (if fallback_changed renewed old s then fallback_effect k s1 else s1)"
    by (simp add: settle_hook_def s1_def Let_def)
  consider (same) "\<not> handlers_changed False s t" "\<not> fallback_changed False s t"
    | (missing) "\<not> kd_enabled k (hk_browser s1) (hk_name s1)" "t = kd_missing k (s1\<lparr>hk_fallback := False\<rparr>)"
  proof (cases "fallback_changed renewed old s \<and> \<not> kd_enabled k (hk_browser s1) (hk_name s1)")
    case True
    then show ?thesis using missing by (simp add: t fallback_effect_def)
  next
    case False
    then have "t = s1 \<or> t = s1\<lparr>hk_fallback := True\<rparr>" by (simp add: t fallback_effect_def)
    then show ?thesis using same e(2) by (auto simp: handlers_changed_def fallback_changed_def same_page_def)
  qed
  then have "settle_hook k False s t = t"
  proof cases
    case same
    then show ?thesis by (simp add: settle_hook_def)
  next
    case missing
    have keep: "same_connection (s1\<lparr>hk_fallback := False\<rparr>) t" "kd_missing k t = t"
      using handlers(6) by (simp_all add: missing(2) missing_idem)
    have off: "\<not> kd_enabled k (hk_browser t) (hk_name t)" "hk_disconnectRef t = None" "hk_fallback t = False"
      using keep(1) missing(1) e by (auto simp: same_connection_def same_page_def stream_hook_ok_def)
    then have "connect_effect k t = t" by (simp add: connect_effect_def release_none)
    moreover have "t\<lparr>hk_fallback := False\<rparr> = t" using off(3) by simp
    ultimately show ?thesis using off(1) keep(2) by (simp add: settle_hook_def fallback_effect_def Let_def)
  qed
  then show ?thesis by (simp add: t_def)
qed

lemma follows_handler: "handler_ok f \<Longrightarrow> follows r s t \<Longrightarrow> follows r s (f t)"
  by (simp add: follows_def same_connection_def)

lemma follows_stream_handlers:
  assumes "follows r s t"
  shows "follows r s (handleOpen k t)" "follows r s (handleStreamError k t)" "follows r s (handleMessage k now d t)"
    "follows r s (stream_call_of k now c t)"
proof -
  have "follows r s (t\<lparr>hk_connected := a, hk_connecting := b, hk_sse_error := e, hk_retryCount := n\<rparr>)"
    "follows r s (t\<lparr>hk_lastUpdate := l, hk_sse_error := e\<rparr>)" for a b e n l
    using assms by (simp_all add: follows_def)
  note fields = this
  show "follows r s (handleOpen k t)" unfolding handleOpen_def by (rule follows_handler [OF handlers(3) fields(1)])
  show "follows r s (handleStreamError k t)" unfolding handleStreamError_def by (rule follows_handler [OF handlers(2) fields(1)])
  moreover have message: "follows r s (handleMessage k now d t)" for d
    unfolding handleMessage_def by (rule follows_handler [OF handlers(1) fields(2)])
  then show "follows r s (handleMessage k now d t)" .
  ultimately show "follows r s (stream_call_of k now c t)"
    using assms message by (simp add: stream_call_of_def split: stream_call.split)
qed

lemma hook_event_follows:
  assumes "stream_hook_ok k s"
  shows "follows (renews e) s (hook_event_of parse k e s)"
proof -
  have pool: "pool_ok (hk_pool s)" using assms by (simp add: stream_hook_ok_def held_def)
  have pool_step: "follows r s (s\<lparr>hk_pool := sse_step ev (hk_pool s)\<rparr>)"
    if "\<And>url. in_use (sse_step ev (hk_pool s)) url \<Longrightarrow> in_use (hk_pool s) url" for r ev
    using that by (simp add: follows_def sse_step_ok pool)
  note steps = pool_step [OF in_use_opened] pool_step [OF in_use_errored [OF pool]] pool_step [OF in_use_fired [OF pool]]
  have self: "follows r s s" "follows r s (s\<lparr>hk_fallback := b\<rparr>)" "follows r s (s\<lparr>hk_pending := p\<rparr>)" for r b p
    using pool by (simp_all add: follows_def)
  show ?thesis
  proof (cases e)
    case FallbackDue
    then show ?thesis by (simp add: self follows_handler [OF handlers(4)])
  next
    case (UserChanged b)
    then show ?thesis using pool by (simp add: follows_def)
  next
    case (NameChanged n)
    then show ?thesis using pool by (simp add: follows_def)
  qed (simp_all add: self steps follows_stream_handlers follows_handler [OF handlers(5)] follows_handler [OF handlers(4)] del: sse_step.simps)
qed

lemma hook_step_ok: "stream_hook_ok k s \<Longrightarrow> stream_hook_ok k (hook_step parse k e s)"
  unfolding hook_step_def by (rule settle_hook_ok [OF hook_event_follows])

lemma hook_run_ok: "stream_hook_ok k s \<Longrightarrow> stream_hook_ok k (hook_run parse k es s)"
  by (induction es arbitrary: s) (simp_all add: hook_step_ok)

end

interpretation bots: hook_laws bots_hook
  by unfold_locales (auto simp: bots_hook_def handler_simps signed_in_user_some split: result.split)

interpretation one_bot: hook_laws bot_hook
  by unfold_locales (auto simp: bot_hook_def handler_simps signed_in_user_some Let_def split: result.split)

section \<open>The stream belongs to the present bot\<close>

text \<open>In every sequence of events from the mounting on, a hook over a stream has at most one source or one timer to open one,
  for the bot it is now asked for; without a user, or without a name, it has neither.\<close>

theorem stream_of_current_bot:
  "\<forall>k \<in> {bots_hook, bot_hook :: 'a hook_kind}. let s = hook_run parse k es (mount_hook k b name); url = kd_endpoint k (hk_name s) in
     {i. live_source (hk_pool s) i \<noteq> None} \<subseteq> set_option (connection (hk_pool s) url)
     \<and> {j. sc_timers (hk_pool s) j \<noteq> None} \<subseteq> set_option (sc_timeouts (hk_pool s) url)
     \<and> (connection (hk_pool s) url = None \<or> sc_timeouts (hk_pool s) url = None)
     \<and> (if kd_enabled k (hk_browser s) (hk_name s) then True
        else connection (hk_pool s) url = None \<and> sc_timeouts (hk_pool s) url = None)"
proof -
  have goal: "let url = kd_endpoint k (hk_name s) in
     {i. live_source (hk_pool s) i \<noteq> None} \<subseteq> set_option (connection (hk_pool s) url)
     \<and> {j. sc_timers (hk_pool s) j \<noteq> None} \<subseteq> set_option (sc_timeouts (hk_pool s) url)
     \<and> (connection (hk_pool s) url = None \<or> sc_timeouts (hk_pool s) url = None)
     \<and> (if kd_enabled k (hk_browser s) (hk_name s) then True
        else connection (hk_pool s) url = None \<and> sc_timeouts (hk_pool s) url = None)"
    if ok: "stream_hook_ok k s" for k :: "'a hook_kind" and s
  proof -
    have pool: "pool_ok (hk_pool s)" and use: "in_use (hk_pool s) url \<Longrightarrow> kd_enabled k (hk_browser s) (hk_name s) \<and> url = kd_endpoint k (hk_name s)" for url
      using ok by (auto simp: stream_hook_ok_def held_def)
    have "live_source (hk_pool s) i = Some x \<Longrightarrow> connection (hk_pool s) (kd_endpoint k (hk_name s)) = Some i" for i x
      using use live_in_use [OF pool] pool_okD(1) [OF pool] by metis
    then have "{i. live_source (hk_pool s) i \<noteq> None} \<subseteq> set_option (connection (hk_pool s) (kd_endpoint k (hk_name s)))" by auto
    moreover have "sc_timers (hk_pool s) j = Some t \<Longrightarrow> sc_timeouts (hk_pool s) (kd_endpoint k (hk_name s)) = Some j" for j t
      using use timer_in_use [OF pool] pool_okD(4) [OF pool] by metis
    then have "{j. sc_timers (hk_pool s) j \<noteq> None} \<subseteq> set_option (sc_timeouts (hk_pool s) (kd_endpoint k (hk_name s)))" by auto
    moreover have "connection (hk_pool s) url = None \<or> sc_timeouts (hk_pool s) url = None" for url
      using pool_okD(3) [OF pool, of url] by (cases "connection (hk_pool s) url") auto
    moreover have "\<not> in_use (hk_pool s) url" if "\<not> kd_enabled k (hk_browser s) (hk_name s)" for url using use that by blast
    ultimately show ?thesis by (simp add: Let_def in_use_def)
  qed
  show ?thesis
    by (auto simp only: Let_def insert_iff empty_iff intro!: goal [unfolded Let_def] bots.hook_run_ok bots.mounted_hook_ok
      one_bot.hook_run_ok one_bot.mounted_hook_ok)
qed

section \<open>Streams that are closed by what they bring\<close>

lemma fresh_stream:
  assumes "held s" "can_connect k s"
  shows "live_source (hk_pool (connect_effect k s)) =
      [sc_next (hk_pool s) \<mapsto> \<lparr>es_url = kd_endpoint k (hk_name s), es_options = kd_options k, es_readyState = CONNECTING\<rparr>]"
    "connection (hk_pool (connect_effect k s)) (kd_endpoint k (hk_name s)) = Some (sc_next (hk_pool s))"
proof -
  let ?u = "kd_endpoint k (hk_name s)" and ?p = "hk_pool (release s)"
  have pool: "pool_ok ?p" using assms(1) by (simp add: held_def release_pool_ok)
  have unused: "\<not> in_use (disconnect ?u ?p) url" for url using held_unused [OF assms(1)] by simp
  have fresh: "sc_next ?p = sc_next (hk_pool s)" by (simp add: release_def disconnect_fields split: option.split)
  have none: "live_source (disconnect ?u ?p) i = None" for i
    using live_in_use [OF disconnect_ok [OF pool]] unused by (cases "live_source (disconnect ?u ?p) i") auto
  then show "live_source (hk_pool (connect_effect k s)) =
      [sc_next (hk_pool s) \<mapsto> \<lparr>es_url = ?u, es_options = kd_options k, es_readyState = CONNECTING\<rparr>]"
    using assms(2) none unfolding live_source_def
    by (simp add: connect_effect_fields(1) connect_def open_source_def Let_def disconnect_fields(5) fresh fun_eq_iff)
  show "connection (hk_pool (connect_effect k s)) ?u = Some (sc_next (hk_pool s))"
    using assms(2) by (simp add: connect_effect_fields(1) connect_def open_source_def Let_def disconnect_fields fresh)
      (simp add: connection_def update_conv')
qed

text \<open>What makes a handler change state makes the connection that called it go.\<close>

definition stream_replaced :: "'a hook_kind \<Rightarrow> nat \<Rightarrow> 'a stream_hook \<Rightarrow> bool" where
  "stream_replaced k i t \<longleftrightarrow> live_source (hk_pool t) i = None
     \<and> (\<exists>j. connection (hk_pool t) (kd_endpoint k (hk_name t)) = Some j
          \<and> map_option es_readyState (live_source (hk_pool t) j) = Some CONNECTING)"

context hook_laws
begin

lemma handlers_changed_replaces:
  assumes ok: "stream_hook_ok k s" and live: "live_source (hk_pool s) i \<noteq> None" and can: "can_connect k s"
    and t: "follows False s t" "handlers_changed False s t" "hk_name t = hk_name s" "sc_next (hk_pool t) = sc_next (hk_pool s)"
  shows "stream_replaced k i (settle_hook k False s t)"
proof -
  have held: "held t" using ok t(1) by (simp add: follows_def stream_hook_ok_def held_def)
  have can': "can_connect k t" using can t(1,3) by (simp add: can_connect_def follows_def)
  have "pool_ok (hk_pool s)" using ok by (simp add: stream_hook_ok_def held_def)
  then have i: "i \<noteq> sc_next (hk_pool t)"
    using live pool_okD(6) [of "hk_pool s" i] t(4) by (auto simp: live_source_def)
  have page: "same_page t (connect_effect k t)" by (rule connect_page(2))
  have "stream_replaced k i (connect_effect k t)"
    using i page by (simp add: stream_replaced_def fresh_stream [OF held can'] same_page_def)
  moreover have "settle_hook k False s t = connect_effect k t \<or> settle_hook k False s t = connect_effect k t\<lparr>hk_fallback := True\<rparr>"
    using t(2) page can' by (simp add: settle_hook_def fallback_effect_def same_page_def can_connect_def Let_def)
  ultimately show ?thesis by (auto simp: stream_replaced_def)
qed

end

text \<open>The message that gives the list of bots for the first time is shown, but it also changes the handlers, so that
  the stream that brought it is closed and another is opened.\<close>

theorem first_message_closes_stream:
  assumes "s = hook_run parse bots_hook es (mount_hook bots_hook b name)" "live_source (hk_pool s) i \<noteq> None" "can_connect bots_hook s"
    and "\<not> hk_initialLoadComplete s" "onmessage parse text = CallMessage d"
  shows "let t = hook_step parse bots_hook (StreamMessage i text now) s in
    hk_shown t = Streamed d \<and> \<not> hk_loading t \<and> stream_replaced bots_hook i t"
proof -
  have ok: "stream_hook_ok bots_hook s" unfolding assms(1) by (intro bots.hook_run_ok bots.mounted_hook_ok)
  then have unloaded: "fst (hk_handlers s) = False"
    using assms(2,4) live_in_use [of "hk_pool s" i] by (auto simp: stream_hook_ok_def held_def)
  define t where "t = hook_event_of parse bots_hook (StreamMessage i text now) s"
  have t: "hk_shown t = Streamed d" "\<not> hk_loading t" "hk_initialLoadComplete t" "hk_name t = hk_name s" "hk_pool t = hk_pool s"
    "hk_browser t = hk_browser s"
    using assms(2,5) unloaded by (auto simp: t_def stream_call_of_def handleMessage_def bots_hook_def bots_message_def first_load_def)
  have "stream_replaced bots_hook i (settle_hook bots_hook False s t)"
  proof (rule bots.handlers_changed_replaces [OF ok assms(2,3)])
    show "follows False s t" using bots.hook_event_follows [OF ok, of "StreamMessage i text now"] by (simp add: t_def)
  qed (use t assms(4) in \<open>simp_all add: handlers_changed_def\<close>)
  moreover have "same_page t (connect_effect bots_hook t)" by (rule connect_page(2))
  ultimately show ?thesis
    using t assms(3,4) unfolding hook_step_def renews.simps t_def [symmetric] settle_hook_def Let_def
    by (simp add: handlers_changed_def fallback_changed_def fallback_effect_def same_page_def can_connect_def)
qed

definition signed_in_demo :: browser where
  "signed_in_demo = \<lparr>br_stored = Some ''t'', br_cookie = Some ''t'', br_user = Some (JObj [(''id'', JStr ''u'')]), br_token = Some ''t'',
     br_loading = False, br_page = ''/custom-bots'', br_ready = True, br_net = [], br_sent = []\<rparr>"

definition update_text :: "string \<Rightarrow> json option" where
  "update_text s = Some (JObj [(''type'', JStr ''update''), (''data'', JArr [])])"

theorem first_message_closes_stream_witness:
  "let s = hook_run update_text bots_hook [StreamOpened 0] (mount_hook bots_hook signed_in_demo []);
       t = hook_step update_text bots_hook (StreamMessage 0 [] 7) s in
     hk_shown t = Streamed (JArr []) \<and> \<not> hk_loading t \<and> stream_replaced bots_hook 0 t"
  unfolding Let_def
  by (rule first_message_closes_stream [OF refl, of _ _ _ _ _ "[]" "JArr []", unfolded Let_def]) code_simp+

text \<open>The opening of a stream takes the notice of a failure off the page, and so closes that stream.\<close>

theorem opening_after_failure_closes_stream:
  assumes "s = hook_run parse bots_hook es (mount_hook bots_hook b name)" "live_source (hk_pool s) i \<noteq> None" "can_connect bots_hook s"
    and "hk_error s = unavailable"
  shows "stream_replaced bots_hook i (hook_step parse bots_hook (StreamOpened i) s)"
proof -
  have ok: "stream_hook_ok bots_hook s" unfolding assms(1) by (intro bots.hook_run_ok bots.mounted_hook_ok)
  then have seen: "snd (hk_handlers s) = unavailable"
    using assms(2,4) live_in_use [of "hk_pool s" i] by (auto simp: stream_hook_ok_def held_def)
  define t where "t = hook_event_of parse bots_hook (StreamOpened i) s"
  have t: "hk_error t = JNull" "hk_name t = hk_name s" "sc_next (hk_pool t) = sc_next (hk_pool s)"
    using assms(2) seen by (auto simp: t_def handleOpen_def bots_hook_def bots_connected_def onopen_def set_ready_def)
  have "stream_replaced bots_hook i (settle_hook bots_hook False s t)"
  proof (rule bots.handlers_changed_replaces [OF ok assms(2,3)])
    show "follows False s t" using bots.hook_event_follows [OF ok, of "StreamOpened i"] by (simp add: t_def)
  qed (use t assms(4) in \<open>simp_all add: handlers_changed_def unavailable_def\<close>)
  then show ?thesis by (simp add: hook_step_def t_def del: hook_event_of.simps)
qed

section \<open>A user who comes later\<close>

fun asks_again :: "'a hook_event \<Rightarrow> bool" where
  "asks_again RefetchClicked = True"
| "asks_again e = False"

definition quiet :: "'a stream_hook \<Rightarrow> bool" where
  "quiet s \<longleftrightarrow> hk_initialLoadComplete s \<and> hk_pending s = []"

lemma connect_effect_quiet [simp]: "quiet (connect_effect k s) = quiet s"
  using connect_page(2) [of s k] by (simp add: quiet_def same_page_def)

lemma fallback_effect_quiet: "quiet s \<Longrightarrow> quiet (fallback_effect bots_hook s)"
  by (simp add: fallback_effect_def quiet_def bots_hook_def bots_missing_def)

lemma settle_hook_quiet: "quiet s \<Longrightarrow> quiet (settle_hook bots_hook r old s)"
  by (simp add: settle_hook_def fallback_effect_quiet Let_def)

text \<open>Handlers that know that the first load is over do not send a request.\<close>

lemma hook_step_quiet:
  assumes "stream_hook_ok bots_hook s" "quiet s" "\<not> asks_again e"
  shows "quiet (hook_step parse bots_hook e s)"
proof -
  have loaded: "fst (hk_handlers s)" if "live_source (hk_pool s) i \<noteq> None" for i
    using assms(1,2) that live_in_use [of "hk_pool s" i] by (auto simp: stream_hook_ok_def held_def quiet_def)
  have call: "quiet (stream_call_of bots_hook now c s)" if "fst (hk_handlers s)" for now c
    using assms(2) that by (cases c) (simp_all add: stream_call_of_def handleMessage_def handleStreamError_def bots_hook_def
      bots_message_def bots_error_def first_load_def quiet_def)
  have "quiet (hook_event_of parse bots_hook e s)"
  proof (cases e)
    case (StreamMessage i m now)
    then show ?thesis using assms(2) call loaded by simp
  next
    case (StreamFailed i)
    then show ?thesis using assms(2) loaded by (simp add: handleStreamError_def bots_hook_def bots_error_def quiet_def)
  qed (use assms(2,3) in \<open>auto simp: quiet_def handleOpen_def bots_hook_def bots_connected_def\<close>)
  then show ?thesis by (simp add: hook_step_def settle_hook_quiet)
qed

text \<open>Mounted before its user is known, the hook takes its empty list for loaded, and never asks the API for the list by
  itself: neither when the stream fails nor when no message comes; only the refresh of the user does.\<close>

theorem late_user_never_fetches:
  fixes es :: "'a hook_event list"
  assumes "\<not> signed_in_user b" "list_all (\<lambda>e. \<not> asks_again e) es"
  shows "let s = hook_run parse bots_hook es (mount_hook bots_hook b name) in hk_pending s = [] \<and> hk_initialLoadComplete s"
proof -
  have run: "stream_hook_ok bots_hook s \<Longrightarrow> quiet s \<Longrightarrow> quiet (hook_run parse bots_hook es s)" for s :: "'a stream_hook"
    using assms(2) by (induction es arbitrary: s) (simp_all add: hook_step_quiet bots.hook_step_ok)
  have start: "quiet (mount_hook bots_hook b name :: 'a stream_hook)"
  proof -
    have "same_page (stream_hook_start b name :: 'a stream_hook) (connect_effect bots_hook (stream_hook_start b name))" by (rule connect_page(2))
    then show ?thesis
      using assms(1) by (simp add: mount_hook_def fallback_effect_def same_page_def stream_hook_start_def bots_hook_def bots_missing_def quiet_def)
  qed
  show ?thesis using run [OF bots.mounted_hook_ok start] by (simp add: quiet_def Let_def)
qed

definition nobody_yet :: browser where
  "nobody_yet = signed_in_demo\<lparr>br_user := None\<rparr>"

theorem late_user_never_fetches_witness:
  "let s = hook_run update_text bots_hook [UserChanged signed_in_demo, StreamFailed 0, FallbackDue] (mount_hook bots_hook nobody_yet [])
   in hk_pending s = [] \<and> hk_initialLoadComplete s"
  by (rule late_user_never_fetches) code_simp+

text \<open>Signed out, the hook has no stream but still calls itself connected.\<close>

theorem connected_without_stream:
  "let s = hook_run update_text bots_hook [StreamOpened 0, UserChanged nobody_yet] (mount_hook bots_hook signed_in_demo [])
   in hk_connected s \<and> getActiveConnections (hk_pool s) = [] \<and> sc_connections (hk_pool s) = []"
  by code_simp

section \<open>Answers to one request\<close>

text \<open>The page shows the answer that came last, whatever bot it is for; it stops loading at the first answer.\<close>

theorem last_answer_is_shown:
  assumes "k < length (fh_pending s)"
  shows "let t = fetch_step fetch plain_bot_answer (Answer k (Ok x)) s in
    fh_shown t = Fetched x \<and> \<not> fh_loading t \<and> length (fh_pending t) = length (fh_pending s) - 1 \<and> fh_name t = fh_name s"
  using assms by (simp add: plain_bot_answer_def Let_def)

theorem answers_out_of_order:
  "let s = foldl (\<lambda>s e. fetch_step plain_bot_fetch plain_bot_answer e s) (plain_bot_fetch (fetch_hook_start signed_in_demo ''a''))
       [SetName ''b'', Answer 1 (Ok ''the bot b''), Answer 0 (Ok ''the bot a'')]
   in fh_name s = ''b'' \<and> fh_shown s = Fetched ''the bot a'' \<and> \<not> fh_loading s"
  by code_simp

end
