(* ===== verification/BotPanel.thy ===== *)
theory BotPanel
  imports ApiServices Dates
begin

text \<open>
  The page of a deployed instance: frontend/src/components/bot/interval-picker.tsx and refresh-selector.tsx (the interval of
  logs), components/dashboard/bot-detail-panel.tsx (the configuration without its secrets, switching and deleting),
  contexts/dashboard-bots-context.tsx (the list beside it), lib/bot-utils.ts and components/bot/bot-dashboard-loader.tsx
  (the bundle of the dashboard and its copy in localStorage).
\<close>

section \<open>Intervals\<close>

datatype interval_type = LiveInterval | RangeInterval | LatestInterval

record interval_value =
  iv_type :: interval_type
  iv_label :: string
  iv_start :: string
  iv_end :: string

abbreviation day_ms :: int where
  "day_ms \<equiv> 86400000"

text \<open>\<open>formatDate\<close> reads the parts of the date in UTC.\<close>

definition formatDate :: "int \<Rightarrow> string" where
  "formatDate ms = date_text (ms div day_ms)"

datatype preset = Hours nat | Days nat

definition PRESETS :: "(string \<times> preset) list" where
  "PRESETS = [(''1h'', Hours 1), (''6h'', Hours 6), (''1d'', Days 1), (''3d'', Days 3), (''7d'', Days 7), (''30d'', Days 30)]"

text \<open>Setting the day of the month to an earlier one goes back by days of UTC.\<close>

fun computeInterval :: "int \<Rightarrow> string \<Rightarrow> preset \<Rightarrow> interval_value" where
  "computeInterval now label (Hours h) =
     \<lparr>iv_type = RangeInterval, iv_label = label, iv_start = iso_text (now - int h * 3600000), iv_end = iso_text now\<rparr>"
| "computeInterval now label (Days n) =
     \<lparr>iv_type = RangeInterval, iv_label = label,
      iv_start = date_text (set_date (now div day_ms) (date_of (now div day_ms) - int (max n 1) + 1)), iv_end = formatDate now\<rparr>"

definition LIVE_INTERVAL :: interval_value where
  "LIVE_INTERVAL = \<lparr>iv_type = LiveInterval, iv_label = ''live'', iv_start = [], iv_end = []\<rparr>"

definition LATEST_INTERVAL :: interval_value where
  "LATEST_INTERVAL = \<lparr>iv_type = LatestInterval, iv_label = ''latest'', iv_start = [], iv_end = []\<rparr>"

text \<open>The range that is picked so far, and whether the calendar is open.\<close>

record range_picker =
  rp_open :: bool
  rp_from :: "int option"
  rp_to :: "int option"

definition handleRangeSelect :: "int option \<times> int option \<Rightarrow> range_picker \<Rightarrow> range_picker \<times> interval_value option" where
  "handleRangeSelect sel s = (case sel of
      (Some a, Some b) \<Rightarrow> (s\<lparr>rp_open := False, rp_from := None, rp_to := None\<rparr>,
         Some \<lparr>iv_type = RangeInterval, iv_label = ''custom'', iv_start = formatDate a, iv_end = formatDate b\<rparr>)
    | (a, b) \<Rightarrow> (s\<lparr>rp_from := a, rp_to := b\<rparr>, None))"

definition shouldUseLogStreaming :: "json option \<Rightarrow> bool" where
  "shouldUseLogStreaming the_bot = (case the_bot of None \<Rightarrow> False | Some b \<Rightarrow>
     (case prop_of (prop_of (Some b) ''config'') ''type'' of
        Some (JStr t) \<Rightarrow> hd (split_at (CHR ''/'') t) \<noteq> ''scheduled'' | _ \<Rightarrow> True))"

definition shouldHideRefreshSelector :: "bool \<Rightarrow> string \<Rightarrow> bool" where
  "shouldHideRefreshSelector useStreaming label \<longleftrightarrow> useStreaming \<and> label \<notin> {''1h'', ''6h''}"

definition default_interval :: "json option \<Rightarrow> interval_value" where
  "default_interval the_bot = (if shouldUseLogStreaming the_bot then LIVE_INTERVAL else LATEST_INTERVAL)"

section \<open>A configuration without its secrets\<close>

text \<open>The patterns, case ignored: a text that occurs, two with at most one underscore or hyphen between them, one followed by another
  on the same line, or a text at the end.\<close>

datatype key_pattern = Occurs string | Joined string string | Followed string string | Ends string

fun key_matches :: "key_pattern \<Rightarrow> string \<Rightarrow> bool" where
  "key_matches (Occurs a) k = js_includes k a"
| "key_matches (Joined a b) k = (js_includes k (a @ b) \<or> js_includes k (a @ ''_'' @ b) \<or> js_includes k (a @ ''-'' @ b))"
| "key_matches (Followed a b) k = list_ex (\<lambda>i. js_starts_with (drop i k) a
     \<and> js_includes (takeWhile (\<lambda>c. c \<noteq> CHR 0x0A \<and> c \<noteq> CHR 0x0D) (drop (i + length a) k)) b) [0..<length k]"
| "key_matches (Ends a) k = js_ends_with k a"

definition sensitivePatterns :: "key_pattern list" where
  "sensitivePatterns = [Joined ''api'' ''key'', Joined ''secret'' ''key'', Joined ''api'' ''secret'', Occurs ''password'', Occurs ''token'',
     Ends ''key'', Joined ''private'' ''key'', Joined ''access'' ''token'', Joined ''refresh'' ''token'', Joined ''auth'' ''token'',
     Joined ''bearer'' ''token'', Followed ''exchange'' ''key'', Followed ''exchange'' ''secret'', Occurs ''credential'',
     Occurs ''passphrase'', Occurs ''pin'']"

definition sensitive_key :: "string \<Rightarrow> bool" where
  "sensitive_key k = list_ex (\<lambda>p. key_matches p (js_lower k)) sensitivePatterns"

text \<open>
  The assignment to \<open>__proto__\<close> adds no entry. The keys of an array are the numbers of its elements, which no pattern
  matches; the copy through JSON text before it is the value again.
\<close>

fun getMaskedConfig :: "json \<Rightarrow> json" where
  "getMaskedConfig (JObj kvs) = JObj (map (\<lambda>(k, v). (k, getMaskedConfig v)) (filter (\<lambda>(k, v). \<not> sensitive_key k \<and> k \<noteq> ''__proto__'') kvs))"
| "getMaskedConfig (JArr vs) = JArr (map getMaskedConfig vs)"
| "getMaskedConfig v = v"

section \<open>The page\<close>

text \<open>
  The requests that are sent, in order; \<open>pn_updates\<close> are the configurations whose answers are awaited. A notice has a title, when it
  has one, and a text. \<open>pn_leaving\<close>: the timer that leads back to the dashboard is set.
\<close>

datatype panel_request = AskBot | SendConfig js_object | SendDelete

record bot_panel =
  pn_user :: json
  pn_bot :: "json option"
  pn_loading :: bool
  pn_deleting :: bool
  pn_updating :: bool
  pn_interval :: interval_value
  pn_initialized :: bool
  pn_updates :: "js_object list"
  pn_sent :: "panel_request list"
  pn_notices :: "(string \<times> json) list"
  pn_leaving :: bool

definition panel_notice :: "string \<Rightarrow> json \<Rightarrow> bot_panel \<Rightarrow> bot_panel" where
  "panel_notice title txt s = s\<lparr>pn_notices := pn_notices s @ [(title, txt)]\<rparr>"

definition panel_start :: "json \<Rightarrow> bot_panel" where
  "panel_start user = \<lparr>pn_user = user, pn_bot = None, pn_loading = True, pn_deleting = False, pn_updating = False,
     pn_interval = LATEST_INTERVAL, pn_initialized = False, pn_updates = [], pn_sent = [AskBot], pn_notices = [], pn_leaving = False\<rparr>"

text \<open>The owner of an answer; an answer without JSON has no properties to read.\<close>

definition bot_owner :: "json \<Rightarrow> json option" where
  "bot_owner b = (let u = prop_of (Some b) ''userId'' in if truthy_value u then u else prop_of (Some b) ''user_id'')"

definition load_error :: "json \<Rightarrow> (json option, service_error) result \<Rightarrow> json option" where
  "load_error user r = (case r of
      Failure e \<Rightarrow> Some (value_or (Some (se_message e)) (JStr ''Failed to fetch bot''))
    | Ok None \<Rightarrow> Some (JStr ''Cannot read properties of undefined'')
    | Ok (Some b) \<Rightarrow> if b = JNull then Some (JStr ''Cannot read properties of null'')
        else if bot_owner b \<noteq> prop_of (Some user) ''id'' then Some (JStr ''Unauthorized access'') else None)"

text \<open>The message after \<open>Failed to load bot:\<close> stands for the whole text.\<close>

definition panel_loaded :: "(json option, service_error) result \<Rightarrow> bot_panel \<Rightarrow> bot_panel" where
  "panel_loaded r s = (case load_error (pn_user s) r of
      Some m \<Rightarrow> (panel_notice ''Error'' m s)\<lparr>pn_leaving := pn_leaving s \<or> m \<in> {JStr ''Bot not found'', JStr ''Unauthorized access''}\<rparr>
    | None \<Rightarrow> (case r of Ok b \<Rightarrow> s\<lparr>pn_bot := b\<rparr> | Failure _ \<Rightarrow> s))\<lparr>pn_loading := False\<rparr>"

text \<open>The effect that chooses the interval once the instance is there.\<close>

definition interval_effect :: "bot_panel \<Rightarrow> bot_panel" where
  "interval_effect s = (if \<not> pn_initialized s \<and> pn_bot s \<noteq> None
     then s\<lparr>pn_initialized := True, pn_interval := default_interval (pn_bot s)\<rparr> else s)"

definition config_of :: "json \<Rightarrow> js_object" where
  "config_of b = (case prop_of (Some b) ''config'' of Some (JObj kvs) \<Rightarrow> kvs | _ \<Rightarrow> [])"

definition with_config :: "js_object \<Rightarrow> json \<Rightarrow> json" where
  "with_config c b = (case b of JObj kvs \<Rightarrow> JObj (obj_put kvs ''config'' (JObj c)) | _ \<Rightarrow> JObj [(''config'', JObj c)])"

definition handleToggleEnabled :: "bool \<Rightarrow> bot_panel \<Rightarrow> bot_panel" where
  "handleToggleEnabled enabled s = (case pn_bot s of None \<Rightarrow> s
     | Some b \<Rightarrow> (let c = obj_put (config_of b) ''enabled'' (JBool enabled) in
         s\<lparr>pn_updating := True, pn_updates := pn_updates s @ [c], pn_sent := pn_sent s @ [SendConfig c]\<rparr>))"

definition toggle_text :: "js_object \<Rightarrow> json" where
  "toggle_text c = JStr (''Bot '' @ (if map_of c ''enabled'' = Some (JBool True) then ''enabled'' else ''disabled'')
     @ '' successfully. It may take a few moments to reflect the change.'')"

text \<open>\<open>getErrorMessage\<close> of the error that is thrown reads its message; without one it is unknown.\<close>

definition toggle_done :: "nat \<Rightarrow> (json option, service_error) result \<Rightarrow> bot_panel \<Rightarrow> bot_panel" where
  "toggle_done k r s = (if length (pn_updates s) \<le> k then s else
     (case r of
        Ok _ \<Rightarrow> panel_notice [] (toggle_text (pn_updates s ! k)) (s\<lparr>pn_bot := map_option (with_config (pn_updates s ! k)) (pn_bot s)\<rparr>)
      | Failure e \<Rightarrow> panel_notice ''Update Failed'' (value_or (Some (se_message e)) (JStr ''Unknown error'')) s)
     \<lparr>pn_updating := False, pn_updates := take k (pn_updates s) @ drop (Suc k) (pn_updates s)\<rparr>)"

definition handleDeleteBot :: "bot_panel \<Rightarrow> bot_panel" where
  "handleDeleteBot s = (if pn_bot s = None then s else s\<lparr>pn_deleting := True, pn_sent := pn_sent s @ [SendDelete]\<rparr>)"

text \<open>A deletion takes the instance off the list and ends on the page of the first that is left, or on the dashboard (None).\<close>

definition delete_done :: "string \<Rightarrow> string list \<Rightarrow> (unit, service_error) result \<Rightarrow> bot_panel \<Rightarrow>
    bot_panel \<times> (string list \<times> string option) option" where
  "delete_done ident idents r s = (case r of
      Ok _ \<Rightarrow> (panel_notice [] (JStr ''Bot deleted successfully'') s,
        (let left = filter (\<lambda>i. i \<noteq> ident) idents in Some (left, case left of [] \<Rightarrow> None | i # _ \<Rightarrow> Some i)))
    | Failure e \<Rightarrow> ((panel_notice ''Delete Failed'' (value_or (Some (se_message e)) (JStr ''Failed to delete bot'')) s)\<lparr>pn_deleting := False\<rparr>, None))"

text \<open>What the log page is asked for: \<open>setDateFilter(null)\<close>, \<open>setLatestFilter()\<close> or \<open>setDateRangeFilter\<close>.\<close>

datatype filter_call = ClearDateFilter | LatestFilter | RangeFilter string string

definition handleIntervalChange :: "interval_value \<Rightarrow> bot_panel \<Rightarrow> bot_panel \<times> filter_call" where
  "handleIntervalChange v s = (s\<lparr>pn_interval := v\<rparr>, (case iv_type v of
      LiveInterval \<Rightarrow> ClearDateFilter | LatestInterval \<Rightarrow> LatestFilter | RangeInterval \<Rightarrow> RangeFilter (iv_start v) (iv_end v)))"

datatype panel_event =
    Loaded "(json option, service_error) result"
  | Reload
  | Toggle bool
  | Toggled nat "(json option, service_error) result"
  | DeleteClicked
  | DeleteFailed service_error
  | IntervalPicked interval_value

fun panel_step :: "panel_event \<Rightarrow> bot_panel \<Rightarrow> bot_panel" where
  "panel_step (Loaded r) s = interval_effect (panel_loaded r s)"
| "panel_step Reload s = s\<lparr>pn_loading := True, pn_sent := pn_sent s @ [AskBot]\<rparr>"
| "panel_step (Toggle enabled) s = handleToggleEnabled enabled s"
| "panel_step (Toggled k r) s = interval_effect (toggle_done k r s)"
| "panel_step DeleteClicked s = handleDeleteBot s"
| "panel_step (DeleteFailed e) s = fst (delete_done [] [] (Failure e) s)"
| "panel_step (IntervalPicked v) s = fst (handleIntervalChange v s)"

fun panel_run :: "panel_event list \<Rightarrow> bot_panel \<Rightarrow> bot_panel" where
  "panel_run [] s = s"
| "panel_run (e # es) s = panel_run es (panel_step e s)"

section \<open>The list beside it\<close>

record bot_list =
  bl_bots :: "json option"
  bl_loading :: bool
  bl_error :: json

definition fetchBots :: "bool \<Rightarrow> bot_list \<Rightarrow> bot_list" where
  "fetchBots has_user s = (if \<not> has_user then s\<lparr>bl_loading := False\<rparr> else s\<lparr>bl_loading := True, bl_error := JNull\<rparr>)"

definition bots_fetched :: "(json option, service_error) result \<Rightarrow> bot_list \<Rightarrow> bot_list" where
  "bots_fetched r s = (case r of Ok d \<Rightarrow> s\<lparr>bl_bots := d\<rparr> | Failure e \<Rightarrow> s\<lparr>bl_error := se_message e\<rparr>)\<lparr>bl_loading := False\<rparr>"

definition removeBotFromList :: "string \<Rightarrow> json list \<Rightarrow> json list" where
  "removeBotFromList ident all_bots = filter (\<lambda>b. prop_of (Some b) ''id'' \<noteq> Some (JStr ident)) all_bots"

section \<open>The bundle of a dashboard\<close>

text \<open>\<open>runs\<close>: the text can be imported and exports a component. An empty text in the storage counts as none.\<close>

definition bundle_key :: "string \<Rightarrow> string option \<Rightarrow> string option" where
  "bundle_key ident version = (if truthy_opt version then Some (''quantflow-bundle-'' @ ident @ ''-'' @ the version) else None)"

definition cached_bundle :: "string option \<Rightarrow> (string \<Rightarrow> string option) \<Rightarrow> string option" where
  "cached_bundle key store = (case key of None \<Rightarrow> None | Some k \<Rightarrow> (case store k of Some t \<Rightarrow> if t = [] then None else Some t | None \<Rightarrow> None))"

definition fetch_bundle :: "(string \<Rightarrow> bool) \<Rightarrow> bool \<Rightarrow> string option \<Rightarrow> (string \<Rightarrow> string option) \<Rightarrow> (string, string) result \<Rightarrow>
    (string, string) result \<times> (string \<Rightarrow> string option)" where
  "fetch_bundle runs room key store answer = (case answer of
      Failure e \<Rightarrow> (Failure e, store)
    | Ok t \<Rightarrow> (if runs t then Ok t else Failure ''Bundle must export a default component'',
        case key of Some k \<Rightarrow> if room then store(k \<mapsto> t) else store | None \<Rightarrow> store))"

definition importBundle :: "(string \<Rightarrow> bool) \<Rightarrow> bool \<Rightarrow> string option \<Rightarrow> (string \<Rightarrow> string option) \<Rightarrow> (string, string) result \<Rightarrow>
    (string, string) result \<times> (string \<Rightarrow> string option)" where
  "importBundle runs room key store answer = (case cached_bundle key store of
      Some t \<Rightarrow> if runs t then (Ok t, store) else fetch_bundle runs room key store answer
    | None \<Rightarrow> fetch_bundle runs room key store answer)"

text \<open>A run of the effect is known by its number, and imports what \<open>ld_targets\<close> tells; \<open>ld_waiting\<close>: the last one has neither ended nor been cancelled.\<close>

datatype load_phase = NoPhase | DashboardPhase | EventsPhase

record loader =
  ld_target :: "string \<times> string option"
  ld_run :: nat
  ld_targets :: "nat \<Rightarrow> string \<times> string option"
  ld_waiting :: bool
  ld_phase :: load_phase
  ld_error :: "string option"
  ld_shown :: "((string \<times> string option) \<times> string) option"

definition loader_effect :: "string \<times> string option \<Rightarrow> loader \<Rightarrow> loader" where
  "loader_effect target s = (if fst target = []
     then s\<lparr>ld_target := target, ld_waiting := False, ld_phase := NoPhase, ld_error := None, ld_shown := None\<rparr>
     else s\<lparr>ld_target := target, ld_run := Suc (ld_run s), ld_targets := (ld_targets s)(Suc (ld_run s) := target), ld_waiting := True, ld_phase := DashboardPhase, ld_error := None, ld_shown := None\<rparr>)"

definition loader_start :: "string \<times> string option \<Rightarrow> loader" where
  "loader_start target = loader_effect target \<lparr>ld_target = target, ld_run = 0, ld_targets = (\<lambda>_. target), ld_waiting = False, ld_phase = NoPhase, ld_error = None, ld_shown = None\<rparr>"

datatype loader_event = Target "string \<times> string option" | Imported nat "(string, string) result" | TimedOut nat

fun loader_step :: "loader_event \<Rightarrow> loader \<Rightarrow> loader" where
  "loader_step (Target target) s = (if target = ld_target s then s else loader_effect target s)"
| "loader_step (Imported n r) s = (if n \<noteq> ld_run s \<or> \<not> ld_waiting s then s
     else (case r of Ok t \<Rightarrow> s\<lparr>ld_shown := Some (ld_targets s n, t), ld_phase := EventsPhase\<rparr>
       | Failure e \<Rightarrow> s\<lparr>ld_error := Some e, ld_phase := NoPhase\<rparr>)\<lparr>ld_waiting := False\<rparr>)"
| "loader_step (TimedOut n) s = (if n \<noteq> ld_run s \<or> \<not> ld_waiting s then s
     else s\<lparr>ld_waiting := False, ld_error := Some ''Dashboard load timed out'', ld_phase := NoPhase\<rparr>)"

section \<open>No secret is shown\<close>

datatype path_step = Key string | Index nat

fun at_path :: "json \<Rightarrow> path_step list \<Rightarrow> json option" where
  "at_path v [] = Some v"
| "at_path (JObj kvs) (Key k # p) = (case map_of kvs k of None \<Rightarrow> None | Some v \<Rightarrow> at_path v p)"
| "at_path (JArr vs) (Index i # p) = (if i < length vs then at_path (vs ! i) p else None)"
| "at_path v (st # p) = None"

definition hidden_step :: "path_step \<Rightarrow> bool" where
  "hidden_step st = (case st of Key k \<Rightarrow> sensitive_key k \<or> k = ''__proto__'' | Index i \<Rightarrow> False)"

lemma map_of_masked:
  "map_of (map (\<lambda>(k, v). (k, f v)) (filter (\<lambda>(k, v). \<not> P k) kvs)) k = (if P k then None else map_option f (map_of kvs k))"
  by (induction kvs) auto

text \<open>The configuration that is shown and copied holds, at every path, what the configuration holds there, unless a
  key of the path is sensitive: then it holds nothing. So no value under a sensitive key is shown, at any depth and inside lists
  too, and nothing else is hidden or changed.\<close>

theorem masked_config_by_path:
  "at_path (getMaskedConfig v) p = (if list_ex hidden_step p then None else map_option getMaskedConfig (at_path v p))"
proof (induction v p rule: at_path.induct)
  case (2 kvs k p)
  have "map_of (map (\<lambda>(k, v). (k, getMaskedConfig v)) (filter (\<lambda>(k, v). \<not> sensitive_key k \<and> k \<noteq> ''__proto__'') kvs)) k
      = (if sensitive_key k \<or> k = ''__proto__'' then None else map_option getMaskedConfig (map_of kvs k))"
    using map_of_masked [where P = "\<lambda>k. sensitive_key k \<or> k = ''__proto__''" and f = getMaskedConfig and kvs = kvs and k = k]
    by (simp only: de_Morgan_disj)
  then show ?case using 2 by (auto simp: hidden_step_def split: option.split)
qed (auto simp: hidden_step_def)

text \<open>A key that only says secret is no pattern, and a word with pin inside is one.\<close>

theorem patterns_miss_secret:
  "getMaskedConfig (JObj [(''clientSecret'', v), (''secret'', v), (''shippingCost'', u)])
   = JObj [(''clientSecret'', getMaskedConfig v), (''secret'', getMaskedConfig v)]"
proof -
  have "sensitive_key ''clientSecret'' = False" "sensitive_key ''secret'' = False" "sensitive_key ''shippingCost'' = True" by code_simp+
  then show ?thesis by simp
qed

section \<open>The days of an interval\<close>

text \<open>A preset of days asks the API for exactly that many days, the last of them today, in UTC.\<close>

theorem interval_days:
  assumes "0 < n" "four_digit (now div day_ms)" "four_digit (now div day_ms - int n + 1)"
  shows "let v = computeInterval now label (Days n); today = now div day_ms in
      generateDateRange (iv_start v) (iv_end v) = map date_text [today - int n + 1..today]
      \<and> length (generateDateRange (iv_start v) (iv_end v)) = n"
proof -
  have "set_date t (date_of t - int (max n 1) + 1) = t - int n + 1" for t
  proof -
    have "date_of t - int (max n 1) + 1 = date_of t + (1 - int n)" using assms(1) by simp
    then show ?thesis by (simp only: set_date_next)
  qed
  then have "generateDateRange (iv_start (computeInterval now label (Days n))) (iv_end (computeInterval now label (Days n)))
      = map date_text [now div day_ms - int n + 1..now div day_ms]"
    using assms(2,3) by (simp add: formatDate_def generateDateRange_texts)
  then show ?thesis by (simp add: Let_def)
qed

text \<open>Local midnight of a day, in a zone that many milliseconds ahead of UTC.\<close>

definition local_midnight :: "int \<Rightarrow> int \<Rightarrow> int" where
  "local_midnight ahead d = d * day_ms - ahead"

text \<open>The calendar gives local midnight, which is read in UTC: east of Greenwich a picked day becomes the one before.\<close>

theorem picked_days:
  assumes "- day_ms < ahead" "ahead \<le> day_ms"
  shows "snd (handleRangeSelect (Some (local_midnight ahead d), Some (local_midnight ahead e)) s)
    = (let shift = (if 0 < ahead then 1 else 0) in Some \<lparr>iv_type = RangeInterval, iv_label = ''custom'',
         iv_start = date_text (d - shift), iv_end = date_text (e - shift)\<rparr>)"
proof -
  have "local_midnight ahead d div day_ms = d - (if 0 < ahead then 1 else 0)" for d
  proof (cases "0 < ahead")
    case True
    then have "d * day_ms - ahead = (d - 1) * day_ms + (day_ms - ahead)" "0 \<le> day_ms - ahead" "day_ms - ahead < day_ms" using assms by simp_all
    then have "(d * day_ms - ahead) div day_ms = d - 1" by (metis add.commute add_0 div_mult_self1 div_pos_pos_trivial zero_neq_numeral)
    then show ?thesis using True by (simp add: local_midnight_def)
  next
    case False
    then have "(- ahead + d * day_ms) div day_ms = d" using assms by (simp add: div_pos_pos_trivial)
    then show ?thesis using False by (simp add: local_midnight_def add.commute)
  qed
  then show ?thesis by (simp add: handleRangeSelect_def formatDate_def Let_def)
qed

section \<open>Only one's own instance\<close>

definition panel_ok :: "bot_panel \<Rightarrow> bool" where
  "panel_ok s \<longleftrightarrow> (\<forall>b. pn_bot s = Some b \<longrightarrow> bot_owner b = prop_of (Some (pn_user s)) ''id'')"

lemma bot_owner_with_config: "bot_owner (with_config c b) = bot_owner b"
proof (cases b)
  case (JObj kvs)
  have "map_of (AList.update ''config'' v kvs) ''userId'' = map_of kvs ''userId''"
    "map_of (AList.update ''config'' v kvs) ''user_id'' = map_of kvs ''user_id''" for v :: json
    by (simp_all add: update_conv')
  then show ?thesis using JObj by (simp add: bot_owner_def with_config_def prop_of_def obj_put_def Let_def)
qed (simp_all add: bot_owner_def with_config_def prop_of_def)

lemma panel_ok_fields:
  "panel_ok s \<Longrightarrow> pn_bot t = pn_bot s \<Longrightarrow> pn_user t = pn_user s \<Longrightarrow> panel_ok t"
  by (simp add: panel_ok_def)

lemma interval_effect_bot [simp]: "pn_bot (interval_effect s) = pn_bot s" "pn_user (interval_effect s) = pn_user s"
  by (simp_all add: interval_effect_def)

lemma panel_step_ok: "panel_ok s \<Longrightarrow> panel_ok (panel_step e s)"
proof (cases e)
  case (Loaded r)
  assume s: "panel_ok s"
  show ?thesis
  proof (cases "load_error (pn_user s) r")
    case None
    then obtain b where "r = Ok (Some b)" "bot_owner b = prop_of (Some (pn_user s)) ''id''"
      by (auto simp: load_error_def split: result.splits option.splits if_splits)
    then show ?thesis using Loaded None by (simp add: panel_loaded_def panel_ok_def)
  next
    case (Some m)
    then show ?thesis using Loaded s by (simp add: panel_loaded_def panel_notice_def panel_ok_def)
  qed
next
  case (Toggled k r)
  assume "panel_ok s"
  then show ?thesis
    using Toggled by (auto simp: toggle_done_def panel_notice_def panel_ok_def bot_owner_with_config split: result.split)
qed (auto simp: panel_ok_def handleToggleEnabled_def Let_def handleDeleteBot_def delete_done_def panel_notice_def handleIntervalChange_def
    split: option.split)

text \<open>Switching sends the configuration that is held with nothing but \<open>enabled\<close> changed.\<close>

definition sends_what_it_holds :: "bot_panel \<Rightarrow> bool \<Rightarrow> bool" where
  "sends_what_it_holds s enabled \<longleftrightarrow> (case pn_bot s of None \<Rightarrow> pn_sent (handleToggleEnabled enabled s) = pn_sent s
     | Some b \<Rightarrow> (\<exists>c. pn_sent (handleToggleEnabled enabled s) = pn_sent s @ [SendConfig c] \<and> map_of c ''enabled'' = Some (JBool enabled)
         \<and> (\<forall>k \<in> - {''enabled''}. map_of c k = map_of (config_of b) k)))"

text \<open>Whatever the API answers, the page only ever holds an instance of the user it is for, and every configuration it
  sends is one that it held with nothing but \<open>enabled\<close> changed.\<close>

theorem panel_shows_own_instance:
  "let s = panel_run es (panel_start user) in
     (case pn_bot s of None \<Rightarrow> True | Some b \<Rightarrow> bot_owner b = prop_of (Some (pn_user s)) ''id'') \<and> sends_what_it_holds s enabled"
proof -
  have "panel_ok s \<Longrightarrow> panel_ok (panel_run es s)" for s by (induction es arbitrary: s) (simp_all add: panel_step_ok)
  moreover have "panel_ok (panel_start user)" by (simp add: panel_ok_def panel_start_def)
  moreover have "sends_what_it_holds s enabled" for s
    by (auto simp: sends_what_it_holds_def handleToggleEnabled_def Let_def obj_put_def update_conv' split: option.split)
  ultimately show ?thesis by (auto simp: panel_ok_def Let_def split: option.split)
qed

text \<open>The whole configuration is sent, so a change that another client made since the page was loaded is undone.\<close>

theorem toggle_undoes_other_changes:
  assumes "pn_bot s = Some (JObj [(''config'', JObj old)])"
  shows "pn_sent (handleToggleEnabled enabled s) = pn_sent s @ [SendConfig (obj_put old ''enabled'' (JBool enabled))]"
  using assms by (simp add: handleToggleEnabled_def Let_def config_of_def prop_of_def)

section \<open>The dashboard is the instance's\<close>

definition loader_run :: "loader_event list \<Rightarrow> loader \<Rightarrow> loader" where
  "loader_run es s = foldl (\<lambda>s e. loader_step e s) s es"

definition loader_ok :: "loader \<Rightarrow> bool" where
  "loader_ok s \<longleftrightarrow> (ld_waiting s \<longrightarrow> ld_targets s (ld_run s) = ld_target s \<and> ld_shown s = None \<and> ld_phase s = DashboardPhase)
     \<and> (\<not> ld_waiting s \<longrightarrow> ld_phase s \<noteq> DashboardPhase)
     \<and> (\<forall>target t. ld_shown s = Some (target, t) \<longrightarrow> target = ld_target s \<and> ld_phase s = EventsPhase)"

lemma loader_step_ok: "loader_ok s \<Longrightarrow> loader_ok (loader_step e s)"
  by (cases e) (auto simp: loader_ok_def loader_effect_def split: result.splits)

text \<open>Whatever bundles arrive, late or never, and however the instance changes meanwhile: the dashboard that is shown is of the
  bot and version the page is for, and nothing is shown while one is awaited, which ends with the answer or the time limit.\<close>

theorem dashboard_is_current:
  "let s = loader_run es (loader_start target) in
     (case ld_shown s of None \<Rightarrow> True | Some (shown_for, t) \<Rightarrow> shown_for = ld_target s \<and> ld_phase s = EventsPhase)
     \<and> (ld_waiting s \<longleftrightarrow> ld_phase s = DashboardPhase)
     \<and> ld_phase (loader_step (TimedOut (ld_run s)) s) \<noteq> DashboardPhase"
proof -
  have run: "loader_ok s \<Longrightarrow> loader_ok (loader_run es s)" for s
    unfolding loader_run_def by (induction es arbitrary: s) (simp_all add: loader_step_ok)
  have "loader_ok (loader_start target)" by (simp add: loader_ok_def loader_start_def loader_effect_def)
  from run [OF this] show ?thesis by (auto simp: loader_ok_def Let_def split: option.split)
qed

section \<open>The copy of a bundle\<close>

text \<open>A bundle with a version is kept: once it has been imported, and as long as the storage keeps it, it is imported
  again without the API. A copy that does not run is replaced by what the API answers, and without a version nothing is kept.\<close>

theorem bundle_is_kept:
  assumes "importBundle runs True (bundle_key ident version) store answer = (Ok t, store')" "t \<noteq> []"
  shows "runs t \<and> (if truthy_opt version then importBundle runs room (bundle_key ident version) store' other = (Ok t, store')
      else store' = store)"
proof -
  have "runs t" "bundle_key ident version = Some k \<Longrightarrow> store' k = Some t" "bundle_key ident version = None \<Longrightarrow> store' = store" for k
    using assms by (auto simp: importBundle_def fetch_bundle_def cached_bundle_def split: option.splits result.splits if_splits)
  then show ?thesis
    using assms(2) by (auto simp: importBundle_def cached_bundle_def bundle_key_def)
qed

theorem bundle_is_kept_witness:
  "(\<lambda>t. t = ''b'') ''b'' \<and> (if truthy_opt (Some ''1.0.0'')
     then importBundle (\<lambda>t. t = ''b'') False (bundle_key ''i'' (Some ''1.0.0'')) [''quantflow-bundle-i-1.0.0'' \<mapsto> ''b''] (Failure ''down'')
       = (Ok ''b'', [''quantflow-bundle-i-1.0.0'' \<mapsto> ''b'']) else [''quantflow-bundle-i-1.0.0'' \<mapsto> ''b''] = Map.empty)"
  by (rule bundle_is_kept [where answer = "Ok ''b''" and store = Map.empty and t = "''b''"])
    (simp_all add: importBundle_def fetch_bundle_def cached_bundle_def bundle_key_def fun_eq_iff)

end
