(* ===== verification/Settings.thy ===== *)
theory Settings
  imports BrowserRoutes UserService
begin

text \<open>
  The settings of the web client: frontend/src/components/settings/ (password, profile, deactivation, API keys and their dialogs),
  components/auth/login-form.tsx and app/settings/users/page.tsx. A form is a computation in the browser that gives its new
  state and the notices it shows, each a title and a text. The flags that only disable a button while a request is
  under way are left out, except where one guards a request.
\<close>

type_synonym notice = "string \<times> json"

text \<open>The text of an \<open>Error\<close> made of a value; numbers are whole.\<close>

definition thrown_text :: "json \<Rightarrow> string" where
  "thrown_text = js_text (\<lambda>q. int_text \<lfloor>q\<rfloor>)"

text \<open>\<open>throw new Error(errorData.message || d)\<close>.\<close>

definition throw_answer :: "json option \<Rightarrow> string \<Rightarrow> (browser, 'a) io" where
  "throw_answer body d = io_bind (json_of body) (\<lambda>errorData. io_bind (read_prop errorData ''message'') (\<lambda>m.
     js_throw (thrown_text (value_or m (JStr d)))))"

definition error_notice :: "js_error \<Rightarrow> string \<Rightarrow> notice" where
  "error_notice e d = (''Error'', JStr (if errorMessage e = [] then d else errorMessage e))"

text \<open>The content type that a form sets is the one \<open>authFetch\<close> sets.\<close>

definition form_request :: "string \<Rightarrow> string \<Rightarrow> js_object \<Rightarrow> http_request" where
  "form_request meth url entries = \<lparr>rq_method = meth, rq_url = url, rq_headers = [], rq_body = Some (JObj entries)\<rparr>"

section \<open>The password\<close>

record password_form =
  pf_current :: string
  pf_new :: string
  pf_confirm :: string

definition empty_password_form :: password_form where
  "empty_password_form = \<lparr>pf_current = [], pf_new = [], pf_confirm = []\<rparr>"

definition password_submit :: "password_form \<Rightarrow> (browser, password_form \<times> notice list) io" where
  "password_submit f = io_bind (io_get br_user) (\<lambda>user.
     if user = None then io_return (f, [])
     else if pf_new f \<noteq> pf_confirm f then io_return (f, [(''Error'', JStr ''New passwords do not match.'')])
     else if length (pf_new f) < 6 then io_return (f, [(''Error'', JStr ''New password must be at least 6 characters long.'')])
     else io_catch (io_bind (authFetch False (form_request ''PUT'' ''/api/users/change-password''
           [(''currentPassword'', JStr (pf_current f)), (''newPassword'', JStr (pf_new f))])) (\<lambda>(status, _, body).
         if \<not> http_ok status then throw_answer body ''Failed to update password''
         else io_bind context_logout (\<lambda>_. io_return (empty_password_form,
           [(''Password updated'', JStr ''Your password has been updated. Sign in again to continue.'')]))))
       (\<lambda>e. io_return (f, [error_notice e ''Failed to update password. Please check your current password and try again.''])))"

section \<open>The profile and the account\<close>

definition profile_submit :: "string \<Rightarrow> (browser, notice list) io" where
  "profile_submit nm = io_bind (io_get br_user) (\<lambda>user. if user = None then io_return []
     else io_catch (io_bind (authFetch False (form_request ''PUT'' ''/api/users/profile'' [(''username'', JStr nm)])) (\<lambda>(status, _, body).
         if \<not> http_ok status then throw_answer body ''Failed to update profile''
         else io_bind refreshUser (\<lambda>_. io_return [(''Profile updated'', JStr ''Your profile has been updated successfully.'')])))
       (\<lambda>e. io_return [error_notice e ''Failed to update profile. Please try again.'']))"

definition delete_account_submit :: "string \<Rightarrow> (browser, notice list) io" where
  "delete_account_submit password = io_bind (io_get br_user) (\<lambda>user. if user = None then io_return []
     else io_catch (io_bind (authFetch False (form_request ''DELETE'' ''/api/users/delete-account'' [(''password'', JStr password)]))
         (\<lambda>(status, _, body). if \<not> http_ok status then throw_answer body ''Failed to deactivate account''
         else io_bind (io_catch context_logout (\<lambda>_. io_return ())) (\<lambda>_.
           io_return [(''Account deactivated'', JStr ''Your account has been deactivated.'')])))
       (\<lambda>e. io_return [error_notice e ''Failed to deactivate account. Please check your password and try again.'']))"

text \<open>The error that the form of the login shows; null without one.\<close>

definition login_submit :: "string \<Rightarrow> string \<Rightarrow> (browser, json) io" where
  "login_submit email password = io_catch (io_bind (context_login (JObj [(''email'', JStr email), (''password'', JStr password)])) (\<lambda>r.
     case r of Ok _ \<Rightarrow> io_return JNull | Failure e \<Rightarrow> io_return (value_or (Some e) (JStr ''Login failed''))))
     (\<lambda>_. io_return (JStr ''An unexpected error occurred''))"

section \<open>The accounts\<close>

record users_page =
  us_users :: "json list"
  us_error :: json
  us_fetching :: bool

text \<open>\<open>result.data || []\<close>: an answer that is no list stays what it is and cannot be sorted; it is the empty list here.\<close>

definition list_of :: "json option \<Rightarrow> json list" where
  "list_of v = (case v of Some (JArr vs) \<Rightarrow> vs | _ \<Rightarrow> [])"

definition loadUsers :: "users_page \<Rightarrow> (browser, users_page) io" where
  "loadUsers s = io_bind listAdminUsers (\<lambda>r. io_return (case r of
      Ok d \<Rightarrow> s\<lparr>us_users := list_of d, us_error := JNull, us_fetching := False\<rparr>
    | Failure e \<Rightarrow> s\<lparr>us_error := e, us_fetching := False\<rparr>))"

text \<open>Where the page sends who may not see it: None for an administrator.\<close>

definition users_page_guard :: "browser \<Rightarrow> string option" where
  "users_page_guard b = (case br_user b of None \<Rightarrow> Some ''/login''
     | Some u \<Rightarrow> if prop_of (Some u) ''role'' = Some (JStr ''admin'') then None else Some ''/settings/profile'')"

definition handleUpdateUser :: "string \<Rightarrow> json \<Rightarrow> users_page \<Rightarrow> (browser, users_page) io" where
  "handleUpdateUser u input s = io_bind (updateAdminUser u input) (\<lambda>r. io_return (case r of
      Failure e \<Rightarrow> s\<lparr>us_error := e\<rparr>
    | Ok d \<Rightarrow> s\<lparr>us_error := JNull, us_users := map (\<lambda>x. if prop_of (Some x) ''id'' = Some (JStr u) then (case d of Some y \<Rightarrow> y | None \<Rightarrow> JNull) else x) (us_users s)\<rparr>))"

definition handleCreateUser :: "json \<Rightarrow> users_page \<Rightarrow> (browser, users_page \<times> json) io" where
  "handleCreateUser input s = io_bind (createAdminUser input) (\<lambda>r. io_return (case r of
      Failure e \<Rightarrow> (s\<lparr>us_error := JNull\<rparr>, e)
    | Ok d \<Rightarrow> (s\<lparr>us_error := JNull, us_users := us_users s @ [case d of Some y \<Rightarrow> y | None \<Rightarrow> JNull]\<rparr>, JNull)))"

definition handleResetPassword :: "string \<Rightarrow> string \<Rightarrow> users_page \<Rightarrow> (browser, users_page \<times> bool) io" where
  "handleResetPassword u password s = io_bind (resetAdminUserPassword u password) (\<lambda>r. io_return (case r of
      Failure e \<Rightarrow> (s\<lparr>us_error := e\<rparr>, False) | Ok _ \<Rightarrow> (s\<lparr>us_error := JNull\<rparr>, True)))"

text \<open>What the buttons of a row ask for; nothing for the configured root administrator.\<close>

definition toggle_active_input :: "json \<Rightarrow> json option" where
  "toggle_active_input managedUser = (if truthy_value (prop_of (Some managedUser) ''isConfiguredRootAdmin'') then None
     else Some (JObj [(''isActive'', JBool (\<not> truthy_value (prop_of (Some managedUser) ''isActive'')))]))"

definition role_input :: "json \<Rightarrow> string \<Rightarrow> json option" where
  "role_input managedUser role = (if truthy_value (prop_of (Some managedUser) ''isConfiguredRootAdmin'') then None
     else Some (JObj [(''role'', JStr role)]))"

record create_user_form =
  cu_username :: string
  cu_email :: string
  cu_password :: string
  cu_role :: string

text \<open>An undefined name is left out of the request.\<close>

definition create_user_input :: "create_user_form \<Rightarrow> json" where
  "create_user_input f = JObj ((if js_trim (cu_username f) = [] then [] else [(''username'', JStr (js_trim (cu_username f)))])
     @ [(''email'', JStr (cu_email f)), (''password'', JStr (cu_password f)), (''role'', JStr (cu_role f))])"

definition empty_user_form :: create_user_form where
  "empty_user_form = \<lparr>cu_username = [], cu_email = [], cu_password = [], cu_role = ''user''\<rparr>"

text \<open>After the answer: the form, whether the dialog is open, and the error.\<close>

definition create_user_done :: "json \<Rightarrow> create_user_form \<Rightarrow> create_user_form \<times> bool \<times> json" where
  "create_user_done createError f = (if json_truthy createError then (f, True, createError) else (empty_user_form, False, JNull))"

section \<open>The API keys\<close>

text \<open>
  The page and the dialog in which a key is made and shown once. \<open>ky_creating\<close>: a request to make a key is under way;
  \<open>ky_refreshing\<close>: its answer has come and the list is read again; in both the form is disabled. \<open>ky_sent\<close>: the names sent.
\<close>

record key_page =
  ky_keys :: "json option"
  ky_stats :: "json option"
  ky_loading :: bool
  ky_create_open :: bool
  ky_delete_open :: bool
  ky_details_open :: bool
  ky_selected :: "json option"
  ky_new :: "json option"
  ky_visible :: "string list"
  ky_name :: string
  ky_creating :: bool
  ky_refreshing :: bool
  ky_showKey :: bool
  ky_copied :: bool
  ky_sent :: "string list"
  ky_notices :: "notice list"

definition key_page_start :: key_page where
  "key_page_start = \<lparr>ky_keys = Some (JArr []), ky_stats = None, ky_loading = True, ky_create_open = False, ky_delete_open = False,
     ky_details_open = False, ky_selected = None, ky_new = None, ky_visible = [], ky_name = [], ky_creating = False,
     ky_refreshing = False, ky_showKey = False, ky_copied = False, ky_sent = [], ky_notices = []\<rparr>"

definition key_notice :: "string \<Rightarrow> json \<Rightarrow> key_page \<Rightarrow> key_page" where
  "key_notice title txt s = s\<lparr>ky_notices := ky_notices s @ [(title, txt)]\<rparr>"

text \<open>\<open>fetchApiKeys\<close> with the answers of both requests; the services do not throw.\<close>

definition keys_fetched :: "(json option, service_error) result \<Rightarrow> (json option, service_error) result \<Rightarrow> key_page \<Rightarrow> key_page" where
  "keys_fetched keysResult statsResult s =
     (let s1 = (case keysResult of Ok d \<Rightarrow> s\<lparr>ky_keys := d\<rparr> | Failure _ \<Rightarrow> key_notice ''Error'' (JStr ''Failed to load API keys.'') s) in
      (case statsResult of Ok d \<Rightarrow> s1\<lparr>ky_stats := d\<rparr> | Failure _ \<Rightarrow> s1)\<lparr>ky_loading := False\<rparr>)"

text \<open>The effect of the dialog: opened, or left without a new key, its form is emptied.\<close>

definition dialog_effect :: "key_page \<Rightarrow> key_page \<Rightarrow> key_page" where
  "dialog_effect old s = (if (ky_create_open old, ky_new old) \<noteq> (ky_create_open s, ky_new s) \<and> ky_create_open s \<and> ky_new s = None
     then s\<lparr>ky_name := [], ky_showKey := False, ky_copied := False\<rparr> else s)"

definition handleCreateDialogClose :: "bool \<Rightarrow> key_page \<Rightarrow> key_page" where
  "handleCreateDialogClose is_open s = s\<lparr>ky_create_open := is_open, ky_new := (if is_open then ky_new s else None)\<rparr>"

definition handleDone :: "key_page \<Rightarrow> key_page" where
  "handleDone s = handleCreateDialogClose False (s\<lparr>ky_new := None, ky_name := [], ky_showKey := False, ky_copied := False\<rparr>)"

text \<open>Closing: with a new key the user is asked, unless it was copied; without one the page closes the dialog.\<close>

definition handleCancel :: "bool \<Rightarrow> key_page \<Rightarrow> key_page" where
  "handleCancel confirmed s = (if ky_new s \<noteq> None
     then if \<not> ky_copied s \<and> \<not> confirmed then s else handleDone s
     else handleCreateDialogClose False s)"

definition key_submit :: "key_page \<Rightarrow> key_page" where
  "key_submit s = (if js_trim (ky_name s) = [] \<or> ky_creating s \<or> ky_refreshing s \<or> \<not> ky_create_open s \<or> ky_new s \<noteq> None then s
     else s\<lparr>ky_creating := True, ky_sent := ky_sent s @ [js_trim (ky_name s)]\<rparr>)"

definition key_created :: "(json option, service_error) result \<Rightarrow> key_page \<Rightarrow> key_page" where
  "key_created r s = (if \<not> ky_creating s then s else (case r of
      Ok d \<Rightarrow> s\<lparr>ky_creating := False, ky_refreshing := True, ky_new := d\<rparr>
    | Failure e \<Rightarrow> key_notice ''Error'' (se_message e) (s\<lparr>ky_creating := False\<rparr>)))"

definition key_refreshed :: "(json option, service_error) result \<Rightarrow> (json option, service_error) result \<Rightarrow> key_page \<Rightarrow> key_page" where
  "key_refreshed keysResult statsResult s = (if \<not> ky_refreshing s then s
     else key_notice ''Success'' (JStr ''Your API key has been created. Make sure to copy it now!'')
       ((keys_fetched keysResult statsResult s)\<lparr>ky_refreshing := False\<rparr>))"

text \<open>The key counts as copied before the clipboard has answered.\<close>

definition copy_new_key :: "key_page \<Rightarrow> key_page" where
  "copy_new_key s = (if ky_new s = None then s else key_notice ''API Key Copied!''
     (JStr ''Your API key has been copied to clipboard. Store it securely.'') (s\<lparr>ky_copied := True\<rparr>))"

definition openDeleteDialog :: "json \<Rightarrow> key_page \<Rightarrow> key_page" where
  "openDeleteDialog k s = s\<lparr>ky_selected := Some k, ky_delete_open := True\<rparr>"

definition openSetupDialog :: "json \<Rightarrow> key_page \<Rightarrow> key_page" where
  "openSetupDialog k s = s\<lparr>ky_selected := Some k, ky_details_open := True\<rparr>"

text \<open>The list is read again before the notice.\<close>

definition key_deleted :: "(json option, service_error) result \<Rightarrow> key_page \<Rightarrow> key_page" where
  "key_deleted r s = (case r of
      Ok _ \<Rightarrow> key_notice ''API key revoked'' (JStr ''The API key has been revoked successfully.'') (s\<lparr>ky_delete_open := False, ky_selected := None\<rparr>)
    | Failure e \<Rightarrow> key_notice ''Error'' (se_message e) s)"

definition toggleKeyVisibility :: "string \<Rightarrow> key_page \<Rightarrow> key_page" where
  "toggleKeyVisibility k s = s\<lparr>ky_visible := (if k \<in> set (ky_visible s) then remove1 k (ky_visible s) else ky_visible s @ [k])\<rparr>"

datatype key_event =
    OpenCreate
  | TypeName string
  | SubmitName
  | Created "(json option, service_error) result"
  | Refreshed "(json option, service_error) result" "(json option, service_error) result"
  | CopyKey
  | ShowKey
  | CloseDialog bool
  | DonePressed
  | OpenDelete json
  | OpenSetup json
  | KeyDeleted "(json option, service_error) result"
  | ToggleVisible string

fun key_event_of :: "key_event \<Rightarrow> key_page \<Rightarrow> key_page" where
  "key_event_of OpenCreate s = s\<lparr>ky_create_open := True\<rparr>"
| "key_event_of (TypeName n) s = (if ky_creating s \<or> ky_refreshing s \<or> ky_new s \<noteq> None then s else s\<lparr>ky_name := n\<rparr>)"
| "key_event_of SubmitName s = key_submit s"
| "key_event_of (Created r) s = key_created r s"
| "key_event_of (Refreshed a b) s = key_refreshed a b s"
| "key_event_of CopyKey s = copy_new_key s"
| "key_event_of ShowKey s = s\<lparr>ky_showKey := \<not> ky_showKey s\<rparr>"
| "key_event_of (CloseDialog confirmed) s = (if ky_create_open s then handleCancel confirmed s else s)"
| "key_event_of DonePressed s = (if ky_create_open s \<and> ky_new s \<noteq> None then handleDone s else s)"
| "key_event_of (OpenDelete k) s = openDeleteDialog k s"
| "key_event_of (OpenSetup k) s = openSetupDialog k s"
| "key_event_of (KeyDeleted r) s = key_deleted r s"
| "key_event_of (ToggleVisible k) s = toggleKeyVisibility k s"

definition key_step :: "key_event \<Rightarrow> key_page \<Rightarrow> key_page" where
  "key_step e s = dialog_effect s (key_event_of e s)"

fun key_run :: "key_event list \<Rightarrow> key_page \<Rightarrow> key_page" where
  "key_run [] s = s"
| "key_run (e # es) s = key_run es (key_step e s)"

section \<open>A new key is not lost\<close>

definition key_ok :: "key_page \<Rightarrow> bool" where
  "key_ok s \<longleftrightarrow> (ky_creating s \<longrightarrow> ky_new s = None) \<and> (ky_copied s \<longrightarrow> ky_new s \<noteq> None)"

lemmas key_simps = key_step_def dialog_effect_def key_notice_def handleCancel_def handleDone_def handleCreateDialogClose_def
  key_submit_def key_created_def key_refreshed_def keys_fetched_def copy_new_key_def openDeleteDialog_def openSetupDialog_def
  key_deleted_def toggleKeyVisibility_def Let_def

lemma key_step_ok: "key_ok s \<Longrightarrow> key_ok (key_step e s)"
  by (cases e) (auto simp: key_ok_def key_simps split: result.splits)

text \<open>A key that was made stays until the user has copied it, has agreed to lose it, or has pressed the button that says so:
  nothing else that happens on the page, in any order, takes it away, not even closing the dialog before the answer.\<close>

theorem new_key_is_kept:
  "let s = key_run es key_page_start in case ky_new s of None \<Rightarrow> True
     | Some k \<Rightarrow> (case e of DonePressed \<Rightarrow> True
         | CloseDialog confirmed \<Rightarrow> (if confirmed \<or> ky_copied s then True else ky_new (key_step e s) = Some k)
         | _ \<Rightarrow> ky_new (key_step e s) = Some k)"
proof -
  have run: "key_ok s \<Longrightarrow> key_ok (key_run es s)" for s by (induction es arbitrary: s) (simp_all add: key_step_ok)
  define s where "s = key_run es key_page_start"
  have "key_ok s" unfolding s_def by (rule run) (simp add: key_ok_def key_page_start_def)
  then have "case ky_new s of None \<Rightarrow> True
     | Some k \<Rightarrow> (case e of DonePressed \<Rightarrow> True
         | CloseDialog confirmed \<Rightarrow> (if confirmed \<or> ky_copied s then True else ky_new (key_step e s) = Some k)
         | _ \<Rightarrow> ky_new (key_step e s) = Some k)"
    by (cases e; cases "ky_new s") (auto simp: key_ok_def key_simps split: result.splits)
  then show ?thesis unfolding s_def [symmetric] Let_def .
qed

section \<open>A wrong password\<close>

text \<open>How Nest answers an exception: its status, and a body with the message.\<close>

definition nest_answer :: "js_error \<Rightarrow> api_answer" where
  "nest_answer e = (let status = (case e of Http n _ \<Rightarrow> n | _ \<Rightarrow> 500) in
     \<lparr>aa_status = status, aa_text = [], aa_type = Some ''application/json; charset=utf-8'',
      aa_body = JsonBody (JObj [(''message'', JStr (case e of Http _ m \<Rightarrow> m | _ \<Rightarrow> ''Internal server error'')), (''statusCode'', JNum (of_nat status))])\<rparr>)"

lemma wrong_password_refused:
  assumes "requireUser (au_id actor) w = (Inr user, w1)" "\<not> isConfiguredRootAdmin sv user"
    "\<not> bcrypt_compare sv current (user_passwordHash user)"
  shows "changePassword sv actor current new w = (Inl (Http 401 ''Current password is incorrect''), w1)"
  using assms by (simp add: changePassword_def assertRootAdminPasswordUnchanged_def throw_if_def io_bind_run)

text \<open>The request that \<open>authFetch\<close> makes of a request of a form.\<close>

definition auth_sends :: "string \<Rightarrow> http_request \<Rightarrow> http_request" where
  "auth_sends token rq = rq\<lparr>rq_headers := json_header @ rq_headers rq @ [bearer token]\<rparr>"

definition password_request :: "password_form \<Rightarrow> http_request" where
  "password_request f = form_request ''PUT'' ''/api/users/change-password''
     [(''currentPassword'', JStr (pf_current f)), (''newPassword'', JStr (pf_new f))]"

text \<open>C36. A user who mistypes the current password is signed out: the API refuses the change with 401, the handler
  passes the status on, and the client takes every 401 for the end of the session. The user reads that the authentication failed.\<close>

theorem wrong_password_signs_out:
  assumes "requireUser (au_id actor) w = (Inr user, w1)" "\<not> isConfiguredRootAdmin sv user"
      "\<not> bcrypt_compare sv (pf_current f) (user_passwordHash user)"
    and "fst (changePassword sv actor (pf_current f) (pf_new f) w) = Inl refused" "truthy_opt (nv_url env)"
    and "br_ready b" "br_stored b = Some token" "token \<noteq> []" "br_user b \<noteq> None" "pf_new f = pf_confirm f" "6 \<le> length (pf_new f)"
    and "br_net b = route_answer env phrase PasswordPut (auth_sends token (password_request f)) \<lparr>nw_api = [Upstream (nest_answer refused)], nw_sent = []\<rparr> # rest"
  shows "signed_out (snd (password_submit f b)) \<and> fst (password_submit f b) = Inr (f, [(''Error'', JStr ''Authentication failed'')])"
proof -
  have refused: "refused = Http 401 ''Current password is incorrect''"
    using assms(4) wrong_password_refused [OF assms(1-3)] by simp
  define q where "q = as_page_request (auth_sends token (password_request f))"
  have body: "\<exists>v. pr_body q = JsonBody v"
    by (simp add: q_def as_page_request_def auth_sends_def password_request_def form_request_def)
  have typed: "js_includes ''application/json; charset=utf-8'' ''application/json''" by code_simp
  have answer: "\<exists>v w'. change_password_route env q \<lparr>nw_api = [Upstream (nest_answer refused)], nw_sent = []\<rparr> = (Inr (json_answer v 401), w')"
    using body assms(5) typed unfolding refused
    by (auto simp: change_password_route_def with_json_body_def proxyBotApi_def api_fetch_def nest_answer_def io_bind_run io_catch_run
        or_else_def answer_json_def json_of_def Let_def)
  then obtain msg v where net: "br_net b = HttpAnswer 401 msg (Some v) # rest"
    using assms(12) by (auto simp: route_answer_def q_def [symmetric] as_http_answer_def json_answer_def)
  have "isl (fst (authFetch False (password_request f) b)) \<and> signed_out (snd (authFetch False (password_request f) b))"
    using assms(6-8) net signed_out_logout by (simp add: authFetch_def fetch_answer io_bind_run getToken_def js_throw_def)
  moreover have "fst (authFetch False (password_request f) b) = Inl (Err None ''Authentication failed'' None)"
    using assms(6-8) net signed_out_logout by (simp add: authFetch_def fetch_answer io_bind_run getToken_def js_throw_def)
  ultimately show ?thesis
    using assms(9-11) unfolding password_request_def
    by (cases "authFetch False (form_request ''PUT'' ''/api/users/change-password''
        [(''currentPassword'', JStr (pf_current f)), (''newPassword'', JStr (pf_new f))]) b")
      (simp add: password_submit_def io_bind_run io_catch_run error_notice_def)
qed

definition ann_typed :: password_form where
  "ann_typed = \<lparr>pf_current = ''wrong'', pf_new = ''long-enough'', pf_confirm = ''long-enough''\<rparr>"

definition ann_actor :: authenticated_user where
  "ann_actor = demo_actor\<lparr>au_id := ''id-ann''\<rparr>"

definition wrong_password_net :: "http_answer list" where
  "wrong_password_net = [route_answer demo_env (\<lambda>_. ''text'') PasswordPut (auth_sends ''old'' (password_request ann_typed))
     \<lparr>nw_api = [Upstream (nest_answer (Http 401 ''Current password is incorrect''))], nw_sent = []\<rparr>]"

theorem wrong_password_signs_out_witness:
  "signed_out (snd (password_submit ann_typed (demo_browser wrong_password_net)))
   \<and> fst (password_submit ann_typed (demo_browser wrong_password_net)) = Inr (ann_typed, [(''Error'', JStr ''Authentication failed'')])"
proof -
  define ann where "ann = demo_user ''ann'' ''ann@q.io'' USER"
  have calm: "faults demo_world = []" by (simp add: demo_world_def)
  have row: "requireUser (au_id ann_actor) demo_world = (Inr ann, demo_world)"
    unfolding requireUser_calm [OF calm] by (simp add: ann_actor_def ann_def demo_world_def demo_user_def)
  have "\<not> isConfiguredRootAdmin demo_server ann" "\<not> bcrypt_compare demo_server (pf_current ann_typed) (user_passwordHash ann)"
    unfolding ann_def ann_typed_def by code_simp+
  note facts = row this
  have refused: "fst (changePassword demo_server ann_actor (pf_current ann_typed) (pf_new ann_typed) demo_world)
      = Inl (Http 401 ''Current password is incorrect'')"
    by (simp add: wrong_password_refused [OF facts])
  show ?thesis
    by (rule wrong_password_signs_out [OF facts refused, where env = demo_env and token = "''old''" and phrase = "\<lambda>_. ''text''" and rest = "[]"])
      (simp_all add: demo_env_def demo_browser_def wrong_password_net_def ann_typed_def)
qed

end
