(* ===== verification/Console.thy ===== *)
theory Console
  imports ApiServices Events Dates "HOL-Library.Multiset"
begin

text \<open>
  frontend/src/components/bot/console-interface.tsx: the cache of parsed lines, what a line shows, the search and the date
  filters; and the filters of the lists of bots, hooks/use-bot-filters.ts and hooks/use-custom-bot-filters.ts.
\<close>

section \<open>The cache of parsed lines\<close>

definition cache_limit :: nat where
  "cache_limit = 5000"

definition cache_key :: "string \<Rightarrow> string option \<Rightarrow> string" where
  "cache_key content timestamp = (if truthy_opt timestamp then the timestamp @ CHR 0x00 # content else content)"

text \<open>The map keeps the order of insertion, so the first key is the oldest.\<close>

definition cachedParseLogLine :: "page_env \<Rightarrow> string \<Rightarrow> string option \<Rightarrow> (string \<times> log_event) list \<Rightarrow> log_event \<times> (string \<times> log_event) list" where
  "cachedParseLogLine pe content timestamp cache = (case map_of cache (cache_key content timestamp) of
      Some r \<Rightarrow> (r, cache)
    | None \<Rightarrow> (let r = parseLogLine pe content timestamp; cache' = cache @ [(cache_key content timestamp, r)] in
        (r, if cache_limit < length cache' then tl cache' else cache')))"

fun parse_all :: "page_env \<Rightarrow> (string \<times> string option) list \<Rightarrow> (string \<times> log_event) list \<Rightarrow> log_event list \<times> (string \<times> log_event) list" where
  "parse_all pe [] cache = ([], cache)"
| "parse_all pe ((content, timestamp) # lines) cache = (let (r, cache1) = cachedParseLogLine pe content timestamp cache;
     (rs, cache2) = parse_all pe lines cache1 in (r # rs, cache2))"

section \<open>What a line shows\<close>

text \<open>Month, day and time of a date, in a zone that many milliseconds ahead of UTC.\<close>

definition formatTimestamp :: "int \<Rightarrow> js_date option \<Rightarrow> (string \<times> string) option" where
  "formatTimestamp ahead d = (case d of Some (Some ms) \<Rightarrow>
      (let t = (ms + ahead) div 86400000; r = (ms + ahead) mod 86400000; two = (\<lambda>n. pad_zero 2 (int_text n)) in
        Some (two (month_of t + 1) @ ''-'' @ two (date_of t), two (r div 3600000) @ '':'' @ two (r div 60000 mod 60) @ '':'' @ two (r div 1000 mod 60)))
    | _ \<Rightarrow> None)"

definition line_message :: "log_event \<Rightarrow> string \<Rightarrow> string" where
  "line_message event content = (case ev_data event of JStr s \<Rightarrow> s | _ \<Rightarrow> content)"

definition line_level :: "log_event \<Rightarrow> log_level" where
  "line_level event = (case ev_level event of None \<Rightarrow> INFO | Some l \<Rightarrow> l)"

text \<open>The time of a metric, from its own entry when the line has none.\<close>

definition metric_time :: "page_env \<Rightarrow> int \<Rightarrow> log_event \<Rightarrow> (string \<times> string) option" where
  "metric_time pe ahead event = (case formatTimestamp ahead (ev_timestamp event) of Some t \<Rightarrow> Some t
     | None \<Rightarrow> (case prop_of (Some (ev_data event)) ''timestamp'' of
          Some (JNum q) \<Rightarrow> if q = 0 then None else formatTimestamp ahead (Some (date_of_number (epoch_ms q)))
        | Some (JStr s) \<Rightarrow> if s = [] then None else (case digits_z s of
              Some d \<Rightarrow> formatTimestamp ahead (Some (date_of_number (epoch_ms (of_nat (digits_value d)))))
            | None \<Rightarrow> formatTimestamp ahead (Some (pe_date pe s)))
        | _ \<Rightarrow> None))"

text \<open>The text of a number or a truth value is its JSON text.\<close>

definition displayData :: "page_env \<Rightarrow> json \<Rightarrow> (string \<times> string) list" where
  "displayData pe metric = (case metric of
      JObj kvs \<Rightarrow> map (\<lambda>(k, v). (k, case v of JStr s \<Rightarrow> s | _ \<Rightarrow> pe_stringify pe v))
        (filter (\<lambda>(k, v). k \<noteq> ''_metric'' \<and> k \<noteq> ''timestamp'') kvs)
    | _ \<Rightarrow> [])"

definition summaryContent :: "page_env \<Rightarrow> json \<Rightarrow> string" where
  "summaryContent pe metric = js_join '' | '' (map (\<lambda>(k, t). k @ '': '' @ t) (displayData pe metric))"

definition copied_metric :: "page_env \<Rightarrow> json \<Rightarrow> string" where
  "copied_metric pe metric = js_join [CHR 0x0A] (map (\<lambda>(k, t). k @ '': '' @ t) (displayData pe metric))"

text \<open>The indicator of the connection; hidden without one.\<close>

definition connection_label :: "bool option \<Rightarrow> bool \<Rightarrow> string option" where
  "connection_label online has_update = (case online of None \<Rightarrow> None
     | Some c \<Rightarrow> Some (if c then ''Live'' else if has_update then ''Polling'' else ''Connecting...''))"

definition displayLogs :: "string \<Rightarrow> raw_log_entry list \<Rightarrow> raw_log_entry list" where
  "displayLogs searchQuery logs = (if searchQuery = [] then logs
     else filter (\<lambda>l. js_includes (js_lower (re_content l)) (js_lower searchQuery)) logs)"

text \<open>A line is drawn again only when its text or date changed.\<close>

definition same_line :: "raw_log_entry \<Rightarrow> raw_log_entry \<Rightarrow> bool" where
  "same_line a b \<longleftrightarrow> re_content a = re_content b \<and> re_date a = re_date b"

section \<open>The filters of the console\<close>

datatype date_call = DateChange "string option" | DateRangeChange string string

text \<open>\<open>cs_calls\<close>: what the page of the logs was asked for, the last one first.\<close>

record console =
  cs_search :: string
  cs_autoScroll :: bool
  cs_selectedDate :: string
  cs_start :: string
  cs_end :: string
  cs_showFilters :: bool
  cs_calls :: "date_call list"

definition console_start :: console where
  "console_start = \<lparr>cs_search = [], cs_autoScroll = True, cs_selectedDate = [], cs_start = [], cs_end = [], cs_showFilters = False, cs_calls = []\<rparr>"

definition compact_date :: "string \<Rightarrow> string" where
  "compact_date v = filter (\<lambda>c. c \<noteq> CHR ''-'') v"

definition handleDateChange :: "string \<Rightarrow> console \<Rightarrow> console" where
  "handleDateChange v s = (if v \<noteq> []
     then s\<lparr>cs_selectedDate := v, cs_start := [], cs_end := [], cs_calls := DateChange (Some (compact_date v)) # cs_calls s\<rparr>
     else s\<lparr>cs_selectedDate := v, cs_calls := DateChange None # cs_calls s\<rparr>)"

definition handleDateRangeChange :: "string \<Rightarrow> string \<Rightarrow> console \<Rightarrow> console" where
  "handleDateRangeChange a b s = (if a \<noteq> [] \<and> b \<noteq> []
     then s\<lparr>cs_selectedDate := [], cs_calls := DateRangeChange (compact_date a) (compact_date b) # cs_calls s\<rparr> else s)"

definition startChange :: "string \<Rightarrow> console \<Rightarrow> console" where
  "startChange v s = (if v \<noteq> [] \<and> cs_end s \<noteq> [] then handleDateRangeChange v (cs_end s) (s\<lparr>cs_start := v\<rparr>) else s\<lparr>cs_start := v\<rparr>)"

definition endChange :: "string \<Rightarrow> console \<Rightarrow> console" where
  "endChange v s = (if v \<noteq> [] \<and> cs_start s \<noteq> [] then handleDateRangeChange (cs_start s) v (s\<lparr>cs_end := v\<rparr>) else s\<lparr>cs_end := v\<rparr>)"

definition clearFilters :: "console \<Rightarrow> console" where
  "clearFilters s = s\<lparr>cs_search := [], cs_selectedDate := [], cs_start := [], cs_end := [], cs_calls := DateChange None # cs_calls s\<rparr>"

definition clear_is_shown :: "console \<Rightarrow> bool" where
  "clear_is_shown s \<longleftrightarrow> cs_search s \<noteq> [] \<or> cs_selectedDate s \<noteq> [] \<or> cs_start s \<noteq> []"

datatype console_event = Search string | DateInput string | StartInput string | EndInput string | ClearClicked | ToggleScroll | ToggleFilters

text \<open>An input reports a change only.\<close>

fun console_step :: "console_event \<Rightarrow> console \<Rightarrow> console" where
  "console_step (Search q) s = s\<lparr>cs_search := q\<rparr>"
| "console_step (DateInput v) s = (if v = cs_selectedDate s then s else handleDateChange v s)"
| "console_step (StartInput v) s = (if v = cs_start s then s else startChange v s)"
| "console_step (EndInput v) s = (if v = cs_end s then s else endChange v s)"
| "console_step ClearClicked s = (if clear_is_shown s then clearFilters s else s)"
| "console_step ToggleScroll s = s\<lparr>cs_autoScroll := \<not> cs_autoScroll s\<rparr>"
| "console_step ToggleFilters s = s\<lparr>cs_showFilters := \<not> cs_showFilters s\<rparr>"

fun console_run :: "console_event list \<Rightarrow> console \<Rightarrow> console" where
  "console_run [] s = s"
| "console_run (e # es) s = console_run es (console_step e s)"

section \<open>The filters of the lists\<close>

text \<open>The filters of deployed instances and of bots; a value that is no text has no \<open>toLowerCase\<close>, and the filter throws (None).\<close>

datatype type_filter = AllTypes | Scheduled | Realtime
datatype status_filter = AnyStatus | Enabled | Disabled

definition set_filter :: "'f \<Rightarrow> 'f \<Rightarrow> 'f \<Rightarrow> 'f" where
  "set_filter none value prev = (if prev = value then none else value)"

definition lower_text :: "json \<Rightarrow> string option" where
  "lower_text v = (case v of JStr s \<Rightarrow> Some (js_lower s) | _ \<Rightarrow> None)"

definition search_matches :: "string \<Rightarrow> string option \<Rightarrow> string option \<Rightarrow> bool option" where
  "search_matches search a b = (case (a, b) of (Some x, Some y) \<Rightarrow>
      Some (js_includes x (js_lower (js_trim search)) \<or> js_includes y (js_lower (js_trim search))) | _ \<Rightarrow> None)"

definition undefined_or :: "json option \<Rightarrow> json" where
  "undefined_or v = (case v of None \<Rightarrow> JNull | Some x \<Rightarrow> x)"

definition type_matches :: "type_filter \<Rightarrow> json option \<Rightarrow> bool" where
  "type_matches t config = (case t of AllTypes \<Rightarrow> True
     | Scheduled \<Rightarrow> truthy_value (prop_of config ''schedule'') | Realtime \<Rightarrow> \<not> truthy_value (prop_of config ''schedule''))"

definition status_matches :: "status_filter \<Rightarrow> json option \<Rightarrow> bool" where
  "status_matches st config = (let e = prop_of config ''enabled''; enabled = (if e = None \<or> e = Some JNull then True else truthy_value e) in
     case st of AnyStatus \<Rightarrow> True | Enabled \<Rightarrow> enabled | Disabled \<Rightarrow> \<not> enabled)"

definition bot_passes :: "string \<Rightarrow> type_filter \<Rightarrow> status_filter \<Rightarrow> json \<Rightarrow> bool option" where
  "bot_passes search t st b = (let config = prop_of (Some b) ''config'' in
     case (if js_trim search = [] then Some True
           else search_matches search (lower_text (value_or (prop_of config ''name'') (undefined_or (prop_of (Some b) ''id''))))
             (lower_text (value_or (prop_of config ''symbol'') (JStr [])))) of
       None \<Rightarrow> None
     | Some found \<Rightarrow> Some (found \<and> type_matches t config \<and> status_matches st config))"

text \<open>\<open>Array.filter\<close> with a condition that may throw.\<close>

fun filter_opt :: "('a \<Rightarrow> bool option) \<Rightarrow> 'a list \<Rightarrow> 'a list option" where
  "filter_opt p [] = Some []"
| "filter_opt p (x # xs) = (case p x of None \<Rightarrow> None
     | Some keep \<Rightarrow> (case filter_opt p xs of None \<Rightarrow> None | Some ys \<Rightarrow> Some (if keep then x # ys else ys)))"

definition filterBots :: "string \<Rightarrow> type_filter \<Rightarrow> status_filter \<Rightarrow> json list \<Rightarrow> json list option" where
  "filterBots search t st all_bots = filter_opt (bot_passes search t st) all_bots"

definition hasActiveFilters :: "string \<Rightarrow> type_filter \<Rightarrow> status_filter \<Rightarrow> bool" where
  "hasActiveFilters search t st \<longleftrightarrow> t \<noteq> AllTypes \<or> st \<noteq> AnyStatus \<or> js_trim search \<noteq> []"

definition activeCount :: "type_filter \<Rightarrow> status_filter \<Rightarrow> nat" where
  "activeCount t st = (if t \<noteq> AllTypes then 1 else 0) + (if st \<noteq> AnyStatus then 1 else 0)"

text \<open>A bot with its versions: only its newest version is looked at.\<close>

definition custom_type_matches :: "type_filter \<Rightarrow> string \<Rightarrow> bool" where
  "custom_type_matches t botType = (case t of AllTypes \<Rightarrow> True
     | Realtime \<Rightarrow> botType \<in> {''real-time'', ''realtime''} | Scheduled \<Rightarrow> botType = ''scheduled'')"

definition newest_config :: "ui_bot \<Rightarrow> json option" where
  "newest_config b = (case ub_versions b of [] \<Rightarrow> None | v # _ \<Rightarrow> uv_config v)"

definition custom_bot_passes :: "string \<Rightarrow> type_filter \<Rightarrow> ui_bot \<Rightarrow> bool option" where
  "custom_bot_passes search t b = (let config = newest_config b in
     case (if js_trim search = [] then Some True
           else search_matches search (lower_text (undefined_or (ub_name b))) (lower_text (value_or (prop_of config ''description'') (JStr [])))) of
       None \<Rightarrow> None
     | Some found \<Rightarrow> if \<not> found then Some False else if t = AllTypes then Some True
         else (case lower_text (value_or (prop_of config ''type'') (JStr [])) of None \<Rightarrow> None
           | Some botType \<Rightarrow> Some (custom_type_matches t botType)))"

definition filterCustomBots :: "string \<Rightarrow> type_filter \<Rightarrow> ui_bot list \<Rightarrow> ui_bot list option" where
  "filterCustomBots search t all_bots = filter_opt (custom_bot_passes search t) all_bots"

section \<open>The cache changes nothing\<close>

definition plain_text :: "string \<Rightarrow> bool" where
  "plain_text s \<longleftrightarrow> CHR 0x00 \<notin> set s"

definition plain_line :: "string \<times> string option \<Rightarrow> bool" where
  "plain_line l \<longleftrightarrow> plain_text (fst l) \<and> (case snd l of None \<Rightarrow> True | Some t \<Rightarrow> plain_text t)"

lemma parse_without_time: "\<not> truthy_opt timestamp \<Longrightarrow> parseLogLine pe content timestamp = parseLogLine pe content None"
proof -
  assume "\<not> truthy_opt timestamp"
  then have "resolveTimestamp pe timestamp = resolveTimestamp pe None" by (simp add: fun_eq_iff resolveTimestamp_def)
  then show ?thesis
    unfolding parseLogLine_chain parseMetricJSON_def parseStructuredJSON_def parseBracketLog_def parsePlainText_def
    by (simp only:)
qed

lemma key_determines_parse:
  assumes "plain_line (c, t)" "plain_line (c', t')" "cache_key c t = cache_key c' t'"
  shows "parseLogLine pe c t = parseLogLine pe c' t'"
proof (cases "truthy_opt t"; cases "truthy_opt t'")
  assume t: "truthy_opt t" and t': "truthy_opt t'"
  obtain x y where xy: "t = Some x" "t' = Some y" using t t' by (cases t; cases t') auto
  then have "x @ CHR 0x00 # c = y @ CHR 0x00 # c'" "CHR 0x00 \<notin> set x" "CHR 0x00 \<notin> set y"
    using assms t t' by (simp_all add: cache_key_def plain_line_def plain_text_def)
  then have "x = y \<and> c = c'" by (auto simp: append_eq_append_conv2 Cons_eq_append_conv append_eq_Cons_conv)
  then show ?thesis using xy by simp
next
  assume "truthy_opt t" "\<not> truthy_opt t'"
  then have "CHR 0x00 \<in> set c'" using assms(3) by (metis cache_key_def in_set_conv_decomp)
  then show ?thesis using assms(2) by (simp add: plain_line_def plain_text_def)
next
  assume "\<not> truthy_opt t" "truthy_opt t'"
  then have "CHR 0x00 \<in> set c" using assms(3) by (metis cache_key_def in_set_conv_decomp)
  then show ?thesis using assms(1) by (simp add: plain_line_def plain_text_def)
next
  assume "\<not> truthy_opt t" "\<not> truthy_opt t'"
  then show ?thesis using assms(3) parse_without_time [of t pe c] parse_without_time [of t' pe c'] by (simp add: cache_key_def)
qed

definition entry_ok :: "page_env \<Rightarrow> string \<times> log_event \<Rightarrow> bool" where
  "entry_ok pe x \<longleftrightarrow> (\<exists>l. plain_line l \<and> fst x = cache_key (fst l) (snd l) \<and> snd x = parseLogLine pe (fst l) (snd l))"

definition cache_ok :: "page_env \<Rightarrow> (string \<times> log_event) list \<Rightarrow> bool" where
  "cache_ok pe cache \<longleftrightarrow> length cache \<le> cache_limit \<and> (\<forall>x \<in> set cache. entry_ok pe x)"

lemma cached_parse_ok:
  assumes "cache_ok pe cache" "plain_line (c, t)"
  shows "fst (cachedParseLogLine pe c t cache) = parseLogLine pe c t \<and> cache_ok pe (snd (cachedParseLogLine pe c t cache))"
proof (cases "map_of cache (cache_key c t)")
  case None
  define cache' where "cache' = cache @ [(cache_key c t, parseLogLine pe c t)]"
  have "entry_ok pe (cache_key c t, parseLogLine pe c t)"
    unfolding entry_ok_def using assms(2) by (intro exI [of _ "(c, t)"]) simp
  then have all: "\<forall>x \<in> set cache'. entry_ok pe x" using assms(1) by (simp add: cache'_def cache_ok_def)
  moreover have "\<forall>x \<in> set (tl cache'). entry_ok pe x" using all by (cases cache') auto
  ultimately show ?thesis
    using None assms(1) unfolding cachedParseLogLine_def cache'_def [symmetric] Let_def
    by (simp add: cache_ok_def) (simp add: cache'_def)
next
  case (Some r)
  then obtain l where "plain_line l" "cache_key c t = cache_key (fst l) (snd l)" "r = parseLogLine pe (fst l) (snd l)"
    using assms(1) map_of_SomeD [OF Some] by (fastforce simp: cache_ok_def entry_ok_def)
  then have "r = parseLogLine pe c t" using key_determines_parse [of c t "fst l" "snd l"] assms(2) by simp
  then show ?thesis using Some assms(1) by (simp add: cachedParseLogLine_def)
qed

text \<open>Reading lines through the cache gives what parsing each of them gives, in any order and with any repetition, and
  the cache never holds more than 5000 of them, as long as no line contains the character that separates the parts of a key.\<close>

theorem cache_is_transparent:
  assumes "list_all plain_line lines"
  shows "let (rs, cache) = parse_all pe lines [] in rs = map (\<lambda>l. parseLogLine pe (fst l) (snd l)) lines \<and> length cache \<le> 5000"
proof -
  have "cache_ok pe cache \<Longrightarrow> fst (parse_all pe lines cache) = map (\<lambda>l. parseLogLine pe (fst l) (snd l)) lines
      \<and> cache_ok pe (snd (parse_all pe lines cache))" for cache
    using assms
  proof (induction lines arbitrary: cache)
    case (Cons l ls)
    obtain c t where l: "l = (c, t)" by (cases l)
    have "plain_line (c, t)" using Cons.prems(2) l by simp
    note ok = cached_parse_ok [OF Cons.prems(1) this]
    obtain r cache1 where r: "cachedParseLogLine pe c t cache = (r, cache1)" by (cases "cachedParseLogLine pe c t cache")
    show ?case using Cons.IH [of cache1] Cons.prems(2) ok by (simp add: l r case_prod_beta Let_def)
  qed simp
  from this [of "[]"] show ?thesis by (simp add: cache_ok_def case_prod_beta cache_limit_def)
qed

section \<open>The inputs tell the filter\<close>

definition inputs_ok :: "console \<Rightarrow> bool" where
  "inputs_ok s \<longleftrightarrow> (if cs_selectedDate s \<noteq> []
       then (\<exists>cs. cs_calls s = DateChange (Some (compact_date (cs_selectedDate s))) # cs) \<and> (cs_start s = [] \<or> cs_end s = [])
     else if cs_start s \<noteq> [] \<and> cs_end s \<noteq> []
       then (\<exists>cs. cs_calls s = DateRangeChange (compact_date (cs_start s)) (compact_date (cs_end s)) # cs)
     else True)"

lemma console_step_ok: "inputs_ok s \<Longrightarrow> inputs_ok (console_step e s)"
  by (cases e; force simp: inputs_ok_def handleDateChange_def startChange_def endChange_def handleDateRangeChange_def clearFilters_def
      split: if_splits)

text \<open>Whatever is typed, in any order: a date in the input is the filter that was asked for last, and so is a range
  both ends of which are filled in; there is never a date together with a whole range.\<close>

theorem inputs_tell_filter:
  "let s = console_run es console_start in
     if cs_selectedDate s \<noteq> [] then hd (cs_calls s) = DateChange (Some (compact_date (cs_selectedDate s))) \<and> (cs_start s = [] \<or> cs_end s = [])
     else if cs_start s \<noteq> [] \<and> cs_end s \<noteq> [] then hd (cs_calls s) = DateRangeChange (compact_date (cs_start s)) (compact_date (cs_end s))
     else True"
proof -
  have "inputs_ok s \<Longrightarrow> inputs_ok (console_run es s)" for s by (induction es arbitrary: s) (simp_all add: console_step_ok)
  from this [of console_start] show ?thesis by (auto simp: inputs_ok_def console_start_def Let_def split: if_splits)
qed

text \<open>Emptying the start of a range keeps the range as the filter, and takes away the button that would clear it.\<close>

theorem range_without_clear:
  "let s = console_run [StartInput ''2024-02-28'', EndInput ''2024-03-01'', StartInput []] console_start in
     cs_calls s = [DateRangeChange ''20240228'' ''20240301''] \<and> \<not> clear_is_shown s \<and> console_step ClearClicked s = s"
  by code_simp

section \<open>Filters select\<close>

lemma filter_opt_Some: "filter_opt p xs = Some ys \<Longrightarrow> ys = filter (\<lambda>x. p x = Some True) xs"
  by (induction xs arbitrary: ys) (auto split: option.splits)

text \<open>Without an active filter every instance is listed.\<close>

theorem no_filter_lists_all: "\<not> hasActiveFilters search t st \<Longrightarrow> filterBots search t st all_bots = Some all_bots"
  by (induction all_bots) (auto simp: hasActiveFilters_def filterBots_def bot_passes_def type_matches_def status_matches_def Let_def)

text \<open>Every instance is either scheduled or realtime: what the two filters list is together what is listed without them, with
  the same search and status; and when a name or symbol is no text, all three fail.\<close>

theorem type_filters_partition:
  "case (filterBots search Scheduled st all_bots, filterBots search Realtime st all_bots) of
     (Some xs, Some ys) \<Rightarrow> map_option mset (filterBots search AllTypes st all_bots) = Some (mset xs + mset ys)
   | _ \<Rightarrow> filterBots search AllTypes st all_bots = None"
proof (induction all_bots)
  case (Cons b bs)
  then show ?case
    by (auto simp: filterBots_def bot_passes_def type_matches_def Let_def split: option.splits)
qed (simp add: filterBots_def)

end
