(* ===== verification/Notices.thy ===== *)
theory Notices
  imports Prelude
begin

text \<open>
  frontend/src/hooks/use-toast.ts: the notices of the web client. The reducer also sets the timers that remove a dismissed notice;
  every mounted component that uses the hook keeps a copy of the notices, which \<open>dispatch\<close> renews.
\<close>

section \<open>State\<close>

definition TOAST_LIMIT :: nat where
  "TOAST_LIMIT = 1"

definition TOAST_REMOVE_DELAY :: nat where
  "TOAST_REMOVE_DELAY = 1000000"

definition MAX_SAFE_INTEGER :: nat where
  "MAX_SAFE_INTEGER = 2 ^ 53 - 1"

record toast =
  to_id :: string
  to_props :: js_object
  to_open :: bool

text \<open>\<open>nt_timers\<close> are the keys of \<open>toastTimeouts\<close>; the components that listen, and the copy of each.\<close>

record notices =
  nt_toasts :: "toast list"
  nt_count :: nat
  nt_timers :: "string list"
  nt_listeners :: "nat list"
  nt_views :: "nat \<Rightarrow> toast list"

definition notices_start :: notices where
  "notices_start = \<lparr>nt_toasts = [], nt_count = 0, nt_timers = [], nt_listeners = [], nt_views = (\<lambda>_. [])\<rparr>"

datatype toast_action =
    ADD_TOAST toast
  | UPDATE_TOAST string js_object "bool option"
  | DISMISS_TOAST "string option"
  | REMOVE_TOAST "string option"

section \<open>Operations\<close>

definition genId :: "notices \<Rightarrow> string \<times> notices" where
  "genId s = (let c = Suc (nt_count s) mod MAX_SAFE_INTEGER in (nat_to_string c, s\<lparr>nt_count := c\<rparr>))"

definition addToRemoveQueue :: "string \<Rightarrow> string list \<Rightarrow> string list" where
  "addToRemoveQueue i timers = (if i \<in> set timers then timers else timers @ [i])"

text \<open>\<open>{ ...t, ...props }\<close>.\<close>

definition merge_props :: "js_object \<Rightarrow> js_object \<Rightarrow> js_object" where
  "merge_props old new = foldl (\<lambda>ob (k, v). obj_put ob k v) old new"

fun reducer :: "toast_action \<Rightarrow> toast list \<Rightarrow> toast list" where
  "reducer (ADD_TOAST t) toasts = take TOAST_LIMIT (t # toasts)"
| "reducer (UPDATE_TOAST i props opened) toasts = map (\<lambda>t. if to_id t = i
     then t\<lparr>to_props := merge_props (to_props t) props, to_open := (case opened of None \<Rightarrow> to_open t | Some b \<Rightarrow> b)\<rparr> else t) toasts"
| "reducer (DISMISS_TOAST i) toasts = map (\<lambda>t. if Some (to_id t) = i \<or> i = None then t\<lparr>to_open := False\<rparr> else t) toasts"
| "reducer (REMOVE_TOAST i) toasts = (case i of None \<Rightarrow> [] | Some j \<Rightarrow> filter (\<lambda>t. to_id t \<noteq> j) toasts)"

text \<open>The side effect of \<open>DISMISS_TOAST\<close>.\<close>

fun queued :: "toast_action \<Rightarrow> toast list \<Rightarrow> string list \<Rightarrow> string list" where
  "queued (DISMISS_TOAST i) toasts timers = (if truthy_opt i then addToRemoveQueue (the i) timers
     else foldl (\<lambda>ts t. addToRemoveQueue (to_id t) ts) timers toasts)"
| "queued a toasts timers = timers"

definition dispatch :: "toast_action \<Rightarrow> notices \<Rightarrow> notices" where
  "dispatch a s = (let toasts = reducer a (nt_toasts s) in
     s\<lparr>nt_toasts := toasts, nt_timers := queued a (nt_toasts s) (nt_timers s),
       nt_views := (\<lambda>c. if c \<in> set (nt_listeners s) then toasts else nt_views s c)\<rparr>)"

definition show_toast :: "js_object \<Rightarrow> notices \<Rightarrow> string \<times> notices" where
  "show_toast props s = (let (i, s1) = genId s in (i, dispatch (ADD_TOAST \<lparr>to_id = i, to_props = props, to_open = True\<rparr>) s1))"

definition removal_fires :: "string \<Rightarrow> notices \<Rightarrow> notices" where
  "removal_fires i s = (if i \<notin> set (nt_timers s) then s
     else dispatch (REMOVE_TOAST (Some i)) (s\<lparr>nt_timers := removeAll i (nt_timers s)\<rparr>))"

text \<open>\<open>update\<close> is given the texts of a notice, not whether it is open. The first rendering of a component and its effect are one step. The effect runs again when the notices change and moves the listener to the
  end, which changes nothing, since all listeners are called.\<close>

definition subscribe_toast :: "nat \<Rightarrow> notices \<Rightarrow> notices" where
  "subscribe_toast c s = (if c \<in> set (nt_listeners s) then s
     else s\<lparr>nt_listeners := nt_listeners s @ [c], nt_views := (nt_views s)(c := nt_toasts s)\<rparr>)"

definition unsubscribe_toast :: "nat \<Rightarrow> notices \<Rightarrow> notices" where
  "unsubscribe_toast c s = s\<lparr>nt_listeners := remove1 c (nt_listeners s)\<rparr>"

datatype notice_event =
    Show js_object
  | Update string js_object
  | Dismiss "string option"
  | TimerFires string
  | Mounted nat
  | Unmounted nat

fun notice_step :: "notice_event \<Rightarrow> notices \<Rightarrow> notices" where
  "notice_step (Show props) s = snd (show_toast props s)"
| "notice_step (Update i props) s = dispatch (UPDATE_TOAST i props None) s"
| "notice_step (Dismiss i) s = dispatch (DISMISS_TOAST i) s"
| "notice_step (TimerFires i) s = removal_fires i s"
| "notice_step (Mounted c) s = subscribe_toast c s"
| "notice_step (Unmounted c) s = unsubscribe_toast c s"

fun notice_run :: "notice_event list \<Rightarrow> notices \<Rightarrow> notices" where
  "notice_run [] s = s"
| "notice_run (e # es) s = notice_run es (notice_step e s)"

section \<open>What holds in every run\<close>

definition notices_ok :: "notices \<Rightarrow> bool" where
  "notices_ok s \<longleftrightarrow> length (nt_toasts s) \<le> TOAST_LIMIT
     \<and> (\<forall>t \<in> set (nt_toasts s). to_id t \<noteq> [] \<and> (to_open t \<or> to_id t \<in> set (nt_timers s)))
     \<and> (\<forall>c \<in> set (nt_listeners s). nt_views s c = nt_toasts s) \<and> distinct (nt_listeners s)"

lemma queue_grows: "set (addToRemoveQueue i ts) = insert i (set ts)"
  by (auto simp: addToRemoveQueue_def)

lemma queue_all: "set (foldl (\<lambda>ts t. addToRemoveQueue (to_id t) ts) timers toasts) = set timers \<union> to_id ` set toasts"
  by (induction toasts arbitrary: timers) (auto simp: queue_grows)

lemma queued_set:
  "set (queued a toasts timers) = set timers \<union> (case a of DISMISS_TOAST i \<Rightarrow> (if truthy_opt i then {the i} else to_id ` set toasts) | _ \<Rightarrow> {})"
  by (cases a) (auto simp: queue_grows queue_all)

lemma nat_to_string_truthy: "nat_to_string n \<noteq> []"
  by (subst nat_to_string.simps) simp

lemma dispatch_ok:
  assumes "notices_ok s" "length (reducer a (nt_toasts s)) \<le> TOAST_LIMIT"
    "\<And>t. t \<in> set (reducer a (nt_toasts s)) \<Longrightarrow> to_id t \<noteq> [] \<and> (to_open t \<or> to_id t \<in> set (queued a (nt_toasts s) (nt_timers s)))"
  shows "notices_ok (dispatch a s)"
  using assms by (simp add: notices_ok_def dispatch_def Let_def)

lemma notice_step_ok: "notices_ok s \<Longrightarrow> notices_ok (notice_step e s)"
proof (cases e)
  case (Show props)
  assume "notices_ok s"
  then have "notices_ok (snd (genId s))" by (simp add: genId_def Let_def notices_ok_def)
  then show ?thesis
    using Show by (auto simp: show_toast_def genId_def Let_def TOAST_LIMIT_def nat_to_string_truthy intro!: dispatch_ok)
next
  case (Dismiss i)
  assume ok: "notices_ok s"
  have "notices_ok (dispatch (DISMISS_TOAST i) s)"
  proof (rule dispatch_ok [OF ok])
    fix t assume "t \<in> set (reducer (DISMISS_TOAST i) (nt_toasts s))"
    then obtain u where u: "u \<in> set (nt_toasts s)" "t = (if Some (to_id u) = i \<or> i = None then u\<lparr>to_open := False\<rparr> else u)"
      unfolding reducer.simps set_map by blast
    then have "to_id u \<noteq> []" "to_open u \<or> to_id u \<in> set (nt_timers s)" using ok by (auto simp: notices_ok_def)
    then show "to_id t \<noteq> [] \<and> (to_open t \<or> to_id t \<in> set (queued (DISMISS_TOAST i) (nt_toasts s) (nt_timers s)))"
      using u by (cases i) (auto simp: queue_grows queue_all)
  qed (use ok in \<open>simp add: notices_ok_def\<close>)
  then show ?thesis using Dismiss by simp
next
  case (TimerFires i)
  assume ok: "notices_ok s"
  have "length (filter P xs) \<le> TOAST_LIMIT" if "length xs \<le> TOAST_LIMIT" for P and xs :: "toast list"
    using length_filter_le [of P xs] that by linarith
  then show ?thesis
    using TimerFires ok by (auto simp: removal_fires_def dispatch_def Let_def notices_ok_def)
next
  case (Update i props)
  assume ok: "notices_ok s"
  have "notices_ok (dispatch (UPDATE_TOAST i props None) s)"
  proof (rule dispatch_ok [OF ok])
    fix t assume "t \<in> set (reducer (UPDATE_TOAST i props None) (nt_toasts s))"
    then obtain u where u: "u \<in> set (nt_toasts s)" "to_id t = to_id u" "to_open t = to_open u"
      by auto
    then show "to_id t \<noteq> [] \<and> (to_open t \<or> to_id t \<in> set (queued (UPDATE_TOAST i props None) (nt_toasts s) (nt_timers s)))"
      using ok by (simp add: notices_ok_def)
  qed (use ok in \<open>simp add: notices_ok_def\<close>)
  then show ?thesis using Update by simp
qed (auto simp: notices_ok_def subscribe_toast_def unsubscribe_toast_def notin_set_remove1 dest: notin_set_remove1)

text \<open>Whatever is shown, changed, dismissed and mounted, in any order: one notice at most is kept, every mounted component shows it, a
  closed notice has the timer that removes it, and when that fires the notice is gone from every one of them.\<close>

theorem notices_consistent:
  "let s = notice_run es notices_start in length (nt_toasts s) \<le> 1
     \<and> (\<forall>c. c \<notin> set (nt_listeners s) \<or> nt_views s c = nt_toasts s)
     \<and> list_all (\<lambda>t. to_open t \<or> to_id t \<in> set (nt_timers s) \<and> nt_toasts (removal_fires (to_id t) s) = []) (nt_toasts s)"
proof -
  have run: "notices_ok s \<Longrightarrow> notices_ok (notice_run es s)" for s by (induction es arbitrary: s) (simp_all add: notice_step_ok)
  define s where "s = notice_run es notices_start"
  have ok: "notices_ok s" unfolding s_def by (rule run) (simp add: notices_ok_def notices_start_def)
  then have one: "nt_toasts s = [] \<or> (\<exists>t. nt_toasts s = [t])"
    by (cases "nt_toasts s") (auto simp: notices_ok_def TOAST_LIMIT_def)
  have "list_all (\<lambda>t. to_open t \<or> to_id t \<in> set (nt_timers s) \<and> nt_toasts (removal_fires (to_id t) s) = []) (nt_toasts s)"
    using ok one by (auto simp: notices_ok_def removal_fires_def dispatch_def Let_def)
  then show ?thesis
    using ok unfolding s_def [symmetric] Let_def by (auto simp: notices_ok_def TOAST_LIMIT_def)
qed

end
