(* ===== verification/EventsHook.thy ===== *)
theory EventsHook
  imports BotLogs EventUtils BotPanel
begin

text \<open>
  How a custom dashboard gets its events: frontend/src/hooks/use-bot-events.ts (the query, and the effect that follows a change
  of the interval), contexts/bot-events-context.tsx and components/bot/bot-dashboard-loader.tsx (what the dashboard is given) and
  sdk/react/src/index.ts (how a bundle finds it). The hook runs the machine of BotLogs with its own queries.
\<close>

section \<open>The query of the interval\<close>

record events_props =
  ep_streaming :: bool
  ep_latest :: bool
  ep_dateRange :: "(string \<times> string) option"

definition range_param :: "string \<times> string \<Rightarrow> string" where
  "range_param r = (if js_includes (fst r) ''T'' then fst r @ ''--'' @ snd r else fst r @ ''-'' @ snd r)"

definition initialQuery :: "events_props \<Rightarrow> page_query" where
  "initialQuery p =
     (if ep_latest p then \<lparr>pq_date = None, pq_dateRange = None, pq_lookbackDays = Some DEFAULT_LOOKBACK_DAYS, pq_limit = Some 100,
        pq_offset = Some 0, pq_type = Some ''metrics'', pq_sort = Some ''desc''\<rparr>
      else \<lparr>pq_date = None, pq_dateRange = map_option range_param (ep_dateRange p), pq_lookbackDays = None, pq_limit = Some 100,
        pq_offset = Some 0, pq_type = Some ''metrics'', pq_sort = None\<rparr>)"

definition querySignature :: "events_props \<Rightarrow> string" where
  "querySignature p = (if ep_latest p then ''latest'' else case ep_dateRange p of
      Some r \<Rightarrow> ''range:'' @ fst r @ ''--'' @ snd r | None \<Rightarrow> ''none'')"

text \<open>The dashboard loader passes the interval of the page; \<open>refreshInterval\<close> 0 is no polling, and gives the default of the hook.\<close>

definition props_of_interval :: "bool \<Rightarrow> interval_value \<Rightarrow> events_props" where
  "props_of_interval streaming v = \<lparr>ep_streaming = streaming, ep_latest = (iv_type v = LatestInterval),
     ep_dateRange = (if iv_type v = RangeInterval then Some (iv_start v, iv_end v) else None)\<rparr>"

definition useBotEvents :: "page_env \<Rightarrow> bool \<Rightarrow> int \<Rightarrow> events_props \<Rightarrow> hook_props" where
  "useBotEvents pe sseAuth refreshInterval p = \<lparr>hp_env = pe, hp_streaming = ep_streaming p, hp_autoRefresh = (0 < refreshInterval),
     hp_refreshInterval = (if refreshInterval = 0 then 30000 else refreshInterval), hp_initialQuery = initialQuery p, hp_sseAuth = sseAuth\<rparr>"

section \<open>The hook\<close>

record events_hook =
  eh_page :: log_page
  eh_prevSignature :: string

definition mode_event :: "events_props \<Rightarrow> page_event" where
  "mode_event p = (if ep_latest p then PickLatest else case ep_dateRange p of Some r \<Rightarrow> PickRange (fst r) (snd r) | None \<Rightarrow> PickDate None)"

definition signature_effect :: "hook_props \<Rightarrow> events_props \<Rightarrow> events_hook \<Rightarrow> events_hook" where
  "signature_effect hp p s = (if eh_prevSignature s = querySignature p then s
     else \<lparr>eh_page = page_step hp (mode_event p) (eh_page s), eh_prevSignature = querySignature p\<rparr>)"

text \<open>Of the operations of the page the context hands out \<open>refresh\<close> only.\<close>

fun handed_out :: "page_event \<Rightarrow> bool" where
  "handed_out ClickMore = False"
| "handed_out ClickEarlier = False"
| "handed_out (PickDate _) = False"
| "handed_out (PickRange _ _) = False"
| "handed_out PickLatest = False"
| "handed_out (PickSort _) = False"
| "handed_out _ = True"

text \<open>The interval changes while the hook is mounted; the bot and its mode of streaming do not (the loader is keyed by the bot).\<close>

datatype provider_event = PageEvent page_event | IntervalChange interval_value

fun provider_step :: "hook_props \<Rightarrow> provider_event \<Rightarrow> events_hook \<Rightarrow> events_hook" where
  "provider_step hp (PageEvent e) s = (if handed_out e then s\<lparr>eh_page := page_step hp e (eh_page s)\<rparr> else s)"
| "provider_step hp (IntervalChange v) s = signature_effect hp (props_of_interval (hp_streaming hp) v) s"

fun provider_run :: "hook_props \<Rightarrow> provider_event list \<Rightarrow> events_hook \<Rightarrow> events_hook" where
  "provider_run hp [] s = s"
| "provider_run hp (e # es) s = provider_run hp es (provider_step hp e s)"

definition provider_mount :: "page_env \<Rightarrow> bool \<Rightarrow> int \<Rightarrow> bool \<Rightarrow> interval_value \<Rightarrow> events_hook" where
  "provider_mount pe sseAuth refreshInterval streaming v = (let p = props_of_interval streaming v in
     \<lparr>eh_page = mount (useBotEvents pe sseAuth refreshInterval p), eh_prevSignature = querySignature p\<rparr>)"

text \<open>The interval that is shown after some events.\<close>

fun interval_after :: "interval_value \<Rightarrow> provider_event list \<Rightarrow> interval_value" where
  "interval_after v [] = v"
| "interval_after v (PageEvent e # es) = interval_after v es"
| "interval_after v (IntervalChange w # es) = interval_after w es"

section \<open>The page follows the interval\<close>

text \<open>Whatever is under way asks for the query of the page.\<close>

definition asks_query :: "log_page \<Rightarrow> bool" where
  "asks_query s \<longleftrightarrow> (\<forall>i f. pl_fetches s i = Some f \<longrightarrow> fe_waiting f = Nobody \<and> fe_merge f = Replace \<and> (fe_aborted f \<or> fe_query f = pl_query s))"

definition unsorted :: "page_query \<Rightarrow> page_query" where
  "unsorted q = q\<lparr>pq_sort := None\<rparr>"

definition follows :: "page_query \<Rightarrow> log_page \<Rightarrow> bool" where
  "follows q s \<longleftrightarrow> unsorted (pl_query s) = unsorted q \<and> fetch_table_ok s \<and> asks_query s"

lemma follows_same:
  assumes "follows q s" "pl_query s' = pl_query s" "pl_fetches s' = pl_fetches s" "pl_next s' = pl_next s" "pl_current s' = pl_current s"
    "pl_loadingMoreRef s' = pl_loadingMoreRef s"
  shows "follows q s'"
  using assms table_same [of s s'] by (simp add: follows_def asks_query_def)

text \<open>A new fetch aborts the one under way, so only the query of the new one counts.\<close>

lemma fetch_follows:
  assumes "follows q0 s" "pl_fetches t = pl_fetches s" "pl_next t = pl_next s" "pl_current t = pl_current s"
    "pl_loadingMoreRef t = pl_loadingMoreRef s" "unsorted (pl_query t) = unsorted q"
  shows "follows q (fetchLogs (pl_query t) Replace Nobody t)"
proof -
  have s: "fetch_table_ok s" "asks_query s" using assms(1) by (simp_all add: follows_def)
  have "asks_query (fetchLogs (pl_query t) Replace Nobody t)"
    unfolding asks_query_def
  proof (intro allI impI)
    fix i f assume f: "pl_fetches (fetchLogs (pl_query t) Replace Nobody t) i = Some f"
    then have "f = \<lparr>fe_query = pl_query t, fe_merge = Replace, fe_wasHistoryLoaded = pl_historyLoaded t, fe_aborted = False, fe_waiting = Nobody\<rparr>
        \<or> fe_aborted f \<and> (\<exists>g. pl_fetches s i = Some g \<and> fe_waiting f = fe_waiting g \<and> fe_merge f = fe_merge g)"
      using s(1) assms(2-4) unfolding fetchLogs_def abort_current_def fetch_table_ok_def Let_def
      by (auto split: option.splits if_splits) (metis option.inject option.distinct(1))+
    then show "fe_waiting f = Nobody \<and> fe_merge f = Replace \<and> (fe_aborted f \<or> fe_query f = pl_query (fetchLogs (pl_query t) Replace Nobody t))"
      using s(2) unfolding asks_query_def by (metis fetch.select_convs(1,2,5) fetch_fields(2))
  qed
  moreover have "fetch_table_ok (fetchLogs (pl_query t) Replace Nobody t)"
    by (rule table_fetch [OF table_same [OF s(1) assms(2-5)]]) simp
  ultimately show ?thesis using assms(6) by (simp add: follows_def)
qed

lemma effect_same:
  "pl_query (stream_effect hp again old s) = pl_query s" "pl_fetches (stream_effect hp again old s) = pl_fetches s"
  "pl_next (stream_effect hp again old s) = pl_next s" "pl_current (stream_effect hp again old s) = pl_current s"
  "pl_loadingMoreRef (stream_effect hp again old s) = pl_loadingMoreRef s"
  by (simp_all add: stream_effect_def open_stream_def close_stream_def stopPolling_def startPolling_def)

lemma effect_follows: "follows q s \<Longrightarrow> follows q (stream_effect hp again old s)"
  by (erule follows_same) (simp_all only: effect_same)

lemma settle_follows:
  assumes "follows q s" "\<And>f s. pl_query (act f s) = pl_query s"
    "\<And>f s. pl_fetches (act f s) = pl_fetches s \<and> pl_next (act f s) = pl_next s \<and> pl_current (act f s) = pl_current s
       \<and> pl_loadingMoreRef (act f s) = pl_loadingMoreRef s"
  shows "follows q (settle i act ok s)"
proof (cases "pl_fetches s i")
  case (Some f)
  have nobody: "fe_waiting f = Nobody" using assms(1) Some by (simp add: follows_def asks_query_def)
  have "pl_query (settle i act ok s) = pl_query s" "pl_fetches (settle i act ok s) = (pl_fetches s)(i := None)"
    using Some nobody assms(2,3) by (simp_all add: settle_def resume_def Let_def)
  then show ?thesis
    using assms(1) table_settle [of s act i ok] assms(3) by (auto simp: follows_def asks_query_def)
qed (simp add: settle_def assms(1))

lemma handed_out_follows:
  assumes "follows q s" "pq_offset q = Some 0" "handed_out e"
  shows "follows q (page_step hp e s)"
proof (cases e)
  case Tick
  have "follows q (fetchLogs (pl_query s) Replace Nobody s)"
    by (rule fetch_follows [OF assms(1)]) (use assms(1) in \<open>simp_all add: follows_def\<close>)
  then show ?thesis using Tick assms(1) by (simp add: poll_tick_def)
next
  case ClickRefresh
  define t where "t = s\<lparr>pl_query := (pl_query s)\<lparr>pq_offset := Some 0\<rparr>, pl_paginated := False\<rparr>"
  have "unsorted (pl_query s) = unsorted q" using assms(1) by (simp add: follows_def)
  then have "unsorted (pl_query t) = unsorted q"
    using assms(2) by (cases "pl_query s"; cases q) (simp add: t_def unsorted_def)
  then have "follows q (fetchLogs (pl_query t) Replace Nobody t)"
    by (intro fetch_follows [OF assms(1)]) (simp_all add: t_def)
  then show ?thesis
    using ClickRefresh by (simp add: refresh_def Let_def t_def effect_follows)
qed (use assms in \<open>auto simp: effect_follows settle_follows stream_opened_def stopPolling_def stream_closed_def startPolling_def
    handleUpdateEvent_def Let_def intro: follows_same [OF assms(1)]\<close>)

lemma mode_follows:
  assumes "follows (initialQuery p0) s"
  shows "follows (initialQuery p) (page_step hp (mode_event p) s)"
proof -
  define q where "q = (if ep_latest p
     then (pl_query s)\<lparr>pq_date := None, pq_dateRange := None, pq_lookbackDays := Some DEFAULT_LOOKBACK_DAYS, pq_offset := Some 0\<rparr>
     else (pl_query s)\<lparr>pq_date := None, pq_dateRange := map_option range_param (ep_dateRange p), pq_lookbackDays := None, pq_offset := Some 0\<rparr>)"
  define t where "t = s\<lparr>pl_query := q, pl_paginated := False\<rparr>"
  have "unsorted (pl_query s) = unsorted (initialQuery p0)" using assms by (simp add: follows_def)
  then have "unsorted q = unsorted (initialQuery p)"
    by (cases "pl_query s") (auto simp: q_def unsorted_def initialQuery_def split: if_splits)
  then have ok: "follows (initialQuery p) (fetchLogs (pl_query t) Replace Nobody t)"
    by (intro fetch_follows [OF assms]) (simp_all add: t_def)
  have "page_step hp (mode_event p) s = stream_effect hp False s (fetchLogs (pl_query t) Replace Nobody t)"
    by (cases "pl_query s")
      (simp add: mode_event_def setLatestFilter_def setDateFilter_def setDateRangeFilter_def updateQuery_def none_if_empty_def range_param_def
        t_def q_def Let_def split: option.split)
  then show ?thesis using ok effect_follows by simp
qed

lemma mount_follows: "follows (hp_initialQuery hp) (mount hp)"
proof -
  have "follows (hp_initialQuery hp) (blank_page hp)"
    by (simp add: follows_def blank_page_def fetch_table_ok_def waits_more_def asks_query_def)
  then have "follows (hp_initialQuery hp) (fetchLogs (pl_query (blank_page hp)) Replace Nobody (blank_page hp))"
    by (rule fetch_follows) (simp_all add: blank_page_def)
  then show ?thesis
    unfolding mount_def Let_def
    by (rule follows_same) (simp_all add: open_stream_def startPolling_def blank_page_def)
qed

section \<open>The signature tells the mode\<close>

definition plain_start :: "interval_value \<Rightarrow> bool" where
  "plain_start v \<longleftrightarrow> \<not> js_includes (iv_start v @ ''-'') ''--''"

lemma separator_unique:
  assumes "a @ ''--'' @ b = c @ ''--'' @ d" "\<not> js_includes (a @ ''-'') ''--''" "\<not> js_includes (c @ ''-'') ''--''"
  shows "a = c \<and> b = d"
proof -
  have shorter: "a = c" if eq: "a @ ''--'' @ b = c @ ''--'' @ d" and plain: "\<not> js_includes (c @ ''-'') ''--''" and le: "length a \<le> length c"
    for a b c d
  proof -
    obtain r where r: "c = a @ r" "''--'' @ b = r @ ''--'' @ d" using eq le by (auto simp: append_eq_append_conv2)
    show "a = c"
    proof (cases r)
      case (Cons x r')
      then have "x = CHR ''-''" using r(2) by simp
      moreover have "r' = [] \<or> hd r' = CHR ''-''" using r(2) Cons by (cases r') auto
      ultimately have "prefix ''--'' (r @ ''-'')" using Cons by (cases r') auto
      then have "js_includes (c @ ''-'') ''--''" unfolding js_includes_def r(1) by (auto simp: prefix_def sublist_def)
      then show ?thesis using plain by simp
    qed (simp add: r)
  qed
  have "a = c"
    using shorter [OF assms(1,3)] shorter [OF assms(1) [symmetric] assms(2)] by (cases "length a \<le> length c") auto
  then show ?thesis using assms(1) by simp
qed

lemma signature_mode:
  assumes "plain_start v" "plain_start w" "querySignature (props_of_interval b v) = querySignature (props_of_interval b w)"
  shows "initialQuery (props_of_interval b v) = initialQuery (props_of_interval b w)"
proof -
  have sep: "iv_start v @ ''--'' @ iv_end v = iv_start w @ ''--'' @ iv_end w \<Longrightarrow> iv_start v = iv_start w \<and> iv_end v = iv_end w"
    using separator_unique assms(1,2) unfolding plain_start_def by metis
  show ?thesis
  proof (cases "iv_type v = RangeInterval \<and> iv_type w = RangeInterval")
    case True
    then have "iv_start v @ ''--'' @ iv_end v = iv_start w @ ''--'' @ iv_end w"
      using assms(3) by (simp add: querySignature_def props_of_interval_def)
    then show ?thesis using True sep by (simp add: props_of_interval_def)
  next
    case False
    then have "iv_type v = iv_type w" using assms(3) by (cases "iv_type v"; cases "iv_type w") (simp_all add: querySignature_def props_of_interval_def)
    then show ?thesis using False by (simp add: props_of_interval_def)
  qed
qed

fun plain_event :: "provider_event \<Rightarrow> bool" where
  "plain_event (IntervalChange v) = plain_start v"
| "plain_event (PageEvent e) = True"

text \<open>The state of the hook while the interval \<open>v\<close> is shown.\<close>

definition provider_ok :: "hook_props \<Rightarrow> interval_value \<Rightarrow> events_hook \<Rightarrow> bool" where
  "provider_ok hp v s \<longleftrightarrow> plain_start v \<and> eh_prevSignature s = querySignature (props_of_interval (hp_streaming hp) v)
     \<and> follows (initialQuery (props_of_interval (hp_streaming hp) v)) (eh_page s)"

lemma provider_step_ok:
  assumes "provider_ok hp v s" "plain_event e"
  shows "provider_ok hp (interval_after v [e]) (provider_step hp e s)"
proof (cases e)
  case (PageEvent pe)
  have offset: "pq_offset (initialQuery p) = Some 0" for p by (simp add: initialQuery_def)
  have f: "follows (initialQuery (props_of_interval (hp_streaming hp) v)) (eh_page s)" using assms(1) by (simp only: provider_ok_def)
  show ?thesis
    using assms(1) handed_out_follows [OF f offset, of pe hp] by (cases "handed_out pe") (simp_all add: provider_ok_def PageEvent)
next
  case (IntervalChange w)
  then have w: "plain_start w" using assms(2) by simp
  show ?thesis
  proof (cases "eh_prevSignature s = querySignature (props_of_interval (hp_streaming hp) w)")
    case True
    then have "initialQuery (props_of_interval (hp_streaming hp) v) = initialQuery (props_of_interval (hp_streaming hp) w)"
      using assms(1) by (intro signature_mode w) (simp_all only: provider_ok_def)
    then show ?thesis using True assms(1) w IntervalChange by (simp add: provider_ok_def signature_effect_def)
  next
    case False
    have "follows (initialQuery (props_of_interval (hp_streaming hp) v)) (eh_page s)" using assms(1) by (simp only: provider_ok_def)
    from mode_follows [OF this, of "props_of_interval (hp_streaming hp) w" hp] False w
    show ?thesis by (simp add: provider_ok_def signature_effect_def IntervalChange)
  qed
qed

lemma interval_after_Cons: "interval_after v (e # es) = interval_after (interval_after v [e]) es"
  by (cases e) simp_all

lemma provider_run_ok:
  "provider_ok hp v s \<Longrightarrow> list_all plain_event es \<Longrightarrow> provider_ok hp (interval_after v es) (provider_run hp es s)"
proof (induction es arbitrary: v s)
  case (Cons e es)
  then have "provider_ok hp (interval_after (interval_after v [e]) es) (provider_run hp es (provider_step hp e s))"
    using provider_step_ok by simp
  then show ?case by (subst interval_after_Cons) simp
qed simp

definition unsorted_params :: "string \<Rightarrow> page_query \<Rightarrow> (string \<times> string) list" where
  "unsorted_params today q = filter (\<lambda>(k, _). k \<noteq> ''sort'') (search_params today q)"

lemma unsorted_params_unsorted: "unsorted_params today (unsorted q) = unsorted_params today q"
  by (simp add: unsorted_params_def unsorted_def search_params_def text_param_def num_param_def split: option.split)

text \<open>C37. Whatever intervals are chosen and whatever arrives in between, in any order: the dashboard asks for what a dashboard freshly opened
  on the interval that is shown asks for (up to the order, which the API takes to be descending when it is left
  out), and no answer to an older question can replace what it shows: every request under way that is not
  aborted is for this interval. The start of an interval does not contain the separator of the signature.\<close>

theorem dashboard_follows_interval:
  assumes "plain_start v" "list_all plain_event es"
  shows "let hp = useBotEvents pe sseAuth refreshInterval (props_of_interval streaming v);
             s = eh_page (provider_run hp es (provider_mount pe sseAuth refreshInterval streaming v)) in
     unsorted_params today (pl_query s) = unsorted_params today (initialQuery (props_of_interval streaming (interval_after v es)))
     \<and> (\<forall>f. f \<notin> ran (pl_fetches s) \<or> fe_aborted f \<or> fe_query f = pl_query s \<and> fe_merge f = Replace)"
proof -
  define hp where "hp = useBotEvents pe sseAuth refreshInterval (props_of_interval streaming v)"
  define s where "s = provider_run hp es (provider_mount pe sseAuth refreshInterval streaming v)"
  have st: "hp_streaming hp = streaming" "hp_initialQuery hp = initialQuery (props_of_interval streaming v)"
    by (simp_all add: hp_def useBotEvents_def props_of_interval_def)
  have "provider_ok hp v (provider_mount pe sseAuth refreshInterval streaming v)"
    using assms(1) mount_follows [of hp] st by (simp add: provider_ok_def provider_mount_def hp_def [symmetric] Let_def)
  from provider_run_ok [OF this assms(2)]
  have ok: "follows (initialQuery (props_of_interval streaming (interval_after v es))) (eh_page s)"
    by (simp add: provider_ok_def s_def st)
  then have "unsorted_params today (pl_query (eh_page s)) = unsorted_params today (initialQuery (props_of_interval streaming (interval_after v es)))"
    by (metis follows_def unsorted_params_unsorted)
  then show ?thesis
    using ok unfolding hp_def [symmetric] s_def [symmetric] Let_def by (auto simp: follows_def asks_query_def ran_def)
qed

definition demo_week :: interval_value where
  "demo_week = \<lparr>iv_type = RangeInterval, iv_label = ''7d'', iv_start = ''20240301'', iv_end = ''20240308''\<rparr>"

text \<open>From the latest runs to a week, and the answer to the first request arrives late.\<close>

theorem dashboard_follows_interval_witness:
  "let hp = useBotEvents demo_page False 30000 (props_of_interval False LATEST_INTERVAL);
       s = eh_page (provider_run hp [IntervalChange demo_week, PageEvent (Answer 0 0 [] False 0)] (provider_mount demo_page False 30000 False LATEST_INTERVAL)) in
     unsorted_params ''20240308'' (pl_query s) = [(''dateRange'', ''20240301-20240308''), (''limit'', ''100''), (''type'', ''metrics'')]
     \<and> (\<forall>f. f \<notin> ran (pl_fetches s) \<or> fe_aborted f \<or> fe_query f = pl_query s \<and> fe_merge f = Replace)"
proof -
  have plain: "plain_start LATEST_INTERVAL" "plain_start demo_week"
    by code_simp+
  have q: "unsorted_params ''20240308'' (initialQuery (props_of_interval False demo_week)) = [(''dateRange'', ''20240301-20240308''), (''limit'', ''100''), (''type'', ''metrics'')]"
    by code_simp
  have "list_all plain_event [IntervalChange demo_week, PageEvent (Answer 0 0 [] False 0)]" using plain by simp
  from dashboard_follows_interval [OF plain(1) this, of demo_page False 30000 False "''20240308''"] q show ?thesis by (simp add: Let_def)
qed

section \<open>How a bundle finds its provider\<close>

text \<open>
  Both modules keep the context in a field of the window: the module that is loaded first creates it. A context is the number it was
  created with; what the provider gives is found by the number.
\<close>

definition getSharedContext :: "nat \<Rightarrow> nat option \<Rightarrow> nat \<times> nat option" where
  "getSharedContext fresh window = (case window of Some c \<Rightarrow> (c, window) | None \<Rightarrow> (fresh, Some fresh))"

text \<open>What the provider gives, the logs parsed into events at the times \<open>now\<close>.\<close>

record context_value =
  cv_events :: "log_event list"
  cv_loading :: bool
  cv_error :: "string option"
  cv_botId :: string

definition provided :: "page_env \<Rightarrow> (nat \<Rightarrow> int) \<Rightarrow> string \<Rightarrow> events_hook \<Rightarrow> context_value" where
  "provided pe now botId s = \<lparr>cv_events = hook_events pe now (pl_logs (eh_page s)), cv_loading = pl_loading (eh_page s),
     cv_error = pl_error (eh_page s), cv_botId = botId\<rparr>"

text \<open>A component reads what the nearest provider of the context gave, the nearest first; the texts of the two modules.\<close>

definition use_context :: "string \<Rightarrow> (nat \<times> context_value) list \<Rightarrow> nat \<Rightarrow> js_error + context_value" where
  "use_context message providers c = (case map_of providers c of None \<Rightarrow> Inl (Err None message None) | Some v \<Rightarrow> Inr v)"

definition useBotEventsContext :: "(nat \<times> context_value) list \<Rightarrow> nat \<Rightarrow> js_error + context_value" where
  "useBotEventsContext = use_context ''useBotEventsContext must be used within a BotEventsProvider''"

definition useQuantFlowEvents :: "(nat \<times> context_value) list \<Rightarrow> nat \<Rightarrow> js_error + context_value" where
  "useQuantFlowEvents = use_context (''useQuantFlowEvents must be used within a quantflow dashboard context. ''
     @ ''This hook only works in custom bot frontends loaded by quantflow platform.'')"

datatype bundle_module = AppModule | SdkModule

text \<open>The modules are loaded one after the other; each keeps the context it got when it was loaded first. \<open>fresh\<close> numbers the contexts that a module
  would create.\<close>

fun load_modules :: "(bundle_module \<Rightarrow> nat) \<Rightarrow> bundle_module list \<Rightarrow> nat option \<Rightarrow> (bundle_module \<times> nat) list" where
  "load_modules fresh [] window = []"
| "load_modules fresh (m # ms) window = (let (c, window') = getSharedContext (fresh m) window in (m, c) # load_modules fresh ms window')"

lemma loaded_context: "set (load_modules fresh ms (Some c)) \<subseteq> UNIV \<times> {c}"
  by (induction ms) (auto simp: getSharedContext_def)

text \<open>In whatever order the application and the bundles with their copies of the SDK are loaded, all of them have the same context: a bundle
  reads what the provider of the application gives.\<close>

theorem bundle_reads_provider:
  "list_all (\<lambda>(_, c). list_all (\<lambda>(_, c'). useQuantFlowEvents [(c, v)] c' = Inr v) (load_modules fresh ms window)) (load_modules fresh ms window)"
proof -
  have "\<exists>c. set (load_modules fresh ms window) \<subseteq> UNIV \<times> {c}"
  proof (cases ms)
    case (Cons m ms')
    then show ?thesis using loaded_context [of fresh ms'] by (cases window) (auto simp: getSharedContext_def)
  qed simp
  then show ?thesis by (auto simp: list_all_iff useQuantFlowEvents_def use_context_def)
qed

end
