(* ===== verification/DatabaseSetup.thy ===== *)
theory DatabaseSetup
  imports ApiPlatform UserRepository
begin

text \<open>
  api/src/database/connection.ts, migrate.ts and seed.ts: the connection that every repository shares, and the scripts that prepare
  a database. That the driver accepts a configuration is a parameter (\<open>opens\<close>).
\<close>

section \<open>The connection\<close>

datatype db_kind = PgTables | SqliteTables

text \<open>The client of SQLite has a file, that of PostgreSQL the whole configuration; its JSON is stored as the text it is.\<close>

datatype open_db = SqliteDb string | PostgresDb database_config

definition kind_of :: "open_db \<Rightarrow> db_kind" where
  "kind_of d = (case d of SqliteDb _ \<Rightarrow> SqliteTables | PostgresDb _ \<Rightarrow> PgTables)"

text \<open>\<open>dbInstance\<close>, \<open>configCache\<close>, \<open>tablesCache\<close> and the default of the module net.\<close>

record db_connection =
  cn_instance :: "open_db option"
  cn_config :: "database_config option"
  cn_tables :: "db_kind option"
  cn_autoSelectFamily :: bool

definition no_connection :: db_connection where
  "no_connection = \<lparr>cn_instance = None, cn_config = None, cn_tables = None, cn_autoSelectFamily = True\<rparr>"

record db_setup =
  ds_number :: "string \<Rightarrow> rat option"
  ds_parse_url :: "string \<Rightarrow> parsed_url option"
  ds_opens :: "open_db \<Rightarrow> js_error option"

definition open_database :: "db_setup \<Rightarrow> open_db \<Rightarrow> db_connection \<Rightarrow> (js_error + open_db) \<times> db_connection" where
  "open_database ds d c = (case ds_opens ds d of
      Some e \<Rightarrow> (Inl e, c)
    | None \<Rightarrow> (Inr d, c\<lparr>cn_instance := Some d, cn_tables := Some (kind_of d)\<rparr>))"

definition getDatabase :: "db_setup \<Rightarrow> process_env \<Rightarrow> db_connection \<Rightarrow> (js_error + open_db) \<times> db_connection" where
  "getDatabase ds env c = (case cn_instance c of
      Some d \<Rightarrow> (Inr d, c)
    | None \<Rightarrow> (case loadConfig (ds_number ds) (ds_parse_url ds) env of
        Inl e \<Rightarrow> (Inl e, c)
      | Inr config \<Rightarrow> (let c1 = c\<lparr>cn_config := Some config\<rparr> in
          if dc_type config = ''sqlite'' then open_database ds (SqliteDb (dc_url config)) c1
          else open_database ds (PostgresDb config)
            (if dc_autoSelectFamily config = Some False then c1\<lparr>cn_autoSelectFamily := False\<rparr> else c1))))"

definition getDatabaseConfig :: "db_setup \<Rightarrow> process_env \<Rightarrow> db_connection \<Rightarrow> js_error + database_config" where
  "getDatabaseConfig ds env c = (case cn_config c of Some config \<Rightarrow> Inr config | None \<Rightarrow> loadConfig (ds_number ds) (ds_parse_url ds) env)"

definition getTables :: "db_setup \<Rightarrow> process_env \<Rightarrow> db_connection \<Rightarrow> (js_error + db_kind option) \<times> db_connection" where
  "getTables ds env c = (if cn_tables c = None
     then (case getDatabase ds env c of (Inl e, c1) \<Rightarrow> (Inl e, c1) | (Inr _, c1) \<Rightarrow> (Inr (cn_tables c1), c1))
     else (Inr (cn_tables c), c))"

text \<open>What the repositories call, each time with the environment of that moment.\<close>

datatype connection_call = GetDatabase | GetTables

fun connection_step :: "db_setup \<Rightarrow> connection_call \<times> process_env \<Rightarrow> db_connection \<Rightarrow> db_connection" where
  "connection_step ds (GetDatabase, env) c = snd (getDatabase ds env c)"
| "connection_step ds (GetTables, env) c = snd (getTables ds env c)"

fun connection_run :: "db_setup \<Rightarrow> (connection_call \<times> process_env) list \<Rightarrow> db_connection \<Rightarrow> db_connection" where
  "connection_run ds [] c = c"
| "connection_run ds (x # xs) c = connection_run ds xs (connection_step ds x c)"

definition connection_ok :: "db_connection \<Rightarrow> bool" where
  "connection_ok c \<longleftrightarrow> (case cn_instance c of
      None \<Rightarrow> cn_tables c = None
    | Some d \<Rightarrow> cn_tables c = Some (kind_of d) \<and> (case cn_config c of None \<Rightarrow> False
        | Some config \<Rightarrow> d = (if dc_type config = ''sqlite'' then SqliteDb (dc_url config) else PostgresDb config)))"

lemma open_database_ok:
  assumes "cn_instance c = None" "connection_ok c"
    "\<exists>config. cn_config c = Some config \<and> d = (if dc_type config = ''sqlite'' then SqliteDb (dc_url config) else PostgresDb config)"
  shows "connection_ok (snd (open_database ds d c))"
  using assms by (auto simp: open_database_def connection_ok_def split: option.split)

lemma getDatabase_ok: "connection_ok c \<Longrightarrow> connection_ok (snd (getDatabase ds env c))"
proof (cases "cn_instance c")
  case None
  assume ok: "connection_ok c"
  show ?thesis
  proof (cases "loadConfig (ds_number ds) (ds_parse_url ds) env")
    case (Inr config)
    have "connection_ok (c\<lparr>cn_config := Some config\<rparr>)" "connection_ok (c\<lparr>cn_config := Some config, cn_autoSelectFamily := False\<rparr>)"
      using ok None by (simp_all add: connection_ok_def)
    then show ?thesis using None Inr by (auto simp: getDatabase_def Let_def intro!: open_database_ok)
  qed (simp add: getDatabase_def None ok)
qed (simp add: getDatabase_def)

lemma connection_step_ok: "connection_ok c \<Longrightarrow> connection_ok (connection_step ds x c)"
proof (cases x)
  case (Pair call env)
  assume ok: "connection_ok c"
  have "snd (getTables ds env c) = (if cn_tables c = None then snd (getDatabase ds env c) else c)"
    by (simp add: getTables_def split: prod.split sum.split)
  then show ?thesis using getDatabase_ok [OF ok] ok Pair by (cases call) simp_all
qed

lemma connection_step_stays: "cn_instance c = Some d \<Longrightarrow> connection_ok c \<Longrightarrow> connection_step ds x c = c"
  by (cases x; cases "fst x") (auto simp: getDatabase_def getTables_def connection_ok_def)

text \<open>Whatever the repositories call first, and even if the environment changes between the calls: the connection, the tables and the
  configuration are of one kind, and the first connection that is opened is the one that everybody gets.\<close>

theorem one_connection:
  "let c = connection_run ds xs no_connection in
     case cn_instance c of
       None \<Rightarrow> cn_tables c = None
     | Some d \<Rightarrow> fst (getDatabase ds env c) = Inr d \<and> fst (getTables ds env c) = Inr (Some (kind_of d))
         \<and> map_option dc_type (cn_config c) = Some (case d of SqliteDb _ \<Rightarrow> ''sqlite'' | PostgresDb config \<Rightarrow> dc_type config)
         \<and> connection_run ds ys c = c"
proof -
  have run: "connection_ok c \<Longrightarrow> connection_ok (connection_run ds xs c)" for c
    by (induction xs arbitrary: c) (simp_all add: connection_step_ok)
  have stay: "cn_instance c = Some d \<Longrightarrow> connection_ok c \<Longrightarrow> connection_run ds ys c = c" for c d
    by (induction ys) (simp_all add: connection_step_stays)
  define c where "c = connection_run ds xs no_connection"
  have ok: "connection_ok c" unfolding c_def by (rule run) (simp add: connection_ok_def no_connection_def)
  show ?thesis
    unfolding c_def [symmetric] Let_def
  proof (cases "cn_instance c")
    case (Some d)
    then show "case cn_instance c of None \<Rightarrow> cn_tables c = None
      | Some d \<Rightarrow> fst (getDatabase ds env c) = Inr d \<and> fst (getTables ds env c) = Inr (Some (kind_of d))
         \<and> map_option dc_type (cn_config c) = Some (case d of SqliteDb _ \<Rightarrow> ''sqlite'' | PostgresDb config \<Rightarrow> dc_type config)
         \<and> connection_run ds ys c = c"
      using ok stay [OF Some ok]
      by (auto simp: connection_ok_def getDatabase_def getTables_def split: option.splits if_splits)
  qed (use ok in \<open>simp add: connection_ok_def\<close>)
qed

section \<open>Migrations\<close>

text \<open>The folder of the migrations; the drivers run them, and the script ends with 1 when one fails.\<close>

definition migrations_path :: "process_env \<Rightarrow> string \<Rightarrow> string" where
  "migrations_path env dirname = or_else (env ''MIGRATIONS_PATH'') (dirname @ ''/migrations'')"

definition runMigrations :: "db_setup \<Rightarrow> (db_kind \<Rightarrow> string \<Rightarrow> js_error option) \<Rightarrow> process_env \<Rightarrow> string \<Rightarrow> nat" where
  "runMigrations ds migrate_db env dirname = (case getDatabaseConfig ds env no_connection of
      Inl _ \<Rightarrow> 1
    | Inr config \<Rightarrow> (case fst (getDatabase ds env no_connection) of
        Inl _ \<Rightarrow> 1
      | Inr d \<Rightarrow> if migrate_db (if dc_type config = ''sqlite'' then SqliteTables else PgTables) (migrations_path env dirname) = None then 0 else 1))"

section \<open>The seed\<close>

definition DEFAULT_DEV_ADMIN_PASSWORD :: string where
  "DEFAULT_DEV_ADMIN_PASSWORD = ''admin123''"

definition getSeedAdminPassword :: "process_env \<Rightarrow> js_error + string" where
  "getSeedAdminPassword env = (if truthy_opt (env ''QUANTFLOW_SEED_ADMIN_PASSWORD'') then Inr (the (env ''QUANTFLOW_SEED_ADMIN_PASSWORD''))
     else if env ''NODE_ENV'' = Some ''development'' \<or> env ''NODE_ENV'' = Some ''test'' then Inr DEFAULT_DEV_ADMIN_PASSWORD
     else Inl (plain_error ''QUANTFLOW_SEED_ADMIN_PASSWORD is required when seeding outside development/test''))"

definition seed_admin :: "string \<Rightarrow> string \<Rightarrow> int \<Rightarrow> user_row" where
  "seed_admin hash i now = \<lparr>user_id = i, user_username = ''admin'', user_email = ''admin@quantflow.local'', user_passwordHash = hash,
     user_firstName = Some ''Admin'', user_lastName = Some ''User'', user_role = ''admin'', user_sessionVersion = 0, user_isActive = True,
     user_isEmailVerified = True, user_lastLoginAt = None,
     user_metadata = Some (JObj [(''role'', JStr ''admin''), (''createdBy'', JStr ''seed'')]), user_createdAt = now, user_updatedAt = now\<rparr>"

text \<open>\<open>insert(...).onConflictDoNothing()\<close>: a row that violates a unique constraint is left out.\<close>

definition db_insert_or_ignore :: "'r table \<Rightarrow> 'r \<Rightarrow> (world, unit) io" where
  "db_insert_or_ignore t r = external (\<lambda>w. (Inr (), case t_check t w (t_rows t w @ [r]) of
      Some _ \<Rightarrow> w | None \<Rightarrow> t_put t (t_rows t w @ [r]) w))"

definition sum_io :: "js_error + 'a \<Rightarrow> (world, 'a) io" where
  "sum_io r = (case r of Inl e \<Rightarrow> io_throw e | Inr x \<Rightarrow> io_return x)"

text \<open>The code with which the script ends.\<close>

definition seedDatabase :: "server \<Rightarrow> process_env \<Rightarrow> (world, nat) io" where
  "seedDatabase sv env = io_catch
     (io_bind (sum_io (getSeedAdminPassword env)) (\<lambda>password.
      io_bind (hashPassword sv password) (\<lambda>hash.
      io_bind (draw (createId sv)) (\<lambda>i.
      io_bind js_now (\<lambda>now.
      io_bind (db_insert_or_ignore usersTable (seed_admin hash i now)) (\<lambda>_. io_return 0))))))
     (\<lambda>_. io_return 1)"

definition seed_script :: "server \<Rightarrow> db_setup \<Rightarrow> process_env \<Rightarrow> (world, nat) io" where
  "seed_script sv ds env = (case getDatabaseConfig ds env no_connection of
      Inl _ \<Rightarrow> io_return 1
    | Inr _ \<Rightarrow> (case fst (getDatabase ds env no_connection) of Inl _ \<Rightarrow> io_return 1 | Inr _ \<Rightarrow> seedDatabase sv env))"

definition seed_taken :: "string \<Rightarrow> user_row list \<Rightarrow> bool" where
  "seed_taken i us \<longleftrightarrow> (\<exists>u \<in> set us. user_username u = ''admin'' \<or> user_email u = ''admin@quantflow.local'' \<or> user_id u = i)"

text \<open>The statement of the seed, whatever fails.\<close>

lemma insert_seed_admin:
  assumes "db_insert_or_ignore usersTable (seed_admin hash i now) w = (r, w')" "distinct (map user_id (users w))"
    "distinct (map user_username (users w))" "distinct (map user_email (users w))"
  shows "users w' = users w \<and> (r \<noteq> Inr () \<or> seed_taken i (users w)) \<or> users w' = users w @ [seed_admin hash i now]"
  using assms
  by (auto simp: db_insert_or_ignore_def external_def usersTable_def seed_admin_def seed_taken_def
      split: list.splits fault.splits if_splits)

definition user_keys_unique :: "world \<Rightarrow> bool" where
  "user_keys_unique w \<longleftrightarrow> distinct (map user_id (users w)) \<and> distinct (map user_username (users w)) \<and> distinct (map user_email (users w))"

text \<open>Seeding changes no account that exists, whatever fails; and when it ends with 0, either the administrator was added, with the password of
  the environment, or one of the unique values was taken, in which case nothing happens.\<close>

theorem seed_adds_admin_once:
  assumes "user_keys_unique w" "seedDatabase sv env w = (r, w')"
  shows "(\<exists>h i now. users w' = users w @ [seed_admin h i now]
        \<and> (\<exists>p rounds n. getSeedAdminPassword env = Inr p \<and> h = bcrypt_hash sv p rounds n))
    \<or> users w' = users w \<and> (r = Inr 1 \<or> r = Inr 0 \<and> (\<exists>n. seed_taken (createId sv n) (users w)))"
proof (cases "getSeedAdminPassword env")
  case (Inl e)
  then show ?thesis using assms(2) by (simp add: seedDatabase_def sum_io_def io_catch_run io_bind_run io_throw_run)
next
  case (Inr p)
  show ?thesis
  proof (cases "getBcryptSaltRounds sv")
    case (Inl e)
    then show ?thesis using assms(2) Inr by (simp add: seedDatabase_def sum_io_def io_catch_run io_bind_run io_throw_run hashPassword_run)
  next
    case (Inr rounds)
    let ?w1 = "w\<lparr>nonce := Suc (Suc (nonce w))\<rparr>"
    define hash where "hash = bcrypt_hash sv p rounds (nonce w)"
    obtain c w2 where js: "js_now ?w1 = (Inr c, w2)" "users w2 = users w" by (rule js_nowE [of ?w1]) simp
    obtain r3 w3 where ins: "db_insert_or_ignore usersTable (seed_admin hash (createId sv (Suc (nonce w))) c) w2 = (r3, w3)" by fastforce
    have out: "w' = w3" "r = (case r3 of Inl _ \<Rightarrow> Inr 1 | Inr _ \<Rightarrow> Inr 0)"
      using assms(2) js(1) ins Inr \<open>getSeedAdminPassword env = Inr p\<close>
      by (auto simp: seedDatabase_def sum_io_def io_catch_run io_bind_run hashPassword_run draw_def hash_def split: sum.splits)
    have "users w3 = users w \<and> (r3 \<noteq> Inr () \<or> seed_taken (createId sv (Suc (nonce w))) (users w))
        \<or> users w3 = users w @ [seed_admin hash (createId sv (Suc (nonce w))) c]"
      using insert_seed_admin [OF ins] assms(1) js(2) by (simp add: user_keys_unique_def)
    then show ?thesis
      using out \<open>getSeedAdminPassword env = Inr p\<close> unfolding hash_def by (cases r3) auto
  qed
qed

text \<open>The log says that the administrator was created with the configured password also when an ordinary user has taken the name.\<close>

theorem seed_reports_admin:
  "let w = demo_world\<lparr>users := [seed_admin ''$own'' ''id7'' 0 \<lparr>user_role := ''user'', user_email := ''mallory@q.io''\<rparr>]\<rparr> in
     case seedDatabase demo_server (\<lambda>_. Some ''a long password'') w of (r, w') \<Rightarrow>
       r = Inr 0 \<and> map user_role (users w') = [''user'']"
  by code_simp

end
