(* ===== verification/BotPages.thy ===== *)
theory BotPages
  imports ApiServices BotValidator
begin

text \<open>
  The pages of uploaded bots in the web client: which bot the list marks as open (frontend/src/app/custom-bots/layout.tsx,
  app/dashboard/layout.tsx), what the list pages show (app/custom-bots/page.tsx, app/dashboard/page.tsx), the version that is shown
  (components/custom-bots/custom-bot-detail-panel.tsx, version-history.tsx, bot-info.tsx) and the configuration that the page proposes
  for the CLI (action-buttons.tsx), against the checks of the API.
\<close>

section \<open>Names in paths\<close>

definition hex_value :: "char \<Rightarrow> nat option" where
  "hex_value c = (let n = of_char c in if 48 \<le> n \<and> n \<le> 57 then Some (n - 48)
     else if 65 \<le> n \<and> n \<le> 70 then Some (n - 55) else if 97 \<le> n \<and> n \<le> 102 then Some (n - 87) else None)"

text \<open>A byte after its percent sign, and what follows it.\<close>

definition percent_byte :: "string \<Rightarrow> (nat \<times> string) option" where
  "percent_byte s = (case s of a # b # rest \<Rightarrow> (case (hex_value a, hex_value b) of (Some x, Some y) \<Rightarrow> Some (16 * x + y, rest) | _ \<Rightarrow> None)
     | _ \<Rightarrow> None)"

text \<open>The second byte of a character from 128 to 255.\<close>

definition second_byte :: "string \<Rightarrow> (nat \<times> string) option" where
  "second_byte s = (case s of [] \<Rightarrow> None | c # rest \<Rightarrow> if c \<noteq> CHR ''%'' then None else (case percent_byte rest of
      Some (m, t) \<Rightarrow> if 128 \<le> m \<and> m < 192 then Some (m - 128, t) else None | None \<Rightarrow> None))"

lemma percent_byte_length: "percent_byte s = Some (n, t) \<Longrightarrow> length t < length s"
  by (auto simp: percent_byte_def split: list.splits option.splits)

lemma second_byte_length: "second_byte s = Some (n, t) \<Longrightarrow> length t < length s"
  by (auto simp: second_byte_def split: list.splits option.splits if_splits dest: percent_byte_length)

text \<open>None where \<open>decodeURIComponent\<close> throws, and for a character beyond those of the model.\<close>

function decodeURIComponent :: "string \<Rightarrow> string option" where
  "decodeURIComponent [] = Some []"
| "decodeURIComponent (c # s) = (if c \<noteq> CHR ''%'' then map_option ((#) c) (decodeURIComponent s)
     else (case percent_byte s of
        None \<Rightarrow> None
      | Some (n, t) \<Rightarrow> if n < 128 then map_option ((#) (char_of n)) (decodeURIComponent t)
          else if n \<noteq> 194 \<and> n \<noteq> 195 then None
          else (case second_byte t of
              None \<Rightarrow> None
            | Some (m, u) \<Rightarrow> map_option ((#) (char_of ((n - 192) * 64 + m))) (decodeURIComponent u))))"
  by pat_completeness auto
termination
  by (relation "measure length") (auto dest!: percent_byte_length second_byte_length)

lemma hex_value_digit: "hex_value (hex_digit n) = Some (n mod 16)"
proof -
  have "\<forall>k < 16. hex_value (''0123456789ABCDEF'' ! k) = Some k"
    by (simp add: hex_value_def numeral_nat All_less_Suc)
  then show ?thesis by (simp add: hex_digit_def)
qed

lemma percent_byte_percent: "n < 256 \<Longrightarrow> percent_byte (tl (percent n) @ rest) = Some (n, rest)"
  by (simp add: percent_def percent_byte_def hex_value_digit)

lemma percent_Cons: "percent n = CHR ''%'' # tl (percent n)"
  by (simp add: percent_def)

lemma second_byte_percent: "128 \<le> m \<Longrightarrow> m < 192 \<Longrightarrow> second_byte (percent m @ rest) = Some (m - 128, rest)"
  by (subst percent_Cons) (simp add: second_byte_def percent_byte_percent)

lemma decode_encoded_char: "decodeURIComponent (encodeURIComponent [c] @ rest) = map_option ((#) c) (decodeURIComponent rest)"
proof -
  define n where "n = (of_char c :: nat)"
  have n: "n < 256" "char_of n = c" by (simp_all add: n_def)
  consider "uri_kept c" | "\<not> uri_kept c" "n < 128" | "\<not> uri_kept c" "128 \<le> n" by linarith
  then show ?thesis
  proof cases
    case 1
    moreover have "c \<noteq> CHR ''%''" using 1 by (auto simp: uri_kept_def is_id_char_def is_lower_alnum_def is_digit_def)
    ultimately show ?thesis by (simp add: encodeURIComponent_def)
  next
    case 2
    then have "encodeURIComponent [c] @ rest = CHR ''%'' # tl (percent n) @ rest"
      by (simp add: encodeURIComponent_def n_def percent_def Let_def)
    then show ?thesis using 2 n by (simp add: percent_byte_percent)
  next
    case 3
    have q: "n div 64 = 2 \<or> n div 64 = 3" using 3(2) n(1) by linarith
    have "encodeURIComponent [c] @ rest = CHR ''%'' # tl (percent (192 + n div 64)) @ percent (128 + n mod 64) @ rest"
      using 3 by (simp add: encodeURIComponent_def n_def percent_def Let_def)
    moreover have "percent_byte (tl (percent (192 + n div 64)) @ percent (128 + n mod 64) @ rest) = Some (192 + n div 64, percent (128 + n mod 64) @ rest)"
      using q by (intro percent_byte_percent) auto
    moreover have "second_byte (percent (128 + n mod 64) @ rest) = Some (n mod 64, rest)"
      using second_byte_percent [of "128 + n mod 64" rest] by simp
    moreover have "(n div 64) * 64 + n mod 64 = n" by simp
    ultimately show ?thesis using q n(2) by auto
  qed
qed

lemma encode_Cons: "encodeURIComponent (c # s) = encodeURIComponent [c] @ encodeURIComponent s"
  by (simp add: encodeURIComponent_def)

lemma decode_encode: "decodeURIComponent (encodeURIComponent s) = Some s"
proof (induction s)
  case (Cons c s)
  then show ?case by (subst encode_Cons) (simp add: decode_encoded_char)
qed (simp add: encodeURIComponent_def)

lemma hex_digit_not_slash: "hex_digit n \<noteq> CHR ''/''"
proof -
  have "\<forall>k < 16. ''0123456789ABCDEF'' ! k \<noteq> CHR ''/''" by (simp add: numeral_nat All_less_Suc)
  then show ?thesis by (simp add: hex_digit_def)
qed

lemma encode_no_slash: "CHR ''/'' \<notin> set (encodeURIComponent s)"
proof -
  have kept: "\<not> uri_kept (CHR ''/'')" by (simp add: uri_kept_def is_id_char_def is_lower_alnum_def is_digit_def)
  have "CHR ''/'' \<notin> set (percent n)" for n
    using hex_digit_not_slash [of "n div 16"] hex_digit_not_slash [of n] by (auto simp: percent_def)
  then show ?thesis using kept by (auto simp: encodeURIComponent_def Let_def)
qed

text \<open>What the list marks: the third part of the path, decoded for uploaded bots and as it is for instances. The result is None when decoding
  throws, and \<open>Some None\<close> when no bot is open.\<close>

definition activeBotName :: "string \<Rightarrow> string option option" where
  "activeBotName pathname = (case nth_opt (split_at (CHR ''/'') pathname) 2 of
      None \<Rightarrow> Some None | Some part \<Rightarrow> map_option Some (decodeURIComponent part))"

definition activeBotId :: "string \<Rightarrow> string option" where
  "activeBotId pathname = nth_opt (split_at (CHR ''/'') pathname) 2"

definition custom_bot_path :: "string \<Rightarrow> string" where
  "custom_bot_path name = ''/custom-bots/'' @ encodeURIComponent name"

definition instance_path :: "string \<Rightarrow> string" where
  "instance_path botId = ''/dashboard/'' @ botId"

lemma third_part:
  "CHR ''/'' \<notin> set part \<Longrightarrow> split_at (CHR ''/'') (''/custom-bots/'' @ part) = [[], ''custom-bots'', part]"
  "CHR ''/'' \<notin> set part \<Longrightarrow> split_at (CHR ''/'') (''/dashboard/'' @ part) = [[], ''dashboard'', part]"
  by (simp_all add: split_at_no_sep)

text \<open>The bot that is picked in the list is the one that the list marks and the page opens, whatever characters its name has; an instance is when its
  id has no slash.\<close>

theorem picked_bot_is_active:
  "activeBotName (custom_bot_path name) = Some (Some name) \<and> (CHR ''/'' \<in> set botId \<or> activeBotId (instance_path botId) = Some botId)"
proof -
  have "activeBotName (custom_bot_path name) = Some (Some name)"
    unfolding activeBotName_def custom_bot_path_def third_part(1) [OF encode_no_slash] by (simp add: nth_opt_def decode_encode)
  moreover have "CHR ''/'' \<in> set botId \<or> activeBotId (instance_path botId) = Some botId"
    using third_part(2) [of botId] unfolding activeBotId_def instance_path_def by (cases "CHR ''/'' \<in> set botId") (simp_all add: nth_opt_def del: split_at.simps append.simps)
  ultimately show ?thesis by blast
qed

text \<open>The cards of the older dashboard push the name as it is (custom-bots-dashboard.tsx).\<close>

definition card_path :: "string \<Rightarrow> string" where
  "card_path name = ''/custom-bots/'' @ name"

section \<open>The list pages\<close>

text \<open>\<open>desktop\<close> is None until the media query is answered. Both pages are the same, up to the path of a bot.\<close>

datatype page_contents = NothingYet | PageSpinner | PageError string | NoBots | BotList

definition list_page_view :: "bool option \<Rightarrow> bool \<Rightarrow> string option \<Rightarrow> 'b list \<Rightarrow> page_contents" where
  "list_page_view desktop loading error bs = (case desktop of None \<Rightarrow> NothingYet
     | Some d \<Rightarrow> if loading then PageSpinner else if truthy_opt error then PageError (the error)
         else if bs = [] then NoBots else if d then NothingYet else BotList)"

definition list_page_redirect :: "('b \<Rightarrow> string) \<Rightarrow> bool option \<Rightarrow> bool \<Rightarrow> 'b list \<Rightarrow> string option" where
  "list_page_redirect path_of desktop loading bs = (if \<not> loading \<and> desktop = Some True \<and> bs \<noteq> [] then Some (path_of (hd bs)) else None)"

text \<open>What replaces the page where it shows nothing, and the gate that sends a visitor to the login.\<close>

definition auth_gate :: "bool \<Rightarrow> bool \<Rightarrow> string option \<times> bool" where
  "auth_gate has_user loading = ((if \<not> loading \<and> \<not> has_user then Some ''/login'' else None), \<not> loading \<and> has_user)"

lemma blank_page_redirects:
  "list_page_view desktop loading error bs = NothingYet \<longleftrightarrow> desktop = None \<or> list_page_redirect path_of desktop loading bs \<noteq> None \<and> \<not> truthy_opt error"
  by (auto simp: list_page_view_def list_page_redirect_def split: option.splits)

section \<open>The versions of a bot\<close>

definition versionsPerPage :: nat where
  "versionsPerPage = 5"

definition totalPages :: "'v list \<Rightarrow> nat" where
  "totalPages versions = (length versions + versionsPerPage - 1) div versionsPerPage"

definition currentVersions :: "nat \<Rightarrow> 'v list \<Rightarrow> 'v list" where
  "currentVersions page versions = take versionsPerPage (drop (page * versionsPerPage) versions)"

definition goToNextPage :: "'v list \<Rightarrow> nat \<Rightarrow> nat" where
  "goToNextPage versions page = (if page + 1 < totalPages versions then page + 1 else page)"

definition goToPreviousPage :: "nat \<Rightarrow> nat" where
  "goToPreviousPage page = (if 0 < page then page - 1 else page)"

lemma pages_concat: "concat (map (\<lambda>p. currentVersions p versions) [0..<n]) = take (n * versionsPerPage) versions"
  by (induction n) (simp_all add: currentVersions_def take_add [symmetric] add.commute)

text \<open>Turned one after the other, the pages show every version once, in order; and no page but that of a bot without versions is empty.\<close>

theorem pages_show_all_versions:
  "concat (map (\<lambda>p. currentVersions p versions) [0..<totalPages versions]) = versions
   \<and> list_all (\<lambda>p. currentVersions p versions \<noteq> [] \<and> (goToNextPage versions p = p + 1 \<or> p + 1 = totalPages versions)) [0..<totalPages versions]"
proof -
  have enough: "length versions \<le> totalPages versions * versionsPerPage" by (simp add: totalPages_def versionsPerPage_def)
  have inside: "p * versionsPerPage < length versions" if "p < totalPages versions" for p
    using that unfolding totalPages_def versionsPerPage_def by linarith
  have "concat (map (\<lambda>p. currentVersions p versions) [0..<totalPages versions]) = versions"
    using enough by (simp only: pages_concat take_all)
  moreover have "currentVersions p versions \<noteq> []" if "p < totalPages versions" for p
    using inside [OF that] by (simp add: currentVersions_def versionsPerPage_def)
  ultimately show ?thesis by (auto simp: list_all_iff goToNextPage_def)
qed

section \<open>The version that is shown\<close>

text \<open>\<open>dt_latest\<close> is \<open>bot?.latestVersion\<close> of the last run of the effect.\<close>

record bot_detail =
  dt_bot :: "ui_bot option"
  dt_latest :: "json option"
  dt_selected :: "json option"

definition detail_start :: bot_detail where
  "detail_start = \<lparr>dt_bot = None, dt_latest = None, dt_selected = Some (JStr [])\<rparr>"

definition show_bot :: "ui_bot option \<Rightarrow> bot_detail \<Rightarrow> bot_detail" where
  "show_bot b s = (let latest = Option.bind b ub_latestVersion in
     if latest = dt_latest s then s\<lparr>dt_bot := b\<rparr>
     else s\<lparr>dt_bot := b, dt_latest := latest, dt_selected := (if b = None then dt_selected s else latest)\<rparr>)"

definition version_numbers :: "ui_bot \<Rightarrow> json option list" where
  "version_numbers b = map uv_version (ub_versions b)"

text \<open>The page offers the versions of the bot only.\<close>

definition handleVersionChange :: "json option \<Rightarrow> bot_detail \<Rightarrow> bot_detail" where
  "handleVersionChange v s = (case dt_bot s of None \<Rightarrow> s | Some b \<Rightarrow> if v \<in> set (version_numbers b) then s\<lparr>dt_selected := v\<rparr> else s)"

definition find_version :: "ui_bot \<Rightarrow> json option \<Rightarrow> ui_version option" where
  "find_version b v = find (\<lambda>x. uv_version x = v) (ub_versions b)"

text \<open>None for a bot without versions, on which the page throws.\<close>

definition selectedVersionData :: "ui_bot \<Rightarrow> json option \<Rightarrow> ui_version option" where
  "selectedVersionData b v = (case find_version b v of Some x \<Rightarrow> Some x | None \<Rightarrow> (case ub_versions b of [] \<Rightarrow> None | x # _ \<Rightarrow> Some x))"

datatype detail_event = BotChanged "ui_bot option" | VersionPicked "json option"

fun detail_step :: "detail_event \<Rightarrow> bot_detail \<Rightarrow> bot_detail" where
  "detail_step (BotChanged b) s = show_bot b s"
| "detail_step (VersionPicked v) s = handleVersionChange v s"

fun detail_run :: "detail_event list \<Rightarrow> bot_detail \<Rightarrow> bot_detail" where
  "detail_run [] s = s"
| "detail_run (e # es) s = detail_run es (detail_step e s)"

text \<open>The bots that are shown while the page is open: each names one of its versions as the latest, and versions are added only.\<close>

fun versions_kept :: "ui_bot option \<Rightarrow> detail_event list \<Rightarrow> bool" where
  "versions_kept old [] = True"
| "versions_kept old (VersionPicked v # es) = versions_kept old es"
| "versions_kept old (BotChanged None # es) = versions_kept None es"
| "versions_kept old (BotChanged (Some b) # es) = (ub_latestVersion b \<noteq> None \<and> ub_latestVersion b \<in> set (version_numbers b)
     \<and> (case old of None \<Rightarrow> True | Some a \<Rightarrow> set (version_numbers a) \<subseteq> set (version_numbers b)) \<and> versions_kept (Some b) es)"

definition detail_ok :: "bot_detail \<Rightarrow> bool" where
  "detail_ok s \<longleftrightarrow> (case dt_bot s of None \<Rightarrow> dt_latest s = None
     | Some b \<Rightarrow> dt_latest s = ub_latestVersion b \<and> dt_selected s \<in> set (version_numbers b))"

lemma detail_run_ok: "detail_ok s \<Longrightarrow> versions_kept (dt_bot s) es \<Longrightarrow> detail_ok (detail_run es s)"
proof (induction es arbitrary: s)
  case (Cons e es)
  have "detail_ok (detail_step e s) \<and> versions_kept (dt_bot (detail_step e s)) es"
  proof (cases e)
    case (BotChanged b)
    then show ?thesis using Cons.prems by (cases b; cases "dt_bot s") (auto simp: detail_ok_def show_bot_def Let_def)
  next
    case (VersionPicked v)
    then show ?thesis using Cons.prems by (cases "dt_bot s") (auto simp: detail_ok_def handleVersionChange_def)
  qed
  then show ?case using Cons.IH by simp
qed simp

lemma find_version_in: "v \<in> set (version_numbers b) \<Longrightarrow> \<exists>x. find_version b v = Some x \<and> uv_version x = v \<and> x \<in> set (ub_versions b)"
proof (cases "find_version b v")
  case None
  assume "v \<in> set (version_numbers b)"
  then show ?thesis using None unfolding find_version_def version_numbers_def find_own(1) by auto
next
  case (Some x)
  then show ?thesis using find_own(2) unfolding find_version_def by fast
qed

text \<open>The version in the heading and in the proposed configuration is the one whose data the page shows, and it is one of the bot.\<close>

theorem shown_version_is_selected:
  assumes "versions_kept None es" "dt_bot (detail_run es detail_start) = Some b"
  shows "\<exists>x \<in> set (ub_versions b). selectedVersionData b (dt_selected (detail_run es detail_start)) = Some x
    \<and> uv_version x = dt_selected (detail_run es detail_start)"
proof -
  have "detail_ok (detail_run es detail_start)"
    by (rule detail_run_ok) (use assms(1) in \<open>simp_all add: detail_ok_def detail_start_def\<close>)
  then have "dt_selected (detail_run es detail_start) \<in> set (version_numbers b)" using assms(2) by (simp add: detail_ok_def)
  from find_version_in [OF this] show ?thesis by (auto simp: selectedVersionData_def)
qed

section \<open>The proposed configuration\<close>

text \<open>The text of a value in a template.\<close>

definition template_text :: "(rat \<Rightarrow> string) \<Rightarrow> json option \<Rightarrow> string" where
  "template_text num v = (case v of None \<Rightarrow> ''undefined'' | Some x \<Rightarrow> js_text num x)"

definition version_type :: "ui_bot \<Rightarrow> json option \<Rightarrow> json option" where
  "version_type b v = prop_of (Option.bind (find_version b v) uv_config) ''type''"

definition exampleConfig :: "(rat \<Rightarrow> string) \<Rightarrow> ui_bot \<Rightarrow> json option \<Rightarrow> js_object" where
  "exampleConfig num b selectedVersion = (let t = version_type b selectedVersion in
     [(''name'', JStr ''my-bot-instance''),
      (''type'', JStr (js_text num (value_or t (JStr ''scheduled'')) @ ''/'' @ template_text num (ub_name b)))]
     @ opt_entry ''version'' selectedVersion
     @ (if t = Some (JStr ''scheduled'') then [(''schedule'', JStr ''0 9 * * *'')] else []))"

definition hasReadme :: "ui_bot \<Rightarrow> json option \<Rightarrow> bool" where
  "hasReadme b v \<longleftrightarrow> truthy_value (prop_of (Option.bind (find_version b v) uv_config) ''readme'')
     \<or> truthy_value (case ub_versions b of [] \<Rightarrow> None | x # _ \<Rightarrow> prop_of (uv_config x) ''readme'')"

section \<open>The proposal against the API\<close>

lemma split_at_two: "c \<in> set s \<Longrightarrow> \<exists>b v. split_at c s = b # v \<and> v \<noteq> []"
  by (induction s) (auto split: list.splits)

lemma type_pattern_name: "CHR ''/'' \<notin> set n \<Longrightarrow> bot_type_pattern (t @ CHR ''/'' # n) \<longleftrightarrow> CHR ''/'' \<notin> set t \<and> kebab t \<and> kebab n"
proof (cases "CHR ''/'' \<in> set t")
  case False
  assume "CHR ''/'' \<notin> set n"
  then show ?thesis using False by (simp add: bot_type_pattern_def split_at_append_sep split_at_no_sep)
next
  case True
  then obtain a u where t: "t = a @ CHR ''/'' # u" "CHR ''/'' \<notin> set a" by (meson split_list_first)
  have "3 \<le> length (split_at (CHR ''/'') (t @ CHR ''/'' # n))"
  proof -
    obtain b v where "split_at (CHR ''/'') (u @ CHR ''/'' # n) = b # v" "v \<noteq> []"
      using split_at_two [of "CHR ''/''" "u @ CHR ''/'' # n"] by auto
    then show ?thesis using t by (cases v) (simp_all add: split_at_append_sep)
  qed
  then have "\<not> bot_type_pattern (t @ CHR ''/'' # n)"
    by (auto simp: bot_type_pattern_def split: list.splits)
  then show ?thesis using True by simp
qed

lemma kebab_types: "t \<in> set BOT_TYPES \<Longrightarrow> kebab t \<and> CHR ''/'' \<notin> set t"
  by (auto simp: BOT_TYPES_def kebab_def is_lower_alnum_def is_digit_def)

text \<open>The configuration that the page proposes for a version has a type and a schedule that the API accepts: only the schema of the bot is left to be
  filled in. The name of the bot is made of words joined by hyphens, and the proposed schedule is one that cron-validator accepts.\<close>

theorem proposal_meets_api_checks:
  assumes "ub_name b = Some (JStr n)" "kebab n" "CHR ''/'' \<notin> set n" "version_type b v = Some (JStr t)" "t \<in> set BOT_TYPES"
    "isValidCron sv (JStr ''0 9 * * *'') = Inr True"
  shows "validate_config sv (exampleConfig (number_text sv) b v) cb w = validateWithSchema sv cb (exampleConfig (number_text sv) b v) w"
proof -
  have t: "t \<noteq> []" "kebab t" "CHR ''/'' \<notin> set t" using assms(5) kebab_types by (auto simp: BOT_TYPES_def)
  define config where "config = exampleConfig (number_text sv) b v"
  have type: "map_of config ''type'' = Some (JStr (t @ CHR ''/'' # n))"
    using assms(1,4) t(1) by (simp add: config_def exampleConfig_def template_text_def value_or_def Let_def)
  have schedule: "t = ''scheduled'' \<Longrightarrow> map_of config ''schedule'' = Some (JStr ''0 9 * * *'')"
    using assms(4) by (simp add: config_def exampleConfig_def opt_entry_def Let_def split: option.split)
  have "nth_opt (split_at (CHR ''/'') (t @ CHR ''/'' # n)) 0 = Some t"
    using t(3) by (simp add: nth_opt_def split_at_append_sep)
  then show ?thesis
    using type schedule assms(2,6) t type_pattern_name [OF assms(3), of t] unfolding config_def [symmetric]
    by (cases "t = ''scheduled''")
      (simp_all add: validate_config_def io_bind_run split_slash_def checkSchedule_def io_return_run)
qed

definition demo_shown :: ui_bot where
  "demo_shown = \<lparr>ub_id = Some (JStr ''b1''), ub_name = Some (JStr ''trend-bot''), ub_userId = Some (JStr ''ann''), ub_latestVersion = Some (JStr ''1.0.0''),
     ub_versions = [\<lparr>uv_id = Some (JStr ''b1''), uv_version = Some (JStr ''1.0.0''), uv_userId = Some (JStr ''ann''), uv_createdAt = None,
       uv_status = Some (JStr ''active''), uv_config = Some (JObj [(''type'', JStr ''scheduled'')]), uv_filePath = None, uv_review = None\<rparr>],
     ub_createdAt = None, ub_updatedAt = None\<rparr>"

theorem proposal_meets_api_checks_witness:
  "let config = exampleConfig (number_text demo_server) demo_shown (Some (JStr ''1.0.0'')) in
     validate_config demo_server config cb w = validateWithSchema demo_server cb config w
     \<and> map_of config ''type'' = Some (JStr ''scheduled/trend-bot'')"
proof -
  have kebab: "kebab ''trend-bot''" by code_simp
  have type: "version_type demo_shown (Some (JStr ''1.0.0'')) = Some (JStr ''scheduled'')" by code_simp
  have "isValidCron demo_server (JStr ''0 9 * * *'') = Inr True" by (simp add: demo_server_def)
  from proposal_meets_api_checks [where b = demo_shown and n = "''trend-bot''", OF _ kebab _ type _ this]
  have "validate_config demo_server (exampleConfig (number_text demo_server) demo_shown (Some (JStr ''1.0.0''))) cb w
    = validateWithSchema demo_server cb (exampleConfig (number_text demo_server) demo_shown (Some (JStr ''1.0.0''))) w"
    by (simp add: demo_shown_def BOT_TYPES_def)
  then show ?thesis
    using type by (simp add: Let_def exampleConfig_def template_text_def value_or_def demo_shown_def)
qed

text \<open>A bot may be uploaded under a name that begins or ends with a hyphen or has two in a row, but no type of an instance can name it: whatever an
  instance is sent with, the API refuses it.\<close>

definition named_config :: "string \<Rightarrow> json" where
  "named_config n = (case demo_config of JObj kvs \<Rightarrow> JObj (AList.update ''name'' (JStr n) kvs) | v \<Rightarrow> v)"

theorem uploaded_name_never_deployed:
  "customBotConfigSchema (named_config ''my--bot'') \<and> \<not> bot_type_pattern (t @ ''/my--bot'')"
proof
  show "customBotConfigSchema (named_config ''my--bot'')" by code_simp
  have "\<not> kebab ''my--bot''" by code_simp
  then show "\<not> bot_type_pattern (t @ ''/my--bot'')" using type_pattern_name [of "''my--bot''" t] by simp
qed

end
