(* ===== verification/Requests.thy ===== *)
theory Requests
  imports UserService Logs BotLogs Http
begin

text \<open>
  What a request must look like: the classes of api/src/*/dto, which declare rules for the validators of class-validator, and the
  validation that api/src/main.ts puts in front of every controller (whitelist, forbidNonWhitelisted, transform). The validators and
  Nest's pipe are parameters (\<open>holds\<close>, \<open>pipe\<close>); \<open>documented\<close> says what their documentation promises.
\<close>

section \<open>Rules\<close>

datatype rule = IsString | IsNotEmpty | IsEmail | MinLength nat | MaxLength nat | IsIn "string list" | IsBoolean | IsObject
  | IsInt | MinInt int | MaxInt int

datatype transform = NoTransform | TrimText | StrictNumber

record dto_field =
  df_name :: string
  df_transform :: transform
  df_rules :: "rule list"
  df_optional :: bool

type_synonym dto = "dto_field list"

definition required :: "string \<Rightarrow> transform \<Rightarrow> rule list \<Rightarrow> dto_field" where
  "required n t rs = \<lparr>df_name = n, df_transform = t, df_rules = rs, df_optional = False\<rparr>"

definition optional :: "string \<Rightarrow> transform \<Rightarrow> rule list \<Rightarrow> dto_field" where
  "optional n t rs = \<lparr>df_name = n, df_transform = t, df_rules = rs, df_optional = True\<rparr>"

definition USER_ROLE_VALUES :: "string list" where
  "USER_ROLE_VALUES = [role_value ADMIN, role_value USER]"

definition LoginDto :: dto where
  "LoginDto = [required ''email'' NoTransform [IsEmail, IsNotEmpty], required ''password'' NoTransform [IsString, IsNotEmpty]]"

definition ValidateTokenDto :: dto where
  "ValidateTokenDto = [required ''token'' NoTransform [IsNotEmpty, IsString]]"

definition CreateAdminUserDto :: dto where
  "CreateAdminUserDto = [optional ''username'' TrimText [IsString, IsNotEmpty], required ''email'' TrimText [IsEmail],
     required ''password'' NoTransform [IsString, MinLength MIN_PASSWORD_LENGTH], optional ''firstName'' TrimText [IsString],
     optional ''lastName'' TrimText [IsString], optional ''role'' NoTransform [IsIn USER_ROLE_VALUES], optional ''isActive'' NoTransform [IsBoolean]]"

definition UpdateAdminUserDto :: dto where
  "UpdateAdminUserDto = [optional ''username'' TrimText [IsString, IsNotEmpty], optional ''email'' TrimText [IsEmail],
     optional ''firstName'' TrimText [IsString], optional ''lastName'' TrimText [IsString],
     optional ''role'' NoTransform [IsIn USER_ROLE_VALUES], optional ''isActive'' NoTransform [IsBoolean]]"

definition UpdateProfileDto :: dto where
  "UpdateProfileDto = [optional ''username'' TrimText [IsString, IsNotEmpty], optional ''firstName'' TrimText [IsString],
     optional ''lastName'' TrimText [IsString]]"

definition ResetPasswordDto :: dto where
  "ResetPasswordDto = [required ''password'' NoTransform [IsString, MinLength MIN_PASSWORD_LENGTH]]"

definition ChangePasswordDto :: dto where
  "ChangePasswordDto = [required ''currentPassword'' NoTransform [IsString, IsNotEmpty],
     required ''newPassword'' NoTransform [IsString, MinLength MIN_PASSWORD_LENGTH]]"

definition DeleteAccountDto :: dto where
  "DeleteAccountDto = [required ''password'' NoTransform [IsString, IsNotEmpty]]"

definition CreateBotDto :: dto where
  "CreateBotDto = [required ''name'' NoTransform [IsNotEmpty, IsString], required ''config'' NoTransform [IsNotEmpty, IsObject]]"

definition UpdateBotDto :: dto where
  "UpdateBotDto = [optional ''name'' NoTransform [IsString], required ''config'' NoTransform [IsNotEmpty, IsObject]]"

definition CreateApiKeyDto :: dto where
  "CreateApiKeyDto = [required ''name'' NoTransform [IsString, IsNotEmpty, MinLength 3, MaxLength 50]]"

definition GetLogsQueryDto :: dto where
  "GetLogsQueryDto = [optional ''date'' NoTransform [IsString], optional ''dateRange'' NoTransform [IsString],
     optional ''lookbackDays'' StrictNumber [IsInt, MinInt 1, MaxInt 90], optional ''limit'' StrictNumber [IsInt, MinInt 1, MaxInt 2000],
     optional ''offset'' StrictNumber [IsInt, MinInt 0], optional ''type'' NoTransform [IsString, IsIn [''all'', ''metrics'']],
     optional ''sort'' NoTransform [IsString, IsIn [''asc'', ''desc'']]]"

section \<open>Validation\<close>

text \<open>The value after the transformation; None is NaN. \<open>Number\<close> of a value that is no text is not needed: these fields are of a query.\<close>

definition apply_transform :: "server \<Rightarrow> transform \<Rightarrow> json \<Rightarrow> json option" where
  "apply_transform sv t v = (case t of
      NoTransform \<Rightarrow> Some v
    | TrimText \<Rightarrow> Some (case v of JStr s \<Rightarrow> JStr (js_trim s) | _ \<Rightarrow> v)
    | StrictNumber \<Rightarrow> (case v of JStr s \<Rightarrow> map_option JNum (js_number sv s) | JNum q \<Rightarrow> Some (JNum q) | _ \<Rightarrow> None))"

type_synonym validators = "rule \<Rightarrow> json option \<Rightarrow> bool"
type_synonym validation_pipe = "dto \<Rightarrow> js_object \<Rightarrow> js_object option"

definition field_ok :: "server \<Rightarrow> validators \<Rightarrow> js_object \<Rightarrow> dto_field \<Rightarrow> bool" where
  "field_ok sv holds body f = (case map_of body (df_name f) of
      None \<Rightarrow> df_optional f
    | Some v \<Rightarrow> (let u = apply_transform sv (df_transform f) v in
        df_optional f \<and> u = Some JNull \<or> list_all (\<lambda>r. holds r u) (df_rules f)))"

definition transformed :: "server \<Rightarrow> dto \<Rightarrow> js_object \<Rightarrow> js_object" where
  "transformed sv d body = concat (map (\<lambda>f. opt_entry (df_name f) (Option.bind (map_of body (df_name f)) (apply_transform sv (df_transform f)))) d)"

fun documented_rule :: "server \<Rightarrow> rule \<Rightarrow> json option \<Rightarrow> bool" where
  "documented_rule sv IsString v = (case v of Some (JStr _) \<Rightarrow> True | _ \<Rightarrow> False)"
| "documented_rule sv IsNotEmpty v = (v \<noteq> Some (JStr []) \<and> v \<noteq> Some JNull)"
| "documented_rule sv IsEmail v = (case v of Some (JStr s) \<Rightarrow> isEmail sv s | _ \<Rightarrow> False)"
| "documented_rule sv (MinLength n) v = (case v of Some (JStr s) \<Rightarrow> n \<le> length s | _ \<Rightarrow> False)"
| "documented_rule sv (MaxLength n) v = (case v of Some (JStr s) \<Rightarrow> length s \<le> n | _ \<Rightarrow> False)"
| "documented_rule sv (IsIn xs) v = (case v of Some (JStr s) \<Rightarrow> s \<in> set xs | _ \<Rightarrow> False)"
| "documented_rule sv IsBoolean v = (case v of Some (JBool _) \<Rightarrow> True | _ \<Rightarrow> False)"
| "documented_rule sv IsObject v = (case v of Some (JObj _) \<Rightarrow> True | _ \<Rightarrow> False)"
| "documented_rule sv IsInt v = (case v of Some (JNum q) \<Rightarrow> of_int \<lfloor>q\<rfloor> = q | _ \<Rightarrow> False)"
| "documented_rule sv (MinInt n) v = (case v of Some (JNum q) \<Rightarrow> of_int n \<le> q | _ \<Rightarrow> False)"
| "documented_rule sv (MaxInt n) v = (case v of Some (JNum q) \<Rightarrow> q \<le> of_int n | _ \<Rightarrow> False)"

definition documented_pipe :: "server \<Rightarrow> validators \<Rightarrow> validation_pipe" where
  "documented_pipe sv holds d body = (if list_all (\<lambda>kv. fst kv \<in> df_name ` set d) body \<and> list_all (field_ok sv holds body) d
     then Some (transformed sv d body) else None)"

definition documented :: "server \<Rightarrow> validators \<Rightarrow> validation_pipe \<Rightarrow> bool" where
  "documented sv holds pipe \<longleftrightarrow> (\<forall>r v. holds r v = documented_rule sv r v) \<and> (\<forall>d body. pipe d body = documented_pipe sv holds d body)"

section \<open>What the controllers read\<close>

text \<open>\<open>body.k\<close> as a text; null counts as absent where the services read with \<open>?.\<close> or \<open>||\<close>.\<close>

definition text_field :: "js_object \<Rightarrow> string \<Rightarrow> string option" where
  "text_field obj k = (case map_of obj k of Some (JStr s) \<Rightarrow> Some s | _ \<Rightarrow> None)"

definition role_field :: "js_object \<Rightarrow> user_role option" where
  "role_field obj = (case text_field obj ''role'' of None \<Rightarrow> None | Some s \<Rightarrow> if s = role_value ADMIN then Some ADMIN else Some USER)"

definition bool_field :: "js_object \<Rightarrow> string \<Rightarrow> bool option" where
  "bool_field obj k = (case map_of obj k of Some (JBool b) \<Rightarrow> Some b | _ \<Rightarrow> None)"

definition created_user_input :: "js_object \<Rightarrow> create_admin_user_input" where
  "created_user_input obj = \<lparr>cu_username = text_field obj ''username'', cu_email = or_else (text_field obj ''email'') [],
     cu_password = or_else (text_field obj ''password'') [], cu_firstName = text_field obj ''firstName'',
     cu_lastName = text_field obj ''lastName'', cu_role = role_field obj, cu_isActive = bool_field obj ''isActive''\<rparr>"

text \<open>\<open>query.limit || 100\<close>, \<open>query.offset || 0\<close> and \<open>query.sort || "desc"\<close> of the logs controller.\<close>

definition int_field :: "js_object \<Rightarrow> string \<Rightarrow> int option" where
  "int_field obj k = (case map_of obj k of Some (JNum q) \<Rightarrow> Some \<lfloor>q\<rfloor> | _ \<Rightarrow> None)"

definition controller_query :: "js_object \<Rightarrow> logs_query" where
  "controller_query obj = \<lparr>lq_date = text_field obj ''date'', lq_dateRange = text_field obj ''dateRange'',
     lq_lookbackDays = map_option nat (int_field obj ''lookbackDays''), lq_limit = num_or (int_field obj ''limit'') 100,
     lq_offset = num_or (int_field obj ''offset'') 0, lq_type = text_field obj ''type'', lq_sort = Some (or_else (text_field obj ''sort'') ''desc''),
     lq_startTime = None, lq_endTime = None\<rparr>"

section \<open>What accepted requests hold\<close>

lemma documentedD:
  assumes "documented sv holds pipe" "pipe d body = Some obj"
  shows "obj = transformed sv d body" "list_all (field_ok sv holds body) d" "holds r v = documented_rule sv r v"
    "list_all (\<lambda>kv. fst kv \<in> df_name ` set d) body"
  using assms by (auto simp: documented_def documented_pipe_def split: if_splits)

lemma transformed_lookup:
  assumes "distinct (map df_name d)" "f \<in> set d"
  shows "map_of (transformed sv d body) (df_name f) = Option.bind (map_of body (df_name f)) (apply_transform sv (df_transform f))"
  using assms
proof (induction d)
  case (Cons g d)
  have none: "df_name f \<notin> df_name ` set d \<Longrightarrow> map_of (transformed sv d body) (df_name f) = None" for d and f :: dto_field
    by (induction d) (auto simp: transformed_def opt_entry_def map_add_def split: option.split)
  show ?case
  proof (cases "f = g")
    case True
    then have "map_of (transformed sv d body) (df_name f) = None" using Cons.prems none by simp
    then show ?thesis using True by (simp add: transformed_def opt_entry_def map_add_def split: option.split)
  next
    case False
    then have "f \<in> set d" "df_name f \<noteq> df_name g" using Cons.prems by (auto simp: image_iff)
    then show ?thesis using Cons by (simp add: transformed_def opt_entry_def map_add_def split: option.split)
  qed
qed simp

definition well_declared :: "dto \<Rightarrow> bool" where
  "well_declared d \<longleftrightarrow> distinct (map df_name d) \<and> list_all (\<lambda>f. df_transform f \<noteq> StrictNumber \<or> IsInt \<in> set (df_rules f)) d"

text \<open>An accepted field is absent, null, or satisfies its rules.\<close>

definition field_holds :: "server \<Rightarrow> js_object \<Rightarrow> dto_field \<Rightarrow> bool" where
  "field_holds sv obj f = (case map_of obj (df_name f) of None \<Rightarrow> df_optional f
    | Some u \<Rightarrow> df_optional f \<and> u = JNull \<or> list_all (\<lambda>r. documented_rule sv r (Some u)) (df_rules f))"

lemma accepted_fields:
  assumes "documented sv holds pipe" "pipe d body = Some obj" "well_declared d"
  shows "list_all (field_holds sv obj) d"
  unfolding list_all_iff
proof
  fix f assume f: "f \<in> set d"
  note d = documentedD [OF assms(1,2)]
  have ok: "field_ok sv holds body f" using d(2) f by (simp add: list_all_iff)
  have number: "df_transform f \<noteq> StrictNumber \<or> IsInt \<in> set (df_rules f)" and dist: "distinct (map df_name d)"
    using assms(3) f by (auto simp: well_declared_def list_all_iff)
  have look: "map_of obj (df_name f) = Option.bind (map_of body (df_name f)) (apply_transform sv (df_transform f))"
    unfolding d(1) by (rule transformed_lookup [OF dist f])
  show "field_holds sv obj f"
  proof (cases "map_of body (df_name f)")
    case None
    then show ?thesis using ok look by (simp add: field_holds_def field_ok_def)
  next
    case (Some v)
    have some: "apply_transform sv (df_transform f) v \<noteq> None"
    proof
      assume none: "apply_transform sv (df_transform f) v = None"
      then have "df_transform f = StrictNumber" by (auto simp: apply_transform_def split: transform.splits)
      then have "documented_rule sv IsInt None"
        using ok Some none number by (auto simp: field_ok_def Let_def d(3) list_all_iff)
      then show False by simp
    qed
    then show ?thesis using ok look Some by (auto simp: field_holds_def field_ok_def Let_def d(3))
  qed
qed

lemma dtos_well_declared:
  "well_declared CreateAdminUserDto" "well_declared ChangePasswordDto" "well_declared ResetPasswordDto" "well_declared GetLogsQueryDto"
  "well_declared CreateApiKeyDto"
  by code_simp+

text \<open>A text that went through \<open>trim\<close>.\<close>

lemma accepted_trimmed:
  assumes "documented sv holds pipe" "pipe d body = Some obj" "distinct (map df_name d)" "f \<in> set d" "df_transform f = TrimText"
    "map_of obj (df_name f) = Some (JStr s)"
  shows "js_trim s = s"
  using assms(6) transformed_lookup [OF assms(3,4), of sv body] documentedD(1) [OF assms(1,2)] assms(5)
  by (cases "map_of body (df_name f)") (auto simp: apply_transform_def js_trim_idem split: json.splits)

text \<open>Whatever reaches the services as a new password satisfies the password policy, on all three routes that set one.\<close>

theorem new_passwords_meet_policy:
  assumes "documented sv holds pipe"
  shows "(case pipe CreateAdminUserDto body of None \<Rightarrow> True | Some obj \<Rightarrow> validatePasswordPolicy (cu_password (created_user_input obj)) = None)
    \<and> (case pipe ResetPasswordDto body of None \<Rightarrow> True | Some obj \<Rightarrow> \<exists>p. text_field obj ''password'' = Some p \<and> validatePasswordPolicy p = None)
    \<and> (case pipe ChangePasswordDto body of None \<Rightarrow> True | Some obj \<Rightarrow> \<exists>p. text_field obj ''newPassword'' = Some p \<and> validatePasswordPolicy p = None)"
proof -
  have strong: "\<exists>p. text_field obj k = Some p \<and> validatePasswordPolicy p = None"
    if "field_holds sv obj (required k NoTransform [IsString, MinLength MIN_PASSWORD_LENGTH])" for obj k
    using that by (auto simp: field_holds_def required_def text_field_def validatePasswordPolicy_def split: option.splits json.splits) (metis not_less)
  have create: "validatePasswordPolicy (cu_password (created_user_input obj)) = None" if "pipe CreateAdminUserDto body = Some obj" for obj
  proof -
    have "field_holds sv obj (required ''password'' NoTransform [IsString, MinLength MIN_PASSWORD_LENGTH])"
      using accepted_fields [OF assms that dtos_well_declared(1)] by (simp add: CreateAdminUserDto_def)
    from strong [OF this] obtain p where "text_field obj ''password'' = Some p" "validatePasswordPolicy p = None" by blast
    then show ?thesis by (auto simp: created_user_input_def or_else_def)
  qed
  have reset: "field_holds sv obj (required ''password'' NoTransform [IsString, MinLength MIN_PASSWORD_LENGTH])"
    if "pipe ResetPasswordDto body = Some obj" for obj
    using accepted_fields [OF assms that dtos_well_declared(3)] by (simp add: ResetPasswordDto_def)
  have change: "field_holds sv obj (required ''newPassword'' NoTransform [IsString, MinLength MIN_PASSWORD_LENGTH])"
    if "pipe ChangePasswordDto body = Some obj" for obj
    using accepted_fields [OF assms that dtos_well_declared(2)] by (simp add: ChangePasswordDto_def)
  show ?thesis using create strong reset change by (simp split: option.split)
qed

lemma int_bound:
  assumes "field_holds sv obj (optional k StrictNumber (IsInt # MinInt a # rs))" "int_field obj k = Some n"
  shows "a \<le> n \<and> list_all (\<lambda>r. documented_rule sv r (Some (JNum (of_int n)))) rs"
proof -
  obtain q where q: "map_of obj k = Some (JNum q)" "n = \<lfloor>q\<rfloor>" using assms(2) by (auto simp: int_field_def split: option.splits json.splits)
  have "list_all (\<lambda>r. documented_rule sv r (Some (JNum q))) (IsInt # MinInt a # rs)"
    using assms(1) q(1) by (simp add: field_holds_def optional_def)
  moreover from this have "q = of_int n" using q(2) by auto
  ultimately show ?thesis by simp
qed

text \<open>The log query that the controller hands to the service is within the limits on which the service relies.\<close>

theorem accepted_query_bounded:
  assumes "documented sv holds pipe" "pipe GetLogsQueryDto params = Some obj"
  shows "let q = controller_query obj in 1 \<le> lq_limit q \<and> lq_limit q \<le> 2000 \<and> 0 \<le> lq_offset q
    \<and> (case lq_lookbackDays q of None \<Rightarrow> True | Some n \<Rightarrow> 1 \<le> n \<and> n \<le> 90) \<and> lq_sort q \<in> {Some ''asc'', Some ''desc''}"
proof -
  note fields = accepted_fields [OF assms dtos_well_declared(4), unfolded GetLogsQueryDto_def, simplified]
  have limit: "1 \<le> num_or (int_field obj ''limit'') 100 \<and> num_or (int_field obj ''limit'') 100 \<le> 2000"
    using fields int_bound [of sv obj "''limit''" 1 "[MaxInt 2000]"] by (cases "int_field obj ''limit''") (simp_all add: num_or_def)
  have offset: "0 \<le> num_or (int_field obj ''offset'') 0"
    using fields int_bound [of sv obj "''offset''" 0 "[]"] by (cases "int_field obj ''offset''") (simp_all add: num_or_def)
  have days: "case map_option nat (int_field obj ''lookbackDays'') of None \<Rightarrow> True | Some n \<Rightarrow> 1 \<le> n \<and> n \<le> 90"
    using fields int_bound [of sv obj "''lookbackDays''" 1 "[MaxInt 90]"] by (cases "int_field obj ''lookbackDays''") (simp_all add: Suc_le_eq nat_le_iff)
  have "field_holds sv obj (optional ''sort'' NoTransform [IsString, IsIn [''asc'', ''desc'']])" using fields by simp
  then have sort: "Some (or_else (text_field obj ''sort'') ''desc'') \<in> {Some ''asc'', Some ''desc''}"
    by (cases "map_of obj ''sort''") (auto simp: field_holds_def optional_def text_field_def or_else_def split: json.splits)
  show ?thesis unfolding controller_query_def Let_def logs_query.simps using limit offset days sort by blast
qed

section \<open>The log page asks what the API accepts\<close>

definition query_body :: "string \<Rightarrow> page_query \<Rightarrow> js_object" where
  "query_body today q = map (\<lambda>(k, v). (k, JStr v)) (search_params today q)"

definition query_fits :: "page_query \<Rightarrow> bool" where
  "query_fits q \<longleftrightarrow> (case pq_limit q of None \<Rightarrow> True | Some n \<Rightarrow> 0 \<le> n \<and> n \<le> 2000) \<and> (case pq_offset q of None \<Rightarrow> True | Some n \<Rightarrow> 0 \<le> n)
     \<and> (case pq_lookbackDays q of None \<Rightarrow> True | Some n \<Rightarrow> 0 \<le> n \<and> n \<le> 90) \<and> pq_type q \<in> {None, Some ''all'', Some ''metrics''}
     \<and> pq_sort q \<in> {None, Some ''asc'', Some ''desc''}"

lemma query_fits_update:
  "query_fits q \<Longrightarrow> 0 \<le> n \<Longrightarrow> query_fits (q\<lparr>pq_offset := Some n\<rparr>)"
  "query_fits q \<Longrightarrow> query_fits (q\<lparr>pq_date := d, pq_dateRange := r, pq_lookbackDays := None, pq_offset := Some 0\<rparr>)"
  "query_fits q \<Longrightarrow> query_fits (q\<lparr>pq_dateRange := r, pq_date := d, pq_lookbackDays := None, pq_offset := Some 0\<rparr>)"
  "query_fits q \<Longrightarrow> query_fits (q\<lparr>pq_date := d, pq_dateRange := r, pq_lookbackDays := Some DEFAULT_LOOKBACK_DAYS, pq_offset := Some 0\<rparr>)"
  "query_fits q \<Longrightarrow> query_fits (q\<lparr>pq_sort := Some ''asc'', pq_offset := Some 0\<rparr>)"
  "query_fits q \<Longrightarrow> query_fits (q\<lparr>pq_sort := Some ''desc'', pq_offset := Some 0\<rparr>)"
  by (simp_all add: query_fits_def DEFAULT_LOOKBACK_DAYS_def)

definition waiting_fits :: "waiting \<Rightarrow> bool" where
  "waiting_fits x = (case x of Nobody \<Rightarrow> True | More q \<Rightarrow> query_fits q | Earlier n \<Rightarrow> 0 \<le> n)"

text \<open>The query of the page, the one it will ask for next, and those of all fetches.\<close>

definition page_fits :: "log_page \<Rightarrow> bool" where
  "page_fits s \<longleftrightarrow> query_fits (pl_query s) \<and> 0 \<le> pl_earlierOffset s
     \<and> (\<forall>f \<in> ran (pl_fetches s). query_fits (fe_query f) \<and> waiting_fits (fe_waiting f))"

lemma page_fits_same:
  assumes "page_fits s" "query_fits (pl_query s')" "0 \<le> pl_earlierOffset s'" "pl_fetches s' = pl_fetches s"
  shows "page_fits s'"
  using assms by (simp add: page_fits_def)

lemma page_fits_fetch:
  assumes "page_fits s" "query_fits q" "waiting_fits x"
  shows "page_fits (fetchLogs q m x s)"
proof -
  have aborted: "\<forall>f \<in> ran (pl_fetches (abort_current s)). query_fits (fe_query f) \<and> waiting_fits (fe_waiting f)"
    using assms(1) by (auto simp: abort_current_def page_fits_def ran_def split: option.split)
  have "ran (pl_fetches (fetchLogs q m x s)) \<subseteq> insert \<lparr>fe_query = q, fe_merge = m, fe_wasHistoryLoaded = pl_historyLoaded s,
      fe_aborted = False, fe_waiting = x\<rparr> (ran (pl_fetches (abort_current s)))"
    by (auto simp: fetchLogs_def Let_def ran_def split: if_splits)
  moreover have "pl_query (fetchLogs q m x s) = pl_query s" "pl_earlierOffset (fetchLogs q m x s) = pl_earlierOffset s"
    by (simp_all add: fetchLogs_def abort_current_def Let_def split: option.split)
  ultimately show ?thesis using aborted assms unfolding page_fits_def by auto
qed

lemma earlier_fields [simp]:
  "pl_earlierOffset (flushPendingUpdates s) = pl_earlierOffset s" "pl_earlierOffset (finish_fetch s) = pl_earlierOffset s"
  "pl_query (finish_fetch s) = pl_query s" "pl_fetches (finish_fetch s) = pl_fetches s"
  by (simp_all add: flushPendingUpdates_def finish_fetch_def)

lemma num_or_nonneg: "0 \<le> d \<Longrightarrow> (case x of None \<Rightarrow> True | Some n \<Rightarrow> 0 \<le> n) \<Longrightarrow> 0 \<le> num_or x d"
  by (auto simp: num_or_def split: option.splits)

lemma page_fits_answered:
  assumes "page_fits s" "query_fits (fe_query f)"
  shows "page_fits (fetch_answered hp now f entries hasMore amount s)" "page_fits (fetch_failed_with f message s)"
proof -
  have "0 \<le> num_or (pq_limit (fe_query f)) 100" using assms(2) by (intro num_or_nonneg) (auto simp: query_fits_def split: option.split)
  moreover have "0 \<le> pl_earlierOffset s" using assms(1) by (simp add: page_fits_def)
  ultimately have "0 \<le> pl_earlierOffset (fetch_answered hp now f entries hasMore amount s)"
    by (simp add: fetch_answered_def show_fetched_def Let_def split: merge_mode.split)
  then show "page_fits (fetch_answered hp now f entries hasMore amount s)"
    by (intro page_fits_same [OF assms(1)]) (use assms(1) in \<open>simp_all add: page_fits_def\<close>)
  show "page_fits (fetch_failed_with f message s)"
    by (rule page_fits_same [OF assms(1)]) (use assms(1) in \<open>simp_all add: page_fits_def fetch_failed_with_def Let_def\<close>)
qed

lemma page_fits_settle:
  assumes "page_fits s" "\<And>f s. page_fits s \<Longrightarrow> query_fits (fe_query f) \<Longrightarrow> page_fits (act f s)"
  shows "page_fits (settle i act ok s)"
proof (cases "pl_fetches s i")
  case (Some f)
  have f: "query_fits (fe_query f)" "waiting_fits (fe_waiting f)" using assms(1) Some by (auto simp: page_fits_def ran_def)
  have removed: "page_fits (s\<lparr>pl_fetches := (pl_fetches s)(i := None)\<rparr>)"
    using assms(1) by (auto simp: page_fits_def ran_def split: if_splits)
  have resume: "page_fits (resume (fe_waiting f) ok t)" if "page_fits t" for t ok
    using f(2) that by (cases "fe_waiting f") (auto simp: resume_def waiting_fits_def page_fits_def)
  show ?thesis using Some resume [OF removed] resume [OF assms(2) [OF removed f(1)]] by (simp add: settle_def Let_def)
qed (simp add: settle_def assms(1))

lemma effect_fields:
  "pl_query (stream_effect hp again old s) = pl_query s" "pl_earlierOffset (stream_effect hp again old s) = pl_earlierOffset s"
  "pl_fetches (stream_effect hp again old s) = pl_fetches s"
  by (simp_all add: stream_effect_def open_stream_def close_stream_def stopPolling_def startPolling_def)

lemma page_fits_effect: "page_fits s \<Longrightarrow> page_fits (stream_effect hp again old s)"
  by (simp add: page_fits_def effect_fields)

lemma page_step_fits:
  assumes "page_fits s"
  shows "page_fits (page_step hp e s)"
proof -
  have q: "query_fits (pl_query s)" and off: "0 \<le> pl_earlierOffset s" using assms by (simp_all add: page_fits_def)
  have replace: "page_fits (fetchLogs q Replace Nobody (s\<lparr>pl_query := q, pl_paginated := False\<rparr>))" if "query_fits q" for q
    by (rule page_fits_fetch [OF page_fits_same [OF assms]]) (use that off in \<open>simp_all add: waiting_fits_def\<close>)
  have limit: "0 \<le> num_or (pq_limit (pl_query s)) 100" and offset: "0 \<le> num_or (pq_offset (pl_query s)) 0"
    by (rule num_or_nonneg; use q in \<open>auto simp: query_fits_def split: option.split\<close>)+
  show ?thesis
  proof (cases e)
    case Tick
    then show ?thesis using page_fits_fetch [OF assms q] assms by (simp add: poll_tick_def waiting_fits_def)
  next
    case (Answer i now entries hasMore amount)
    then show ?thesis by (simp add: page_fits_effect page_fits_settle [OF assms] page_fits_answered)
  next
    case (Fail i message)
    then show ?thesis by (simp add: page_fits_settle [OF assms] page_fits_answered)
  next
    case ClickMore
    have "page_fits (s\<lparr>pl_loadingMoreRef := True, pl_loadingMore := True\<rparr>)" by (rule page_fits_same [OF assms]) (use q off in simp_all)
    then show ?thesis using ClickMore assms query_fits_update(1) [OF q] limit offset
      by (auto simp: loadMore_def Let_def waiting_fits_def intro!: page_fits_fetch)
  next
    case ClickEarlier
    have "0 \<le> num_or (Some (pl_earlierOffset s)) (num_or (pq_limit (pl_query s)) 100)" by (rule num_or_nonneg [OF limit]) (simp add: off)
    moreover have "page_fits (s\<lparr>pl_loadingEarlierRef := True, pl_loadingEarlier := True\<rparr>)" by (rule page_fits_same [OF assms]) (use q off in simp_all)
    ultimately show ?thesis using ClickEarlier assms query_fits_update(1) [OF q] limit
      by (auto simp: loadEarlierLogs_def Let_def waiting_fits_def intro!: page_fits_fetch)
  qed (use q off assms in \<open>auto simp: refresh_def setDateFilter_def setDateRangeFilter_def setLatestFilter_def setSort_def updateQuery_def Let_def replace
        query_fits_update stream_opened_def stopPolling_def stream_closed_def startPolling_def handleUpdateEvent_def
        intro!: page_fits_effect intro: page_fits_same [OF assms]\<close>)
qed

lemma page_run_fits: "page_fits s \<Longrightarrow> page_fits (page_run hp es s)"
  by (induction es arbitrary: s) (simp_all add: page_step_fits)

lemma mount_fits:
  assumes "query_fits (hp_initialQuery hp)"
  shows "page_fits (mount hp)"
proof -
  have "page_fits (blank_page hp)" using assms by (simp add: page_fits_def blank_page_def)
  then have "page_fits (fetchLogs (hp_initialQuery hp) Replace Nobody (blank_page hp))"
    by (rule page_fits_fetch) (simp_all add: assms waiting_fits_def)
  then show ?thesis
    unfolding mount_def Let_def by (simp add: page_fits_def open_stream_def startPolling_def)
qed

definition param_ok :: "string \<times> string \<Rightarrow> bool" where
  "param_ok kv \<longleftrightarrow> (fst kv \<in> {''date'', ''dateRange''}
     \<or> fst kv = ''lookbackDays'' \<and> (\<exists>n. 1 \<le> n \<and> n \<le> 90 \<and> snd kv = nat_to_string n)
     \<or> fst kv = ''limit'' \<and> (\<exists>n. 1 \<le> n \<and> n \<le> 2000 \<and> snd kv = nat_to_string n)
     \<or> fst kv = ''offset'' \<and> (\<exists>n. snd kv = nat_to_string n)
     \<or> fst kv = ''type'' \<and> snd kv \<in> {''all'', ''metrics''} \<or> fst kv = ''sort'' \<and> snd kv \<in> {''asc'', ''desc''})"

lemma search_params_ok: "query_fits q \<Longrightarrow> list_all param_ok (search_params today q)"
proof -
  assume q: "query_fits q"
  have num: "list_all param_ok (num_param k x)"
    if "case x of None \<Rightarrow> True | Some n \<Rightarrow> 0 \<le> n \<and> (n = 0 \<or> param_ok (k, nat_to_string (nat n)))" for k x
    using that by (auto simp: num_param_def int_text_def split: option.split)
  have "list_all param_ok (num_param ''lookbackDays'' (pq_lookbackDays q))"
    using q by (intro num) (auto simp: query_fits_def param_ok_def split: option.splits intro!: exI)
  moreover have "list_all param_ok (num_param ''limit'' (pq_limit q))"
    using q by (intro num) (auto simp: query_fits_def param_ok_def split: option.splits intro!: exI)
  moreover have "list_all param_ok (num_param ''offset'' (pq_offset q))"
    using q by (intro num) (auto simp: query_fits_def param_ok_def split: option.splits)
  moreover have "list_all param_ok (text_param ''type'' (pq_type q))" "list_all param_ok (text_param ''sort'' (pq_sort q))"
    using q by (auto simp: query_fits_def param_ok_def text_param_def)
  ultimately show ?thesis by (simp add: search_params_def param_ok_def)
qed

text \<open>\<open>Number\<close> reads decimal digits.\<close>

definition reads_digits :: "server \<Rightarrow> bool" where
  "reads_digits sv \<longleftrightarrow> (\<forall>n. js_number sv (nat_to_string n) = Some (of_nat n))"

lemma query_accepted:
  assumes "documented sv holds pipe" "reads_digits sv" "query_fits q"
  shows "pipe GetLogsQueryDto (query_body today q) \<noteq> None"
proof -
  let ?body = "query_body today q"
  have entry: "\<exists>s. v = JStr s \<and> param_ok (k, s)" if "(k, v) \<in> set ?body" for k v
    using that search_params_ok [OF assms(3), of today] by (auto simp: query_body_def list_all_iff)
  have keys: "list_all (\<lambda>kv. fst kv \<in> df_name ` set GetLogsQueryDto) ?body"
    using entry by (fastforce simp: list_all_iff param_ok_def GetLogsQueryDto_def optional_def)
  have number: "apply_transform sv StrictNumber (JStr (nat_to_string n)) = Some (JNum (of_nat n))" for n
    using assms(2) by (simp add: apply_transform_def reads_digits_def)
  have field: "field_ok sv holds ?body f"
    if "df_optional f" "\<And>s. param_ok (df_name f, s) \<Longrightarrow> list_all (\<lambda>r. documented_rule sv r (apply_transform sv (df_transform f) (JStr s))) (df_rules f)" for f
  proof (cases "map_of ?body (df_name f)")
    case (Some v)
    then obtain s where "v = JStr s" "param_ok (df_name f, s)" using entry map_of_SomeD by metis
    then show ?thesis using Some that(2) assms(1) by (simp add: field_ok_def documented_def Let_def)
  qed (simp add: field_ok_def that(1))
  have "field_ok sv holds ?body f" if "f \<in> set GetLogsQueryDto" for f
    by (rule field) (use that in \<open>auto simp: GetLogsQueryDto_def optional_def param_ok_def number\<close>, auto simp: apply_transform_def)
  then show ?thesis using keys assms(1) by (simp add: documented_def documented_pipe_def list_all_iff)
qed

text \<open>C40. Whatever happens on the log page, in any order: every request that it sends passes the validation of the API, when the query that the
  page starts with is within the limits.\<close>

theorem page_requests_accepted:
  assumes "documented sv holds pipe" "reads_digits sv" "query_fits (hp_initialQuery hp)"
  shows "\<forall>f \<in> ran (pl_fetches (page_run hp es (mount hp))). pipe GetLogsQueryDto (query_body today (fe_query f)) \<noteq> None"
  using page_run_fits [OF mount_fits [OF assms(3)], where es = es] query_accepted [OF assms(1,2)] by (auto simp: page_fits_def)

definition demo_pipe :: validation_pipe where
  "demo_pipe = documented_pipe demo_server (documented_rule demo_server)"

lemma demo_documented: "documented demo_server (documented_rule demo_server) demo_pipe"
  by (simp add: documented_def demo_pipe_def)

lemma demo_reads_digits: "reads_digits demo_server"
proof -
  have "foldl (\<lambda>n c. 10 * n + (of_char c - 48)) 0 s = digits_value s" for s by (simp add: digits_value_def)
  moreover have "nat_to_string n \<noteq> []" for n by (subst nat_to_string.simps) simp
  ultimately show ?thesis
    by (simp add: reads_digits_def demo_server_def digits_nat_to_string digits_value_nat_to_string)
qed

lemma demo_fetch: "\<exists>i f. pl_fetches (page_run demo_hook [PickLatest, ClickRefresh] (mount demo_hook)) i = Some f"
proof -
  have "pl_fetches (page_run demo_hook [PickLatest, ClickRefresh] (mount demo_hook)) 2 \<noteq> None" by code_simp
  then show ?thesis by blast
qed

theorem page_requests_accepted_witness:
  "\<exists>i f. pl_fetches (page_run demo_hook [PickLatest, ClickRefresh] (mount demo_hook)) i = Some f
     \<and> demo_pipe GetLogsQueryDto (query_body ''20240229'' (fe_query f)) \<noteq> None"
proof -
  have "query_fits (hp_initialQuery demo_hook)" by (simp add: query_fits_def demo_hook_def DEFAULT_QUERY_def)
  from page_requests_accepted [OF demo_documented demo_reads_digits this, of "[PickLatest, ClickRefresh]" "''20240229''"]
  show ?thesis using demo_fetch unfolding ran_def by blast
qed

theorem new_passwords_meet_policy_witness:
  "validatePasswordPolicy (cu_password (created_user_input [(''email'', JStr ''a@q.io''), (''password'', JStr ''long enough'')])) = None"
proof -
  have "demo_pipe CreateAdminUserDto [(''email'', JStr '' a@q.io''), (''password'', JStr ''long enough'')]
    = Some [(''email'', JStr ''a@q.io''), (''password'', JStr ''long enough'')]" by code_simp
  then show ?thesis
    using new_passwords_meet_policy [OF demo_documented, of "[(''email'', JStr '' a@q.io''), (''password'', JStr ''long enough'')]"] by simp
qed

text \<open>The rules of an optional field are not applied to null: a null role or flag reaches the update of a column that must not be null.\<close>

theorem null_passes_optional_rules:
  assumes "documented sv holds pipe"
  shows "pipe UpdateAdminUserDto [(''role'', JNull), (''isActive'', JNull)] = Some [(''role'', JNull), (''isActive'', JNull)]"
  using assms
  by (simp add: documented_def documented_pipe_def UpdateAdminUserDto_def optional_def field_ok_def transformed_def apply_transform_def opt_entry_def Let_def)

end
