(* ===== verification/StartUp.thy ===== *)
theory StartUp
  imports AdminBootstrap DatabaseSetup
begin

text \<open>
  The start of the API: api/src/main.ts, the tasks of its modules (auth/admin-bootstrap.service.ts, nats/nats.service.ts,
  minio/minio.provider.ts) and the bucket of the uploaded bots (custom-bot/storage.service.ts). What Nest, the broker, the database and the
  operating system answer is given.
\<close>

section \<open>The bucket\<close>

text \<open>The buckets of the store; \<open>bk_outcomes\<close> are the failures of its calls, in their order.\<close>

record bucket_store =
  bk_buckets :: "string list"
  bk_outcomes :: "js_error option list"

definition store_do :: "(bucket_store \<Rightarrow> 'a \<times> bucket_store) \<Rightarrow> (bucket_store, 'a) io" where
  "store_do act st = (let st' = st\<lparr>bk_outcomes := tl (bk_outcomes st)\<rparr> in case bk_outcomes st of
      Some e # _ \<Rightarrow> (Inl e, st') | _ \<Rightarrow> (case act st' of (x, st'') \<Rightarrow> (Inr x, st'')))"

definition bucketExists :: "string \<Rightarrow> (bucket_store, bool) io" where
  "bucketExists b = store_do (\<lambda>st. (b \<in> set (bk_buckets st), st))"

definition makeBucket :: "string \<Rightarrow> (bucket_store, unit) io" where
  "makeBucket b = store_do (\<lambda>st. ((), st\<lparr>bk_buckets := bk_buckets st @ [b]\<rparr>))"

definition ensureBucket :: "string \<Rightarrow> (bucket_store, (unit, string) result) io" where
  "ensureBucket b = io_catch
     (io_bind (bucketExists b) (\<lambda>there. io_bind (if there then io_return () else makeBucket b) (\<lambda>_. io_return (Ok ()))))
     (\<lambda>e. io_return (Failure (''Failed to ensure bucket exists: '' @ errorMessage e)))"

definition bucketName :: "process_env \<Rightarrow> string" where
  "bucketName env = or_else (config_text env ''CUSTOM_BOTS_BUCKET'') ''custom-bots''"

text \<open>The constructor of the service logs a rejection and drops the result; the first component tells whether something was logged.\<close>

definition storage_start :: "process_env \<Rightarrow> bucket_store \<Rightarrow> bool \<times> bucket_store" where
  "storage_start env st = (case ensureBucket (bucketName env) st of (Inl _, st') \<Rightarrow> (True, st') | (Inr _, st') \<Rightarrow> (False, st'))"

text \<open>The bucket is there when the answer says so; but the answer is the only one to say that it is not, since nothing is ever rejected and
  logged.\<close>

lemma ensureBucket_answers:
  obtains st' where "ensureBucket b st = (Inr (Ok ()), st')" "b \<in> set (bk_buckets st')"
    | e st' where "ensureBucket b st = (Inr (Failure e), st')"
proof (cases "bucketExists b st")
  case (Pair r st1)
  show thesis
  proof (cases r)
    case (Inl e)
    then show thesis using Pair that(2) by (simp add: ensureBucket_def io_catch_run io_bind_run io_return_run)
  next
    case (Inr there)
    have there: "there = (b \<in> set (bk_buckets st1))" using Pair Inr by (auto simp: bucketExists_def store_do_def Let_def split: list.splits option.splits)
    show thesis
    proof (cases there)
      case True
      then show thesis using Pair Inr there that(1) by (simp add: ensureBucket_def io_catch_run io_bind_run io_return_run)
    next
      case False
      obtain r' st2 where made: "makeBucket b st1 = (r', st2)" by fastforce
      show thesis
      proof (cases r')
        case (Inl e)
        then show thesis using Pair Inr False made that(2) by (simp add: ensureBucket_def io_catch_run io_bind_run io_return_run)
      next
        case Inr': (Inr u)
        have "b \<in> set (bk_buckets st2)" using made Inr' by (auto simp: makeBucket_def store_do_def Let_def split: list.splits option.splits)
        then show thesis using Pair Inr Inr' False made that(1) by (simp add: ensureBucket_def io_catch_run io_bind_run io_return_run)
      qed
    qed
  qed
qed

lemma storage_start_silent: "fst (storage_start env st) = False"
  by (rule ensureBucket_answers [of "bucketName env" st]) (simp_all add: storage_start_def)

section \<open>The start\<close>

record api_state =
  ap_world :: world
  ap_nats :: nats_world
  ap_store :: bucket_store

datatype start_end = Exited nat | Listening string string

text \<open>The tasks of the modules: in either order, and the first that fails ends the start.\<close>

definition init_root :: "server \<Rightarrow> api_state \<Rightarrow> bool \<times> api_state" where
  "init_root sv s = (case bootstrapConfiguredRootAdmin sv (ap_world s) of (r, w) \<Rightarrow> (\<not> isl r, s\<lparr>ap_world := w\<rparr>))"

definition init_nats :: "process_env \<Rightarrow> (js_error \<Rightarrow> nat option) \<Rightarrow> api_state \<Rightarrow> bool \<times> api_state" where
  "init_nats env api_code s = (case nats_onModuleInit env api_code (ap_nats s) of (r, n) \<Rightarrow> (\<not> isl r, s\<lparr>ap_nats := n\<rparr>))"

definition init_modules :: "bool \<Rightarrow> server \<Rightarrow> process_env \<Rightarrow> (js_error \<Rightarrow> nat option) \<Rightarrow> api_state \<Rightarrow> bool \<times> api_state" where
  "init_modules nats_first sv env api_code s =
     (case (if nats_first then init_nats env api_code s else init_root sv s) of
        (ok, s1) \<Rightarrow> if \<not> ok then (False, s1) else if nats_first then init_root sv s1 else init_nats env api_code s1)"

text \<open>\<open>port_free\<close>: the operating system gives the port.\<close>

definition api_start :: "bool \<Rightarrow> server \<Rightarrow> db_setup \<Rightarrow> (db_kind \<Rightarrow> string \<Rightarrow> js_error option) \<Rightarrow> string \<Rightarrow> (js_error \<Rightarrow> nat option) \<Rightarrow>
    (string \<Rightarrow> bool) \<Rightarrow> process_env \<Rightarrow> api_state \<Rightarrow> start_end \<times> api_state" where
  "api_start nats_first sv ds migrate_db dirname api_code port_free env s =
     (if \<not> truthy_opt (env ''JWT_SECRET'') then (Exited 1, s)
      else if runMigrations ds migrate_db env dirname \<noteq> 0 then (Exited 1, s)
      else case minioClient env of
          Inl _ \<Rightarrow> (Exited 1, s)
        | Inr _ \<Rightarrow> (case init_modules nats_first sv env api_code (s\<lparr>ap_store := snd (storage_start env (ap_store s))\<rparr>) of
              (False, s1) \<Rightarrow> (Exited 1, s1)
            | (True, s1) \<Rightarrow> (let port = or_else (env ''PORT'') ''3000'' in
                if port_free port then (Listening port (or_else (env ''FRONTEND_URL'') ''http://localhost:3001''), s1) else (Exited 1, s1))))"

definition fresh_nats :: "js_error option list \<Rightarrow> nats_world" where
  "fresh_nats outcomes = \<lparr>nt_connection = None, nt_manager = False, nt_outcomes = outcomes, nt_calls = []\<rparr>"

lemma init_root_ready:
  assumes "init_root sv s = (True, s')" "\<And>p r n. bcrypt_compare sv p (bcrypt_hash sv p r n)"
  shows "ap_nats s' = ap_nats s \<and> (\<exists>email password. getRequiredConfiguredRootAdmin sv = Inr (email, password) \<and> root_ready sv email password (users (ap_world s')))"
proof -
  obtain w' where "bootstrapConfiguredRootAdmin sv (ap_world s) = (Inr (), w')" "s' = s\<lparr>ap_world := w'\<rparr>"
    using assms(1) by (cases "bootstrapConfiguredRootAdmin sv (ap_world s)"; cases "fst (bootstrapConfiguredRootAdmin sv (ap_world s))")
      (auto simp: init_root_def)
  then show ?thesis using bootstrap_leaves_root_admin [OF _ assms(2)] by auto
qed

lemma init_nats_ready:
  assumes "init_nats env api_code s = (True, s')" "ap_nats s = fresh_nats outcomes"
  shows "ap_world s' = ap_world s \<and> nats_isConnected (ap_nats s') \<and> accepted EVENTS_STREAM (ap_nats s')"
proof -
  obtain n' where "nats_onModuleInit env api_code (fresh_nats outcomes) = (Inr (), n')" "s' = s\<lparr>ap_nats := n'\<rparr>"
    using assms by (cases "nats_onModuleInit env api_code (ap_nats s)"; cases "fst (nats_onModuleInit env api_code (ap_nats s))")
      (auto simp: init_nats_def)
  then show ?thesis using nats_start_complete [of env api_code outcomes] by (simp add: fresh_nats_def)
qed

lemma init_modules_ready:
  assumes "init_modules nats_first sv env api_code s = (True, s')" "ap_nats s = fresh_nats outcomes"
    "\<And>p r n. bcrypt_compare sv p (bcrypt_hash sv p r n)"
  shows "(\<exists>email password. getRequiredConfiguredRootAdmin sv = Inr (email, password) \<and> root_ready sv email password (users (ap_world s')))
    \<and> nats_isConnected (ap_nats s') \<and> accepted EVENTS_STREAM (ap_nats s')"
proof (cases nats_first)
  case True
  then obtain s1 where s1: "init_nats env api_code s = (True, s1)" "init_root sv s1 = (True, s')"
    using assms(1) by (auto simp: init_modules_def split: prod.splits if_splits)
  show ?thesis using init_nats_ready [OF s1(1) assms(2)] init_root_ready [OF s1(2) assms(3)] by auto
next
  case False
  then obtain s1 where s1: "init_root sv s = (True, s1)" "init_nats env api_code s1 = (True, s')"
    using assms(1) by (auto simp: init_modules_def split: prod.splits if_splits)
  have root: "ap_nats s1 = ap_nats s" "\<exists>email password. getRequiredConfiguredRootAdmin sv = Inr (email, password) \<and> root_ready sv email password (users (ap_world s1))"
    using init_root_ready [OF s1(1) assms(3)] by auto
  show ?thesis using init_nats_ready [OF s1(2)] root assms(2) by auto
qed

text \<open>C9. Whatever fails, and in whichever order the modules start: either the API exits with 1, or it listens with a secret for its tokens, a
  migrated database, an active administrator with the configured e-mail and password, and a broker that has accepted the stream of
  its events. The hypotheses are that the broker's client is new, and bcrypt's: a hash matches its password.\<close>

theorem api_serves_only_when_ready:
  assumes "ap_nats s = fresh_nats outcomes" "\<And>p r n. bcrypt_compare sv p (bcrypt_hash sv p r n)"
  shows "let r = api_start nats_first sv ds migrate_db dirname api_code port_free env s; s' = snd r in case fst r of
      Exited c \<Rightarrow> c = 1
    | Listening port _ \<Rightarrow> truthy_opt (env ''JWT_SECRET'') \<and> runMigrations ds migrate_db env dirname = 0 \<and> port_free port
        \<and> (\<exists>email password. getRequiredConfiguredRootAdmin sv = Inr (email, password) \<and> root_ready sv email password (users (ap_world s')))
        \<and> nats_isConnected (ap_nats s') \<and> accepted EVENTS_STREAM (ap_nats s')"
proof -
  let ?s = "s\<lparr>ap_store := snd (storage_start env (ap_store s))\<rparr>"
  obtain ok s1 where init: "init_modules nats_first sv env api_code ?s = (ok, s1)" by fastforce
  have "ok \<Longrightarrow> (\<exists>email password. getRequiredConfiguredRootAdmin sv = Inr (email, password) \<and> root_ready sv email password (users (ap_world s1)))
      \<and> nats_isConnected (ap_nats s1) \<and> accepted EVENTS_STREAM (ap_nats s1)"
    using init_modules_ready [of nats_first sv env api_code ?s s1 outcomes] init assms by simp
  then show ?thesis using init by (cases ok) (simp_all add: api_start_def Let_def split: sum.split)
qed

text \<open>A first start on a database file, with a store that refuses every call: the API listens all the same, and the bucket is missing.\<close>

definition demo_setup :: db_setup where
  "demo_setup = \<lparr>ds_number = (\<lambda>_. None), ds_parse_url = (\<lambda>_. None), ds_opens = (\<lambda>_. None)\<rparr>"

definition start_env :: process_env where
  "start_env = (\<lambda>_. None)(''JWT_SECRET'' \<mapsto> ''s'', ''DATABASE_TYPE'' \<mapsto> ''sqlite'', ''DATABASE_URL'' \<mapsto> ''q.db'')"

definition demo_start :: api_state where
  "demo_start = \<lparr>ap_world = demo_empty, ap_nats = fresh_nats [], ap_store = \<lparr>bk_buckets = [], bk_outcomes = [Some (plain_error ''refused'')]\<rparr>\<rparr>"

definition demo_api :: "start_end \<times> api_state" where
  "demo_api = api_start False demo_server demo_setup (\<lambda>_ _. None) ''dist'' (\<lambda>_. None) (\<lambda>_. True) start_env demo_start"

lemma demo_nats: "fst (nats_onModuleInit start_env (\<lambda>_. None) (fresh_nats [])) = Inr ()"
  by code_simp

lemma demo_migrated: "runMigrations demo_setup (\<lambda>_ _. None) start_env ''dist'' = 0"
  by code_simp

lemma demo_client: "minioClient start_env = Inr \<lparr>mn_endPoint = ''localhost'', mn_port = 9000, mn_useSSL = False, mn_accessKey = ''minioadmin'', mn_secretKey = ''minioadmin''\<rparr>"
  by code_simp

lemma demo_storage: "bk_buckets (snd (storage_start start_env \<lparr>bk_buckets = [], bk_outcomes = [Some (plain_error ''refused'')]\<rparr>)) = []"
  by code_simp

lemma demo_listens: "fst demo_api = Listening ''3000'' ''http://localhost:3001''" "bk_buckets (ap_store (snd demo_api)) = []"
proof -
  obtain w' where w: "bootstrapConfiguredRootAdmin demo_server demo_empty = (Inr (), w')"
    using demo_bootstrap by (cases "bootstrapConfiguredRootAdmin demo_server demo_empty") simp
  obtain n' where n: "nats_onModuleInit start_env (\<lambda>_. None) (fresh_nats []) = (Inr (), n')"
    using demo_nats by (cases "nats_onModuleInit start_env (\<lambda>_. None) (fresh_nats [])") simp
  have env: "start_env ''JWT_SECRET'' = Some ''s''" "start_env ''PORT'' = None" "start_env ''FRONTEND_URL'' = None"
    by (simp_all add: start_env_def)
  have "fst demo_api = Listening ''3000'' ''http://localhost:3001'' \<and> bk_buckets (ap_store (snd demo_api)) = []"
    unfolding demo_api_def api_start_def demo_migrated demo_client env init_modules_def
    by (simp add: init_root_def init_nats_def demo_start_def w n demo_storage or_else_def)
  then show "fst demo_api = Listening ''3000'' ''http://localhost:3001''" "bk_buckets (ap_store (snd demo_api)) = []" by auto
qed

theorem api_serves_only_when_ready_witness:
  "fst demo_api = Listening ''3000'' ''http://localhost:3001'' \<and> bk_buckets (ap_store (snd demo_api)) = []
    \<and> (\<exists>email password. getRequiredConfiguredRootAdmin demo_server = Inr (email, password)
         \<and> root_ready demo_server email password (users (ap_world (snd demo_api))))
    \<and> nats_isConnected (ap_nats (snd demo_api)) \<and> accepted EVENTS_STREAM (ap_nats (snd demo_api))"
proof -
  have new: "ap_nats demo_start = fresh_nats []" and hash: "\<And>p r n. bcrypt_compare demo_server p (bcrypt_hash demo_server p r n)"
    by (simp_all add: demo_start_def demo_server_def)
  show ?thesis
    using api_serves_only_when_ready [OF new hash, where nats_first = False and ds = demo_setup and migrate_db = "\<lambda>_ _. None"
        and dirname = "''dist''" and api_code = "\<lambda>_. None" and port_free = "\<lambda>_. True" and env = start_env, folded demo_api_def]
    unfolding Let_def demo_listens(1) start_end.case using demo_listens by blast
qed

end
