(* ===== verification/PriceAlerts.thy ===== *)
theory PriceAlerts
  imports SdkState SdkEvents SdkQuery
begin

text \<open>
  example-bots/typescript-price-alerts: a bot on top of the SDK. It follows a simulated price (main.ts), keeps its history with the state
  functions, reports metrics, and answers queries about it (query.ts); main_raw.ts is the same bot without the SDK. Chance and the clock
  are inputs of each round, numbers are exact but for a division by zero, which gives NaN or an infinity, and the configuration has
  passed bot-schema.json. The lines of pino are left out.
\<close>

section \<open>Numbers\<close>

definition js_round :: "rat \<Rightarrow> rat" where
  "js_round x = of_int \<lfloor>x + 1/2\<rfloor>"

text \<open>\<open>Math.round(x * 100) / 100\<close> and \<open>Math.round(x * 1000) / 1000\<close>.\<close>

definition cents :: "rat \<Rightarrow> rat" where
  "cents x = js_round (x * 100) / 100"

definition mills :: "rat \<Rightarrow> rat" where
  "mills x = js_round (x * 1000) / 1000"

text \<open>\<open>x.toFixed(2)\<close> of a number that is not negative.\<close>

definition to_fixed2 :: "rat \<Rightarrow> string" where
  "to_fixed2 x = (let n = nat \<lfloor>x * 100 + 1/2\<rfloor> in nat_to_string (n div 100) @ ''.'' @ pad_zero 2 (nat_to_string (n mod 100)))"

definition average :: "rat list \<Rightarrow> rat" where
  "average xs = sum_list xs / of_nat (length xs)"

text \<open>The division of JavaScript: of zero by zero it is NaN, of another number by zero infinite. JSON prints both as null.\<close>

datatype js_ratio = Quotient rat | NotANumber | Infinite bool

definition js_divide :: "rat \<Rightarrow> rat \<Rightarrow> js_ratio" where
  "js_divide a b = (if b \<noteq> 0 then Quotient (a / b) else if a = 0 then NotANumber else Infinite (0 < a))"

fun finite_ratio :: "js_ratio \<Rightarrow> rat option" where
  "finite_ratio (Quotient q) = Some q"
| "finite_ratio _ = None"

definition number_json :: "rat option \<Rightarrow> json" where
  "number_json x = (case x of Some q \<Rightarrow> JNum q | None \<Rightarrow> JNull)"

definition last_n :: "nat \<Rightarrow> 'a list \<Rightarrow> 'a list" where
  "last_n n xs = drop (length xs - n) xs"

section \<open>The bot\<close>

record alerts_config =
  ac_symbol :: string
  ac_basePrice :: rat
  ac_threshold :: rat
  ac_interval :: rat

definition text_or :: "json option \<Rightarrow> string \<Rightarrow> string" where
  "text_or v d = or_else (case v of Some (JStr s) \<Rightarrow> Some s | _ \<Rightarrow> None) d"

definition number_or :: "json option \<Rightarrow> rat \<Rightarrow> rat" where
  "number_or v d = (case v of Some (JNum q) \<Rightarrow> if q = 0 then d else q | _ \<Rightarrow> d)"

definition alerts_config_of :: "json \<Rightarrow> alerts_config" where
  "alerts_config_of config = \<lparr>ac_symbol = text_or (prop_of (Some config) ''symbol'') ''BTC/USD'',
     ac_basePrice = number_or (prop_of (Some config) ''base_price'') 45000, ac_threshold = number_or (prop_of (Some config) ''alert_threshold'') 1,
     ac_interval = number_or (prop_of (Some config) ''update_interval_ms'') 5000\<rparr>"

record price_state =
  ps_lastPrice :: rat
  ps_priceHistory :: "rat list"
  ps_lastAlertTime :: int
  ps_alertCount :: rat

definition persisted_json :: "price_state \<Rightarrow> json" where
  "persisted_json st = JObj [(''priceHistory'', JArr (map JNum (ps_priceHistory st))), (''alertCount'', JNum (ps_alertCount st))]"

text \<open>What was stored: the bot writes numbers only, so other values are left out.\<close>

definition stored_prices :: "json option \<Rightarrow> rat list" where
  "stored_prices v = (case prop_of v ''priceHistory'' of Some (JArr xs) \<Rightarrow> List.map_filter (\<lambda>x. case x of JNum q \<Rightarrow> Some q | _ \<Rightarrow> None) xs | _ \<Rightarrow> [])"

definition stored_alerts :: "json option \<Rightarrow> rat" where
  "stored_alerts v = (case prop_of v ''alertCount'' of Some (JNum q) \<Rightarrow> q | _ \<Rightarrow> 0)"

definition no_state :: json where
  "no_state = JObj [(''priceHistory'', JArr []), (''alertCount'', JNum 0)]"

definition start_state :: "alerts_config \<Rightarrow> json option \<Rightarrow> price_state" where
  "start_state cfg persisted = (let prices = stored_prices persisted in
     \<lparr>ps_lastPrice = (if prices = [] then ac_basePrice cfg else last prices), ps_priceHistory = (if prices = [] then [ac_basePrice cfg] else prices),
      ps_lastAlertTime = 0, ps_alertCount = stored_alerts persisted\<rparr>)"

record price_data =
  pr_symbol :: string
  pr_value :: rat
  pr_change_pct :: "rat option"
  pr_high_24h :: rat
  pr_low_24h :: rat

text \<open>The relative change of one round, before it is rounded; the base price is not 0, since \<open>config.base_price || 45000\<close> gives it.\<close>

definition change_of :: "rat \<Rightarrow> rat \<Rightarrow> rat \<Rightarrow> rat" where
  "change_of random lastPrice basePrice = (let volatility = 2/1000; meanReversion = 1/1000 in
     (random - 1/2) * 2 * volatility + (basePrice - lastPrice) / basePrice * meanReversion)"

text \<open>The change in percent is NaN (None) when the last price is 0, for then the new one is too.\<close>

definition simulatePrice :: "rat \<Rightarrow> price_state \<Rightarrow> string \<Rightarrow> rat \<Rightarrow> price_data" where
  "simulatePrice random st symbol basePrice = (let newPrice = ps_lastPrice st * (1 + change_of random (ps_lastPrice st) basePrice);
       changePct = map_option (\<lambda>q. q * 100) (finite_ratio (js_divide (newPrice - ps_lastPrice st) (ps_lastPrice st)));
       high24h = Max (set (newPrice # ps_priceHistory st)); low24h = Min (set (newPrice # ps_priceHistory st)) in
     \<lparr>pr_symbol = symbol, pr_value = cents newPrice, pr_change_pct = map_option mills changePct, pr_high_24h = cents high24h, pr_low_24h = cents low24h\<rparr>)"

record price_alert =
  al_symbol :: string
  al_type :: string
  al_change_pct :: rat
  al_message :: string
  al_severity :: string

definition alert_severity :: "rat \<Rightarrow> rat \<Rightarrow> string" where
  "alert_severity absChange threshold = (if absChange \<ge> threshold * 2 then ''high'' else if absChange \<ge> threshold * (3/2) then ''medium'' else ''low'')"

text \<open>A change of NaN is not at least the threshold.\<close>

definition checkAlertConditions :: "int \<Rightarrow> price_state \<Rightarrow> price_data \<Rightarrow> rat \<Rightarrow> string \<Rightarrow> price_alert option \<times> price_state" where
  "checkAlertConditions now st d threshold symbol =
     (if now - ps_lastAlertTime st < 30000 then (None, st)
      else (case pr_change_pct d of None \<Rightarrow> (None, st) | Some change_pct \<Rightarrow>
        let absChange = \<bar>change_pct\<bar> in
        if absChange \<ge> threshold
        then let direction = (if change_pct > 0 then ''spike'' else ''drop'') in
          (Some \<lparr>al_symbol = symbol, al_type = ''price_'' @ direction, al_change_pct = cents change_pct,
             al_message = symbol @ '' '' @ direction @ '' of '' @ to_fixed2 absChange @ ''%'', al_severity = alert_severity absChange threshold\<rparr>,
           st\<lparr>ps_lastAlertTime := now\<rparr>)
        else (None, st)))"

record price_signal =
  sg_symbol :: string
  sg_direction :: string
  sg_confidence :: rat
  sg_reason :: string

definition ma_difference :: "rat list \<Rightarrow> js_ratio" where
  "ma_difference history = (let shortMA = average (last_n 5 history); longMA = average (last_n 10 history) in js_divide (shortMA - longMA) longMA)"

text \<open>\<open>Math.abs(maDiff) > 0.001\<close>, \<open>maDiff > 0\<close> and \<open>Math.min(Math.abs(maDiff) * scale, 0.95)\<close>; nothing compares with NaN.\<close>

fun large_difference :: "js_ratio \<Rightarrow> bool" where
  "large_difference (Quotient q) = (\<bar>q\<bar> > 1/1000)"
| "large_difference NotANumber = False"
| "large_difference (Infinite up) = True"

fun upward :: "js_ratio \<Rightarrow> bool" where
  "upward (Quotient q) = (q > 0)"
| "upward NotANumber = False"
| "upward (Infinite up) = up"

fun confidence_of :: "rat \<Rightarrow> js_ratio \<Rightarrow> rat" where
  "confidence_of scale (Quotient q) = min (\<bar>q\<bar> * scale) (95/100)"
| "confidence_of scale _ = 95/100"

definition signal_of :: "string \<Rightarrow> js_ratio \<Rightarrow> rat \<Rightarrow> price_signal option" where
  "signal_of symbol maDiff confidence = (if large_difference maDiff then
     let direction = (if upward maDiff then ''long'' else ''short'') in
       Some \<lparr>sg_symbol = symbol, sg_direction = direction, sg_confidence = cents confidence,
         sg_reason = ''MA5 '' @ (if direction = ''long'' then ''above'' else ''below'') @ '' MA10''\<rparr>
     else None)"

definition generateSignal :: "rat \<Rightarrow> price_state \<Rightarrow> string \<Rightarrow> price_signal option" where
  "generateSignal chance st symbol = (if length (ps_priceHistory st) < 10 \<or> chance > 1/10 then None
     else let maDiff = ma_difference (ps_priceHistory st) in signal_of symbol maDiff (confidence_of 1 maDiff))"

section \<open>A round\<close>

text \<open>The two random numbers, the clock and the timestamps of the lines.\<close>

record tick =
  tk_random :: rat
  tk_chance :: rat
  tk_now :: int
  tk_stamp :: "nat \<Rightarrow> string"

definition price_fields :: "price_data \<Rightarrow> js_object" where
  "price_fields d = [(''symbol'', JStr (pr_symbol d)), (''value'', JNum (pr_value d)), (''change_pct'', number_json (pr_change_pct d)),
     (''high_24h'', JNum (pr_high_24h d)), (''low_24h'', JNum (pr_low_24h d))]"

definition alert_fields :: "price_alert \<Rightarrow> rat \<Rightarrow> js_object" where
  "alert_fields a amount = [(''symbol'', JStr (al_symbol a)), (''type'', JStr (al_type a)), (''change_pct'', JNum (al_change_pct a)),
     (''message'', JStr (al_message a)), (''severity'', JStr (al_severity a)), (''total_alerts'', JNum amount)]"

definition signal_fields :: "price_signal \<Rightarrow> js_object" where
  "signal_fields g = [(''symbol'', JStr (sg_symbol g)), (''direction'', JStr (sg_direction g)), (''confidence'', JNum (sg_confidence g)),
     (''reason'', JStr (sg_reason g))]"

record alerts_run =
  ru_state :: price_state
  ru_iteration :: nat
  ru_files :: state_world
  ru_out :: bot_container

definition push_price :: "rat \<Rightarrow> price_state \<Rightarrow> price_state" where
  "push_price v st = (let history = ps_priceHistory st @ [v] in
     st\<lparr>ps_lastPrice := v, ps_priceHistory := (if length history > 100 then tl history else history)\<rparr>)"

definition count_alert :: "price_alert option \<Rightarrow> price_state \<Rightarrow> price_state" where
  "count_alert a st = (case a of None \<Rightarrow> st | Some _ \<Rightarrow> st\<lparr>ps_alertCount := ps_alertCount st + 1\<rparr>)"

definition price_round :: "alerts_config \<Rightarrow> tick \<Rightarrow> price_state \<Rightarrow> price_data \<times> price_alert option \<times> price_signal option \<times> price_state" where
  "price_round cfg t st = (let d = simulatePrice (tk_random t) st (ac_symbol cfg) (ac_basePrice cfg);
       (a, st1) = checkAlertConditions (tk_now t) st d (ac_threshold cfg) (ac_symbol cfg); st2 = count_alert a st1;
       g = generateSignal (tk_chance t) st2 (ac_symbol cfg) in (d, a, g, push_price (pr_value d) st2))"

definition report_round :: "page_env \<Rightarrow> tick \<Rightarrow> price_data \<times> price_alert option \<times> price_signal option \<times> price_state \<Rightarrow> bot_container \<Rightarrow> bot_container" where
  "report_round pe t r c = (case r of (d, a, g, st) \<Rightarrow>
     let c1 = sdk_metric pe ''price'' (price_fields d) (tk_stamp t 0) c;
         c2 = (case a of None \<Rightarrow> c1 | Some x \<Rightarrow> sdk_metric pe ''alert'' (alert_fields x (ps_alertCount st)) (tk_stamp t 1) c1) in
     case g of None \<Rightarrow> c2 | Some x \<Rightarrow> sdk_metric pe ''signal'' (signal_fields x) (tk_stamp t 2) c2)"

definition save_state :: "sdk_env \<Rightarrow> alerts_run \<Rightarrow> (js_error + unit) \<times> alerts_run" where
  "save_state env r = (case sdk_set env ''bot_state'' (persisted_json (ru_state r)) (ru_files r) of (x, w) \<Rightarrow> (x, r\<lparr>ru_files := w\<rparr>))"

definition alerts_tick :: "page_env \<Rightarrow> sdk_env \<Rightarrow> alerts_config \<Rightarrow> tick \<Rightarrow> alerts_run \<Rightarrow> (js_error + unit) \<times> alerts_run" where
  "alerts_tick pe env cfg t r = (let x = price_round cfg t (ru_state r); st = snd (snd (snd x));
       r1 = r\<lparr>ru_state := st, ru_iteration := Suc (ru_iteration r), ru_out := report_round pe t x (ru_out r)\<rparr> in
     if ru_iteration r1 mod 10 = 0 then save_state env r1 else (Inr (), r1))"

text \<open>The rounds until one throws.\<close>

fun alerts_loop :: "page_env \<Rightarrow> sdk_env \<Rightarrow> alerts_config \<Rightarrow> tick list \<Rightarrow> alerts_run \<Rightarrow> js_error option \<times> alerts_run" where
  "alerts_loop pe env cfg [] r = (None, r)"
| "alerts_loop pe env cfg (t # ts) r = (case alerts_tick pe env cfg t r of
     (Inl e, r1) \<Rightarrow> (Some e, r1) | (Inr _, r1) \<Rightarrow> alerts_loop pe env cfg ts r1)"

text \<open>The catch clause: what is thrown on, after the state has been saved if possible.\<close>

definition alerts_stop :: "page_env \<Rightarrow> sdk_env \<Rightarrow> bot_env \<Rightarrow> js_error \<Rightarrow> alerts_run \<Rightarrow> js_error option \<times> alerts_run" where
  "alerts_stop pe env be e r = (let r1 = snd (save_state env r) in
     if errorMessage e = ''SIGTERM'' then (None, r1\<lparr>ru_out := sdk_success pe be ''Bot stopped gracefully'' None (ru_out r1)\<rparr>) else (Some e, r1))"

definition alerts_start :: "sdk_env \<Rightarrow> alerts_config \<Rightarrow> state_world \<Rightarrow> bot_container \<Rightarrow> alerts_run" where
  "alerts_start env cfg w c = (case sdk_get env ''bot_state'' (Some no_state) w of
     (x, w') \<Rightarrow> \<lparr>ru_state = start_state cfg (case x of Inr v \<Rightarrow> v | Inl _ \<Rightarrow> None), ru_iteration = 0, ru_files = w', ru_out = c\<rparr>)"

definition alerts_main :: "page_env \<Rightarrow> sdk_env \<Rightarrow> bot_env \<Rightarrow> tick list \<Rightarrow> state_world \<Rightarrow> bot_container \<Rightarrow> js_error option \<times> alerts_run option" where
  "alerts_main pe env be ts w c = (case sdk_parse pe be of
      Inl e \<Rightarrow> (Some e, None)
    | Inr (i, config) \<Rightarrow> (let cfg = alerts_config_of config in case alerts_loop pe env cfg ts (alerts_start env cfg w c) of
        (None, r) \<Rightarrow> (None, Some r)
      | (Some e, r) \<Rightarrow> (case alerts_stop pe env be e r of (x, r1) \<Rightarrow> (x, Some r1))))"

section \<open>The queries\<close>

definition stored_state :: "sdk_env \<Rightarrow> state_world \<Rightarrow> json option" where
  "stored_state env w = (case fst (sdk_get env ''bot_state'' (Some no_state) w) of Inr v \<Rightarrow> v | Inl _ \<Rightarrow> None)"

definition current_price :: "sdk_env \<Rightarrow> state_world \<Rightarrow> query_handler" where
  "current_price env w req vw = (let history = stored_prices (stored_state env w) in
     if history = [] then Returned (Some (JObj [(''status'', JStr ''no_data''), (''message'', JStr ''No price history available'')]))
     else let changePct = (if length history > 1
         then map_option (\<lambda>q. q * 100) (finite_ratio (js_divide (last history - hd history) (hd history))) else Some 0) in
       Returned (Some (JObj [(''current_price'', JNum (cents (last history))), (''high_24h'', JNum (cents (Max (set history)))),
         (''low_24h'', JNum (cents (Min (set history)))), (''change_pct'', number_json (map_option mills changePct)), (''data_points'', JNum (of_nat (length history)))])))"

text \<open>\<open>parseInt(req.get("limit", "10") || "10", 10)\<close> of a text or a number; NaN is printed as null.\<close>

definition limit_param :: "json option \<Rightarrow> json" where
  "limit_param v = (case (if truthy_value v then v else Some (JStr ''10'')) of
      Some (JStr s) \<Rightarrow> (case js_parseInt s of Some n \<Rightarrow> JNum (of_int n) | None \<Rightarrow> JNull)
    | Some (JNum q) \<Rightarrow> JNum (of_int (if q < 0 then \<lceil>q\<rceil> else \<lfloor>q\<rfloor>))
    | _ \<Rightarrow> JNull)"

definition alerts_query :: "sdk_env \<Rightarrow> state_world \<Rightarrow> query_handler" where
  "alerts_query env w req vw = (case request_get req ''limit'' (Some (JStr ''10'')) of
      Inl e \<Rightarrow> Thrown (errorMessage e)
    | Inr v \<Rightarrow> Returned (Some (JObj [(''total_alerts'', JNum (stored_alerts (stored_state env w))), (''limit_applied'', limit_param v)])))"

definition statistics_query :: "sdk_env \<Rightarrow> state_world \<Rightarrow> query_handler" where
  "statistics_query env w req vw = (let cfg = alerts_config_of (vw_config vw) in
     Returned (Some (JObj [(''total_alerts'', JNum (stored_alerts (stored_state env w))),
       (''price_data_points'', JNum (of_nat (length (stored_prices (stored_state env w))))),
       (''config'', JObj [(''symbol'', JStr (ac_symbol cfg)), (''alert_threshold'', JNum (ac_threshold cfg)), (''update_interval_ms'', JNum (ac_interval cfg))])])))"

definition alerts_handlers :: "sdk_env \<Rightarrow> state_world \<Rightarrow> handler_table" where
  "alerts_handlers env w = handler ''/statistics'' (statistics_query env w) (handler ''/alerts'' (alerts_query env w)
     (handler ''/current-price'' (current_price env w) []))"

section \<open>The bot without the SDK\<close>

definition raw_signal :: "rat \<Rightarrow> price_state \<Rightarrow> string \<Rightarrow> price_signal option" where
  "raw_signal chance st symbol = (if length (ps_priceHistory st) < 10 \<or> chance > 1/10 then None
     else let maDiff = ma_difference (ps_priceHistory st) in signal_of symbol maDiff (confidence_of 100 maDiff))"

definition raw_round :: "alerts_config \<Rightarrow> tick \<Rightarrow> price_state \<Rightarrow> price_data \<times> price_alert option \<times> price_signal option \<times> price_state" where
  "raw_round cfg t st = (let d = simulatePrice (tk_random t) st (ac_symbol cfg) (ac_basePrice cfg);
       (a, st1) = checkAlertConditions (tk_now t) st d (ac_threshold cfg) (ac_symbol cfg);
       g = raw_signal (tk_chance t) st1 (ac_symbol cfg) in (d, a, g, push_price (pr_value d) st1))"

section \<open>The price stays in its range\<close>

lemma bot_state_key [simp]: "key_problem ''bot_state'' = None"
  by code_simp

lemma js_round_mono: "x \<le> y \<Longrightarrow> js_round x \<le> js_round y"
  by (simp add: js_round_def floor_mono)

lemma js_round_int [simp]: "js_round (of_int n) = of_int n"
  unfolding js_round_def by (simp add: floor_eq_iff)

lemma js_round_near: "x - 1/2 < js_round x" "js_round x \<le> x + 1/2"
  unfolding js_round_def by linarith+

lemma cents_mono: "x \<le> y \<Longrightarrow> cents x \<le> cents y"
  by (simp add: cents_def divide_right_mono js_round_mono)

lemma cents_cents [simp]: "cents (cents x) = cents x"
  by (simp add: cents_def js_round_def floor_eq_iff)

lemma cents_near: "x - 1/200 < cents x" "cents x \<le> x + 1/200"
  using js_round_near [of "x * 100"] by (simp_all add: cents_def field_simps)

lemma mills_near: "x - 1/2000 < mills x" "mills x \<le> x + 1/2000"
  using js_round_near [of "x * 1000"] by (simp_all add: mills_def field_simps)

lemma cents_one: "cents (1/100) = 1/100"
  by code_simp

definition price_ok :: "rat \<Rightarrow> rat \<Rightarrow> bool" where
  "price_ok base x \<longleftrightarrow> 1/100 \<le> x \<and> x \<le> cents (3 * base)"

lemma change_bounds:
  assumes "1 \<le> base" "price_ok base x" "0 \<le> r" "r < 1"
  shows "- 4005/1000000 \<le> change_of r x base" "change_of r x base < 3/1000"
proof -
  have x: "0 < x" "x \<le> 3 * base + 1/200" using assms(2) cents_near(2) [of "3 * base"] by (auto simp: price_ok_def)
  then have pull: "-2 - 1/200 \<le> (base - x) / base" "(base - x) / base < 1"
    using assms(1) by (simp_all add: field_simps)
  define v where "v = (base - x) / base"
  have change: "change_of r x base = (r - 1/2) / 250 + v / 1000" unfolding v_def change_of_def Let_def by simp
  then show "- 4005/1000000 \<le> change_of r x base" using pull(1) [folded v_def] assms(3) by (simp add: field_simps)
  show "change_of r x base < 3/1000"
    using change pull(2) [folded v_def] assms(4) by (simp add: field_simps)
qed

lemma price_stays:
  assumes "1 \<le> base" "price_ok base x" "0 \<le> r" "r < 1"
  shows "price_ok base (cents (x * (1 + change_of r x base)))"
proof -
  let ?new = "x * (1 + change_of r x base)"
  have x: "1/100 \<le> x" "x \<le> cents (3 * base)" using assms(2) by (simp_all add: price_ok_def)
  have "1/100 * (995995/1000000) \<le> ?new"
    by (rule mult_mono) (use x change_bounds [OF assms] in linarith)+
  then have low: "cents (995995/100000000) \<le> cents ?new" by (intro cents_mono) simp
  have "cents (995995/100000000) = 1/100" by code_simp
  moreover have "cents ?new \<le> cents (3 * base)"
  proof -
    have up: "?new \<le> x * (1003/1000 - x / base / 1000)"
      using assms(1,4) x(1) by (intro mult_left_mono) (simp_all add: change_of_def Let_def diff_divide_distrib)
    show ?thesis
    proof (cases "x \<le> 3 * base")
      case True
      have "0 \<le> (3 * base - x) * (1 - x / base / 1000)"
        using True assms(1) x(1) by (intro mult_nonneg_nonneg) (simp_all add: field_simps)
      also have "\<dots> = 3 * base - x * (1003/1000 - x / base / 1000)" using assms(1) by (simp add: field_simps)
      finally show ?thesis using up by (intro cents_mono) linarith
    next
      case False
      then have "x * (1003/1000 - x / base / 1000) \<le> x * 1" using assms(1) x(1) by (intro mult_left_mono) (simp_all add: field_simps)
      then have "?new \<le> cents (3 * base)" using up x(2) by linarith
      then have "cents ?new \<le> cents (cents (3 * base))" by (rule cents_mono)
      then show ?thesis by simp
    qed
  qed
  ultimately show ?thesis using low by (simp add: price_ok_def)
qed

definition tick_ok :: "tick \<Rightarrow> bool" where
  "tick_ok t \<longleftrightarrow> 0 \<le> tk_random t \<and> tk_random t < 1"

lemma change_is_number:
  assumes "ps_lastPrice st \<noteq> 0"
  shows "pr_change_pct (simulatePrice random st symbol base) = Some (mills (change_of random (ps_lastPrice st) base * 100))"
  using assms by (simp add: simulatePrice_def Let_def js_divide_def algebra_simps)

lemma small_change:
  assumes "1 \<le> ac_basePrice cfg" "price_ok (ac_basePrice cfg) (ps_lastPrice st)" "tick_ok t"
  shows "\<exists>c. pr_change_pct (simulatePrice (tk_random t) st symbol (ac_basePrice cfg)) = Some c \<and> \<bar>c\<bar> < 1/2"
proof -
  let ?c = "change_of (tk_random t) (ps_lastPrice st) (ac_basePrice cfg)"
  have "ps_lastPrice st \<noteq> 0" using assms(2) by (auto simp: price_ok_def)
  moreover have "\<bar>mills (?c * 100)\<bar> < 1/2"
    using change_bounds [OF assms(1,2), of "tk_random t"] assms(3) mills_near [of "?c * 100"] by (auto simp: tick_ok_def abs_less_iff)
  ultimately show ?thesis by (simp add: change_is_number)
qed

lemma checkAlert_state:
  "ps_lastPrice (snd (checkAlertConditions now st d threshold symbol)) = ps_lastPrice st"
  "ps_priceHistory (snd (checkAlertConditions now st d threshold symbol)) = ps_priceHistory st"
  "ps_alertCount (snd (checkAlertConditions now st d threshold symbol)) = ps_alertCount st"
  by (simp_all add: checkAlertConditions_def Let_def split: option.split)

lemma count_alert_state [simp]:
  "ps_lastPrice (count_alert a st) = ps_lastPrice st" "ps_priceHistory (count_alert a st) = ps_priceHistory st"
  by (simp_all add: count_alert_def split: option.split)

text \<open>What a round does to the state.\<close>

definition after_round :: "alerts_config \<Rightarrow> tick \<Rightarrow> price_state \<Rightarrow> price_state" where
  "after_round cfg t st = snd (snd (snd (price_round cfg t st)))"

lemma after_round_fields:
  "ps_lastPrice (after_round cfg t st) = cents (ps_lastPrice st * (1 + change_of (tk_random t) (ps_lastPrice st) (ac_basePrice cfg)))"
  "ps_priceHistory (after_round cfg t st) = (let h = ps_priceHistory st @ [ps_lastPrice (after_round cfg t st)] in if length h > 100 then tl h else h)"
  using checkAlert_state [of "tk_now t" st "simulatePrice (tk_random t) st (ac_symbol cfg) (ac_basePrice cfg)" "ac_threshold cfg" "ac_symbol cfg"]
  by (simp_all add: after_round_def price_round_def simulatePrice_def push_price_def Let_def case_prod_beta)

lemma alerts_tick_state:
  "ru_state (snd (alerts_tick pe env cfg t r)) = after_round cfg t (ru_state r)"
  "ru_iteration (snd (alerts_tick pe env cfg t r)) = Suc (ru_iteration r)"
  by (simp_all add: alerts_tick_def Let_def save_state_def after_round_def case_prod_beta)

lemma alerts_loop_keeps:
  assumes "list_all tick_ok ts" "P (ru_state r)" "\<And>t st. tick_ok t \<Longrightarrow> P st \<Longrightarrow> P (after_round cfg t st)"
  shows "P (ru_state (snd (alerts_loop pe env cfg ts r)))"
  using assms(1,2)
proof (induction ts arbitrary: r)
  case (Cons t ts)
  then have "P (ru_state (snd (alerts_tick pe env cfg t r)))" by (simp add: alerts_tick_state assms(3))
  then show ?case using Cons by (cases "alerts_tick pe env cfg t r") (simp split: sum.split)
qed simp

text \<open>With a threshold of half a percent or more, no round is an alert.\<close>

lemma quiet_round:
  assumes "1 \<le> ac_basePrice cfg" "1/2 \<le> ac_threshold cfg" "price_ok (ac_basePrice cfg) (ps_lastPrice st)" "tick_ok t"
  shows "fst (snd (price_round cfg t st)) = None" "ps_alertCount (after_round cfg t st) = ps_alertCount st"
    "price_ok (ac_basePrice cfg) (ps_lastPrice (after_round cfg t st))"
proof -
  let ?d = "simulatePrice (tk_random t) st (ac_symbol cfg) (ac_basePrice cfg)"
  obtain c where "pr_change_pct ?d = Some c" "\<not> ac_threshold cfg \<le> \<bar>c\<bar>"
    using small_change [OF assms(1,3,4), of "ac_symbol cfg"] assms(2) by fastforce
  then have none: "checkAlertConditions (tk_now t) st ?d (ac_threshold cfg) (ac_symbol cfg) = (None, st)"
    by (simp add: checkAlertConditions_def Let_def)
  then show "fst (snd (price_round cfg t st)) = None" "ps_alertCount (after_round cfg t st) = ps_alertCount st"
    by (simp_all add: price_round_def after_round_def count_alert_def push_price_def Let_def)
  show "price_ok (ac_basePrice cfg) (ps_lastPrice (after_round cfg t st))"
    unfolding after_round_fields by (rule price_stays) (use assms in \<open>auto simp: tick_ok_def\<close>)
qed

lemma first_price_ok:
  assumes "1 \<le> base"
  shows "price_ok base base"
proof -
  have "base \<le> 3 * base - 1/200" using assms by simp
  also have "\<dots> \<le> cents (3 * base)" using cents_near(1) [of "3 * base"] by simp
  finally show ?thesis using assms by (simp add: price_ok_def)
qed

text \<open>However long the bot runs, whatever chance gives, it never reports an alert with the default threshold of 1, and no threshold from a half
  on that the schema admits: a round moves the price by less than half a percent. So the count of alerts stays what was stored.\<close>

theorem default_never_alerts:
  assumes "alerts_config_of config = cfg" "1 \<le> ac_basePrice cfg" "1/2 \<le> ac_threshold cfg" "list_all tick_ok ts"
    and "stored_prices (stored_state env w) = []"
  shows "ps_alertCount (ru_state (snd (alerts_loop pe env cfg ts (alerts_start env cfg w c)))) = stored_alerts (stored_state env w)"
proof -
  have start: "ru_state (alerts_start env cfg w c) = start_state cfg (stored_state env w)"
    by (simp add: alerts_start_def stored_state_def case_prod_beta split: sum.split)
  let ?P = "\<lambda>st. price_ok (ac_basePrice cfg) (ps_lastPrice st) \<and> ps_alertCount st = stored_alerts (stored_state env w)"
  have "?P (ru_state (snd (alerts_loop pe env cfg ts (alerts_start env cfg w c))))"
  proof (rule alerts_loop_keeps [OF assms(4)])
    show "?P (ru_state (alerts_start env cfg w c))" using first_price_ok [OF assms(2)] assms(5) by (simp add: start start_state_def)
  qed (use quiet_round [OF assms(2,3)] in auto)
  then show ?thesis by simp
qed

definition demo_tick :: tick where
  "demo_tick = \<lparr>tk_random = 3/4, tk_chance = 1/2, tk_now = 1000000, tk_stamp = (\<lambda>_. ''now'')\<rparr>"

theorem default_never_alerts_witness:
  "ps_alertCount (ru_state (snd (alerts_loop pe demo_sdk (alerts_config_of (JObj [])) (replicate 3 demo_tick)
     (alerts_start demo_sdk (alerts_config_of (JObj [])) \<lparr>sw_dir = None, sw_faults = []\<rparr> c)))) = 0"
proof -
  have read: "stored_state demo_sdk \<lparr>sw_dir = None, sw_faults = []\<rparr> = Some no_state"
    by (simp add: stored_state_def sdk_get_def fs_eval demo_sdk_def)
  have "stored_prices (Some no_state) = []" "stored_alerts (Some no_state) = 0" by code_simp+
  moreover have "list_all tick_ok (replicate 3 demo_tick)" "1 \<le> ac_basePrice (alerts_config_of (JObj []))" "1/2 \<le> ac_threshold (alerts_config_of (JObj []))"
    by code_simp+
  ultimately show ?thesis using default_never_alerts [of "JObj []" "alerts_config_of (JObj [])" "replicate 3 demo_tick" demo_sdk] read by simp
qed

section \<open>A price of zero\<close>

text \<open>The schema has no minimum for the base price. One below half a cent is rounded to 0 in the first round; from then on the price is
  0 and its change NaN, which is printed as null.\<close>

lemma cheap_price_sticks_at_zero:
  assumes "ac_basePrice cfg = 4/1000" "tick_ok t"
  shows "ps_lastPrice st = 4/1000 \<Longrightarrow> ps_lastPrice (after_round cfg t st) = 0"
    "ps_lastPrice st = 0 \<Longrightarrow> ps_lastPrice (after_round cfg t st) = 0
       \<and> map_of (price_fields (fst (price_round cfg t st))) ''change_pct'' = Some JNull"
proof -
  define r where "r = tk_random t"
  have r: "0 \<le> r" "r < 1" using assms(2) by (simp_all add: tick_ok_def r_def)
  have change: "change_of r (4/1000) (4/1000) = (r - 1/2) / 250" by (simp add: change_of_def Let_def)
  have gone: "cents (4/1000 * (1 + (r - 1/2) / 250)) = 0"
    using r by (simp add: cents_def js_round_def floor_eq_iff field_simps)
  show "ps_lastPrice (after_round cfg t st) = 0" if "ps_lastPrice st = 4/1000"
    unfolding after_round_fields(1) that assms(1) r_def [symmetric] change by (rule gone)
  have zero: "cents 0 = 0" by code_simp
  show "ps_lastPrice st = 0 \<Longrightarrow> ps_lastPrice (after_round cfg t st) = 0
       \<and> map_of (price_fields (fst (price_round cfg t st))) ''change_pct'' = Some JNull"
    by (simp add: after_round_fields zero price_round_def case_prod_beta Let_def price_fields_def simulatePrice_def js_divide_def number_json_def)
qed

section \<open>History\<close>

definition well_kept :: "price_state \<Rightarrow> bool" where
  "well_kept st \<longleftrightarrow> ps_priceHistory st \<noteq> [] \<and> length (ps_priceHistory st) \<le> 100 \<and> last (ps_priceHistory st) = ps_lastPrice st"

lemma round_well_kept: "well_kept st \<Longrightarrow> well_kept (after_round cfg t st)"
  unfolding well_kept_def after_round_fields(2) Let_def by (cases "ps_priceHistory st") auto

lemma price_between: "pr_low_24h (simulatePrice x st symbol base) \<le> pr_value (simulatePrice x st symbol base)
    \<and> pr_value (simulatePrice x st symbol base) \<le> pr_high_24h (simulatePrice x st symbol base)"
  by (simp add: simulatePrice_def Let_def cents_mono)

section \<open>What the queries answer\<close>

text \<open>The bot and the query process: one prints what the other reads, and only the second has a query.\<close>

definition bot_and_query :: "sdk_env \<Rightarrow> sdk_env \<Rightarrow> bool" where
  "bot_and_query env qenv \<longleftrightarrow> sd_queryPath env = None \<and> (\<forall>st. sd_parse qenv (sd_stringify env (persisted_json st)) = Some (persisted_json st))"

lemma save_reads:
  assumes "bot_and_query env qenv" "sw_faults (ru_files r) = []"
  shows "\<exists>w. save_state env r = (Inr (), r\<lparr>ru_files := w\<rparr>) \<and> sw_faults w = [] \<and> stored_state qenv w = Some (persisted_json (ru_state r))"
proof -
  obtain d where w: "ru_files r = \<lparr>sw_dir = d, sw_faults = []\<rparr>" using assms(2) by (cases "ru_files r") simp
  have reads: "sd_parse qenv (sd_stringify env (persisted_json (ru_state r))) = Some (persisted_json (ru_state r))"
    using assms(1) by (simp add: bot_and_query_def)
  define w' where "w' = \<lparr>sw_dir = Some (AList.update (json_file ''bot_state'') (sd_stringify env (persisted_json (ru_state r)))
      (case d of None \<Rightarrow> [] | Some files \<Rightarrow> files)), sw_faults = ([] :: js_error option list)\<rparr>"
  have "sdk_isQueryMode env = False" using assms(1) by (simp add: bot_and_query_def sdk_isQueryMode_def)
  then have "save_state env r = (Inr (), r\<lparr>ru_files := w'\<rparr>)"
    by (cases d) (simp_all add: save_state_def sdk_set_def w w'_def fs_eval)
  moreover have "stored_state qenv w' = Some (persisted_json (ru_state r))"
    by (simp add: stored_state_def sdk_get_def w'_def fs_eval AList.update_conv' reads)
  ultimately show ?thesis by (auto simp: w'_def)
qed

lemma stored_persisted: "stored_prices (Some (persisted_json st)) = ps_priceHistory st" "stored_alerts (Some (persisted_json st)) = ps_alertCount st"
proof -
  have "List.map_filter (\<lambda>x. case x of JNum q \<Rightarrow> Some q | _ \<Rightarrow> None) (map JNum xs) = xs" for xs
    by (induction xs) (simp_all add: List.map_filter_def)
  then show "stored_prices (Some (persisted_json st)) = ps_priceHistory st" "stored_alerts (Some (persisted_json st)) = ps_alertCount st"
    by (simp_all add: stored_prices_def stored_alerts_def persisted_json_def prop_of_def)
qed

definition rounds :: "alerts_config \<Rightarrow> tick list \<Rightarrow> price_state \<Rightarrow> price_state" where
  "rounds cfg ts st = foldl (\<lambda>st t. after_round cfg t st) st ts"

lemma rounds_well_kept: "well_kept st \<Longrightarrow> well_kept (rounds cfg ts st)"
  by (induction ts arbitrary: st) (simp_all add: rounds_def round_well_kept)

lemma loop_snoc:
  "alerts_loop pe env cfg ts r = (None, r1) \<Longrightarrow> alerts_tick pe env cfg t r1 = (Inr (), r2) \<Longrightarrow> alerts_loop pe env cfg (ts @ [t]) r = (None, r2)"
  by (induction ts arbitrary: r) (auto split: prod.splits sum.splits)

lemma calm_loop:
  assumes "bot_and_query env qenv" "sw_faults (ru_files r) = []" "ru_iteration r = 0"
  shows "\<exists>r'. alerts_loop pe env cfg ts r = (None, r') \<and> ru_state r' = rounds cfg ts (ru_state r) \<and> ru_iteration r' = length ts \<and> sw_faults (ru_files r') = []
    \<and> (10 \<le> length ts \<longrightarrow> stored_state qenv (ru_files r') = Some (persisted_json (rounds cfg (take (length ts - length ts mod 10) ts) (ru_state r))))"
proof (induction ts rule: rev_induct)
  case (snoc t ts)
  then obtain r1 where r1: "alerts_loop pe env cfg ts r = (None, r1)" "ru_state r1 = rounds cfg ts (ru_state r)" "ru_iteration r1 = length ts"
    "sw_faults (ru_files r1) = []" "10 \<le> length ts \<longrightarrow> stored_state qenv (ru_files r1)
       = Some (persisted_json (rounds cfg (take (length ts - length ts mod 10) ts) (ru_state r)))" by blast
  define x where "x = price_round cfg t (ru_state r1)"
  define r2 where "r2 = r1\<lparr>ru_state := snd (snd (snd x)), ru_iteration := Suc (ru_iteration r1), ru_out := report_round pe t x (ru_out r1)\<rparr>"
  have r2: "ru_state r2 = rounds cfg (ts @ [t]) (ru_state r)" "ru_iteration r2 = Suc (length ts)" "ru_files r2 = ru_files r1"
    using r1(2,3) by (simp_all add: r2_def x_def rounds_def after_round_def)
  have tick: "alerts_tick pe env cfg t r1 = (if Suc (length ts) mod 10 = 0 then save_state env r2 else (Inr (), r2))"
    by (simp add: alerts_tick_def Let_def x_def r2_def r1(3))
  show ?case
  proof (cases "Suc (length ts) mod 10 = 0")
    case True
    obtain w where "save_state env r2 = (Inr (), r2\<lparr>ru_files := w\<rparr>)" "sw_faults w = []" "stored_state qenv w = Some (persisted_json (ru_state r2))"
      using save_reads [OF assms(1), of r2] r1(4) r2(3) by auto
    then show ?thesis using loop_snoc [OF r1(1)] tick True r2 by simp
  next
    case False
    have saved: "Suc (length ts) - Suc (length ts) mod 10 = length ts - length ts mod 10" using False by (simp add: mod_Suc split: if_splits)
    have "10 \<le> length ts" if "10 \<le> Suc (length ts)" using that False by (cases "length ts = 9") auto
    then show ?thesis using loop_snoc [OF r1(1)] tick False r2 r1(4,5) by (simp add: saved)
  qed
qed (use assms in \<open>simp add: rounds_def\<close>)

text \<open>When no call of the file system fails, the query about the current price answers, after at least ten rounds, with the price of the
  last round whose number is a multiple of ten: the price of up to nine later rounds is not known to it, and it is lost when the bot is
  ended.\<close>

theorem query_answers_last_save:
  assumes "bot_and_query env qenv" "sw_faults (ru_files r) = []" "ru_iteration r = 0" "well_kept (ru_state r)" "10 \<le> length ts"
  shows "let saved = rounds cfg (take (length ts - length ts mod 10) ts) (ru_state r) in
    \<exists>change. current_price qenv (ru_files (snd (alerts_loop pe env cfg ts r))) req vw
      = Returned (Some (JObj [(''current_price'', JNum (ps_lastPrice saved)), (''high_24h'', JNum (cents (Max (set (ps_priceHistory saved))))),
          (''low_24h'', JNum (cents (Min (set (ps_priceHistory saved))))), (''change_pct'', change), (''data_points'', JNum (of_nat (length (ps_priceHistory saved))))]))"
proof -
  define n where "n = length ts - length ts mod 10"
  obtain k where "n = Suc k" using assms(5) using mod_less_divisor [of 10 "length ts"] unfolding n_def by (cases "length ts - length ts mod 10") auto
  then have "take n ts = take k ts @ [ts ! k]" using take_Suc_conv_app_nth [of k ts] by (simp add: n_def)
  then have "cents (ps_lastPrice (rounds cfg (take n ts) (ru_state r))) = ps_lastPrice (rounds cfg (take n ts) (ru_state r))"
    by (simp add: rounds_def after_round_fields(1))
  moreover have "well_kept (rounds cfg (take n ts) (ru_state r))" by (rule rounds_well_kept [OF assms(4)])
  moreover have "stored_state qenv (ru_files (snd (alerts_loop pe env cfg ts r))) = Some (persisted_json (rounds cfg (take n ts) (ru_state r)))"
    using calm_loop [OF assms(1-3), of pe cfg ts] assms(5) by (auto simp: n_def)
  ultimately show ?thesis
    unfolding n_def [symmetric] Let_def current_price_def by (simp add: stored_persisted well_kept_def)
qed

section \<open>With and without the SDK\<close>

text \<open>The two versions draw the same prices and alerts and decide for the same signals; but the confidence of the one with the SDK is
  not multiplied by 100.\<close>

theorem raw_differs_in_confidence:
  "case (price_round cfg t st, raw_round cfg t st) of ((d, a, g, st1), (d', a', g', st1')) \<Rightarrow>
     d = d' \<and> a = a' \<and> st1'\<lparr>ps_alertCount := ps_alertCount st1\<rparr> = st1 \<and> map_option (\<lambda>x. x\<lparr>sg_confidence := 0\<rparr>) g = map_option (\<lambda>x. x\<lparr>sg_confidence := 0\<rparr>) g'
     \<and> (case g of None \<Rightarrow> True | Some x \<Rightarrow> sg_confidence x = cents (confidence_of 1 (ma_difference (ps_priceHistory st))))
     \<and> (case g' of None \<Rightarrow> True | Some x \<Rightarrow> sg_confidence x = cents (confidence_of 100 (ma_difference (ps_priceHistory st))))"
  using checkAlert_state [of "tk_now t" st "simulatePrice (tk_random t) st (ac_symbol cfg) (ac_basePrice cfg)" "ac_threshold cfg" "ac_symbol cfg"]
  by (simp add: price_round_def raw_round_def generateSignal_def raw_signal_def signal_of_def Let_def case_prod_beta push_price_def count_alert_def
      split: option.split)

end
