(* ===== verification/BundleBuild.thy ===== *)
theory BundleBuild
  imports EventsHook
begin

text \<open>
  How the frontend of a bot is built (sdk/react: esbuild.ts, build.ts, cli.ts) and what its imports of React become on the page
  (components/bot/bot-dashboard-loader.tsx). esbuild asks the plugins of a build in their order; the files and esbuild itself are given.
\<close>

section \<open>The plugin\<close>

text \<open>A plugin: the namespace it gives to an import, and what it loads for a namespace: the code that is bundled in place of the module.\<close>

record plugin =
  pg_resolve :: "string \<Rightarrow> string option"
  pg_load :: "string \<Rightarrow> string option"

definition react_resolve :: "string \<Rightarrow> string option" where
  "react_resolve path =
     (if path = ''react'' then Some ''quantflow-react-global''
      else if path = ''react-dom'' then Some ''quantflow-react-dom-global''
      else if path = ''react-dom/client'' then Some ''quantflow-react-dom-client-global''
      else if path = ''react/jsx-runtime'' \<or> path = ''react/jsx-dev-runtime'' then Some ''quantflow-react-jsx-runtime-global''
      else None)"

definition export_global :: "string \<Rightarrow> string" where
  "export_global g = ''module.exports = window.'' @ g @ '';''"

definition react_load :: "string \<Rightarrow> string option" where
  "react_load namespace =
     (if namespace = ''quantflow-react-global'' then Some (export_global ''__QUANTFLOW_REACT__'')
      else if namespace = ''quantflow-react-dom-global'' \<or> namespace = ''quantflow-react-dom-client-global''
      then Some (export_global ''__QUANTFLOW_REACT_DOM__'')
      else if namespace = ''quantflow-react-jsx-runtime-global'' then Some (export_global ''__QUANTFLOW_REACT_JSX__'')
      else None)"

definition reactGlobalPlugin :: plugin where
  "reactGlobalPlugin = \<lparr>pg_resolve = react_resolve, pg_load = react_load\<rparr>"

section \<open>The build\<close>

text \<open>None is an option that is left out.\<close>

record build_options =
  bo_entryPoint :: "string option"
  bo_outfile :: "string option"
  bo_minify :: "bool option"
  bo_plugins :: "plugin list"

record esbuild_call =
  eb_entryPoints :: "string list"
  eb_bundle :: bool
  eb_format :: string
  eb_outfile :: string
  eb_minify :: bool
  eb_plugins :: "plugin list"

definition given_or :: "'a option \<Rightarrow> 'a \<Rightarrow> 'a" where
  "given_or x d = (case x of None \<Rightarrow> d | Some v \<Rightarrow> v)"

definition build :: "build_options \<Rightarrow> esbuild_call" where
  "build bo = \<lparr>eb_entryPoints = [given_or (bo_entryPoint bo) ''index.tsx''], eb_bundle = True, eb_format = ''esm'',
     eb_outfile = given_or (bo_outfile bo) ''dist/bundle.js'', eb_minify = given_or (bo_minify bo) True,
     eb_plugins = reactGlobalPlugin # bo_plugins bo\<rparr>"

text \<open>The first plugin that answers.\<close>

fun first_answer :: "('a \<Rightarrow> 'b option) \<Rightarrow> 'a list \<Rightarrow> 'b option" where
  "first_answer f [] = None"
| "first_answer f (x # xs) = (case f x of Some y \<Rightarrow> Some y | None \<Rightarrow> first_answer f xs)"

text \<open>What stands in the bundle for an import: the module from the packages of the bot, or the code of a plugin.\<close>

datatype bundled = OwnCopy string | PluginCode string

definition bundled_import :: "esbuild_call \<Rightarrow> string \<Rightarrow> bundled" where
  "bundled_import eb path = (case first_answer (\<lambda>p. pg_resolve p path) (eb_plugins eb) of
      None \<Rightarrow> OwnCopy path
    | Some namespace \<Rightarrow> (case first_answer (\<lambda>p. pg_load p namespace) (eb_plugins eb) of
        None \<Rightarrow> OwnCopy path
      | Some code \<Rightarrow> PluginCode code))"

section \<open>The page\<close>

text \<open>The globals that the page sets when its module is loaded, by the module of the page that each holds.\<close>

definition page_globals :: "(string \<times> string) list" where
  "page_globals = [(''__QUANTFLOW_REACT__'', ''react''), (''__QUANTFLOW_REACT_DOM__'', ''react-dom''), (''__QUANTFLOW_REACT_JSX__'', ''react/jsx-runtime'')]"

text \<open>The module that an import is at run time: one of the page, a copy of the bundle's own, or nothing known here.\<close>

datatype imported = OfPage string | OfBundle string | OtherCode string

definition imports_as :: "esbuild_call \<Rightarrow> string \<Rightarrow> imported" where
  "imports_as eb path = (case bundled_import eb path of
      OwnCopy m \<Rightarrow> OfBundle m
    | PluginCode code \<Rightarrow> (case List.find (\<lambda>gm. export_global (fst gm) = code) page_globals of Some gm \<Rightarrow> OfPage (snd gm) | None \<Rightarrow> OtherCode code))"

text \<open>Whatever other plugins a build has: React, its DOM and its JSX functions are those of the page, and no other plugin can change this;
  every other import is left to the other plugins.\<close>

theorem bundle_shares_react:
  "list_all (\<lambda>m. imports_as (build bo) m = OfPage m) [''react'', ''react-dom'', ''react/jsx-runtime'']"
  "path \<notin> {''react'', ''react-dom'', ''react-dom/client'', ''react/jsx-runtime'', ''react/jsx-dev-runtime''} \<Longrightarrow> bo_plugins bo = []
    \<Longrightarrow> imports_as (build bo) path = OfBundle path"
proof -
  have load: "first_answer (\<lambda>p. pg_load p ns) (reactGlobalPlugin # ps) = react_load ns" if "react_load ns \<noteq> None" for ns ps
    using that by (auto simp: reactGlobalPlugin_def)
  have "imports_as (build bo) m = (case react_load (the (react_resolve m)) of Some code \<Rightarrow>
      (case List.find (\<lambda>gm. export_global (fst gm) = code) page_globals of Some gm \<Rightarrow> OfPage (snd gm) | None \<Rightarrow> OtherCode code))"
    if "react_resolve m \<noteq> None" "react_load (the (react_resolve m)) \<noteq> None" for m
    using that load [OF that(2)] by (auto simp: imports_as_def bundled_import_def build_def reactGlobalPlugin_def)
  note known = this
  have "react_resolve m \<noteq> None" "react_load (the (react_resolve m)) \<noteq> None"
    "(case react_load (the (react_resolve m)) of Some code \<Rightarrow>
      (case List.find (\<lambda>gm. export_global (fst gm) = code) page_globals of Some gm \<Rightarrow> OfPage (snd gm) | None \<Rightarrow> OtherCode code)) = OfPage m"
    if "m \<in> {''react'', ''react-dom'', ''react/jsx-runtime''}" for m
    using that by (elim insertE emptyE; hypsubst; code_simp)+
  then show "list_all (\<lambda>m. imports_as (build bo) m = OfPage m) [''react'', ''react-dom'', ''react/jsx-runtime'']"
    by (simp add: known)
  show "imports_as (build bo) path = OfBundle path"
    if "path \<notin> {''react'', ''react-dom'', ''react-dom/client'', ''react/jsx-runtime'', ''react/jsx-dev-runtime''}" "bo_plugins bo = []"
    using that by (simp add: imports_as_def bundled_import_def build_def reactGlobalPlugin_def react_resolve_def)
qed

text \<open>The module for roots of React's DOM and the one for JSX in development are taken for the plain ones, which do not export their functions.\<close>

lemma client_is_plain_dom:
  "imports_as (build \<lparr>bo_entryPoint = None, bo_outfile = None, bo_minify = None, bo_plugins = []\<rparr>) ''react-dom/client'' = OfPage ''react-dom''"
  "imports_as (build \<lparr>bo_entryPoint = None, bo_outfile = None, bo_minify = None, bo_plugins = []\<rparr>) ''react/jsx-dev-runtime'' = OfPage ''react/jsx-runtime''"
  by code_simp+

section \<open>The command\<close>

record cli_options =
  co_entryPoint :: string
  co_outfile :: "string option"
  co_minify :: bool

definition cli_defaults :: cli_options where
  "cli_defaults = \<lparr>co_entryPoint = ''index.tsx'', co_outfile = Some ''dist/bundle.js'', co_minify = True\<rparr>"

text \<open>None: the help is shown. An option for the file at the end leaves it undefined; options that are not known are passed over.\<close>

fun cli_args :: "string list \<Rightarrow> cli_options \<Rightarrow> cli_options option" where
  "cli_args [] co = Some co"
| "cli_args [arg] co =
     (if arg = ''-o'' \<or> arg = ''--outfile'' then Some (co\<lparr>co_outfile := None\<rparr>)
      else if arg = ''--no-minify'' then Some (co\<lparr>co_minify := False\<rparr>)
      else if arg = ''-h'' \<or> arg = ''--help'' then None
      else if \<not> js_starts_with arg ''-'' then Some (co\<lparr>co_entryPoint := arg\<rparr>) else Some co)"
| "cli_args (arg # x # args) co =
     (if arg = ''-o'' \<or> arg = ''--outfile'' then cli_args args (co\<lparr>co_outfile := Some x\<rparr>)
      else if arg = ''--no-minify'' then cli_args (x # args) (co\<lparr>co_minify := False\<rparr>)
      else if arg = ''-h'' \<or> arg = ''--help'' then None
      else if \<not> js_starts_with arg ''-'' then cli_args (x # args) (co\<lparr>co_entryPoint := arg\<rparr>) else cli_args (x # args) co)"

datatype cli_end = ShowsHelp | NoEntry string | BuildFailed | Built esbuild_call

definition cli_exit :: "cli_end \<Rightarrow> nat" where
  "cli_exit e = (case e of ShowsHelp \<Rightarrow> 0 | NoEntry _ \<Rightarrow> 1 | BuildFailed \<Rightarrow> 1 | Built _ \<Rightarrow> 0)"

definition cli_main :: "(string \<Rightarrow> bool) \<Rightarrow> (esbuild_call \<Rightarrow> bool) \<Rightarrow> string list \<Rightarrow> cli_end" where
  "cli_main is_file esbuild_ok args = (case cli_args args cli_defaults of
      None \<Rightarrow> ShowsHelp
    | Some co \<Rightarrow> if \<not> is_file (co_entryPoint co) then NoEntry (co_entryPoint co)
        else (let eb = build \<lparr>bo_entryPoint = Some (co_entryPoint co), bo_outfile = co_outfile co, bo_minify = Some (co_minify co), bo_plugins = []\<rparr> in
          if esbuild_ok eb then Built eb else BuildFailed))"

text \<open>The arguments for given options.\<close>

definition cli_words :: "cli_options \<Rightarrow> string list" where
  "cli_words co = co_entryPoint co # (case co_outfile co of None \<Rightarrow> [] | Some f \<Rightarrow> [''-o'', f]) @ (if co_minify co then [] else [''--no-minify''])"

text \<open>Every choice of an entry, a file and the minifier can be asked for, unless the entry looks like an option.\<close>

theorem cli_reads_words:
  assumes "\<not> js_starts_with (co_entryPoint co) ''-''" "co_outfile co \<noteq> None"
  shows "cli_args (cli_words co) cli_defaults = Some co"
proof -
  obtain e f m where co: "co = \<lparr>co_entryPoint = e, co_outfile = Some f, co_minify = m\<rparr>" using assms(2) by (cases co) auto
  have "e \<noteq> ''-o''" "e \<noteq> ''--outfile''" "e \<noteq> ''--no-minify''" "e \<noteq> ''-h''" "e \<noteq> ''--help''"
    using assms(1) by (auto simp: co js_starts_with_def)
  then show ?thesis using assms(1) by (simp add: co cli_words_def cli_defaults_def)
qed

text \<open>Whatever the arguments: a bundle that the command has built is a module, has its file, and shares React with the page.\<close>

theorem cli_bundle_shares_react:
  "case cli_main is_file esbuild_ok args of Built eb \<Rightarrow> esbuild_ok eb \<and> eb_format eb = ''esm'' \<and> list_all is_file (eb_entryPoints eb)
      \<and> list_all (\<lambda>m. imports_as eb m = OfPage m) [''react'', ''react-dom'', ''react/jsx-runtime'']
    | e \<Rightarrow> cli_exit e = 0 \<longleftrightarrow> e = ShowsHelp"
proof (cases "cli_args args cli_defaults")
  case (Some co)
  show ?thesis
    using Some bundle_shares_react(1)
      [of "\<lparr>bo_entryPoint = Some (co_entryPoint co), bo_outfile = co_outfile co, bo_minify = Some (co_minify co), bo_plugins = []\<rparr>"]
    by (simp add: cli_main_def Let_def cli_exit_def build_def given_or_def)
qed (simp add: cli_main_def cli_exit_def)

end
