(* ===== verification/Dashboards.thy ===== *)
theory Dashboards
  imports PriceAlerts EventsHook
begin

text \<open>
  The custom dashboards of the example bots (example-bots/*/frontend/index.tsx) on the events that the page gives them, and the
  boundary around a dashboard (DashboardErrorBoundary in components/bot/bot-dashboard-loader.tsx). To render is to compute what is
  shown, or to throw: None. A view holds the values that are shown, in the order of the page; colours, and the texts that toLocaleString,
  toFixed and toUpperCase make of a value, are left out, but not that these calls throw. The clock does not move while a dashboard is
  rendered. The four dashboards of the crossover bots with a stream are one text but for the title; the one in C++ also takes events
  without a date.
\<close>

section \<open>Values\<close>

text \<open>A field of the data of an event: reading it throws for null.\<close>

definition data_field :: "json \<Rightarrow> string \<Rightarrow> json option option" where
  "data_field d k = (if d = JNull then None else Some (prop_of (Some d) k))"

text \<open>React shows texts, numbers and lists of them, and nothing for the rest but objects, for which it throws.\<close>

fun child_ok :: "json \<Rightarrow> bool" where
  "child_ok (JObj kvs) = False"
| "child_ok (JArr xs) = list_all child_ok xs"
| "child_ok JNull = True"
| "child_ok (JBool b) = True"
| "child_ok (JNum q) = True"
| "child_ok (JStr s) = True"

definition react_child :: "json option \<Rightarrow> json option option" where
  "react_child v = (case v of None \<Rightarrow> Some None | Some x \<Rightarrow> if child_ok x then Some v else None)"

text \<open>An object whose own field hides the method is not callable.\<close>

fun to_text_ok :: "json \<Rightarrow> bool" where
  "to_text_ok (JObj kvs) = (\<not> has_key kvs ''toString'')"
| "to_text_ok (JArr xs) = list_all to_text_ok xs"
| "to_text_ok JNull = True"
| "to_text_ok (JBool b) = True"
| "to_text_ok (JNum q) = True"
| "to_text_ok (JStr s) = True"

fun locale_ok :: "json \<Rightarrow> bool" where
  "locale_ok (JObj kvs) = (\<not> has_key kvs ''toString'' \<and> \<not> has_key kvs ''toLocaleString'')"
| "locale_ok (JArr xs) = list_all locale_ok xs"
| "locale_ok JNull = True"
| "locale_ok (JBool b) = True"
| "locale_ok (JNum q) = True"
| "locale_ok (JStr s) = True"

text \<open>\<open>v.toLocaleString()\<close>, and \<open>v?.toLocaleString()\<close>, which is undefined for null and undefined.\<close>

definition localised :: "json option \<Rightarrow> json option" where
  "localised v = (case v of Some x \<Rightarrow> if x \<noteq> JNull \<and> locale_ok x then Some x else None | None \<Rightarrow> None)"

definition localised_if :: "json option \<Rightarrow> json option option" where
  "localised_if v = (if v = None \<or> v = Some JNull then Some None else map_option Some (localised v))"

text \<open>\<open>v.toFixed(n)\<close> is there for numbers, \<open>v.toUpperCase()\<close> for texts.\<close>

definition fixed_number :: "json option \<Rightarrow> rat option" where
  "fixed_number v = (case v of Some (JNum q) \<Rightarrow> Some q | _ \<Rightarrow> None)"

definition upper_text :: "json option \<Rightarrow> string option" where
  "upper_text v = (case v of Some (JStr s) \<Rightarrow> Some s | _ \<Rightarrow> None)"

text \<open>\<open>(v * 100).toFixed(0)\<close>: the value whose share is shown, undefined as NaN.\<close>

definition share_shown :: "json option \<Rightarrow> json option option" where
  "share_shown v = (case v of None \<Rightarrow> Some None | Some x \<Rightarrow> if to_text_ok x then Some v else None)"

text \<open>Every row is rendered, or the list throws.\<close>

definition render_rows :: "('a \<Rightarrow> 'b option) \<Rightarrow> 'a list \<Rightarrow> 'b list option" where
  "render_rows f xs = those (map f xs)"

datatype 'v dashboard_view = Connecting | LoadingFailed string | Showing 'v

definition dashboard :: "(log_event list \<Rightarrow> 'v option) \<Rightarrow> context_value \<Rightarrow> 'v dashboard_view option" where
  "dashboard body cv = (if cv_loading cv then Some Connecting
     else if truthy_opt (cv_error cv) then Some (LoadingFailed (the (cv_error cv)))
     else map_option Showing (body (cv_events cv)))"

section \<open>Price alerts (typescript-price-alerts)\<close>

record price_card =
  pc_symbol :: "json option"
  pc_value :: json
  pc_change :: rat
  pc_high :: "json option"
  pc_low :: "json option"
  pc_updated :: js_date

text \<open>The card of the latest price, if there is one.\<close>

definition alerts_PriceCard :: "log_event option \<Rightarrow> price_card option option" where
  "alerts_PriceCard price = (case price of None \<Rightarrow> Some None | Some e \<Rightarrow>
     Option.bind (data_field (ev_data e) ''change_pct'') (\<lambda>change.
     Option.bind (react_child (prop_of (Some (ev_data e)) ''symbol'')) (\<lambda>symbol.
     Option.bind (localised (prop_of (Some (ev_data e)) ''value'')) (\<lambda>v.
     Option.bind (fixed_number change) (\<lambda>change_pct.
     Option.bind (localised_if (prop_of (Some (ev_data e)) ''high_24h'')) (\<lambda>high.
     Option.bind (localised_if (prop_of (Some (ev_data e)) ''low_24h'')) (\<lambda>low.
     Option.bind (ev_timestamp e) (\<lambda>updated.
       Some (Some \<lparr>pc_symbol = symbol, pc_value = v, pc_change = change_pct, pc_high = high, pc_low = low, pc_updated = updated\<rparr>)))))))))"

definition blank_first :: "string \<Rightarrow> string" where
  "blank_first s = (let a = takeWhile (\<lambda>c. c \<noteq> CHR ''_'') s; b = dropWhile (\<lambda>c. c \<noteq> CHR ''_'') s in
     if b = [] then s else a @ '' '' @ tl b)"

text \<open>\<open>type?.includes("spike")\<close> and \<open>type?.replace("_", " ").toUpperCase()\<close>.\<close>

definition alert_title :: "json option \<Rightarrow> (string option \<times> bool) option" where
  "alert_title ty = (case ty of None \<Rightarrow> Some (None, False) | Some JNull \<Rightarrow> Some (None, False)
     | Some (JStr s) \<Rightarrow> Some (Some (blank_first s), js_includes s ''spike'') | _ \<Rightarrow> None)"

record alert_item =
  ai_title :: "string option"
  ai_spike :: bool
  ai_message :: "json option"
  ai_when :: js_date

definition alert_row :: "log_event \<Rightarrow> alert_item option" where
  "alert_row e =
     Option.bind (data_field (ev_data e) ''severity'') (\<lambda>severity.
     if \<not> (case severity of None \<Rightarrow> True | Some x \<Rightarrow> to_text_ok x) then None else
     Option.bind (alert_title (prop_of (Some (ev_data e)) ''type'')) (\<lambda>(title, spike).
     Option.bind (react_child (prop_of (Some (ev_data e)) ''message'')) (\<lambda>message.
     Option.bind (ev_timestamp e) (\<lambda>d. Some \<lparr>ai_title = title, ai_spike = spike, ai_message = message, ai_when = d\<rparr>))))"

text \<open>How many there are, and the newest five.\<close>

definition alerts_AlertsList :: "log_event list \<Rightarrow> (nat \<times> alert_item list) option" where
  "alerts_AlertsList alerts = map_option (Pair (length alerts)) (render_rows alert_row (rev (last_n 5 alerts)))"

record signal_item =
  si_direction :: string
  si_symbol :: "json option"
  si_reason :: "json option"
  si_confidence :: "json option"
  si_when :: js_date

definition signal_row :: "log_event \<Rightarrow> signal_item option" where
  "signal_row e =
     Option.bind (data_field (ev_data e) ''direction'') (\<lambda>direction.
     Option.bind (upper_text direction) (\<lambda>dir.
     Option.bind (react_child (prop_of (Some (ev_data e)) ''symbol'')) (\<lambda>symbol.
     Option.bind (react_child (prop_of (Some (ev_data e)) ''reason'')) (\<lambda>reason.
     Option.bind (share_shown (prop_of (Some (ev_data e)) ''confidence'')) (\<lambda>confidence.
     Option.bind (ev_timestamp e) (\<lambda>d.
       Some \<lparr>si_direction = dir, si_symbol = symbol, si_reason = reason, si_confidence = confidence, si_when = d\<rparr>))))))"

definition alerts_SignalsList :: "log_event list \<Rightarrow> (nat \<times> signal_item list) option" where
  "alerts_SignalsList signals = map_option (Pair (length signals)) (render_rows signal_row (rev (last_n 5 signals)))"

record price_line =
  hr_when :: js_date
  hr_value :: json
  hr_change :: rat
  hr_high :: "json option"
  hr_low :: "json option"

definition alerts_price_row :: "log_event \<Rightarrow> price_line option" where
  "alerts_price_row e =
     Option.bind (data_field (ev_data e) ''change_pct'') (\<lambda>change.
     Option.bind (ev_timestamp e) (\<lambda>d.
     Option.bind (localised (prop_of (Some (ev_data e)) ''value'')) (\<lambda>v.
     Option.bind (fixed_number change) (\<lambda>change_pct.
     Option.bind (localised_if (prop_of (Some (ev_data e)) ''high_24h'')) (\<lambda>high.
     Option.bind (localised_if (prop_of (Some (ev_data e)) ''low_24h'')) (\<lambda>low.
       Some \<lparr>hr_when = d, hr_value = v, hr_change = change_pct, hr_high = high, hr_low = low\<rparr>))))))"

definition alerts_PriceHistory :: "log_event list \<Rightarrow> price_line list option" where
  "alerts_PriceHistory prices = render_rows alerts_price_row (rev prices)"

text \<open>\<open>Date.now() - e.timestamp.getTime() < 3600000\<close>: an event without a date throws, an invalid date is not recent.\<close>

definition recent_events :: "int \<Rightarrow> log_event list \<Rightarrow> log_event list option" where
  "recent_events now es = (if list_all dated es then Some (filter (in_time (\<lambda>t. now - t < 3600000)) es) else None)"

record alerts_view =
  av_prices :: nat
  av_alerts :: nat
  av_signals :: nat
  av_card :: "price_card option"
  av_recentAlerts :: "nat \<times> alert_item list"
  av_recentSignals :: "nat \<times> signal_item list"
  av_history :: "price_line list"

definition alerts_body :: "int \<Rightarrow> log_event list \<Rightarrow> alerts_view option" where
  "alerts_body now events = (let prices = filterByType events ''price''; alerts = filterByType events ''alert'';
       signals = filterByType events ''signal'' in
     Option.bind (recent_events now alerts) (\<lambda>recentAlerts.
     Option.bind (recent_events now signals) (\<lambda>recentSignals.
     Option.bind (alerts_PriceCard (latest_of events ''price'')) (\<lambda>card.
     Option.bind (alerts_AlertsList recentAlerts) (\<lambda>as.
     Option.bind (alerts_SignalsList recentSignals) (\<lambda>ss.
     Option.bind (alerts_PriceHistory (last_n 20 prices)) (\<lambda>history.
       Some \<lparr>av_prices = length prices, av_alerts = length alerts, av_signals = length signals, av_card = card,
         av_recentAlerts = as, av_recentSignals = ss, av_history = history\<rparr>)))))))"


section \<open>Crossover bots with a stream (rust, scala, csharp, cpp)\<close>

text \<open>The date of an event; the dashboard in C++ is \<open>guarded\<close> and shows a dash for an event without one.\<close>

definition shown_date :: "bool \<Rightarrow> log_event \<Rightarrow> js_date option option" where
  "shown_date guarded e = (if guarded then Some (ev_timestamp e) else map_option Some (ev_timestamp e))"

record cross_price =
  xp_symbol :: "json option"
  xp_value :: json
  xp_change :: rat
  xp_updated :: "js_date option"

definition cross_PriceCard :: "bool \<Rightarrow> log_event option \<Rightarrow> cross_price option option" where
  "cross_PriceCard guarded price = (case price of None \<Rightarrow> Some None | Some e \<Rightarrow>
     Option.bind (data_field (ev_data e) ''change_pct'') (\<lambda>change.
     Option.bind (react_child (prop_of (Some (ev_data e)) ''symbol'')) (\<lambda>symbol.
     Option.bind (localised (prop_of (Some (ev_data e)) ''value'')) (\<lambda>v.
     Option.bind (fixed_number change) (\<lambda>change_pct.
     Option.bind (shown_date guarded e) (\<lambda>updated.
       Some (Some \<lparr>xp_symbol = symbol, xp_value = v, xp_change = change_pct, xp_updated = updated\<rparr>)))))))"

text \<open>Two numbers, as the averages are declared; anything else counts as not greater.\<close>

definition greater_number :: "json option \<Rightarrow> json option \<Rightarrow> bool" where
  "greater_number a b = (case (a, b) of (Some (JNum x), Some (JNum y)) \<Rightarrow> x > y | _ \<Rightarrow> False)"

record cross_sma =
  xs_shortPeriod :: "json option"
  xs_short :: json
  xs_longPeriod :: "json option"
  xs_long :: json
  xs_bullish :: bool

definition cross_SMACard :: "log_event option \<Rightarrow> cross_sma option option" where
  "cross_SMACard sma = (case sma of None \<Rightarrow> Some None | Some e \<Rightarrow>
     Option.bind (data_field (ev_data e) ''short_sma'') (\<lambda>short.
     Option.bind (react_child (prop_of (Some (ev_data e)) ''short_period'')) (\<lambda>shortPeriod.
     Option.bind (localised short) (\<lambda>a.
     Option.bind (react_child (prop_of (Some (ev_data e)) ''long_period'')) (\<lambda>longPeriod.
     Option.bind (localised (prop_of (Some (ev_data e)) ''long_sma'')) (\<lambda>b.
       Some (Some \<lparr>xs_shortPeriod = shortPeriod, xs_short = a, xs_longPeriod = longPeriod, xs_long = b,
         xs_bullish = greater_number short (prop_of (Some (ev_data e)) ''long_sma'')\<rparr>)))))))"

record cross_signal =
  xg_type :: "json option"
  xg_symbol :: "json option"
  xg_price :: json
  xg_reason :: "json option"
  xg_confidence :: "json option"
  xg_when :: "js_date option"

definition cross_signal_row :: "bool \<Rightarrow> log_event \<Rightarrow> cross_signal option" where
  "cross_signal_row guarded e =
     Option.bind (data_field (ev_data e) ''type'') (\<lambda>ty.
     Option.bind (react_child ty) (\<lambda>shown.
     Option.bind (react_child (prop_of (Some (ev_data e)) ''symbol'')) (\<lambda>symbol.
     Option.bind (localised (prop_of (Some (ev_data e)) ''price'')) (\<lambda>price.
     Option.bind (react_child (prop_of (Some (ev_data e)) ''reason'')) (\<lambda>reason.
     Option.bind (share_shown (prop_of (Some (ev_data e)) ''confidence'')) (\<lambda>confidence.
     Option.bind (shown_date guarded e) (\<lambda>d.
       Some \<lparr>xg_type = shown, xg_symbol = symbol, xg_price = price, xg_reason = reason, xg_confidence = confidence, xg_when = d\<rparr>)))))))"

definition cross_SignalsList :: "bool \<Rightarrow> log_event list \<Rightarrow> (nat \<times> cross_signal list) option" where
  "cross_SignalsList guarded signals = map_option (Pair (length signals)) (render_rows (cross_signal_row guarded) (rev (last_n 5 signals)))"

text \<open>An average that is absent or 0 is a dash.\<close>

definition average_cell :: "json option \<Rightarrow> json option option" where
  "average_cell v = (if truthy_value v then map_option Some (localised v) else Some None)"

text \<open>The row of the i-th price from the end has the i-th average from the end.\<close>

definition sma_beside :: "log_event list \<Rightarrow> nat \<Rightarrow> json option" where
  "sma_beside smas i = (if i < length smas then Some (ev_data (smas ! (length smas - 1 - i))) else None)"

record cross_line =
  xl_when :: "js_date option"
  xl_value :: json
  xl_change :: rat
  xl_short :: "json option"
  xl_long :: "json option"

definition cross_price_row :: "bool \<Rightarrow> log_event list \<Rightarrow> nat \<times> log_event \<Rightarrow> cross_line option" where
  "cross_price_row guarded smas r = (case r of (i, e) \<Rightarrow>
     Option.bind (data_field (ev_data e) ''change_pct'') (\<lambda>change.
     Option.bind (shown_date guarded e) (\<lambda>d.
     Option.bind (localised (prop_of (Some (ev_data e)) ''value'')) (\<lambda>v.
     Option.bind (fixed_number change) (\<lambda>change_pct.
     Option.bind (average_cell (prop_of (sma_beside smas i) ''short_sma'')) (\<lambda>a.
     Option.bind (average_cell (prop_of (sma_beside smas i) ''long_sma'')) (\<lambda>b.
       Some \<lparr>xl_when = d, xl_value = v, xl_change = change_pct, xl_short = a, xl_long = b\<rparr>)))))))"

definition cross_PriceHistory :: "bool \<Rightarrow> log_event list \<Rightarrow> log_event list \<Rightarrow> cross_line list option" where
  "cross_PriceHistory guarded prices smas = render_rows (cross_price_row guarded smas) (enumerate 0 (rev (last_n 20 prices)))"

record cross_view =
  xv_title :: string
  xv_prices :: nat
  xv_signals :: nat
  xv_card :: "cross_price option"
  xv_averages :: "cross_sma option"
  xv_recent :: "nat \<times> cross_signal list"
  xv_history :: "cross_line list"

definition cross_body :: "string \<Rightarrow> bool \<Rightarrow> log_event list \<Rightarrow> cross_view option" where
  "cross_body title guarded events = (let prices = filterByType events ''price''; smas = filterByType events ''sma''; signals = filterByType events ''signal'' in
     Option.bind (cross_PriceCard guarded (latest_of events ''price'')) (\<lambda>card.
     Option.bind (cross_SMACard (latest_of events ''sma'')) (\<lambda>averages.
     Option.bind (cross_SignalsList guarded signals) (\<lambda>recent.
     Option.bind (cross_PriceHistory guarded prices smas) (\<lambda>history.
       Some \<lparr>xv_title = title, xv_prices = length prices, xv_signals = length signals, xv_card = card, xv_averages = averages, xv_recent = recent,
         xv_history = history\<rparr>)))))"

definition rust_Dashboard :: "context_value \<Rightarrow> cross_view dashboard_view option" where
  "rust_Dashboard = dashboard (cross_body ''SMA Crossover Strategy (Rust)'' False)"

definition scala_Dashboard :: "context_value \<Rightarrow> cross_view dashboard_view option" where
  "scala_Dashboard = dashboard (cross_body ''SMA Crossover Strategy (Scala 3)'' False)"

definition csharp_Dashboard :: "context_value \<Rightarrow> cross_view dashboard_view option" where
  "csharp_Dashboard = dashboard (cross_body ''SMA Crossover Strategy'' False)"

definition cpp_Dashboard :: "context_value \<Rightarrow> cross_view dashboard_view option" where
  "cpp_Dashboard = dashboard (cross_body ''SMA Crossover Strategy (C++)'' True)"

section \<open>The scheduled crossover bot (haskell)\<close>

record run_price =
  rp_value :: json
  rp_change :: rat
  rp_symbol :: "json option"

definition run_PriceCard :: "log_event option \<Rightarrow> run_price option option" where
  "run_PriceCard price = (case price of None \<Rightarrow> Some None | Some e \<Rightarrow>
     Option.bind (data_field (ev_data e) ''change_pct'') (\<lambda>change.
     Option.bind (localised (prop_of (Some (ev_data e)) ''value'')) (\<lambda>v.
     Option.bind (fixed_number change) (\<lambda>change_pct.
     Option.bind (react_child (prop_of (Some (ev_data e)) ''symbol'')) (\<lambda>symbol.
       Some (Some \<lparr>rp_value = v, rp_change = change_pct, rp_symbol = symbol\<rparr>))))))"

definition run_SMACard :: "log_event option \<Rightarrow> cross_sma option option" where
  "run_SMACard sma = (case sma of None \<Rightarrow> Some None | Some e \<Rightarrow>
     Option.bind (data_field (ev_data e) ''short_sma'') (\<lambda>short.
     Option.bind (react_child (prop_of (Some (ev_data e)) ''short_period'')) (\<lambda>shortPeriod.
     Option.bind (localised short) (\<lambda>a.
     Option.bind (react_child (prop_of (Some (ev_data e)) ''long_period'')) (\<lambda>longPeriod.
     Option.bind (localised (prop_of (Some (ev_data e)) ''long_sma'')) (\<lambda>b.
       Some (Some \<lparr>xs_shortPeriod = shortPeriod, xs_short = a, xs_longPeriod = longPeriod, xs_long = b,
         xs_bullish = greater_number short (prop_of (Some (ev_data e)) ''long_sma'')\<rparr>)))))))"

record run_signal =
  rs_type :: "json option"
  rs_price :: json
  rs_confidence :: "json option"

definition run_SignalCard :: "log_event option \<Rightarrow> run_signal option option" where
  "run_SignalCard signal = (case signal of None \<Rightarrow> Some None | Some e \<Rightarrow>
     Option.bind (data_field (ev_data e) ''type'') (\<lambda>ty.
     Option.bind (react_child ty) (\<lambda>shown.
     Option.bind (localised (prop_of (Some (ev_data e)) ''price'')) (\<lambda>price.
     Option.bind (share_shown (prop_of (Some (ev_data e)) ''confidence'')) (\<lambda>confidence.
       Some (Some \<lparr>rs_type = shown, rs_price = price, rs_confidence = confidence\<rparr>))))))"

text \<open>\<open>runEvents.find\<close> of a metric, or of whatever has such a field; data that are null throw.\<close>

fun find_metric :: "string \<Rightarrow> string \<Rightarrow> log_event list \<Rightarrow> log_event option option" where
  "find_metric ty k [] = Some None"
| "find_metric ty k (e # es) = (if ev_data e = JNull then None
     else if prop_of (Some (ev_data e)) ''_metric'' = Some (JStr ty) \<or> truthy_value (prop_of (Some (ev_data e)) k) then Some (Some e)
     else find_metric ty k es)"

text \<open>The signal of a run: its type, and its confidence, 0 when there is none.\<close>

definition run_signal_cell :: "log_event option \<Rightarrow> (json option \<times> json option) option option" where
  "run_signal_cell signal = (case signal of None \<Rightarrow> Some None | Some e \<Rightarrow>
     Option.bind (react_child (prop_of (Some (ev_data e)) ''type'')) (\<lambda>shown.
     Option.bind (share_shown (case prop_of (Some (ev_data e)) ''confidence'' of None \<Rightarrow> Some (JNum 0) | Some JNull \<Rightarrow> Some (JNum 0) | Some v \<Rightarrow> Some v))
       (\<lambda>confidence. Some (Some (shown, confidence)))))"

record run_line =
  rl_when :: "js_date option"
  rl_symbol :: "json option"
  rl_value :: "json option"
  rl_signal :: "(json option \<times> json option) option"

definition run_row :: "log_event list \<Rightarrow> run_line option" where
  "run_row runEvents =
     Option.bind (find_metric ''price'' ''value'' runEvents) (\<lambda>priceEvent.
     Option.bind (find_metric ''signal'' ''type'' runEvents) (\<lambda>signalEvent.
     Option.bind (if runEvents = [] then Some None else map_option Some (ev_timestamp (hd runEvents))) (\<lambda>d.
     Option.bind (react_child (prop_of (map_option ev_data priceEvent) ''symbol'')) (\<lambda>symbol.
     Option.bind (localised_if (prop_of (map_option ev_data priceEvent) ''value'')) (\<lambda>v.
     Option.bind (run_signal_cell signalEvent) (\<lambda>signal.
       Some \<lparr>rl_when = d, rl_symbol = symbol, rl_value = v, rl_signal = signal\<rparr>))))))"

definition run_RunHistory :: "log_event list list \<Rightarrow> run_line list option" where
  "run_RunHistory runs = render_rows run_row (rev (last_n 10 runs))"

text \<open>The gap of five minutes that \<open>groupByRun\<close> takes without an argument.\<close>

definition default_gap :: int where
  "default_gap = 5 * 60 * 1000"

record runs_view =
  rv_runs :: nat
  rv_signals :: nat
  rv_price :: "run_price option"
  rv_averages :: "cross_sma option"
  rv_signal :: "run_signal option"
  rv_history :: "run_line list"

definition haskell_body :: "log_event list \<Rightarrow> runs_view option" where
  "haskell_body events = (let runs = groupByRun events default_gap in
     Option.bind (run_PriceCard (latest_of events ''price'')) (\<lambda>price.
     Option.bind (run_SMACard (latest_of events ''sma'')) (\<lambda>averages.
     Option.bind (run_SignalCard (latest_of events ''signal'')) (\<lambda>signal.
     Option.bind (run_RunHistory runs) (\<lambda>history.
       Some \<lparr>rv_runs = length runs, rv_signals = length (filterByType events ''signal''), rv_price = price, rv_averages = averages,
         rv_signal = signal, rv_history = history\<rparr>)))))"

definition haskell_Dashboard :: "context_value \<Rightarrow> runs_view dashboard_view option" where
  "haskell_Dashboard = dashboard haskell_body"

section \<open>The portfolio (python-portfolio-tracker)\<close>

record worth_line =
  wl_when :: js_date
  wl_value :: json
  wl_change :: rat

definition worth_row :: "log_event \<Rightarrow> worth_line option" where
  "worth_row e =
     Option.bind (data_field (ev_data e) ''change_pct'') (\<lambda>change.
     Option.bind (localised (prop_of (Some (ev_data e)) ''value'')) (\<lambda>v.
     Option.bind (fixed_number change) (\<lambda>change_pct.
     Option.bind (ev_timestamp e) (\<lambda>d. Some \<lparr>wl_when = d, wl_value = v, wl_change = change_pct\<rparr>))))"

definition PortfolioValueCard :: "log_event option \<Rightarrow> worth_line option option" where
  "PortfolioValueCard portfolio = (case portfolio of None \<Rightarrow> Some None | Some e \<Rightarrow> map_option Some (worth_row e))"

definition ValueHistory :: "log_event list \<Rightarrow> worth_line list option" where
  "ValueHistory = render_rows worth_row"

text \<open>\<open>latestPositions.set(data.symbol, p)\<close>: a list or an object as a key is equal to itself only.\<close>

definition set_position :: "json option \<Rightarrow> log_event \<Rightarrow> (json option \<times> log_event) list \<Rightarrow> (json option \<times> log_event) list" where
  "set_position k e m = (case k of Some (JArr _) \<Rightarrow> m @ [(k, e)] | Some (JObj _) \<Rightarrow> m @ [(k, e)] | _ \<Rightarrow> AList.update k e m)"

fun latest_positions :: "log_event list \<Rightarrow> (json option \<times> log_event) list \<Rightarrow> (json option \<times> log_event) list option" where
  "latest_positions [] m = Some m"
| "latest_positions (p # ps) m = Option.bind (data_field (ev_data p) ''symbol'') (\<lambda>k. latest_positions ps (set_position k p m))"

record position_line =
  po_symbol :: "json option"
  po_quantity :: "json option"
  po_price :: json
  po_value :: json

definition position_row :: "log_event \<Rightarrow> position_line option" where
  "position_row e =
     Option.bind (data_field (ev_data e) ''symbol'') (\<lambda>symbol.
     Option.bind (react_child symbol) (\<lambda>s.
     Option.bind (react_child (prop_of (Some (ev_data e)) ''quantity'')) (\<lambda>quantity.
     Option.bind (localised (prop_of (Some (ev_data e)) ''price'')) (\<lambda>price.
     Option.bind (localised (prop_of (Some (ev_data e)) ''value'')) (\<lambda>v.
       Some \<lparr>po_symbol = s, po_quantity = quantity, po_price = price, po_value = v\<rparr>)))))"

definition PositionsTable :: "log_event list \<Rightarrow> position_line list option" where
  "PositionsTable positions = Option.bind (latest_positions positions []) (\<lambda>m. render_rows position_row (map snd m))"

record trade_line =
  tl_when :: js_date
  tl_symbol :: "json option"
  tl_side :: string
  tl_quantity :: "json option"
  tl_price :: json
  tl_total :: json

definition trade_row :: "log_event \<Rightarrow> trade_line option" where
  "trade_row e =
     Option.bind (data_field (ev_data e) ''side'') (\<lambda>side.
     Option.bind (ev_timestamp e) (\<lambda>d.
     Option.bind (react_child (prop_of (Some (ev_data e)) ''symbol'')) (\<lambda>symbol.
     Option.bind (upper_text side) (\<lambda>s.
     Option.bind (react_child (prop_of (Some (ev_data e)) ''quantity'')) (\<lambda>quantity.
     Option.bind (localised (prop_of (Some (ev_data e)) ''price'')) (\<lambda>price.
     Option.bind (localised (prop_of (Some (ev_data e)) ''total'')) (\<lambda>amount.
       Some \<lparr>tl_when = d, tl_symbol = symbol, tl_side = s, tl_quantity = quantity, tl_price = price, tl_total = amount\<rparr>)))))))"

definition TradesTable :: "log_event list \<Rightarrow> trade_line list option" where
  "TradesTable trades = render_rows trade_row (rev trades)"

text \<open>How many runs, and the events of the first and of the last.\<close>

definition RunSummary :: "log_event list list \<Rightarrow> (nat \<times> nat \<times> nat) option" where
  "RunSummary runs = (if runs = [] then None else Some (length runs, length (hd runs), length (last runs)))"

record portfolio_view =
  pv_snapshots :: nat
  pv_trades :: nat
  pv_card :: "worth_line option"
  pv_history :: "worth_line list"
  pv_positions :: "position_line list"
  pv_recent :: "trade_line list"
  pv_summary :: "(nat \<times> nat \<times> nat) option"

definition portfolio_body :: "log_event list \<Rightarrow> portfolio_view option" where
  "portfolio_body events = (let portfolioValues = filterByType events ''portfolio_value''; trades = filterByType events ''trade'';
       positions = filterByType events ''position'' in
     Option.bind (PortfolioValueCard (latest_of events ''portfolio_value'')) (\<lambda>card.
     Option.bind (ValueHistory (last_n 10 portfolioValues)) (\<lambda>history.
     Option.bind (PositionsTable positions) (\<lambda>rows.
     Option.bind (TradesTable (last_n 10 trades)) (\<lambda>recent.
       Some \<lparr>pv_snapshots = length portfolioValues, pv_trades = length trades, pv_card = card, pv_history = history, pv_positions = rows,
         pv_recent = recent, pv_summary = RunSummary (groupByRun events default_gap)\<rparr>)))))"

definition portfolio_Dashboard :: "context_value \<Rightarrow> portfolio_view dashboard_view option" where
  "portfolio_Dashboard = dashboard portfolio_body"

section \<open>The boundary around a dashboard\<close>

text \<open>What is on the page: what the dashboard shows, or the panel with the button to try again. The state is \<open>hasError\<close>.\<close>

datatype 'v framed = Framed 'v | ErrorPanel

definition boundary_render :: "'v option \<Rightarrow> bool \<Rightarrow> 'v framed \<times> bool" where
  "boundary_render rendered hasError = (if hasError then (ErrorPanel, True) else case rendered of None \<Rightarrow> (ErrorPanel, True) | Some v \<Rightarrow> (Framed v, False))"

definition handleReset :: "bool \<Rightarrow> bool" where
  "handleReset hasError = False"

datatype boundary_event = NewEvents context_value | TryAgain

text \<open>Every change renders again; what is shown after each.\<close>

fun boundary_run :: "(context_value \<Rightarrow> 'v option) \<Rightarrow> context_value \<Rightarrow> bool \<Rightarrow> boundary_event list \<Rightarrow> 'v framed list" where
  "boundary_run board cv hasError [] = []"
| "boundary_run board cv hasError (NewEvents cv' # es) = (case boundary_render (board cv') hasError of (x, h) \<Rightarrow> x # boundary_run board cv' h es)"
| "boundary_run board cv hasError (TryAgain # es) = (case boundary_render (board cv) (handleReset hasError) of (x, h) \<Rightarrow> x # boundary_run board cv h es)"

section \<open>What the hook gives\<close>

lemma hook_events_dated: "e \<in> set (hook_events pe now logs) \<Longrightarrow> dated e"
  by (auto simp: hook_events_def Let_def sort_dates_def dated_def first_given_def split: if_splits option.splits)


section \<open>The lines of the bot\<close>




lemma save_same [simp]: "ru_out (snd (save_state env r)) = ru_out r" "ru_state (snd (save_state env r)) = ru_state r"
  by (simp_all add: save_state_def split: prod.split)


























text \<open>A price whose change is null makes the dashboard throw (\<open>cheap_price_sticks_at_zero\<close> in PriceAlerts: a bot can print it).\<close>

lemma null_change_throws:
  assumes "prop_of (Some (ev_data e)) ''change_pct'' = Some JNull"
  shows "alerts_price_row e = None" "alerts_PriceCard (Some e) = None"
  using assms by (auto simp: alerts_price_row_def alerts_PriceCard_def data_field_def fixed_number_def
      split: bind_splits option.splits if_splits)

lemma last_null_change_throws:
  assumes "filterByType es ''price'' \<noteq> []" "prop_of (Some (ev_data (last (filterByType es ''price'')))) ''change_pct'' = Some JNull"
  shows "alerts_body now es = None"
  using assms null_change_throws(2) [OF assms(2)]
  by (auto simp: alerts_body_def Let_def latest_of_def split: bind_splits)


















section \<open>The history of a crossover bot\<close>

text \<open>A round prints its price, and its averages if there are enough prices.\<close>

fun cross_round :: "log_event \<times> log_event option \<Rightarrow> log_event list" where
  "cross_round (p, None) = [p]"
| "cross_round (p, Some s) = [p, s]"

definition cross_events :: "log_event \<times> log_event option \<Rightarrow> bool" where
  "cross_events r \<longleftrightarrow> filterByType [fst r] ''price'' = [fst r] \<and> (case snd r of None \<Rightarrow> True | Some s \<Rightarrow> filterByType [s] ''sma'' = [s])"

lemma filterByType_append: "filterByType (es @ fs) t = filterByType es t @ filterByType fs t"
  by (simp add: filterByType_def)

lemma cross_by_type:
  "list_all cross_events rs \<Longrightarrow> filterByType (concat (map cross_round rs)) ''price'' = map fst rs"
  "list_all cross_events rs \<Longrightarrow> filterByType (concat (map cross_round rs)) ''sma'' = List.map_filter snd rs"
proof (induction rs)
  case Nil
  { case 1 then show ?case by (simp add: filterByType_def) }
  { case 2 then show ?case by (simp add: filterByType_def List.map_filter_def) }
next
  case (Cons r rs)
  obtain p s where r: "r = (p, s)" by (cases r)
  { case 1 then show ?case using Cons by (cases s) (auto simp: r cross_events_def filterByType_def split: if_splits) }
  { case 2 then show ?case using Cons by (cases s) (auto simp: r cross_events_def filterByType_def List.map_filter_def split: if_splits) }
qed

text \<open>The rows of the history pair a price with the averages of its own round, once the averages of the last round have arrived. In the
  time between the two lines, which the page shows as they arrive, every row has the averages of the round before its own.\<close>

theorem history_pairs_rounds:
  assumes "list_all cross_events (xs @ ys)" "list_all (\<lambda>r. snd r = None) xs" "list_all (\<lambda>r. snd r \<noteq> None) ys" "i < length (xs @ ys)"
    and "events = concat (map cross_round (xs @ ys))" "filterByType [p] ''price'' = [p]" "filterByType [p] ''sma'' = []"
  shows "rev (filterByType events ''price'') ! i = fst (rev (xs @ ys) ! i)
    \<and> sma_beside (filterByType events ''sma'') i = map_option ev_data (snd (rev (xs @ ys) ! i))
    \<and> rev (filterByType (events @ [p]) ''price'') ! i = (if i = 0 then p else fst (rev (xs @ ys) ! (i - 1)))
    \<and> sma_beside (filterByType (events @ [p]) ''sma'') i = map_option ev_data (snd (rev (xs @ ys) ! i))"
proof -
  have prices: "filterByType events ''price'' = map fst (xs @ ys)" and smas: "filterByType events ''sma'' = List.map_filter snd (xs @ ys)"
    unfolding assms(5) using cross_by_type [OF assms(1)] by simp_all
  have "List.map_filter snd xs = []" using assms(2) by (induction xs) (simp_all add: List.map_filter_def)
  moreover have "List.map_filter snd ys = map (\<lambda>r. the (snd r)) ys" using assms(3) by (induction ys) (auto simp: List.map_filter_def)
  ultimately have own: "filterByType events ''sma'' = map (\<lambda>r. the (snd r)) ys"
    unfolding smas by (simp add: List.map_filter_def)
  have beside: "sma_beside (filterByType events ''sma'') i = map_option ev_data (snd (rev (xs @ ys) ! i))"
  proof (cases "i < length ys")
    case True
    then have "snd (ys ! (length ys - Suc i)) \<noteq> None" using assms(3) by (simp add: list_all_length)
    then show ?thesis using True by (auto simp: own sma_beside_def rev_nth nth_append)
  next
    case False
    then have "rev xs ! (i - length ys) \<in> set xs" using assms(4) nth_mem [of "i - length ys" "rev xs"] by simp
    then have "snd (rev (xs @ ys) ! i) = None" using False assms(2) by (auto simp: nth_append list_all_iff)
    then show ?thesis using False by (simp add: own sma_beside_def)
  qed
  have first: "rev (map fst zs) ! j = fst (rev zs ! j)" if "j < length zs" for zs :: "(log_event \<times> log_event option) list" and j
    using that by (simp add: rev_map)
  show ?thesis
    using assms(4,6,7) beside first [of i "xs @ ys"] first [of "i - 1" "xs @ ys"]
    by (simp add: prices filterByType_append rev_append [of _ "[p]"] nth_Cons' del: rev_append map_append)
qed

section \<open>Positions and runs\<close>

definition text_symbol :: "log_event \<Rightarrow> bool" where
  "text_symbol p \<longleftrightarrow> (case prop_of (Some (ev_data p)) ''symbol'' of Some (JStr s) \<Rightarrow> True | _ \<Rightarrow> False)"

lemma latest_positions_run:
  assumes "list_all text_symbol ps"
  shows "\<exists>m'. latest_positions ps m = Some m' \<and> (distinct (map fst m) \<longrightarrow> distinct (map fst m'))
    \<and> (\<forall>k. map_of m' k = (let es = filter (\<lambda>p. prop_of (Some (ev_data p)) ''symbol'' = k) ps in if es = [] then map_of m k else Some (last es)))"
  using assms
proof (induction ps arbitrary: m)
  case (Cons p ps)
  obtain s where s: "prop_of (Some (ev_data p)) ''symbol'' = Some (JStr s)"
    using Cons.prems by (auto simp: text_symbol_def split: option.splits json.splits)
  then have "data_field (ev_data p) ''symbol'' = Some (Some (JStr s))" by (auto simp: data_field_def prop_of_def)
  then show ?case
    using Cons.IH [of "AList.update (Some (JStr s)) p m"] Cons.prems s
    by (fastforce simp: set_position_def update_conv' distinct_update Let_def)
qed simp

text \<open>Positions with texts as symbols: the table has one row for each symbol of the events, with the latest event of the symbol. So a
  position that the bot no longer reports stays in the table of current positions as long as the page has an event of it.\<close>

theorem positions_are_latest:
  assumes "list_all text_symbol ps"
  shows "\<exists>m. latest_positions ps [] = Some m \<and> distinct (map fst m)
    \<and> (\<forall>k. map_of m k = (let es = filter (\<lambda>p. prop_of (Some (ev_data p)) ''symbol'' = k) ps in if es = [] then None else Some (last es)))"
  using latest_positions_run [OF assms, of "[]"] unfolding Let_def map_of.simps(1) by auto

lemma run_loop_one: "successively (\<lambda>a b. \<not> new_run g a b) (prev # es) \<Longrightarrow> run_loop g prev cur runs es = runs @ [cur @ es]"
  by (induction es arbitrary: prev cur) simp_all

text \<open>As the page stamps the lines when it reads them, the dashboards of scheduled bots see one run, however many runs of the bot the lines are
  of: all that the page reads within five minutes.\<close>

theorem scheduled_runs_are_one:
  assumes "mono now" "\<forall>l\<in>set logs. plain_metric pe l" "logs \<noteq> []" "now (length logs) - now 0 \<le> default_gap"
  shows "groupByRun (hook_events pe now logs) default_gap = [hook_events pe now logs]"
    and "RunSummary (groupByRun (hook_events pe now logs) default_gap) = Some (1, length logs, length logs)"
proof -
  let ?es = "hook_events pe now logs"
  have es: "?es = map (\<lambda>(i, l). (parseLogLine pe (re_content l) None)\<lparr>ev_timestamp := Some (Some (now i))\<rparr>) (enumerate 0 logs)"
    by (rule hook_events_plain [OF assms(1,2)])
  have count: "length ?es = length logs" by (simp add: es)
  have at: "ev_timestamp (?es ! i) = Some (Some (now i))" if "i < length logs" for i using that by (simp add: es nth_enumerate_eq)
  have valid: "list_all valid_date ?es" "filter dated ?es = ?es"
    using at count by (auto simp: list_all_length valid_date_def in_time_def dated_def intro!: filter_True simp: in_set_conv_nth)
  have "map ev_time ?es = map now [0..<length logs]"
    by (rule nth_equalityI) (simp_all add: count ev_time_def at)
  then have "sorted (map ev_time ?es)" using assms(1) by (simp add: sorted_iff_nth_mono monoD)
  then have sorted: "sort_dates (filter dated ?es) = ?es" using valid by (simp add: sort_dates_def sort_key_id_if_sorted)
  have near: "now j - now i \<le> default_gap" if "j < length logs" for i j
    using monoD [OF assms(1), of j "length logs"] monoD [OF assms(1), of 0 i] that assms(4) by linarith
  have "\<not> new_run default_gap (?es ! i) (?es ! Suc i)" if "Suc i < length ?es" for i
    using near [of "Suc i" i] that by (simp add: count new_run_def in_time_def at)
  then have "successively (\<lambda>a b. \<not> new_run default_gap a b) ?es" by (simp add: successively_conv_nth)
  moreover obtain e es' where split: "?es = e # es'" using assms(3) count by (cases ?es) auto
  ultimately have "run_loop default_gap e [e] [] es' = [] @ [[e] @ es']" by (intro run_loop_one) simp
  then show one: "groupByRun ?es default_gap = [?es]" unfolding groupByRun_def sorted by (simp add: split)
  then show "RunSummary (groupByRun ?es default_gap) = Some (1, length logs, length logs)" by (simp add: RunSummary_def count)
qed

text \<open>A dashboard that has thrown is gone until the user tries again, whatever events arrive; then it is rendered with the latest.\<close>

theorem panel_stays_until_reset:
  assumes "board bad = None" "TryAgain \<notin> set es"
  shows "boundary_run board cv hasError (NewEvents bad # es) = replicate (Suc (length es)) ErrorPanel"
    and "board cv = Some v \<Longrightarrow> boundary_run board cv hasError [TryAgain] = [Framed v]"
proof -
  have "boundary_run board c True es = replicate (length es) ErrorPanel" for c
    using assms(2)
  proof (induction es arbitrary: c)
    case (Cons e es)
    then show ?case by (cases e) (simp_all add: boundary_render_def)
  qed simp
  then show "boundary_run board cv hasError (NewEvents bad # es) = replicate (Suc (length es)) ErrorPanel"
    using assms(1) by (simp add: boundary_render_def)
  show "board cv = Some v \<Longrightarrow> boundary_run board cv hasError [TryAgain] = [Framed v]"
    by (simp add: boundary_render_def handleReset_def)
qed

end
