(* ===== verification/Navigation.thy ===== *)
theory Navigation
  imports BotPages Settings
begin

text \<open>
  Where a visitor of the web client ends up: frontend/src/middleware.ts, the redirects of the pages under frontend/src/app (with
  auth/with-auth.tsx and the gates of the layouts), and the links of the navigation (layouts/dashboard-layout.tsx,
  main-navigation/sidebar.tsx, settings/layout.tsx). Which page a path belongs to follows from the directories; a path has no
  slash at its end. The redirects that follow an action on the page of an instance are in BotPanel; the one that follows a failed load is here,
  as if the visitor waited for it. Redirects of the router pass the middleware again, as those of the server do.
\<close>

section \<open>The middleware\<close>

text \<open>The paths that the pattern of \<open>config\<close> leaves out; its dot is any character.\<close>

definition left_out :: "string \<Rightarrow> bool" where
  "left_out p \<longleftrightarrow> js_starts_with p ''/api'' \<or> js_starts_with p ''/_next/static'' \<or> js_starts_with p ''/_next/image''
     \<or> js_starts_with p ''/favicon'' \<and> take 3 (drop 9 p) = ''ico''"

definition middleware :: "bool \<Rightarrow> string \<Rightarrow> string option" where
  "middleware maintenanceMode p =
     (if maintenanceMode \<and> \<not> js_starts_with p ''/maintenance'' then Some ''/maintenance''
      else if \<not> maintenanceMode \<and> js_starts_with p ''/maintenance'' then Some ''/''
      else None)"

definition middleware_redirect :: "bool \<Rightarrow> string \<Rightarrow> string option" where
  "middleware_redirect maintenanceMode p = (if left_out p then None else middleware maintenanceMode p)"

section \<open>The pages\<close>

datatype web_page = EntryPage | LoginPage | MaintenancePage | AboutPage | BotRedirect string | InstanceList | InstancePage string
  | UploadList | UploadPage string | ProfilePage | ApiSettingsPage | UsersPage | NoPage

definition route_of :: "string \<Rightarrow> web_page" where
  "route_of p = (case split_at (CHR ''/'') p of
      [[], x] \<Rightarrow> if x = [] then EntryPage else if x = ''login'' then LoginPage else if x = ''maintenance'' then MaintenancePage
        else if x = ''about'' then AboutPage else if x = ''dashboard'' then InstanceList else if x = ''custom-bots'' then UploadList else NoPage
    | [[], x, y] \<Rightarrow> if y = [] then NoPage else if x = ''bot'' then BotRedirect y else if x = ''dashboard'' then InstancePage y
        else if x = ''custom-bots'' then UploadPage y else if x = ''settings'' \<and> y = ''profile'' then ProfilePage
        else if x = ''settings'' \<and> y = ''api-settings'' then ApiSettingsPage else if x = ''settings'' \<and> y = ''users'' then UsersPage else NoPage
    | _ \<Rightarrow> NoPage)"

text \<open>What the redirects depend on: the configuration, the session (\<open>vs_role\<close> is None for nobody), the two lists of bots with
  their loading state, and the instances whose load ends with "Bot not found" or "Unauthorized access".\<close>

record visitor =
  vs_maintenance :: bool
  vs_loading :: bool
  vs_role :: "string option"
  vs_desktop :: "bool option"
  vs_botsLoading :: bool
  vs_bots :: "string list"
  vs_uploadsLoading :: bool
  vs_uploads :: "string list"
  vs_denied :: "string \<Rightarrow> bool"

definition has_session :: "visitor \<Rightarrow> bool" where
  "has_session v \<longleftrightarrow> vs_role v \<noteq> None"

definition entry_redirect :: "visitor \<Rightarrow> string option" where
  "entry_redirect v = (if vs_loading v then None else if has_session v then Some ''/dashboard'' else Some ''/login'')"

definition login_redirect :: "visitor \<Rightarrow> string option" where
  "login_redirect v = (if \<not> vs_loading v \<and> has_session v then Some ''/dashboard'' else None)"

text \<open>\<open>withAuth\<close>: the effect, and whether the page is rendered.\<close>

definition withAuth :: "visitor \<Rightarrow> string option \<times> bool" where
  "withAuth v = ((if \<not> vs_loading v \<and> \<not> has_session v then Some ''/login'' else None), \<not> (vs_loading v \<or> \<not> has_session v))"

definition users_redirect :: "visitor \<Rightarrow> string option" where
  "users_redirect v = (if vs_loading v then None else if \<not> has_session v then Some ''/login''
     else if vs_role v \<noteq> Some ''admin'' then Some ''/settings/profile'' else None)"

text \<open>A page behind the gate of its layout is mounted once somebody is signed in.\<close>

definition behind_gate :: "visitor \<Rightarrow> string option \<Rightarrow> string option" where
  "behind_gate v inner = (case auth_gate (has_session v) (vs_loading v) of (r, mounted) \<Rightarrow> if mounted then inner else r)"

text \<open>Two seconds after its load has failed that way the page of an instance gives up.\<close>

definition instance_page_redirect :: "visitor \<Rightarrow> string \<Rightarrow> string option" where
  "instance_page_redirect v b = (if vs_denied v b then Some ''/dashboard'' else None)"

text \<open>While the session is loaded \<open>AuthProvider\<close> renders nothing; the redirect of app/bot is that of the server.\<close>

definition page_redirect :: "visitor \<Rightarrow> string \<Rightarrow> string option" where
  "page_redirect v p = (case route_of p of
      BotRedirect b \<Rightarrow> Some (instance_path b)
    | EntryPage \<Rightarrow> entry_redirect v
    | LoginPage \<Rightarrow> login_redirect v
    | InstanceList \<Rightarrow> behind_gate v (list_page_redirect instance_path (vs_desktop v) (vs_botsLoading v) (vs_bots v))
    | InstancePage b \<Rightarrow> behind_gate v (instance_page_redirect v b)
    | UploadList \<Rightarrow> behind_gate v (list_page_redirect custom_bot_path (vs_desktop v) (vs_uploadsLoading v) (vs_uploads v))
    | UploadPage n \<Rightarrow> behind_gate v None
    | ProfilePage \<Rightarrow> fst (withAuth v)
    | ApiSettingsPage \<Rightarrow> fst (withAuth v)
    | UsersPage \<Rightarrow> users_redirect v
    | _ \<Rightarrow> None)"

definition next_path :: "visitor \<Rightarrow> string \<Rightarrow> string option" where
  "next_path v p = first_given (middleware_redirect (vs_maintenance v) p) (page_redirect v p)"

text \<open>Whether a page behind the session is rendered.\<close>

definition page_rendered :: "visitor \<Rightarrow> string \<Rightarrow> bool" where
  "page_rendered v p = (case route_of p of
      InstanceList \<Rightarrow> snd (auth_gate (has_session v) (vs_loading v)) | InstancePage b \<Rightarrow> snd (auth_gate (has_session v) (vs_loading v))
    | UploadList \<Rightarrow> snd (auth_gate (has_session v) (vs_loading v)) | UploadPage n \<Rightarrow> snd (auth_gate (has_session v) (vs_loading v))
    | ProfilePage \<Rightarrow> snd (withAuth v) | ApiSettingsPage \<Rightarrow> snd (withAuth v)
    | UsersPage \<Rightarrow> \<not> (vs_loading v \<or> \<not> has_session v \<or> vs_role v \<noteq> Some ''admin'')
    | _ \<Rightarrow> \<not> vs_loading v)"

section \<open>The links\<close>

definition navigation_items :: "visitor \<Rightarrow> (string \<times> string) list" where
  "navigation_items v = [(''Dashboard'', ''/dashboard''), (''Custom Bots'', ''/custom-bots'')]
     @ (if vs_role v = Some ''admin'' then [(''Users'', ''/settings/users'')] else [])"

definition item_active :: "string \<Rightarrow> string \<Rightarrow> bool" where
  "item_active currentPath href \<longleftrightarrow> currentPath = href \<or> js_starts_with currentPath (href @ ''/'')"

definition settings_links :: "visitor \<Rightarrow> (string \<times> string) list" where
  "settings_links v = [(''Profile'', ''/settings/profile''), (''API'', ''/settings/api-settings'')]
     @ (if vs_role v = Some ''admin'' then [(''Users'', ''/settings/users'')] else [])"

definition empty_state_links :: "(string \<times> string) list" where
  "empty_state_links = [(''View My Bots'', ''/user-bots''), (''Custom Bots'', ''/custom-bots'')]"

section \<open>Redirects end\<close>

lemma path_of_route:
  assumes "split_at (CHR ''/'') p = xs"
  shows "p = js_join ''/'' xs"
  using js_join_split_at [of "CHR ''/''" p] assms by simp

lemma route_path:
  "route_of p = EntryPage \<Longrightarrow> p = ''/''" "route_of p = LoginPage \<Longrightarrow> p = ''/login''" "route_of p = InstanceList \<Longrightarrow> p = ''/dashboard''"
  "route_of p = UploadList \<Longrightarrow> p = ''/custom-bots''" "route_of p = UsersPage \<Longrightarrow> p = ''/settings/users''"
  "route_of p = ProfilePage \<Longrightarrow> p = ''/settings/profile''" "route_of p = ApiSettingsPage \<Longrightarrow> p = ''/settings/api-settings''"
  "route_of p = BotRedirect b \<Longrightarrow> p = ''/bot/'' @ b" "route_of p = InstancePage b \<Longrightarrow> p = ''/dashboard/'' @ b"
  "route_of p = UploadPage b \<Longrightarrow> p = ''/custom-bots/'' @ b"
  using path_of_route [OF refl, of p] by (auto simp: route_of_def split: list.splits if_splits)

lemma route_targets [simp]:
  "route_of ''/'' = EntryPage" "route_of ''/login'' = LoginPage" "route_of ''/dashboard'' = InstanceList" "route_of ''/maintenance'' = MaintenancePage"
  "route_of ''/settings/profile'' = ProfilePage" "route_of ''/settings/users'' = UsersPage" "route_of ''/custom-bots'' = UploadList"
  "route_of ''/settings/api-settings'' = ApiSettingsPage" "route_of ''/user-bots'' = NoPage"
  by code_simp+

lemma split_no_slash: "split_at c y = [x] \<Longrightarrow> x = y"
  using js_join_split_at [of c y] by simp

lemma route_below:
  "route_of (instance_path b) = NoPage \<or> route_of (instance_path b) = InstancePage b"
  "route_of (custom_bot_path n) = NoPage \<or> (\<exists>y. route_of (custom_bot_path n) = UploadPage y)"
proof -
  obtain x xs where b: "split_at (CHR ''/'') b = x # xs" by (cases "split_at (CHR ''/'') b") simp_all
  show "route_of (instance_path b) = NoPage \<or> route_of (instance_path b) = InstancePage b"
    using split_no_slash [of "CHR ''/''" b x] b
    by (cases xs) (simp_all add: route_of_def instance_path_def)
  show "route_of (custom_bot_path n) = NoPage \<or> (\<exists>y. route_of (custom_bot_path n) = UploadPage y)"
    by (cases "split_at (CHR ''/'') (encodeURIComponent n)"; simp add: route_of_def custom_bot_path_def split: list.split)
qed

text \<open>What the end of the redirects needs: on a wide screen the instance shown first can be loaded.\<close>

definition first_loads :: "visitor \<Rightarrow> bool" where
  "first_loads v \<longleftrightarrow> (case vs_bots v of b # _ \<Rightarrow> vs_desktop v = Some True \<longrightarrow> \<not> vs_denied v b | [] \<Rightarrow> True)"

definition rank :: "visitor \<Rightarrow> string \<Rightarrow> nat" where
  "rank v p = (if middleware_redirect (vs_maintenance v) p \<noteq> None then 6 else case route_of p of
       EntryPage \<Rightarrow> 5 | LoginPage \<Rightarrow> if has_session v then 4 else 0 | BotRedirect b \<Rightarrow> 4
     | InstancePage b \<Rightarrow> if vs_denied v b then 3 else 1 | InstanceList \<Rightarrow> 2 | UploadList \<Rightarrow> 2 | UsersPage \<Rightarrow> 2
     | NoPage \<Rightarrow> 0 | MaintenancePage \<Rightarrow> 0 | AboutPage \<Rightarrow> 0 | _ \<Rightarrow> 1)"

text \<open>The middleware takes part in the first redirect only: the pages send nobody to a path that it redirects.\<close>

lemma known_path:
  assumes "page_redirect v p = Some q"
  shows "\<not> left_out p" "\<not> js_starts_with p ''/maintenance''"
  using assms route_path [of p]
  by (auto simp: page_redirect_def left_out_def js_starts_with_def split: web_page.splits)

text \<open>Where the pages send a visitor to.\<close>

lemma redirect_targets:
  assumes "page_redirect v p = Some q"
  shows "q = ''/dashboard'' \<and> has_session v \<or> q = ''/login'' \<and> \<not> has_session v \<or> q = ''/settings/profile'' \<or> (\<exists>b. q = instance_path b) \<or> (\<exists>n. q = custom_bot_path n)"
  using assms
  by (auto simp: page_redirect_def entry_redirect_def login_redirect_def behind_gate_def auth_gate_def list_page_redirect_def withAuth_def
      users_redirect_def instance_page_redirect_def split: web_page.splits if_splits)

lemmas redirect_eval = page_redirect_def entry_redirect_def login_redirect_def behind_gate_def auth_gate_def list_page_redirect_def
  withAuth_def users_redirect_def instance_page_redirect_def instance_path_def custom_bot_path_def

lemma target_kept:
  assumes "page_redirect v p = Some q"
  shows "middleware_redirect False q = None"
  using redirect_targets [OF assms]
  by (auto simp: middleware_redirect_def middleware_def js_starts_with_def instance_path_def custom_bot_path_def)

lemma rank_below:
  assumes "\<not> vs_maintenance v"
  shows "rank v (instance_path b) \<le> (if vs_denied v b then 3 else 1)" "rank v (custom_bot_path n) \<le> 1"
proof -
  have "middleware_redirect False (instance_path b) = None" "middleware_redirect False (custom_bot_path n) = None"
    by (simp_all add: middleware_redirect_def middleware_def js_starts_with_def instance_path_def custom_bot_path_def)
  then show "rank v (instance_path b) \<le> (if vs_denied v b then 3 else 1)" "rank v (custom_bot_path n) \<le> 1"
    using route_below(1) [of b] route_below(2) [of n] assms by (auto simp: rank_def)
qed

text \<open>The pages that send a visitor on, by where they send him.\<close>

lemma redirect_kinds:
  assumes "page_redirect v p = Some q"
  shows "route_of p = EntryPage \<and> (q = ''/dashboard'' \<or> q = ''/login'' \<and> \<not> has_session v)
    \<or> route_of p = LoginPage \<and> has_session v \<and> q = ''/dashboard''
    \<or> (\<exists>b. route_of p = BotRedirect b \<and> q = instance_path b)
    \<or> (\<exists>b. route_of p = InstancePage b \<and> vs_denied v b \<and> q = ''/dashboard'')
    \<or> route_of p = InstanceList \<and> vs_desktop v = Some True \<and> (\<exists>b bs. vs_bots v = b # bs \<and> q = instance_path b)
    \<or> route_of p = UploadList \<and> (\<exists>n. q = custom_bot_path n)
    \<or> route_of p = UsersPage \<and> q = ''/settings/profile''
    \<or> route_of p \<in> {InstanceList, UploadList, UsersPage, ProfilePage, ApiSettingsPage} \<union> range InstancePage \<union> range UploadPage
        \<and> q = ''/login'' \<and> \<not> has_session v"
  using assms
  by (cases "route_of p"; cases "vs_bots v"; auto simp: page_redirect_def entry_redirect_def login_redirect_def behind_gate_def
      auth_gate_def list_page_redirect_def withAuth_def users_redirect_def instance_page_redirect_def split: if_splits)

lemma redirect_rank:
  assumes "page_redirect v p = Some q" "\<not> vs_maintenance v" "middleware_redirect False p = None" "first_loads v"
  shows "rank v q < rank v p"
proof -
  note below = rank_below [OF assms(2)]
  have p: "rank v p = (case route_of p of EntryPage \<Rightarrow> 5 | LoginPage \<Rightarrow> if has_session v then 4 else 0 | BotRedirect b \<Rightarrow> 4
     | InstancePage b \<Rightarrow> if vs_denied v b then 3 else 1 | InstanceList \<Rightarrow> 2 | UploadList \<Rightarrow> 2 | UsersPage \<Rightarrow> 2
     | NoPage \<Rightarrow> 0 | MaintenancePage \<Rightarrow> 0 | AboutPage \<Rightarrow> 0 | _ \<Rightarrow> 1)"
    using assms(2,3) by (simp add: rank_def)
  have known: "rank v ''/dashboard'' = 2" "rank v ''/settings/profile'' = 1" "\<not> has_session v \<Longrightarrow> rank v ''/login'' = 0"
    using assms(2) by (simp_all add: rank_def middleware_redirect_def middleware_def js_starts_with_def)
  have first: "rank v (instance_path b) < 2" if "vs_bots v = b # bs" "vs_desktop v = Some True" for b bs
    using assms(4) below(1) [of b] that by (simp add: first_loads_def)
  have any: "rank v (instance_path b) < 4" "rank v (custom_bot_path n) < 2" for b n
    using below(1) [of b] below(2) [of n] by (auto split: if_splits)
  show ?thesis
    using redirect_kinds [OF assms(1)]
  proof (elim disjE conjE exE UnE, goal_cases)
    case (9)
    then show ?case by (auto simp: p known)
  qed (auto simp: p known first any)
qed

lemma next_rank:
  assumes "next_path v p = Some q" "first_loads v"
  shows "rank v q < rank v p"
proof (cases "middleware_redirect (vs_maintenance v) p")
  case None
  then have page: "page_redirect v p = Some q" using assms by (simp add: next_path_def first_given_def)
  then have "\<not> vs_maintenance v" using None known_path [OF page] by (simp add: middleware_redirect_def middleware_def split: if_splits)
  then show ?thesis using redirect_rank [OF page] None assms(2) by simp
next
  case (Some q')
  then have "rank v p = 6" "q = q'" using assms by (simp_all add: rank_def next_path_def first_given_def)
  moreover have "rank v q' < 6"
  proof -
    have "q' = (if vs_maintenance v then ''/maintenance'' else ''/'')" using Some by (auto simp: middleware_redirect_def middleware_def split: if_splits)
    then show ?thesis by (simp add: rank_def middleware_redirect_def middleware_def js_starts_with_def)
  qed
  ultimately show ?thesis by simp
qed

text \<open>Following the redirects; None when they do not end.\<close>

partial_function (option) follow_redirects :: "visitor \<Rightarrow> string \<Rightarrow> string option" where
  "follow_redirects v p = (case next_path v p of None \<Rightarrow> Some p | Some q \<Rightarrow> follow_redirects v q)"

lemma follow_end:
  assumes "follow_redirects v p = Some q"
  shows "next_path v q = None"
proof -
  have "\<And>v p q. follow_redirects v p = Some q \<Longrightarrow> next_path v q = None"
    by (erule follow_redirects.raw_induct [rotated]) (auto split: option.splits)
  then show ?thesis using assms by blast
qed

lemma follow_ends:
  assumes "first_loads v"
  shows "\<exists>q. follow_redirects v p = Some q"
proof (induction p rule: measure_induct_rule [of "rank v"])
  case (less p)
  then show ?case using next_rank [OF _ assms] by (cases "next_path v p") (simp_all add: follow_redirects.simps [of v p])
qed

text \<open>A page that is not redirected from is rendered, unless the session is still loaded.\<close>

lemma stays_rendered:
  assumes "next_path v p = None" "\<not> vs_loading v"
  shows "page_rendered v p"
  using assms by (auto simp: next_path_def first_given_def page_rendered_def redirect_eval split: web_page.splits if_splits option.splits)

text \<open>C38. If on a wide screen the instance shown first can be loaded, the redirects of the middleware and of the pages end for
  whatever path a visitor asks for. Once the session is known they end on a page that is rendered, and not on one that only shows
  nothing; pages of bots and settings are reached by signed-in users only, the page of users by administrators only. Under
  maintenance a path that the middleware sees ends on /maintenance, except the paths that begin with /maintenance themselves,
  which stay where they are.\<close>

theorem navigation_settles:
  assumes "first_loads v"
  shows "\<exists>q. follow_redirects v p = Some q \<and> next_path v q = None \<and> (if vs_loading v then True else page_rendered v q)
    \<and> (case route_of q of UsersPage \<Rightarrow> page_rendered v q = (\<not> vs_loading v \<and> vs_role v = Some ''admin'')
        | InstanceList \<Rightarrow> page_rendered v q = (\<not> vs_loading v \<and> has_session v) | InstancePage b \<Rightarrow> page_rendered v q = (\<not> vs_loading v \<and> has_session v)
        | UploadList \<Rightarrow> page_rendered v q = (\<not> vs_loading v \<and> has_session v) | UploadPage n \<Rightarrow> page_rendered v q = (\<not> vs_loading v \<and> has_session v)
        | ProfilePage \<Rightarrow> page_rendered v q = (\<not> vs_loading v \<and> has_session v) | ApiSettingsPage \<Rightarrow> page_rendered v q = (\<not> vs_loading v \<and> has_session v) | _ \<Rightarrow> True)
    \<and> (if vs_maintenance v then q = (if left_out p \<or> js_starts_with p ''/maintenance'' then p else ''/maintenance'') else True)"
proof -
  have seen: "follow_redirects v p = Some (if left_out p \<or> js_starts_with p ''/maintenance'' then p else ''/maintenance'')" if m: "vs_maintenance v"
  proof (cases "left_out p \<or> js_starts_with p ''/maintenance''")
    case True
    then have "page_redirect v p = None" "middleware_redirect True p = None"
      using known_path [of v p] by (cases "page_redirect v p"; force simp: middleware_redirect_def middleware_def)+
    then have "next_path v p = None" using m by (simp add: next_path_def first_given_def)
    then show ?thesis using True by (simp add: follow_redirects.simps)
  next
    case False
    then have first: "next_path v p = Some ''/maintenance''" using m
      by (simp add: next_path_def first_given_def middleware_redirect_def middleware_def)
    have "page_redirect v ''/maintenance'' = None" "middleware_redirect True ''/maintenance'' = None"
      by (simp_all add: page_redirect_def middleware_redirect_def middleware_def js_starts_with_def)
    then have "follow_redirects v ''/maintenance'' = Some ''/maintenance''" using m by (simp add: follow_redirects.simps next_path_def first_given_def)
    then show ?thesis using first False by (simp add: follow_redirects.simps [of v p])
  qed
  obtain q where q: "follow_redirects v p = Some q" using follow_ends [OF assms] by blast
  have "page_rendered v q" if "\<not> vs_loading v" by (rule stays_rendered [OF follow_end [OF q] that])
  then show ?thesis
    using follow_end [OF q] seen by (auto simp: q page_rendered_def withAuth_def auth_gate_def has_session_def split: web_page.splits)
qed

definition demo_visitor :: visitor where
  "demo_visitor = \<lparr>vs_maintenance = False, vs_loading = False, vs_role = Some ''user'', vs_desktop = Some True, vs_botsLoading = False,
     vs_bots = [''b1'', ''b2''], vs_uploadsLoading = False, vs_uploads = [], vs_denied = (\<lambda>b. b = ''b2'')\<rparr>"

text \<open>The second instance is gone: its page sends back to the list, which sends on to the first.\<close>

theorem navigation_settles_witness:
  "follow_redirects demo_visitor ''/dashboard/b2'' = Some ''/dashboard/b1'' \<and> page_rendered demo_visitor ''/dashboard/b1''"
proof -
  have "next_path demo_visitor ''/dashboard/b2'' = Some ''/dashboard''" "next_path demo_visitor ''/dashboard'' = Some ''/dashboard/b1''"
    "next_path demo_visitor ''/dashboard/b1'' = None"
    by code_simp+
  then have run: "follow_redirects demo_visitor ''/dashboard/b2'' = Some ''/dashboard/b1''"
    by (simp add: follow_redirects.simps)
  have "first_loads demo_visitor" by code_simp
  from navigation_settles [OF this, of "''/dashboard/b2''"] show ?thesis using run by (simp add: demo_visitor_def)
qed

text \<open>If the instance shown first cannot be loaded (it was deleted since the list was), list and page send to each other for ever.\<close>

lemma lists_and_page_cycle:
  assumes "\<not> vs_maintenance v" "\<not> vs_loading v" "has_session v" "vs_desktop v = Some True" "\<not> vs_botsLoading v"
    "vs_bots v = b # bs" "vs_denied v b" "route_of (instance_path b) = InstancePage b"
  shows "follow_redirects v ''/dashboard'' = None"
proof -
  have cycle: "next_path v ''/dashboard'' = Some (instance_path b)" "next_path v (instance_path b) = Some ''/dashboard''"
    using assms by (simp_all add: next_path_def first_given_def page_redirect_def behind_gate_def auth_gate_def list_page_redirect_def
        instance_page_redirect_def middleware_redirect_def middleware_def js_starts_with_def instance_path_def)
  have "\<And>v' p q. follow_redirects v' p = Some q \<Longrightarrow> v' = v \<longrightarrow> p \<noteq> ''/dashboard'' \<and> p \<noteq> instance_path b"
    by (erule follow_redirects.raw_induct [rotated]) (use cycle in \<open>auto split: option.splits\<close>)
  then show ?thesis by (cases "follow_redirects v ''/dashboard''") auto
qed

text \<open>Every link that is shown to a user leads to a page of its section.\<close>

theorem links_lead_there:
  assumes "\<not> vs_maintenance v" "\<not> vs_loading v" "has_session v" "(name, href) \<in> set (navigation_items v) \<union> set (settings_links v)"
    and "first_loads v"
  shows "\<exists>q. follow_redirects v href = Some q \<and> item_active q href"
proof -
  have stay: "follow_redirects v q = Some q" if "next_path v q = None" for q using that by (simp add: follow_redirects.simps)
  have kept: "middleware_redirect False ''/dashboard'' = None" "middleware_redirect False ''/custom-bots'' = None" "middleware_redirect False ''/settings/users'' = None"
    "middleware_redirect False ''/settings/profile'' = None" "middleware_redirect False ''/settings/api-settings'' = None"
    by (simp_all add: middleware_redirect_def middleware_def js_starts_with_def)
  have ends: "\<not> vs_denied v b \<Longrightarrow> next_path v (instance_path b) = None" "next_path v (custom_bot_path n) = None" for b n
    using route_below(1) [of b] route_below(2) [of n] assms(1-3)
    by (auto simp: next_path_def first_given_def page_redirect_def behind_gate_def auth_gate_def middleware_redirect_def middleware_def js_starts_with_def
        instance_page_redirect_def instance_path_def custom_bot_path_def)
  have below: "item_active (instance_path b) ''/dashboard''" "item_active (custom_bot_path n) ''/custom-bots''"
    "item_active h h" for b n h
    by (simp_all add: item_active_def js_starts_with_def instance_path_def custom_bot_path_def)
  have dashboard: "\<exists>q. follow_redirects v ''/dashboard'' = Some q \<and> item_active q ''/dashboard''"
  proof (cases "next_path v ''/dashboard''")
    case (Some q)
    then obtain b where "q = instance_path b" "\<not> vs_denied v b"
      using assms(1-3,5) kept by (cases "vs_bots v")
        (auto simp: next_path_def first_given_def page_redirect_def behind_gate_def auth_gate_def list_page_redirect_def first_loads_def split: if_splits)
    then show ?thesis using Some stay [OF ends(1)] below(1) by (simp add: follow_redirects.simps [of v "''/dashboard''"])
  qed (use stay below(3) in blast)
  have uploads: "\<exists>q. follow_redirects v ''/custom-bots'' = Some q \<and> item_active q ''/custom-bots''"
  proof (cases "next_path v ''/custom-bots''")
    case (Some q)
    then obtain n where "q = custom_bot_path n"
      using assms(1-3) kept
      by (auto simp: next_path_def first_given_def page_redirect_def behind_gate_def auth_gate_def list_page_redirect_def split: if_splits)
    then show ?thesis using Some stay [OF ends(2)] below(2) by (simp add: follow_redirects.simps [of v "''/custom-bots''"])
  qed (use stay below(3) in blast)
  have settings: "next_path v ''/settings/profile'' = None" "next_path v ''/settings/api-settings'' = None"
    "vs_role v = Some ''admin'' \<Longrightarrow> next_path v ''/settings/users'' = None"
    using assms(1-3) kept by (simp_all add: next_path_def first_given_def page_redirect_def withAuth_def users_redirect_def)
  consider "href = ''/dashboard''" | "href = ''/custom-bots''" | "next_path v href = None"
    using assms(4) settings by (auto simp: navigation_items_def settings_links_def split: if_splits)
  then show ?thesis using dashboard uploads stay below(3) by cases blast+
qed

text \<open>But a user without instances is offered a link to a page that does not exist.\<close>

lemma empty_state_link_is_dead: "map (\<lambda>(name, href). route_of href = NoPage) empty_state_links = [True, False]"
  by (simp add: empty_state_links_def)

end
