(* ===== verification/UsersTable.thy ===== *)
theory UsersTable
  imports Settings
begin

text \<open>
  components/settings/users/users-table.tsx: the fields in which an administrator types new passwords, one for each user, and the button
  that resets. The request is that of the page (\<open>handleResetPassword\<close> of Settings); here it is an event when it is answered. A field that
  was never typed in is empty.
\<close>

record users_table =
  ut_resetPasswords :: "(string \<times> string) list"
  ut_waiting :: "(string \<times> string) list"
  ut_sent :: "(string \<times> string) list"

datatype table_event = TypePassword string string | ClickReset string | ResetAnswered nat bool

definition typed_password :: "users_table \<Rightarrow> string \<Rightarrow> string" where
  "typed_password t u = or_else (map_of (ut_resetPasswords t) u) []"

definition set_typed :: "string \<Rightarrow> string \<Rightarrow> users_table \<Rightarrow> users_table" where
  "set_typed u s t = t\<lparr>ut_resetPasswords := AList.update u s (ut_resetPasswords t)\<rparr>"

text \<open>\<open>handleResetPassword\<close> up to its await, and after it.\<close>

definition start_reset :: "string \<Rightarrow> users_table \<Rightarrow> users_table" where
  "start_reset u t = (let password = typed_password t u in
     if \<not> truthy password then t else t\<lparr>ut_waiting := ut_waiting t @ [(u, password)], ut_sent := ut_sent t @ [(u, password)]\<rparr>)"

definition end_reset :: "nat \<Rightarrow> bool \<Rightarrow> users_table \<Rightarrow> users_table" where
  "end_reset i didReset t = (if i < length (ut_waiting t)
     then let u = fst (ut_waiting t ! i); t' = t\<lparr>ut_waiting := take i (ut_waiting t) @ drop (Suc i) (ut_waiting t)\<rparr> in
       if didReset then set_typed u [] t' else t'
     else t)"

text \<open>Field and button of the configured root administrator are disabled.\<close>

fun users_step :: "(string \<Rightarrow> bool) \<Rightarrow> table_event \<Rightarrow> users_table \<Rightarrow> users_table" where
  "users_step isRoot (TypePassword u s) t = (if isRoot u then t else set_typed u s t)"
| "users_step isRoot (ClickReset u) t = (if isRoot u then t else start_reset u t)"
| "users_step isRoot (ResetAnswered i ok) t = end_reset i ok t"

fun users_run :: "(string \<Rightarrow> bool) \<Rightarrow> table_event list \<Rightarrow> users_table \<Rightarrow> users_table" where
  "users_run isRoot [] t = t"
| "users_run isRoot (e # es) t = users_run isRoot es (users_step isRoot e t)"

definition empty_table :: users_table where
  "empty_table = \<lparr>ut_resetPasswords = [], ut_waiting = [], ut_sent = []\<rparr>"

section \<open>What is sent\<close>

text \<open>The texts of the table were typed for their users.\<close>

definition from_typing :: "(string \<Rightarrow> bool) \<Rightarrow> table_event list \<Rightarrow> users_table \<Rightarrow> bool" where
  "from_typing isRoot past t \<longleftrightarrow> (\<forall>u s. map_of (ut_resetPasswords t) u = Some s \<longrightarrow> s = [] \<or> TypePassword u s \<in> set past)
     \<and> (\<forall>(u, s)\<in>set (ut_sent t). s \<noteq> [] \<and> TypePassword u s \<in> set past \<and> \<not> isRoot u)"

lemma step_from_typing: "from_typing isRoot past t \<Longrightarrow> from_typing isRoot (past @ [e]) (users_step isRoot e t)"
  by (cases e) (auto simp: from_typing_def set_typed_def start_reset_def end_reset_def typed_password_def or_else_def Let_def update_conv'
      split: if_splits option.splits)

lemma run_from_typing: "from_typing isRoot past t \<Longrightarrow> from_typing isRoot (past @ es) (users_run isRoot es t)"
proof (induction es arbitrary: past t)
  case (Cons e es)
  then show ?case using Cons.IH [OF step_from_typing [OF Cons.prems, of e]] by simp
qed simp

text \<open>A reset sends a text that was typed for its user, never an empty one, and never for the configured root administrator.\<close>

theorem resets_were_typed:
  "list_all (\<lambda>(u, s). s \<noteq> [] \<and> TypePassword u s \<in> set es \<and> \<not> isRoot u) (ut_sent (users_run isRoot es empty_table))"
  using run_from_typing [of isRoot "[]" empty_table es] by (auto simp: from_typing_def empty_table_def list_all_iff)

text \<open>A reset that succeeds empties the field of its user: a text that was typed while it was under way is lost, and the next click does nothing.\<close>

theorem typing_during_reset_is_lost:
  assumes "\<not> isRoot u" "s \<noteq> []"
  shows "let t = users_run isRoot [TypePassword u s, ClickReset u, TypePassword u s', ResetAnswered 0 True, ClickReset u] empty_table in
    ut_sent t = [(u, s)] \<and> typed_password t u = []"
  using assms by (simp add: Let_def set_typed_def start_reset_def end_reset_def typed_password_def or_else_def empty_table_def update_conv' split: option.splits)

end
