(* ===== verification/Spec2Isabelle.thy ===== *)
theory Spec2Isabelle
  imports LockProtocol AdminBootstrap AuthGuards CustomBotFiles StateLocking LogStream Mcp EventUtils LiveView SseClient BrowserRoutes RouteStreams SdkState SdkQuery SdkEvents ApiPlatform CustomBotHooks BotPanel Settings Console Notices EventsHook DatabaseSetup BotPages Requests StartUp PriceAlerts BundleBuild Dashboards Navigation UsersTable
begin

text \<open>
  QuantFlow core: users deploy trading bots. The API (src/api, NestJS) keeps accounts, API keys, uploaded bots and their
  deployed instances in PostgreSQL, bundles, bot state and logs in an object store, and tells the runtimes of
  changes over NATS. Agents call it over MCP. The web client (src/frontend, Next.js) shows bots and live logs.

  \<^bold>\<open>How the model is built.\<close>
  A method of the API is a computation in \<open>(world, 'a) io\<close> (theory JsIo): it takes the world, answers a value or the error that
  is thrown, and the world after it; \<open>io_bind\<close> is await, \<open>io_catch\<close> is try and catch. The world (theory Schema) holds the tables, the
  objects of the store, the published messages, the clock and a list of faults: each call of the database, the
  store, the file system or another server takes the next fault, so a theorem over all worlds holds for every
  pattern of failures. What is not under src/ is a field of the record \<open>server\<close> (theory Common): bcrypt, JWT, JSON
  text, semver, ajv, cron-validator, unzip, the configuration. A field is a function without assumptions;
  where a theorem needs more of one, the statement says so. A result of common/result.ts is the datatype \<open>result\<close>.

  \<^bold>\<open>Theories of the API and the code they model.\<close>
  \<^item> Prelude, JsIo: strings, JSON values, results and computations, with the rules for invariants (\<open>preserves\<close>) and triples.
  \<^item> Schema, Common: database/schema, common/*.ts, the calls of database and store.
  \<^item> AdminLock, LockProtocol: the lock over the last administrator (admin-mutation-lock): the functions, and the
    protocol as a step relation of many processes; \<open>tryAcquire\<close> is a run of it.
  \<^item> UserRepository, UserService, Auth, AdminBootstrap: user/ and auth/: accounts, passwords, sessions, the configured root.
  \<^item> RoleRepository, ApiKeys, AuthGuards: role-based repositories (one locale, interpreted on instances and keys), API keys, the guards.
  \<^item> RevisionRepository, Storage, CustomBotRepository, CustomBotSchema, CustomBots, CustomBotFiles: custom-bot/: uploaded bots, versions and archives.
  \<^item> BotValidator, BotService: bot/: deployed instances and the events to the runtimes.
  \<^item> BotState, StateLocking: bot-state/: the archive of a bot's state and its optimistic lock.
  \<^item> Utf8, Dates, Logs, LogPages, LogStream: logs/: the text of bytes, the calendar, queries and pages, and the fan-out of live
    lines as a step relation.
  \<^item> BotQuery, Mcp: bot-query/ and mcp/: queries to a running bot and the tools of agents.
  \<^item> ApiPlatform, DatabaseSetup: config/, minio/, nats/nats.service.ts, health/, database/connection.ts, migrate.ts and seed.ts:
    what the API stands on, and the scripts that prepare it.
  \<^item> Requests: */dto and the validation of main.ts: which requests reach the controllers, and that those of the log page do.
  \<^item> StartUp: main.ts, the tasks of its modules and the bucket: the API listens only when what it needs is there.

  \<^bold>\<open>Theories of the web client.\<close>
  The browser is a second kind of world: tokens, the network with its answers, and the notices of the session.
  \<^item> Http, BrowserSession: lib/auth, lib/auth-fetch.ts, contexts/auth-context.tsx: requests, the token and the signed-in user,
    run at once or with requests and answers as separate steps.
  \<^item> Routes, BrowserRoutes, RouteStreams: app/api: the routes of the Next.js server, alone, called by the browser, and those that stream.
  \<^item> ApiServices: lib/api and lib/users.ts: the services over the two request clients.
  \<^item> Events, EventUtils: lib/events: log lines as events, filters and aggregations.
  \<^item> BotLogs: hooks/use-bot-logs.ts as a machine whose events are clicks, answers, timers and messages of the stream.
  \<^item> EventsHook: hooks/use-bot-events.ts, contexts/bot-events-context.tsx, sdk/react: that machine under a custom dashboard.
  \<^item> LiveView: the page against the API: what the two sides take for the same line.
  \<^item> SseClient: lib/sse/sse-client.ts: event sources and their reconnection. CustomBotHooks: the hooks that show uploaded bots live, over one contract.
  \<^item> BotPanel, BotPages, Console: the pages of an instance, of uploaded bots, and the console with its filters: state and handlers.
  \<^item> Navigation: middleware.ts, the redirects and gates of the pages and the links that are offered.
  \<^item> Dashboards: the custom dashboards of the example bots on the events of the page, and the boundary around them.
  \<^item> Settings, UsersTable, Notices: the forms of an account, its API keys and users; hooks/use-toast.ts.

  \<^bold>\<open>Theories of the SDK (sdk/nodejs).\<close>
  \<^item> SdkState: the state of a bot as files, against a table; SdkQuery: the queries it answers; SdkEvents: what it prints, read back by the web client.
  \<^item> PriceAlerts: example-bots/typescript-price-alerts: a bot that uses all three, and its variant without the SDK.
  \<^item> BundleBuild: sdk/react: the build of a custom dashboard, which takes React from the page that loads it.

  \<^bold>\<open>What is shown.\<close>
  Each theory states the functional behaviour of its operations and keeps an invariant; the properties are: an
  active administrator always remains, under any interleaving of processes holding the lock for less than its
  limit; the lock recovers from crashes where the driver's duplicate error is recognised; accounts move forward only, and a revoked session never returns; guards admit active users only;
  every user's keys, instances, bots and state are out of the reach of all others, also through agents; a version
  has one owner, only grows and is checked against its schema; pages of logs are pages of the whole log; live lines reach every
  connected client; the log page shows the history followed by the updates; a dashboard shows what its bot printed; the redirects of the pages end
  if the instance shown first can be loaded.
  Some properties of kind error state what goes wrong; each is an entry of the findings.

  \<^bold>\<open>Bounds and simplifications.\<close>
  The lock is tried as often as the code does (50 attempts); loops over days and chunks are structural or have a
  measure; nothing needs fuel. Only the redirects of the pages may go on for ever: \<open>follow_redirects\<close> is partial, and its end is
  proved under the condition that it needs. A page holds at most the 10000 entries of the code, a tail read \<open>TAIL_BYTES\<close>.
  There is one clock, which never goes back. Strings are of Latin-1, except that what Logs reads from the bytes of the store is
  kept in its UTF-8 form (Utf8). Numbers of JSON are exact rationals; where a bot divides by zero the result is NaN or infinite
  (PriceAlerts). Local time has a fixed offset from UTC. The order in which a directory is read is a parameter (SdkState). Rows that tie in an ORDER BY keep the order of insertion. Objects are read as their own
  keys, except where the inherited ones matter (EventUtils). Code between two awaits runs without interruption;
  interleavings are modelled where the code keeps shared state (LockProtocol, LogStream, BrowserSession, BotLogs, SseClient,
  RouteStreams, CustomBotHooks, SdkQuery, BotPanel, Settings). Other requests of the API are served to their end before the next
  begins: two uploads of one name, or two writers of one archive of state, at the same time are not covered.

  \<^bold>\<open>Not modelled.\<close>
  The wiring of the modules, the logger, the classes that only name the fields of an answer; rendering, layout and styles
  of the web client, its clipboard and scrolling; static pages; hooks/use-user-bots.ts and custom-bot-detail-page.tsx, which
  no page uses; the other example bots; SDKs, runtimes and the CLI in other languages; documentation and tests.
\<close>

end
